(* ===== verification/Prelude.thy ===== *)
theory Prelude
  imports Complex_Main
begin

section \<open>Shared notions of the development\<close>

text \<open>
  What every component uses: the result type of code that throws (a sum, with the error on the
  left), its sequencing operator, the collections of rewrite rules that carry the component
  proofs, and a few facts on lists and maps. Nothing here models code of its own.
\<close>

named_theorems res_simps \<open>sequencing of fallible computations\<close>
named_theorems text_simps \<open>facts on decimal text\<close>

subsection \<open>Results of fallible code\<close>

type_synonym ('e, 'a) res = "'e + 'a"

definition rbind :: "('e, 'a) res \<Rightarrow> ('a \<Rightarrow> ('e, 'b) res) \<Rightarrow> ('e, 'b) res" where
  "rbind m f = (case m of Inl e \<Rightarrow> Inl e | Inr x \<Rightarrow> f x)"

definition demand :: "bool \<Rightarrow> 'e \<Rightarrow> ('e, unit) res" where
  "demand b e = (if b then Inr () else Inl e)"

definition is_ok :: "('e, 'a) res \<Rightarrow> bool" where
  "is_ok m = (case m of Inl _ \<Rightarrow> False | Inr _ \<Rightarrow> True)"

lemma rbind_Inl [simp]: "rbind (Inl e) f = Inl e"
  by (simp add: rbind_def)

lemma rbind_Inr [simp]: "rbind (Inr x) f = f x"
  by (simp add: rbind_def)

lemma rbind_eq_Inr [res_simps]: "rbind m f = Inr y \<longleftrightarrow> (\<exists>x. m = Inr x \<and> f x = Inr y)"
  by (cases m) auto

lemma rbind_eq_Inl [res_simps]:
  "rbind m f = Inl e \<longleftrightarrow> m = Inl e \<or> (\<exists>x. m = Inr x \<and> f x = Inl e)"
  by (cases m) auto

lemma rbindE:
  assumes "rbind m f = Inr y"
  obtains x where "m = Inr x" and "f x = Inr y"
  using assms by (auto simp: rbind_eq_Inr)

lemma demand_eq_Inr [simp]: "demand b e = Inr u \<longleftrightarrow> b"
  by (simp add: demand_def)

lemma demand_eq_Inl [simp]: "demand b e = Inl e' \<longleftrightarrow> \<not> b \<and> e' = e"
  by (auto simp: demand_def)

lemma demand_True [simp]: "demand True e = Inr ()"
  and demand_False [simp]: "demand False e = Inl e"
  by (simp_all add: demand_def)

lemma is_ok_simps [simp]: "is_ok (Inr x)" "\<not> is_ok (Inl e)"
  by (simp_all add: is_ok_def)

lemma is_ok_iff: "is_ok m \<longleftrightarrow> (\<exists>x. m = Inr x)"
  by (cases m) auto

lemma case_sum_eq_Inr [res_simps]:
  "(case m of Inl e \<Rightarrow> Inl (g e) | Inr x \<Rightarrow> f x) = Inr y \<longleftrightarrow> (\<exists>x. m = Inr x \<and> f x = Inr y)"
  by (cases m) auto

lemma if_Inl_eq_Inr [res_simps]: "(if b then Inl e else m) = Inr y \<longleftrightarrow> \<not> b \<and> m = Inr y"
  by simp

text \<open>Running a list of fallible steps from left to right; the first error stops the run.\<close>

fun foldl_res :: "('s \<Rightarrow> 'x \<Rightarrow> ('e, 's) res) \<Rightarrow> 's \<Rightarrow> 'x list \<Rightarrow> ('e, 's) res" where
  "foldl_res f s [] = Inr s"
| "foldl_res f s (x # xs) = rbind (f s x) (\<lambda>s'. foldl_res f s' xs)"

lemma foldl_res_invariant:
  assumes "foldl_res f s xs = Inr t" and "P s"
    and "\<And>s x s'. P s \<Longrightarrow> x \<in> set xs \<Longrightarrow> f s x = Inr s' \<Longrightarrow> P s'"
  shows "P t"
  using assms
proof (induction xs arbitrary: s)
  case Nil
  then show ?case by simp
next
  case (Cons x xs)
  from Cons.prems(1) obtain s' where step: "f s x = Inr s'" and rest: "foldl_res f s' xs = Inr t"
    by (auto simp: rbind_eq_Inr)
  have "P s'" by (rule Cons.prems(3)[OF Cons.prems(2) _ step]) simp
  with rest show ?case
    by (rule Cons.IH) (use Cons.prems(3) in auto)
qed

text \<open>The same computation on every element, in order; the first error stops.\<close>

fun mapR :: "('a \<Rightarrow> ('e, 'b) res) \<Rightarrow> 'a list \<Rightarrow> ('e, 'b list) res" where
  "mapR f [] = Inr []"
| "mapR f (x # xs) = rbind (f x) (\<lambda>y. rbind (mapR f xs) (\<lambda>ys. Inr (y # ys)))"

lemma mapR_cong [fundef_cong]:
  "xs = ys \<Longrightarrow> (\<And>x. x \<in> set ys \<Longrightarrow> f x = g x) \<Longrightarrow> mapR f xs = mapR g ys"
  by (induction ys arbitrary: xs) auto

lemma mapR_if:
  "(\<And>x. x \<in> set xs \<Longrightarrow> f x = (if ok x then Inr (g x) else Inl e)) \<Longrightarrow>
   mapR f xs = (if list_all ok xs then Inr (map g xs) else Inl e)"
  by (induction xs) auto

subsection \<open>Characters and decimal digits\<close>

definition is_digit :: "char \<Rightarrow> bool" where
  "is_digit c \<longleftrightarrow> 48 \<le> (of_char c :: nat) \<and> (of_char c :: nat) \<le> 57"

definition digit_val :: "char \<Rightarrow> nat" where
  "digit_val c = of_char c - 48"

definition digit_char :: "nat \<Rightarrow> char" where
  "digit_char n = char_of (48 + n)"

lemma is_digit_digit_char [simp, text_simps]: "n < 10 \<Longrightarrow> is_digit (digit_char n)"
  by (simp add: is_digit_def digit_char_def)

lemma digit_val_digit_char [simp, text_simps]: "n < 10 \<Longrightarrow> digit_val (digit_char n) = n"
  by (simp add: digit_val_def digit_char_def)

lemma digit_char_digit_val [simp, text_simps]: "is_digit c \<Longrightarrow> digit_char (digit_val c) = c"
  by (simp add: is_digit_def digit_char_def digit_val_def)

lemma digit_val_less [simp, text_simps]: "is_digit c \<Longrightarrow> digit_val c < 10"
  by (auto simp: is_digit_def digit_val_def)

lemma digit_val_inject: "is_digit c \<Longrightarrow> is_digit d \<Longrightarrow> digit_val c = digit_val d \<longleftrightarrow> c = d"
  by (metis digit_char_digit_val)

lemma digit_val_0_iff: "is_digit c \<Longrightarrow> digit_val c = 0 \<longleftrightarrow> c = CHR ''0''"
  using digit_val_inject[of c "CHR ''0''"] by (simp add: is_digit_def digit_val_def)

lemma is_digit_zero [simp]: "is_digit (CHR ''0'')"
  and digit_val_zero [simp]: "digit_val (CHR ''0'') = 0"
  and not_digit_dot [simp]: "\<not> is_digit (CHR ''.'')"
  and not_digit_minus [simp]: "\<not> is_digit (CHR ''-'')"
  and not_digit_plus [simp]: "\<not> is_digit (CHR ''+'')"
  by (simp_all add: is_digit_def digit_val_def)

subsection \<open>White space, as \<^verbatim>\<open>String.prototype.trim\<close> removes it\<close>

definition is_space :: "char \<Rightarrow> bool" where
  "is_space c \<longleftrightarrow> (of_char c :: nat) \<in> {9, 10, 11, 12, 13, 32, 160}"

definition trim :: "string \<Rightarrow> string" where
  "trim s = rev (dropWhile is_space (rev (dropWhile is_space s)))"

subsection \<open>Lists\<close>

text \<open>\<^verbatim>\<open>[...new Set(values)]\<close> keeps the first occurrence of each value.\<close>

definition set_of_values :: "'a list \<Rightarrow> 'a list" where
  "set_of_values xs = rev (remdups (rev xs))"

lemma set_of_values [simp]: "set (set_of_values xs) = set xs" "distinct (set_of_values xs)"
  by (simp_all add: set_of_values_def)

lemma takeWhile_all_append: "list_all P xs \<Longrightarrow> \<not> P y \<Longrightarrow> takeWhile P (xs @ y # ys) = xs"
  by (induction xs) auto

lemma dropWhile_all_append: "list_all P xs \<Longrightarrow> \<not> P y \<Longrightarrow> dropWhile P (xs @ y # ys) = y # ys"
  by (induction xs) auto

lemma list_all_takeWhile: "list_all P (takeWhile P xs)"
  by (induction xs) auto

lemma remdups_eq_if_distinct: "distinct xs \<Longrightarrow> remdups xs = xs"
  by (rule distinct_remdups_id)

subsection \<open>Options\<close>

definition option_all :: "('a \<Rightarrow> bool) \<Rightarrow> 'a option \<Rightarrow> bool" where
  "option_all P v = (case v of None \<Rightarrow> True | Some x \<Rightarrow> P x)"

lemma option_all_simps [simp]: "option_all P None" "option_all P (Some x) = P x"
  by (simp_all add: option_all_def)

end
