(* ===== verification/Decimal_Text.thy ===== *)
theory Decimal_Text
  imports Prelude
begin

section \<open>Fixed-point decimal text\<close>

text \<open>
  The program keeps every order quantity and price as a string of decimal digits. This theory
  holds what the components share about such text: the numerals it can hold, the rational number
  a numeral denotes, its normal form, and the fact that the normal form is unique (two normal
  numerals with the same value are the same string). BigInt text (\<open>toString\<close>, \<open>BigInt(s)\<close>) is
  \<open>nat_digits\<close> and \<open>digits_nat\<close>.
\<close>

subsection \<open>Natural numbers and their digits\<close>

definition digits_nat :: "string \<Rightarrow> nat" where
  "digits_nat s = foldl (\<lambda>n c. 10 * n + digit_val c) 0 s"

fun nat_digits :: "nat \<Rightarrow> string" where
  "nat_digits n = (if n < 10 then [digit_char n] else nat_digits (n div 10) @ [digit_char (n mod 10)])"

declare nat_digits.simps [simp del]

lemma foldl_digits: "foldl (\<lambda>n c. 10 * n + digit_val c) a s = a * 10 ^ length s + digits_nat s"
proof (induction s rule: rev_induct)
  case Nil
  then show ?case by (simp add: digits_nat_def)
next
  case (snoc c s)
  then show ?case by (simp add: digits_nat_def algebra_simps)
qed

lemma digits_nat_Nil [simp]: "digits_nat [] = 0"
  by (simp add: digits_nat_def)

lemma digits_nat_Cons: "digits_nat (c # s) = digit_val c * 10 ^ length s + digits_nat s"
  using foldl_digits[of "digit_val c" s] by (simp add: digits_nat_def)

lemma digits_nat_append: "digits_nat (s @ t) = digits_nat s * 10 ^ length t + digits_nat t"
  using foldl_digits[of "digits_nat s" t] by (simp add: digits_nat_def)

lemma digits_nat_snoc: "digits_nat (s @ [c]) = 10 * digits_nat s + digit_val c"
  by (simp add: digits_nat_append digits_nat_Cons)

lemma digits_nat_less: "list_all is_digit s \<Longrightarrow> digits_nat s < 10 ^ length s"
proof (induction s)
  case Nil
  then show ?case by simp
next
  case (Cons c s)
  then have IH: "digits_nat s < 10 ^ length s" and d: "digit_val c \<le> 9"
    using digit_val_less[of c] by (simp_all add: less_Suc_eq_le[symmetric])
  from d have "digit_val c * 10 ^ length s \<le> 9 * 10 ^ length s" by (rule mult_le_mono1)
  then have "digits_nat (c # s) < 10 ^ length s + 9 * 10 ^ length s"
    unfolding digits_nat_Cons using IH by linarith
  then show ?case by simp
qed

lemma digits_nat_inject:
  assumes "list_all is_digit s" and "list_all is_digit t" and "length s = length t"
    and "digits_nat s = digits_nat t"
  shows "s = t"
  using assms(3,1,2,4)
proof (induction s t rule: list_induct2)
  case Nil
  then show ?case by simp
next
  case (Cons c s d t)
  let ?k = "10 ^ length s :: nat"
  have k: "length t = length s" using Cons.hyps by simp
  have less: "digits_nat s < ?k" "digits_nat t < ?k"
    using digits_nat_less[of s] digits_nat_less[of t] Cons.prems(1,2) k by simp_all
  from Cons.prems(3) have eq: "digit_val c * ?k + digits_nat s = digit_val d * ?k + digits_nat t"
    by (simp add: digits_nat_Cons k)
  then have "(digit_val c * ?k + digits_nat s) div ?k = (digit_val d * ?k + digits_nat t) div ?k"
    by simp
  then have "digit_val c = digit_val d" using less by simp
  with eq Cons show ?case by (auto simp: digit_val_inject)
qed

lemma nat_digits_nonempty [simp]: "nat_digits n \<noteq> []"
  by (subst nat_digits.simps) simp

lemma nat_digits_all [simp]: "list_all is_digit (nat_digits n)"
proof (induction n rule: nat_digits.induct)
  case (1 n)
  then show ?case by (subst nat_digits.simps) auto
qed

lemma digits_nat_digits [simp]: "digits_nat (nat_digits n) = n"
proof (induction n rule: nat_digits.induct)
  case (1 n)
  then show ?case by (subst nat_digits.simps) (auto simp: digits_nat_snoc digits_nat_Cons)
qed

lemma nat_digits_hd: "n \<noteq> 0 \<Longrightarrow> hd (nat_digits n) \<noteq> CHR ''0''"
proof (induction n rule: nat_digits.induct)
  case (1 n)
  show ?case
  proof (cases "n < 10")
    case True
    then have "digit_val (digit_char n) = n" by simp
    with True 1(2) show ?thesis
      by (subst nat_digits.simps) (metis digit_val_zero list.sel(1))
  next
    case False
    with 1 show ?thesis by (subst nat_digits.simps) simp
  qed
qed

lemma nat_digits_0: "nat_digits 0 = ''0''"
  by (subst nat_digits.simps) (simp add: digit_char_digit_val[of "CHR ''0''", simplified])

lemma nat_digits_bounds:
  assumes "n \<noteq> 0"
  shows "10 ^ (length (nat_digits n) - 1) \<le> n" and "n < 10 ^ length (nat_digits n)"
proof -
  let ?s = "nat_digits n"
  show "n < 10 ^ length ?s" using digits_nat_less[of ?s] by simp
  obtain c t where s: "?s = c # t" by (cases ?s) auto
  have "is_digit c" using nat_digits_all[of n] s by simp
  moreover have "c \<noteq> CHR ''0''" using nat_digits_hd[OF assms] s by simp
  ultimately have "1 \<le> digit_val c" using digit_val_0_iff[of c] by (metis less_one not_le)
  then have "10 ^ length t \<le> digit_val c * 10 ^ length t" by simp
  moreover have "digits_nat ?s = digit_val c * 10 ^ length t + digits_nat t"
    by (simp only: s digits_nat_Cons)
  moreover have "digits_nat ?s = n" by simp
  ultimately have "10 ^ length t \<le> n" by linarith
  then show "10 ^ (length ?s - 1) \<le> n" by (simp add: s)
qed

subsection \<open>Numerals\<close>

text \<open>The tail of \<^verbatim>\<open>/^\d+(?:\.\d+)?$/\<close> after the integer digits.\<close>

fun fraction_tail :: "string \<Rightarrow> bool" where
  "fraction_tail [] = True"
| "fraction_tail (c # f) = (c = CHR ''.'' \<and> f \<noteq> [] \<and> list_all is_digit f)"

definition unsigned_text :: "string \<Rightarrow> bool" where
  "unsigned_text s \<longleftrightarrow> takeWhile is_digit s \<noteq> [] \<and> fraction_tail (dropWhile is_digit s)"

text \<open>\<^verbatim>\<open>value.startsWith('-')\<close> and the text after the sign.\<close>

definition negative_text :: "string \<Rightarrow> bool" where
  "negative_text s \<longleftrightarrow> (case s of [] \<Rightarrow> False | c # _ \<Rightarrow> c = CHR ''-'')"

definition unsigned_part :: "string \<Rightarrow> string" where
  "unsigned_part s = (if negative_text s then tl s else s)"

text \<open>\<^verbatim>\<open>/^-?\d+(?:\.\d+)?$/\<close>\<close>

definition signed_text :: "string \<Rightarrow> bool" where
  "signed_text s \<longleftrightarrow> unsigned_text (unsigned_part s)"

text \<open>\<^verbatim>\<open>const [integer = '0', fraction = ''] = text.split('.')\<close>\<close>

definition split_dot :: "string \<Rightarrow> string \<times> string" where
  "split_dot s = (takeWhile (\<lambda>c. c \<noteq> CHR ''.'') s,
     takeWhile (\<lambda>c. c \<noteq> CHR ''.'') (drop 1 (dropWhile (\<lambda>c. c \<noteq> CHR ''.'') s)))"

definition join_dot :: "string \<Rightarrow> string \<Rightarrow> string" where
  "join_dot i f = i @ (if f = [] then [] else CHR ''.'' # f)"

lemma not_dot_if_digits: "list_all is_digit s \<Longrightarrow> list_all (\<lambda>c. c \<noteq> CHR ''.'') s"
  by (induction s) auto

lemma takeWhile_all: "list_all P s \<Longrightarrow> takeWhile P s = s"
  by (induction s) auto

lemma dropWhile_all: "list_all P s \<Longrightarrow> dropWhile P s = []"
  by (induction s) auto

lemma split_join_dot:
  assumes "list_all is_digit i" and "list_all is_digit f"
  shows "split_dot (join_dot i f) = (i, f)"
  using not_dot_if_digits[OF assms(1)] not_dot_if_digits[OF assms(2)]
  by (auto simp: split_dot_def join_dot_def takeWhile_all_append dropWhile_all_append
      takeWhile_all dropWhile_all)

lemma unsigned_text_join:
  assumes "list_all is_digit i" and "list_all is_digit f" and "i \<noteq> []"
  shows "unsigned_text (join_dot i f)"
  using assms
  by (auto simp: unsigned_text_def join_dot_def takeWhile_all_append dropWhile_all_append
      takeWhile_all dropWhile_all)

lemma unsigned_textE:
  assumes "unsigned_text s"
  obtains i f where "s = join_dot i f" and "list_all is_digit i" and "list_all is_digit f" and "i \<noteq> []"
proof -
  let ?i = "takeWhile is_digit s"
  have s: "s = ?i @ dropWhile is_digit s" by simp
  have i: "list_all is_digit ?i" by (rule list_all_takeWhile)
  have ne: "?i \<noteq> []" and tail: "fraction_tail (dropWhile is_digit s)"
    using assms by (simp_all add: unsigned_text_def)
  show ?thesis
  proof (cases "dropWhile is_digit s")
    case Nil
    have "s = join_dot ?i []" using s unfolding Nil by (simp add: join_dot_def)
    then show ?thesis by (rule that) (simp_all add: i ne)
  next
    case (Cons c f)
    have "s = join_dot ?i f" using s tail unfolding Cons by (simp add: join_dot_def)
    moreover have "list_all is_digit f" using tail unfolding Cons by simp
    ultimately show ?thesis using that i ne by blast
  qed
qed

lemma not_negative_join: "list_all is_digit i \<Longrightarrow> i \<noteq> [] \<Longrightarrow> \<not> negative_text (join_dot i f)"
  by (cases i) (auto simp: negative_text_def join_dot_def)

lemma unsigned_not_negative: "unsigned_text s \<Longrightarrow> \<not> negative_text s"
  by (erule unsigned_textE) (simp add: not_negative_join)

subsection \<open>The number a numeral denotes\<close>

definition unsigned_value :: "string \<Rightarrow> rat" where
  "unsigned_value s = (case split_dot s of (i, f) \<Rightarrow> of_nat (digits_nat (i @ f)) / 10 ^ length f)"

text \<open>A leading plus sign is accepted by the constructor of the number library as well.\<close>

definition text_value :: "string \<Rightarrow> rat" where
  "text_value s =
     (if negative_text s then - unsigned_value (tl s)
      else case s of [] \<Rightarrow> 0 | c # t \<Rightarrow> if c = CHR ''+'' then unsigned_value t else unsigned_value s)"

lemma unsigned_value_join:
  assumes "list_all is_digit i" and "list_all is_digit f"
  shows "unsigned_value (join_dot i f) = of_nat (digits_nat (i @ f)) / 10 ^ length f"
  using split_join_dot[OF assms] by (simp add: unsigned_value_def)

lemma unsigned_value_nonneg: "0 \<le> unsigned_value s"
  by (simp add: unsigned_value_def split: prod.split)

lemma text_value_unsigned: "unsigned_text s \<Longrightarrow> text_value s = unsigned_value s"
proof (erule unsigned_textE)
  fix i f assume "s = join_dot i f" "list_all is_digit i" "list_all is_digit f" "i \<noteq> []"
  then show ?thesis
    using not_negative_join[of i f]
    by (cases i) (auto simp: text_value_def join_dot_def)
qed

lemma text_value_signed:
  "signed_text s \<Longrightarrow>
     text_value s = (if negative_text s then - 1 else 1) * unsigned_value (unsigned_part s)"
  using text_value_unsigned[of s]
  by (auto simp: signed_text_def unsigned_part_def text_value_def split: if_splits)

text \<open>The numbers decimal text can denote.\<close>

definition decimal_fraction :: "rat \<Rightarrow> bool" where
  "decimal_fraction x \<longleftrightarrow> (\<exists>(c::int) (k::nat). x = of_int c / 10 ^ k)"

lemma decimal_fractionI: "x = of_int c / 10 ^ k \<Longrightarrow> decimal_fraction x"
  by (auto simp: decimal_fraction_def)

lemma decimal_fraction_of_int [simp, intro]: "decimal_fraction (of_int c)"
  by (rule decimal_fractionI[of _ c 0]) simp

lemma decimal_fraction_0 [simp]: "decimal_fraction 0"
  using decimal_fraction_of_int[of 0] by simp

lemma decimal_fraction_common:
  assumes "decimal_fraction x" and "decimal_fraction y"
  obtains a b k where "x = of_int a / 10 ^ k" and "y = of_int b / (10::rat) ^ k"
proof -
  from assms obtain a i b j where "x = of_int a / 10 ^ i" and "y = of_int b / 10 ^ j"
    unfolding decimal_fraction_def by blast
  then have "x = of_int (a * 10 ^ j) / 10 ^ (i + j)" and "y = of_int (b * 10 ^ i) / 10 ^ (i + j)"
    by (simp_all add: power_add)
  then show ?thesis by (rule that)
qed

lemma decimal_fraction_add: "decimal_fraction x \<Longrightarrow> decimal_fraction y \<Longrightarrow> decimal_fraction (x + y)"
  by (erule (1) decimal_fraction_common)
    (rule decimal_fractionI, simp add: add_divide_distrib[symmetric] flip: of_int_add)

lemma decimal_fraction_uminus: "decimal_fraction x \<Longrightarrow> decimal_fraction (- x)"
  unfolding decimal_fraction_def by (metis minus_divide_left of_int_minus)

lemma decimal_fraction_diff: "decimal_fraction x \<Longrightarrow> decimal_fraction y \<Longrightarrow> decimal_fraction (x - y)"
  using decimal_fraction_add[OF _ decimal_fraction_uminus, of x y] by simp

lemma decimal_fraction_mult:
  assumes "decimal_fraction x" and "decimal_fraction y"
  shows "decimal_fraction (x * y)"
proof -
  obtain a b k where "x = of_int a / 10 ^ k" and "y = of_int b / (10::rat) ^ k"
    by (rule decimal_fraction_common[OF assms])
  then have "x * y = of_int (a * b) / 10 ^ (k + k)" by (simp add: power_add)
  then show ?thesis by (rule decimal_fractionI)
qed

lemma decimal_fraction_unsigned_value: "decimal_fraction (unsigned_value s)"
proof (cases "split_dot s")
  case (Pair i f)
  then have "unsigned_value s = of_int (int (digits_nat (i @ f))) / 10 ^ length f"
    by (simp add: unsigned_value_def)
  then show ?thesis by (rule decimal_fractionI)
qed

lemma decimal_fraction_text_value [simp, intro]: "decimal_fraction (text_value s)"
  by (auto simp: text_value_def decimal_fraction_unsigned_value decimal_fraction_uminus
      split: list.split)

subsection \<open>Normal numerals\<close>

text \<open>
  \<^verbatim>\<open>s.replace(/^0+(?!$)/, '')\<close>: leading zeros go, but never the last character; and
  \<^verbatim>\<open>s.replace(/0+$/, '')\<close>.
\<close>

fun strip_leading_zeros :: "string \<Rightarrow> string" where
  "strip_leading_zeros [] = []"
| "strip_leading_zeros [c] = [c]"
| "strip_leading_zeros (c # d # s) =
     (if c = CHR ''0'' then strip_leading_zeros (d # s) else c # d # s)"

definition strip_trailing_zeros :: "string \<Rightarrow> string" where
  "strip_trailing_zeros s = rev (dropWhile (\<lambda>c. c = CHR ''0'') (rev s))"

definition normal_integer :: "string \<Rightarrow> bool" where
  "normal_integer i \<longleftrightarrow> i \<noteq> [] \<and> list_all is_digit i \<and> (hd i = CHR ''0'' \<longrightarrow> i = ''0'')"

definition normal_fraction :: "string \<Rightarrow> bool" where
  "normal_fraction f \<longleftrightarrow> list_all is_digit f \<and> (f \<noteq> [] \<longrightarrow> last f \<noteq> CHR ''0'')"

definition normal_unsigned :: "string \<Rightarrow> bool" where
  "normal_unsigned s \<longleftrightarrow>
     (case split_dot s of (i, f) \<Rightarrow> normal_integer i \<and> normal_fraction f \<and> s = join_dot i f)"

text \<open>No superfluous zero, no plus sign, no negative zero.\<close>

definition normal_text :: "string \<Rightarrow> bool" where
  "normal_text s \<longleftrightarrow>
     normal_unsigned (unsigned_part s) \<and> (negative_text s \<longrightarrow> unsigned_part s \<noteq> ''0'')"

lemma digits_nat_strip_leading: "digits_nat (strip_leading_zeros s) = digits_nat s"
  by (induction s rule: strip_leading_zeros.induct) (auto simp: digits_nat_Cons)

lemma strip_leading_digits: "list_all is_digit s \<Longrightarrow> list_all is_digit (strip_leading_zeros s)"
  by (induction s rule: strip_leading_zeros.induct) auto

lemma strip_leading_Nil [simp]: "strip_leading_zeros s = [] \<longleftrightarrow> s = []"
  by (induction s rule: strip_leading_zeros.induct) auto

lemma strip_leading_hd: "hd (strip_leading_zeros s) = CHR ''0'' \<Longrightarrow> s \<noteq> [] \<Longrightarrow> strip_leading_zeros s = ''0''"
  by (induction s rule: strip_leading_zeros.induct) (auto split: if_splits)

lemma normal_integer_strip:
  "list_all is_digit s \<Longrightarrow> s \<noteq> [] \<Longrightarrow> normal_integer (strip_leading_zeros s)"
  using strip_leading_hd[of s] by (auto simp: normal_integer_def strip_leading_digits)

lemma strip_trailing_snoc:
  "strip_trailing_zeros (s @ [c]) = (if c = CHR ''0'' then strip_trailing_zeros s else s @ [c])"
  by (simp add: strip_trailing_zeros_def)

lemma strip_trailing_Nil [simp]: "strip_trailing_zeros [] = []"
  by (simp add: strip_trailing_zeros_def)

lemma normal_fraction_strip: "list_all is_digit f \<Longrightarrow> normal_fraction (strip_trailing_zeros f)"
  by (induction f rule: rev_induct) (auto simp: strip_trailing_snoc normal_fraction_def)

lemma strip_trailing_value:
  "of_nat (digits_nat (i @ strip_trailing_zeros f)) / 10 ^ length (strip_trailing_zeros f)
     = (of_nat (digits_nat (i @ f)) / 10 ^ length f :: rat)"
proof (induction f rule: rev_induct)
  case Nil
  then show ?case by simp
next
  case (snoc c f)
  show ?case
  proof (cases "c = CHR ''0''")
    case True
    have "digits_nat (i @ f @ ''0'') = 10 * digits_nat (i @ f)"
      using digits_nat_snoc[of "i @ f" "CHR ''0''"] by simp
    with True snoc show ?thesis by (simp add: strip_trailing_snoc)
  next
    case False
    then show ?thesis by (simp add: strip_trailing_snoc)
  qed
qed

lemma strip_normal_integer: "normal_integer i \<Longrightarrow> strip_leading_zeros i = i"
  by (cases i rule: strip_leading_zeros.cases) (auto simp: normal_integer_def)

lemma strip_normal_fraction: "normal_fraction f \<Longrightarrow> strip_trailing_zeros f = f"
  by (cases f rule: rev_cases) (auto simp: normal_fraction_def strip_trailing_snoc)

lemma normal_unsigned_join:
  "normal_integer i \<Longrightarrow> normal_fraction f \<Longrightarrow> normal_unsigned (join_dot i f)"
  by (simp add: normal_unsigned_def split_join_dot normal_integer_def normal_fraction_def)

lemma normal_unsignedE:
  assumes "normal_unsigned s"
  obtains i f where "s = join_dot i f" and "normal_integer i" and "normal_fraction f"
  using assms by (auto simp: normal_unsigned_def split: prod.splits)

lemma normal_unsigned_text: "normal_unsigned s \<Longrightarrow> unsigned_text s"
  by (erule normal_unsignedE)
    (simp add: unsigned_text_join normal_integer_def normal_fraction_def)

lemma normal_signed_text: "normal_text s \<Longrightarrow> signed_text s"
  by (simp add: normal_text_def signed_text_def normal_unsigned_text)

lemma normal_unsigned_zero: "normal_unsigned ''0''"
  using normal_unsigned_join[of "''0''" "[]"]
  by (simp add: normal_integer_def normal_fraction_def join_dot_def)

lemma normal_text_zero [simp]: "normal_text ''0''"
  by (simp add: normal_text_def unsigned_part_def negative_text_def normal_unsigned_zero)

lemma text_value_zero [simp]: "text_value ''0'' = 0"
  by (simp add: text_value_def negative_text_def unsigned_value_def split_dot_def digits_nat_Cons)

subsection \<open>The normal numeral of a number is unique\<close>

lemma normal_integer_lower:
  assumes "normal_integer k" and "digits_nat k \<noteq> 0"
  shows "10 ^ (length k - 1) \<le> digits_nat k"
proof -
  from assms obtain c t where s: "k = c # t" and d: "is_digit c" by (cases k) (auto simp: normal_integer_def)
  have "c \<noteq> CHR ''0''"
  proof
    assume "c = CHR ''0''"
    with assms s show False by (auto simp: normal_integer_def digits_nat_Cons)
  qed
  with d have "1 \<le> digit_val c" using digit_val_0_iff[of c] by (metis less_one not_le)
  then have "10 ^ length t \<le> digit_val c * 10 ^ length t" by simp
  then show ?thesis by (simp add: s digits_nat_Cons trans_le_add1)
qed

lemma normal_integer_zero:
  assumes "normal_integer k" and "digits_nat k = 0"
  shows "k = ''0''"
proof -
  from assms obtain c t where s: "k = c # t" and d: "is_digit c" by (cases k) (auto simp: normal_integer_def)
  from assms(2) have "digit_val c = 0" by (simp add: s digits_nat_Cons)
  with d have "c = CHR ''0''" by (simp add: digit_val_0_iff)
  with assms s show ?thesis by (simp add: normal_integer_def)
qed

lemma normal_integer_inject:
  assumes "normal_integer i" and "normal_integer j" and "digits_nat i = digits_nat j"
  shows "i = j"
proof (cases "digits_nat i = 0")
  case True
  with assms normal_integer_zero show ?thesis by metis
next
  case False
  have le: "length k \<le> length l"
    if "normal_integer k" "normal_integer l" "digits_nat k = digits_nat l" "digits_nat k \<noteq> 0" for k l
  proof -
    have "digits_nat l < 10 ^ length l"
      using that digits_nat_less[of l] by (simp add: normal_integer_def)
    then have "10 ^ (length k - 1) < (10::nat) ^ length l"
      using normal_integer_lower[of k] that by linarith
    then have "length k - 1 < length l" by (simp add: power_strict_increasing_iff)
    then show ?thesis by linarith
  qed
  have "length i = length j" using le[of i j] le[of j i] assms False by simp
  with assms show ?thesis by (intro digits_nat_inject) (auto simp: normal_integer_def)
qed

lemma normal_fraction_length:
  assumes eq: "of_nat a / 10 ^ length f = (of_nat b / 10 ^ length g :: rat)"
    and f: "a = digits_nat (i @ f)" "normal_fraction f" and len: "length g < length f"
  shows False
proof -
  from len obtain h c where s: "f = h @ [c]" by (cases f rule: rev_cases) auto
  from f s have c: "is_digit c" "c \<noteq> CHR ''0''" by (auto simp: normal_fraction_def)
  obtain n where n: "length f = length g + Suc n" using len less_imp_Suc_add by auto
  have "(of_nat a :: rat) = of_nat b * 10 ^ Suc n"
    using eq by (simp add: n power_add field_simps)
  then have "a = b * 10 ^ Suc n" by (metis of_nat_eq_iff of_nat_mult of_nat_numeral of_nat_power)
  then have "a mod 10 = 0" by simp
  moreover have "a = 10 * digits_nat (i @ h) + digit_val c"
    using digits_nat_snoc[of "i @ h" c] by (simp add: f s)
  ultimately have "digit_val c = 0" using digit_val_less[OF c(1)] by simp
  with c show False by (simp add: digit_val_0_iff)
qed

lemma normal_unsigned_inject:
  assumes "normal_unsigned s" and "normal_unsigned t" and "unsigned_value s = unsigned_value t"
  shows "s = t"
proof -
  from assms(1) obtain i f where s: "s = join_dot i f" "normal_integer i" "normal_fraction f"
    by (rule normal_unsignedE)
  from assms(2) obtain j g where t: "t = join_dot j g" "normal_integer j" "normal_fraction g"
    by (rule normal_unsignedE)
  have eq: "of_nat (digits_nat (i @ f)) / 10 ^ length f = (of_nat (digits_nat (j @ g)) / 10 ^ length g :: rat)"
    using assms(3) s t by (simp add: unsigned_value_join normal_integer_def normal_fraction_def)
  have len: "length f = length g"
    using normal_fraction_length[OF eq refl s(3)] normal_fraction_length[OF eq[symmetric] refl t(3)]
    by (metis nat_neq_iff)
  with eq have "digits_nat (i @ f) = digits_nat (j @ g)" by simp
  then have e: "digits_nat i * 10 ^ length f + digits_nat f = digits_nat j * 10 ^ length f + digits_nat g"
    by (simp add: digits_nat_append len)
  have l: "digits_nat f < 10 ^ length f" "digits_nat g < 10 ^ length f"
    using digits_nat_less[of f] digits_nat_less[of g] s t len by (auto simp: normal_fraction_def)
  have i: "digits_nat i = digits_nat j" using arg_cong[OF e, of "\<lambda>n. n div 10 ^ length f"] l by simp
  with e have "digits_nat f = digits_nat g" by simp
  then have "f = g" using s t len by (intro digits_nat_inject) (auto simp: normal_fraction_def)
  moreover have "i = j" using normal_integer_inject s t i by blast
  ultimately show ?thesis using s t by simp
qed

lemma unsigned_value_0_iff: "normal_unsigned s \<Longrightarrow> unsigned_value s = 0 \<longleftrightarrow> s = ''0''"
  using normal_unsigned_inject[OF _ normal_unsigned_zero, of s] text_value_unsigned[of "''0''"]
    normal_unsigned_text[OF normal_unsigned_zero]
  by auto

lemma text_value_normal_neg: "normal_text s \<Longrightarrow> negative_text s \<longleftrightarrow> text_value s < 0"
  using unsigned_value_0_iff[of "unsigned_part s"] unsigned_value_nonneg[of "unsigned_part s"]
  by (auto simp: text_value_signed normal_signed_text normal_text_def less_le)

theorem normal_text_inject:
  assumes "normal_text s" and "normal_text t" and "text_value s = text_value t"
  shows "s = t"
proof -
  have neg: "negative_text s = negative_text t"
    using assms text_value_normal_neg by simp
  then have "unsigned_value (unsigned_part s) = unsigned_value (unsigned_part t)"
    using assms by (simp add: text_value_signed normal_signed_text split: if_splits)
  then have "unsigned_part s = unsigned_part t"
    using assms by (intro normal_unsigned_inject) (simp_all add: normal_text_def)
  with neg show ?thesis
    by (cases s; cases t) (auto simp: unsigned_part_def negative_text_def split: if_splits)
qed

subsection \<open>Normalisation\<close>

text \<open>The zeros of a numeral stripped, the sign of zero dropped.\<close>

definition normalize_text :: "string \<Rightarrow> string" where
  "normalize_text s =
     (case split_dot (unsigned_part s) of (i, f) \<Rightarrow>
        let i' = strip_leading_zeros i; f' = strip_trailing_zeros f
        in (if negative_text s \<and> \<not> (i' = ''0'' \<and> f' = []) then ''-'' else []) @ join_dot i' f')"

lemma unsigned_part_minus [simp]: "unsigned_part (CHR ''-'' # s) = s"
  and negative_text_minus [simp]: "negative_text (CHR ''-'' # s)"
  by (simp_all add: unsigned_part_def negative_text_def)

lemma unsigned_part_not_negative: "\<not> negative_text s \<Longrightarrow> unsigned_part s = s"
  by (simp add: unsigned_part_def)

lemma text_value_minus: "text_value (CHR ''-'' # s) = - unsigned_value s"
  by (simp add: text_value_def)

lemma normalize_text_split:
  assumes "signed_text s"
  obtains u where "normal_unsigned u" and "unsigned_value u = unsigned_value (unsigned_part s)"
    and "normalize_text s = (if negative_text s \<and> u \<noteq> ''0'' then ''-'' else []) @ u"
proof -
  from assms obtain i f where u: "unsigned_part s = join_dot i f" "list_all is_digit i"
      "list_all is_digit f" "i \<noteq> []"
    unfolding signed_text_def by (rule unsigned_textE)
  let ?i = "strip_leading_zeros i" and ?f = "strip_trailing_zeros f"
  have n: "normal_integer ?i" "normal_fraction ?f"
    using u by (simp_all add: normal_integer_strip normal_fraction_strip)
  have v: "unsigned_value (join_dot ?i ?f) = unsigned_value (join_dot i f)"
    using n u strip_trailing_value[of i f] strip_trailing_value[of ?i f]
    by (simp add: unsigned_value_join normal_integer_def normal_fraction_def digits_nat_append
        digits_nat_strip_leading)
  have z: "join_dot ?i ?f = ''0'' \<longleftrightarrow> ?i = ''0'' \<and> ?f = []"
    using n by (auto simp: join_dot_def normal_integer_def append_eq_Cons_conv split: if_splits)
  have "normalize_text s = (if negative_text s \<and> join_dot ?i ?f \<noteq> ''0'' then ''-'' else []) @ join_dot ?i ?f"
    using u z by (auto simp: normalize_text_def split_join_dot Let_def)
  with normal_unsigned_join[OF n] v u(1) show ?thesis by (intro that) simp_all
qed

lemma normalize_text_normal:
  assumes "signed_text s"
  shows "normal_text (normalize_text s)"
proof -
  obtain u where u: "normal_unsigned u"
      "normalize_text s = (if negative_text s \<and> u \<noteq> ''0'' then ''-'' else []) @ u"
    by (rule normalize_text_split[OF assms])
  then have "\<not> negative_text u" using unsigned_not_negative normal_unsigned_text by blast
  with u show ?thesis by (auto simp: normal_text_def unsigned_part_not_negative)
qed

lemma normalize_text_value:
  assumes "signed_text s"
  shows "text_value (normalize_text s) = text_value s"
proof -
  obtain u where u: "normal_unsigned u" "unsigned_value u = unsigned_value (unsigned_part s)"
      "normalize_text s = (if negative_text s \<and> u \<noteq> ''0'' then ''-'' else []) @ u"
    by (rule normalize_text_split[OF assms])
  have "text_value u = unsigned_value u"
    using u(1) by (intro text_value_unsigned normal_unsigned_text)
  with u unsigned_value_0_iff[OF u(1)] show ?thesis
    by (auto simp: text_value_signed[OF assms] text_value_minus)
qed

lemma normalize_normal: "normal_text s \<Longrightarrow> normalize_text s = s"
  by (rule normal_text_inject)
    (auto intro: normalize_text_normal normalize_text_value normal_signed_text)

text \<open>Two numerals have the same normal form exactly when they denote the same number.\<close>

lemma normalize_text_eq_iff:
  "signed_text s \<Longrightarrow> signed_text t \<Longrightarrow> normalize_text s = normalize_text t \<longleftrightarrow> text_value s = text_value t"
  by (metis normal_text_inject normalize_text_normal normalize_text_value)

subsection \<open>Printing a scaled integer\<close>

text \<open>\<^verbatim>\<open>s.padStart(n, '0')\<close>, and the text of \<open>c / 10^k\<close> with \<open>k\<close> fraction digits.\<close>

definition pad_start :: "nat \<Rightarrow> string \<Rightarrow> string" where
  "pad_start n s = replicate (n - length s) (CHR ''0'') @ s"

definition scaled_text :: "int \<Rightarrow> nat \<Rightarrow> string" where
  "scaled_text c k =
     (let ds = pad_start (k + 1) (nat_digits (nat \<bar>c\<bar>))
      in (if c < 0 then ''-'' else []) @ join_dot (take (length ds - k) ds) (drop (length ds - k) ds))"

lemma digits_nat_replicate: "digits_nat (replicate n (CHR ''0'') @ s) = digits_nat s"
  by (induction n) (simp_all add: digits_nat_Cons)

lemma pad_start_simps [simp]:
  "digits_nat (pad_start n s) = digits_nat s"
  "list_all is_digit s \<Longrightarrow> list_all is_digit (pad_start n s)"
  "length (pad_start n s) = max n (length s)"
  by (auto simp: pad_start_def digits_nat_replicate list_all_iff)

lemma list_all_take_drop: "list_all P s \<Longrightarrow> list_all P (take n s) \<and> list_all P (drop n s)"
  by (auto simp: list_all_iff dest: in_set_takeD in_set_dropD)

lemma scaled_text_unsigned:
  fixes n k
  defines "ds \<equiv> pad_start (k + 1) (nat_digits n)"
  defines "u \<equiv> join_dot (take (length ds - k) ds) (drop (length ds - k) ds)"
  shows "unsigned_text u" and "unsigned_value u = of_nat n / 10 ^ k"
proof -
  let ?i = "take (length ds - k) ds" and ?f = "drop (length ds - k) ds"
  have d: "list_all is_digit ds" and v: "digits_nat ds = n"
    by (simp_all only: ds_def pad_start_simps nat_digits_all digits_nat_digits)
  have len: "k < length ds" by (simp add: ds_def)
  have i: "list_all is_digit ?i" "list_all is_digit ?f" "?i \<noteq> []" "length ?f = k"
    using list_all_take_drop[OF d] len by auto
  from i show "unsigned_text u" unfolding u_def by (intro unsigned_text_join)
  show "unsigned_value u = of_nat n / 10 ^ k"
    using i v by (simp add: u_def unsigned_value_join)
qed

lemma scaled_text_split:
  obtains u where "scaled_text c k = (if c < 0 then ''-'' else []) @ u" and "unsigned_text u"
    and "unsigned_value u = of_nat (nat \<bar>c\<bar>) / 10 ^ k"
  using that scaled_text_unsigned[of k "nat \<bar>c\<bar>"] by (simp only: scaled_text_def Let_def)

lemma scaled_text_signed: "signed_text (scaled_text c k)"
proof -
  obtain u where u: "scaled_text c k = (if c < 0 then ''-'' else []) @ u" "unsigned_text u"
    by (rule scaled_text_split)
  then show ?thesis
    using unsigned_not_negative[OF u(2)] by (simp add: signed_text_def unsigned_part_not_negative)
qed

lemma scaled_text_value: "text_value (scaled_text c k) = of_int c / 10 ^ k"
proof -
  obtain u where u: "scaled_text c k = (if c < 0 then ''-'' else []) @ u" "unsigned_text u"
      "unsigned_value u = of_nat (nat \<bar>c\<bar>) / 10 ^ k"
    by (rule scaled_text_split)
  then show ?thesis by (simp add: text_value_minus text_value_unsigned)
qed

end
