(* ===== verification/Decimal_Context.thy ===== *)
theory Decimal_Context
  imports Decimal_Text
begin

section \<open>The decimal number library\<close>

text \<open>
  The program computes with decimal.js, a package outside the repository, through isolated clones
  of its constructor (\<^verbatim>\<open>Decimal.clone({ precision: 128, rounding: ROUND_HALF_UP, .. })\<close>). A finite
  Decimal is the rational number it denotes; the library itself is the parameter \<open>D\<close> of every
  definition that calls it:
  \<^item> \<open>dnew D s\<close> is the constructor on text,
  \<^item> \<open>dfixed D x\<close> is \<^verbatim>\<open>x.toFixed()\<close>,
  \<^item> \<open>dround D x\<close> is what an arithmetic method returns when its exact result is \<open>x\<close>.
  Comparisons (\<^verbatim>\<open>equals\<close>, \<^verbatim>\<open>lessThan\<close>, \<^verbatim>\<open>isZero\<close>, ..) are exact in the library and are those of
  the rationals. What the code relies on is stated by the locale \<open>decimal_lib\<close>; the last section
  shows that rounding half up to a given number of significant digits satisfies it.
\<close>

record decimal_js =
  dnew :: "string \<Rightarrow> rat"
  dfixed :: "rat \<Rightarrow> string"
  dround :: "rat \<Rightarrow> rat"

text \<open>Text the constructor accepts in the program: an optional sign and a numeral.\<close>

definition number_text :: "string \<Rightarrow> bool" where
  "number_text s \<longleftrightarrow>
     signed_text s \<or> (case s of [] \<Rightarrow> False | c # t \<Rightarrow> c = CHR ''+'' \<and> unsigned_text t)"

lemma signed_number_text [simp, intro]: "signed_text s \<Longrightarrow> number_text s"
  by (simp add: number_text_def)

locale decimal_lib =
  fixes D :: decimal_js and prec :: nat
  assumes dnew_text: "number_text s \<Longrightarrow> dnew D s = text_value s"
    and dfixed_normal: "decimal_fraction x \<Longrightarrow> normal_text (dfixed D x)"
    and dfixed_value: "decimal_fraction x \<Longrightarrow> text_value (dfixed D x) = x"
    and dround_exact: "\<bar>c\<bar> < 10 ^ prec \<Longrightarrow> dround D (of_int c / 10 ^ k) = of_int c / 10 ^ k"
    and dround_mono: "x \<le> y \<Longrightarrow> dround D x \<le> dround D y"
    and dround_decimal: "decimal_fraction (dround D x)"
begin

lemma dround_0 [simp]: "dround D 0 = 0"
  using dround_exact[of 0 0] by simp

lemma dround_nonneg: "0 \<le> x \<Longrightarrow> 0 \<le> dround D x"
  using dround_mono[of 0 x] by simp

lemma dround_nonpos: "x \<le> 0 \<Longrightarrow> dround D x \<le> 0"
  using dround_mono[of x 0] by simp

lemma dnew_normal: "normal_text s \<Longrightarrow> dnew D s = text_value s"
  by (simp add: dnew_text normal_signed_text)

lemma dnew_dfixed [simp]: "decimal_fraction x \<Longrightarrow> dnew D (dfixed D x) = x"
  by (simp add: dnew_normal dfixed_normal dfixed_value)

lemma dfixed_eqI: "normal_text s \<Longrightarrow> text_value s = x \<Longrightarrow> dfixed D x = s"
  using decimal_fraction_text_value[of s]
  by (intro normal_text_inject) (auto simp: dfixed_normal dfixed_value)

lemma dfixed_0 [simp]: "dfixed D 0 = ''0''"
  by (rule dfixed_eqI) simp_all

lemma dfixed_dnew: "signed_text s \<Longrightarrow> dfixed D (dnew D s) = normalize_text s"
  by (rule dfixed_eqI) (simp_all add: dnew_text normalize_text_normal normalize_text_value)

lemma dfixed_inject:
  "decimal_fraction x \<Longrightarrow> decimal_fraction y \<Longrightarrow> dfixed D x = dfixed D y \<longleftrightarrow> x = y"
  by (metis dfixed_value)

text \<open>Rounding cannot move a result past a value that the context represents exactly.\<close>

lemma dround_le_exact:
  assumes "y = of_int c / 10 ^ k" and "\<bar>c\<bar> < 10 ^ prec" and "x \<le> y"
  shows "dround D x \<le> y"
  using dround_mono[OF assms(3)] dround_exact[OF assms(2), of k] assms(1) by simp

lemma dround_ge_exact:
  assumes "y = of_int c / 10 ^ k" and "\<bar>c\<bar> < 10 ^ prec" and "y \<le> x"
  shows "y \<le> dround D x"
  using dround_mono[OF assms(3)] dround_exact[OF assms(2), of k] assms(1) by simp

end

subsection \<open>Rounding half up to significant digits\<close>

text \<open>Scale of a terminating fraction with denominator \<open>d\<close>: enough powers of ten to clear it.\<close>

function scale_of :: "nat \<Rightarrow> nat" where
  "scale_of d = (if d \<le> 1 \<or> gcd d 10 = 1 then 0 else Suc (scale_of (d div gcd d 10)))"
  by pat_completeness auto
termination
proof (relation "measure id")
  fix d :: nat
  assume "\<not> (d \<le> 1 \<or> gcd d 10 = 1)"
  then have "1 < gcd d 10" and "0 < d" by (auto simp: Suc_lessI)
  then show "(d div gcd d 10, d) \<in> measure id" by simp
qed simp

declare scale_of.simps [simp del]

lemma scale_step:
  assumes "d dvd 10 ^ Suc j"
  shows "d div gcd d 10 dvd (10::nat) ^ j"
proof -
  let ?g = "gcd d 10"
  have cop: "coprime (d div ?g) (10 div ?g)" by (rule div_gcd_coprime) simp
  have "?g * (d div ?g) dvd ?g * (10 div ?g * 10 ^ j)"
  proof -
    have "?g * (10 div ?g) = 10" by simp
    then have e: "?g * (10 div ?g * 10 ^ j) = 10 ^ Suc j" by (metis mult.assoc power_Suc)
    have "?g * (d div ?g) = d" by simp
    then show ?thesis unfolding e by (simp only: assms)
  qed
  then have "d div ?g dvd 10 div ?g * 10 ^ j" by (subst (asm) nat_mult_dvd_cancel_disj) simp
  with cop show ?thesis by (simp add: coprime_dvd_mult_right_iff)
qed

lemma scale_of_dvd: "d dvd 10 ^ k \<Longrightarrow> 0 < d \<Longrightarrow> d dvd 10 ^ scale_of d"
proof (induction d arbitrary: k rule: scale_of.induct)
  case (1 d)
  let ?g = "gcd d 10"
  show ?case
  proof (cases "d \<le> 1 \<or> ?g = 1")
    case True
    have "d = 1"
    proof (cases "d \<le> 1")
      case False
      with True have "coprime d (10 ^ k)"
        by (intro coprime_power_right_iff[THEN iffD2] disjI1) (simp add: coprime_iff_gcd_eq_1)
      with 1(2) show ?thesis by (metis coprime_common_divisor dvd_refl nat_dvd_1_iff_1)
    qed (use 1(3) in simp)
    then show ?thesis by simp
  next
    case False
    then have "d \<noteq> 1" by auto
    with 1(2) obtain j where k: "k = Suc j" by (cases k) auto
    have "d div ?g dvd 10 ^ j" by (rule scale_step) (use 1(2) in \<open>simp only: k\<close>)
    moreover have "0 < d div ?g" using 1(3) by (simp add: div_greater_zero_iff gcd_le1_nat)
    ultimately have "d div ?g dvd 10 ^ scale_of (d div ?g)" using 1(1)[OF False] by blast
    then have "?g * (d div ?g) dvd 10 * 10 ^ scale_of (d div ?g)"
      by (intro mult_dvd_mono) auto
    with False show ?thesis by (subst scale_of.simps) simp
  qed
qed

lemma scale_of_le: "d dvd 10 ^ k \<Longrightarrow> scale_of d \<le> k"
proof (induction d arbitrary: k rule: scale_of.induct)
  case (1 d)
  show ?case
  proof (cases "d \<le> 1 \<or> gcd d 10 = 1")
    case True
    then show ?thesis by (subst scale_of.simps) simp
  next
    case False
    with 1(2) obtain j where k: "k = Suc j" by (cases k) auto
    have "scale_of (d div gcd d 10) \<le> j"
      by (rule 1(1)[OF False]) (rule scale_step, use 1(2) in \<open>simp only: k\<close>)
    then show ?thesis using False by (subst scale_of.simps) (simp add: k)
  qed
qed

definition fixed_text :: "rat \<Rightarrow> string" where
  "fixed_text x =
     (case quotient_of x of (n, d) \<Rightarrow>
        let k = scale_of (nat d) in normalize_text (scaled_text (n * (10 ^ k div d)) k))"

lemma fixed_text_normal: "normal_text (fixed_text x)"
  by (simp add: fixed_text_def Let_def normalize_text_normal scaled_text_signed split: prod.split)

lemma fixed_text_value:
  assumes "decimal_fraction x"
  shows "text_value (fixed_text x) = x"
proof -
  obtain n d where q: "quotient_of x = (n, d)" by fastforce
  then have d: "0 < d" and x: "x = of_int n / of_int d" and cop: "coprime n d"
    by (auto simp: quotient_of_denom_pos quotient_of_div quotient_of_coprime)
  from assms obtain c j where "x = of_int c / 10 ^ j" by (auto simp: decimal_fraction_def)
  with x d have "(of_int (n * 10 ^ j) :: rat) = of_int (c * d)" by (simp add: field_simps)
  then have "n * 10 ^ j = c * d" by (simp only: of_int_eq_iff)
  then have "d dvd n * 10 ^ j" by simp
  with cop have "d dvd 10 ^ j" by (metis coprime_commute coprime_dvd_mult_right_iff)
  with d have "nat d dvd 10 ^ j" by (simp add: nat_dvd_iff flip: int_dvd_int_iff)
  then have "nat d dvd 10 ^ scale_of (nat d)" using d by (intro scale_of_dvd) auto
  then have "d dvd 10 ^ scale_of (nat d)" using d by (simp add: nat_dvd_iff flip: int_dvd_int_iff)
  then obtain m where m: "(10::int) ^ scale_of (nat d) = d * m" by (rule dvdE)
  then have "(10::rat) ^ scale_of (nat d) = of_int d * of_int m"
    by (metis of_int_mult of_int_numeral of_int_power)
  moreover have "m \<noteq> 0" using m by auto
  ultimately have "of_int (n * m) / 10 ^ scale_of (nat d) = x" using d x by simp
  then show ?thesis
    using d m by (simp add: fixed_text_def q Let_def normalize_text_value scaled_text_signed scaled_text_value)
qed

text \<open>The decimal exponent of a positive rational, and the rounding.\<close>

definition exponent10 :: "rat \<Rightarrow> int" where
  "exponent10 a =
     (case quotient_of a of (n, d) \<Rightarrow>
        let e = int (length (nat_digits (nat n))) - int (length (nat_digits (nat d)))
        in if 10 powi e \<le> a then e else e - 1)"

definition round_abs :: "nat \<Rightarrow> rat \<Rightarrow> rat" where
  "round_abs p a = (let u = 10 powi (exponent10 a - int p + 1) in of_int \<lfloor>a / u + 1 / 2\<rfloor> * u)"

definition round_sig :: "nat \<Rightarrow> rat \<Rightarrow> rat" where
  "round_sig p x = (if x = 0 then 0 else sgn x * round_abs p \<bar>x\<bar>)"

definition half_up :: "nat \<Rightarrow> decimal_js" where
  "half_up p = \<lparr>dnew = text_value, dfixed = fixed_text, dround = round_sig p\<rparr>"

lemma powi_10_le_iff [simp]: "(10::rat) powi a \<le> 10 powi b \<longleftrightarrow> a \<le> b"
  by (meson linorder_not_le one_less_numeral_iff power_int_strict_increasing power_int_increasing
      order_less_imp_le one_le_numeral semiring_norm(76) order_less_irrefl order.strict_trans1)

lemma powi_10_pos [simp]: "0 < (10::rat) powi a"
  by (simp add: zero_less_power_int)

lemma digits_count_bounds:
  assumes "0 < (n::int)"
  shows "(10::rat) ^ (length (nat_digits (nat n)) - 1) \<le> of_int n"
    and "(of_int n :: rat) < 10 ^ length (nat_digits (nat n))"
proof -
  let ?l = "length (nat_digits (nat n))"
  have "10 ^ (?l - 1) \<le> nat n" "nat n < 10 ^ ?l"
    using nat_digits_bounds[of "nat n"] assms by simp_all
  then have "(of_nat (10 ^ (?l - 1)) :: rat) \<le> of_nat (nat n)" "(of_nat (nat n) :: rat) < of_nat (10 ^ ?l)"
    by (simp_all only: of_nat_le_iff of_nat_less_iff)
  then show "(10::rat) ^ (?l - 1) \<le> of_int n" "(of_int n :: rat) < 10 ^ ?l"
    using assms by simp_all
qed

lemma powi_10_quot: "(10::rat) ^ i / 10 ^ j = 10 powi (int i - int j)"
  by (simp add: power_int_diff)

lemma exponent10_bounds:
  assumes "0 < a"
  shows "10 powi exponent10 a \<le> a" and "a < 10 powi (exponent10 a + 1)"
proof -
  obtain n d where q: "quotient_of a = (n, d)" by fastforce
  then have d: "0 < d" and a: "a = of_int n / of_int d" by (auto simp: quotient_of_denom_pos quotient_of_div)
  with assms have n: "0 < n" by (simp add: zero_less_divide_iff)
  let ?N = "length (nat_digits (nat n))" and ?E = "length (nat_digits (nat d))"
  have len: "1 \<le> ?N" "1 \<le> ?E" by (simp_all add: Suc_leI)
  note nb = digits_count_bounds[OF n] and db = digits_count_bounds[OF d]
  let ?e = "int ?N - int ?E"
  have "a < 10 ^ ?N / 10 ^ (?E - 1)"
    unfolding a using nb db d n by (intro frac_less) auto
  then have up: "a < 10 powi (?e + 1)"
    using len by (simp add: powi_10_quot of_nat_diff algebra_simps)
  have "10 ^ (?N - 1) / 10 ^ ?E < a"
    unfolding a using nb db d n by (intro frac_less2) auto
  then have low: "10 powi (?e - 1) < a"
    using len by (simp add: powi_10_quot of_nat_diff algebra_simps)
  show "10 powi exponent10 a \<le> a" and "a < 10 powi (exponent10 a + 1)"
    using up low by (auto simp: exponent10_def q Let_def)
qed

lemma exponent10_mono:
  assumes "0 < a" and "a \<le> b"
  shows "exponent10 a \<le> exponent10 b"
proof -
  have "10 powi exponent10 a < (10::rat) powi (exponent10 b + 1)"
    using exponent10_bounds[of a] exponent10_bounds[of b] assms by linarith
  then have "\<not> exponent10 b + 1 \<le> exponent10 a" by (simp flip: not_le)
  then show ?thesis by linarith
qed

lemma powi_10_split: "(10::rat) powi (a + b) = 10 powi a * 10 powi b"
  by (simp add: power_int_add)

text \<open>A positive number rounds to a number between the powers of ten around it.\<close>

lemma round_abs_bounds:
  assumes "0 < a" and "0 < p"
  shows "10 powi exponent10 a \<le> round_abs p a" and "round_abs p a \<le> 10 powi (exponent10 a + 1)"
proof -
  let ?e = "exponent10 a" and ?u = "(10::rat) powi (exponent10 a - int p + 1)"
  have lo: "10 powi ?e = of_int (10 ^ (p - 1)) * ?u" and hi: "10 powi (?e + 1) = of_int (10 ^ p) * ?u"
    using assms(2) by (simp_all add: of_nat_diff flip: power_int_of_nat powi_10_split)
  have "of_int (10 ^ (p - 1)) \<le> a / ?u" and "a / ?u < of_int (10 ^ p)"
    using exponent10_bounds[OF assms(1)] unfolding lo hi by (simp_all add: field_simps)
  then have "10 ^ (p - 1) \<le> \<lfloor>a / ?u + 1 / 2\<rfloor>" and "\<lfloor>a / ?u + 1 / 2\<rfloor> \<le> 10 ^ p"
    by (simp_all add: le_floor_iff floor_le_iff)
  then have "of_int (10 ^ (p - 1)) * ?u \<le> of_int \<lfloor>a / ?u + 1 / 2\<rfloor> * ?u"
    and "of_int \<lfloor>a / ?u + 1 / 2\<rfloor> * ?u \<le> of_int (10 ^ p) * ?u"
    by (intro mult_right_mono iffD2[OF of_int_le_iff]; simp)+
  then show "10 powi ?e \<le> round_abs p a" and "round_abs p a \<le> 10 powi (?e + 1)"
    by (simp_all add: round_abs_def Let_def lo hi)
qed

lemma round_abs_mono:
  assumes "0 < a" and "a \<le> b" and "0 < p"
  shows "round_abs p a \<le> round_abs p b"
proof (cases "exponent10 a = exponent10 b")
  case True
  let ?u = "(10::rat) powi (exponent10 b - int p + 1)"
  have "\<lfloor>a / ?u + 1 / 2\<rfloor> \<le> \<lfloor>b / ?u + 1 / 2\<rfloor>"
    using assms by (intro floor_mono) (simp add: divide_right_mono)
  then show ?thesis by (simp add: round_abs_def Let_def True mult_right_mono)
next
  case False
  with exponent10_mono[OF assms(1,2)] have "(10::rat) powi (exponent10 a + 1) \<le> 10 powi exponent10 b"
    by simp
  then show ?thesis
    using round_abs_bounds(2)[OF assms(1,3)] round_abs_bounds(1)[of b p] assms by linarith
qed

lemma round_abs_exact:
  assumes "0 < c" and "c < 10 ^ p" and "a = of_int c / 10 ^ k"
  shows "round_abs p a = a"
proof -
  let ?e = "exponent10 a" and ?u = "(10::rat) powi (exponent10 a - int p + 1)"
  have a: "0 < a" using assms by simp
  have "(of_int c :: rat) < of_int (10 ^ p)" by (simp only: of_int_less_iff assms(2))
  then have c: "(of_int c :: rat) < 10 ^ p" by simp
  have "10 powi ?e \<le> a" by (rule exponent10_bounds[OF a])
  also have "a < 10 ^ p / 10 ^ k"
    unfolding assms(3) by (rule divide_strict_right_mono[OF c]) simp
  also have "\<dots> = 10 powi (int p - int k)" by (rule powi_10_quot)
  finally have "?e < int p - int k" by (metis not_le powi_10_le_iff)
  then obtain j where j: "int j = int p - 1 - ?e - int k"
    by (intro that[of "nat (int p - 1 - ?e - int k)"]) simp
  have "(10::rat) ^ j * ?u = 10 powi (int j + (?e - int p + 1))"
    by (simp only: powi_10_split power_int_of_nat)
  also have "int j + (?e - int p + 1) = - int k" using j by simp
  finally have eq: "of_int c * 10 ^ j * ?u = a"
    using assms(3) by (simp add: power_int_minus divide_inverse mult.assoc)
  have "of_int c * 10 ^ j * ?u / ?u = of_int (c * 10 ^ j)" by simp
  then have q: "a / ?u = of_int (c * 10 ^ j)" by (simp only: eq)
  have "\<lfloor>of_int (c * 10 ^ j) + 1 / 2 :: rat\<rfloor> = c * 10 ^ j"
    by (simp only: floor_eq_iff) simp
  then have "round_abs p a = of_int (c * 10 ^ j) * ?u"
    by (simp only: round_abs_def Let_def q)
  then show ?thesis using eq by simp
qed

lemma round_abs_nonneg: "0 < a \<Longrightarrow> 0 < p \<Longrightarrow> 0 < round_abs p a"
  using round_abs_bounds(1)[of a p] powi_10_pos[of "exponent10 a"] by linarith

lemma round_sig_minus: "round_sig p (- x) = - round_sig p x"
  by (simp add: round_sig_def)

lemma round_sig_pos: "0 < x \<Longrightarrow> round_sig p x = round_abs p x"
  by (simp add: round_sig_def)

lemma round_sig_nonneg: "0 \<le> x \<Longrightarrow> 0 < p \<Longrightarrow> 0 \<le> round_sig p x"
  by (cases "x = 0") (simp_all add: round_sig_def round_abs_nonneg less_imp_le)

lemma round_sig_mono:
  assumes "x \<le> y" and p: "0 < p"
  shows "round_sig p x \<le> round_sig p y"
proof -
  consider "0 < x" | "x \<le> 0" "0 \<le> y" | "y < 0" using assms(1) by linarith
  then show ?thesis
  proof cases
    case 1
    then show ?thesis using round_abs_mono[of x y p] assms by (simp add: round_sig_pos)
  next
    case 2
    then show ?thesis
      using round_sig_nonneg[of "- x" p] round_sig_nonneg[of y p] p by (simp add: round_sig_minus)
  next
    case 3
    then show ?thesis
      using round_abs_mono[of "- y" "- x" p] assms
      by (simp add: round_sig_minus flip: round_sig_pos)
  qed
qed

lemma round_sig_exact:
  assumes "\<bar>c\<bar> < 10 ^ p"
  shows "round_sig p (of_int c / 10 ^ k) = of_int c / 10 ^ k"
proof -
  have "round_sig p x = x" if "x = of_int c / 10 ^ k" for x
  proof (cases "c = 0")
    case False
    have "\<bar>x\<bar> = of_int \<bar>c\<bar> / 10 ^ k" by (simp add: that)
    then have "round_abs p \<bar>x\<bar> = \<bar>x\<bar>"
      using False assms by (intro round_abs_exact[of "\<bar>c\<bar>" p _ k]) simp_all
    then show ?thesis by (simp add: round_sig_def mult_sgn_abs)
  qed (simp add: that round_sig_def)
  then show ?thesis by blast
qed

lemma decimal_fraction_powi: "decimal_fraction (10 powi e)"
  by (cases e rule: int_cases2)
    (auto intro: decimal_fractionI[of _ "10 ^ n" 0 for n] decimal_fractionI[of _ 1]
      simp: power_int_minus field_simps)

lemma round_sig_decimal: "decimal_fraction (round_sig p x)"
  by (auto simp: round_sig_def round_abs_def Let_def sgn_if
      intro!: decimal_fraction_mult decimal_fraction_powi decimal_fraction_uminus)

text \<open>The documented behaviour of a 128 digit clone of decimal.js.\<close>

interpretation half_up_128: decimal_lib "half_up 128" 128
proof unfold_locales
  show "dnew (half_up 128) s = text_value s" for s by (simp add: half_up_def)
  show "normal_text (dfixed (half_up 128) x)" for x by (simp add: half_up_def fixed_text_normal)
  show "decimal_fraction x \<Longrightarrow> text_value (dfixed (half_up 128) x) = x" for x
    by (simp add: half_up_def fixed_text_value)
  show "\<bar>c\<bar> < 10 ^ 128 \<Longrightarrow> dround (half_up 128) (of_int c / 10 ^ k) = of_int c / 10 ^ k" for c k
    by (simp only: half_up_def decimal_js.simps round_sig_exact)
  show "x \<le> y \<Longrightarrow> dround (half_up 128) x \<le> dround (half_up 128) y" for x y
    by (simp add: half_up_def round_sig_mono)
  show "decimal_fraction (dround (half_up 128) x)" for x
    by (simp add: half_up_def round_sig_decimal)
qed

end
