(* ===== verification/Live_Types.thy ===== *)
theory Live_Types
  imports Decimal_Context
begin

section \<open>Vocabulary of live execution\<close>

text \<open>
  The fault taxonomy of \<^verbatim>\<open>src/execution/live/errors.ts\<close> and the plain data of
  \<^verbatim>\<open>src/execution/live/types.ts\<close>. A thrown \<^verbatim>\<open>LiveExecutionError\<close> is its code on the left of a
  result; messages and detail objects are not modelled. \<^verbatim>\<open>null\<close> is \<open>None\<close>.
\<close>

datatype live_code =
    LIVE_EXECUTION_DISABLED
  | LIVE_AUTHORITY_INVALID
  | LIVE_POSITION_NOT_AVAILABLE
  | LIVE_INTENT_INVALID
  | LIVE_INTENT_CONFLICT
  | LIVE_DISPATCH_ALREADY_CLAIMED
  | LIVE_ORDER_REJECTED
  | LIVE_ORDER_RESPONSE_INVALID
  | LIVE_ORDER_IDENTITY_MISMATCH
  | LIVE_ORDER_STATE_CONFLICT
  | LIVE_FILL_INVALID
  | LIVE_SUBMISSION_AMBIGUOUS
  | LIVE_CANCEL_AMBIGUOUS
  | LIVE_INSTRUMENT_CONSTRAINT
  | LIVE_UNSUPPORTED_EXECUTION_SEMANTICS
  | LIVE_PROVIDER_ERROR
  | LIVE_NUMERIC_FAILURE
  | LIVE_OVERFLOW
  | LIVE_PERSISTENCE_FAULT
  | LIVE_DURABLE_INTEGRITY_VIOLATION

datatype order_side = BUY | SELL

datatype live_action = OPEN | CLOSE

datatype position_side = LONG | SHORT

datatype order_type = MARKET | LIMIT

datatype time_in_force =
    UNSPECIFIED
  | GOOD_TILL_CANCEL
  | FILL_OR_KILL
  | IMMEDIATE_OR_CANCEL
  | POST_ONLY

subsection \<open>Intent content\<close>

record intent_content =
  ic_accountId :: string
  ic_pair :: string
  ic_side :: order_side
  ic_action :: live_action
  ic_quantity :: string
  ic_orderType :: order_type
  ic_price :: "string option"
  ic_timeInForce :: time_in_force
  ic_leverage :: "string option"
  ic_riskDecisionId :: string
  ic_admissionId :: "string option"
  ic_strategyInstanceId :: string
  ic_strategyId :: string
  ic_strategyVersion :: string
  ic_parameterHash :: string
  ic_liveExecutionPolicyId :: string
  ic_instrumentSpecSnapshotId :: string
  ic_authorizedNotionalInr :: string
  ic_settlementRateInrPerQuote :: "string option"
  ic_positionInstanceId :: "string option"
  ic_positionRevision :: "int option"
  ic_reduceOnlyQuantity :: "string option"

record research_lineage =
  rl_validationSubjectId :: string
  rl_validationPlanId :: string
  rl_validationSubjectResultSha256 :: string

record live_lineage =
  ll_researchApproval :: "research_lineage option"
  ll_sourceStrategyDecisionId :: string

subsection \<open>Order projection and observation\<close>

datatype order_state =
    CREATED
  | DISPATCH_RESERVED
  | ST_SUBMISSION_AMBIGUOUS
  | ACKNOWLEDGED
  | PARTIALLY_FILLED
  | FILLED
  | CANCEL_REQUESTED
  | CANCELLED
  | REJECTED
  | RECONCILIATION_REQUIRED

datatype cancel_state =
    NONE
  | CANCEL_RESERVED
  | CANCEL_ACKNOWLEDGED
  | CANCEL_AMBIGUOUS
  | CANCEL_REJECTED

text \<open>A fault code column holds a taxonomy code or the gateway's reason text.\<close>

datatype fault = Code live_code | Reason string

record live_order =
  lo_intentId :: string
  lo_clientOrderId :: string
  lo_accountId :: string
  lo_pair :: string
  lo_state :: order_state
  lo_exchangeOrderId :: "string option"
  lo_orderedQuantity :: string
  lo_cumulativeFilledQuantity :: string
  lo_remainingQuantity :: string
  lo_averageFillPrice :: "string option"
  lo_lastExchangeStatus :: "string option"
  lo_lastProviderEventTimeMs :: "int option"
  lo_faultCode :: "fault option"
  lo_cancelState :: cancel_state
  lo_cancelGeneration :: int
  lo_cancelExchangeOrderId :: "string option"
  lo_cancelFaultCode :: "fault option"
  lo_revision :: int

datatype observation_kind =
    OBS_ACKNOWLEDGED
  | OBS_PARTIAL_FILL
  | OBS_FILL
  | OBS_CANCELLED
  | OBS_REJECTED

record observation =
  ob_kind :: observation_kind
  ob_clientOrderId :: string
  ob_exchangeClientOrderId :: "string option"
  ob_exchangeOrderId :: string
  ob_pair :: string
  ob_side :: order_side
  ob_cumulativeFilledQuantity :: string
  ob_orderedQuantity :: string
  ob_averageFillPrice :: "string option"
  ob_exchangeStatus :: string
  ob_providerEventTimeMs :: int

end
