(* ===== verification/Live_Decimal.thy ===== *)
theory Live_Decimal
  imports Live_Types "HOL-Library.Signed_Division"
begin

section \<open>Exact decimals of live execution\<close>

text \<open>
  \<^verbatim>\<open>src/execution/live/decimal.ts\<close>: the parser and the canonicaliser of order quantities and
  prices, and the BigInt arithmetic that floors or ceils a value to an instrument increment.
  BigInt division and remainder truncate towards zero (\<open>sdiv\<close>, \<open>smod\<close>). A parameter declared
  \<^verbatim>\<open>unknown\<close> or nullable in the source is an optional string, \<open>None\<close> for anything that is not text.

  The lemmas show that the canonical text is a complete invariant of the number it denotes, that
  an accepted persisted decimal fits \<^verbatim>\<open>DECIMAL(36,18)\<close>, and that the text and BigInt arithmetic
  computes the mathematical floor and ceiling multiples.
\<close>

definition MAX_LIVE_SCALE :: nat where "MAX_LIVE_SCALE = 18"
definition MAX_LIVE_INTEGER_DIGITS :: nat where "MAX_LIVE_INTEGER_DIGITS = 18"

subsection \<open>Parsing\<close>

text \<open>\<^verbatim>\<open>/^[+-]?\d+(?:\.\d+)?$/\<close>\<close>

definition FIXED_POINT :: "string \<Rightarrow> bool" where
  "FIXED_POINT v \<longleftrightarrow>
     (case v of [] \<Rightarrow> False
      | c # t \<Rightarrow> if c = CHR ''+'' \<or> c = CHR ''-'' then unsigned_text t else unsigned_text v)"

definition has_exponent :: "string \<Rightarrow> bool" where
  "has_exponent v \<longleftrightarrow> CHR ''e'' \<in> set v \<or> CHR ''E'' \<in> set v"

definition fixedInput :: "string \<Rightarrow> (live_code, string) res" where
  "fixedInput input =
     (let value = trim input
      in if length value = 0 \<or> has_exponent value \<or> \<not> FIXED_POINT value
         then Inl LIVE_NUMERIC_FAILURE else Inr value)"

definition liveDecimal :: "decimal_js \<Rightarrow> string \<Rightarrow> (live_code, rat) res" where
  "liveDecimal D input = rbind (fixedInput input) (\<lambda>value. Inr (dnew D value))"

subsection \<open>Canonical text\<close>

definition canonicalLiveDecimalString :: "string option \<Rightarrow> (live_code, string) res" where
  "canonicalLiveDecimalString value =
     (case value of
        None \<Rightarrow> Inl LIVE_INTENT_INVALID
      | Some v \<Rightarrow>
          if \<not> signed_text v then Inl LIVE_INTENT_INVALID
          else
            let negative = negative_text v;
                unsigned = (if negative then tl v else v);
                (rawInteger, rawFraction) = split_dot unsigned;
                integer = (if strip_leading_zeros rawInteger = [] then ''0'' else strip_leading_zeros rawInteger);
                fraction = strip_trailing_zeros rawFraction;
                zero = (integer = ''0'' \<and> length fraction = 0)
            in Inr ((if negative \<and> \<not> zero then ''-'' else [])
                    @ integer @ (if length fraction = 0 then [] else ''.'' @ fraction)))"

definition canonicalPersistedLiveDecimal :: "string option \<Rightarrow> (live_code, string) res" where
  "canonicalPersistedLiveDecimal value =
     rbind (canonicalLiveDecimalString value) (\<lambda>canonical.
       let unsigned = (if negative_text canonical then tl canonical else canonical);
           (integer, fraction) = split_dot unsigned;
           integerDigits = (if integer = ''0'' then 0 else length integer)
       in if integerDigits > MAX_LIVE_INTEGER_DIGITS \<or> length fraction > MAX_LIVE_SCALE
          then Inl LIVE_OVERFLOW else Inr canonical)"

definition canonicalPositiveLiveDecimal :: "string option \<Rightarrow> (live_code, string) res" where
  "canonicalPositiveLiveDecimal value =
     rbind (canonicalPersistedLiveDecimal value) (\<lambda>canonical.
       if canonical = ''0'' \<or> negative_text canonical then Inl LIVE_INTENT_INVALID else Inr canonical)"

definition canonicalNonNegativeLiveDecimal :: "string option \<Rightarrow> (live_code, string) res" where
  "canonicalNonNegativeLiveDecimal value =
     rbind (canonicalPersistedLiveDecimal value) (\<lambda>canonical.
       if negative_text canonical then Inl LIVE_INTENT_INVALID else Inr canonical)"

subsection \<open>BigInt increment arithmetic\<close>

definition decompose :: "decimal_js \<Rightarrow> rat \<Rightarrow> int \<times> nat" where
  "decompose D value =
     (let fixed = dfixed D value;
          negative = negative_text fixed;
          unsigned = (if negative then tl fixed else fixed);
          (integer, fraction) = split_dot unsigned;
          digits = strip_leading_zeros (integer @ fraction);
          magnitude = int (digits_nat (if digits = [] then ''0'' else digits))
      in (if negative \<and> magnitude \<noteq> 0 then - magnitude else magnitude, length fraction))"

definition formatScaled :: "int \<Rightarrow> nat \<Rightarrow> string" where
  "formatScaled coefficient scale =
     (let negative = coefficient < 0;
          digits = pad_start (scale + 1) (nat_digits (nat (if negative then - coefficient else coefficient)))
      in if scale = 0 then (if negative then ''-'' else []) @ digits
         else
           let front = take (length digits - scale) digits;
               integer = (if front = [] then ''0'' else front);
               fraction = drop (length digits - scale) digits
           in (if negative then ''-'' else []) @ integer
              @ (if length fraction > 0 then ''.'' @ fraction else []))"

definition floorDiv :: "int \<Rightarrow> int \<Rightarrow> int" where
  "floorDiv a b =
     (let quotient = a sdiv b; remainder = a smod b
      in if remainder \<noteq> 0 \<and> remainder < 0 then quotient - 1 else quotient)"

definition ceilDiv :: "int \<Rightarrow> int \<Rightarrow> int" where
  "ceilDiv a b = - floorDiv (- a) b"

definition toCommonScale :: "decimal_js \<Rightarrow> rat \<Rightarrow> rat \<Rightarrow> int \<times> int \<times> nat" where
  "toCommonScale D value tick =
     (let (vCoefficient, vScale) = decompose D value;
          (tCoefficient, tScale) = decompose D tick;
          scale = max vScale tScale
      in (vCoefficient * 10 ^ (scale - vScale), tCoefficient * 10 ^ (scale - tScale), scale))"

definition assertTickable :: "rat \<Rightarrow> (live_code, unit) res" where
  "assertTickable tick = (if tick \<le> 0 then Inl LIVE_NUMERIC_FAILURE else Inr ())"

definition floorToIncrement :: "decimal_js \<Rightarrow> rat \<Rightarrow> rat \<Rightarrow> (live_code, rat) res" where
  "floorToIncrement D value tick =
     rbind (assertTickable tick) (\<lambda>_.
       let (v, t, scale) = toCommonScale D value tick
       in Inr (dnew D (formatScaled (floorDiv v t * t) scale)))"

definition ceilToIncrement :: "decimal_js \<Rightarrow> rat \<Rightarrow> rat \<Rightarrow> (live_code, rat) res" where
  "ceilToIncrement D value tick =
     rbind (assertTickable tick) (\<lambda>_.
       let (v, t, scale) = toCommonScale D value tick
       in Inr (dnew D (formatScaled (ceilDiv v t * t) scale)))"

definition isAlignedToIncrement :: "decimal_js \<Rightarrow> rat \<Rightarrow> rat \<Rightarrow> (live_code, bool) res" where
  "isAlignedToIncrement D value increment =
     rbind (assertTickable increment) (\<lambda>_.
       let (v, t, _) = toCommonScale D value increment in Inr (t \<noteq> 0 \<and> v smod t = 0))"

subsection \<open>The canonical text is the normal numeral\<close>

lemma FIXED_POINT_number: "FIXED_POINT v \<longleftrightarrow> number_text v"
proof (cases v)
  case Nil
  then show ?thesis
    by (simp add: FIXED_POINT_def number_text_def signed_text_def unsigned_part_def negative_text_def
        unsigned_text_def)
next
  case (Cons c t)
  have "\<not> unsigned_text (CHR ''+'' # t)" by (simp add: unsigned_text_def)
  with Cons show ?thesis
    by (auto simp: FIXED_POINT_def number_text_def signed_text_def unsigned_part_def negative_text_def)
qed

lemma signed_text_chars:
  assumes "signed_text v" and "c \<in> set v"
  shows "is_digit c \<or> c = CHR ''.'' \<or> c = CHR ''-''"
proof -
  obtain i f where u: "unsigned_part v = join_dot i f" "list_all is_digit i" "list_all is_digit f"
    using assms(1) unfolding signed_text_def by (elim unsigned_textE)
  have "c = CHR ''-'' \<or> c \<in> set (unsigned_part v)"
    using assms(2) by (cases v) (auto simp: unsigned_part_def negative_text_def)
  then show ?thesis using u by (auto simp: join_dot_def list_all_iff split: if_splits)
qed

lemma signed_text_no_space: "signed_text v \<Longrightarrow> c \<in> set v \<Longrightarrow> \<not> is_space c"
  using signed_text_chars[of v c] by (auto simp: is_space_def is_digit_def)

lemma signed_text_not_exponent: "signed_text v \<Longrightarrow> \<not> has_exponent v"
  using signed_text_chars[of v "CHR ''e''"] signed_text_chars[of v "CHR ''E''"]
  by (auto simp: has_exponent_def is_digit_def)

lemma trim_signed_text: "signed_text v \<Longrightarrow> trim v = v"
proof -
  assume v: "signed_text v"
  have "dropWhile is_space w = w" if "set w \<subseteq> set v" for w
    using that signed_text_no_space[OF v] by (cases w) auto
  from this[of v] this[of "rev v"] show ?thesis by (simp add: trim_def)
qed

lemma signed_text_nonempty: "signed_text v \<Longrightarrow> v \<noteq> []"
  by (auto simp: signed_text_def unsigned_part_def unsigned_text_def negative_text_def)

text \<open>Every numeral the canonicaliser accepts parses, and to the number it denotes.\<close>

context decimal_lib
begin

lemma liveDecimal_signed: "signed_text v \<Longrightarrow> liveDecimal D v = Inr (text_value v)"
  using signed_text_nonempty[of v]
  by (simp add: liveDecimal_def fixedInput_def trim_signed_text signed_text_not_exponent
      FIXED_POINT_number Let_def dnew_text)

end

lemma canonical_normalize:
  assumes "signed_text v"
  shows "canonicalLiveDecimalString (Some v) = Inr (normalize_text v)"
proof -
  from assms obtain i f where u: "unsigned_part v = join_dot i f" "list_all is_digit i"
      "list_all is_digit f" "i \<noteq> []"
    unfolding signed_text_def by (rule unsigned_textE)
  have "(if negative_text v then tl v else v) = join_dot i f" using u by (simp add: unsigned_part_def)
  with assms u show ?thesis
    by (simp add: canonicalLiveDecimalString_def normalize_text_def split_join_dot Let_def)
      (simp add: join_dot_def)
qed

lemma canonical_eq_Inr:
  "canonicalLiveDecimalString value = Inr s \<longleftrightarrow>
     (\<exists>v. value = Some v \<and> signed_text v \<and> s = normalize_text v)"
proof (cases "value")
  case None
  then show ?thesis by (simp add: canonicalLiveDecimalString_def)
next
  case (Some v)
  then show ?thesis
    using canonical_normalize[of v]
    by (cases "signed_text v") (auto simp: canonicalLiveDecimalString_def)
qed

subsection \<open>What a persisted decimal can be\<close>

text \<open>The numbers \<^verbatim>\<open>DECIMAL(36,18)\<close> holds exactly.\<close>

definition persisted_value :: "rat \<Rightarrow> bool" where
  "persisted_value x \<longleftrightarrow> (\<exists>c. x = of_int c / 10 ^ 18 \<and> \<bar>c\<bar> < 10 ^ 36)"

lemma persisted_decimal: "persisted_value x \<Longrightarrow> decimal_fraction x"
  unfolding persisted_value_def by (blast intro: decimal_fractionI)

lemma persisted_minus: "persisted_value (- x) \<longleftrightarrow> persisted_value x"
proof -
  have "persisted_value (- y)" if "persisted_value y" for y
    using that unfolding persisted_value_def by (metis abs_minus_cancel minus_divide_left of_int_minus)
  from this[of x] this[of "- x"] show ?thesis by auto
qed

lemma persisted_zero [simp]: "persisted_value 0"
  unfolding persisted_value_def by (rule exI[of _ 0]) simp

lemma persisted_unsigned:
  assumes "list_all is_digit i" and "list_all is_digit f"
    and "i = ''0'' \<or> length i \<le> 18" and "length f \<le> 18"
  shows "persisted_value (unsigned_value (join_dot i f))"
proof -
  let ?c = "digits_nat (i @ f) * 10 ^ (18 - length f)"
  have di: "digits_nat i < 10 ^ 18"
  proof (cases "i = ''0''")
    case True
    then show ?thesis by (simp add: digits_nat_Cons)
  next
    case False
    then have "(10::nat) ^ length i \<le> 10 ^ 18" using assms(3) by (intro power_increasing) auto
    then show ?thesis using digits_nat_less[OF assms(1)] by linarith
  qed
  have df: "digits_nat f < 10 ^ length f" by (rule digits_nat_less[OF assms(2)])
  have "Suc (digits_nat i) * 10 ^ length f \<le> 10 ^ 18 * 10 ^ length f"
    using di by (intro mult_le_mono1) simp
  then have "digits_nat i * 10 ^ length f + 10 ^ length f \<le> 10 ^ 18 * 10 ^ length f"
    by (simp only: mult_Suc add.commute)
  then have "digits_nat (i @ f) < 10 ^ 18 * 10 ^ length f"
    unfolding digits_nat_append by (rule less_le_trans[OF add_strict_left_mono[OF df]])
  then have "?c < 10 ^ 18 * 10 ^ length f * 10 ^ (18 - length f)"
    by (rule mult_strict_right_mono) simp
  also have "\<dots> = 10 ^ (18 + length f + (18 - length f))" by (simp only: power_add)
  also have "18 + length f + (18 - length f) = 36" using assms(4) by simp
  finally have c: "\<bar>int ?c\<bar> < 10 ^ 36" by (simp flip: of_nat_less_iff[where 'a=int])
  have p: "(10::rat) ^ 18 = 10 ^ length f * 10 ^ (18 - length f)"
    using assms(4) by (simp flip: power_add)
  have "unsigned_value (join_dot i f) = of_int (int ?c) / 10 ^ 18"
    unfolding p unsigned_value_join[OF assms(1,2)] by simp
  with c show ?thesis unfolding persisted_value_def by blast
qed

lemma persisted_normal_bounds:
  assumes "normal_integer i" and "normal_fraction f"
    and "persisted_value (unsigned_value (join_dot i f))"
  shows "i = ''0'' \<or> length i \<le> 18" and "length f \<le> 18"
proof -
  let ?n = "digits_nat (i @ f)"
  have d: "list_all is_digit i" "list_all is_digit f"
    using assms by (simp_all add: normal_integer_def normal_fraction_def)
  obtain c where c: "of_nat ?n / 10 ^ length f = (of_int c / 10 ^ 18 :: rat)" "\<bar>c\<bar> < 10 ^ 36"
    using assms(3) unfolding persisted_value_def unsigned_value_join[OF d] by blast
  have "(0::rat) \<le> of_int c / 10 ^ 18" unfolding c(1)[symmetric] by simp
  then have "0 \<le> c" by (simp add: zero_le_divide_iff)
  then obtain m where m: "c = int m" by (rule nonneg_int_cases)
  have e: "of_nat ?n / 10 ^ length f = (of_nat m / 10 ^ length (replicate 18 (CHR ''0'')) :: rat)"
    using c(1) by (simp add: m)
  show "length f \<le> 18"
    using normal_fraction_length[OF e refl assms(2)] by (rule ccontr) simp
  have "(of_nat ?n :: rat) * 10 ^ 18 = of_nat m * 10 ^ length f"
    using c(1) by (simp add: m field_simps)
  then have "(of_nat (?n * 10 ^ 18) :: rat) = of_nat (m * 10 ^ length f)"
    by (simp only: of_nat_mult of_nat_power of_nat_numeral)
  then have nm: "?n * 10 ^ 18 = m * 10 ^ length f" by (simp only: of_nat_eq_iff)
  have "digits_nat i < 10 ^ 18"
  proof (rule ccontr)
    assume "\<not> digits_nat i < 10 ^ 18"
    then have "10 ^ 18 * 10 ^ length f \<le> digits_nat i * 10 ^ length f" by (intro mult_le_mono1) simp
    then have "10 ^ 18 * 10 ^ length f \<le> ?n" unfolding digits_nat_append by (rule trans_le_add1)
    have "10 ^ 36 * 10 ^ length f = (10 ^ 18 * 10 ^ length f * 10 ^ 18 :: nat)" by simp
    also have "\<dots> \<le> ?n * 10 ^ 18" by (rule mult_le_mono1) fact
    also have "\<dots> = m * 10 ^ length f" by (rule nm)
    finally have "10 ^ 36 \<le> m" by (simp only: mult_le_cancel2) simp
    with c(2) m show False by simp
  qed
  then show "i = ''0'' \<or> length i \<le> 18"
  proof (cases "digits_nat i = 0")
    case True
    then show ?thesis using normal_integer_zero assms(1) by blast
  next
    case False
    have "(10::nat) ^ (length i - 1) < 10 ^ 18"
      using normal_integer_lower[OF assms(1) False] \<open>digits_nat i < 10 ^ 18\<close> by linarith
    then have "length i - 1 < 18" by (rule power_less_imp_less_exp[rotated]) simp
    then show ?thesis by linarith
  qed
qed

lemma persisted_eq_Inr:
  "canonicalPersistedLiveDecimal inp = Inr s \<longleftrightarrow>
     (\<exists>v. inp = Some v \<and> signed_text v \<and> s = normalize_text v \<and> persisted_value (text_value v))"
proof -
  have key: "(let unsigned = (if negative_text t then tl t else t);
                  (integer, fraction) = split_dot unsigned;
                  integerDigits = (if integer = ''0'' then 0 else length integer)
              in \<not> (integerDigits > MAX_LIVE_INTEGER_DIGITS \<or> length fraction > MAX_LIVE_SCALE))
             \<longleftrightarrow> persisted_value (text_value t)"
    if t: "normal_text t" for t
  proof -
    from t obtain i f where u: "unsigned_part t = join_dot i f" "normal_integer i" "normal_fraction f"
      by (auto simp: normal_text_def elim: normal_unsignedE)
    then have d: "list_all is_digit i" "list_all is_digit f"
      by (simp_all add: normal_integer_def normal_fraction_def)
    have "persisted_value (text_value t) \<longleftrightarrow> persisted_value (unsigned_value (join_dot i f))"
      using t u by (simp add: text_value_signed normal_signed_text persisted_minus)
    also have "\<dots> \<longleftrightarrow> (i = ''0'' \<or> length i \<le> 18) \<and> length f \<le> 18"
      using persisted_unsigned[OF d] persisted_normal_bounds[OF u(2,3)] by blast
    finally show ?thesis
      using u d by (auto simp: Let_def split_join_dot MAX_LIVE_INTEGER_DIGITS_def MAX_LIVE_SCALE_def
          unsigned_part_def split: if_splits)
  qed
  show ?thesis
  proof (cases "canonicalLiveDecimalString inp")
    case (Inl e)
    then show ?thesis
      using canonical_normalize by (auto simp: canonicalPersistedLiveDecimal_def)
  next
    case (Inr t)
    then obtain v where v: "inp = Some v" "signed_text v" "t = normalize_text v"
      by (auto simp: canonical_eq_Inr)
    have n: "normal_text t" "text_value t = text_value v"
      using v by (simp_all add: normalize_text_normal normalize_text_value)
    show ?thesis
      using key[OF n(1)] n(2) v Inr
      by (auto simp: canonicalPersistedLiveDecimal_def Let_def split: prod.splits if_splits)
  qed
qed

lemma normal_text_zero_iff: "normal_text t \<Longrightarrow> t = ''0'' \<longleftrightarrow> text_value t = 0"
  using normal_text_inject[OF _ normal_text_zero, of t] by auto

lemma positive_eq_Inr:
  "canonicalPositiveLiveDecimal inp = Inr s \<longleftrightarrow>
     (\<exists>v. inp = Some v \<and> signed_text v \<and> s = normalize_text v \<and> persisted_value (text_value v)
        \<and> 0 < text_value v)"
proof -
  have key: "(normalize_text v = ''0'' \<or> negative_text (normalize_text v)) \<longleftrightarrow> \<not> 0 < text_value v"
    if "signed_text v" for v
    using normal_text_zero_iff[OF normalize_text_normal[OF that]]
      text_value_normal_neg[OF normalize_text_normal[OF that]] normalize_text_value[OF that]
    by auto
  show ?thesis
    unfolding canonicalPositiveLiveDecimal_def rbind_eq_Inr persisted_eq_Inr
    using key by (metis (no_types, lifting) Inl_Inr_False sum.inject(2))
qed

lemma nonneg_eq_Inr:
  "canonicalNonNegativeLiveDecimal inp = Inr s \<longleftrightarrow>
     (\<exists>v. inp = Some v \<and> signed_text v \<and> s = normalize_text v \<and> persisted_value (text_value v)
        \<and> 0 \<le> text_value v)"
proof -
  have key: "negative_text (normalize_text v) \<longleftrightarrow> \<not> 0 \<le> text_value v" if "signed_text v" for v
    using that text_value_normal_neg[OF normalize_text_normal[OF that]]
    by (simp add: normalize_text_value not_le)
  show ?thesis
    unfolding canonicalNonNegativeLiveDecimal_def rbind_eq_Inr persisted_eq_Inr
    using key by (metis (no_types, lifting) Inl_Inr_False sum.inject(2))
qed

text \<open>Text the canonicaliser has produced is read back as the number it denotes, unchanged.\<close>

lemma positive_canonicalD:
  assumes "canonicalPositiveLiveDecimal inp = Inr s"
  shows "normal_text s" and "persisted_value (text_value s)" and "0 < text_value s"
  using assms by (auto simp: positive_eq_Inr normalize_text_normal normalize_text_value)

lemma nonneg_canonicalD:
  assumes "canonicalNonNegativeLiveDecimal inp = Inr s"
  shows "normal_text s" and "persisted_value (text_value s)" and "0 \<le> text_value s"
  using assms by (auto simp: nonneg_eq_Inr normalize_text_normal normalize_text_value)

subsection \<open>The increment arithmetic is exact\<close>

lemma floorDiv_div:
  assumes "0 < b"
  shows "floorDiv a b = a div b"
proof (cases "0 \<le> a")
  case True
  then have "a sdiv b = a div b" and "a smod b = a mod b"
    using assms by (auto simp: signed_divide_int_def signed_modulo_int_def sgn_if)
  moreover have "\<not> a mod b < 0" using pos_mod_sign[OF assms] by (simp add: not_less)
  ultimately show ?thesis using assms by (simp only: floorDiv_def Let_def) simp
next
  case False
  then have "a sdiv b = - (- a div b)" and "a smod b = - (- a mod b)"
    using assms by (simp_all add: signed_divide_int_def signed_modulo_int_def sgn_if minus_mult_div_eq_mod[symmetric])
  moreover have "a div b = - (- a div b) - (if - a mod b = 0 then 0 else 1)"
    using zdiv_zminus1_eq_if[of b "- a"] assms by simp
  moreover have "0 \<le> - a mod b" using assms by simp
  ultimately show ?thesis by (simp add: floorDiv_def Let_def)
qed

lemma ceilDiv_div: "0 < b \<Longrightarrow> ceilDiv a b = - (- a div b)"
  by (simp add: ceilDiv_def floorDiv_div)

lemma smod_0_iff_dvd: "a smod b = 0 \<longleftrightarrow> b dvd (a::int)"
proof -
  have "a smod b = 0 \<longleftrightarrow> a = 0 \<or> \<bar>a\<bar> mod \<bar>b\<bar> = 0"
    by (simp add: signed_modulo_int_def sgn_0_0)
  also have "\<dots> \<longleftrightarrow> b dvd a" by (auto simp: mod_eq_0_iff_dvd)
  finally show ?thesis .
qed

lemma formatScaled_scaled: "formatScaled c k = scaled_text c k"
proof -
  have n: "nat (if c < 0 then - c else c) = nat \<bar>c\<bar>" by simp
  define ds where "ds = pad_start (k + 1) (nat_digits (nat \<bar>c\<bar>))"
  have len: "k < length ds" by (simp add: ds_def pad_start_def)
  have "length (drop (length ds - k) ds) = k" using len by simp
  then have "drop (length ds - k) ds \<noteq> []" if "0 < k" using that by (metis length_0_conv less_numeral_extra(3))
  then show ?thesis
    unfolding formatScaled_def scaled_text_def Let_def n join_dot_def ds_def[symmetric]
    using len by (cases "k = 0") auto
qed

context decimal_lib
begin

lemma decompose_value:
  assumes "decimal_fraction x" and "decompose D x = (c, k)"
  shows "x = of_int c / 10 ^ k"
proof -
  let ?t = "dfixed D x"
  have n: "normal_text ?t" and v: "text_value ?t = x"
    using assms(1) by (simp_all add: dfixed_normal dfixed_value)
  then obtain i f where u: "unsigned_part ?t = join_dot i f" "normal_integer i" "normal_fraction f"
    by (auto simp: normal_text_def elim: normal_unsignedE)
  then have d: "list_all is_digit i" "list_all is_digit f" "i \<noteq> []"
    by (simp_all add: normal_integer_def normal_fraction_def)
  have c: "of_int c = (if negative_text ?t then - 1 else 1) * (of_nat (digits_nat (i @ f)) :: rat)"
    and k: "k = length f"
    using assms(2) u(1) d
    by (auto simp: decompose_def Let_def unsigned_part_def split_join_dot digits_nat_strip_leading
        split: if_splits)
  have "x = (if negative_text ?t then - 1 else 1) * unsigned_value (join_dot i f)"
    using text_value_signed[OF normal_signed_text[OF n]] by (simp only: v u(1))
  then show ?thesis by (simp only: c k unsigned_value_join[OF d(1,2)] times_divide_eq_right)
qed

lemma toCommonScale_value:
  assumes "decimal_fraction x" and "decimal_fraction y" and "toCommonScale D x y = (v, t, s)"
  shows "x = of_int v / 10 ^ s" and "y = of_int t / 10 ^ s"
proof -
  obtain a i where a: "decompose D x = (a, i)" by fastforce
  obtain b j where b: "decompose D y = (b, j)" by fastforce
  have s: "s = max i j" "v = a * 10 ^ (s - i)" "t = b * 10 ^ (s - j)"
    using assms(3) by (auto simp: toCommonScale_def a b Let_def)
  have scale: "of_int (c * 10 ^ (s - l)) / 10 ^ s = (of_int c / 10 ^ l :: rat)" if "l \<le> s" for c l
  proof -
    have "(10::rat) ^ s = 10 ^ (s - l) * 10 ^ l" using that by (simp flip: power_add)
    then show ?thesis by simp
  qed
  have le: "i \<le> s" "j \<le> s" using s(1) by simp_all
  show "x = of_int v / 10 ^ s"
    unfolding s(2) scale[OF le(1)] by (rule decompose_value[OF assms(1) a])
  show "y = of_int t / 10 ^ s"
    unfolding s(3) scale[OF le(2)] by (rule decompose_value[OF assms(2) b])
qed

lemma dnew_formatScaled: "dnew D (formatScaled c k) = of_int c / 10 ^ k"
  by (simp add: formatScaled_scaled dnew_text scaled_text_signed scaled_text_value)

text \<open>Both operands on one scale: the quotient of the values is the quotient of the integers.\<close>

lemma toCommonScale_quotient:
  assumes "decimal_fraction x" and "decimal_fraction y" and "0 < y"
  obtains v t s where "toCommonScale D x y = (v, t, s)" and "0 < t"
    and "x / y = of_int v / of_int t" and "y = of_int t / 10 ^ s"
proof -
  obtain v t s where c: "toCommonScale D x y = (v, t, s)" by (metis prod_cases3)
  note xy = toCommonScale_value[OF assms(1,2) c]
  have "0 < t" using assms(3) unfolding xy(2) by (simp add: zero_less_divide_iff)
  moreover have "x / y = of_int v / of_int t" unfolding xy by simp
  ultimately show ?thesis using that c xy(2) by blast
qed

lemma floorToIncrement_value:
  assumes "decimal_fraction x" and "decimal_fraction y" and "0 < y"
  shows "floorToIncrement D x y = Inr (y * of_int \<lfloor>x / y\<rfloor>)"
proof -
  obtain v t s where c: "toCommonScale D x y = (v, t, s)" "0 < t" "x / y = of_int v / of_int t"
      "y = of_int t / 10 ^ s"
    by (rule toCommonScale_quotient[OF assms])
  have "\<lfloor>x / y\<rfloor> = v div t" unfolding c(3) by (rule floor_divide_of_int_eq)
  moreover have "floorToIncrement D x y = Inr (of_int (floorDiv v t * t) / 10 ^ s)"
    using assms(3) by (simp add: floorToIncrement_def assertTickable_def c(1) dnew_formatScaled)
  moreover have "of_int (floorDiv v t * t) / 10 ^ s = y * of_int (v div t)"
    unfolding floorDiv_div[OF c(2)] c(4) by simp
  ultimately show ?thesis by simp
qed

lemma ceilToIncrement_value:
  assumes "decimal_fraction x" and "decimal_fraction y" and "0 < y"
  shows "ceilToIncrement D x y = Inr (y * of_int \<lceil>x / y\<rceil>)"
proof -
  obtain v t s where c: "toCommonScale D x y = (v, t, s)" "0 < t" "x / y = of_int v / of_int t"
      "y = of_int t / 10 ^ s"
    by (rule toCommonScale_quotient[OF assms])
  have "- (x / y) = of_int (- v) / of_int t" unfolding c(3) by simp
  then have "\<lceil>x / y\<rceil> = - (- v div t)" by (simp only: ceiling_def floor_divide_of_int_eq)
  moreover have "ceilToIncrement D x y = Inr (of_int (ceilDiv v t * t) / 10 ^ s)"
    using assms(3) by (simp add: ceilToIncrement_def assertTickable_def c(1) dnew_formatScaled)
  moreover have "of_int (ceilDiv v t * t) / 10 ^ s = y * of_int (- (- v div t))"
    unfolding ceilDiv_div[OF c(2)] c(4) by simp
  ultimately show ?thesis by simp
qed

lemma isAligned_value:
  assumes "decimal_fraction x" and "decimal_fraction y" and "0 < y"
  shows "isAlignedToIncrement D x y = Inr (x / y \<in> \<int>)"
proof -
  obtain v t s where c: "toCommonScale D x y = (v, t, s)" "0 < t" "x / y = of_int v / of_int t"
    by (rule toCommonScale_quotient[OF assms])
  have "x / y \<in> \<int> \<longleftrightarrow> t dvd v"
  proof
    assume "x / y \<in> \<int>"
    then obtain n where "x / y = of_int n" by (rule Ints_cases)
    with c(2,3) have "(of_int v :: rat) = of_int (n * t)" by (simp add: field_simps)
    then show "t dvd v" by (simp only: of_int_eq_iff dvd_triv_right)
  next
    assume "t dvd v"
    then obtain n where "v = t * n" by (rule dvdE)
    with c(2,3) have "x / y = of_int n" by simp
    then show "x / y \<in> \<int>" by simp
  qed
  then show ?thesis
    using assms(3) c(1,2) by (simp add: isAlignedToIncrement_def assertTickable_def smod_0_iff_dvd)
qed

lemma to_increment_decimal:
  assumes "decimal_fraction y"
  shows "decimal_fraction (y * of_int n)"
  using assms by (intro decimal_fraction_mult) simp_all

end

subsection \<open>A few numerals\<close>

lemma sample_values [simp]:
  "text_value ''0'' = 0" "text_value ''1'' = 1" "text_value ''2'' = 2" "text_value ''100'' = 100"
  by (simp_all add: text_value_def negative_text_def unsigned_value_def split_dot_def digits_nat_Cons
      digit_val_def unsigned_part_def)

lemma sample_canonical [simp]:
  "canonicalPositiveLiveDecimal (Some ''1'') = Inr ''1''"
  "canonicalPositiveLiveDecimal (Some ''2'') = Inr ''2''"
  "canonicalPositiveLiveDecimal (Some ''100'') = Inr ''100''"
  "canonicalNonNegativeLiveDecimal (Some ''0'') = Inr ''0''"
  "canonicalNonNegativeLiveDecimal (Some ''1'') = Inr ''1''"
  "canonicalNonNegativeLiveDecimal (Some ''2'') = Inr ''2''"
  by code_simp+

lemma sample_normal [simp]:
  "normal_text ''0''" "normal_text ''1''" "normal_text ''2''" "normal_text ''100''"
  "persisted_value 1" "persisted_value 2" "persisted_value 100"
  using sample_canonical(1-3)[THEN positive_canonicalD(1)] sample_canonical(1-3)[THEN positive_canonicalD(2)]
    sample_canonical(4)[THEN nonneg_canonicalD(1)]
  by (simp_all)

subsection \<open>Properties of the decimal routines\<close>

text \<open>C27. Canonical text is a complete invariant of the number: two plain numerals have the same
  canonical form exactly when they denote the same value, and canonicalising again changes
  nothing.\<close>

theorem canonical_text_complete:
  assumes "signed_text u" and "signed_text v"
  shows "(canonicalLiveDecimalString (Some u) = canonicalLiveDecimalString (Some v)
            \<longleftrightarrow> text_value u = text_value v)
     \<and> rbind (canonicalLiveDecimalString (Some u)) (\<lambda>c. canonicalLiveDecimalString (Some c))
         = canonicalLiveDecimalString (Some u)"
  using assms normalize_text_eq_iff[OF assms]
  by (simp add: canonical_normalize normal_signed_text normalize_text_normal normalize_normal)

theorem canonical_text_complete_witness:
  "canonicalLiveDecimalString (Some ''0012.50'') = canonicalLiveDecimalString (Some ''12.5'')"
proof -
  have "signed_text ''0012.50''" and "signed_text ''12.5''" by code_simp+
  moreover have "text_value ''0012.50'' = text_value ''12.5''"
    by (simp add: text_value_def negative_text_def unsigned_value_def split_dot_def digits_nat_Cons
        digit_val_def unsigned_part_def)
  ultimately show ?thesis using canonical_text_complete by blast
qed

text \<open>What is persisted is what a column of type DECIMAL(36,18) can hold: canonicalisation for
  persistence accepts a plain numeral exactly when its value is a multiple of \<open>10\<^sup>-\<^sup>1\<^sup>8\<close> with at
  most 36 digits, and then stores that value.\<close>

theorem persisted_exactly_decimal_36_18:
  assumes "signed_text v"
  shows "(is_ok (canonicalPersistedLiveDecimal (Some v)) \<longleftrightarrow> persisted_value (text_value v))
     \<and> (\<forall>s. canonicalPersistedLiveDecimal (Some v) = Inr s \<longrightarrow> text_value s = text_value v)"
  using assms by (auto simp: is_ok_iff persisted_eq_Inr normalize_text_value)

theorem persisted_exactly_decimal_36_18_witness:
  "persisted_value (text_value ''-7.25'')"
proof -
  have "signed_text ''-7.25''" by code_simp
  moreover have "is_ok (canonicalPersistedLiveDecimal (Some ''-7.25''))" by code_simp
  ultimately show ?thesis using persisted_exactly_decimal_36_18 by blast
qed

text \<open>Flooring and ceiling to a positive increment, computed on scaled integers and text, are
  exact: the results are multiples of the increment, less than one increment away on their side,
  and equal to the value exactly when the alignment test says so.\<close>

theorem increments_exact:
  assumes "decimal_lib D prec" and "decimal_fraction x" and "decimal_fraction y" and "0 < y"
  shows "\<exists>lo hi. floorToIncrement D x y = Inr lo \<and> ceilToIncrement D x y = Inr hi
     \<and> lo \<le> x \<and> x < lo + y \<and> x \<le> hi \<and> hi < x + y
     \<and> isAlignedToIncrement D lo y = Inr True \<and> isAlignedToIncrement D hi y = Inr True
     \<and> isAlignedToIncrement D x y = Inr (lo = x) \<and> (lo = x \<longleftrightarrow> hi = x)"
proof -
  let ?lo = "y * of_int \<lfloor>x / y\<rfloor>" and ?hi = "y * of_int \<lceil>x / y\<rceil>"
  have x: "x = y * (x / y)" using assms(4) by simp
  have lo: "?lo \<le> x" by (subst (2) x) (rule mult_left_mono, use assms(4) in auto)
  have lo': "x < ?lo + y"
  proof -
    have "x / y < of_int \<lfloor>x / y\<rfloor> + 1" by linarith
    from mult_strict_left_mono[OF this assms(4)] show ?thesis using assms(4) by (simp add: algebra_simps)
  qed
  have hi: "x \<le> ?hi" by (subst (1) x) (rule mult_left_mono, use assms(4) in auto)
  have hi': "?hi < x + y"
  proof -
    have "of_int \<lceil>x / y\<rceil> < x / y + 1" by linarith
    from mult_strict_left_mono[OF this assms(4)] show ?thesis using assms(4) by (simp add: algebra_simps)
  qed
  have dec: "decimal_fraction (y * of_int n)" for n
    by (rule decimal_lib.to_increment_decimal[OF assms(1,3)])
  have al: "isAlignedToIncrement D (y * of_int n) y = Inr True" for n
    using decimal_lib.isAligned_value[OF assms(1) dec assms(3,4)] assms(4) by simp
  have eq: "x / y \<in> \<int> \<longleftrightarrow> ?lo = x" "x / y \<in> \<int> \<longleftrightarrow> ?hi = x"
  proof -
    have ints: "(x / y \<in> \<int>) = (\<exists>n. x / y = of_int n)" by (auto elim: Ints_cases)
    have iff: "y * z = x \<longleftrightarrow> z = x / y" for z
      using assms(4) by (simp only: nonzero_eq_divide_eq[OF less_imp_neq[THEN not_sym]] mult.commute)
    have scale: "?lo = x \<longleftrightarrow> of_int \<lfloor>x / y\<rfloor> = x / y" "?hi = x \<longleftrightarrow> of_int \<lceil>x / y\<rceil> = x / y"
      by (rule iff)+
    show "x / y \<in> \<int> \<longleftrightarrow> ?lo = x" "x / y \<in> \<int> \<longleftrightarrow> ?hi = x"
      unfolding ints scale of_int_floor_cancel of_int_ceiling_cancel by simp_all
  qed
  show ?thesis
    using decimal_lib.floorToIncrement_value[OF assms] decimal_lib.ceilToIncrement_value[OF assms]
      decimal_lib.isAligned_value[OF assms] lo lo' hi hi' al eq
    by auto
qed

theorem increments_exact_witness:
  "\<exists>lo hi. floorToIncrement (half_up 128) (7 / 2) 2 = Inr lo \<and> ceilToIncrement (half_up 128) (7 / 2) 2 = Inr hi
     \<and> lo \<le> 7 / 2 \<and> 7 / 2 < lo + 2 \<and> 7 / 2 \<le> hi \<and> hi < 7 / 2 + 2"
proof -
  have "decimal_fraction (7 / 2)" using decimal_fractionI[of "7 / 2" 35 1] by simp
  moreover have "decimal_fraction 2" using decimal_fractionI[of 2 2 0] by simp
  ultimately show ?thesis using increments_exact[OF half_up_128.decimal_lib_axioms, of "7 / 2" 2] by force
qed

end
