(* ===== verification/Canonical_Json.thy ===== *)
theory Canonical_Json
  imports Decimal_Text "HOL-Library.Sublist" "HOL-Library.List_Lexorder" "HOL-Library.Char_ord" "HOL-Library.Multiset"
begin

section \<open>Canonical JSON\<close>

text \<open>
  \<^verbatim>\<open>src/backtest/canonical-json.ts\<close>: the text every identity of the program is a digest of. A JSON
  value is a datatype, so it has no cycle; an unsupported value (undefined, a function, a date, an
  instance of a class) is the constructor \<open>JUnsupported\<close>. Objects are association lists in
  insertion order. The digest itself, \<^verbatim>\<open>createHash('sha256')\<close> of node, is the parameter \<open>sha\<close>.

  The lemmas show that the text determines the value up to the order of object keys, and that the
  order of keys does not change it.
\<close>

datatype json =
    JNull
  | JBool bool
  | JNumber int
  | JDecimal string
  | JString string
  | JArray "json list"
  | JObject "(string \<times> json) list"
  | JUnsupported

datatype json_error = BACKTEST_RUN_FAILED

subsection \<open>Text of the primitives\<close>

definition hex_digit :: "nat \<Rightarrow> char" where
  "hex_digit n = (if n < 10 then char_of (48 + n) else char_of (87 + n :: nat))"

text \<open>\<^verbatim>\<open>JSON.stringify\<close> of one character.\<close>

definition escape_char :: "char \<Rightarrow> string" where
  "escape_char c =
     (if c = CHR 0x22 \<or> c = CHR 0x5C then [CHR 0x5C, c]
      else if c = CHR 0x08 then [CHR 0x5C, CHR ''b'']
      else if c = CHR 0x09 then [CHR 0x5C, CHR ''t'']
      else if c = CHR 0x0A then [CHR 0x5C, CHR ''n'']
      else if c = CHR 0x0C then [CHR 0x5C, CHR ''f'']
      else if c = CHR 0x0D then [CHR 0x5C, CHR ''r'']
      else if (of_char c :: nat) < 32
      then [CHR 0x5C, CHR ''u'', CHR ''0'', CHR ''0'', hex_digit (of_char c div 16), hex_digit (of_char c mod 16)]
      else [c])"

definition json_string :: "string \<Rightarrow> string" where
  "json_string s = [CHR 0x22] @ concat (map escape_char s) @ [CHR 0x22]"

definition json_integer :: "int \<Rightarrow> string" where
  "json_integer n = (if n < 0 then ''-'' else []) @ nat_digits (nat \<bar>n\<bar>)"

definition isSafeInteger :: "int \<Rightarrow> bool" where
  "isSafeInteger n \<longleftrightarrow> \<bar>n\<bar> \<le> 9007199254740991"

fun join_comma :: "string list \<Rightarrow> string" where
  "join_comma [] = []"
| "join_comma [t] = t"
| "join_comma (t # u # ts) = t @ '','' @ join_comma (u # ts)"

subsection \<open>The serializer\<close>

function (sequential) serialize :: "json \<Rightarrow> (json_error, string) res" where
  "serialize (JDecimal v) = Inr (json_string v)"
| "serialize JNull = Inr ''null''"
| "serialize (JString s) = Inr (json_string s)"
| "serialize (JBool b) = Inr (if b then ''true'' else ''false'')"
| "serialize (JNumber n) = (if \<not> isSafeInteger n then Inl BACKTEST_RUN_FAILED else Inr (json_integer n))"
| "serialize JUnsupported = Inl BACKTEST_RUN_FAILED"
| "serialize (JArray vs) =
     rbind (mapR serialize vs) (\<lambda>ts. Inr (''['' @ join_comma ts @ '']''))"
| "serialize (JObject members) =
     rbind (mapR (\<lambda>(key, v). rbind (serialize v) (\<lambda>t. Inr (json_string key @ '':'' @ t)))
                 (sort_key fst members))
       (\<lambda>properties. Inr (''{'' @ join_comma properties @ ''}''))"
  by pat_completeness auto
termination
proof (relation "measure size")
  fix members :: "(string \<times> json) list" and x and key :: string and v :: json
  assume "x \<in> set (sort_key fst members)" and "(key, v) = x"
  then have "(key, v) \<in> set members" by simp
  then have "size v < size_list (size_prod (\<lambda>_. 0) size) members"
    by (induction members) auto
  then show "(v, JObject members) \<in> measure size" by simp
next
  fix vs :: "json list" and v
  assume "v \<in> set vs"
  then show "(v, JArray vs) \<in> measure size" by (induction vs) auto
qed simp

definition canonicalJson :: "json \<Rightarrow> (json_error, string) res" where
  "canonicalJson v = serialize v"

definition sha256CanonicalJson :: "(string \<Rightarrow> string) \<Rightarrow> json \<Rightarrow> (json_error, string) res" where
  "sha256CanonicalJson sha v = rbind (canonicalJson v) (\<lambda>t. Inr (sha t))"

subsection \<open>The text as a total function of the normal form\<close>

text \<open>Keys in order at every level, a decimal as its string.\<close>

fun json_norm :: "json \<Rightarrow> json" where
  "json_norm (JDecimal v) = JString v"
| "json_norm (JArray vs) = JArray (map json_norm vs)"
| "json_norm (JObject members) = JObject (sort_key fst (map (map_prod id json_norm) members))"
| "json_norm v = v"

fun json_supported :: "json \<Rightarrow> bool" where
  "json_supported (JNumber n) \<longleftrightarrow> isSafeInteger n"
| "json_supported JUnsupported \<longleftrightarrow> False"
| "json_supported (JArray vs) \<longleftrightarrow> list_all json_supported vs"
| "json_supported (JObject members) \<longleftrightarrow> list_all (\<lambda>(k, v). json_supported v) members"
| "json_supported _ \<longleftrightarrow> True"

fun raw_text :: "json \<Rightarrow> string" where
  "raw_text JNull = ''null''"
| "raw_text (JBool b) = (if b then ''true'' else ''false'')"
| "raw_text (JNumber n) = json_integer n"
| "raw_text (JString s) = json_string s"
| "raw_text (JDecimal s) = json_string s"
| "raw_text (JArray vs) = ''['' @ join_comma (map raw_text vs) @ '']''"
| "raw_text (JObject members) =
     ''{'' @ join_comma (map (\<lambda>(k, v). json_string k @ '':'' @ raw_text v) members) @ ''}''"
| "raw_text JUnsupported = []"

lemma sort_key_map_prod: "sort_key fst (map (map_prod id f) xs) = map (map_prod id f) (sort_key fst xs)"
proof (induction xs)
  case (Cons x xs)
  have "insort_key fst (map_prod id f x) (map (map_prod id f) ys) = map (map_prod id f) (insort_key fst x ys)" for ys
    by (induction ys) (auto simp: map_prod_def split: prod.splits)
  with Cons show ?case by (simp add: id_def)
qed simp

lemma serialize_eq:
  "serialize v = (if json_supported v then Inr (raw_text (json_norm v)) else Inl BACKTEST_RUN_FAILED)"
proof (induction v rule: serialize.induct)
  case (7 vs)
  have "mapR serialize vs = (if list_all json_supported vs
      then Inr (map (raw_text \<circ> json_norm) vs) else Inl BACKTEST_RUN_FAILED)"
    by (rule mapR_if) (simp add: 7)
  then show ?case by (simp add: comp_def)
next
  case (8 members)
  have "mapR (\<lambda>(key, v). rbind (serialize v) (\<lambda>t. Inr (json_string key @ '':'' @ t))) (sort_key fst members)
      = (if list_all (\<lambda>(k, v). json_supported v) (sort_key fst members)
         then Inr (map (\<lambda>(k, v). json_string k @ '':'' @ raw_text (json_norm v)) (sort_key fst members))
         else Inl BACKTEST_RUN_FAILED)"
  proof (rule mapR_if)
    fix x
    assume x: "x \<in> set (sort_key fst members)"
    obtain k v where kv: "x = (k, v)" by fastforce
    from 8[OF x, of k v] kv
    show "(case x of (key, v) \<Rightarrow> rbind (serialize v) (\<lambda>t. Inr (json_string key @ '':'' @ t))) =
        (if (\<lambda>(k, v). json_supported v) x
         then Inr ((\<lambda>(k, v). json_string k @ '':'' @ raw_text (json_norm v)) x) else Inl BACKTEST_RUN_FAILED)"
      by simp
  qed
  moreover have "list_all P (sort_key fst members) = list_all P members" for P
    by (simp add: list_all_iff)
  ultimately show ?case
    by (simp add: sort_key_map_prod comp_def split_def)
qed simp_all

lemma canonicalJson_eq_Inr:
  "canonicalJson v = Inr t \<longleftrightarrow> json_supported v \<and> t = raw_text (json_norm v)"
  by (auto simp: canonicalJson_def serialize_eq)

subsection \<open>The text can be read back\<close>

lemma of_char_eq_iff: "(of_char c :: nat) = of_char d \<longleftrightarrow> c = d"
  by (auto dest: arg_cong[where f = "char_of :: nat \<Rightarrow> char"])

lemma hex_digit_inject: "m < 16 \<Longrightarrow> n < 16 \<Longrightarrow> hex_digit m = hex_digit n \<longleftrightarrow> m = n"
proof -
  assume mn: "m < 16" "n < 16"
  have v: "(of_char (hex_digit k) :: nat) = (if k < 10 then 48 + k else 87 + k)" if "k < 16" for k
    using that by (simp add: hex_digit_def)
  show "hex_digit m = hex_digit n \<longleftrightarrow> m = n"
    unfolding of_char_eq_iff[symmetric] v[OF mn(1)] v[OF mn(2)] using mn by auto
qed

lemma hex_digits_inject:
  assumes "hex_digit (m div 16) = hex_digit (n div 16)" and "hex_digit (m mod 16) = hex_digit (n mod 16)"
    and "m < 32" and "n < 32"
  shows "m = n"
proof -
  have "m div 16 = n div 16" and "m mod 16 = n mod 16"
    using assms by (simp_all add: hex_digit_inject)
  then show ?thesis by (metis div_mult_mod_eq)
qed

lemma escape_nonempty: "escape_char c \<noteq> []"
  by (simp add: escape_char_def)

lemma escape_no_quote: "hd (escape_char c) \<noteq> CHR 0x22"
  by (auto simp: escape_char_def)

text \<open>Every character is written in one of three shapes: itself, a short escape, a code.\<close>

definition short_escapes :: "(char \<times> char) list" where
  "short_escapes =
     [(CHR 0x22, CHR 0x22), (CHR 0x5C, CHR 0x5C), (CHR 0x08, CHR ''b''), (CHR 0x09, CHR ''t''),
      (CHR 0x0A, CHR ''n''), (CHR 0x0C, CHR ''f''), (CHR 0x0D, CHR ''r'')]"

lemma escape_shape:
  obtains "escape_char c = [c]" and "c \<noteq> CHR 0x5C"
    | e where "escape_char c = [CHR 0x5C, e]" and "(c, e) \<in> set short_escapes"
    | "escape_char c = CHR 0x5C # ''u00'' @ [hex_digit (of_char c div 16), hex_digit (of_char c mod 16)]"
      and "(of_char c :: nat) < 32"
  using that
  by (cases "c \<in> fst ` set short_escapes"; cases "(of_char c :: nat) < 32")
    (auto simp: escape_char_def short_escapes_def)

lemma short_escapes_inject:
  "(c, e) \<in> set short_escapes \<Longrightarrow> (d, e) \<in> set short_escapes \<Longrightarrow> c = d"
  "(c, e) \<in> set short_escapes \<Longrightarrow> e \<noteq> CHR ''u''"
  by (auto simp: short_escapes_def)

lemma escape_inject:
  assumes eq: "escape_char c @ r = escape_char d @ r'"
  shows "c = d \<and> r = r'"
proof -
  have "c = d"
  proof (cases rule: escape_shape[of c])
    case c: 1
    then show ?thesis by (cases rule: escape_shape[of d]) (use eq c in auto)
  next
    case c: (2 e)
    then show ?thesis
      by (cases rule: escape_shape[of d]) (use eq c short_escapes_inject in auto)
  next
    case c: 3
    then show ?thesis
    proof (cases rule: escape_shape[of d])
      case d: 3
      have "(of_char c :: nat) = of_char d"
        by (rule hex_digits_inject) (use eq c d in auto)
      then show ?thesis by (simp only: of_char_eq_iff)
    qed (use eq c short_escapes_inject(2) in auto)
  qed
  with eq show ?thesis by simp
qed

lemma escaped_quote: "CHR 0x22 # r \<noteq> escape_char d @ r'"
proof
  assume "CHR 0x22 # r = escape_char d @ r'"
  then have "hd (escape_char d) = CHR 0x22" using escape_nonempty[of d] by (cases "escape_char d") auto
  with escape_no_quote show False by blast
qed

lemma escapes_inject:
  "concat (map escape_char s) @ CHR 0x22 # r = concat (map escape_char t) @ CHR 0x22 # r' \<Longrightarrow> s = t \<and> r = r'"
proof (induction s arbitrary: t)
  case Nil
  then show ?case using escaped_quote[of r] by (cases t) auto
next
  case (Cons c s)
  show ?case
  proof (cases t)
    case Nil
    then show ?thesis using Cons.prems escaped_quote[of r' c, THEN not_sym] by simp
  next
    case t: (Cons d t')
    with Cons.prems have "escape_char c @ concat (map escape_char s) @ CHR 0x22 # r
        = escape_char d @ concat (map escape_char t') @ CHR 0x22 # r'" by simp
    note e = escape_inject[OF this]
    from Cons.IH[of t'] e t show ?thesis by simp
  qed
qed

lemma json_string_inject: "json_string s @ r = json_string t @ r' \<Longrightarrow> s = t \<and> r = r'"
  by (rule escapes_inject) (simp add: json_string_def)

text \<open>What may follow a number: anything but another digit.\<close>

definition stops :: "string \<Rightarrow> bool" where
  "stops r \<longleftrightarrow> (case r of [] \<Rightarrow> True | c # _ \<Rightarrow> \<not> is_digit c)"

lemma takeWhile_stops:
  "list_all is_digit s \<Longrightarrow> stops r \<Longrightarrow> takeWhile is_digit (s @ r) = s"
  by (induction s) (auto simp: stops_def split: list.splits)

lemma nat_digits_inject:
  assumes "nat_digits m @ r = nat_digits n @ r'" and "stops r" and "stops r'"
  shows "m = n \<and> r = r'"
proof -
  have "nat_digits m = nat_digits n"
    using takeWhile_stops[OF nat_digits_all assms(2), of m] takeWhile_stops[OF nat_digits_all assms(3), of n]
      assms(1) by simp
  then show ?thesis using assms(1) by (metis digits_nat_digits same_append_eq)
qed

lemma nat_digits_not_minus: "nat_digits m @ r \<noteq> CHR ''-'' # r'"
  using nat_digits_all[of m] nat_digits_nonempty[of m] by (cases "nat_digits m") auto

lemma json_integer_inject:
  assumes "json_integer m @ r = json_integer n @ r'" and "stops r" and "stops r'"
  shows "m = n \<and> r = r'"
proof (cases "m < 0 \<longleftrightarrow> n < 0")
  case True
  with assms have "nat_digits (nat \<bar>m\<bar>) @ r = nat_digits (nat \<bar>n\<bar>) @ r'"
    by (auto simp: json_integer_def split: if_splits)
  from nat_digits_inject[OF this assms(2,3)] True show ?thesis by auto
next
  case False
  with assms(1) nat_digits_not_minus nat_digits_not_minus[THEN not_sym] show ?thesis
    by (auto simp: json_integer_def split: if_splits)
qed

lemma json_integer_hd: "json_integer n \<noteq> [] \<and> (hd (json_integer n) = CHR ''-'' \<or> is_digit (hd (json_integer n)))"
  using nat_digits_all[of "nat \<bar>n\<bar>"] nat_digits_nonempty[of "nat \<bar>n\<bar>"]
  by (cases "nat_digits (nat \<bar>n\<bar>)") (auto simp: json_integer_def)

text \<open>A comma-separated list of texts that can each be read back is read back as a whole.\<close>

lemma join_comma_Cons: "join_comma (t # ts) = t @ (if ts = [] then [] else CHR '','' # join_comma ts)"
  by (cases ts) simp_all

lemma join_comma_inject:
  assumes uniq: "\<And>v w r r'. v \<in> set vs \<Longrightarrow> ok w \<Longrightarrow> stops r \<Longrightarrow> stops r' \<Longrightarrow>
      f v @ r = f w @ r' \<Longrightarrow> v = w \<and> r = r'"
    and ok: "list_all ok vs" "list_all ok ws"
    and hd: "\<And>v. ok v \<Longrightarrow> f v \<noteq> [] \<and> hd (f v) \<noteq> close"
    and close: "\<not> is_digit close" "close \<noteq> CHR '',''"
    and eq: "join_comma (map f vs) @ close # r = join_comma (map f ws) @ close # r'"
  shows "vs = ws \<and> r = r'"
  using uniq ok eq
proof (induction vs arbitrary: ws)
  case Nil
  show ?case
  proof (cases ws)
    case (Cons w ws')
    with Nil hd[of w] show ?thesis by (cases "f w") (auto simp: join_comma_Cons)
  qed (use Nil in simp)
next
  case (Cons v vs)
  show ?case
  proof (cases ws)
    case Nil
    with Cons.prems hd[of v] show ?thesis by (cases "f v") (auto simp: join_comma_Cons)
  next
    case ws: (Cons w ws')
    let ?tail = "\<lambda>us r. (if us = [] then [] else CHR '','' # join_comma (map f us)) @ close # r"
    have st: "stops (?tail us q)" for us q
      using close(1) by (simp add: stops_def is_digit_def)
    have "f v @ ?tail vs r = f w @ ?tail ws' r'"
      using Cons.prems(4) ws by (simp add: join_comma_Cons)
    moreover have "ok w" using Cons.prems(3) ws by simp
    ultimately have "v = w \<and> ?tail vs r = ?tail ws' r'"
      using Cons.prems(1)[of v w] st by (metis list.set_intros(1))
    moreover from this have "vs = ws' \<and> r = r'"
    proof (cases "vs = [] \<or> ws' = []")
      case True
      with \<open>v = w \<and> ?tail vs r = ?tail ws' r'\<close> close(2) show ?thesis by (auto split: if_splits)
    next
      case False
      with \<open>v = w \<and> ?tail vs r = ?tail ws' r'\<close>
      have "join_comma (map f vs) @ close # r = join_comma (map f ws') @ close # r'" by simp
      then show ?thesis
        by (intro Cons.IH) (use Cons.prems ws in auto)
    qed
    ultimately show ?thesis using ws by simp
  qed
qed

fun json_plain :: "json \<Rightarrow> bool" where
  "json_plain (JDecimal _) \<longleftrightarrow> False"
| "json_plain JUnsupported \<longleftrightarrow> False"
| "json_plain (JArray vs) \<longleftrightarrow> list_all json_plain vs"
| "json_plain (JObject members) \<longleftrightarrow> list_all (\<lambda>(k, v). json_plain v) members"
| "json_plain _ \<longleftrightarrow> True"

fun json_lead :: "json \<Rightarrow> char set" where
  "json_lead JNull = {CHR ''n''}"
| "json_lead (JBool b) = (if b then {CHR ''t''} else {CHR ''f''})"
| "json_lead (JNumber n) = insert (CHR ''-'') (Collect is_digit)"
| "json_lead (JString s) = {CHR 0x22}"
| "json_lead (JDecimal s) = {CHR 0x22}"
| "json_lead (JArray vs) = {CHR ''[''}"
| "json_lead (JObject members) = {CHR ''{''}"
| "json_lead JUnsupported = {}"

lemma raw_text_lead: "json_plain v \<Longrightarrow> raw_text v \<noteq> [] \<and> hd (raw_text v) \<in> json_lead v"
  using json_integer_hd by (cases v) (auto simp: json_string_def)

lemma raw_text_lead_eq:
  assumes "json_plain v" and "json_plain w" and "raw_text v @ r = raw_text w @ r'"
  shows "\<exists>c. c \<in> json_lead v \<and> c \<in> json_lead w"
  using raw_text_lead[OF assms(1)] raw_text_lead[OF assms(2)] assms(3) by (metis hd_append2)

lemma raw_text_inject:
  "json_plain a \<Longrightarrow> json_plain b \<Longrightarrow> stops r \<Longrightarrow> stops r' \<Longrightarrow> raw_text a @ r = raw_text b @ r' \<Longrightarrow>
   a = b \<and> r = r'"
proof (induction a arbitrary: b r r')
  case (JNumber n)
  from raw_text_lead_eq[OF JNumber(1,2,5)] obtain m where "b = JNumber m"
    by (cases b) (auto simp: is_digit_def split: if_splits)
  with JNumber json_integer_inject[of n r m r'] show ?case by simp
next
  case (JString s)
  from raw_text_lead_eq[OF JString(1,2,5)] JString(2) obtain t where "b = JString t"
    by (cases b) (auto simp: is_digit_def split: if_splits)
  with JString json_string_inject[of s r t r'] show ?case by simp
next
  case (JArray vs)
  from raw_text_lead_eq[OF JArray(2,3,6)] obtain ws where b: "b = JArray ws"
    by (cases b) (auto simp: is_digit_def split: if_splits)
  have "vs = ws \<and> r = r'"
  proof (rule join_comma_inject[where f = raw_text and ok = json_plain and close = "CHR '']''"])
    fix v :: json
    assume "json_plain v"
    from raw_text_lead[OF this] show "raw_text v \<noteq> [] \<and> hd (raw_text v) \<noteq> CHR '']''"
      by (cases v) (auto simp: is_digit_def split: if_splits)
  next
    fix v w q q'
    assume "v \<in> set vs" "json_plain w" "stops q" "stops q'" "raw_text v @ q = raw_text w @ q'"
    moreover from this JArray.prems(1) have "json_plain v" by (simp add: list_all_iff)
    ultimately show "v = w \<and> q = q'" using JArray.IH by blast
  qed (use JArray.prems b in \<open>auto simp: is_digit_def\<close>)
  with b show ?case by simp
next
  case (JObject members)
  from raw_text_lead_eq[OF JObject(2,3,6)] obtain members' where b: "b = JObject members'"
    by (cases b) (auto simp: is_digit_def split: if_splits)
  have "members = members' \<and> r = r'"
  proof (rule join_comma_inject[where f = "\<lambda>(k, v). json_string k @ '':'' @ raw_text v"
        and ok = "\<lambda>(k, v). json_plain v" and close = "CHR ''}''"])
    fix p q q' :: "string" and x y :: "string \<times> json"
    assume x: "x \<in> set members" and y: "case y of (k, v) \<Rightarrow> json_plain v" and st: "stops q" "stops q'"
      and eq: "(case x of (k, v) \<Rightarrow> json_string k @ '':'' @ raw_text v) @ q
        = (case y of (k, v) \<Rightarrow> json_string k @ '':'' @ raw_text v) @ q'"
    obtain k v l w where kv: "x = (k, v)" "y = (l, w)" by fastforce
    from eq kv have "json_string k @ CHR '':'' # raw_text v @ q = json_string l @ CHR '':'' # raw_text w @ q'"
      by simp
    from json_string_inject[OF this] have kl: "k = l" and rest: "raw_text v @ q = raw_text w @ q'" by simp_all
    have "json_plain v" using JObject.prems(1) x kv by (auto simp: list_all_iff)
    with JObject.IH[OF x, of v] kv y st rest have "v = w \<and> q = q'" by simp
    with kl kv show "x = y \<and> q = q'" by simp
  qed (use JObject.prems b in \<open>auto simp: is_digit_def json_string_def\<close>)
  with b show ?case by simp
next
  case JNull
  from raw_text_lead_eq[OF JNull(1,2,5)] JNull(2) have "b = JNull"
    by (cases b) (auto simp: is_digit_def split: if_splits)
  with JNull show ?case by simp
next
  case (JBool t)
  from raw_text_lead_eq[OF JBool(1,2,5)] JBool(2) have "b = JBool t"
    by (cases b) (auto simp: is_digit_def split: if_splits)
  with JBool show ?case by simp
qed simp_all

lemma json_norm_plain: "json_supported v \<Longrightarrow> json_plain (json_norm v)"
proof (induction v rule: json_norm.induct)
  case (3 members)
  have "json_plain (json_norm w)" if "(k, w) \<in> set members" for k w
    using 3 that by (fastforce simp: list_all_iff)
  then show ?case by (auto simp: list_all_iff)
qed (auto simp: list_all_iff)

lemma canonicalJson_inject:
  assumes "canonicalJson v = Inr t" and "canonicalJson w = Inr t"
  shows "json_norm v = json_norm w"
proof -
  have eq: "raw_text (json_norm v) @ [] = raw_text (json_norm w) @ []"
    and "json_supported v" "json_supported w"
    using assms by (auto simp: canonicalJson_eq_Inr)
  then show ?thesis
    using raw_text_inject[OF json_norm_plain json_norm_plain _ _ eq] by (simp add: stops_def)
qed

lemma sort_members_cong:
  fixes xs ys :: "(string \<times> json) list"
  assumes "mset xs = mset ys" and "distinct (map fst xs)"
  shows "sort_key fst xs = sort_key fst ys"
proof (rule map_sorted_distinct_set_unique[where f = fst])
  have set_eq: "set xs = set ys" using assms(1) by (rule mset_eq_setD)
  show "inj_on fst (set (sort_key fst xs) \<union> set (sort_key fst ys))"
    using assms(2) set_eq by (simp add: distinct_map)
  show "distinct (map fst (sort_key fst xs))"
    using assms(2) by (metis mset_map mset_sort mset_eq_imp_distinct_iff)
  show "distinct (map fst (sort_key fst ys))"
    using assms by (metis mset_map mset_sort mset_eq_imp_distinct_iff)
qed (use assms(1) mset_eq_setD in \<open>auto\<close>)

subsection \<open>Properties\<close>

text \<open>C31. Canonical JSON is injective: two values are written as the same text exactly when they
  agree up to the order of object keys (and up to a decimal being its own string), so a digest
  separates them unless the digest itself collides.\<close>

theorem canonical_json_injective:
  assumes "json_supported v" and "json_supported w"
  shows "canonicalJson v = canonicalJson w \<longleftrightarrow> json_norm v = json_norm w"
proof
  assume "canonicalJson v = canonicalJson w"
  then show "json_norm v = json_norm w"
    using assms by (intro canonicalJson_inject) (simp_all add: canonicalJson_eq_Inr)
qed (use assms in \<open>simp add: canonicalJson_def serialize_eq\<close>)

theorem canonical_json_injective_witness:
  "canonicalJson (JObject [(''b'', JNumber 1), (''a'', JString ''x'')])
   = canonicalJson (JObject [(''a'', JString ''x''), (''b'', JNumber 1)])"
  using canonical_json_injective[of "JObject [(''b'', JNumber 1), (''a'', JString ''x'')]"
      "JObject [(''a'', JString ''x''), (''b'', JNumber 1)]"]
  by (simp add: isSafeInteger_def)

text \<open>The order in which the members of an object were inserted does not change its canonical
  text.\<close>

theorem canonical_json_key_order:
  assumes "mset xs = mset ys" and "distinct (map fst xs)"
  shows "canonicalJson (JObject xs) = canonicalJson (JObject ys)"
  by (simp add: canonicalJson_def sort_members_cong[OF assms])

theorem canonical_json_key_order_witness:
  "canonicalJson (JObject [(''b'', JNull), (''a'', JBool True)]) = canonicalJson (JObject [(''a'', JBool True), (''b'', JNull)])"
  by (rule canonical_json_key_order) simp_all

subsection \<open>Flat objects\<close>

text \<open>Most preimages are objects with fixed keys and atomic members.\<close>

lemma members_eqI:
  fixes xs ys :: "(string \<times> json) list"
  assumes "set xs = set ys" and "map fst xs = map fst ys" and "distinct (map fst xs)"
  shows "xs = ys"
proof (rule nth_equalityI)
  show len: "length xs = length ys" using assms(2) by (rule map_eq_imp_length_eq)
  fix n
  assume n: "n < length xs"
  have key: "fst (xs ! n) = fst (ys ! n)" using n len assms(2) by (metis nth_map)
  have "ys ! n \<in> set xs" using n len assms(1) by (metis nth_mem)
  moreover have "xs ! n \<in> set xs" using n by (rule nth_mem)
  ultimately show "xs ! n = ys ! n"
    using key assms(3) by (metis (no_types, lifting) distinct_map inj_onD)
qed

definition flat_members :: "(string \<times> json) list \<Rightarrow> bool" where
  "flat_members xs \<longleftrightarrow> map (map_prod id json_norm) xs = xs \<and> distinct (map fst xs)"

lemma flat_object_inject:
  assumes "canonicalJson (JObject xs) = Inr t" and "canonicalJson (JObject ys) = Inr t"
    and "flat_members xs" and "flat_members ys" and "map fst xs = map fst ys"
  shows "xs = ys"
proof (rule members_eqI)
  have "sort_key fst xs = sort_key fst ys"
    using canonicalJson_inject[OF assms(1,2)] assms(3,4) by (simp add: flat_members_def id_def)
  then show "set xs = set ys" by (metis set_sort)
qed (use assms in \<open>simp_all add: flat_members_def\<close>)

end
