(* ===== verification/Live_Policy.thy ===== *)
theory Live_Policy
  imports Live_Decimal Canonical_Json
begin

section \<open>Live execution policy\<close>

text \<open>
  \<^verbatim>\<open>src/execution/live/execution-policy.ts\<close>: the content-addressed policy an intent binds. What a
  function may throw is a \<open>thrown\<close>: a live execution code, a canonical-JSON failure, a database
  unique-constraint violation or a plain \<^verbatim>\<open>Error\<close>. Numbers are integers (a fractional value, which the range check
  refuses, has no representation), and the digest is the parameter \<open>sha\<close>.
\<close>

datatype thrown =
    Live live_code
  | Json json_error
  | UniqueViolation
  | Plain string

definition liveR :: "(live_code, 'a) res \<Rightarrow> (thrown, 'a) res" where
  "liveR m = (case m of Inl e \<Rightarrow> Inl (Live e) | Inr x \<Rightarrow> Inr x)"

definition jsonR :: "(json_error, 'a) res \<Rightarrow> (thrown, 'a) res" where
  "jsonR m = (case m of Inl e \<Rightarrow> Inl (Json e) | Inr x \<Rightarrow> Inr x)"

lemma liveR_Inr [simp]: "liveR m = Inr x \<longleftrightarrow> m = Inr x"
  and jsonR_Inr [simp]: "jsonR j = Inr x \<longleftrightarrow> j = Inr x"
  by (cases m; cases j; simp add: liveR_def jsonR_def)+

definition digestOf :: "(string \<Rightarrow> string) \<Rightarrow> json \<Rightarrow> (thrown, string) res" where
  "digestOf sha v = jsonR (sha256CanonicalJson sha v)"

lemma digestOf_Inr: "digestOf sha v = Inr d \<longleftrightarrow> (\<exists>t. canonicalJson v = Inr t \<and> d = sha t)"
  by (auto simp: digestOf_def sha256CanonicalJson_def rbind_eq_Inr)

lemma digestOf_norm:
  "json_supported v \<Longrightarrow> digestOf sha v = Inr (sha (raw_text (json_norm v)))"
  by (simp add: digestOf_Inr canonicalJson_eq_Inr)

subsection \<open>Names\<close>

primrec order_type_name :: "order_type \<Rightarrow> string" where
  "order_type_name MARKET = ''MARKET''"
| "order_type_name LIMIT = ''LIMIT''"

primrec time_in_force_name :: "time_in_force \<Rightarrow> string" where
  "time_in_force_name UNSPECIFIED = ''UNSPECIFIED''"
| "time_in_force_name GOOD_TILL_CANCEL = ''GOOD_TILL_CANCEL''"
| "time_in_force_name FILL_OR_KILL = ''FILL_OR_KILL''"
| "time_in_force_name IMMEDIATE_OR_CANCEL = ''IMMEDIATE_OR_CANCEL''"
| "time_in_force_name POST_ONLY = ''POST_ONLY''"

primrec side_name :: "order_side \<Rightarrow> string" where
  "side_name BUY = ''BUY''"
| "side_name SELL = ''SELL''"

primrec action_name :: "live_action \<Rightarrow> string" where
  "action_name OPEN = ''OPEN''"
| "action_name CLOSE = ''CLOSE''"

lemma order_type_name_inject [simp]: "order_type_name a = order_type_name b \<longleftrightarrow> a = b"
  by (cases a; cases b) simp_all

lemma time_in_force_name_inject [simp]: "time_in_force_name a = time_in_force_name b \<longleftrightarrow> a = b"
  by (cases a; cases b) simp_all

lemma side_name_inject [simp]: "side_name a = side_name b \<longleftrightarrow> a = b"
  by (cases a; cases b) simp_all

lemma action_name_inject [simp]: "action_name a = action_name b \<longleftrightarrow> a = b"
  by (cases a; cases b) simp_all

subsection \<open>The policy\<close>

definition LIVE_EXECUTION_POLICY_VERSION :: string where
  "LIVE_EXECUTION_POLICY_VERSION = ''P17_LIVE_EXECUTION_POLICY_V1''"

record policy_content =
  pc_policyVersion :: string
  pc_allowedOrderTypes :: "order_type list"
  pc_allowedTimeInForce :: "time_in_force list"
  pc_postOnlySupported :: bool
  pc_maxOrderNotionalInr :: string
  pc_dispatchClaimTimeoutMs :: int
  pc_requestTimeoutMs :: int
  pc_executionSemanticsVersion :: string

record policy_snapshot =
  ps_liveExecutionPolicyId :: string
  ps_content :: policy_content

definition ORDER_TYPES :: "order_type list" where
  "ORDER_TYPES = [MARKET, LIMIT]"

definition TIME_IN_FORCE :: "time_in_force list" where
  "TIME_IN_FORCE = [UNSPECIFIED, GOOD_TILL_CANCEL, FILL_OR_KILL, IMMEDIATE_OR_CANCEL, POST_ONLY]"

definition assertBoundedInteger :: "int \<Rightarrow> int \<Rightarrow> int \<Rightarrow> (live_code, unit) res" where
  "assertBoundedInteger v lo hi =
     (if \<not> isSafeInteger v \<or> v < lo \<or> v > hi then Inl LIVE_INTENT_INVALID else Inr ())"

definition normalizeSet ::
    "('a \<Rightarrow> string) \<Rightarrow> 'a list \<Rightarrow> 'a list \<Rightarrow> (live_code, 'a list) res" where
  "normalizeSet name vals allowed =
     (if length vals = 0 then Inl LIVE_INTENT_INVALID
      else
        let unique = set_of_values vals
        in if \<not> list_all (List.member allowed) unique then Inl LIVE_INTENT_INVALID
           else Inr (sort_key name unique))"

definition normalizeLiveExecutionPolicyContent :: "policy_content \<Rightarrow> (live_code, policy_content) res" where
  "normalizeLiveExecutionPolicyContent content =
     (if pc_policyVersion content \<noteq> LIVE_EXECUTION_POLICY_VERSION then Inl LIVE_INTENT_INVALID
      else if trim (pc_executionSemanticsVersion content) \<noteq> pc_executionSemanticsVersion content
              \<or> length (pc_executionSemanticsVersion content) = 0 then Inl LIVE_INTENT_INVALID
      else if pc_postOnlySupported content \<noteq> False then Inl LIVE_INTENT_INVALID
      else
        rbind (normalizeSet order_type_name (pc_allowedOrderTypes content) ORDER_TYPES) (\<lambda>allowedOrderTypes.
        rbind (normalizeSet time_in_force_name (pc_allowedTimeInForce content) TIME_IN_FORCE) (\<lambda>allowedTimeInForce.
          if List.member allowedTimeInForce POST_ONLY then Inl LIVE_INTENT_INVALID
          else
            rbind (assertBoundedInteger (pc_dispatchClaimTimeoutMs content) 1 3600000) (\<lambda>_.
            rbind (assertBoundedInteger (pc_requestTimeoutMs content) 1 120000) (\<lambda>_.
            rbind (canonicalNonNegativeLiveDecimal (Some (pc_maxOrderNotionalInr content))) (\<lambda>maxOrderNotionalInr.
              if maxOrderNotionalInr = ''0'' then Inl LIVE_INTENT_INVALID
              else Inr \<lparr>pc_policyVersion = LIVE_EXECUTION_POLICY_VERSION,
                        pc_allowedOrderTypes = allowedOrderTypes,
                        pc_allowedTimeInForce = allowedTimeInForce,
                        pc_postOnlySupported = pc_postOnlySupported content,
                        pc_maxOrderNotionalInr = maxOrderNotionalInr,
                        pc_dispatchClaimTimeoutMs = pc_dispatchClaimTimeoutMs content,
                        pc_requestTimeoutMs = pc_requestTimeoutMs content,
                        pc_executionSemanticsVersion = pc_executionSemanticsVersion content\<rparr>))))))"

definition policy_json :: "policy_content \<Rightarrow> json" where
  "policy_json c = JObject
     [(''policyVersion'', JString (pc_policyVersion c)),
      (''allowedOrderTypes'', JArray (map (JString \<circ> order_type_name) (pc_allowedOrderTypes c))),
      (''allowedTimeInForce'', JArray (map (JString \<circ> time_in_force_name) (pc_allowedTimeInForce c))),
      (''postOnlySupported'', JBool (pc_postOnlySupported c)),
      (''maxOrderNotionalInr'', JString (pc_maxOrderNotionalInr c)),
      (''dispatchClaimTimeoutMs'', JNumber (pc_dispatchClaimTimeoutMs c)),
      (''requestTimeoutMs'', JNumber (pc_requestTimeoutMs c)),
      (''executionSemanticsVersion'', JString (pc_executionSemanticsVersion c))]"

definition buildLiveExecutionPolicySnapshot ::
    "(string \<Rightarrow> string) \<Rightarrow> policy_content \<Rightarrow> (thrown, policy_snapshot) res" where
  "buildLiveExecutionPolicySnapshot sha content =
     rbind (liveR (normalizeLiveExecutionPolicyContent content)) (\<lambda>normalized.
     rbind (digestOf sha (policy_json normalized)) (\<lambda>policyId.
       Inr \<lparr>ps_liveExecutionPolicyId = policyId, ps_content = normalized\<rparr>))"

definition validateLiveExecutionPolicySnapshot ::
    "(string \<Rightarrow> string) \<Rightarrow> policy_snapshot \<Rightarrow> (thrown, policy_snapshot) res" where
  "validateLiveExecutionPolicySnapshot sha snapshot =
     rbind (buildLiveExecutionPolicySnapshot sha (ps_content snapshot)) (\<lambda>rebuilt.
       if ps_liveExecutionPolicyId snapshot \<noteq> ps_liveExecutionPolicyId rebuilt
       then Inl (Live LIVE_INTENT_INVALID) else Inr rebuilt)"

definition defaultLiveExecutionPolicyContent :: "string \<Rightarrow> policy_content" where
  "defaultLiveExecutionPolicyContent maxOrderNotionalInr =
     \<lparr>pc_policyVersion = LIVE_EXECUTION_POLICY_VERSION, pc_allowedOrderTypes = [LIMIT, MARKET],
      pc_allowedTimeInForce = [UNSPECIFIED], pc_postOnlySupported = False,
      pc_maxOrderNotionalInr = maxOrderNotionalInr, pc_dispatchClaimTimeoutMs = 60000,
      pc_requestTimeoutMs = 10000, pc_executionSemanticsVersion = ''P17_LIVE_EXECUTION_SEMANTICS_V1''\<rparr>"

subsection \<open>Normal policies\<close>

lemma sort_key_set_unique:
  fixes name :: "'a \<Rightarrow> string"
  assumes "inj name" and "set xs = set ys" and "distinct xs" and "distinct ys"
  shows "sort_key name xs = sort_key name ys"
  by (rule map_sorted_distinct_set_unique[where f = name])
    (use assms in \<open>auto simp: inj_on_subset[OF assms(1)] distinct_map\<close>)

lemma normalizeSet_Inr:
  "normalizeSet name vals allowed = Inr xs \<longleftrightarrow>
     vals \<noteq> [] \<and> set vals \<subseteq> set allowed \<and> xs = sort_key name (set_of_values vals)"
  by (auto simp: normalizeSet_def Let_def list_all_iff)

lemma normalizeSet_cong:
  assumes "inj name" and "set vals = set vals'"
  shows "normalizeSet name vals allowed = normalizeSet name vals' allowed"
proof -
  have "length vals = 0 \<longleftrightarrow> length vals' = 0" using assms(2) by auto
  moreover have "sort_key name (set_of_values vals) = sort_key name (set_of_values vals')"
    by (rule sort_key_set_unique) (use assms in simp_all)
  ultimately show ?thesis using assms(2) by (simp add: normalizeSet_def Let_def list_all_iff)
qed

lemma normalize_policy_Inr:
  assumes "normalizeLiveExecutionPolicyContent c = Inr n"
  shows "POST_ONLY \<notin> set (pc_allowedTimeInForce n)"
    and "set (pc_allowedTimeInForce n) = set (pc_allowedTimeInForce c)"
    and "set (pc_allowedOrderTypes n) = set (pc_allowedOrderTypes c)"
    and "normal_text (pc_maxOrderNotionalInr n)" "persisted_value (text_value (pc_maxOrderNotionalInr n))"
    and "0 < text_value (pc_maxOrderNotionalInr n)"
    and "text_value (pc_maxOrderNotionalInr n) = text_value (pc_maxOrderNotionalInr c)"
    and "1 \<le> pc_requestTimeoutMs n \<and> pc_requestTimeoutMs n \<le> 120000"
    and "1 \<le> pc_dispatchClaimTimeoutMs n \<and> pc_dispatchClaimTimeoutMs n \<le> 3600000"
    and "normalizeLiveExecutionPolicyContent n = Inr n"
proof -
  from assms obtain ots tifs m where
    v: "pc_policyVersion c = LIVE_EXECUTION_POLICY_VERSION" "\<not> pc_postOnlySupported c"
    and e: "trim (pc_executionSemanticsVersion c) = pc_executionSemanticsVersion c"
      "pc_executionSemanticsVersion c \<noteq> []"
    and o: "normalizeSet order_type_name (pc_allowedOrderTypes c) ORDER_TYPES = Inr ots"
    and t: "normalizeSet time_in_force_name (pc_allowedTimeInForce c) TIME_IN_FORCE = Inr tifs" "POST_ONLY \<notin> set tifs"
    and b: "assertBoundedInteger (pc_dispatchClaimTimeoutMs c) 1 3600000 = Inr ()"
      "assertBoundedInteger (pc_requestTimeoutMs c) 1 120000 = Inr ()"
    and m: "canonicalNonNegativeLiveDecimal (Some (pc_maxOrderNotionalInr c)) = Inr m" "m \<noteq> ''0''"
    and n: "n = \<lparr>pc_policyVersion = LIVE_EXECUTION_POLICY_VERSION, pc_allowedOrderTypes = ots,
                  pc_allowedTimeInForce = tifs, pc_postOnlySupported = pc_postOnlySupported c,
                  pc_maxOrderNotionalInr = m, pc_dispatchClaimTimeoutMs = pc_dispatchClaimTimeoutMs c,
                  pc_requestTimeoutMs = pc_requestTimeoutMs c,
                  pc_executionSemanticsVersion = pc_executionSemanticsVersion c\<rparr>"
    unfolding normalizeLiveExecutionPolicyContent_def
    by (auto simp: rbind_eq_Inr if_Inl_eq_Inr)
  note mD = nonneg_canonicalD[OF m(1)]
  show "POST_ONLY \<notin> set (pc_allowedTimeInForce n)"
    "set (pc_allowedTimeInForce n) = set (pc_allowedTimeInForce c)"
    "set (pc_allowedOrderTypes n) = set (pc_allowedOrderTypes c)"
    using o t by (simp_all add: n normalizeSet_Inr)
  show "normal_text (pc_maxOrderNotionalInr n)" "persisted_value (text_value (pc_maxOrderNotionalInr n))"
    using mD by (simp_all add: n)
  show "text_value (pc_maxOrderNotionalInr n) = text_value (pc_maxOrderNotionalInr c)"
    using m(1) by (auto simp: n nonneg_eq_Inr normalize_text_value)
  show "0 < text_value (pc_maxOrderNotionalInr n)"
    using mD m(2) normal_text_zero_iff[OF mD(1)] by (simp add: n less_le)
  show "1 \<le> pc_requestTimeoutMs n \<and> pc_requestTimeoutMs n \<le> 120000"
    "1 \<le> pc_dispatchClaimTimeoutMs n \<and> pc_dispatchClaimTimeoutMs n \<le> 3600000"
    using b by (simp_all add: n assertBoundedInteger_def split: if_splits)
  have again: "normalizeSet name xs allowed = Inr xs"
    if "normalizeSet name vals allowed = Inr xs" "inj name" for name :: "'x \<Rightarrow> string" and vals xs allowed
  proof -
    have "normalizeSet name xs allowed = normalizeSet name vals allowed"
      by (rule normalizeSet_cong) (use that in \<open>auto simp: normalizeSet_Inr\<close>)
    with that(1) show ?thesis by simp
  qed
  have "normalizeSet order_type_name ots ORDER_TYPES = Inr ots"
    by (rule again[OF o]) (simp add: inj_def)
  moreover have "normalizeSet time_in_force_name tifs TIME_IN_FORCE = Inr tifs"
    by (rule again[OF t(1)]) (simp add: inj_def)
  moreover have "canonicalNonNegativeLiveDecimal (Some m) = Inr m"
    using mD by (simp add: nonneg_eq_Inr normal_signed_text normalize_normal)
  ultimately show "normalizeLiveExecutionPolicyContent n = Inr n"
    using v e t(2) b m(2) by (simp add: normalizeLiveExecutionPolicyContent_def n)
qed

lemma policy_json_supported:
  "normalizeLiveExecutionPolicyContent c = Inr n \<Longrightarrow> json_supported (policy_json n)"
  using normalize_policy_Inr(8,9)[of c n]
  by (auto simp: policy_json_def isSafeInteger_def list_all_iff)

lemma build_snapshot_Inr:
  "buildLiveExecutionPolicySnapshot sha c = Inr s \<longleftrightarrow>
     (\<exists>n. normalizeLiveExecutionPolicyContent c = Inr n
        \<and> s = \<lparr>ps_liveExecutionPolicyId = sha (raw_text (json_norm (policy_json n))), ps_content = n\<rparr>)"
  by (auto simp: buildLiveExecutionPolicySnapshot_def rbind_eq_Inr digestOf_norm policy_json_supported)

subsection \<open>Properties\<close>

text \<open>A built policy snapshot is accepted at every later boundary, unchanged; a snapshot whose
  identity is not the digest of its content is refused; and no accepted policy allows POST_ONLY, a
  non-positive notional ceiling, or a time-out outside its bounds.\<close>

theorem policy_snapshot_roundtrip:
  assumes "buildLiveExecutionPolicySnapshot sha content = Inr snapshot"
  shows "validateLiveExecutionPolicySnapshot sha snapshot = Inr snapshot
     \<and> (other \<noteq> ps_liveExecutionPolicyId snapshot \<longrightarrow>
          validateLiveExecutionPolicySnapshot sha (snapshot\<lparr>ps_liveExecutionPolicyId := other\<rparr>)
            = Inl (Live LIVE_INTENT_INVALID))
     \<and> POST_ONLY \<notin> set (pc_allowedTimeInForce (ps_content snapshot))
     \<and> 0 < text_value (pc_maxOrderNotionalInr (ps_content snapshot))
     \<and> pc_requestTimeoutMs (ps_content snapshot) \<in> {1..120000}
     \<and> pc_dispatchClaimTimeoutMs (ps_content snapshot) \<in> {1..3600000}"
proof -
  obtain n where n: "normalizeLiveExecutionPolicyContent content = Inr n"
    and s: "snapshot = \<lparr>ps_liveExecutionPolicyId = sha (raw_text (json_norm (policy_json n))), ps_content = n\<rparr>"
    using assms by (auto simp: build_snapshot_Inr)
  note N = normalize_policy_Inr[OF n]
  have "buildLiveExecutionPolicySnapshot sha n = Inr snapshot"
    using N(10) by (simp add: build_snapshot_Inr s)
  with N show ?thesis
    by (simp add: validateLiveExecutionPolicySnapshot_def s)
qed

theorem policy_snapshot_roundtrip_witness:
  "\<exists>s. buildLiveExecutionPolicySnapshot (\<lambda>t. ''h'') (defaultLiveExecutionPolicyContent ''100'') = Inr s
     \<and> validateLiveExecutionPolicySnapshot (\<lambda>t. ''h'') s = Inr s"
proof -
  have "is_ok (normalizeLiveExecutionPolicyContent (defaultLiveExecutionPolicyContent ''100''))"
    by code_simp
  then obtain s where "buildLiveExecutionPolicySnapshot (\<lambda>t. ''h'') (defaultLiveExecutionPolicyContent ''100'') = Inr s"
    by (auto simp: is_ok_iff build_snapshot_Inr)
  with policy_snapshot_roundtrip[OF this] show ?thesis by blast
qed

text \<open>Policy identity is a function of the sets of permitted values: repeating or reordering the
  allowed order types and times in force, or writing the ceiling in another form of the same number,
  gives the same snapshot.\<close>

theorem policy_identity_of_sets:
  assumes "set (pc_allowedOrderTypes b) = set (pc_allowedOrderTypes a)"
    and "set (pc_allowedTimeInForce b) = set (pc_allowedTimeInForce a)"
    and "signed_text (pc_maxOrderNotionalInr a)" and "signed_text (pc_maxOrderNotionalInr b)"
    and "text_value (pc_maxOrderNotionalInr b) = text_value (pc_maxOrderNotionalInr a)"
    and "b = a\<lparr>pc_allowedOrderTypes := pc_allowedOrderTypes b, pc_allowedTimeInForce := pc_allowedTimeInForce b,
               pc_maxOrderNotionalInr := pc_maxOrderNotionalInr b\<rparr>"
  shows "buildLiveExecutionPolicySnapshot sha b = buildLiveExecutionPolicySnapshot sha a"
proof -
  have o: "normalizeSet order_type_name (pc_allowedOrderTypes b) ORDER_TYPES
      = normalizeSet order_type_name (pc_allowedOrderTypes a) ORDER_TYPES"
    by (rule normalizeSet_cong) (use assms in \<open>simp_all add: inj_def\<close>)
  have t: "normalizeSet time_in_force_name (pc_allowedTimeInForce b) TIME_IN_FORCE
      = normalizeSet time_in_force_name (pc_allowedTimeInForce a) TIME_IN_FORCE"
    by (rule normalizeSet_cong) (use assms in \<open>simp_all add: inj_def\<close>)
  have m: "canonicalNonNegativeLiveDecimal (Some (pc_maxOrderNotionalInr b))
      = canonicalNonNegativeLiveDecimal (Some (pc_maxOrderNotionalInr a))"
    using assms(3-5) normalize_text_eq_iff[of "pc_maxOrderNotionalInr b" "pc_maxOrderNotionalInr a"]
    by (simp add: canonicalNonNegativeLiveDecimal_def canonicalPersistedLiveDecimal_def canonical_normalize)
  have rest: "pc_policyVersion b = pc_policyVersion a" "pc_postOnlySupported b = pc_postOnlySupported a"
    "pc_dispatchClaimTimeoutMs b = pc_dispatchClaimTimeoutMs a" "pc_requestTimeoutMs b = pc_requestTimeoutMs a"
    "pc_executionSemanticsVersion b = pc_executionSemanticsVersion a"
    by (subst assms(6), simp)+
  have "normalizeLiveExecutionPolicyContent b = normalizeLiveExecutionPolicyContent a"
    unfolding normalizeLiveExecutionPolicyContent_def o t m rest ..
  then show ?thesis by (simp add: buildLiveExecutionPolicySnapshot_def)
qed

theorem policy_identity_of_sets_witness:
  "buildLiveExecutionPolicySnapshot (\<lambda>t. t) ((defaultLiveExecutionPolicyContent ''100'')\<lparr>pc_allowedOrderTypes := [MARKET, LIMIT, MARKET]\<rparr>)
   = buildLiveExecutionPolicySnapshot (\<lambda>t. t) (defaultLiveExecutionPolicyContent ''100'')"
  by (rule policy_identity_of_sets)
    (auto simp: defaultLiveExecutionPolicyContent_def intro: normal_signed_text)

end
