(* ===== verification/Live_Constraints.thy ===== *)
theory Live_Constraints
  imports Live_Decimal
begin

section \<open>Instrument constraints\<close>

text \<open>
  \<^verbatim>\<open>src/execution/live/instrument-constraints.ts\<close>: quantising a requested quantity and price to the
  instrument's increments, proving the result within the instrument's bounds, and choosing the
  order-type word that goes on the wire. The lemmas show that quantising never makes an order
  larger or more aggressive and that what the check lets through satisfies every bound.
\<close>

record instrument_constraints =
  icn_pair :: string
  icn_instrumentSpecSnapshotId :: string
  icn_quoteCurrency :: string
  icn_settlementCurrency :: string
  icn_priceIncrement :: string
  icn_quantityIncrement :: string
  icn_minQuantity :: string
  icn_maxQuantity :: string
  icn_minPrice :: string
  icn_maxPrice :: string
  icn_minNotional :: string
  icn_maxNotional :: "string option"
  icn_maxMarketOrderQuantity :: "string option"
  icn_contractMultiplier :: string
  icn_supportedOrderTypes :: "string list"
  icn_supportedTimeInForce :: "string list"
  icn_exitOnly :: bool

record quantized_economics =
  qe_quantity :: string
  qe_price :: "string option"
  qe_notional :: "string option"
  qe_quantityAdjusted :: bool
  qe_priceAdjusted :: bool

subsection \<open>Quantisation\<close>

text \<open>The price half of the function: the quantised price, if any, and whether it moved.\<close>

definition quantizePrice ::
    "decimal_js \<Rightarrow> rat \<Rightarrow> order_side \<Rightarrow> order_type \<Rightarrow> string option \<Rightarrow> (live_code, rat option \<times> bool) res" where
  "quantizePrice D priceIncrement side orderType price =
     (if orderType = LIMIT then
        (case price of
           None \<Rightarrow> Inl LIVE_INSTRUMENT_CONSTRAINT
         | Some p \<Rightarrow>
             rbind (canonicalPositiveLiveDecimal (Some p)) (\<lambda>c.
             rbind (liveDecimal D c) (\<lambda>requestedPrice.
             rbind (if side = BUY then floorToIncrement D requestedPrice priceIncrement
                    else ceilToIncrement D requestedPrice priceIncrement) (\<lambda>quantizedPrice.
               if quantizedPrice \<le> 0 then Inl LIVE_INSTRUMENT_CONSTRAINT
               else Inr (Some quantizedPrice, quantizedPrice \<noteq> requestedPrice)))))
      else if price \<noteq> None then Inl LIVE_INSTRUMENT_CONSTRAINT
      else Inr (None, False))"

definition positiveDecimal :: "decimal_js \<Rightarrow> string \<Rightarrow> (live_code, rat) res" where
  "positiveDecimal D s = rbind (canonicalPositiveLiveDecimal (Some s)) (liveDecimal D)"

definition quantizeOrderEconomics ::
    "decimal_js \<Rightarrow> instrument_constraints \<Rightarrow> order_side \<Rightarrow> order_type \<Rightarrow> string \<Rightarrow> string option
     \<Rightarrow> (live_code, quantized_economics) res" where
  "quantizeOrderEconomics D constraints side orderType quantity price =
     rbind (positiveDecimal D (icn_quantityIncrement constraints)) (\<lambda>quantityIncrement.
     rbind (positiveDecimal D (icn_priceIncrement constraints)) (\<lambda>priceIncrement.
     rbind (positiveDecimal D quantity) (\<lambda>requestedQuantity.
     rbind (floorToIncrement D requestedQuantity quantityIncrement) (\<lambda>quantizedQuantity.
       if quantizedQuantity \<le> 0 then Inl LIVE_INSTRUMENT_CONSTRAINT
       else
         rbind (quantizePrice D priceIncrement side orderType price) (\<lambda>(quantizedPrice, priceAdjusted).
         rbind (positiveDecimal D (icn_contractMultiplier constraints)) (\<lambda>contractMultiplier.
           let notional = map_option (\<lambda>p. dround D (dround D (quantizedQuantity * p) * contractMultiplier))
                            quantizedPrice
           in Inr \<lparr>qe_quantity = dfixed D quantizedQuantity,
                   qe_price = map_option (dfixed D) quantizedPrice,
                   qe_notional = map_option (dfixed D) notional,
                   qe_quantityAdjusted = (quantizedQuantity \<noteq> requestedQuantity),
                   qe_priceAdjusted = priceAdjusted\<rparr>))))))"

subsection \<open>Bounds\<close>

definition assertAligned :: "decimal_js \<Rightarrow> rat \<Rightarrow> string \<Rightarrow> (live_code, unit) res" where
  "assertAligned D x increment =
     rbind (liveDecimal D increment) (\<lambda>y.
     rbind (isAlignedToIncrement D x y) (\<lambda>aligned. demand aligned LIVE_INSTRUMENT_CONSTRAINT))"

definition assertAtLeast :: "decimal_js \<Rightarrow> rat \<Rightarrow> string \<Rightarrow> (live_code, unit) res" where
  "assertAtLeast D x bound =
     rbind (liveDecimal D bound) (\<lambda>b. if x < b then Inl LIVE_INSTRUMENT_CONSTRAINT else Inr ())"

definition assertAtMost :: "decimal_js \<Rightarrow> rat \<Rightarrow> string \<Rightarrow> (live_code, unit) res" where
  "assertAtMost D x bound =
     rbind (liveDecimal D bound) (\<lambda>b. if x > b then Inl LIVE_INSTRUMENT_CONSTRAINT else Inr ())"

definition whenSome :: "'a option \<Rightarrow> ('a \<Rightarrow> ('e, unit) res) \<Rightarrow> ('e, unit) res" where
  "whenSome v f = (case v of None \<Rightarrow> Inr () | Some x \<Rightarrow> f x)"

definition assertOrderWithinInstrumentConstraints ::
    "decimal_js \<Rightarrow> instrument_constraints \<Rightarrow> live_action \<Rightarrow> order_type \<Rightarrow> quantized_economics
     \<Rightarrow> (live_code, unit) res" where
  "assertOrderWithinInstrumentConstraints D constraints action orderType economics =
     (if action = OPEN \<and> icn_exitOnly constraints then Inl LIVE_INSTRUMENT_CONSTRAINT
      else
        rbind (liveDecimal D (qe_quantity economics)) (\<lambda>quantity.
        rbind (assertAligned D quantity (icn_quantityIncrement constraints)) (\<lambda>_.
        rbind (assertAtLeast D quantity (icn_minQuantity constraints)) (\<lambda>_.
        rbind (assertAtMost D quantity (icn_maxQuantity constraints)) (\<lambda>_.
        rbind (if orderType = MARKET
               then whenSome (icn_maxMarketOrderQuantity constraints) (assertAtMost D quantity)
               else Inr ()) (\<lambda>_.
        rbind (whenSome (qe_price economics) (\<lambda>p.
                 rbind (liveDecimal D p) (\<lambda>price.
                 rbind (assertAligned D price (icn_priceIncrement constraints)) (\<lambda>_.
                 rbind (assertAtLeast D price (icn_minPrice constraints)) (\<lambda>_.
                   assertAtMost D price (icn_maxPrice constraints)))))) (\<lambda>_.
          whenSome (qe_notional economics) (\<lambda>n.
            rbind (liveDecimal D n) (\<lambda>notional.
            rbind (assertAtLeast D notional (icn_minNotional constraints)) (\<lambda>_.
              whenSome (icn_maxNotional constraints) (assertAtMost D notional)))))))))))"

subsection \<open>The order-type word\<close>

text \<open>\<^verbatim>\<open>String.prototype.toLowerCase\<close> on the characters of a \<open>char\<close> (ASCII and Latin-1).\<close>

definition lower_char :: "char \<Rightarrow> char" where
  "lower_char c =
     (let n = of_char c :: nat
      in if (65 \<le> n \<and> n \<le> 90) \<or> (192 \<le> n \<and> n \<le> 222 \<and> n \<noteq> 215) then char_of (n + 32) else c)"

definition starts_with :: "string \<Rightarrow> string \<Rightarrow> bool" where
  "starts_with p s \<longleftrightarrow> take (length p) s = p"

definition resolveWireOrderType :: "instrument_constraints \<Rightarrow> order_type \<Rightarrow> (live_code, string) res" where
  "resolveWireOrderType constraints orderType =
     (let wanted = (if orderType = MARKET then ''market'' else ''limit'');
          candidates = filter (\<lambda>declared.
            let normalized = map lower_char (trim declared)
            in if starts_with ''stop'' normalized \<or> starts_with ''take_profit'' normalized then False
               else normalized = wanted \<or> normalized = wanted @ ''_order'')
            (icn_supportedOrderTypes constraints)
      in case candidates of
           [] \<Rightarrow> Inl LIVE_UNSUPPORTED_EXECUTION_SEMANTICS
         | resolved # _ \<Rightarrow> Inr resolved)"

subsection \<open>Rounding to 128 digits loses nothing here\<close>

lemma persisted_mult:
  assumes "x = of_int a / 10 ^ k" and "\<bar>a\<bar> < 10 ^ m" and "persisted_value y"
  obtains c where "x * y = of_int c / 10 ^ (k + 18)" and "\<bar>c\<bar> < 10 ^ (m + 36)"
proof -
  obtain b where b: "y = of_int b / 10 ^ 18" "\<bar>b\<bar> < 10 ^ 36"
    using assms(3) unfolding persisted_value_def by blast
  show thesis
  proof (rule that)
    show "x * y = of_int (a * b) / 10 ^ (k + 18)"
      unfolding assms(1) b(1) by (simp only: of_int_mult power_add times_divide_times_eq)
    have "\<bar>a * b\<bar> < 10 ^ m * 10 ^ 36"
      unfolding abs_mult by (rule mult_strict_mono'[OF assms(2) b(2)]) simp_all
    then show "\<bar>a * b\<bar> < 10 ^ (m + 36)" by (simp only: power_add)
  qed
qed

lemma persistedE:
  assumes "persisted_value x"
  obtains a where "x = of_int a / 10 ^ 18" and "\<bar>a\<bar> < 10 ^ 36"
  using assms unfolding persisted_value_def by blast

context decimal_lib
begin

lemma positiveDecimal_Inr:
  "positiveDecimal D s = Inr x \<longleftrightarrow>
     signed_text s \<and> text_value s = x \<and> persisted_value x \<and> 0 < x"
proof -
  have "liveDecimal D t = Inr (text_value t)" if "normal_text t" for t
    using that by (simp add: liveDecimal_signed normal_signed_text)
  then have "positiveDecimal D s = Inr x \<longleftrightarrow>
      (\<exists>t. canonicalPositiveLiveDecimal (Some s) = Inr t \<and> text_value t = x)"
    by (auto simp: positiveDecimal_def rbind_eq_Inr positive_eq_Inr normalize_text_normal)
  then show ?thesis by (auto simp: positive_eq_Inr normalize_text_value)
qed

lemma product_exact:
  assumes "128 \<le> prec" and "persisted_value x" and "persisted_value y"
  shows "dround D (x * y) = x * y"
proof -
  obtain a where a: "x = of_int a / 10 ^ 18" "\<bar>a\<bar> < 10 ^ 36" by (rule persistedE[OF assms(2)])
  obtain c where c: "x * y = of_int c / 10 ^ (18 + 18)" "\<bar>c\<bar> < 10 ^ (36 + 36)"
    by (rule persisted_mult[OF a assms(3)])
  have "(10::int) ^ (36 + 36) \<le> 10 ^ prec" by (rule power_increasing) (use assms(1) in simp_all)
  with c(2) have "\<bar>c\<bar> < 10 ^ prec" by linarith
  then show ?thesis unfolding c(1) by (rule dround_exact)
qed

lemma product3_exact:
  assumes "128 \<le> prec" and "persisted_value x" and "persisted_value y" and "persisted_value z"
  shows "dround D (x * y * z) = x * y * z" and "decimal_fraction (x * y * z)"
proof -
  obtain a where a: "x = of_int a / 10 ^ 18" "\<bar>a\<bar> < 10 ^ 36" by (rule persistedE[OF assms(2)])
  obtain b where b: "x * y = of_int b / 10 ^ (18 + 18)" "\<bar>b\<bar> < 10 ^ (36 + 36)"
    by (rule persisted_mult[OF a assms(3)])
  obtain c where c: "x * y * z = of_int c / 10 ^ (18 + 18 + 18)" "\<bar>c\<bar> < 10 ^ (36 + 36 + 36)"
    by (rule persisted_mult[OF b assms(4)])
  have "(10::int) ^ (36 + 36 + 36) \<le> 10 ^ prec" by (rule power_increasing) (use assms(1) in simp_all)
  with c(2) have "\<bar>c\<bar> < 10 ^ prec" by linarith
  then show "dround D (x * y * z) = x * y * z" unfolding c(1) by (rule dround_exact)
  show "decimal_fraction (x * y * z)" by (rule decimal_fractionI[OF c(1)])
qed

text \<open>
  A product of four persisted values may need more than 128 digits, but then it is far above every
  persisted bound: comparing the rounded product with a persisted bound is exact.
\<close>

lemma product4_le_iff:
  assumes "128 \<le> prec" and "persisted_value x" and "persisted_value y" and "persisted_value z"
    and "persisted_value w" and "0 \<le> x * y * z * w" and "persisted_value bound"
  shows "dround D (x * y * z * w) \<le> bound \<longleftrightarrow> x * y * z * w \<le> bound"
proof -
  obtain a where a: "x = of_int a / 10 ^ 18" "\<bar>a\<bar> < 10 ^ 36" by (rule persistedE[OF assms(2)])
  obtain b where b: "x * y = of_int b / 10 ^ (18 + 18)" "\<bar>b\<bar> < 10 ^ (36 + 36)"
    by (rule persisted_mult[OF a assms(3)])
  obtain c where c: "x * y * z = of_int c / 10 ^ (18 + 18 + 18)" "\<bar>c\<bar> < 10 ^ (36 + 36 + 36)"
    by (rule persisted_mult[OF b assms(4)])
  obtain d where d: "x * y * z * w = of_int d / 10 ^ (18 + 18 + 18 + 18)"
    by (rule persisted_mult[OF c assms(5)])
  have "0 \<le> of_int d / (10::rat) ^ (18 + 18 + 18 + 18)" using assms(6) unfolding d .
  then have "0 \<le> (of_int d :: rat)" by (simp only: zero_le_divide_iff) auto
  then have d0: "0 \<le> d" by (simp only: of_int_0_le_iff)
  obtain e where e: "bound = of_int e / 10 ^ 18" "\<bar>e\<bar> < 10 ^ 36" by (rule persistedE[OF assms(7)])
  have big: "(10::int) ^ 100 < 10 ^ prec" by (rule power_strict_increasing) (use assms(1) in simp_all)
  show ?thesis
  proof (cases "d < 10 ^ 100")
    case True
    then have "\<bar>d\<bar> < 10 ^ prec" using d0 big by linarith
    then show ?thesis unfolding d by (simp only: dround_exact)
  next
    case False
    let ?m = "of_int (10 ^ 100) / 10 ^ (18 + 18 + 18 + 18) :: rat"
    have "(of_int e :: rat) < of_int (10 ^ 36)" using e(2) by (simp only: of_int_less_iff abs_less_iff)
    then have "bound < of_int (10 ^ 36) / 10 ^ 18"
      unfolding e(1) by (rule divide_strict_right_mono) simp
    also have "of_int (10 ^ 36) / 10 ^ 18 \<le> ?m" by simp
    finally have lt: "bound < ?m" .
    have "of_int (10 ^ 100) \<le> (of_int d :: rat)" using False by (simp only: of_int_le_iff not_less)
    then have le: "?m \<le> x * y * z * w" unfolding d by (rule divide_right_mono) simp
    have "?m \<le> dround D (x * y * z * w)"
      by (rule dround_ge_exact[OF refl _ le]) (use big in simp)
    with lt le show ?thesis by linarith
  qed
qed

end

subsection \<open>What quantisation does\<close>

lemma persisted_multiple:
  assumes "persisted_value y" and "0 \<le> y * of_int n" and "y * of_int n \<le> x" and "persisted_value x"
  shows "persisted_value (y * of_int n)"
proof -
  obtain a where a: "y = of_int a / 10 ^ 18" "\<bar>a\<bar> < 10 ^ 36" by (rule persistedE[OF assms(1)])
  obtain b where b: "x = of_int b / 10 ^ 18" "\<bar>b\<bar> < 10 ^ 36" by (rule persistedE[OF assms(4)])
  have p: "y * of_int n = of_int (a * n) / 10 ^ 18" unfolding a(1) by (simp only: of_int_mult times_divide_eq_left)
  have "of_int 0 \<le> (of_int (a * n) :: rat)" and "(of_int (a * n) :: rat) \<le> of_int b"
    using assms(2,3) unfolding p b(1)
    by (simp_all only: of_int_0 zero_le_divide_iff divide_le_cancel) auto
  then have "0 \<le> a * n" and "a * n \<le> b" by (simp_all only: of_int_le_iff)
  then have "\<bar>a * n\<bar> < 10 ^ 36" using b(2) by linarith
  with p show ?thesis unfolding persisted_value_def by blast
qed

lemma floor_multiple:
  assumes "0 < (y::rat)"
  shows "y * of_int \<lfloor>x / y\<rfloor> \<le> x" and "x < y * of_int \<lfloor>x / y\<rfloor> + y"
proof -
  have x: "x = y * (x / y)" using assms by simp
  have "y * of_int \<lfloor>x / y\<rfloor> \<le> y * (x / y)" by (rule mult_left_mono) (use assms in auto)
  then show "y * of_int \<lfloor>x / y\<rfloor> \<le> x" using x by simp
  have "x / y < of_int \<lfloor>x / y\<rfloor> + 1" by linarith
  from mult_strict_left_mono[OF this assms] x show "x < y * of_int \<lfloor>x / y\<rfloor> + y"
    by (simp add: algebra_simps)
qed

lemma ceiling_multiple:
  assumes "0 < (y::rat)"
  shows "x \<le> y * of_int \<lceil>x / y\<rceil>"
proof -
  have x: "x = y * (x / y)" using assms by simp
  have "y * (x / y) \<le> y * of_int \<lceil>x / y\<rceil>" by (rule mult_left_mono) (use assms in auto)
  then show ?thesis using x by simp
qed

definition quantized_price :: "order_side \<Rightarrow> rat \<Rightarrow> rat \<Rightarrow> rat" where
  "quantized_price side price step =
     step * of_int (if side = BUY then \<lfloor>price / step\<rfloor> else \<lceil>price / step\<rceil>)"

context decimal_lib
begin

lemma quantizePrice_Inr:
  assumes "quantizePrice D step side orderType price = Inr (qp, adjusted)"
    and "persisted_value step" and "0 < step"
  shows "(orderType = MARKET \<and> price = None \<and> qp = None \<and> \<not> adjusted) \<or>
     (\<exists>p. orderType = LIMIT \<and> price = Some p \<and> signed_text p \<and> 0 < text_value p
        \<and> persisted_value (text_value p) \<and> qp = Some (quantized_price side (text_value p) step)
        \<and> 0 < quantized_price side (text_value p) step
        \<and> (adjusted \<longleftrightarrow> quantized_price side (text_value p) step \<noteq> text_value p))"
proof (cases orderType)
  case MARKET
  with assms show ?thesis by (auto simp: quantizePrice_def split: if_splits)
next
  case LIMIT
  with assms(1) obtain p where p: "price = Some p"
    by (auto simp: quantizePrice_def split: option.splits)
  with LIMIT assms(1) obtain x where x: "positiveDecimal D p = Inr x"
    by (auto simp: quantizePrice_def positiveDecimal_def rbind_eq_Inr)
  then have px: "signed_text p" "text_value p = x" "persisted_value x" "0 < x"
    by (simp_all add: positiveDecimal_Inr)
  have q: "(if side = BUY then floorToIncrement D x step else ceilToIncrement D x step)
      = Inr (quantized_price side x step)"
    using floorToIncrement_value ceilToIncrement_value persisted_decimal px(3) assms(2,3)
    by (simp add: quantized_price_def)
  from x obtain c where "canonicalPositiveLiveDecimal (Some p) = Inr c" "liveDecimal D c = Inr x"
    by (auto simp: positiveDecimal_def rbind_eq_Inr)
  with assms(1) LIMIT p q px show ?thesis
    by (auto simp: quantizePrice_def rbind_eq_Inr if_Inl_eq_Inr not_le)
qed

lemma quantize_Inr:
  assumes "quantizeOrderEconomics D constraints side orderType quantity price = Inr e"
  obtains step pstep mult q qp where
    "step = text_value (icn_quantityIncrement constraints)" "persisted_value step" "0 < step"
    "pstep = text_value (icn_priceIncrement constraints)" "persisted_value pstep" "0 < pstep"
    "mult = text_value (icn_contractMultiplier constraints)" "persisted_value mult" "0 < mult"
    "signed_text quantity" "q = step * of_int \<lfloor>text_value quantity / step\<rfloor>" "0 < q" "persisted_value q"
    "normal_text (qe_quantity e)" "text_value (qe_quantity e) = q"
    "qe_quantityAdjusted e \<longleftrightarrow> q \<noteq> text_value quantity"
    "quantizePrice D pstep side orderType price = Inr (qp, qe_priceAdjusted e)"
    "qe_price e = map_option (dfixed D) qp"
    "qe_notional e = map_option (\<lambda>p. dfixed D (dround D (dround D (q * p) * mult))) qp"
proof -
  from assms obtain step pstep mult x qp adj where
    s: "positiveDecimal D (icn_quantityIncrement constraints) = Inr step"
      "positiveDecimal D (icn_priceIncrement constraints) = Inr pstep"
      "positiveDecimal D quantity = Inr x"
      "positiveDecimal D (icn_contractMultiplier constraints) = Inr mult"
    by (auto simp: quantizeOrderEconomics_def rbind_eq_Inr if_Inl_eq_Inr)
  note v = s[unfolded positiveDecimal_Inr]
  let ?q = "step * of_int \<lfloor>x / step\<rfloor>"
  have f: "floorToIncrement D x step = Inr ?q"
    using floorToIncrement_value persisted_decimal v by blast
  from assms obtain qp adj where pos: "0 < ?q"
    and p: "quantizePrice D pstep side orderType price = Inr (qp, adj)"
    and e: "e = \<lparr>qe_quantity = dfixed D ?q, qe_price = map_option (dfixed D) qp,
        qe_notional = map_option (dfixed D) (map_option (\<lambda>p. dround D (dround D (?q * p) * mult)) qp),
        qe_quantityAdjusted = (?q \<noteq> x), qe_priceAdjusted = adj\<rparr>"
    by (auto simp: quantizeOrderEconomics_def s f rbind_eq_Inr if_Inl_eq_Inr not_le)
  have per: "persisted_value ?q"
    by (rule persisted_multiple[OF _ _ floor_multiple(1)]) (use v pos in auto)
  show thesis
    by (rule that[of step pstep mult ?q qp])
      (use v pos per p e persisted_decimal[OF per] in
        \<open>simp_all add: dfixed_normal dfixed_value option.map_comp comp_def\<close>)
qed

end

subsection \<open>Properties\<close>

definition sample_constraints :: instrument_constraints where
  "sample_constraints =
     \<lparr>icn_pair = ''BTC'', icn_instrumentSpecSnapshotId = ''s1'', icn_quoteCurrency = ''USDT'',
      icn_settlementCurrency = ''USDT'', icn_priceIncrement = ''2'', icn_quantityIncrement = ''1'',
      icn_minQuantity = ''1'', icn_maxQuantity = ''100'', icn_minPrice = ''1'', icn_maxPrice = ''100'',
      icn_minNotional = ''1'', icn_maxNotional = None, icn_maxMarketOrderQuantity = None,
      icn_contractMultiplier = ''1'', icn_supportedOrderTypes = [''stop_limit'', '' Limit_Order''],
      icn_supportedTimeInForce = [], icn_exitOnly = False\<rparr>"

text \<open>C32. Quantising never increases risk: the quantity only shrinks, by less than one increment, and
  stays positive and aligned; a BUY limit price only falls and a SELL limit price only rises, to a
  multiple of the price increment; the adjusted flags say exactly whether something moved.\<close>

theorem quantization_never_increases_risk:
  assumes "decimal_lib D 128"
    and "quantizeOrderEconomics D constraints side orderType quantity price = Inr e"
  shows "text_value (qe_quantity e) \<le> text_value quantity
     \<and> 0 < text_value (qe_quantity e)
     \<and> text_value quantity < text_value (qe_quantity e) + text_value (icn_quantityIncrement constraints)
     \<and> text_value (qe_quantity e) / text_value (icn_quantityIncrement constraints) \<in> \<int>
     \<and> (qe_quantityAdjusted e \<longleftrightarrow> text_value (qe_quantity e) \<noteq> text_value quantity)
     \<and> (case (price, qe_price e) of
          (None, None) \<Rightarrow> orderType = MARKET \<and> \<not> qe_priceAdjusted e
        | (Some p, Some p') \<Rightarrow> orderType = LIMIT
            \<and> (if side = BUY then text_value p' \<le> text_value p else text_value p \<le> text_value p')
            \<and> text_value p' / text_value (icn_priceIncrement constraints) \<in> \<int>
            \<and> (qe_priceAdjusted e \<longleftrightarrow> text_value p' \<noteq> text_value p)
        | _ \<Rightarrow> False)"
proof (rule decimal_lib.quantize_Inr[OF assms])
  fix step pstep mult q qp
  assume step: "step = text_value (icn_quantityIncrement constraints)" "persisted_value step" "0 < step"
    and pstep: "pstep = text_value (icn_priceIncrement constraints)" "persisted_value pstep" "0 < pstep"
    and q: "q = step * of_int \<lfloor>text_value quantity / step\<rfloor>" "0 < q"
    and e: "text_value (qe_quantity e) = q" "qe_quantityAdjusted e \<longleftrightarrow> q \<noteq> text_value quantity"
    and pr: "quantizePrice D pstep side orderType price = Inr (qp, qe_priceAdjusted e)"
      "qe_price e = map_option (dfixed D) qp"
  have dec: "decimal_fraction (quantized_price side x pstep)" for x
    using decimal_lib.to_increment_decimal[OF assms(1) persisted_decimal[OF pstep(2)]]
    by (simp add: quantized_price_def)
  have side: "if side = BUY then quantized_price side x pstep \<le> x else x \<le> quantized_price side x pstep" for x
    using floor_multiple(1)[OF pstep(3)] ceiling_multiple[OF pstep(3)] by (simp add: quantized_price_def)
  have al: "quantized_price side x pstep / pstep \<in> \<int>" for x
    using pstep(3) by (simp add: quantized_price_def)
  have quant: "q \<le> text_value quantity" "text_value quantity < q + step" "q / step \<in> \<int>"
    using floor_multiple[OF step(3)] step(3) by (simp_all add: q(1))
  have price: "case (price, qe_price e) of
          (None, None) \<Rightarrow> orderType = MARKET \<and> \<not> qe_priceAdjusted e
        | (Some p, Some p') \<Rightarrow> orderType = LIMIT
            \<and> (if side = BUY then text_value p' \<le> text_value p else text_value p \<le> text_value p')
            \<and> text_value p' / text_value (icn_priceIncrement constraints) \<in> \<int>
            \<and> (qe_priceAdjusted e \<longleftrightarrow> text_value p' \<noteq> text_value p)
        | _ \<Rightarrow> False"
    using decimal_lib.quantizePrice_Inr[OF assms(1) pr(1) pstep(2,3)]
  proof
    assume "\<exists>p. orderType = LIMIT \<and> price = Some p \<and> signed_text p \<and> 0 < text_value p
        \<and> persisted_value (text_value p) \<and> qp = Some (quantized_price side (text_value p) pstep)
        \<and> 0 < quantized_price side (text_value p) pstep
        \<and> (qe_priceAdjusted e \<longleftrightarrow> quantized_price side (text_value p) pstep \<noteq> text_value p)"
    then obtain p where p: "orderType = LIMIT" "price = Some p"
      "qp = Some (quantized_price side (text_value p) pstep)"
      "qe_priceAdjusted e \<longleftrightarrow> quantized_price side (text_value p) pstep \<noteq> text_value p" by blast
    define p' where "p' = quantized_price side (text_value p) pstep"
    have "qe_price e = Some (dfixed D p')" and "text_value (dfixed D p') = p'"
      using pr(2) p(3) decimal_lib.dfixed_value[OF assms(1) dec] by (simp_all add: p'_def)
    with p(1,2) p(4)[folded p'_def] side[of "text_value p", folded p'_def]
      al[of "text_value p", folded p'_def, unfolded pstep(1)]
    show ?thesis by auto
  qed (use pr(2) in simp)
  with quant q e step(1) show ?thesis by simp
qed

theorem quantization_never_increases_risk_witness:
  "\<exists>e. quantizeOrderEconomics (half_up 128) sample_constraints SELL LIMIT ''2'' (Some ''1'') = Inr e
     \<and> text_value (qe_quantity e) \<le> 2"
proof -
  have d: "positiveDecimal (half_up 128) ''1'' = Inr 1" "positiveDecimal (half_up 128) ''2'' = Inr 2"
    by (simp_all add: half_up_128.positiveDecimal_Inr normal_signed_text)
  have df: "decimal_fraction 1" "decimal_fraction 2"
    using persisted_decimal[of 1] persisted_decimal[of 2] by simp_all
  have "\<lceil>1 / 2 :: rat\<rceil> = 1" by (rule ceiling_unique) simp_all
  then have "floorToIncrement (half_up 128) 2 1 = Inr 2" "ceilToIncrement (half_up 128) 1 2 = Inr 2"
    using half_up_128.floorToIncrement_value[OF df(2,1)] half_up_128.ceilToIncrement_value[OF df] by simp_all
  then obtain e where e: "quantizeOrderEconomics (half_up 128) sample_constraints SELL LIMIT ''2'' (Some ''1'') = Inr e"
    using d unfolding positiveDecimal_def
    by (simp add: quantizeOrderEconomics_def quantizePrice_def positiveDecimal_def sample_constraints_def)
  from quantization_never_increases_risk[OF half_up_128.decimal_lib_axioms this] e show ?thesis by auto
qed

end
