(* ===== verification/Live_Intent.thy ===== *)
theory Live_Intent
  imports Live_Policy Live_Constraints
begin

section \<open>Live execution intents\<close>

text \<open>
  \<^verbatim>\<open>src/execution/live/identity.ts\<close> and \<^verbatim>\<open>src/execution/live/intent.ts\<close>: the deterministic identity of
  an order's economic content, and the one composition that builds an intent from a policy, an
  instrument, a risk decision's economics and the requested shape. A genuine intent is its private
  record. The digest is the parameter \<open>sha\<close>.

  The lemmas show that the identity determines the content (unless the digest collides), that a
  built intent passes its own identity check, and which economic bounds a built intent satisfies.
\<close>

subsection \<open>Identity\<close>

definition assertExactId :: "string \<Rightarrow> (live_code, unit) res" where
  "assertExactId v = (if length v = 0 \<or> trim v \<noteq> v then Inl LIVE_INTENT_INVALID else Inr ())"

definition assertNullableExactId :: "string option \<Rightarrow> (live_code, unit) res" where
  "assertNullableExactId v = (case v of None \<Rightarrow> Inr () | Some s \<Rightarrow> assertExactId s)"

definition optionalCanonical :: "string option \<Rightarrow> (live_code, string option) res" where
  "optionalCanonical v =
     (case v of
        None \<Rightarrow> Inr None
      | Some s \<Rightarrow> rbind (canonicalLiveDecimalString (Some s)) (\<lambda>c. Inr (Some c)))"

definition json_opt :: "string option \<Rightarrow> json" where
  "json_opt v = (case v of None \<Rightarrow> JNull | Some s \<Rightarrow> JString s)"

definition json_opt_int :: "int option \<Rightarrow> json" where
  "json_opt_int v = (case v of None \<Rightarrow> JNull | Some n \<Rightarrow> JNumber n)"

text \<open>The content with its decimals canonical: what the identity and the stored digest bind.\<close>

definition canonicalContent :: "intent_content \<Rightarrow> (live_code, intent_content) res" where
  "canonicalContent content =
     rbind (canonicalLiveDecimalString (Some (ic_quantity content))) (\<lambda>quantity.
     rbind (optionalCanonical (ic_price content)) (\<lambda>price.
     rbind (optionalCanonical (ic_leverage content)) (\<lambda>leverage.
     rbind (canonicalLiveDecimalString (Some (ic_authorizedNotionalInr content))) (\<lambda>notional.
     rbind (optionalCanonical (ic_settlementRateInrPerQuote content)) (\<lambda>rate.
     rbind (optionalCanonical (ic_reduceOnlyQuantity content)) (\<lambda>reduce.
       Inr (content\<lparr>ic_quantity := quantity, ic_price := price, ic_leverage := leverage,
                    ic_authorizedNotionalInr := notional, ic_settlementRateInrPerQuote := rate,
                    ic_reduceOnlyQuantity := reduce\<rparr>)))))))"

definition content_members :: "intent_content \<Rightarrow> (string \<times> json) list" where
  "content_members c =
     [(''accountId'', JString (ic_accountId c)), (''pair'', JString (ic_pair c)),
      (''side'', JString (side_name (ic_side c))), (''action'', JString (action_name (ic_action c))),
      (''quantity'', JString (ic_quantity c)), (''orderType'', JString (order_type_name (ic_orderType c))),
      (''price'', json_opt (ic_price c)), (''timeInForce'', JString (time_in_force_name (ic_timeInForce c))),
      (''leverage'', json_opt (ic_leverage c)), (''riskDecisionId'', JString (ic_riskDecisionId c)),
      (''admissionId'', json_opt (ic_admissionId c)),
      (''strategyInstanceId'', JString (ic_strategyInstanceId c)), (''strategyId'', JString (ic_strategyId c)),
      (''strategyVersion'', JString (ic_strategyVersion c)), (''parameterHash'', JString (ic_parameterHash c)),
      (''liveExecutionPolicyId'', JString (ic_liveExecutionPolicyId c)),
      (''instrumentSpecSnapshotId'', JString (ic_instrumentSpecSnapshotId c)),
      (''authorizedNotionalInr'', JString (ic_authorizedNotionalInr c)),
      (''settlementRateInrPerQuote'', json_opt (ic_settlementRateInrPerQuote c)),
      (''positionInstanceId'', json_opt (ic_positionInstanceId c)),
      (''positionRevision'', json_opt_int (ic_positionRevision c)),
      (''reduceOnlyQuantity'', json_opt (ic_reduceOnlyQuantity c))]"

definition liveExecutionIntentIdentityPreimage :: "intent_content \<Rightarrow> (live_code, json) res" where
  "liveExecutionIntentIdentityPreimage content =
     rbind (mapR assertExactId
             [ic_accountId content, ic_pair content, ic_riskDecisionId content, ic_strategyInstanceId content,
              ic_strategyId content, ic_strategyVersion content, ic_parameterHash content,
              ic_liveExecutionPolicyId content, ic_instrumentSpecSnapshotId content,
              ic_authorizedNotionalInr content]) (\<lambda>_.
     rbind (assertNullableExactId (ic_admissionId content)) (\<lambda>_.
     rbind (assertNullableExactId (ic_positionInstanceId content)) (\<lambda>_.
       if (case ic_positionRevision content of None \<Rightarrow> False | Some n \<Rightarrow> \<not> isSafeInteger n \<or> n < 0)
       then Inl LIVE_INTENT_INVALID
       else
         rbind (canonicalContent content) (\<lambda>canonical.
           Inr (JObject ((''identityPolicyId'', JString ''P17_LIVE_EXECUTION_INTENT_IDENTITY_V1'')
                         # content_members canonical))))))"

definition computeLiveExecutionIntentId :: "(string \<Rightarrow> string) \<Rightarrow> intent_content \<Rightarrow> (thrown, string) res" where
  "computeLiveExecutionIntentId sha content =
     rbind (liveR (liveExecutionIntentIdentityPreimage content)) (digestOf sha)"

definition LIVE_CLIENT_ORDER_ID_PREFIX :: string where
  "LIVE_CLIENT_ORDER_ID_PREFIX = ''p17-''"

definition LIVE_CLIENT_ORDER_ID_DIGEST_CHARS :: nat where
  "LIVE_CLIENT_ORDER_ID_DIGEST_CHARS = 32"

definition is_hex :: "char \<Rightarrow> bool" where
  "is_hex c \<longleftrightarrow> is_digit c \<or> (97 \<le> (of_char c :: nat) \<and> (of_char c :: nat) \<le> 102)"

text \<open>\<^verbatim>\<open>/^p17-[0-9a-f]{32}$/\<close>\<close>

definition LIVE_CLIENT_ORDER_ID_PATTERN :: "string \<Rightarrow> bool" where
  "LIVE_CLIENT_ORDER_ID_PATTERN v \<longleftrightarrow>
     take 4 v = ''p17-'' \<and> length (drop 4 v) = 32 \<and> list_all is_hex (drop 4 v)"

definition deriveLiveClientOrderId :: "(string \<Rightarrow> string) \<Rightarrow> intent_content \<Rightarrow> (thrown, string) res" where
  "deriveLiveClientOrderId sha content =
     rbind (liveR (liveExecutionIntentIdentityPreimage content)) (\<lambda>preimage.
     rbind (digestOf sha (JObject [(''identityPolicyId'', JString ''P17_LIVE_CLIENT_ORDER_ID_V1''),
                                   (''intent'', preimage)])) (\<lambda>digest.
       let clientOrderId = LIVE_CLIENT_ORDER_ID_PREFIX @ take LIVE_CLIENT_ORDER_ID_DIGEST_CHARS digest
       in if \<not> LIVE_CLIENT_ORDER_ID_PATTERN clientOrderId then Inl (Live LIVE_INTENT_INVALID)
          else Inr clientOrderId))"

definition isLiveClientOrderId :: "string option \<Rightarrow> bool" where
  "isLiveClientOrderId v \<longleftrightarrow> (case v of None \<Rightarrow> False | Some s \<Rightarrow> LIVE_CLIENT_ORDER_ID_PATTERN s)"

subsection \<open>Intents\<close>

record intent_record =
  ir_intentId :: string
  ir_clientOrderId :: string
  ir_content :: intent_content
  ir_lineage :: live_lineage
  ir_wireOrderType :: string
  ir_quantityAdjusted :: bool
  ir_priceAdjusted :: bool

record shape_request =
  sh_orderType :: order_type
  sh_timeInForce :: time_in_force
  sh_limitPrice :: "string option"

record intent_economics =
  ie_accountId :: string
  ie_pair :: string
  ie_side :: order_side
  ie_action :: live_action
  ie_quantity :: string
  ie_leverage :: "string option"
  ie_riskDecisionId :: string
  ie_admissionId :: "string option"
  ie_strategyInstanceId :: string
  ie_strategyId :: string
  ie_strategyVersion :: string
  ie_parameterHash :: string
  ie_authorizedNotionalInr :: string
  ie_settlementRateInrPerQuote :: "string option"
  ie_positionInstanceId :: "string option"
  ie_positionRevision :: "int option"
  ie_reduceOnlyQuantity :: "string option"

text \<open>The checks that come before any arithmetic.\<close>

definition assertIntentShape ::
    "policy_content \<Rightarrow> instrument_constraints \<Rightarrow> intent_economics \<Rightarrow> shape_request \<Rightarrow> (live_code, unit) res" where
  "assertIntentShape policy constraints economics shape =
     (if icn_pair constraints \<noteq> ie_pair economics then Inl LIVE_INTENT_INVALID
      else if ie_action economics = OPEN \<and> ie_admissionId economics = None then Inl LIVE_INTENT_INVALID
      else if ie_action economics = CLOSE \<and> ie_admissionId economics \<noteq> None then Inl LIVE_INTENT_INVALID
      else if sh_orderType shape = MARKET then Inl LIVE_UNSUPPORTED_EXECUTION_SEMANTICS
      else if ie_action economics = OPEN
              \<and> (ie_settlementRateInrPerQuote economics = None \<or> ie_positionInstanceId economics \<noteq> None
                 \<or> ie_positionRevision economics \<noteq> None \<or> ie_reduceOnlyQuantity economics \<noteq> None)
           then Inl LIVE_INTENT_INVALID
      else if ie_action economics = CLOSE
              \<and> (ie_positionInstanceId economics = None \<or> ie_positionRevision economics = None
                 \<or> ie_reduceOnlyQuantity economics = None)
           then Inl LIVE_INTENT_INVALID
      else if \<not> List.member (pc_allowedOrderTypes policy) (sh_orderType shape)
           then Inl LIVE_UNSUPPORTED_EXECUTION_SEMANTICS
      else if \<not> List.member (pc_allowedTimeInForce policy) (sh_timeInForce shape)
           then Inl LIVE_UNSUPPORTED_EXECUTION_SEMANTICS
      else if sh_timeInForce shape = POST_ONLY then Inl LIVE_UNSUPPORTED_EXECUTION_SEMANTICS
      else Inr ())"

text \<open>The INR ceiling of an OPEN order.\<close>

definition assertNotionalCaps ::
    "decimal_js \<Rightarrow> policy_content \<Rightarrow> intent_economics \<Rightarrow> quantized_economics \<Rightarrow> (live_code, unit) res" where
  "assertNotionalCaps D policy economics quantized =
     (if ie_action economics = OPEN then
        whenSome (qe_notional quantized) (\<lambda>n.
          rbind (canonicalPositiveLiveDecimal (ie_settlementRateInrPerQuote economics)) (\<lambda>r.
          rbind (liveDecimal D r) (\<lambda>conversion.
          rbind (liveDecimal D n) (\<lambda>notional.
          let notionalInr = dround D (notional * conversion) in
          rbind (liveDecimal D (pc_maxOrderNotionalInr policy)) (\<lambda>policyCap.
          rbind (positiveDecimal D (ie_authorizedNotionalInr economics)) (\<lambda>riskCap.
            if notionalInr > policyCap \<or> notionalInr > riskCap then Inl LIVE_INSTRUMENT_CONSTRAINT
            else Inr ()))))))
      else Inr ())"

definition optionalPositive :: "string option \<Rightarrow> (live_code, string option) res" where
  "optionalPositive v =
     (case v of
        None \<Rightarrow> Inr None
      | Some s \<Rightarrow> rbind (canonicalPositiveLiveDecimal (Some s)) (\<lambda>c. Inr (Some c)))"

definition intentContent ::
    "policy_snapshot \<Rightarrow> instrument_constraints \<Rightarrow> intent_economics \<Rightarrow> shape_request \<Rightarrow> quantized_economics
     \<Rightarrow> (live_code, intent_content) res" where
  "intentContent policy constraints economics shape quantized =
     rbind (canonicalPositiveLiveDecimal (Some (qe_quantity quantized))) (\<lambda>quantity.
     rbind (optionalPositive (qe_price quantized)) (\<lambda>price.
     rbind (optionalPositive (ie_leverage economics)) (\<lambda>leverage.
     rbind (canonicalPositiveLiveDecimal (Some (ie_authorizedNotionalInr economics))) (\<lambda>notional.
     rbind (optionalPositive (ie_settlementRateInrPerQuote economics)) (\<lambda>rate.
     rbind (optionalPositive (ie_reduceOnlyQuantity economics)) (\<lambda>reduce.
       Inr \<lparr>ic_accountId = ie_accountId economics, ic_pair = ie_pair economics, ic_side = ie_side economics,
            ic_action = ie_action economics, ic_quantity = quantity, ic_orderType = sh_orderType shape,
            ic_price = price, ic_timeInForce = sh_timeInForce shape, ic_leverage = leverage,
            ic_riskDecisionId = ie_riskDecisionId economics, ic_admissionId = ie_admissionId economics,
            ic_strategyInstanceId = ie_strategyInstanceId economics, ic_strategyId = ie_strategyId economics,
            ic_strategyVersion = ie_strategyVersion economics, ic_parameterHash = ie_parameterHash economics,
            ic_liveExecutionPolicyId = ps_liveExecutionPolicyId policy,
            ic_instrumentSpecSnapshotId = icn_instrumentSpecSnapshotId constraints,
            ic_authorizedNotionalInr = notional, ic_settlementRateInrPerQuote = rate,
            ic_positionInstanceId = ie_positionInstanceId economics,
            ic_positionRevision = ie_positionRevision economics, ic_reduceOnlyQuantity = reduce\<rparr>))))))"

definition createLiveExecutionIntent ::
    "(string \<Rightarrow> string) \<Rightarrow> decimal_js \<Rightarrow> policy_snapshot \<Rightarrow> instrument_constraints \<Rightarrow> intent_economics
     \<Rightarrow> shape_request \<Rightarrow> live_lineage \<Rightarrow> (thrown, intent_record) res" where
  "createLiveExecutionIntent sha D snapshot constraints economics shape lineage =
     rbind (validateLiveExecutionPolicySnapshot sha snapshot) (\<lambda>policy.
     rbind (liveR (assertIntentShape (ps_content policy) constraints economics shape)) (\<lambda>_.
     rbind (liveR (resolveWireOrderType constraints (sh_orderType shape))) (\<lambda>wireOrderType.
     rbind (liveR (quantizeOrderEconomics D constraints (ie_side economics) (sh_orderType shape)
                     (ie_quantity economics) (sh_limitPrice shape))) (\<lambda>quantized.
     rbind (liveR (assertOrderWithinInstrumentConstraints D constraints (ie_action economics)
                     (sh_orderType shape) quantized)) (\<lambda>_.
     rbind (liveR (assertNotionalCaps D (ps_content policy) economics quantized)) (\<lambda>_.
     rbind (liveR (intentContent policy constraints economics shape quantized)) (\<lambda>content.
     rbind (computeLiveExecutionIntentId sha content) (\<lambda>intentId.
     rbind (deriveLiveClientOrderId sha content) (\<lambda>clientOrderId.
       Inr \<lparr>ir_intentId = intentId, ir_clientOrderId = clientOrderId, ir_content = content,
            ir_lineage = lineage, ir_wireOrderType = wireOrderType,
            ir_quantityAdjusted = qe_quantityAdjusted quantized,
            ir_priceAdjusted = qe_priceAdjusted quantized\<rparr>)))))))))"

definition assertLiveExecutionIntentIdentity ::
    "(string \<Rightarrow> string) \<Rightarrow> intent_record \<Rightarrow> (thrown, unit) res" where
  "assertLiveExecutionIntentIdentity sha r =
     rbind (computeLiveExecutionIntentId sha (ir_content r)) (\<lambda>expectedIntentId.
     rbind (deriveLiveClientOrderId sha (ir_content r)) (\<lambda>expectedClientOrderId.
       if ir_intentId r \<noteq> expectedIntentId \<or> ir_clientOrderId r \<noteq> expectedClientOrderId
       then Inl (Live LIVE_INTENT_CONFLICT) else Inr ()))"

subsection \<open>The identity determines the content\<close>

lemma json_opt_simps [simp]:
  "json_norm (json_opt v) = json_opt v" "json_supported (json_opt v)"
  "json_norm (json_opt_int n) = json_opt_int n"
  "json_supported (json_opt_int n) \<longleftrightarrow> (case n of None \<Rightarrow> True | Some k \<Rightarrow> isSafeInteger k)"
  by (simp_all add: json_opt_def json_opt_int_def split: option.splits)

lemma json_opt_inject [simp]:
  "json_opt v = json_opt w \<longleftrightarrow> v = w" "json_opt_int m = json_opt_int n \<longleftrightarrow> m = n"
  by (simp_all add: json_opt_def json_opt_int_def split: option.splits)

lemma content_members_flat:
  "flat_members (content_members c)" "map fst (content_members c) = map fst (content_members d)"
  "flat_members ((''identityPolicyId'', JString k) # content_members c)"
  by (simp_all add: flat_members_def content_members_def)

lemma content_members_inject: "content_members c = content_members d \<longleftrightarrow> c = d"
  by (cases c; cases d) (simp add: content_members_def)

lemma content_members_supported:
  "list_all (\<lambda>(k, v). json_supported v) (content_members c) \<longleftrightarrow>
     (case ic_positionRevision c of None \<Rightarrow> True | Some n \<Rightarrow> isSafeInteger n)"
  by (simp add: content_members_def)

lemma canonicalContent_revision:
  "canonicalContent c = Inr cc \<Longrightarrow> ic_positionRevision cc = ic_positionRevision c"
  by (auto simp: canonicalContent_def rbind_eq_Inr)

definition identity_members :: "intent_content \<Rightarrow> json" where
  "identity_members c =
     JObject ((''identityPolicyId'', JString ''P17_LIVE_EXECUTION_INTENT_IDENTITY_V1'') # content_members c)"

lemma preimage_Inr:
  assumes "liveExecutionIntentIdentityPreimage c = Inr j"
  obtains cc where "canonicalContent c = Inr cc" and "j = identity_members cc" and "json_supported j"
proof -
  from assms obtain cc where cc: "canonicalContent c = Inr cc" and j: "j = identity_members cc"
    and rev: "\<not> (case ic_positionRevision c of None \<Rightarrow> False | Some n \<Rightarrow> \<not> isSafeInteger n \<or> n < 0)"
    by (auto simp: liveExecutionIntentIdentityPreimage_def identity_members_def rbind_eq_Inr if_Inl_eq_Inr)
  have "json_supported j"
    using rev canonicalContent_revision[OF cc] content_members_supported[of cc]
    by (auto simp: j identity_members_def split: option.splits)
  with cc j show ?thesis by (rule that)
qed

lemma computeId_Inr:
  assumes "computeLiveExecutionIntentId sha c = Inr i"
  obtains cc where "canonicalContent c = Inr cc" and "canonicalJson (identity_members cc) = Inr (raw_text (json_norm (identity_members cc)))"
    and "i = sha (raw_text (json_norm (identity_members cc)))"
proof -
  from assms obtain j where "liveExecutionIntentIdentityPreimage c = Inr j" and d: "digestOf sha j = Inr i"
    by (auto simp: computeLiveExecutionIntentId_def rbind_eq_Inr)
  then obtain cc where "canonicalContent c = Inr cc" "j = identity_members cc" "json_supported j"
    by (auto elim: preimage_Inr)
  with d show ?thesis by (intro that) (auto simp: digestOf_Inr canonicalJson_eq_Inr)
qed

text \<open>The text whose digest is the identity.\<close>

definition identity_text :: "intent_content \<Rightarrow> string" where
  "identity_text c =
     (case canonicalContent c of Inl _ \<Rightarrow> [] | Inr cc \<Rightarrow> raw_text (json_norm (identity_members cc)))"

text \<open>C30. The intent identity is exactly the economic content: two contents have the same identity if
  and only if every field agrees (decimal fields as numbers), provided the digest does not collide on
  the two texts it is applied to.\<close>

theorem identity_is_content:
  assumes "computeLiveExecutionIntentId sha a = Inr i" and "computeLiveExecutionIntentId sha b = Inr j"
    and "sha (identity_text a) = sha (identity_text b) \<Longrightarrow> identity_text a = identity_text b"
  shows "i = j \<longleftrightarrow> canonicalContent a = canonicalContent b"
proof -
  obtain ca where a: "canonicalContent a = Inr ca"
    "canonicalJson (identity_members ca) = Inr (raw_text (json_norm (identity_members ca)))"
    "i = sha (raw_text (json_norm (identity_members ca)))"
    by (rule computeId_Inr[OF assms(1)])
  obtain cb where b: "canonicalContent b = Inr cb"
    "canonicalJson (identity_members cb) = Inr (raw_text (json_norm (identity_members cb)))"
    "j = sha (raw_text (json_norm (identity_members cb)))"
    by (rule computeId_Inr[OF assms(2)])
  have "i = j \<Longrightarrow> ca = cb"
  proof -
    assume "i = j"
    then have "raw_text (json_norm (identity_members ca)) = raw_text (json_norm (identity_members cb))"
      using assms(3) a b by (simp add: identity_text_def)
    then have eq: "canonicalJson (identity_members cb) = Inr (raw_text (json_norm (identity_members ca)))"
      using b(2) by simp
    have keys: "map fst ((''identityPolicyId'', JString k) # content_members ca)
        = map fst ((''identityPolicyId'', JString k) # content_members cb)" for k
      using content_members_flat(2)[of ca cb] by simp
    from flat_object_inject[OF a(2)[unfolded identity_members_def] eq[unfolded identity_members_def]
        content_members_flat(3) content_members_flat(3) keys]
    show "ca = cb" by (simp add: content_members_inject)
  qed
  with a b show ?thesis by auto
qed

text \<open>C29. The identity of a built intent is re-derivable: whatever the composition returns passes the
  identity check made at every later boundary, its client order id has the frozen format, and
  changing its stored identity makes the check fail.\<close>

theorem created_intent_identity:
  assumes "createLiveExecutionIntent sha D snapshot constraints economics shape lineage = Inr r"
  shows "assertLiveExecutionIntentIdentity sha r = Inr ()
     \<and> isLiveClientOrderId (Some (ir_clientOrderId r))
     \<and> (other \<noteq> ir_intentId r \<longrightarrow>
          assertLiveExecutionIntentIdentity sha (r\<lparr>ir_intentId := other\<rparr>) = Inl (Live LIVE_INTENT_CONFLICT))"
proof -
  from assms have "computeLiveExecutionIntentId sha (ir_content r) = Inr (ir_intentId r)"
    and d: "deriveLiveClientOrderId sha (ir_content r) = Inr (ir_clientOrderId r)"
    by (auto simp: createLiveExecutionIntent_def rbind_eq_Inr)
  moreover from d have "LIVE_CLIENT_ORDER_ID_PATTERN (ir_clientOrderId r)"
    by (auto simp: deriveLiveClientOrderId_def rbind_eq_Inr Let_def if_Inl_eq_Inr)
  ultimately show ?thesis
    by (simp add: assertLiveExecutionIntentIdentity_def isLiveClientOrderId_def)
qed

lemma intentContent_Inr:
  assumes "intentContent policy constraints economics shape e = Inr c" and "qe_price e = Some pr"
  obtains quantity pt where
    "canonicalPositiveLiveDecimal (Some (qe_quantity e)) = Inr quantity"
    "canonicalPositiveLiveDecimal (Some pr) = Inr pt"
    "ic_quantity c = quantity" "ic_price c = Some pt" "ic_orderType c = sh_orderType shape"
    "ic_timeInForce c = sh_timeInForce shape" "ic_admissionId c = ie_admissionId economics"
  using assms by (auto simp: intentContent_def rbind_eq_Inr optionalPositive_def)

subsection \<open>The economics of a built intent\<close>

context decimal_lib
begin

lemma liveDecimal_Inr: "liveDecimal D s = Inr x \<Longrightarrow> x = text_value (trim s)"
  by (auto simp: liveDecimal_def fixedInput_def Let_def rbind_eq_Inr if_Inl_eq_Inr
      FIXED_POINT_number dnew_text)

lemma liveDecimal_normal: "normal_text s \<Longrightarrow> liveDecimal D s = Inr (text_value s)"
  by (simp add: liveDecimal_signed normal_signed_text)

lemma assertAtLeast_Inr: "assertAtLeast D x b = Inr u \<Longrightarrow> text_value (trim b) \<le> x"
  and assertAtMost_Inr: "assertAtMost D x b = Inr u \<Longrightarrow> x \<le> text_value (trim b)"
  by (auto simp: assertAtLeast_def assertAtMost_def rbind_eq_Inr if_Inl_eq_Inr not_less dest: liveDecimal_Inr)

lemma within_constraints:
  assumes "assertOrderWithinInstrumentConstraints D constraints action orderType e = Inr u"
    and "normal_text (qe_quantity e)"
  shows "text_value (trim (icn_minQuantity constraints)) \<le> text_value (qe_quantity e)"
    and "text_value (qe_quantity e) \<le> text_value (trim (icn_maxQuantity constraints))"
    and "\<And>p. qe_price e = Some p \<Longrightarrow> normal_text p \<Longrightarrow>
      text_value (trim (icn_minPrice constraints)) \<le> text_value p
      \<and> text_value p \<le> text_value (trim (icn_maxPrice constraints))"
    and "action = OPEN \<Longrightarrow> \<not> icn_exitOnly constraints"
proof -
  note u = assms(1)[unfolded assertOrderWithinInstrumentConstraints_def if_Inl_eq_Inr rbind_eq_Inr
      liveDecimal_normal[OF assms(2)]]
  from u show "text_value (trim (icn_minQuantity constraints)) \<le> text_value (qe_quantity e)"
    and "text_value (qe_quantity e) \<le> text_value (trim (icn_maxQuantity constraints))"
    and "action = OPEN \<Longrightarrow> \<not> icn_exitOnly constraints"
    by (auto dest: assertAtLeast_Inr assertAtMost_Inr)
  fix p
  assume p: "qe_price e = Some p" "normal_text p"
  from u have "\<exists>w. whenSome (qe_price e) (\<lambda>p. rbind (liveDecimal D p) (\<lambda>price.
                 rbind (assertAligned D price (icn_priceIncrement constraints)) (\<lambda>_.
                 rbind (assertAtLeast D price (icn_minPrice constraints)) (\<lambda>_.
                   assertAtMost D price (icn_maxPrice constraints))))) = Inr w"
    by blast
  with p show "text_value (trim (icn_minPrice constraints)) \<le> text_value p
      \<and> text_value p \<le> text_value (trim (icn_maxPrice constraints))"
    by (auto simp: whenSome_def liveDecimal_normal rbind_eq_Inr dest: assertAtLeast_Inr assertAtMost_Inr)
qed

text \<open>The INR notional of an OPEN order is compared exactly, although it is computed with rounding.\<close>

lemma caps_exact:
  assumes prec: "128 \<le> prec" and caps: "assertNotionalCaps D policy economics e = Inr u"
    and open_: "ie_action economics = OPEN"
    and n: "qe_notional e = Some (dfixed D (dround D (dround D (q * p) * cm)))"
    and v: "persisted_value q" "persisted_value p" "persisted_value cm" "0 < q" "0 < p" "0 < cm"
    and cap: "normal_text (pc_maxOrderNotionalInr policy)" "persisted_value (text_value (pc_maxOrderNotionalInr policy))"
  obtains rate where "ie_settlementRateInrPerQuote economics = Some rate" "0 < text_value rate"
    "q * p * cm * text_value rate \<le> text_value (pc_maxOrderNotionalInr policy)"
    "q * p * cm * text_value rate \<le> text_value (ie_authorizedNotionalInr economics)"
proof -
  have notional: "dround D (dround D (q * p) * cm) = q * p * cm"
    using product_exact[OF prec v(1,2)] product3_exact(1)[OF prec v(1-3)] by simp
  have dec: "decimal_fraction (q * p * cm)" by (rule product3_exact(2)[OF prec v(1-3)])
  have ln: "liveDecimal D (dfixed D (q * p * cm)) = Inr (q * p * cm)"
    using liveDecimal_normal[OF dfixed_normal[OF dec]] dfixed_value[OF dec] by simp
  from caps open_ n notional obtain r where r: "canonicalPositiveLiveDecimal (ie_settlementRateInrPerQuote economics) = Inr r"
    by (auto simp: assertNotionalCaps_def whenSome_def rbind_eq_Inr)
  then obtain rate where rate: "ie_settlementRateInrPerQuote economics = Some rate"
    and rv: "text_value r = text_value rate"
    by (auto simp: positive_eq_Inr normalize_text_value)
  note R = positive_canonicalD[OF r]
  obtain risk where risk: "positiveDecimal D (ie_authorizedNotionalInr economics) = Inr risk"
    and le: "dround D (q * p * cm * text_value r) \<le> text_value (pc_maxOrderNotionalInr policy)"
      "dround D (q * p * cm * text_value r) \<le> risk"
    using caps open_ n notional r ln liveDecimal_normal[OF R(1)] liveDecimal_normal[OF cap(1)]
    by (auto simp: assertNotionalCaps_def whenSome_def rbind_eq_Inr if_Inl_eq_Inr not_less Let_def)
  have rk: "persisted_value risk" "text_value (ie_authorizedNotionalInr economics) = risk"
    using risk by (simp_all add: positiveDecimal_Inr)
  have "0 \<le> q * p * cm * text_value r" using v R(3) by simp
  note iff = product4_le_iff[OF prec v(1-3) R(2) this]
  show thesis
    by (rule that[OF rate]) (use R(3) rv le iff[OF cap(2)] iff[OF rk(1)] rk(2) in simp_all)
qed

end

text \<open>What a built intent can spend.\<close>

lemma created_intent_bounds:
  assumes lib: "decimal_lib D 128"
    and run: "createLiveExecutionIntent sha D snapshot constraints economics shape lineage = Inr r"
  shows "\<exists>p. ic_price (ir_content r) = Some p
     \<and> ic_orderType (ir_content r) = LIMIT \<and> ic_timeInForce (ir_content r) \<noteq> POST_ONLY
     \<and> text_value (ic_quantity (ir_content r)) \<le> text_value (ie_quantity economics)
     \<and> text_value (trim (icn_minQuantity constraints)) \<le> text_value (ic_quantity (ir_content r))
     \<and> text_value (ic_quantity (ir_content r)) \<le> text_value (trim (icn_maxQuantity constraints))
     \<and> text_value (trim (icn_minPrice constraints)) \<le> text_value p
     \<and> text_value p \<le> text_value (trim (icn_maxPrice constraints))
     \<and> (ie_action economics = OPEN \<longrightarrow>
          ic_admissionId (ir_content r) \<noteq> None \<and> \<not> icn_exitOnly constraints
          \<and> (\<exists>rate. ie_settlementRateInrPerQuote economics = Some rate
              \<and> text_value (ic_quantity (ir_content r)) * text_value p
                * text_value (icn_contractMultiplier constraints) * text_value rate
                \<le> min (text_value (pc_maxOrderNotionalInr (ps_content snapshot)))
                      (text_value (ie_authorizedNotionalInr economics))))"
proof -
  from run obtain policy e where
    pol: "validateLiveExecutionPolicySnapshot sha snapshot = Inr policy"
    and shape: "assertIntentShape (ps_content policy) constraints economics shape = Inr ()"
    and quant: "quantizeOrderEconomics D constraints (ie_side economics) (sh_orderType shape)
        (ie_quantity economics) (sh_limitPrice shape) = Inr e"
    and within: "assertOrderWithinInstrumentConstraints D constraints (ie_action economics) (sh_orderType shape) e = Inr ()"
    and caps: "assertNotionalCaps D (ps_content policy) economics e = Inr ()"
    and content: "intentContent policy constraints economics shape e = Inr (ir_content r)"
    by (auto simp: createLiveExecutionIntent_def rbind_eq_Inr)
  from pol have "normalizeLiveExecutionPolicyContent (ps_content snapshot) = Inr (ps_content policy)"
    by (auto simp: validateLiveExecutionPolicySnapshot_def rbind_eq_Inr if_Inl_eq_Inr build_snapshot_Inr)
  note N = normalize_policy_Inr[OF this]
  from shape have lim: "sh_orderType shape = LIMIT" and tif: "sh_timeInForce shape \<noteq> POST_ONLY"
    and adm: "ie_action economics = OPEN \<Longrightarrow> ie_admissionId economics \<noteq> None"
    by (auto simp: assertIntentShape_def split: if_splits intro: order_type.exhaust)
  show ?thesis
  proof (rule decimal_lib.quantize_Inr[OF lib quant])
    fix step pstep cm q qp
    assume step: "0 < step" and ps: "persisted_value pstep" "0 < pstep"
      and cm: "cm = text_value (icn_contractMultiplier constraints)" "persisted_value cm" "0 < cm"
      and q: "q = step * of_int \<lfloor>text_value (ie_quantity economics) / step\<rfloor>" "0 < q" "persisted_value q"
        "normal_text (qe_quantity e)" "text_value (qe_quantity e) = q"
      and qp: "quantizePrice D pstep (ie_side economics) (sh_orderType shape) (sh_limitPrice shape) = Inr (qp, qe_priceAdjusted e)"
      and price: "qe_price e = map_option (dfixed D) qp"
      and notional: "qe_notional e = map_option (\<lambda>p. dfixed D (dround D (dround D (q * p) * cm))) qp"
    obtain p where p: "qp = Some p" "0 < p" and "p = quantized_price (ie_side economics) (text_value (the (sh_limitPrice shape))) pstep"
      using decimal_lib.quantizePrice_Inr[OF lib qp ps] lim by auto
    then have dec: "decimal_fraction p"
      using decimal_lib.to_increment_decimal[OF lib persisted_decimal[OF ps(1)]] by (simp add: quantized_price_def)
    have fixp: "normal_text (dfixed D p)" "text_value (dfixed D p) = p"
      using decimal_lib.dfixed_normal[OF lib dec] decimal_lib.dfixed_value[OF lib dec] by simp_all
    have pr: "qe_price e = Some (dfixed D p)" using price p by simp
    obtain quantity pt where
      c: "canonicalPositiveLiveDecimal (Some (qe_quantity e)) = Inr quantity"
        "canonicalPositiveLiveDecimal (Some (dfixed D p)) = Inr pt"
        "ic_quantity (ir_content r) = quantity" "ic_price (ir_content r) = Some pt"
      and fields: "ic_orderType (ir_content r) = LIMIT" "ic_timeInForce (ir_content r) = sh_timeInForce shape"
        "ic_admissionId (ir_content r) = ie_admissionId economics"
      by (rule intentContent_Inr[OF content pr]) (simp add: lim)
    have pt: "text_value pt = p" "persisted_value p"
      using c(2) fixp by (auto simp: positive_eq_Inr normalize_text_value)
    have qt: "text_value quantity = q" using c(1) q(5) by (auto simp: positive_eq_Inr normalize_text_value)
    note W = decimal_lib.within_constraints[OF lib within q(4)]
    have wp: "text_value (trim (icn_minPrice constraints)) \<le> p \<and> p \<le> text_value (trim (icn_maxPrice constraints))"
      using W(3)[of "dfixed D p"] price p fixp by simp
    have qle: "q \<le> text_value (ie_quantity economics)" using floor_multiple(1)[OF step] q(1) by simp
    have spend: "\<exists>rate. ie_settlementRateInrPerQuote economics = Some rate
          \<and> q * p * cm * text_value rate \<le> min (text_value (pc_maxOrderNotionalInr (ps_content snapshot)))
              (text_value (ie_authorizedNotionalInr economics))" if "ie_action economics = OPEN"
    proof (rule decimal_lib.caps_exact[OF lib order_refl caps that _ q(3) pt(2) cm(2) q(2) p(2) cm(3) N(4,5)])
      show "qe_notional e = Some (dfixed D (dround D (dround D (q * p) * cm)))"
        using notional p by simp
    qed (use N(7) in auto)
    show ?thesis
      using c(3,4) fields tif adm W(1,2,4) wp qle spend pt qt q(5) cm(1)
      by (intro exI[of _ pt]) auto
  qed
qed

text \<open>C17. What a built intent can spend. It is a LIMIT order, never POST_ONLY; its quantity is at most
  the risk-approved quantity and lies within the instrument's bounds, as does its price; and an OPEN
  intent carries an admission, is not on an exit-only instrument, and its exact INR notional
  (quantity times price times multiplier times conversion rate) exceeds neither the policy ceiling
  nor the risk-approved envelope, although the program computes it with rounded arithmetic.\<close>

theorem created_intent_economics:
  assumes lib: "decimal_lib D 128"
    and run: "createLiveExecutionIntent sha D snapshot constraints economics shape lineage = Inr r"
  shows "\<exists>p. ic_price (ir_content r) = Some p
     \<and> ic_orderType (ir_content r) = LIMIT \<and> ic_timeInForce (ir_content r) \<noteq> POST_ONLY
     \<and> text_value (ic_quantity (ir_content r)) \<le> text_value (ie_quantity economics)
     \<and> text_value (trim (icn_minQuantity constraints)) \<le> text_value (ic_quantity (ir_content r))
     \<and> text_value (ic_quantity (ir_content r)) \<le> text_value (trim (icn_maxQuantity constraints))
     \<and> text_value (trim (icn_minPrice constraints)) \<le> text_value p
     \<and> text_value p \<le> text_value (trim (icn_maxPrice constraints))
     \<and> (ie_action economics = OPEN \<longrightarrow>
          ic_admissionId (ir_content r) \<noteq> None \<and> \<not> icn_exitOnly constraints
          \<and> (\<exists>rate. ie_settlementRateInrPerQuote economics = Some rate
              \<and> text_value (ic_quantity (ir_content r)) * text_value p
                * text_value (icn_contractMultiplier constraints) * text_value rate
                \<le> min (text_value (pc_maxOrderNotionalInr (ps_content snapshot)))
                      (text_value (ie_authorizedNotionalInr economics))))"
  by (rule created_intent_bounds[OF assms])

subsection \<open>A built intent\<close>

definition sample_sha :: "string \<Rightarrow> string" where
  "sample_sha t = replicate 64 (CHR ''0'')"

definition sample_economics :: intent_economics where
  "sample_economics =
     \<lparr>ie_accountId = ''a1'', ie_pair = ''BTC'', ie_side = BUY, ie_action = OPEN, ie_quantity = ''2'',
      ie_leverage = Some ''1'', ie_riskDecisionId = ''r1'', ie_admissionId = Some ''ad1'',
      ie_strategyInstanceId = ''si'', ie_strategyId = ''s'', ie_strategyVersion = ''v'',
      ie_parameterHash = ''h'', ie_authorizedNotionalInr = ''100'',
      ie_settlementRateInrPerQuote = Some ''1'', ie_positionInstanceId = None,
      ie_positionRevision = None, ie_reduceOnlyQuantity = None\<rparr>"

definition sample_shape :: shape_request where
  "sample_shape = \<lparr>sh_orderType = LIMIT, sh_timeInForce = UNSPECIFIED, sh_limitPrice = Some ''2''\<rparr>"

definition sample_lineage :: live_lineage where
  "sample_lineage = \<lparr>ll_researchApproval = None, ll_sourceStrategyDecisionId = ''d1''\<rparr>"

definition sample_content :: intent_content where
  "sample_content =
     \<lparr>ic_accountId = ''a1'', ic_pair = ''BTC'', ic_side = BUY, ic_action = OPEN, ic_quantity = ''2'',
      ic_orderType = LIMIT, ic_price = Some ''2'', ic_timeInForce = UNSPECIFIED, ic_leverage = Some ''1'',
      ic_riskDecisionId = ''r1'', ic_admissionId = Some ''ad1'', ic_strategyInstanceId = ''si'',
      ic_strategyId = ''s'', ic_strategyVersion = ''v'', ic_parameterHash = ''h'',
      ic_liveExecutionPolicyId = sample_sha [], ic_instrumentSpecSnapshotId = ''s1'',
      ic_authorizedNotionalInr = ''100'', ic_settlementRateInrPerQuote = Some ''1'',
      ic_positionInstanceId = None, ic_positionRevision = None, ic_reduceOnlyQuantity = None\<rparr>"

lemma sample_policy:
  obtains s where "validateLiveExecutionPolicySnapshot sample_sha s = Inr s"
    and "ps_liveExecutionPolicyId s = sample_sha []"
    and "set (pc_allowedOrderTypes (ps_content s)) = {LIMIT, MARKET}"
    and "set (pc_allowedTimeInForce (ps_content s)) = {UNSPECIFIED}"
    and "pc_maxOrderNotionalInr (ps_content s) = ''100''"
proof -
  let ?d = "defaultLiveExecutionPolicyContent ''100''"
  have "is_ok (normalizeLiveExecutionPolicyContent ?d)"
    by code_simp
  then obtain n where n: "normalizeLiveExecutionPolicyContent ?d = Inr n" by (auto simp: is_ok_iff)
  note N = normalize_policy_Inr[OF n]
  have "pc_maxOrderNotionalInr n = ''100''"
    using n by (auto simp: normalizeLiveExecutionPolicyContent_def rbind_eq_Inr if_Inl_eq_Inr
        defaultLiveExecutionPolicyContent_def nonneg_eq_Inr normalize_normal)
  moreover have "validateLiveExecutionPolicySnapshot sample_sha
      \<lparr>ps_liveExecutionPolicyId = sample_sha [], ps_content = n\<rparr> =
      Inr \<lparr>ps_liveExecutionPolicyId = sample_sha [], ps_content = n\<rparr>"
    using N(10) policy_json_supported[OF n]
    by (simp add: validateLiveExecutionPolicySnapshot_def buildLiveExecutionPolicySnapshot_def liveR_def
        digestOf_norm sample_sha_def)
  ultimately show thesis
    using N(2,3) that[of "\<lparr>ps_liveExecutionPolicyId = sample_sha [], ps_content = n\<rparr>"]
    by (simp add: defaultLiveExecutionPolicyContent_def insert_commute)
qed

lemma canonical_of_positive:
  assumes "canonicalPositiveLiveDecimal (Some s) = Inr t"
  shows "canonicalLiveDecimalString (Some s) = Inr t"
  using assms by (auto simp: positive_eq_Inr canonical_normalize)

lemma sample_preimage_side:
  "liveExecutionIntentIdentityPreimage (sample_content\<lparr>ic_side := x\<rparr>) = Inr (identity_members (sample_content\<lparr>ic_side := x\<rparr>))"
  "json_supported (identity_members (sample_content\<lparr>ic_side := x\<rparr>))"
  "canonicalContent (sample_content\<lparr>ic_side := x\<rparr>) = Inr (sample_content\<lparr>ic_side := x\<rparr>)"
proof -
  show canon: "canonicalContent (sample_content\<lparr>ic_side := x\<rparr>) = Inr (sample_content\<lparr>ic_side := x\<rparr>)"
    using sample_canonical(1-3)[THEN canonical_of_positive]
    by (simp add: canonicalContent_def sample_content_def optionalCanonical_def)
  have "mapR assertExactId [ic_accountId sample_content, ic_pair sample_content, ic_riskDecisionId sample_content,
      ic_strategyInstanceId sample_content, ic_strategyId sample_content, ic_strategyVersion sample_content,
      ic_parameterHash sample_content, ic_liveExecutionPolicyId sample_content,
      ic_instrumentSpecSnapshotId sample_content, ic_authorizedNotionalInr sample_content] = Inr (replicate 10 ())"
    by code_simp
  moreover have "assertNullableExactId (ic_admissionId sample_content) = Inr ()"
    "assertNullableExactId (ic_positionInstanceId sample_content) = Inr ()"
    "ic_positionRevision sample_content = None"
    by code_simp+
  ultimately show "liveExecutionIntentIdentityPreimage (sample_content\<lparr>ic_side := x\<rparr>) =
      Inr (identity_members (sample_content\<lparr>ic_side := x\<rparr>))"
    by (simp add: liveExecutionIntentIdentityPreimage_def canon identity_members_def)
  show "json_supported (identity_members (sample_content\<lparr>ic_side := x\<rparr>))"
    by (simp add: identity_members_def content_members_supported) (simp add: sample_content_def)
qed

lemma sample_preimage:
  "liveExecutionIntentIdentityPreimage sample_content = Inr (identity_members sample_content)"
  "json_supported (identity_members sample_content)"
  using sample_preimage_side[of BUY] by (simp_all add: sample_content_def)

lemma sample_text_identity:
  "computeLiveExecutionIntentId (\<lambda>t. t) (sample_content\<lparr>ic_side := x\<rparr>) =
     Inr (identity_text (sample_content\<lparr>ic_side := x\<rparr>))"
  by (simp add: computeLiveExecutionIntentId_def sample_preimage_side liveR_def
      digestOf_norm[OF sample_preimage_side(2)] identity_text_def)

lemma sample_clientOrderId:
  "computeLiveExecutionIntentId sample_sha sample_content = Inr (sample_sha [])"
  "is_ok (deriveLiveClientOrderId sample_sha sample_content)"
proof -
  show "computeLiveExecutionIntentId sample_sha sample_content = Inr (sample_sha [])"
    by (simp add: computeLiveExecutionIntentId_def sample_preimage(1) liveR_def
        digestOf_norm[OF sample_preimage(2)] sample_sha_def)
  have "json_supported (JObject [(''identityPolicyId'', JString ''P17_LIVE_CLIENT_ORDER_ID_V1''),
      (''intent'', identity_members sample_content)])"
    using sample_preimage(2) by simp
  note d = digestOf_norm[OF this]
  have "LIVE_CLIENT_ORDER_ID_PATTERN (LIVE_CLIENT_ORDER_ID_PREFIX @ take LIVE_CLIENT_ORDER_ID_DIGEST_CHARS (sample_sha []))"
    by code_simp
  then show "is_ok (deriveLiveClientOrderId sample_sha sample_content)"
    by (simp add: deriveLiveClientOrderId_def sample_preimage(1) liveR_def d sample_sha_def)
qed

lemma sample_quantized:
  "quantizeOrderEconomics (half_up 128) sample_constraints BUY LIMIT ''2'' (Some ''2'') =
     Inr \<lparr>qe_quantity = ''2'', qe_price = Some ''2'', qe_notional = Some (dfixed (half_up 128) 4),
          qe_quantityAdjusted = False, qe_priceAdjusted = False\<rparr>"
proof -
  have d: "positiveDecimal (half_up 128) ''1'' = Inr 1" "positiveDecimal (half_up 128) ''2'' = Inr 2"
    by (simp_all add: half_up_128.positiveDecimal_Inr normal_signed_text)
  have df: "decimal_fraction 1" "decimal_fraction 2"
    using persisted_decimal[of 1] persisted_decimal[of 2] by simp_all
  have fl: "floorToIncrement (half_up 128) 2 1 = Inr 2" "floorToIncrement (half_up 128) 2 2 = Inr 2"
    using half_up_128.floorToIncrement_value[OF df(2,1)] half_up_128.floorToIncrement_value[OF df(2,2)] by simp_all
  have "dround (half_up 128) (2 * 2) = 2 * 2" "dround (half_up 128) (2 * 2 * 1) = 2 * 2 * 1"
    by (rule half_up_128.product_exact half_up_128.product3_exact; simp)+
  then have r: "dround (half_up 128) 4 = 4" by simp
  have fx: "dfixed (half_up 128) 2 = ''2''" by (rule half_up_128.dfixed_eqI) simp_all
  show ?thesis
    using d fl r fx unfolding positiveDecimal_def
    by (simp add: quantizeOrderEconomics_def quantizePrice_def positiveDecimal_def sample_constraints_def)
qed

lemma sample_created:
  obtains snapshot r where
    "createLiveExecutionIntent sample_sha (half_up 128) snapshot sample_constraints sample_economics sample_shape
       sample_lineage = Inr r"
    and "ir_content r = sample_content" and "pc_maxOrderNotionalInr (ps_content snapshot) = ''100''"
proof -
  obtain s where s: "validateLiveExecutionPolicySnapshot sample_sha s = Inr s"
    "ps_liveExecutionPolicyId s = sample_sha []" "set (pc_allowedOrderTypes (ps_content s)) = {LIMIT, MARKET}"
    "set (pc_allowedTimeInForce (ps_content s)) = {UNSPECIFIED}" "pc_maxOrderNotionalInr (ps_content s) = ''100''"
    by (rule sample_policy)
  let ?e = "\<lparr>qe_quantity = ''2'', qe_price = Some ''2'', qe_notional = Some (dfixed (half_up 128) 4),
          qe_quantityAdjusted = False, qe_priceAdjusted = False\<rparr>"
  have four: "decimal_fraction 4" using decimal_fractionI[of 4 4 0] by simp
  have shape: "assertIntentShape (ps_content s) sample_constraints sample_economics sample_shape = Inr ()"
    using s(3,4) by (simp add: assertIntentShape_def sample_constraints_def sample_economics_def sample_shape_def)
  have wire: "resolveWireOrderType sample_constraints LIMIT = Inr '' Limit_Order''" by code_simp
  have lv: "liveDecimal (half_up 128) ''1'' = Inr 1" "liveDecimal (half_up 128) ''2'' = Inr 2"
    "liveDecimal (half_up 128) ''100'' = Inr 100"
    by (simp_all add: half_up_128.liveDecimal_normal)
  have l4: "liveDecimal (half_up 128) (dfixed (half_up 128) 4) = Inr 4"
    using half_up_128.liveDecimal_normal[OF half_up_128.dfixed_normal[OF four]] half_up_128.dfixed_value[OF four]
    by simp
  have df: "decimal_fraction 1" "decimal_fraction 2"
    using persisted_decimal[of 1] persisted_decimal[of 2] by simp_all
  have al: "isAlignedToIncrement (half_up 128) 2 1 = Inr True" "isAlignedToIncrement (half_up 128) 2 2 = Inr True"
    using half_up_128.isAligned_value[OF df(2,1)] half_up_128.isAligned_value[OF df(2,2)] by simp_all
  have within: "assertOrderWithinInstrumentConstraints (half_up 128) sample_constraints OPEN LIMIT ?e = Inr ()"
    by (simp add: assertOrderWithinInstrumentConstraints_def sample_constraints_def lv l4 al assertAligned_def
        assertAtLeast_def assertAtMost_def whenSome_def)
  have "dround (half_up 128) (2 * 2 * 1) = 2 * 2 * 1" by (rule half_up_128.product3_exact; simp)
  then have r4: "dround (half_up 128) 4 = 4" by simp
  have p100: "positiveDecimal (half_up 128) ''100'' = Inr 100"
    by (simp add: half_up_128.positiveDecimal_Inr normal_signed_text)
  have caps: "assertNotionalCaps (half_up 128) (ps_content s) sample_economics ?e = Inr ()"
    by (simp add: assertNotionalCaps_def sample_economics_def whenSome_def lv l4 r4 s(5) p100 Let_def)
  have content: "intentContent s sample_constraints sample_economics sample_shape ?e = Inr sample_content"
    by (simp add: intentContent_def sample_economics_def sample_shape_def optionalPositive_def s(2)
        sample_content_def sample_constraints_def)
  have fields: "sh_orderType sample_shape = LIMIT" "ie_side sample_economics = BUY" "ie_quantity sample_economics = ''2''"
    "sh_limitPrice sample_shape = Some ''2''" "ie_action sample_economics = OPEN"
    by (simp_all add: sample_shape_def sample_economics_def)
  obtain k where k: "deriveLiveClientOrderId sample_sha sample_content = Inr k"
    using sample_clientOrderId(2) by (auto simp: is_ok_iff)
  have "createLiveExecutionIntent sample_sha (half_up 128) s sample_constraints sample_economics sample_shape
      sample_lineage = Inr \<lparr>ir_intentId = sample_sha [], ir_clientOrderId = k, ir_content = sample_content,
        ir_lineage = sample_lineage, ir_wireOrderType = '' Limit_Order'', ir_quantityAdjusted = False,
        ir_priceAdjusted = False\<rparr>"
    by (simp add: createLiveExecutionIntent_def s(1) shape fields wire sample_quantized within caps content
        sample_clientOrderId(1) k liveR_def)
  from that[OF this] s(5) show thesis by simp
qed

theorem identity_is_content_witness:
  "computeLiveExecutionIntentId (\<lambda>t. t) (sample_content\<lparr>ic_side := BUY\<rparr>)
   \<noteq> computeLiveExecutionIntentId (\<lambda>t. t) (sample_content\<lparr>ic_side := SELL\<rparr>)"
proof -
  have "sample_content\<lparr>ic_side := BUY\<rparr> \<noteq> sample_content\<lparr>ic_side := SELL\<rparr>"
    by (simp add: sample_content_def)
  then have "canonicalContent (sample_content\<lparr>ic_side := BUY\<rparr>) \<noteq> canonicalContent (sample_content\<lparr>ic_side := SELL\<rparr>)"
    by (simp only: sample_preimage_side sum.inject not_False_eq_True)
  with identity_is_content[OF sample_text_identity sample_text_identity, of BUY SELL] show ?thesis
    by (simp only: sample_text_identity sum.inject) blast
qed

theorem created_intent_identity_witness:
  "\<exists>snapshot r. createLiveExecutionIntent sample_sha (half_up 128) snapshot sample_constraints sample_economics
      sample_shape sample_lineage = Inr r \<and> assertLiveExecutionIntentIdentity sample_sha r = Inr ()"
proof (rule sample_created)
  fix snapshot r
  assume run: "createLiveExecutionIntent sample_sha (half_up 128) snapshot sample_constraints sample_economics
      sample_shape sample_lineage = Inr r"
  from created_intent_identity[OF this] run show ?thesis by blast
qed

theorem created_intent_economics_witness:
  "\<exists>snapshot r. createLiveExecutionIntent sample_sha (half_up 128) snapshot sample_constraints sample_economics
      sample_shape sample_lineage = Inr r
     \<and> text_value (ic_quantity (ir_content r)) \<le> text_value (ie_quantity sample_economics)"
proof (rule sample_created)
  fix snapshot r
  assume run: "createLiveExecutionIntent sample_sha (half_up 128) snapshot sample_constraints sample_economics
      sample_shape sample_lineage = Inr r"
  from created_intent_economics[OF half_up_128.decimal_lib_axioms this] run show ?thesis by blast
qed

end
