(* ===== verification/Live_Order.thy ===== *)
theory Live_Order
  imports Live_Decimal
begin

section \<open>The live order state machine\<close>

text \<open>
  \<^verbatim>\<open>src/execution/live/state-machine.ts\<close>: the legal transitions of a live order, the explicit
  transition helpers, and the folding of an exchange observation into the durable projection.
  A function that throws returns its code on the left. Frozen records are HOL records.

  The lemmas give the well-formedness invariant of the projection (fills never exceed the order,
  the remaining quantity is exact, an average price exists exactly when something filled, every
  state agrees with its fill facts) and show that each operation keeps it; the step relation
  \<open>order_step\<close> collects the operations and \<open>order_reachable\<close> what they can produce.
\<close>

definition LIVE_TERMINAL_STATES :: "order_state list" where
  "LIVE_TERMINAL_STATES =
     [FILLED, CANCELLED, REJECTED, ST_SUBMISSION_AMBIGUOUS, RECONCILIATION_REQUIRED]"

fun LIVE_ORDER_TRANSITIONS :: "order_state \<Rightarrow> order_state list" where
  "LIVE_ORDER_TRANSITIONS CREATED = [DISPATCH_RESERVED]"
| "LIVE_ORDER_TRANSITIONS DISPATCH_RESERVED =
     [CREATED, ACKNOWLEDGED, PARTIALLY_FILLED, FILLED, REJECTED, ST_SUBMISSION_AMBIGUOUS]"
| "LIVE_ORDER_TRANSITIONS ACKNOWLEDGED =
     [PARTIALLY_FILLED, FILLED, CANCEL_REQUESTED, CANCELLED, REJECTED]"
| "LIVE_ORDER_TRANSITIONS PARTIALLY_FILLED = [PARTIALLY_FILLED, FILLED, CANCEL_REQUESTED, CANCELLED]"
| "LIVE_ORDER_TRANSITIONS CANCEL_REQUESTED = [PARTIALLY_FILLED, FILLED, CANCELLED]"
| "LIVE_ORDER_TRANSITIONS FILLED = []"
| "LIVE_ORDER_TRANSITIONS CANCELLED = [RECONCILIATION_REQUIRED]"
| "LIVE_ORDER_TRANSITIONS REJECTED = [RECONCILIATION_REQUIRED]"
| "LIVE_ORDER_TRANSITIONS ST_SUBMISSION_AMBIGUOUS = []"
| "LIVE_ORDER_TRANSITIONS RECONCILIATION_REQUIRED = []"

definition isLiveTerminalState :: "order_state \<Rightarrow> bool" where
  "isLiveTerminalState s \<longleftrightarrow> List.member LIVE_TERMINAL_STATES s"

definition assertTransitionAllowed :: "order_state \<Rightarrow> order_state \<Rightarrow> bool \<Rightarrow> (live_code, unit) res" where
  "assertTransitionAllowed from to allowSelfTransition =
     (if from = to \<and> allowSelfTransition \<and> \<not> isLiveTerminalState from then Inr ()
      else if \<not> List.member (LIVE_ORDER_TRANSITIONS from) to \<or> (from = to \<and> \<not> allowSelfTransition)
           then Inl LIVE_ORDER_STATE_CONFLICT
      else Inr ())"

subsection \<open>Explicit transitions\<close>

definition initialLiveOrderState ::
    "string \<Rightarrow> string \<Rightarrow> string \<Rightarrow> string \<Rightarrow> string \<Rightarrow> (live_code, live_order) res" where
  "initialLiveOrderState intentId clientOrderId accountId pair ordered =
     rbind (canonicalPositiveLiveDecimal (Some ordered)) (\<lambda>orderedQuantity. Inr
       \<lparr>lo_intentId = intentId, lo_clientOrderId = clientOrderId, lo_accountId = accountId,
        lo_pair = pair, lo_state = CREATED, lo_exchangeOrderId = None,
        lo_orderedQuantity = orderedQuantity, lo_cumulativeFilledQuantity = ''0'',
        lo_remainingQuantity = orderedQuantity, lo_averageFillPrice = None,
        lo_lastExchangeStatus = None, lo_lastProviderEventTimeMs = None, lo_faultCode = None,
        lo_cancelState = NONE, lo_cancelGeneration = 0, lo_cancelExchangeOrderId = None,
        lo_cancelFaultCode = None, lo_revision = 0\<rparr>)"

definition reserveDispatch :: "live_order \<Rightarrow> (live_code, live_order) res" where
  "reserveDispatch current =
     rbind (assertTransitionAllowed (lo_state current) DISPATCH_RESERVED False) (\<lambda>_.
       Inr (current\<lparr>lo_state := DISPATCH_RESERVED, lo_revision := lo_revision current + 1\<rparr>))"

definition markSubmissionAmbiguous :: "live_order \<Rightarrow> fault \<Rightarrow> (live_code, live_order) res" where
  "markSubmissionAmbiguous current faultCode =
     rbind (assertTransitionAllowed (lo_state current) ST_SUBMISSION_AMBIGUOUS False) (\<lambda>_.
       Inr (current\<lparr>lo_state := ST_SUBMISSION_AMBIGUOUS, lo_faultCode := Some faultCode,
                    lo_revision := lo_revision current + 1\<rparr>))"

definition releaseDispatchClaim :: "live_order \<Rightarrow> fault \<Rightarrow> (live_code, live_order) res" where
  "releaseDispatchClaim current faultCode =
     rbind (assertTransitionAllowed (lo_state current) CREATED False) (\<lambda>_.
       if lo_exchangeOrderId current \<noteq> None then Inl LIVE_ORDER_STATE_CONFLICT
       else Inr (current\<lparr>lo_state := CREATED, lo_faultCode := Some faultCode,
                         lo_revision := lo_revision current + 1\<rparr>))"

definition requestCancel :: "live_order \<Rightarrow> (live_code, live_order) res" where
  "requestCancel current =
     rbind (assertTransitionAllowed (lo_state current) CANCEL_REQUESTED False) (\<lambda>_.
       Inr (current\<lparr>lo_state := CANCEL_REQUESTED, lo_revision := lo_revision current + 1\<rparr>))"

definition markRejected :: "decimal_js \<Rightarrow> live_order \<Rightarrow> fault \<Rightarrow> (live_code, live_order) res" where
  "markRejected D current faultCode =
     rbind (assertTransitionAllowed (lo_state current) REJECTED False) (\<lambda>_.
     rbind (liveDecimal D (lo_cumulativeFilledQuantity current)) (\<lambda>filled.
       if filled \<noteq> 0 then Inl LIVE_ORDER_STATE_CONFLICT
       else Inr (current\<lparr>lo_state := REJECTED, lo_faultCode := Some faultCode,
                         lo_revision := lo_revision current + 1\<rparr>)))"

definition markCancelAmbiguous :: "live_order \<Rightarrow> fault \<Rightarrow> live_order" where
  "markCancelAmbiguous current faultCode =
     current\<lparr>lo_faultCode := Some faultCode, lo_revision := lo_revision current + 1\<rparr>"

subsection \<open>Observations\<close>

datatype observation_application =
    APPLIED live_order
  | DUPLICATE live_order
  | STALE live_order

definition resolveObservedState ::
    "observation_kind \<Rightarrow> rat \<Rightarrow> rat \<Rightarrow> (live_code, order_state) res" where
  "resolveObservedState kind cumulative ordered =
     (let fullyFilled = (cumulative = ordered)
      in case kind of
           OBS_ACKNOWLEDGED \<Rightarrow>
             if fullyFilled then Inr FILLED
             else if cumulative > 0 then Inr PARTIALLY_FILLED else Inr ACKNOWLEDGED
         | OBS_PARTIAL_FILL \<Rightarrow>
             if fullyFilled then Inr FILLED
             else if cumulative \<le> 0 then Inl LIVE_FILL_INVALID else Inr PARTIALLY_FILLED
         | OBS_FILL \<Rightarrow> if \<not> fullyFilled then Inl LIVE_FILL_INVALID else Inr FILLED
         | OBS_CANCELLED \<Rightarrow> if fullyFilled then Inr FILLED else Inr CANCELLED
         | OBS_REJECTED \<Rightarrow> if cumulative > 0 then Inl LIVE_ORDER_STATE_CONFLICT else Inr REJECTED)"

text \<open>The provider average belongs to a positive fill, and only to one.\<close>

definition observedAverage :: "observation \<Rightarrow> rat \<Rightarrow> (live_code, string option) res" where
  "observedAverage ob cumulative =
     (if cumulative > 0 then
        (case ob_averageFillPrice ob of
           None \<Rightarrow> Inl LIVE_FILL_INVALID
         | Some p \<Rightarrow> rbind (canonicalPositiveLiveDecimal (Some p)) (\<lambda>s. Inr (Some s)))
      else if ob_averageFillPrice ob \<noteq> None then Inl LIVE_FILL_INVALID
      else Inr None)"

text \<open>What a terminal order becomes when evidence arrives late.\<close>

definition terminalState :: "order_state \<Rightarrow> rat \<Rightarrow> rat \<Rightarrow> order_state \<Rightarrow> (live_code, order_state) res" where
  "terminalState state cumulative recorded nextState =
     (if state = ST_SUBMISSION_AMBIGUOUS then Inl LIVE_ORDER_STATE_CONFLICT
      else if state = FILLED then
        (if cumulative \<noteq> recorded \<or> nextState \<noteq> FILLED then Inl LIVE_ORDER_STATE_CONFLICT
         else Inr FILLED)
      else if state = RECONCILIATION_REQUIRED then Inr RECONCILIATION_REQUIRED
      else if cumulative > recorded \<or> nextState \<noteq> state then Inr RECONCILIATION_REQUIRED
      else Inr nextState)"

definition staleByTime :: "live_order \<Rightarrow> observation \<Rightarrow> bool" where
  "staleByTime current ob \<longleftrightarrow>
     (case lo_lastProviderEventTimeMs current of
        None \<Rightarrow> False | Some t \<Rightarrow> ob_providerEventTimeMs ob < t)"

text \<open>The projection written when an observation is applied.\<close>

definition projectObservation ::
    "decimal_js \<Rightarrow> live_order \<Rightarrow> observation \<Rightarrow> order_state \<Rightarrow> rat \<Rightarrow> rat \<Rightarrow> string option \<Rightarrow> live_order" where
  "projectObservation D current ob nextState cumulative ordered average =
     current\<lparr>lo_state := nextState,
       lo_exchangeOrderId := Some (ob_exchangeOrderId ob),
       lo_cumulativeFilledQuantity := dfixed D cumulative,
       lo_remainingQuantity := dfixed D (dround D (ordered - cumulative)),
       lo_averageFillPrice := average,
       lo_lastExchangeStatus := Some (ob_exchangeStatus ob),
       lo_lastProviderEventTimeMs :=
         (case lo_lastProviderEventTimeMs current of
            None \<Rightarrow> Some (ob_providerEventTimeMs ob)
          | Some t \<Rightarrow> Some (max t (ob_providerEventTimeMs ob))),
       lo_faultCode :=
         (if nextState = RECONCILIATION_REQUIRED then Some (Code LIVE_ORDER_STATE_CONFLICT)
          else lo_faultCode current),
       lo_revision := lo_revision current + 1\<rparr>"

text \<open>The last part of the function, once the state named by the observation is known.\<close>

definition settleObservation ::
    "decimal_js \<Rightarrow> live_order \<Rightarrow> observation \<Rightarrow> rat \<Rightarrow> rat \<Rightarrow> rat \<Rightarrow> string option \<Rightarrow> order_state
     \<Rightarrow> (live_code, observation_application) res" where
  "settleObservation D current ob ordered recorded cumulative average resolved =
     (let averageChanged = (average \<noteq> lo_averageFillPrice current);
          state = lo_state current
      in if staleByTime current ob \<and> resolved = state \<and> cumulative = recorded
         then Inr (STALE current)
         else
           rbind (if isLiveTerminalState state then terminalState state cumulative recorded resolved
                  else rbind (assertTransitionAllowed state resolved True) (\<lambda>_. Inr resolved))
             (\<lambda>nextState.
               if isLiveTerminalState state \<and> nextState = state \<and> cumulative = recorded
                  \<and> \<not> averageChanged \<and> Some (ob_exchangeStatus ob) = lo_lastExchangeStatus current
               then Inr (DUPLICATE current)
               else if nextState = state \<and> cumulative = recorded \<and> \<not> averageChanged
                  \<and> Some (ob_exchangeOrderId ob) = lo_exchangeOrderId current
                  \<and> Some (ob_exchangeStatus ob) = lo_lastExchangeStatus current
               then Inr (DUPLICATE current)
               else Inr (APPLIED (projectObservation D current ob nextState cumulative ordered average))))"

definition applyLiveOrderObservation ::
    "decimal_js \<Rightarrow> live_order \<Rightarrow> observation \<Rightarrow> (live_code, observation_application) res" where
  "applyLiveOrderObservation D current ob =
     (if ob_clientOrderId ob \<noteq> lo_clientOrderId current \<or> ob_pair ob \<noteq> lo_pair current
      then Inl LIVE_ORDER_IDENTITY_MISMATCH
      else if lo_exchangeOrderId current \<noteq> None \<and> Some (ob_exchangeOrderId ob) \<noteq> lo_exchangeOrderId current
      then Inl LIVE_ORDER_IDENTITY_MISMATCH
      else
        rbind (liveDecimal D (lo_orderedQuantity current)) (\<lambda>ordered.
        rbind (liveDecimal D (lo_cumulativeFilledQuantity current)) (\<lambda>recorded.
        rbind (canonicalNonNegativeLiveDecimal (Some (ob_cumulativeFilledQuantity ob))) (\<lambda>c.
        rbind (liveDecimal D c) (\<lambda>cumulative.
        rbind (canonicalPositiveLiveDecimal (Some (ob_orderedQuantity ob))) (\<lambda>q.
        rbind (liveDecimal D q) (\<lambda>observedOrdered.
          if observedOrdered \<noteq> ordered then Inl LIVE_ORDER_IDENTITY_MISMATCH
          else if cumulative > ordered then Inl LIVE_FILL_INVALID
          else
            rbind (observedAverage ob cumulative) (\<lambda>average.
              if cumulative < recorded then
                (if staleByTime current ob then Inr (STALE current) else Inl LIVE_FILL_INVALID)
              else
                rbind (resolveObservedState (ob_kind ob) cumulative ordered) (\<lambda>resolved.
                  settleObservation D current ob ordered recorded cumulative average resolved)))))))))"

subsection \<open>Well-formed projections\<close>

abbreviation ordered_of :: "live_order \<Rightarrow> rat" where
  "ordered_of ord \<equiv> text_value (lo_orderedQuantity ord)"

abbreviation filled_of :: "live_order \<Rightarrow> rat" where
  "filled_of ord \<equiv> text_value (lo_cumulativeFilledQuantity ord)"

text \<open>What the name of a state says about the fill.\<close>

fun state_fill :: "order_state \<Rightarrow> rat \<Rightarrow> rat \<Rightarrow> bool" where
  "state_fill PARTIALLY_FILLED filled ordered \<longleftrightarrow> 0 < filled \<and> filled < ordered"
| "state_fill FILLED filled ordered \<longleftrightarrow> filled = ordered"
| "state_fill CANCEL_REQUESTED filled ordered \<longleftrightarrow> filled < ordered"
| "state_fill CANCELLED filled ordered \<longleftrightarrow> filled < ordered"
| "state_fill RECONCILIATION_REQUIRED filled ordered \<longleftrightarrow> True"
| "state_fill _ filled ordered \<longleftrightarrow> filled = 0"

text \<open>What it says about the exchange order id: one exists exactly once the venue supplied it.\<close>

fun state_exchange :: "order_state \<Rightarrow> bool \<Rightarrow> bool" where
  "state_exchange CREATED known \<longleftrightarrow> \<not> known"
| "state_exchange DISPATCH_RESERVED known \<longleftrightarrow> \<not> known"
| "state_exchange ST_SUBMISSION_AMBIGUOUS known \<longleftrightarrow> \<not> known"
| "state_exchange REJECTED known \<longleftrightarrow> True"
| "state_exchange _ known \<longleftrightarrow> known"

definition average_wf :: "string option \<Rightarrow> rat \<Rightarrow> bool" where
  "average_wf average filled \<longleftrightarrow>
     (case average of
        None \<Rightarrow> filled = 0
      | Some p \<Rightarrow> 0 < filled \<and> normal_text p \<and> persisted_value (text_value p) \<and> 0 < text_value p)"

definition order_wf :: "live_order \<Rightarrow> bool" where
  "order_wf ord \<longleftrightarrow>
     normal_text (lo_orderedQuantity ord) \<and> persisted_value (ordered_of ord) \<and> 0 < ordered_of ord
     \<and> normal_text (lo_cumulativeFilledQuantity ord) \<and> persisted_value (filled_of ord)
     \<and> 0 \<le> filled_of ord \<and> filled_of ord \<le> ordered_of ord
     \<and> normal_text (lo_remainingQuantity ord)
     \<and> text_value (lo_remainingQuantity ord) = ordered_of ord - filled_of ord
     \<and> average_wf (lo_averageFillPrice ord) (filled_of ord)
     \<and> state_fill (lo_state ord) (filled_of ord) (ordered_of ord)
     \<and> state_exchange (lo_state ord) (lo_exchangeOrderId ord \<noteq> None)"

lemma order_wfD:
  assumes "order_wf ord"
  shows "normal_text (lo_orderedQuantity ord)" and "persisted_value (ordered_of ord)"
    and "0 < ordered_of ord" and "normal_text (lo_cumulativeFilledQuantity ord)"
    and "persisted_value (filled_of ord)" and "0 \<le> filled_of ord" and "filled_of ord \<le> ordered_of ord"
    and "normal_text (lo_remainingQuantity ord)"
    and "text_value (lo_remainingQuantity ord) = ordered_of ord - filled_of ord"
    and "average_wf (lo_averageFillPrice ord) (filled_of ord)"
    and "state_fill (lo_state ord) (filled_of ord) (ordered_of ord)"
    and "state_exchange (lo_state ord) (lo_exchangeOrderId ord \<noteq> None)"
  using assms by (simp_all add: order_wf_def)

text \<open>Bookkeeping fields do not matter; a change of state has to respect the fill.\<close>

lemma order_wf_restate:
  assumes "order_wf ord" and "lo_orderedQuantity ord' = lo_orderedQuantity ord"
    and "lo_cumulativeFilledQuantity ord' = lo_cumulativeFilledQuantity ord"
    and "lo_remainingQuantity ord' = lo_remainingQuantity ord"
    and "lo_averageFillPrice ord' = lo_averageFillPrice ord"
    and "state_fill (lo_state ord') (filled_of ord) (ordered_of ord)"
    and "state_exchange (lo_state ord') (lo_exchangeOrderId ord' \<noteq> None)"
  shows "order_wf ord'"
  using assms by (simp add: order_wf_def)

lemma terminal_iff [simp]:
  "isLiveTerminalState s \<longleftrightarrow>
     s \<in> {FILLED, CANCELLED, REJECTED, ST_SUBMISSION_AMBIGUOUS, RECONCILIATION_REQUIRED}"
  by (simp add: isLiveTerminalState_def LIVE_TERMINAL_STATES_def)

lemma transition_self:
  "assertTransitionAllowed a b True = Inr u \<longleftrightarrow>
     (a = b \<and> \<not> isLiveTerminalState a) \<or> b \<in> set (LIVE_ORDER_TRANSITIONS a)"
  by (auto simp: assertTransitionAllowed_def)

lemma transition_explicit:
  "assertTransitionAllowed a b False = Inr u \<longleftrightarrow> a \<noteq> b \<and> b \<in> set (LIVE_ORDER_TRANSITIONS a)"
  by (auto simp: assertTransitionAllowed_def)

lemma initial_order_wf:
  assumes "initialLiveOrderState i c a p q = Inr ord"
  shows "order_wf ord" and "lo_state ord = CREATED"
  using assms
  by (auto simp: initialLiveOrderState_def rbind_eq_Inr order_wf_def average_wf_def
      dest: positive_canonicalD)

subsection \<open>What an observation can do\<close>

context decimal_lib
begin

lemma persisted_diff_exact:
  assumes "36 \<le> prec" and "persisted_value x" and "persisted_value y" and "0 \<le> y" and "y \<le> x"
  shows "dround D (x - y) = x - y"
proof -
  obtain a b where x: "x = of_int a / 10 ^ 18" "\<bar>a\<bar> < 10 ^ 36" and y: "y = of_int b / 10 ^ 18"
    using assms(2,3) unfolding persisted_value_def by blast
  have "of_int 0 \<le> (of_int b :: rat)" and "(of_int b :: rat) \<le> of_int a"
    using assms(4,5) unfolding x(1) y
    by (simp_all only: of_int_0 zero_le_divide_iff divide_le_cancel) auto
  then have "0 \<le> b" and "b \<le> a" by (simp_all only: of_int_le_iff)
  then have "\<bar>a - b\<bar> < 10 ^ 36" using x(2) by linarith
  also have "(10::int) ^ 36 \<le> 10 ^ prec" by (rule power_increasing[OF assms(1)]) simp
  finally have "dround D (of_int (a - b) / 10 ^ 18) = of_int (a - b) / 10 ^ 18" by (rule dround_exact)
  moreover have "of_int (a - b) / 10 ^ 18 = x - y" unfolding x(1) y by (simp only: of_int_diff diff_divide_distrib)
  ultimately show ?thesis by (simp only:)
qed

lemma observedAverage_wf:
  assumes "observedAverage ob c = Inr average" and "0 \<le> c"
  shows "average_wf average c"
  using assms
  by (auto simp: observedAverage_def average_wf_def rbind_eq_Inr if_Inl_eq_Inr
      split: if_splits option.splits dest: positive_canonicalD)

lemma resolved_fill:
  assumes "resolveObservedState kind c q = Inr s" and "0 \<le> c" and "c \<le> q" and "0 < q"
  shows "state_fill s c q" and "s \<in> {ACKNOWLEDGED, PARTIALLY_FILLED, FILLED, CANCELLED, REJECTED}"
  using assms
  by (auto simp: resolveObservedState_def Let_def split: observation_kind.splits if_splits)

text \<open>The accepting runs of the function, with the text already read as numbers.\<close>

lemma apply_observation_Inr:
  assumes wf: "order_wf current" and run: "applyLiveOrderObservation D current ob = Inr r"
  obtains cumulative average where
    "ob_clientOrderId ob = lo_clientOrderId current" and "ob_pair ob = lo_pair current"
    and "lo_exchangeOrderId current = None \<or> lo_exchangeOrderId current = Some (ob_exchangeOrderId ob)"
    and "persisted_value cumulative" and "0 \<le> cumulative" and "cumulative \<le> ordered_of current"
    and "observedAverage ob cumulative = Inr average"
    and "cumulative = text_value (ob_cumulativeFilledQuantity ob)"
    and "cumulative < filled_of current \<and> staleByTime current ob \<and> r = STALE current
       \<or> filled_of current \<le> cumulative \<and>
         (\<exists>resolved. resolveObservedState (ob_kind ob) cumulative (ordered_of current) = Inr resolved
            \<and> settleObservation D current ob (ordered_of current) (filled_of current) cumulative average
                resolved = Inr r)"
proof -
  note q = order_wfD(1)[OF wf, THEN normal_signed_text, THEN liveDecimal_signed]
    and c = order_wfD(4)[OF wf, THEN normal_signed_text, THEN liveDecimal_signed]
  have canon: "liveDecimal D t = Inr (text_value t)" if "normal_text t" for t
    using that by (simp add: liveDecimal_signed normal_signed_text)
  note unfolded = run[unfolded applyLiveOrderObservation_def if_Inl_eq_Inr q c rbind_Inr rbind_eq_Inr]
  obtain cs where cs: "canonicalNonNegativeLiveDecimal (Some (ob_cumulativeFilledQuantity ob)) = Inr cs"
    using unfolded by blast
  note csD = nonneg_canonicalD[OF cs]
  obtain qs where qs: "canonicalPositiveLiveDecimal (Some (ob_orderedQuantity ob)) = Inr qs"
    using unfolded by blast
  note qsD = positive_canonicalD[OF qs]
  have v: "text_value cs = text_value (ob_cumulativeFilledQuantity ob)"
    using cs by (auto simp: nonneg_eq_Inr normalize_text_value)
  from unfolded canon[OF csD(1)] canon[OF qsD(1)] cs qs obtain average where
    ids: "ob_clientOrderId ob = lo_clientOrderId current" "ob_pair ob = lo_pair current"
      "lo_exchangeOrderId current = None \<or> lo_exchangeOrderId current = Some (ob_exchangeOrderId ob)"
    and le: "text_value cs \<le> ordered_of current"
    and av: "observedAverage ob (text_value cs) = Inr average"
    and rest: "(if text_value cs < filled_of current
          then if staleByTime current ob then Inr (STALE current) else Inl LIVE_FILL_INVALID
          else rbind (resolveObservedState (ob_kind ob) (text_value cs) (ordered_of current))
             (settleObservation D current ob (ordered_of current) (filled_of current) (text_value cs) average)) = Inr r"
    by auto
  show ?thesis
    by (rule that[OF ids csD(2,3) le av v])
      (use rest in \<open>auto simp: rbind_eq_Inr not_less split: if_splits\<close>)
qed

lemma settle_Inr:
  assumes "settleObservation D current ob ordered recorded cumulative average resolved = Inr r"
  obtains "r = STALE current" and "staleByTime current ob" and "resolved = lo_state current"
      and "cumulative = recorded"
    | "r = DUPLICATE current" and "cumulative = recorded" and "average = lo_averageFillPrice current"
    | nxt where "r = APPLIED (projectObservation D current ob nxt cumulative ordered average)"
      and "if isLiveTerminalState (lo_state current)
           then terminalState (lo_state current) cumulative recorded resolved = Inr nxt
           else nxt = resolved
                \<and> (nxt = lo_state current \<or> nxt \<in> set (LIVE_ORDER_TRANSITIONS (lo_state current)))"
  using assms
  by (auto simp: settleObservation_def Let_def rbind_eq_Inr transition_self split: if_splits
      simp del: terminal_iff)

text \<open>The state an applied observation writes, with the fill it was computed from.\<close>

lemma apply_observation_APPLIED:
  assumes wf: "order_wf current" and run: "applyLiveOrderObservation D current ob = Inr (APPLIED ord)"
  obtains cumulative average resolved nxt where
    "ord = projectObservation D current ob nxt cumulative (ordered_of current) average"
    and "persisted_value cumulative" and "filled_of current \<le> cumulative"
    and "cumulative \<le> ordered_of current" and "observedAverage ob cumulative = Inr average"
    and "resolveObservedState (ob_kind ob) cumulative (ordered_of current) = Inr resolved"
    and "if isLiveTerminalState (lo_state current)
         then terminalState (lo_state current) cumulative (filled_of current) resolved = Inr nxt
         else nxt = resolved
              \<and> (nxt = lo_state current \<or> nxt \<in> set (LIVE_ORDER_TRANSITIONS (lo_state current)))"
    and "cumulative = text_value (ob_cumulativeFilledQuantity ob)"
proof -
  obtain c av where c: "persisted_value c" "c \<le> ordered_of current"
      "observedAverage ob c = Inr av" "c = text_value (ob_cumulativeFilledQuantity ob)"
    and le: "filled_of current \<le> c"
    and res: "\<exists>resolved. resolveObservedState (ob_kind ob) c (ordered_of current) = Inr resolved
            \<and> settleObservation D current ob (ordered_of current) (filled_of current) c av
                resolved = Inr (APPLIED ord)"
    by (rule apply_observation_Inr[OF wf run]) blast
  from res obtain resolved where
    r: "resolveObservedState (ob_kind ob) c (ordered_of current) = Inr resolved"
    and s: "settleObservation D current ob (ordered_of current) (filled_of current) c av
              resolved = Inr (APPLIED ord)"
    by blast
  from s show ?thesis
    by (rule settle_Inr) (use that[OF _ c(1) le c(2,3) r _ c(4)] in blast)+
qed

lemma terminal_fill:
  assumes "terminalState state cumulative recorded resolved = Inr nxt" and "recorded \<le> cumulative"
    and "isLiveTerminalState state" and "state_fill state recorded ordered"
  shows "state_fill nxt cumulative ordered"
    and "nxt = RECONCILIATION_REQUIRED \<or> nxt = state \<and> cumulative = recorded"
  using assms by (auto simp: terminalState_def split: if_splits)

lemma projection_wf:
  assumes wf: "order_wf current" and prec: "36 \<le> prec"
    and c: "persisted_value c" "filled_of current \<le> c" "c \<le> ordered_of current"
    and av: "observedAverage ob c = Inr average"
    and fill: "state_fill nxt c (ordered_of current)"
    and nxt: "nxt \<notin> {CREATED, DISPATCH_RESERVED, ST_SUBMISSION_AMBIGUOUS}"
  shows "order_wf (projectObservation D current ob nxt c (ordered_of current) average)"
proof -
  have c0: "0 \<le> c" using c(2) order_wfD(6)[OF wf] by simp
  have rem: "dround D (ordered_of current - c) = ordered_of current - c"
    by (rule persisted_diff_exact[OF prec order_wfD(2)[OF wf] c(1) c0 c(3)])
  have dec: "decimal_fraction c" "decimal_fraction (ordered_of current - c)"
    using persisted_decimal[OF c(1)] dround_decimal[of "ordered_of current - c"] by (simp_all add: rem)
  have st: "state_exchange nxt True" using nxt by (cases nxt) auto
  show ?thesis
    using order_wfD(1,2,3)[OF wf] c c0 dec observedAverage_wf[OF av c0] fill st
    by (simp add: order_wf_def projectObservation_def rem dfixed_normal dfixed_value)
qed

lemma apply_observation_wf:
  assumes wf: "order_wf current" and prec: "36 \<le> prec"
    and run: "applyLiveOrderObservation D current ob = Inr (APPLIED ord)"
  shows "order_wf ord"
proof (rule apply_observation_APPLIED[OF wf run])
  fix c average resolved nxt
  assume ord: "ord = projectObservation D current ob nxt c (ordered_of current) average"
    and c: "persisted_value c" "filled_of current \<le> c" "c \<le> ordered_of current"
    and av: "observedAverage ob c = Inr average"
    and res: "resolveObservedState (ob_kind ob) c (ordered_of current) = Inr resolved"
    and nxt: "if isLiveTerminalState (lo_state current)
         then terminalState (lo_state current) c (filled_of current) resolved = Inr nxt
         else nxt = resolved
              \<and> (nxt = lo_state current \<or> nxt \<in> set (LIVE_ORDER_TRANSITIONS (lo_state current)))"
  have c0: "0 \<le> c" using c(2) order_wfD(6)[OF wf] by simp
  note rf = resolved_fill[OF res c0 c(3) order_wfD(3)[OF wf]]
  have "state_fill nxt c (ordered_of current)
      \<and> nxt \<notin> {CREATED, DISPATCH_RESERVED, ST_SUBMISSION_AMBIGUOUS}"
  proof (cases "isLiveTerminalState (lo_state current)")
    case True
    with nxt have t: "terminalState (lo_state current) c (filled_of current) resolved = Inr nxt" by simp
    from terminal_fill[OF t c(2) True order_wfD(11)[OF wf]] t True show ?thesis
      by (auto simp: terminalState_def)
  next
    case False
    with nxt rf show ?thesis by auto
  qed
  then show "order_wf ord"
    unfolding ord using projection_wf[OF wf prec c av] by blast
qed

end

subsection \<open>Steps and reachable orders\<close>

inductive order_step :: "decimal_js \<Rightarrow> live_order \<Rightarrow> live_order \<Rightarrow> bool" for D where
  step_reserve: "reserveDispatch current = Inr nxt \<Longrightarrow> order_step D current nxt"
| step_ambiguous: "markSubmissionAmbiguous current f = Inr nxt \<Longrightarrow> order_step D current nxt"
| step_release: "releaseDispatchClaim current f = Inr nxt \<Longrightarrow> order_step D current nxt"
| step_cancel: "requestCancel current = Inr nxt \<Longrightarrow> order_step D current nxt"
| step_reject: "markRejected D current f = Inr nxt \<Longrightarrow> order_step D current nxt"
| step_cancel_ambiguous: "order_step D current (markCancelAmbiguous current f)"
| step_observe: "applyLiveOrderObservation D current ob = Inr (APPLIED nxt) \<Longrightarrow> order_step D current nxt"

inductive order_reachable :: "decimal_js \<Rightarrow> live_order \<Rightarrow> bool" for D where
  reach_initial: "initialLiveOrderState i c a p q = Inr ord \<Longrightarrow> order_reachable D ord"
| reach_step: "order_reachable D current \<Longrightarrow> order_step D current nxt \<Longrightarrow> order_reachable D nxt"

inductive_cases order_stepE: "order_step D current nxt"

text \<open>The explicit transitions, inverted.\<close>

lemma reserve_Inr:
  "reserveDispatch current = Inr nxt \<longleftrightarrow>
     lo_state current = CREATED
     \<and> nxt = current\<lparr>lo_state := DISPATCH_RESERVED, lo_revision := lo_revision current + 1\<rparr>"
  by (cases "lo_state current") (auto simp: reserveDispatch_def rbind_eq_Inr transition_explicit)

lemma ambiguous_Inr:
  "markSubmissionAmbiguous current f = Inr nxt \<longleftrightarrow>
     lo_state current = DISPATCH_RESERVED
     \<and> nxt = current\<lparr>lo_state := ST_SUBMISSION_AMBIGUOUS, lo_faultCode := Some f,
                    lo_revision := lo_revision current + 1\<rparr>"
  by (cases "lo_state current") (auto simp: markSubmissionAmbiguous_def rbind_eq_Inr transition_explicit)

lemma release_Inr:
  "releaseDispatchClaim current f = Inr nxt \<longleftrightarrow>
     lo_state current = DISPATCH_RESERVED \<and> lo_exchangeOrderId current = None
     \<and> nxt = current\<lparr>lo_state := CREATED, lo_faultCode := Some f,
                    lo_revision := lo_revision current + 1\<rparr>"
  by (cases "lo_state current") (auto simp: releaseDispatchClaim_def rbind_eq_Inr transition_explicit)

lemma cancel_Inr:
  "requestCancel current = Inr nxt \<longleftrightarrow>
     lo_state current \<in> {ACKNOWLEDGED, PARTIALLY_FILLED}
     \<and> nxt = current\<lparr>lo_state := CANCEL_REQUESTED, lo_revision := lo_revision current + 1\<rparr>"
  by (cases "lo_state current") (auto simp: requestCancel_def rbind_eq_Inr transition_explicit)

lemma reject_Inr:
  "markRejected D current f = Inr nxt \<longleftrightarrow>
     lo_state current \<in> {DISPATCH_RESERVED, ACKNOWLEDGED}
     \<and> liveDecimal D (lo_cumulativeFilledQuantity current) = Inr 0
     \<and> nxt = current\<lparr>lo_state := REJECTED, lo_faultCode := Some f,
                    lo_revision := lo_revision current + 1\<rparr>"
  by (cases "lo_state current") (auto simp: markRejected_def rbind_eq_Inr transition_explicit)

lemmas explicit_Inr = reserve_Inr ambiguous_Inr release_Inr cancel_Inr reject_Inr

context decimal_lib
begin

lemma order_step_wf:
  assumes "36 \<le> prec" and "order_step D current nxt" and "order_wf current"
  shows "order_wf nxt"
  using assms(2)
proof (cases rule: order_step.cases)
  case (step_observe ob)
  then show ?thesis using apply_observation_wf[OF assms(3,1)] by blast
qed (use assms(3) order_wfD(3,11,12)[OF assms(3)] in
    \<open>auto simp: explicit_Inr markCancelAmbiguous_def intro!: order_wf_restate[OF assms(3)]\<close>)

lemma reachable_wf:
  assumes "36 \<le> prec" and "order_reachable D ord"
  shows "order_wf ord"
  using assms(2)
  by (induction rule: order_reachable.induct)
    (blast intro: initial_order_wf(1) order_step_wf[OF assms(1)])+

end

subsection \<open>Observations that pass the validation\<close>

text \<open>
  The hostile-data checks an observation has to pass before its fill is compared: the identities
  agree, both quantities are canonical, the ordered quantity is ours and is not exceeded, and the
  average price is present exactly for a positive fill.
\<close>

definition observation_valid :: "live_order \<Rightarrow> observation \<Rightarrow> bool" where
  "observation_valid current ob \<longleftrightarrow>
     ob_clientOrderId ob = lo_clientOrderId current \<and> ob_pair ob = lo_pair current
     \<and> (lo_exchangeOrderId current = None \<or> lo_exchangeOrderId current = Some (ob_exchangeOrderId ob))
     \<and> is_ok (canonicalNonNegativeLiveDecimal (Some (ob_cumulativeFilledQuantity ob)))
     \<and> is_ok (canonicalPositiveLiveDecimal (Some (ob_orderedQuantity ob)))
     \<and> text_value (ob_orderedQuantity ob) = ordered_of current
     \<and> text_value (ob_cumulativeFilledQuantity ob) \<le> ordered_of current
     \<and> is_ok (observedAverage ob (text_value (ob_cumulativeFilledQuantity ob)))"

context decimal_lib
begin

lemma apply_observation_valid:
  assumes wf: "order_wf current" and ob: "observation_valid current ob"
    and c: "cumulative = text_value (ob_cumulativeFilledQuantity ob)"
    and av: "observedAverage ob cumulative = Inr average"
  shows "applyLiveOrderObservation D current ob =
     (if cumulative < filled_of current then
        (if staleByTime current ob then Inr (STALE current) else Inl LIVE_FILL_INVALID)
      else rbind (resolveObservedState (ob_kind ob) cumulative (ordered_of current))
             (settleObservation D current ob (ordered_of current) (filled_of current) cumulative average))"
proof -
  have canon: "liveDecimal D t = Inr (text_value t)" if "normal_text t" for t
    using that by (simp add: liveDecimal_signed normal_signed_text)
  obtain cs where cs: "canonicalNonNegativeLiveDecimal (Some (ob_cumulativeFilledQuantity ob)) = Inr cs"
    using ob by (auto simp: observation_valid_def is_ok_iff)
  obtain qs where qs: "canonicalPositiveLiveDecimal (Some (ob_orderedQuantity ob)) = Inr qs"
    using ob by (auto simp: observation_valid_def is_ok_iff)
  have "text_value cs = cumulative" and "text_value qs = ordered_of current"
    using cs qs ob c by (auto simp: nonneg_eq_Inr positive_eq_Inr normalize_text_value observation_valid_def)
  then show ?thesis
    using ob c av cs qs canon[OF nonneg_canonicalD(1)[OF cs]] canon[OF positive_canonicalD(1)[OF qs]]
      canon[OF order_wfD(1)[OF wf]] canon[OF order_wfD(4)[OF wf]]
    by (simp add: applyLiveOrderObservation_def observation_valid_def) auto
qed

text \<open>An observation that is applied once is recognised when it comes again.\<close>

lemma settle_replay:
  assumes run: "settleObservation D current ob ordered recorded cumulative average resolved =
      Inr (APPLIED nxt)"
    and le: "recorded \<le> cumulative"
    and self: "resolved \<in> {ACKNOWLEDGED, PARTIALLY_FILLED, FILLED, CANCELLED, REJECTED}"
  shows "settleObservation D nxt ob ordered cumulative cumulative average resolved
      \<in> {Inr (STALE nxt), Inr (DUPLICATE nxt)}"
  using run
proof (rule settle_Inr)
  fix s
  assume nxt: "APPLIED nxt = APPLIED (projectObservation D current ob s cumulative ordered average)"
    and s: "if isLiveTerminalState (lo_state current)
           then terminalState (lo_state current) cumulative recorded resolved = Inr s
           else s = resolved \<and> (s = lo_state current \<or> s \<in> set (LIVE_ORDER_TRANSITIONS (lo_state current)))"
  have fields: "lo_state nxt = s" "lo_averageFillPrice nxt = average"
      "lo_lastExchangeStatus nxt = Some (ob_exchangeStatus ob)"
      "lo_exchangeOrderId nxt = Some (ob_exchangeOrderId ob)"
    using nxt by (simp_all add: projectObservation_def)
  have cases: "s = RECONCILIATION_REQUIRED \<or> s = resolved"
    using s by (auto simp: terminalState_def split: if_splits)
  show ?thesis
  proof (cases "s = RECONCILIATION_REQUIRED")
    case True
    with self show ?thesis
      by (auto simp: settleObservation_def Let_def fields terminalState_def)
  next
    case False
    with cases have "s = resolved" by simp
    with self show ?thesis
      by (auto simp: settleObservation_def Let_def fields terminalState_def transition_self
          rbind_def assertTransitionAllowed_def split: sum.splits)
  qed
qed simp_all

end

subsection \<open>A concrete order\<close>

definition sample_order ::
    "order_state \<Rightarrow> string option \<Rightarrow> string \<Rightarrow> string \<Rightarrow> string option \<Rightarrow> int option \<Rightarrow> live_order" where
  "sample_order state exchange filled remaining average time =
     \<lparr>lo_intentId = ''i1'', lo_clientOrderId = ''c1'', lo_accountId = ''a1'', lo_pair = ''BTC'',
      lo_state = state, lo_exchangeOrderId = exchange, lo_orderedQuantity = ''2'',
      lo_cumulativeFilledQuantity = filled, lo_remainingQuantity = remaining,
      lo_averageFillPrice = average, lo_lastExchangeStatus = map_option (\<lambda>_. ''open'') exchange,
      lo_lastProviderEventTimeMs = time, lo_faultCode = None, lo_cancelState = NONE,
      lo_cancelGeneration = 0, lo_cancelExchangeOrderId = None, lo_cancelFaultCode = None,
      lo_revision = 0\<rparr>"

definition sample_observation ::
    "observation_kind \<Rightarrow> string \<Rightarrow> string option \<Rightarrow> int \<Rightarrow> observation" where
  "sample_observation kind filled average time =
     \<lparr>ob_kind = kind, ob_clientOrderId = ''c1'', ob_exchangeClientOrderId = None,
      ob_exchangeOrderId = ''x1'', ob_pair = ''BTC'', ob_side = BUY,
      ob_cumulativeFilledQuantity = filled, ob_orderedQuantity = ''2'',
      ob_averageFillPrice = average, ob_exchangeStatus = ''open'', ob_providerEventTimeMs = time\<rparr>"

lemma sample_order_wf [simp]:
  "order_wf (sample_order s ex ''0'' ''2'' None t) \<longleftrightarrow> state_fill s 0 2 \<and> state_exchange s (ex \<noteq> None)"
  "order_wf (sample_order s ex ''1'' ''1'' (Some ''100'') t)
     \<longleftrightarrow> state_fill s 1 2 \<and> state_exchange s (ex \<noteq> None)"
  by (simp_all add: order_wf_def sample_order_def average_wf_def)

lemma sample_observation_valid [simp]:
  "observation_valid (sample_order s ex c r av t) (sample_observation k ''0'' None u)
     \<longleftrightarrow> (ex = None \<or> ex = Some ''x1'')"
  "observation_valid (sample_order s ex c r av t) (sample_observation k ''1'' (Some ''100'') u)
     \<longleftrightarrow> (ex = None \<or> ex = Some ''x1'')"
  by (auto simp: observation_valid_def sample_order_def sample_observation_def observedAverage_def)

text \<open>Half of the order fills at once: the first observation of a reserved dispatch.\<close>

lemma sample_partial_fill:
  "applyLiveOrderObservation (half_up 128) 
     (sample_order DISPATCH_RESERVED None ''0'' ''2'' None None\<lparr>lo_revision := r\<rparr>)
     (sample_observation OBS_PARTIAL_FILL ''1'' (Some ''100'') 5)
   = Inr (APPLIED (sample_order PARTIALLY_FILLED (Some ''x1'') ''1'' ''1'' (Some ''100'') (Some 5)
            \<lparr>lo_revision := r + 1\<rparr>))"
proof -
  have one: "dfixed (half_up 128) 1 = ''1''" by (rule half_up_128.dfixed_eqI) simp_all
  have "dround (half_up 128) (2 - 1) = 2 - 1"
    by (rule half_up_128.persisted_diff_exact) simp_all
  then have round: "dround (half_up 128) 1 = 1" by simp
  show ?thesis
    by (subst half_up_128.apply_observation_valid[where cumulative = 1 and average = "Some ''100''"])
      (simp_all add: sample_order_def sample_observation_def observedAverage_def resolveObservedState_def
        settleObservation_def Let_def staleByTime_def assertTransitionAllowed_def projectObservation_def
        one round state_fill.simps order_wf_def average_wf_def observation_valid_def)
qed

lemma sample_reachable:
  "order_reachable D (sample_order DISPATCH_RESERVED None ''0'' ''2'' None None\<lparr>lo_revision := 1\<rparr>)"
proof -
  have "initialLiveOrderState ''i1'' ''c1'' ''a1'' ''BTC'' ''2'' =
      Inr (sample_order CREATED None ''0'' ''2'' None None)"
    by (simp add: initialLiveOrderState_def sample_order_def)
  from reach_initial[OF this] show ?thesis
    by (rule reach_step[OF _ step_reserve]) (simp add: reserve_Inr sample_order_def)
qed

lemma sample_reachable_filled:
  "order_reachable (half_up 128)
     (sample_order PARTIALLY_FILLED (Some ''x1'') ''1'' ''1'' (Some ''100'') (Some 5)\<lparr>lo_revision := 2\<rparr>)"
  using reach_step[OF sample_reachable step_observe[OF sample_partial_fill]] by simp

subsection \<open>Properties of the state machine\<close>


text \<open>C24. Every order that the state machine can produce is well formed: cumulative fill never
  exceeds the ordered quantity, the remaining quantity is exactly the difference, an average price
  exists exactly when something filled, and the state name agrees with the fill and with the
  knowledge of an exchange order id.\<close>

theorem reachable_order_wf:
  assumes "decimal_lib D 128" and "order_reachable D ord"
  shows "order_wf ord"
  by (rule decimal_lib.reachable_wf[OF assms(1) _ assms(2)]) simp

theorem reachable_order_wf_witness:
  "order_wf (sample_order PARTIALLY_FILLED (Some ''x1'') ''1'' ''1'' (Some ''100'') (Some 5)\<lparr>lo_revision := 2\<rparr>)"
  by (rule reachable_order_wf[OF half_up_128.decimal_lib_axioms sample_reachable_filled])

context decimal_lib
begin

lemma observe_forward:
  assumes wf: "order_wf current" and run: "applyLiveOrderObservation D current ob = Inr (APPLIED ord)"
  shows "lo_state ord = lo_state current \<or> lo_state ord \<in> set (LIVE_ORDER_TRANSITIONS (lo_state current))"
    and "filled_of current \<le> filled_of ord"
    and "filled_of ord = text_value (ob_cumulativeFilledQuantity ob)"
    and "lo_exchangeOrderId current = None \<or> lo_exchangeOrderId ord = lo_exchangeOrderId current"
    and "lo_orderedQuantity ord = lo_orderedQuantity current"
proof -
  obtain c av res s where ord: "ord = projectObservation D current ob s c (ordered_of current) av"
    and c: "persisted_value c" "filled_of current \<le> c" "c = text_value (ob_cumulativeFilledQuantity ob)"
    and s: "if isLiveTerminalState (lo_state current)
         then terminalState (lo_state current) c (filled_of current) res = Inr s
         else s = res \<and> (s = lo_state current \<or> s \<in> set (LIVE_ORDER_TRANSITIONS (lo_state current)))"
    by (rule apply_observation_APPLIED[OF wf run]) blast
  have v: "filled_of ord = c"
    using persisted_decimal[OF c(1)] by (simp add: ord projectObservation_def dfixed_value)
  show "filled_of current \<le> filled_of ord" and "filled_of ord = text_value (ob_cumulativeFilledQuantity ob)"
    using c v by simp_all
  show "lo_orderedQuantity ord = lo_orderedQuantity current" by (simp add: ord projectObservation_def)
  show "lo_exchangeOrderId current = None \<or> lo_exchangeOrderId ord = lo_exchangeOrderId current"
    by (rule apply_observation_Inr[OF wf run]) (auto simp: ord projectObservation_def)
  show "lo_state ord = lo_state current \<or> lo_state ord \<in> set (LIVE_ORDER_TRANSITIONS (lo_state current))"
    using s by (auto simp: ord projectObservation_def terminalState_def split: if_splits)
qed

lemma step_forward:
  assumes "order_wf current" and "order_step D current nxt"
  shows "lo_state nxt = lo_state current \<or> lo_state nxt \<in> set (LIVE_ORDER_TRANSITIONS (lo_state current))"
    and "filled_of current \<le> filled_of nxt"
    and "lo_exchangeOrderId current = None \<or> lo_exchangeOrderId nxt = lo_exchangeOrderId current"
    and "lo_orderedQuantity nxt = lo_orderedQuantity current"
proof -
  have "(lo_state nxt = lo_state current \<or> lo_state nxt \<in> set (LIVE_ORDER_TRANSITIONS (lo_state current)))
     \<and> filled_of current \<le> filled_of nxt
     \<and> (lo_exchangeOrderId current = None \<or> lo_exchangeOrderId nxt = lo_exchangeOrderId current)
     \<and> lo_orderedQuantity nxt = lo_orderedQuantity current"
    using assms(2)
  proof (cases rule: order_step.cases)
    case (step_observe ob)
    from observe_forward[OF assms(1) this] show ?thesis by blast
  qed (auto simp: explicit_Inr markCancelAmbiguous_def)
  then show "lo_state nxt = lo_state current \<or> lo_state nxt \<in> set (LIVE_ORDER_TRANSITIONS (lo_state current))"
    and "filled_of current \<le> filled_of nxt"
    and "lo_exchangeOrderId current = None \<or> lo_exchangeOrderId nxt = lo_exchangeOrderId current"
    and "lo_orderedQuantity nxt = lo_orderedQuantity current"
    by simp_all
qed

lemma steps_final:
  assumes "36 \<le> prec" and "(order_step D)\<^sup>*\<^sup>* current nxt" and "order_wf current"
    and "lo_state current \<in> {FILLED, ST_SUBMISSION_AMBIGUOUS}"
  shows "lo_state nxt = lo_state current \<and> filled_of nxt = filled_of current
       \<and> lo_orderedQuantity nxt = lo_orderedQuantity current \<and> order_wf nxt"
  using assms(2)
proof (induction rule: rtranclp_induct)
  case (step mid nxt)
  then have mid: "order_wf mid" "lo_state mid = lo_state current" "filled_of mid = filled_of current"
      "lo_orderedQuantity mid = lo_orderedQuantity current"
    by simp_all
  have wf: "order_wf nxt" by (rule order_step_wf[OF assms(1) step.hyps(2) mid(1)])
  have st: "lo_state nxt = lo_state current" and oq: "lo_orderedQuantity nxt = lo_orderedQuantity current"
    using step_forward(1,4)[OF mid(1) step.hyps(2)] assms(4) mid by auto
  have "filled_of nxt = filled_of current"
    using order_wfD(11)[OF wf] order_wfD(11)[OF assms(3)] st oq assms(4) by auto
  with st oq wf show ?case by simp
qed (use assms in simp)

end

text \<open>C14. A step of the state machine follows the declared transition table (or stays in its state),
  never lowers the cumulative fill, never changes a known exchange order id and never changes the
  ordered quantity.\<close>

theorem order_step_forward:
  assumes "decimal_lib D 128" and "order_reachable D current" and "order_step D current nxt"
  shows "(lo_state nxt = lo_state current \<or> lo_state nxt \<in> set (LIVE_ORDER_TRANSITIONS (lo_state current)))
     \<and> filled_of current \<le> filled_of nxt
     \<and> (lo_exchangeOrderId current = None \<or> lo_exchangeOrderId nxt = lo_exchangeOrderId current)
     \<and> lo_orderedQuantity nxt = lo_orderedQuantity current"
proof -
  have "order_wf current" by (rule decimal_lib.reachable_wf[OF assms(1) _ assms(2)]) simp
  then show ?thesis using decimal_lib.step_forward[OF assms(1) _ assms(3)] by blast
qed

theorem order_step_forward_witness:
  "filled_of (sample_order DISPATCH_RESERVED None ''0'' ''2'' None None\<lparr>lo_revision := 1\<rparr>)
   \<le> filled_of (sample_order PARTIALLY_FILLED (Some ''x1'') ''1'' ''1'' (Some ''100'') (Some 5)\<lparr>lo_revision := 2\<rparr>)"
  using order_step_forward[OF half_up_128.decimal_lib_axioms sample_reachable
      step_observe[OF sample_partial_fill[of 1]]]
  by simp

text \<open>A filled order and an ambiguous submission are final: whatever steps follow, the state and
  the fill stay as they are.\<close>

theorem filled_and_ambiguous_final:
  assumes "decimal_lib D 128" and "order_reachable D current" and "(order_step D)\<^sup>*\<^sup>* current nxt"
    and "lo_state current \<in> {FILLED, ST_SUBMISSION_AMBIGUOUS}"
  shows "lo_state nxt = lo_state current \<and> filled_of nxt = filled_of current"
proof -
  have "order_wf current" by (rule decimal_lib.reachable_wf[OF assms(1) _ assms(2)]) simp
  then show ?thesis using decimal_lib.steps_final[OF assms(1) _ assms(3) _ assms(4)] by simp
qed

theorem filled_and_ambiguous_final_witness:
  "lo_state (markCancelAmbiguous (sample_order ST_SUBMISSION_AMBIGUOUS None ''0'' ''2'' None None
       \<lparr>lo_faultCode := Some (Code LIVE_SUBMISSION_AMBIGUOUS), lo_revision := 2\<rparr>) (Reason ''late''))
   = ST_SUBMISSION_AMBIGUOUS"
proof -
  let ?amb = "sample_order ST_SUBMISSION_AMBIGUOUS None ''0'' ''2'' None None
       \<lparr>lo_faultCode := Some (Code LIVE_SUBMISSION_AMBIGUOUS), lo_revision := 2\<rparr>"
  have "order_reachable (half_up 128) ?amb"
    by (rule reach_step[OF sample_reachable step_ambiguous[of _ "Code LIVE_SUBMISSION_AMBIGUOUS"]])
      (simp add: ambiguous_Inr sample_order_def)
  from filled_and_ambiguous_final[OF half_up_128.decimal_lib_axioms this
      r_into_rtranclp[of "order_step (half_up 128)", OF step_cancel_ambiguous]]
  show ?thesis by (simp add: sample_order_def)
qed

context decimal_lib
begin

lemma projected_valid:
  assumes wf: "order_wf current" and ok: "applyLiveOrderObservation D current ob = Inr r"
  shows "observation_valid current ob"
proof -
  have canon: "liveDecimal D t = Inr (text_value t)" if "normal_text t" for t
    using that by (simp add: liveDecimal_signed normal_signed_text)
  note unfolded = ok[unfolded applyLiveOrderObservation_def if_Inl_eq_Inr rbind_eq_Inr]
  obtain cs where cs: "canonicalNonNegativeLiveDecimal (Some (ob_cumulativeFilledQuantity ob)) = Inr cs"
    using unfolded by blast
  obtain qs where qs: "canonicalPositiveLiveDecimal (Some (ob_orderedQuantity ob)) = Inr qs"
    using unfolded by blast
  have "text_value cs = text_value (ob_cumulativeFilledQuantity ob)"
    and "text_value qs = text_value (ob_orderedQuantity ob)"
    using cs qs by (auto simp: nonneg_eq_Inr positive_eq_Inr normalize_text_value)
  with unfolded cs qs canon[OF order_wfD(1)[OF wf]] canon[OF order_wfD(4)[OF wf]]
    canon[OF nonneg_canonicalD(1)[OF cs]] canon[OF positive_canonicalD(1)[OF qs]]
  show ?thesis by (auto simp: observation_valid_def)
qed

lemma observation_replay:
  assumes "36 \<le> prec" and wf: "order_wf current"
    and run: "applyLiveOrderObservation D current ob = Inr (APPLIED ord)"
  shows "applyLiveOrderObservation D ord ob \<in> {Inr (STALE ord), Inr (DUPLICATE ord)}"
proof (rule apply_observation_Inr[OF wf run])
  fix c av
  assume c: "persisted_value c" "0 \<le> c" "c \<le> ordered_of current" "c = text_value (ob_cumulativeFilledQuantity ob)"
    and av: "observedAverage ob c = Inr av"
    and res: "c < filled_of current \<and> staleByTime current ob \<and> APPLIED ord = STALE current \<or>
       filled_of current \<le> c \<and>
       (\<exists>resolved. resolveObservedState (ob_kind ob) c (ordered_of current) = Inr resolved \<and>
         settleObservation D current ob (ordered_of current) (filled_of current) c av resolved = Inr (APPLIED ord))"
  then obtain s where le: "filled_of current \<le> c"
    and s: "resolveObservedState (ob_kind ob) c (ordered_of current) = Inr s"
    and settle: "settleObservation D current ob (ordered_of current) (filled_of current) c av s = Inr (APPLIED ord)"
    by blast
  note fw = observe_forward[OF wf run]
  have wf': "order_wf ord" by (rule apply_observation_wf[OF wf assms(1) run])
  from settle have ids: "lo_clientOrderId ord = lo_clientOrderId current \<and> lo_pair ord = lo_pair current
      \<and> lo_exchangeOrderId ord = Some (ob_exchangeOrderId ob)"
    by (rule settle_Inr) (simp_all add: projectObservation_def)
  have "observation_valid ord ob"
    using projected_valid[OF wf run] ids fw(5) by (simp add: observation_valid_def)
  from apply_observation_valid[OF wf' this c(4) av] fw(3,5) c(4) s
  have "applyLiveOrderObservation D ord ob = settleObservation D ord ob (ordered_of current) c c av s"
    by simp
  moreover have "settleObservation D ord ob (ordered_of current) c c av s \<in> {Inr (STALE ord), Inr (DUPLICATE ord)}"
    by (rule settle_replay[OF settle le resolved_fill(2)[OF s c(2,3) order_wfD(3)[OF wf]]])
  ultimately show ?thesis by simp
qed

end

text \<open>C25. Folding an observation is idempotent: once it has been applied, a second delivery of the
  same observation changes nothing.\<close>

theorem observation_replay_idempotent:
  assumes "decimal_lib D 128" and "order_reachable D current"
    and "applyLiveOrderObservation D current ob = Inr (APPLIED ord)"
  shows "applyLiveOrderObservation D ord ob \<in> {Inr (STALE ord), Inr (DUPLICATE ord)}"
proof -
  have "order_wf current" by (rule decimal_lib.reachable_wf[OF assms(1) _ assms(2)]) simp
  then show ?thesis using decimal_lib.observation_replay[OF assms(1) _ _ assms(3)] by simp
qed

theorem observation_replay_idempotent_witness:
  "applyLiveOrderObservation (half_up 128)
     (sample_order PARTIALLY_FILLED (Some ''x1'') ''1'' ''1'' (Some ''100'') (Some 5)\<lparr>lo_revision := 2\<rparr>)
     (sample_observation OBS_PARTIAL_FILL ''1'' (Some ''100'') 5)
   \<in> {Inr (STALE (sample_order PARTIALLY_FILLED (Some ''x1'') ''1'' ''1'' (Some ''100'') (Some 5)\<lparr>lo_revision := 2\<rparr>)),
      Inr (DUPLICATE (sample_order PARTIALLY_FILLED (Some ''x1'') ''1'' ''1'' (Some ''100'') (Some 5)\<lparr>lo_revision := 2\<rparr>))}"
  using observation_replay_idempotent[OF half_up_128.decimal_lib_axioms sample_reachable
      sample_partial_fill[of 1]]
  by simp

text \<open>C26. A cumulative fill that contradicts recorded truth is never folded: more than was ordered is
  an error whatever else the observation says, and a valid observation that regresses is ignored
  when it is late and is the fault \<open>LIVE_FILL_INVALID\<close> when it is not.\<close>

theorem contradicting_fill_rejected:
  assumes "decimal_lib D 128" and "order_reachable D current"
  shows "(ordered_of current < text_value (ob_cumulativeFilledQuantity ob) \<longrightarrow>
          \<not> is_ok (applyLiveOrderObservation D current ob))
     \<and> (observation_valid current ob
          \<and> text_value (ob_cumulativeFilledQuantity ob) < filled_of current \<longrightarrow>
          applyLiveOrderObservation D current ob =
            (if staleByTime current ob then Inr (STALE current) else Inl LIVE_FILL_INVALID))"
proof -
  have wf: "order_wf current"
    by (rule decimal_lib.reachable_wf[OF assms(1) _ assms(2)]) simp
  have "\<not> is_ok (applyLiveOrderObservation D current ob)"
    if "ordered_of current < text_value (ob_cumulativeFilledQuantity ob)"
  proof
    assume "is_ok (applyLiveOrderObservation D current ob)"
    then obtain r where "applyLiveOrderObservation D current ob = Inr r" by (auto simp: is_ok_iff)
    from decimal_lib.projected_valid[OF assms(1) wf this] that show False
      by (simp add: observation_valid_def)
  qed
  moreover have "applyLiveOrderObservation D current ob =
      (if staleByTime current ob then Inr (STALE current) else Inl LIVE_FILL_INVALID)"
    if v: "observation_valid current ob"
      and lt: "text_value (ob_cumulativeFilledQuantity ob) < filled_of current"
  proof -
    obtain av where "observedAverage ob (text_value (ob_cumulativeFilledQuantity ob)) = Inr av"
      using v by (auto simp: observation_valid_def is_ok_iff)
    from decimal_lib.apply_observation_valid[OF assms(1) wf v refl this] lt show ?thesis by simp
  qed
  ultimately show ?thesis by blast
qed

theorem contradicting_fill_rejected_witness:
  "applyLiveOrderObservation (half_up 128)
     (sample_order PARTIALLY_FILLED (Some ''x1'') ''1'' ''1'' (Some ''100'') (Some 5)\<lparr>lo_revision := 2\<rparr>)
     (sample_observation OBS_CANCELLED ''0'' None 6) = Inl LIVE_FILL_INVALID
   \<and> applyLiveOrderObservation (half_up 128)
     (sample_order PARTIALLY_FILLED (Some ''x1'') ''1'' ''1'' (Some ''100'') (Some 5)\<lparr>lo_revision := 2\<rparr>)
     (sample_observation OBS_CANCELLED ''0'' None 4) =
     Inr (STALE (sample_order PARTIALLY_FILLED (Some ''x1'') ''1'' ''1'' (Some ''100'') (Some 5)\<lparr>lo_revision := 2\<rparr>))"
  using contradicting_fill_rejected[OF half_up_128.decimal_lib_axioms sample_reachable_filled,
      of "sample_observation OBS_CANCELLED ''0'' None 6"]
    contradicting_fill_rejected[OF half_up_128.decimal_lib_axioms sample_reachable_filled,
      of "sample_observation OBS_CANCELLED ''0'' None 4"]
  by (simp add: staleByTime_def observation_valid_def sample_order_def sample_observation_def observedAverage_def)

text \<open>C28. While a cancel is pending, a valid observation that the order is still open with nothing
  filled is the fault \<open>LIVE_ORDER_STATE_CONFLICT\<close>, not a no-op, whether it is fresh or late.\<close>

theorem pending_cancel_refuses_open_report:
  assumes "decimal_lib D 128" and "order_reachable D current" and "lo_state current = CANCEL_REQUESTED"
    and "observation_valid current ob" and "ob_kind ob = OBS_ACKNOWLEDGED"
    and "text_value (ob_cumulativeFilledQuantity ob) = 0" and "filled_of current = 0"
  shows "applyLiveOrderObservation D current ob = Inl LIVE_ORDER_STATE_CONFLICT"
proof -
  have wf: "order_wf current" by (rule decimal_lib.reachable_wf[OF assms(1) _ assms(2)]) simp
  obtain av where "observedAverage ob (text_value (ob_cumulativeFilledQuantity ob)) = Inr av"
    using assms(4) by (auto simp: observation_valid_def is_ok_iff)
  from decimal_lib.apply_observation_valid[OF assms(1) wf assms(4) refl this] assms order_wfD(3)[OF wf]
  show ?thesis
    by (simp add: resolveObservedState_def settleObservation_def assertTransitionAllowed_def)
qed

theorem pending_cancel_refuses_open_report_witness:
  "applyLiveOrderObservation (half_up 128)
     (sample_order CANCEL_REQUESTED (Some ''x1'') ''0'' ''2'' None (Some 5)\<lparr>lo_revision := 3\<rparr>)
     (sample_observation OBS_ACKNOWLEDGED ''0'' None 6) = Inl LIVE_ORDER_STATE_CONFLICT"
proof (rule pending_cancel_refuses_open_report[OF half_up_128.decimal_lib_axioms])
  have round: "dround (half_up 128) (2 - 0) = 2 - 0"
    by (rule half_up_128.persisted_diff_exact) simp_all
  have "dfixed (half_up 128) 2 = ''2''" by (rule half_up_128.dfixed_eqI) simp_all
  with round have "applyLiveOrderObservation (half_up 128)
     (sample_order DISPATCH_RESERVED None ''0'' ''2'' None None\<lparr>lo_revision := 1\<rparr>)
     (sample_observation OBS_ACKNOWLEDGED ''0'' None 5)
   = Inr (APPLIED (sample_order ACKNOWLEDGED (Some ''x1'') ''0'' ''2'' None (Some 5)\<lparr>lo_revision := 2\<rparr>))"
    by (subst half_up_128.apply_observation_valid[where cumulative = 0 and average = None])
      (simp_all add: sample_order_def sample_observation_def observedAverage_def resolveObservedState_def
        settleObservation_def Let_def staleByTime_def assertTransitionAllowed_def projectObservation_def
        order_wf_def average_wf_def observation_valid_def)
  from reach_step[OF sample_reachable step_observe[OF this]]
  show "order_reachable (half_up 128)
     (sample_order CANCEL_REQUESTED (Some ''x1'') ''0'' ''2'' None (Some 5)\<lparr>lo_revision := 3\<rparr>)"
    by (rule reach_step[OF _ step_cancel]) (simp add: cancel_Inr sample_order_def)
qed (simp_all add: sample_order_def sample_observation_def observation_valid_def observedAverage_def)

text \<open>A reserved dispatch refuses a valid report that the venue cancelled the order before
  filling it completely (the immediate outcome of an IOC or FOK order): the transition table has no
  such edge, and the order stays reserved.\<close>

theorem reserved_dispatch_refuses_cancellation:
  assumes "decimal_lib D 128" and "order_reachable D current" and "lo_state current = DISPATCH_RESERVED"
    and "observation_valid current ob" and "ob_kind ob = OBS_CANCELLED"
    and "text_value (ob_cumulativeFilledQuantity ob) < ordered_of current"
  shows "applyLiveOrderObservation D current ob = Inl LIVE_ORDER_STATE_CONFLICT"
proof -
  have wf: "order_wf current" by (rule decimal_lib.reachable_wf[OF assms(1) _ assms(2)]) simp
  obtain av where "observedAverage ob (text_value (ob_cumulativeFilledQuantity ob)) = Inr av"
    using assms(4) by (auto simp: observation_valid_def is_ok_iff)
  moreover have "filled_of current = 0" using order_wfD(11)[OF wf] assms(3) by simp
  moreover have "0 \<le> text_value (ob_cumulativeFilledQuantity ob)"
    using assms(4) by (auto simp: observation_valid_def is_ok_iff nonneg_eq_Inr)
  ultimately show ?thesis
    using decimal_lib.apply_observation_valid[OF assms(1) wf assms(4) refl] assms
    by (simp add: resolveObservedState_def settleObservation_def assertTransitionAllowed_def not_less)
qed

theorem reserved_dispatch_refuses_cancellation_witness:
  "applyLiveOrderObservation (half_up 128)
     (sample_order DISPATCH_RESERVED None ''0'' ''2'' None None\<lparr>lo_revision := 1\<rparr>)
     (sample_observation OBS_CANCELLED ''1'' (Some ''100'') 5) = Inl LIVE_ORDER_STATE_CONFLICT"
  by (rule reserved_dispatch_refuses_cancellation[OF half_up_128.decimal_lib_axioms sample_reachable])
    (simp_all add: sample_order_def sample_observation_def observation_valid_def observedAverage_def)

end
