(* ===== verification/Live_Repository.thy ===== *)
theory Live_Repository
  imports Live_Intent Live_Order
begin

section \<open>The durable repository of live execution\<close>

text \<open>
  \<^verbatim>\<open>src/execution/live/repository.ts\<close>. The database is a record of tables: a map from primary key to
  row for each model of \<^verbatim>\<open>prisma/schema.prisma\<close> that the file touches, the set of event keys, and a map for each unique index the code relies on.
  Every transaction of the code locks its rows first, so it is one function from the database to a
  result; an error on the left means the transaction rolled back and the database is unchanged.
  The three things outside the repository are gathered in \<open>live_env\<close>: the digest, decimal.js, and
  what a DECIMAL(36,18) column gives back for the text that was written to it. A unique-constraint
  violation (Prisma's P2002) is the error \<open>UniqueViolation\<close>. The time \<open>now\<close> is what the database
  client writes into \<^verbatim>\<open>updatedAt\<close>.
\<close>

record live_env =
  env_sha :: "string \<Rightarrow> string"
  env_decimal :: decimal_js
  env_stored :: "string \<Rightarrow> string"

subsection \<open>Tables\<close>

record intent_row =
  iw_intentId :: string
  iw_clientOrderId :: string
  iw_contentSha256 :: string
  iw_content :: intent_content
  iw_wireOrderType :: string
  iw_sourceStrategyDecisionId :: string
  iw_validationSubjectId :: "string option"
  iw_validationPlanId :: "string option"
  iw_validationSubjectResultSha256 :: "string option"

record order_row =
  ow_order :: live_order
  ow_updatedAt :: int

record consumption_row =
  cw_admissionId :: string
  cw_intentId :: string
  cw_accountId :: string
  cw_pair :: string
  cw_riskDecisionId :: string

record position_row =
  pw_positionInstanceId :: string
  pw_revision :: int
  pw_side :: position_side
  pw_quantity :: string
  pw_instrumentSpecSnapshotId :: string
  pw_ownerStrategyInstanceId :: string
  pw_ownerStrategyId :: string
  pw_ownerStrategyVersion :: string
  pw_ownerParameterHash :: string

record live_db =
  db_intents :: "string \<rightharpoonup> intent_row"
  db_orders :: "string \<rightharpoonup> order_row"
  db_consumptions :: "string \<rightharpoonup> consumption_row"
  db_positions :: "string \<times> string \<rightharpoonup> position_row"
  db_events :: "(string \<times> string) set"
  db_intentOfClientOrder :: "string \<rightharpoonup> string"
  db_orderOfClientOrder :: "string \<rightharpoonup> string"
  db_consumptionOfIntent :: "string \<rightharpoonup> string"

subsection \<open>Digests\<close>

definition observationSha256 :: "(string \<Rightarrow> string) \<Rightarrow> observation \<Rightarrow> (thrown, string) res" where
  "observationSha256 sha ob = digestOf sha (JObject
     [(''kind'', JString (case ob_kind ob of
                   OBS_ACKNOWLEDGED \<Rightarrow> ''ACKNOWLEDGED'' | OBS_PARTIAL_FILL \<Rightarrow> ''PARTIAL_FILL'' | OBS_FILL \<Rightarrow> ''FILL''
                 | OBS_CANCELLED \<Rightarrow> ''CANCELLED'' | OBS_REJECTED \<Rightarrow> ''REJECTED'')),
      (''clientOrderId'', JString (ob_clientOrderId ob)),
      (''exchangeClientOrderId'', json_opt (ob_exchangeClientOrderId ob)),
      (''exchangeOrderId'', JString (ob_exchangeOrderId ob)),
      (''pair'', JString (ob_pair ob)), (''side'', JString (side_name (ob_side ob))),
      (''cumulativeFilledQuantity'', JString (ob_cumulativeFilledQuantity ob)),
      (''orderedQuantity'', JString (ob_orderedQuantity ob)),
      (''averageFillPrice'', json_opt (ob_averageFillPrice ob)),
      (''exchangeStatus'', JString (ob_exchangeStatus ob)),
      (''providerEventTimeMs'', JNumber (ob_providerEventTimeMs ob))])"

definition lineage_json :: "live_lineage \<Rightarrow> json" where
  "lineage_json l = JObject
     [(''researchApproval'',
       case ll_researchApproval l of
         None \<Rightarrow> JNull
       | Some a \<Rightarrow> JObject
           [(''validationSubjectId'', JString (rl_validationSubjectId a)),
            (''validationPlanId'', JString (rl_validationPlanId a)),
            (''validationSubjectResultSha256'', JString (rl_validationSubjectResultSha256 a))]),
      (''sourceStrategyDecisionId'', JString (ll_sourceStrategyDecisionId l))]"

definition sealed_json :: "intent_record \<Rightarrow> intent_content \<Rightarrow> json" where
  "sealed_json intent content = JObject
     [(''schema'', JString ''P17_LIVE_INTENT_STORED_V1''),
      (''intentId'', JString (ir_intentId intent)), (''clientOrderId'', JString (ir_clientOrderId intent)),
      (''wireOrderType'', JString (ir_wireOrderType intent)),
      (''content'', JObject (content_members content)), (''lineage'', lineage_json (ir_lineage intent))]"

definition liveExecutionIntentContentSha256 :: "(string \<Rightarrow> string) \<Rightarrow> intent_record \<Rightarrow> (thrown, string) res" where
  "liveExecutionIntentContentSha256 sha intent =
     rbind (liveR (canonicalContent (ir_content intent))) (\<lambda>content.
       digestOf sha (sealed_json intent content))"

subsection \<open>The trust boundary\<close>

definition bigIntToNumber :: "int option \<Rightarrow> (live_code, int option) res" where
  "bigIntToNumber v =
     (case v of
        None \<Rightarrow> Inr None
      | Some n \<Rightarrow> if \<not> isSafeInteger n then Inl LIVE_PERSISTENCE_FAULT else Inr (Some n))"

definition toStateRecord :: "order_row \<Rightarrow> (live_code, live_order) res" where
  "toStateRecord row =
     rbind (bigIntToNumber (lo_lastProviderEventTimeMs (ow_order row))) (\<lambda>t.
       Inr ((ow_order row)\<lparr>lo_lastProviderEventTimeMs := t\<rparr>))"

text \<open>\<^verbatim>\<open>String(column)\<close> of a nullable column.\<close>

definition column_string :: "string option \<Rightarrow> string" where
  "column_string v = (case v of None \<Rightarrow> ''null'' | Some s \<Rightarrow> s)"

definition reconstructStoredIntent :: "intent_row \<Rightarrow> intent_record" where
  "reconstructStoredIntent stored =
     (let approvalPresent = iw_validationSubjectId stored \<noteq> None \<or> iw_validationPlanId stored \<noteq> None
            \<or> iw_validationSubjectResultSha256 stored \<noteq> None
      in \<lparr>ir_intentId = iw_intentId stored, ir_clientOrderId = iw_clientOrderId stored,
          ir_content = iw_content stored,
          ir_lineage =
            \<lparr>ll_researchApproval =
               (if approvalPresent then Some
                  \<lparr>rl_validationSubjectId = column_string (iw_validationSubjectId stored),
                   rl_validationPlanId = column_string (iw_validationPlanId stored),
                   rl_validationSubjectResultSha256 = column_string (iw_validationSubjectResultSha256 stored)\<rparr>
                else None),
             ll_sourceStrategyDecisionId = iw_sourceStrategyDecisionId stored\<rparr>,
          ir_wireOrderType = iw_wireOrderType stored,
          ir_quantityAdjusted = False, ir_priceAdjusted = False\<rparr>)"

record verified_intent =
  vi_intent :: intent_record
  vi_digest :: string

definition verifyStoredIntentIntegrity :: "(string \<Rightarrow> string) \<Rightarrow> intent_row \<Rightarrow> (thrown, verified_intent) res" where
  "verifyStoredIntentIntegrity sha stored =
     (case liveExecutionIntentContentSha256 sha (reconstructStoredIntent stored) of
        Inl _ \<Rightarrow> Inl (Live LIVE_DURABLE_INTEGRITY_VIOLATION)
      | Inr digest \<Rightarrow>
          if iw_contentSha256 stored \<noteq> digest then Inl (Live LIVE_DURABLE_INTEGRITY_VIOLATION)
          else Inr \<lparr>vi_intent = reconstructStoredIntent stored, vi_digest = digest\<rparr>)"

definition assertOrderProjectionMatchesIntent :: "live_order \<Rightarrow> verified_intent \<Rightarrow> (thrown, unit) res" where
  "assertOrderProjectionMatchesIntent order verified =
     (let content = ir_content (vi_intent verified)
      in if lo_intentId order \<noteq> ir_intentId (vi_intent verified)
            \<or> lo_clientOrderId order \<noteq> ir_clientOrderId (vi_intent verified)
            \<or> lo_accountId order \<noteq> ic_accountId content \<or> lo_pair order \<noteq> ic_pair content
         then Inl (Live LIVE_DURABLE_INTEGRITY_VIOLATION)
         else
           rbind (liveR (canonicalLiveDecimalString (Some (lo_orderedQuantity order)))) (\<lambda>a.
           rbind (liveR (canonicalLiveDecimalString (Some (ic_quantity content)))) (\<lambda>b.
             if a \<noteq> b then Inl (Live LIVE_DURABLE_INTEGRITY_VIOLATION) else Inr ())))"

definition readVerifiedOrder ::
    "(string \<Rightarrow> string) \<Rightarrow> live_db \<Rightarrow> string \<Rightarrow> (thrown, (live_order \<times> verified_intent) option) res" where
  "readVerifiedOrder sha db intentId =
     (case db_orders db intentId of
        None \<Rightarrow> Inr None
      | Some row \<Rightarrow>
          (case db_intents db intentId of
             None \<Rightarrow> Inl (Live LIVE_DURABLE_INTEGRITY_VIOLATION)
           | Some intentRow \<Rightarrow>
               rbind (verifyStoredIntentIntegrity sha intentRow) (\<lambda>verifiedIntent.
               rbind (liveR (toStateRecord row)) (\<lambda>order.
               rbind (assertOrderProjectionMatchesIntent order verifiedIntent) (\<lambda>_.
                 Inr (Some (order, verifiedIntent)))))))"

text \<open>A verified read that has to find its order; \<open>missing\<close> is the fault when it does not.\<close>

definition requireVerifiedOrder ::
    "(string \<Rightarrow> string) \<Rightarrow> live_code \<Rightarrow> live_db \<Rightarrow> string \<Rightarrow> (thrown, live_order \<times> verified_intent) res" where
  "requireVerifiedOrder sha missing db intentId =
     rbind (readVerifiedOrder sha db intentId) (\<lambda>found.
       case found of None \<Rightarrow> Inl (Live missing) | Some v \<Rightarrow> Inr v)"

definition load :: "live_env \<Rightarrow> string \<Rightarrow> live_db \<Rightarrow> (thrown, live_order option) res" where
  "load env intentId db = rbind (readVerifiedOrder (env_sha env) db intentId) (\<lambda>v. Inr (map_option fst v))"

subsection \<open>Writing rows\<close>

definition store_content :: "live_env \<Rightarrow> intent_content \<Rightarrow> intent_content" where
  "store_content env c =
     c\<lparr>ic_quantity := env_stored env (ic_quantity c), ic_price := map_option (env_stored env) (ic_price c),
       ic_leverage := map_option (env_stored env) (ic_leverage c),
       ic_authorizedNotionalInr := env_stored env (ic_authorizedNotionalInr c),
       ic_settlementRateInrPerQuote := map_option (env_stored env) (ic_settlementRateInrPerQuote c),
       ic_reduceOnlyQuantity := map_option (env_stored env) (ic_reduceOnlyQuantity c)\<rparr>"

definition store_order :: "live_env \<Rightarrow> live_order \<Rightarrow> live_order" where
  "store_order env ord =
     ord\<lparr>lo_orderedQuantity := env_stored env (lo_orderedQuantity ord),
         lo_cumulativeFilledQuantity := env_stored env (lo_cumulativeFilledQuantity ord),
         lo_remainingQuantity := env_stored env (lo_remainingQuantity ord),
         lo_averageFillPrice := map_option (env_stored env) (lo_averageFillPrice ord)\<rparr>"

definition put_order :: "int \<Rightarrow> string \<Rightarrow> live_order \<Rightarrow> live_db \<Rightarrow> live_db" where
  "put_order now intentId ord db =
     db\<lparr>db_orders := (db_orders db)(intentId \<mapsto> \<lparr>ow_order = ord, ow_updatedAt = now\<rparr>)\<rparr>"

text \<open>\<^verbatim>\<open>updateMany\<close> on one order: the row is rewritten if it satisfies the predicate; the updated says so.\<close>

definition updateManyOrder ::
    "int \<Rightarrow> string \<Rightarrow> (live_order \<Rightarrow> bool) \<Rightarrow> (live_order \<Rightarrow> live_order) \<Rightarrow> live_db \<Rightarrow> nat \<times> live_db" where
  "updateManyOrder now intentId matches change db =
     (case db_orders db intentId of
        None \<Rightarrow> (0, db)
      | Some row \<Rightarrow>
          if matches (ow_order row) then (1, put_order now intentId (change (ow_order row)) db) else (0, db))"

text \<open>The predicate that pins the verified identity; decimals are compared as numbers.\<close>

definition pinned :: "live_order \<Rightarrow> string \<Rightarrow> live_order \<Rightarrow> bool" where
  "pinned current orderedQuantity row \<longleftrightarrow>
     lo_intentId row = lo_intentId current \<and> lo_state row = lo_state current
     \<and> lo_revision row = lo_revision current \<and> lo_clientOrderId row = lo_clientOrderId current
     \<and> lo_accountId row = lo_accountId current \<and> lo_pair row = lo_pair current
     \<and> text_value (lo_orderedQuantity row) = text_value orderedQuantity"

subsection \<open>Recording an intent\<close>

definition intentCreateData :: "live_env \<Rightarrow> intent_record \<Rightarrow> (thrown, intent_row) res" where
  "intentCreateData env intent =
     rbind (liveExecutionIntentContentSha256 (env_sha env) intent) (\<lambda>digest.
       Inr \<lparr>iw_intentId = ir_intentId intent, iw_clientOrderId = ir_clientOrderId intent,
            iw_contentSha256 = digest, iw_content = store_content env (ir_content intent),
            iw_wireOrderType = ir_wireOrderType intent,
            iw_sourceStrategyDecisionId = ll_sourceStrategyDecisionId (ir_lineage intent),
            iw_validationSubjectId = map_option rl_validationSubjectId (ll_researchApproval (ir_lineage intent)),
            iw_validationPlanId = map_option rl_validationPlanId (ll_researchApproval (ir_lineage intent)),
            iw_validationSubjectResultSha256 =
              map_option rl_validationSubjectResultSha256 (ll_researchApproval (ir_lineage intent))\<rparr>)"

definition assertStoredIntentMatches :: "live_env \<Rightarrow> intent_row \<Rightarrow> intent_record \<Rightarrow> (thrown, unit) res" where
  "assertStoredIntentMatches env stored intent =
     rbind (verifyStoredIntentIntegrity (env_sha env) stored) (\<lambda>verified.
     rbind (liveExecutionIntentContentSha256 (env_sha env) intent) (\<lambda>digest.
       if vi_digest verified \<noteq> digest then Inl (Live LIVE_INTENT_CONFLICT) else Inr ()))"

text \<open>The branch for an identity that is already stored.\<close>

definition resolveStoredIntent :: "live_env \<Rightarrow> intent_row \<Rightarrow> intent_record \<Rightarrow> live_db \<Rightarrow> (thrown, live_order) res" where
  "resolveStoredIntent env stored intent db =
     rbind (assertStoredIntentMatches env stored intent) (\<lambda>_.
     rbind (load env (ir_intentId intent) db) (\<lambda>order.
       case order of None \<Rightarrow> Inl (Live LIVE_PERSISTENCE_FAULT) | Some ord \<Rightarrow> Inr ord))"

text \<open>The transaction that inserts both rows, under the primary keys and unique indexes.\<close>

definition insertIntent ::
    "live_env \<Rightarrow> int \<Rightarrow> intent_record \<Rightarrow> live_order \<Rightarrow> live_db \<Rightarrow> (thrown, live_db) res" where
  "insertIntent env now intent initial db =
     rbind (intentCreateData env intent) (\<lambda>row.
       if db_intents db (ir_intentId intent) \<noteq> None
          \<or> db_intentOfClientOrder db (ir_clientOrderId intent) \<noteq> None
          \<or> db_orders db (ir_intentId intent) \<noteq> None
          \<or> db_orderOfClientOrder db (ir_clientOrderId intent) \<noteq> None
       then Inl UniqueViolation
       else Inr (put_order now (ir_intentId intent) (store_order env initial)
              (db\<lparr>db_intents := (db_intents db)(ir_intentId intent \<mapsto> row),
                  db_intentOfClientOrder := (db_intentOfClientOrder db)(ir_clientOrderId intent \<mapsto> ir_intentId intent),
                  db_orderOfClientOrder := (db_orderOfClientOrder db)(ir_clientOrderId intent \<mapsto> ir_intentId intent)\<rparr>)))"

definition ensureIntent :: "live_env \<Rightarrow> int \<Rightarrow> intent_record \<Rightarrow> live_db \<Rightarrow> (thrown, live_order \<times> live_db) res" where
  "ensureIntent env now intent db =
     (case db_intents db (ir_intentId intent) of
        Some existing \<Rightarrow> rbind (resolveStoredIntent env existing intent db) (\<lambda>ord. Inr (ord, db))
      | None \<Rightarrow>
          rbind (liveR (initialLiveOrderState (ir_intentId intent) (ir_clientOrderId intent)
                   (ic_accountId (ir_content intent)) (ic_pair (ir_content intent))
                   (ic_quantity (ir_content intent)))) (\<lambda>initial.
            case insertIntent env now intent initial db of
              Inr db' \<Rightarrow> Inr (initial, db')
            | Inl UniqueViolation \<Rightarrow>
                (case db_intents db (ir_intentId intent) of
                   None \<Rightarrow> Inl (Live LIVE_INTENT_CONFLICT)
                 | Some stored \<Rightarrow> rbind (resolveStoredIntent env stored intent db) (\<lambda>ord. Inr (ord, db)))
            | Inl e \<Rightarrow> Inl e))"

subsection \<open>Claiming a dispatch\<close>

text \<open>
  The OPEN half: one admission is consumed by one intent, durably and in the process-local
  coordinator. The coordinator is whatever state \<open>'k\<close> the callback \<open>consume\<close> works on; its change
  is not undone when the transaction rolls back, so it is returned on both sides.
\<close>

definition consumeAdmission ::
    "string \<Rightarrow> intent_content \<Rightarrow> ('k \<Rightarrow> bool \<times> 'k) option \<Rightarrow> live_db \<Rightarrow> 'k \<Rightarrow> (thrown, live_db) res \<times> 'k" where
  "consumeAdmission intentId intent consume db k =
     (case (ic_admissionId intent, consume) of
        (Some admissionId, Some consumeOpenAdmission) \<Rightarrow>
          (case db_consumptions db admissionId of
             Some existing \<Rightarrow>
               if cw_intentId existing \<noteq> intentId \<or> cw_accountId existing \<noteq> ic_accountId intent
                  \<or> cw_pair existing \<noteq> ic_pair intent \<or> cw_riskDecisionId existing \<noteq> ic_riskDecisionId intent
               then (Inl (Live LIVE_AUTHORITY_INVALID), k)
               else (case consumeOpenAdmission k of
                       (True, k') \<Rightarrow> (Inr db, k') | (False, k') \<Rightarrow> (Inl (Live LIVE_AUTHORITY_INVALID), k'))
           | None \<Rightarrow>
               if db_consumptionOfIntent db intentId \<noteq> None then (Inl UniqueViolation, k)
               else
                 let db' = db\<lparr>db_consumptions := (db_consumptions db)(admissionId \<mapsto>
                               \<lparr>cw_admissionId = admissionId, cw_intentId = intentId,
                                cw_accountId = ic_accountId intent, cw_pair = ic_pair intent,
                                cw_riskDecisionId = ic_riskDecisionId intent\<rparr>),
                             db_consumptionOfIntent := (db_consumptionOfIntent db)(intentId \<mapsto> admissionId)\<rparr>
                 in (case consumeOpenAdmission k of
                       (True, k') \<Rightarrow> (Inr db', k') | (False, k') \<Rightarrow> (Inl (Live LIVE_AUTHORITY_INVALID), k')))
      | _ \<Rightarrow> (Inl (Live LIVE_AUTHORITY_INVALID), k))"

text \<open>The CLOSE half: the position is still the one the intent was built for, and is only reduced.\<close>

definition checkClosePosition :: "decimal_js \<Rightarrow> intent_content \<Rightarrow> live_db \<Rightarrow> (thrown, unit) res" where
  "checkClosePosition D intent db =
     (case (ic_positionInstanceId intent, ic_positionRevision intent, ic_reduceOnlyQuantity intent) of
        (Some positionInstanceId, Some positionRevision, Some reduceOnlyQuantity) \<Rightarrow>
          (case db_positions db (ic_accountId intent, ic_pair intent) of
             None \<Rightarrow> Inl (Live LIVE_AUTHORITY_INVALID)
           | Some position \<Rightarrow>
               let reducingSide = (if pw_side position = LONG then SELL else BUY)
               in if pw_positionInstanceId position \<noteq> positionInstanceId
                     \<or> pw_revision position \<noteq> positionRevision
                     \<or> pw_instrumentSpecSnapshotId position \<noteq> ic_instrumentSpecSnapshotId intent
                     \<or> pw_ownerStrategyInstanceId position \<noteq> ic_strategyInstanceId intent
                     \<or> pw_ownerStrategyId position \<noteq> ic_strategyId intent
                     \<or> pw_ownerStrategyVersion position \<noteq> ic_strategyVersion intent
                     \<or> pw_ownerParameterHash position \<noteq> ic_parameterHash intent
                     \<or> reducingSide \<noteq> ic_side intent
                  then Inl (Live LIVE_AUTHORITY_INVALID)
                  else
                    rbind (liveR (canonicalLiveDecimalString (Some reduceOnlyQuantity))) (\<lambda>a.
                    rbind (liveR (canonicalLiveDecimalString (Some (ic_quantity intent)))) (\<lambda>b.
                      if a \<noteq> b then Inl (Live LIVE_AUTHORITY_INVALID)
                      else
                        rbind (liveR (liveDecimal D (ic_quantity intent))) (\<lambda>x.
                        rbind (liveR (liveDecimal D (pw_quantity position))) (\<lambda>y.
                          if x > y then Inl (Live LIVE_AUTHORITY_INVALID) else Inr ())))))
      | _ \<Rightarrow> Inl (Live LIVE_AUTHORITY_INVALID))"

definition reserveOrderRow ::
    "int \<Rightarrow> string \<Rightarrow> live_order \<Rightarrow> live_db \<Rightarrow> (thrown, nat \<times> live_db) res" where
  "reserveOrderRow now intentId current db =
     rbind (liveR (canonicalLiveDecimalString (Some (lo_orderedQuantity current)))) (\<lambda>q.
       Inr (updateManyOrder now intentId (\<lambda>row. lo_state row = CREATED \<and> pinned current q row)
              (\<lambda>row. row\<lparr>lo_state := DISPATCH_RESERVED, lo_revision := lo_revision row + 1\<rparr>) db))"

definition claimDispatchTx ::
    "live_env \<Rightarrow> int \<Rightarrow> string \<Rightarrow> ('k \<Rightarrow> bool \<times> 'k) option \<Rightarrow> live_db \<Rightarrow> 'k \<Rightarrow> (thrown, nat \<times> live_db) res \<times> 'k" where
  "claimDispatchTx env now intentId consume db k =
     (case requireVerifiedOrder (env_sha env) LIVE_PERSISTENCE_FAULT db intentId of
        Inl e \<Rightarrow> (Inl e, k)
      | Inr (current, verifiedIntent) \<Rightarrow>
          if lo_state current \<noteq> CREATED then (Inr (0, db), k)
          else
            let intent = ir_content (vi_intent verifiedIntent)
            in if ic_action intent = OPEN then
                 (case consumeAdmission intentId intent consume db k of
                    (Inl e, k') \<Rightarrow> (Inl e, k')
                  | (Inr db', k') \<Rightarrow> (reserveOrderRow now intentId current db', k'))
               else
                 (rbind (checkClosePosition (env_decimal env) intent db)
                    (\<lambda>_. reserveOrderRow now intentId current db), k))"

datatype claim_dispatch = DISPATCH_CLAIMED live_order | DISPATCH_ALREADY_CLAIMED live_order

text \<open>The re-reading after a lost race for the admission.\<close>

definition resolveLostClaim :: "live_env \<Rightarrow> string \<Rightarrow> live_db \<Rightarrow> (thrown, claim_dispatch) res" where
  "resolveLostClaim env intentId db =
     rbind (load env intentId db) (\<lambda>order.
     rbind (case db_intents db intentId of
              None \<Rightarrow> Inr None
            | Some row \<Rightarrow> rbind (verifyStoredIntentIntegrity (env_sha env) row)
                            (\<lambda>v. Inr (Some (ir_content (vi_intent v))))) (\<lambda>intent.
       let consumption = (case db_consumptionOfIntent db intentId of
                            None \<Rightarrow> None | Some a \<Rightarrow> db_consumptions db a)
       in case (intent, order, consumption) of
            (Some c, Some ord, Some w) \<Rightarrow>
              if ic_admissionId c \<noteq> None \<and> cw_intentId w = intentId
                 \<and> Some (cw_admissionId w) = ic_admissionId c \<and> cw_accountId w = ic_accountId c
                 \<and> cw_pair w = ic_pair c \<and> cw_riskDecisionId w = ic_riskDecisionId c
              then Inr (DISPATCH_ALREADY_CLAIMED ord)
              else Inl (Live LIVE_AUTHORITY_INVALID)
          | _ \<Rightarrow> Inl (Live LIVE_AUTHORITY_INVALID)))"

text \<open>What the caller learns after the transaction, from a fresh verified read.\<close>

definition claimOutcome :: "live_env \<Rightarrow> string \<Rightarrow> nat \<Rightarrow> live_db \<Rightarrow> (thrown, claim_dispatch) res" where
  "claimOutcome env intentId updated db =
     rbind (load env intentId db) (\<lambda>order.
       case order of
         None \<Rightarrow> Inl (Live LIVE_PERSISTENCE_FAULT)
       | Some ord \<Rightarrow> Inr (if updated = 1 then DISPATCH_CLAIMED ord else DISPATCH_ALREADY_CLAIMED ord))"

definition claimDispatch ::
    "live_env \<Rightarrow> int \<Rightarrow> string \<Rightarrow> ('k \<Rightarrow> bool \<times> 'k) option \<Rightarrow> live_db \<Rightarrow> 'k
     \<Rightarrow> (thrown, claim_dispatch) res \<times> live_db \<times> 'k" where
  "claimDispatch env now intentId consume db k =
     (case claimDispatchTx env now intentId consume db k of
        (Inr (updated, db'), k') \<Rightarrow> (claimOutcome env intentId updated db', db', k')
      | (Inl UniqueViolation, k') \<Rightarrow> (resolveLostClaim env intentId db, db, k')
      | (Inl e, k') \<Rightarrow> (Inl e, db, k'))"

subsection \<open>Committing a computed state\<close>

text \<open>The columns a commit writes; the immutable mirrors are never written again.\<close>

definition commit_columns :: "live_env \<Rightarrow> live_order \<Rightarrow> live_order \<Rightarrow> live_order" where
  "commit_columns env nxt row =
     row\<lparr>lo_state := lo_state nxt, lo_exchangeOrderId := lo_exchangeOrderId nxt,
         lo_cumulativeFilledQuantity := env_stored env (lo_cumulativeFilledQuantity nxt),
         lo_remainingQuantity := env_stored env (lo_remainingQuantity nxt),
         lo_averageFillPrice := map_option (env_stored env) (lo_averageFillPrice nxt),
         lo_lastExchangeStatus := lo_lastExchangeStatus nxt,
         lo_lastProviderEventTimeMs := lo_lastProviderEventTimeMs nxt,
         lo_faultCode := lo_faultCode nxt, lo_cancelState := lo_cancelState nxt,
         lo_cancelGeneration := lo_cancelGeneration nxt,
         lo_cancelExchangeOrderId := lo_cancelExchangeOrderId nxt,
         lo_cancelFaultCode := lo_cancelFaultCode nxt, lo_revision := lo_revision nxt\<rparr>"

definition commitState ::
    "live_env \<Rightarrow> int \<Rightarrow> live_order \<Rightarrow> int \<Rightarrow> live_db \<Rightarrow> (thrown, live_order \<times> live_db) res" where
  "commitState env now nxt expectedRevision db =
     rbind (requireVerifiedOrder (env_sha env) LIVE_ORDER_STATE_CONFLICT db (lo_intentId nxt)) (\<lambda>(current, verified).
     rbind (assertOrderProjectionMatchesIntent nxt verified) (\<lambda>_.
       if lo_revision current \<noteq> expectedRevision then Inl (Live LIVE_ORDER_STATE_CONFLICT)
       else
         rbind (liveR (canonicalLiveDecimalString (Some (lo_orderedQuantity current)))) (\<lambda>q.
           let (updated, db') = updateManyOrder now (lo_intentId current)
                 (\<lambda>row. lo_revision row = expectedRevision \<and> pinned current q row) (commit_columns env nxt) db
           in if updated \<noteq> 1 then Inl (Live LIVE_ORDER_STATE_CONFLICT)
              else
                rbind (requireVerifiedOrder (env_sha env) LIVE_PERSISTENCE_FAULT db' (lo_intentId nxt))
                  (\<lambda>(committed, _). Inr (committed, db')))))"

subsection \<open>Folding an observation\<close>

definition observation_columns :: "live_env \<Rightarrow> live_order \<Rightarrow> live_order \<Rightarrow> live_order" where
  "observation_columns env nxt row =
     row\<lparr>lo_state := lo_state nxt, lo_exchangeOrderId := lo_exchangeOrderId nxt,
         lo_cumulativeFilledQuantity := env_stored env (lo_cumulativeFilledQuantity nxt),
         lo_remainingQuantity := env_stored env (lo_remainingQuantity nxt),
         lo_averageFillPrice := map_option (env_stored env) (lo_averageFillPrice nxt),
         lo_lastExchangeStatus := lo_lastExchangeStatus nxt,
         lo_lastProviderEventTimeMs := lo_lastProviderEventTimeMs nxt,
         lo_faultCode := lo_faultCode nxt, lo_revision := lo_revision nxt\<rparr>"

definition applyObservationAtomically ::
    "live_env \<Rightarrow> int \<Rightarrow> string \<Rightarrow> observation \<Rightarrow> live_db \<Rightarrow> (thrown, live_order \<times> live_db) res" where
  "applyObservationAtomically env now intentId ob db =
     rbind (requireVerifiedOrder (env_sha env) LIVE_PERSISTENCE_FAULT db intentId) (\<lambda>(current, verified).
       if ob_side ob \<noteq> ic_side (ir_content (vi_intent verified)) then Inl (Live LIVE_ORDER_IDENTITY_MISMATCH)
       else
         rbind (liveR (applyLiveOrderObservation (env_decimal env) current ob)) (\<lambda>application.
         rbind (observationSha256 (env_sha env) ob) (\<lambda>digest.
           if (intentId, digest) \<in> db_events db then Inr (current, db)
           else
             let db' = db\<lparr>db_events := insert (intentId, digest) (db_events db)\<rparr>
             in case application of
                  APPLIED nxt \<Rightarrow>
                    (case db_orders db' intentId of
                       None \<Rightarrow> Inl (Live LIVE_PERSISTENCE_FAULT)
                     | Some row \<Rightarrow>
                         Inr (nxt, put_order now intentId (observation_columns env nxt (ow_order row)) db'))
                | _ \<Rightarrow> Inr (current, db'))))"

subsection \<open>Cancelling\<close>

datatype claim_cancel =
    CANCEL_CLAIMED live_order int
  | CANCEL_ALREADY_CLAIMED live_order int
  | CANCEL_NOT_CANCELLABLE live_order int

definition NOT_CANCELLABLE_STATES :: "order_state list" where
  "NOT_CANCELLABLE_STATES =
     [CREATED, DISPATCH_RESERVED, ST_SUBMISSION_AMBIGUOUS, FILLED, CANCELLED, REJECTED, RECONCILIATION_REQUIRED]"

definition claimCancel ::
    "live_env \<Rightarrow> int \<Rightarrow> string \<Rightarrow> string \<Rightarrow> live_db \<Rightarrow> (thrown, claim_cancel \<times> live_db) res" where
  "claimCancel env now intentId trustedAccountId db =
     rbind (requireVerifiedOrder (env_sha env) LIVE_INTENT_INVALID db intentId) (\<lambda>(current, verified).
       if lo_accountId current \<noteq> trustedAccountId then Inl (Live LIVE_AUTHORITY_INVALID)
       else if List.member NOT_CANCELLABLE_STATES (lo_state current)
       then Inr (CANCEL_NOT_CANCELLABLE current (lo_cancelGeneration current), db)
       else if lo_exchangeOrderId current = None then Inl (Live LIVE_ORDER_IDENTITY_MISMATCH)
       else if lo_cancelState current \<noteq> NONE
       then Inr (CANCEL_ALREADY_CLAIMED current (lo_cancelGeneration current), db)
       else
         let generation = lo_cancelGeneration current + 1
         in case db_orders db intentId of
              None \<Rightarrow> Inl (Live LIVE_PERSISTENCE_FAULT)
            | Some row \<Rightarrow>
                let ord = (ow_order row)
                      \<lparr>lo_state := CANCEL_REQUESTED, lo_cancelState := CANCEL_RESERVED,
                       lo_cancelGeneration := generation, lo_cancelExchangeOrderId := lo_exchangeOrderId current,
                       lo_cancelFaultCode := None, lo_revision := lo_revision (ow_order row) + 1\<rparr>
                in rbind (liveR (toStateRecord \<lparr>ow_order = ord, ow_updatedAt = now\<rparr>)) (\<lambda>claimed.
                   rbind (assertOrderProjectionMatchesIntent claimed verified) (\<lambda>_.
                     Inr (CANCEL_CLAIMED claimed generation, put_order now intentId ord db))))"

datatype cancel_completion = CC_ACKNOWLEDGED | CC_AMBIGUOUS | CC_REJECTED

primrec completion_state :: "cancel_completion \<Rightarrow> cancel_state" where
  "completion_state CC_ACKNOWLEDGED = CANCEL_ACKNOWLEDGED"
| "completion_state CC_AMBIGUOUS = CANCEL_AMBIGUOUS"
| "completion_state CC_REJECTED = CANCEL_REJECTED"

definition completeCancelAttempt ::
    "live_env \<Rightarrow> int \<Rightarrow> string \<Rightarrow> int \<Rightarrow> cancel_completion \<Rightarrow> fault option \<Rightarrow> live_db
     \<Rightarrow> (thrown, live_order \<times> live_db) res" where
  "completeCancelAttempt env now intentId generation outcome faultCode db =
     rbind (requireVerifiedOrder (env_sha env) LIVE_PERSISTENCE_FAULT db intentId) (\<lambda>(current, verified).
       let cancelState = completion_state outcome
       in if lo_cancelGeneration current = generation \<and> lo_cancelState current = cancelState
          then Inr (current, db)
          else if lo_cancelGeneration current \<noteq> generation \<or> lo_cancelState current \<noteq> CANCEL_RESERVED
          then Inl (Live LIVE_ORDER_STATE_CONFLICT)
          else
            rbind (liveR (canonicalLiveDecimalString (Some (lo_orderedQuantity current)))) (\<lambda>q.
              let (updated, db') = updateManyOrder now intentId
                    (\<lambda>row. pinned current q row \<and> lo_cancelGeneration row = generation
                           \<and> lo_cancelState row = CANCEL_RESERVED)
                    (\<lambda>row. (if outcome = CC_AMBIGUOUS
                             then row\<lparr>lo_faultCode := Some (Code LIVE_CANCEL_AMBIGUOUS)\<rparr> else row)
                           \<lparr>lo_cancelState := cancelState, lo_cancelFaultCode := faultCode,
                            lo_revision := lo_revision row + 1\<rparr>) db
              in if updated \<noteq> 1 then Inl (Live LIVE_ORDER_STATE_CONFLICT)
                 else
                   rbind (requireVerifiedOrder (env_sha env) LIVE_PERSISTENCE_FAULT db' intentId)
                     (\<lambda>(committed, _). Inr (committed, db'))))"

subsection \<open>Restart recovery and the remaining reads\<close>

definition markExpiredDispatchUnresolved ::
    "live_env \<Rightarrow> int \<Rightarrow> string \<Rightarrow> string \<Rightarrow> int \<Rightarrow> live_db \<Rightarrow> (thrown, live_order \<times> live_db) res" where
  "markExpiredDispatchUnresolved env now intentId trustedAccountId cutoff db =
     rbind (requireVerifiedOrder (env_sha env) LIVE_INTENT_INVALID db intentId) (\<lambda>(current, verified).
       case db_orders db intentId of
         None \<Rightarrow> Inl (Live LIVE_INTENT_INVALID)
       | Some row \<Rightarrow>
           if lo_accountId current \<noteq> trustedAccountId then Inl (Live LIVE_AUTHORITY_INVALID)
           else if lo_state current \<noteq> DISPATCH_RESERVED \<or> ow_updatedAt row > cutoff then Inr (current, db)
           else
             let ord = (ow_order row)\<lparr>lo_state := ST_SUBMISSION_AMBIGUOUS,
                          lo_faultCode := Some (Code LIVE_SUBMISSION_AMBIGUOUS),
                          lo_revision := lo_revision (ow_order row) + 1\<rparr>
             in rbind (liveR (toStateRecord \<lparr>ow_order = ord, ow_updatedAt = now\<rparr>)) (\<lambda>unresolved.
                rbind (assertOrderProjectionMatchesIntent unresolved verified) (\<lambda>_.
                  Inr (unresolved, put_order now intentId ord db))))"

record observation_identity =
  oi_intentId :: string
  oi_accountId :: string
  oi_clientOrderId :: string
  oi_pair :: string
  oi_side :: order_side
  oi_wireOrderType :: string
  oi_quantity :: string
  oi_price :: "string option"
  oi_settlementRateInrPerQuote :: "string option"
  oi_marginCurrencyShortName :: string

definition loadObservationIdentity ::
    "live_env \<Rightarrow> string \<Rightarrow> live_db \<Rightarrow> (thrown, observation_identity option) res" where
  "loadObservationIdentity env intentId db =
     (case db_intents db intentId of
        None \<Rightarrow> Inr None
      | Some row \<Rightarrow>
          rbind (verifyStoredIntentIntegrity (env_sha env) row) (\<lambda>v.
            let intent = vi_intent v; c = ir_content intent
            in Inr (Some \<lparr>oi_intentId = ir_intentId intent, oi_accountId = ic_accountId c,
                          oi_clientOrderId = ir_clientOrderId intent, oi_pair = ic_pair c, oi_side = ic_side c,
                          oi_wireOrderType = ir_wireOrderType intent, oi_quantity = ic_quantity c,
                          oi_price = ic_price c,
                          oi_settlementRateInrPerQuote = ic_settlementRateInrPerQuote c,
                          oi_marginCurrencyShortName = ''INR''\<rparr>)))"

record position_ownership =
  po_accountId :: string
  po_pair :: string
  po_positionInstanceId :: string
  po_positionRevision :: int
  po_side :: position_side
  po_ownedQuantity :: string
  po_instrumentSpecSnapshotId :: string
  po_ownerStrategyInstanceId :: string
  po_ownerStrategyId :: string
  po_ownerStrategyVersion :: string
  po_ownerParameterHash :: string

definition loadPositionOwnership :: "string \<Rightarrow> string \<Rightarrow> live_db \<Rightarrow> position_ownership option" where
  "loadPositionOwnership accountId pair db =
     map_option (\<lambda>row. \<lparr>po_accountId = accountId, po_pair = pair,
         po_positionInstanceId = pw_positionInstanceId row, po_positionRevision = pw_revision row,
         po_side = pw_side row, po_ownedQuantity = pw_quantity row,
         po_instrumentSpecSnapshotId = pw_instrumentSpecSnapshotId row,
         po_ownerStrategyInstanceId = pw_ownerStrategyInstanceId row,
         po_ownerStrategyId = pw_ownerStrategyId row, po_ownerStrategyVersion = pw_ownerStrategyVersion row,
         po_ownerParameterHash = pw_ownerParameterHash row\<rparr>)
       (db_positions db (accountId, pair))"

text \<open>\<^verbatim>\<open>src/execution/live/position-ownership.ts\<close>\<close>

definition requireAuthoritativeLivePosition ::
    "string \<Rightarrow> string \<Rightarrow> live_db \<Rightarrow> (live_code, position_ownership) res" where
  "requireAuthoritativeLivePosition accountId pair db =
     (case loadPositionOwnership accountId pair db of
        None \<Rightarrow> Inl LIVE_POSITION_NOT_AVAILABLE
      | Some position \<Rightarrow> Inr position)"

end
