(* ===== verification/Live_Store.thy ===== *)
theory Live_Store
  imports Live_Repository
begin

section \<open>What the repository keeps of its rows\<close>

text \<open>
  The guarantees of \<^verbatim>\<open>src/execution/live/repository.ts\<close> that its callers rest on, one lemma per
  operation: which row an operation writes and how, that the immutable columns of an order never
  change, that every change raises the revision, that intents, consumptions and events are only
  ever added, and that an admission belongs to one intent.
\<close>

subsection \<open>Rows only move forward\<close>

definition same_mirrors :: "live_order \<Rightarrow> live_order \<Rightarrow> bool" where
  "same_mirrors a b \<longleftrightarrow>
     lo_intentId b = lo_intentId a \<and> lo_clientOrderId b = lo_clientOrderId a
     \<and> lo_accountId b = lo_accountId a \<and> lo_pair b = lo_pair a
     \<and> lo_orderedQuantity b = lo_orderedQuantity a"

definition row_advances :: "live_order \<Rightarrow> live_order \<Rightarrow> bool" where
  "row_advances a b \<longleftrightarrow> same_mirrors a b \<and> (b = a \<or> lo_revision a < lo_revision b)"

definition order_of :: "live_db \<Rightarrow> string \<Rightarrow> live_order option" where
  "order_of db intentId = map_option ow_order (db_orders db intentId)"

definition db_advances :: "live_db \<Rightarrow> live_db \<Rightarrow> bool" where
  "db_advances db db' \<longleftrightarrow>
     (\<forall>i a. order_of db i = Some a \<longrightarrow> (\<exists>b. order_of db' i = Some b \<and> row_advances a b))
     \<and> db_intents db \<subseteq>\<^sub>m db_intents db' \<and> db_consumptions db \<subseteq>\<^sub>m db_consumptions db'
     \<and> db_events db \<subseteq> db_events db' \<and> db_positions db' = db_positions db"

lemma same_mirrors_refl [simp]: "same_mirrors a a"
  by (simp add: same_mirrors_def)

lemma row_advances_refl [simp]: "row_advances a a"
  by (simp add: row_advances_def)

lemma row_advances_trans: "row_advances a b \<Longrightarrow> row_advances b c \<Longrightarrow> row_advances a c"
  by (auto simp: row_advances_def same_mirrors_def)

lemma db_advances_refl [simp]: "db_advances db db"
  by (auto simp: db_advances_def)

lemma db_advances_trans: "db_advances x y \<Longrightarrow> db_advances y z \<Longrightarrow> db_advances x z"
  unfolding db_advances_def by (metis (no_types, opaque_lifting) map_le_trans row_advances_trans subset_trans)

lemma db_advances_row:
  assumes "db_advances db db'" and "order_of db i = Some a"
  obtains b where "order_of db' i = Some b" and "row_advances a b"
  using assms unfolding db_advances_def by blast

lemma order_of_put [simp]:
  "order_of (put_order now i ord db) j = (if j = i then Some ord else order_of db j)"
  by (simp add: order_of_def put_order_def)

lemma order_of_Some: "order_of db i = Some a \<longleftrightarrow> (\<exists>row. db_orders db i = Some row \<and> ow_order row = a)"
  by (auto simp: order_of_def)

lemma put_order_other [simp]:
  "db_intents (put_order now i ord db) = db_intents db"
  "db_consumptions (put_order now i ord db) = db_consumptions db"
  "db_consumptionOfIntent (put_order now i ord db) = db_consumptionOfIntent db"
  "db_events (put_order now i ord db) = db_events db"
  "db_positions (put_order now i ord db) = db_positions db"
  by (simp_all add: put_order_def)

lemma order_of_other_tables [simp]:
  "order_of (db\<lparr>db_events := e\<rparr>) = order_of db"
  "order_of (db\<lparr>db_consumptions := c, db_consumptionOfIntent := u\<rparr>) = order_of db"
  by (simp_all add: order_of_def fun_eq_iff)

lemma put_order_advances:
  assumes "order_of db i = Some a" and "row_advances a b"
  shows "db_advances db (put_order now i b db)"
  using assms by (auto simp: db_advances_def)

subsection \<open>Verified reads\<close>

lemma liveR_ok [simp]: "liveR (Inr x) = Inr x" "liveR (Inl e) = Inl (Live e)"
  by (simp_all add: liveR_def)

lemma toStateRecord_Inr: "toStateRecord row = Inr ord \<Longrightarrow> ord = ow_order row"
  by (cases row) (auto simp: toStateRecord_def bigIntToNumber_def rbind_eq_Inr split: option.splits if_splits)

lemma verify_Inr:
  "verifyStoredIntentIntegrity sha row = Inr v \<longleftrightarrow>
     liveExecutionIntentContentSha256 sha (reconstructStoredIntent row) = Inr (iw_contentSha256 row)
     \<and> v = \<lparr>vi_intent = reconstructStoredIntent row, vi_digest = iw_contentSha256 row\<rparr>"
  by (auto simp: verifyStoredIntentIntegrity_def split: sum.splits)

lemma read_Inr:
  assumes "readVerifiedOrder sha db i = Inr (Some (ord, v))"
  shows "order_of db i = Some ord"
    and "\<exists>row. db_intents db i = Some row \<and> verifyStoredIntentIntegrity sha row = Inr v"
    and "assertOrderProjectionMatchesIntent ord v = Inr ()"
  using assms
  by (auto simp: readVerifiedOrder_def rbind_eq_Inr order_of_def split: option.splits dest: toStateRecord_Inr)

lemma require_Inr:
  assumes "requireVerifiedOrder sha e db i = Inr (ord, v)"
  shows "order_of db i = Some ord"
    and "\<exists>row. db_intents db i = Some row \<and> verifyStoredIntentIntegrity sha row = Inr v"
    and "assertOrderProjectionMatchesIntent ord v = Inr ()"
  using assms read_Inr[of sha db i ord v]
  by (auto simp: requireVerifiedOrder_def rbind_eq_Inr split: option.splits)

lemma load_Inr: "load env i db = Inr (Some ord) \<Longrightarrow> order_of db i = Some ord"
  using read_Inr(1) by (auto simp: load_def rbind_eq_Inr)

lemma updateMany_cases:
  assumes "updateManyOrder now i P f db = (n, db')"
  shows "n = 0 \<and> db' = db \<or>
    n = 1 \<and> (\<exists>a. order_of db i = Some a \<and> P a \<and> db' = put_order now i (f a) db)"
  using assms by (auto simp: updateManyOrder_def order_of_def split: option.splits if_splits)

subsection \<open>Recording an intent\<close>

lemma insertIntent_Inr:
  assumes "insertIntent env now intent initial db = Inr db'"
  shows "db_intents db (ir_intentId intent) = None" and "db_orders db (ir_intentId intent) = None"
    and "\<exists>row. intentCreateData env intent = Inr row \<and> db_intents db' = (db_intents db)(ir_intentId intent \<mapsto> row)"
    and "order_of db' j = (if j = ir_intentId intent then Some (store_order env initial) else order_of db j)"
    and "db_consumptions db' = db_consumptions db" and "db_consumptionOfIntent db' = db_consumptionOfIntent db"
    and "db_events db' = db_events db" and "db_positions db' = db_positions db"
  using assms by (auto simp: insertIntent_def rbind_eq_Inr order_of_def put_order_def split: if_splits)

lemma ensureIntent_cases:
  assumes "ensureIntent env now intent db = Inr (ord, db')"
  shows "db' = db \<and> order_of db (ir_intentId intent) = Some ord
    \<or> db_intents db (ir_intentId intent) = None
      \<and> initialLiveOrderState (ir_intentId intent) (ir_clientOrderId intent)
          (ic_accountId (ir_content intent)) (ic_pair (ir_content intent)) (ic_quantity (ir_content intent)) = Inr ord
      \<and> insertIntent env now intent ord db = Inr db'"
proof -
  have stored: "order_of db (ir_intentId intent) = Some ord" if "resolveStoredIntent env s intent db = Inr ord" for s
    using that by (auto simp: resolveStoredIntent_def rbind_eq_Inr split: option.splits dest: load_Inr)
  show ?thesis
  proof (cases "db_intents db (ir_intentId intent)")
    case (Some existing)
    then show ?thesis
      using assms stored[of existing]
      by (cases "resolveStoredIntent env existing intent db") (auto simp: ensureIntent_def)
  next
    case None
    then obtain initial where i: "initialLiveOrderState (ir_intentId intent) (ir_clientOrderId intent)
          (ic_accountId (ir_content intent)) (ic_pair (ir_content intent)) (ic_quantity (ir_content intent)) = Inr initial"
      using assms by (auto simp: ensureIntent_def rbind_eq_Inr liveR_Inr)
    from None i assms show ?thesis
      by (cases "insertIntent env now intent initial db")
        (auto simp: ensureIntent_def liveR_Inr split: thrown.splits)
  qed
qed

lemma ensureIntent_advances:
  assumes "ensureIntent env now intent db = Inr (ord, db')"
  shows "db_advances db db'"
  using ensureIntent_cases[OF assms]
proof
  assume "db_intents db (ir_intentId intent) = None
      \<and> initialLiveOrderState (ir_intentId intent) (ir_clientOrderId intent)
          (ic_accountId (ir_content intent)) (ic_pair (ir_content intent)) (ic_quantity (ir_content intent)) = Inr ord
      \<and> insertIntent env now intent ord db = Inr db'"
  note ins = insertIntent_Inr[of env now intent ord db db', OF conjunct2[OF conjunct2[OF this]]]
  show ?thesis
    using ins by (auto simp: db_advances_def map_le_def order_of_def)
qed simp

subsection \<open>Claiming a dispatch\<close>

lemma consumeAdmission_Inr:
  assumes "consumeAdmission i c consume db k = (Inr db', k')"
  shows "order_of db' = order_of db" and "db_advances db db'" and "db_intents db' = db_intents db"
    and "\<exists>a w. ic_admissionId c = Some a \<and> db_consumptions db' a = Some w \<and> cw_intentId w = i
           \<and> cw_accountId w = ic_accountId c \<and> cw_pair w = ic_pair c \<and> cw_riskDecisionId w = ic_riskDecisionId c"
    and "\<exists>f. consume = Some f \<and> f k = (True, k')"
  using assms
  by (auto simp: consumeAdmission_def Let_def db_advances_def map_le_def
      split: option.splits if_splits prod.splits bool.splits)

lemma canonical_value:
  assumes "canonicalLiveDecimalString (Some s) = Inr t"
  shows "text_value t = text_value s"
  using assms by (auto simp: canonical_eq_Inr normalize_text_value)

lemma reserveOrderRow_Inr:
  assumes "reserveOrderRow now i current db = Inr (n, db')" and "order_of db i = Some current"
    and "lo_state current = CREATED"
  shows "n = 1 \<and> db' = put_order now i (current\<lparr>lo_state := DISPATCH_RESERVED, lo_revision := lo_revision current + 1\<rparr>) db"
  using assms
  by (auto simp: reserveOrderRow_def rbind_eq_Inr updateManyOrder_def pinned_def order_of_def canonical_value
      split: option.splits if_splits)

definition reserved_row :: "live_order \<Rightarrow> live_order" where
  "reserved_row a = a\<lparr>lo_state := DISPATCH_RESERVED, lo_revision := lo_revision a + 1\<rparr>"

lemma reserved_row_advances: "row_advances a (reserved_row a)"
  by (simp add: row_advances_def same_mirrors_def reserved_row_def)

text \<open>The claim either finds the order past CREATED and writes nothing, or reserves it.\<close>

lemma claimDispatchTx_Inr:
  assumes "claimDispatchTx env now i consume db k = (Inr (n, db'), k')"
  obtains (lost) a where "n = 0" "db' = db" "k' = k" "order_of db i = Some a" "lo_state a \<noteq> CREATED"
  | (reserved) a v db1 where "n = 1" "order_of db i = Some a" "lo_state a = CREATED"
      "requireVerifiedOrder (env_sha env) LIVE_PERSISTENCE_FAULT db i = Inr (a, v)"
      "order_of db1 = order_of db" "db_advances db db1" "db_intents db1 = db_intents db"
      "db' = put_order now i (reserved_row a) db1"
      "ic_action (ir_content (vi_intent v)) = OPEN \<Longrightarrow> consumeAdmission i (ir_content (vi_intent v)) consume db k = (Inr db1, k')"
      "ic_action (ir_content (vi_intent v)) \<noteq> OPEN \<Longrightarrow>
         db1 = db \<and> k' = k \<and> checkClosePosition (env_decimal env) (ir_content (vi_intent v)) db = Inr ()"
proof -
  obtain a v where req: "requireVerifiedOrder (env_sha env) LIVE_PERSISTENCE_FAULT db i = Inr (a, v)"
    using assms by (auto simp: claimDispatchTx_def split: sum.splits)
  note a = require_Inr(1)[OF req]
  let ?c = "ir_content (vi_intent v)"
  show thesis
  proof (cases "lo_state a = CREATED")
    case False
    then show thesis using assms a req by (intro lost) (auto simp: claimDispatchTx_def)
  next
    case True
    show thesis
    proof (cases "ic_action ?c = OPEN")
      case o: True
      then obtain db1 where c: "consumeAdmission i ?c consume db k = (Inr db1, k')"
          and r: "reserveOrderRow now i a db1 = Inr (n, db')"
        using assms req True by (auto simp: claimDispatchTx_def Let_def split: prod.splits sum.splits)
      note f = consumeAdmission_Inr[OF c]
      have "order_of db1 i = Some a" using a f(1) by simp
      from reserveOrderRow_Inr[OF r this True] show thesis
        using a True req f c o by (intro reserved[of a v db1]) (auto simp: reserved_row_def)
    next
      case o: False
      then have r: "reserveOrderRow now i a db = Inr (n, db')" and k: "k' = k"
          and ck: "checkClosePosition (env_decimal env) ?c db = Inr ()"
        using assms req True by (auto simp: claimDispatchTx_def Let_def rbind_eq_Inr)
      from reserveOrderRow_Inr[OF r a True] show thesis
        using a True req o k ck by (intro reserved[of a v db]) (auto simp: reserved_row_def)
    qed
  qed
qed

lemma claimDispatchTx_advances:
  assumes "claimDispatchTx env now i consume db k = (Inr (n, db'), k')"
  shows "db_advances db db'"
  using assms
proof (cases rule: claimDispatchTx_Inr)
  case (reserved a v db1)
  then have "order_of db1 i = Some a" by simp
  from put_order_advances[OF this reserved_row_advances] reserved show ?thesis
    by (auto intro: db_advances_trans)
qed simp

subsection \<open>The other writes\<close>

lemma commitState_Inr:
  assumes "commitState env now nxt r0 db = Inr (ord, db')"
  shows "\<exists>a. order_of db (lo_intentId nxt) = Some a \<and> lo_revision a = r0 \<and> lo_intentId a = lo_intentId nxt
    \<and> db' = put_order now (lo_intentId nxt) (commit_columns env nxt a) db
    \<and> ord = commit_columns env nxt a"
proof -
  obtain a v where req: "requireVerifiedOrder (env_sha env) LIVE_ORDER_STATE_CONFLICT db (lo_intentId nxt) = Inr (a, v)"
    using assms by (auto simp: commitState_def rbind_eq_Inr)
  note a = require_Inr[OF req]
  let ?u = "\<lambda>q. updateManyOrder now (lo_intentId a) (\<lambda>row. lo_revision row = r0 \<and> pinned a q row) (commit_columns env nxt) db"
  obtain q where "lo_revision a = r0" "assertOrderProjectionMatchesIntent nxt v = Inr ()"
      "(let (updated, db') = ?u q in if updated \<noteq> 1 then Inl (Live LIVE_ORDER_STATE_CONFLICT)
        else rbind (requireVerifiedOrder (env_sha env) LIVE_PERSISTENCE_FAULT db' (lo_intentId nxt))
               (\<lambda>(committed, _). Inr (committed, db'))) = Inr (ord, db')"
    using assms req unfolding commitState_def by (auto elim!: rbindE split: if_splits)
  then obtain n v' where n: "lo_revision a = r0" "assertOrderProjectionMatchesIntent nxt v = Inr ()"
      "?u q = (n, db')" "n = 1"
      "requireVerifiedOrder (env_sha env) LIVE_PERSISTENCE_FAULT db' (lo_intentId nxt) = Inr (ord, v')"
    by (cases "?u q") (auto elim!: rbindE split: if_splits)
  have id: "lo_intentId a = lo_intentId nxt"
    using n(2) a(3) by (auto simp: assertOrderProjectionMatchesIntent_def Let_def split: if_splits)
  from updateMany_cases[OF n(3)] n(4) id a(1)
  have "db' = put_order now (lo_intentId nxt) (commit_columns env nxt a) db" by auto
  with require_Inr(1)[OF n(5)] a(1) n(1) id show ?thesis by auto
qed

lemma commitState_advances:
  assumes "commitState env now nxt r0 db = Inr (ord, db')" and "r0 < lo_revision nxt"
  shows "db_advances db db'"
proof -
  obtain a where a: "order_of db (lo_intentId nxt) = Some a" "lo_revision a = r0"
      "db' = put_order now (lo_intentId nxt) (commit_columns env nxt a) db"
    using commitState_Inr[OF assms(1)] by blast
  have "row_advances a (commit_columns env nxt a)"
    using assms(2) a(2) by (simp add: row_advances_def same_mirrors_def commit_columns_def)
  with a show ?thesis by (simp add: put_order_advances)
qed

lemma settled_revision:
  assumes "settleObservation D current ob q r c av s = Inr (APPLIED nxt)"
  shows "lo_revision nxt = lo_revision current + 1 \<and> lo_cancelState nxt = lo_cancelState current
    \<and> (lo_state nxt = CREATED \<longrightarrow> s = CREATED \<or> lo_state current = CREATED)"
  using assms
  by (auto simp: settleObservation_def projectObservation_def terminalState_def Let_def
      elim!: rbindE split: if_splits)

lemma resolved_not_created: "resolveObservedState kd c q = Inr s \<Longrightarrow> s \<noteq> CREATED"
  by (cases kd) (auto simp: resolveObservedState_def Let_def split: if_splits)

lemma applied_row:
  assumes "applyLiveOrderObservation D current ob = Inr (APPLIED nxt)"
  shows "lo_revision nxt = lo_revision current + 1 \<and> lo_cancelState nxt = lo_cancelState current
    \<and> (lo_state nxt = CREATED \<longrightarrow> lo_state current = CREATED)"
proof -
  obtain q r c av s where "settleObservation D current ob q r c av s = Inr (APPLIED nxt)"
      and "resolveObservedState (ob_kind ob) c q = Inr s"
    using assms unfolding applyLiveOrderObservation_def
    by (auto elim!: rbindE split: if_splits)
  then show ?thesis using settled_revision resolved_not_created by blast
qed

text \<open>An observation is folded once: it is new to the event log whenever it changes the row.\<close>

lemma applyObservationAtomically_Inr:
  assumes "applyObservationAtomically env now i ob db = Inr (ord, db')"
  obtains (unchanged) a where "order_of db i = Some a" "ord = a" "order_of db' = order_of db" "db_advances db db'"
  | (folded) a dg where "order_of db i = Some a" "applyLiveOrderObservation (env_decimal env) a ob = Inr (APPLIED ord)"
      "observationSha256 (env_sha env) ob = Inr dg" "(i, dg) \<notin> db_events db"
      "db' = put_order now i (observation_columns env ord a) (db\<lparr>db_events := insert (i, dg) (db_events db)\<rparr>)"
proof -
  obtain a v where req: "requireVerifiedOrder (env_sha env) LIVE_PERSISTENCE_FAULT db i = Inr (a, v)"
    using assms by (auto simp: applyObservationAtomically_def rbind_eq_Inr)
  note a = require_Inr(1)[OF req]
  then obtain row where row: "db_orders db i = Some row" "ow_order row = a" by (auto simp: order_of_def)
  obtain app dg where app: "applyLiveOrderObservation (env_decimal env) a ob = Inr app"
      and dg: "observationSha256 (env_sha env) ob = Inr dg"
    using assms req by (auto simp: applyObservationAtomically_def rbind_eq_Inr split: if_splits)
  have kept: "db_advances db (db\<lparr>db_events := insert (i, dg) (db_events db)\<rparr>)"
    by (auto simp: db_advances_def)
  show thesis
  proof (cases "(i, dg) \<in> db_events db")
    case True
    then show thesis using assms req app dg a
      by (intro unchanged[of a]) (auto simp: applyObservationAtomically_def rbind_eq_Inr split: if_splits)
  next
    case False
    show thesis
    proof (cases app)
      case (APPLIED nxt)
      then show thesis using assms req app dg a False row
        by (intro folded[of a dg]) (auto simp: applyObservationAtomically_def rbind_eq_Inr Let_def split: if_splits)
    qed (use assms req app dg a False kept in
        \<open>(intro unchanged[of a], auto simp: applyObservationAtomically_def rbind_eq_Inr Let_def split: if_splits)\<close>)+
  qed
qed

lemma observation_advances:
  assumes "applyObservationAtomically env now i ob db = Inr (ord, db')"
  shows "db_advances db db'"
  using assms
proof (cases rule: applyObservationAtomically_Inr)
  case (folded a dg)
  have "row_advances a (observation_columns env ord a)"
    using applied_row[OF folded(2)]
    by (simp add: row_advances_def same_mirrors_def observation_columns_def)
  then have "db_advances (db\<lparr>db_events := insert (i, dg) (db_events db)\<rparr>) db'"
    using folded(1,5) by (simp add: put_order_advances)
  moreover have "db_advances db (db\<lparr>db_events := insert (i, dg) (db_events db)\<rparr>)"
    by (auto simp: db_advances_def)
  ultimately show ?thesis by (blast intro: db_advances_trans)
qed

definition cancel_claimed_row :: "live_order \<Rightarrow> live_order" where
  "cancel_claimed_row a = a\<lparr>lo_state := CANCEL_REQUESTED, lo_cancelState := CANCEL_RESERVED,
     lo_cancelGeneration := lo_cancelGeneration a + 1, lo_cancelExchangeOrderId := lo_exchangeOrderId a,
     lo_cancelFaultCode := None, lo_revision := lo_revision a + 1\<rparr>"

lemma claimCancel_Inr:
  assumes "claimCancel env now i account db = Inr (outcome, db')"
  obtains (refused) a where "order_of db i = Some a" "db' = db" "lo_accountId a = account"
      "outcome = CANCEL_NOT_CANCELLABLE a (lo_cancelGeneration a) \<and> lo_state a \<in> set NOT_CANCELLABLE_STATES
       \<or> outcome = CANCEL_ALREADY_CLAIMED a (lo_cancelGeneration a) \<and> lo_cancelState a \<noteq> NONE"
  | (claimed) a where "order_of db i = Some a" "lo_accountId a = account" "lo_cancelState a = NONE"
      "lo_state a \<notin> set NOT_CANCELLABLE_STATES" "lo_exchangeOrderId a \<noteq> None"
      "outcome = CANCEL_CLAIMED (cancel_claimed_row a) (lo_cancelGeneration a + 1)"
      "db' = put_order now i (cancel_claimed_row a) db"
proof -
  obtain a v where req: "requireVerifiedOrder (env_sha env) LIVE_INTENT_INVALID db i = Inr (a, v)"
    using assms by (auto simp: claimCancel_def rbind_eq_Inr)
  note a = require_Inr(1)[OF req]
  then obtain row where row: "db_orders db i = Some row" "ow_order row = a" by (auto simp: order_of_def)
  have t: "toStateRecord \<lparr>ow_order = r, ow_updatedAt = now\<rparr> = Inr x \<Longrightarrow> x = r" for r x
    using toStateRecord_Inr[of "\<lparr>ow_order = r, ow_updatedAt = now\<rparr>" x] by simp
  have m: "List.member xs x \<longleftrightarrow> x \<in> set xs" for xs and x :: order_state by simp
  show thesis
  proof (cases "lo_state a \<in> set NOT_CANCELLABLE_STATES \<or> lo_cancelState a \<noteq> NONE")
    case True
    then show thesis using assms req a
      by (intro refused[of a]) (auto simp: claimCancel_def rbind_eq_Inr m Let_def split: if_splits)
  next
    case False
    then show thesis using assms req a row
      by (intro claimed[of a])
        (auto simp: claimCancel_def rbind_eq_Inr m Let_def cancel_claimed_row_def split: if_splits dest!: t)
  qed
qed

lemma claimCancel_advances:
  assumes "claimCancel env now i account db = Inr (outcome, db')"
  shows "db_advances db db'"
  using assms
  by (cases rule: claimCancel_Inr)
    (auto intro!: put_order_advances simp: row_advances_def same_mirrors_def cancel_claimed_row_def)

definition completed_row :: "cancel_completion \<Rightarrow> fault option \<Rightarrow> live_order \<Rightarrow> live_order" where
  "completed_row outcome faultCode row =
     (if outcome = CC_AMBIGUOUS then row\<lparr>lo_faultCode := Some (Code LIVE_CANCEL_AMBIGUOUS)\<rparr> else row)
     \<lparr>lo_cancelState := completion_state outcome, lo_cancelFaultCode := faultCode,
      lo_revision := lo_revision row + 1\<rparr>"

lemma completeCancel_Inr:
  assumes "completeCancelAttempt env now i g outcome fc db = Inr (ord, db')"
  shows "\<exists>a. order_of db i = Some a \<and> lo_cancelGeneration a = g \<and>
    (db' = db \<and> ord = a \<and> lo_cancelState a = completion_state outcome
     \<or> lo_cancelState a = CANCEL_RESERVED \<and> ord = completed_row outcome fc a
       \<and> db' = put_order now i (completed_row outcome fc a) db)"
proof -
  obtain a v where req: "requireVerifiedOrder (env_sha env) LIVE_PERSISTENCE_FAULT db i = Inr (a, v)"
    using assms by (auto simp: completeCancelAttempt_def rbind_eq_Inr)
  note a = require_Inr(1)[OF req]
  show ?thesis
  proof (cases "lo_cancelGeneration a = g \<and> lo_cancelState a = completion_state outcome")
    case True
    then show ?thesis using assms req a by (auto simp: completeCancelAttempt_def)
  next
    case False
    let ?u = "\<lambda>q. updateManyOrder now i
        (\<lambda>row. pinned a q row \<and> lo_cancelGeneration row = g \<and> lo_cancelState row = CANCEL_RESERVED)
        (completed_row outcome fc) db"
    have "lo_cancelGeneration a = g" "lo_cancelState a = CANCEL_RESERVED"
      using assms req False by (auto simp: completeCancelAttempt_def Let_def split: if_splits)
    moreover obtain q where
      "(let (updated, db') = ?u q in if updated \<noteq> 1 then Inl (Live LIVE_ORDER_STATE_CONFLICT)
        else rbind (requireVerifiedOrder (env_sha env) LIVE_PERSISTENCE_FAULT db' i)
               (\<lambda>(committed, _). Inr (committed, db'))) = Inr (ord, db')"
      using assms req False calculation unfolding completeCancelAttempt_def completed_row_def
      by (auto simp: Let_def elim!: rbindE)
    then obtain n v' where n: "?u q = (n, db')" "n = 1"
        "requireVerifiedOrder (env_sha env) LIVE_PERSISTENCE_FAULT db' i = Inr (ord, v')"
      by (cases "?u q") (auto elim!: rbindE split: if_splits)
    ultimately show ?thesis using updateMany_cases[OF n(1)] n(2) a require_Inr(1)[OF n(3)] by auto
  qed
qed

lemma completeCancel_advances:
  assumes "completeCancelAttempt env now i g outcome fc db = Inr (ord, db')"
  shows "db_advances db db'"
  using completeCancel_Inr[OF assms]
  by (auto intro!: put_order_advances simp: row_advances_def same_mirrors_def completed_row_def)

definition expired_row :: "live_order \<Rightarrow> live_order" where
  "expired_row a = a\<lparr>lo_state := ST_SUBMISSION_AMBIGUOUS, lo_faultCode := Some (Code LIVE_SUBMISSION_AMBIGUOUS),
     lo_revision := lo_revision a + 1\<rparr>"

lemma markExpired_Inr:
  assumes "markExpiredDispatchUnresolved env now i account cutoff db = Inr (ord, db')"
  shows "\<exists>a. order_of db i = Some a \<and> lo_accountId a = account \<and>
    (db' = db \<and> ord = a
     \<or> lo_state a = DISPATCH_RESERVED \<and> ord = expired_row a \<and> db' = put_order now i (expired_row a) db)"
proof -
  obtain a v where req: "requireVerifiedOrder (env_sha env) LIVE_INTENT_INVALID db i = Inr (a, v)"
    using assms by (auto simp: markExpiredDispatchUnresolved_def rbind_eq_Inr)
  note a = require_Inr(1)[OF req]
  then obtain row where row: "db_orders db i = Some row" "ow_order row = a" by (auto simp: order_of_def)
  have t: "toStateRecord \<lparr>ow_order = r, ow_updatedAt = now\<rparr> = Inr x \<Longrightarrow> x = r" for r x
    using toStateRecord_Inr[of "\<lparr>ow_order = r, ow_updatedAt = now\<rparr>" x] by simp
  show ?thesis
    using assms req a row
    by (auto simp: markExpiredDispatchUnresolved_def Let_def expired_row_def split: if_splits elim!: rbindE dest!: t)
qed

lemma markExpired_advances:
  assumes "markExpiredDispatchUnresolved env now i account cutoff db = Inr (ord, db')"
  shows "db_advances db db'"
  using markExpired_Inr[OF assms]
  by (auto intro!: put_order_advances simp: row_advances_def same_mirrors_def expired_row_def)

lemmas repository_advances = ensureIntent_advances claimDispatchTx_advances commitState_advances
  observation_advances claimCancel_advances completeCancel_advances markExpired_advances

subsection \<open>The seal\<close>

text \<open>What the digest of a stored intent binds, and the text it is taken of.\<close>

definition sealed_view :: "intent_row \<Rightarrow> string \<times> string \<times> string \<times> (live_code, intent_content) res \<times> live_lineage" where
  "sealed_view row =
     (iw_intentId row, iw_clientOrderId row, iw_wireOrderType row, canonicalContent (iw_content row),
      ir_lineage (reconstructStoredIntent row))"

definition sealed_text :: "intent_row \<Rightarrow> string" where
  "sealed_text row =
     (case canonicalContent (iw_content row) of
        Inl _ \<Rightarrow> [] | Inr c \<Rightarrow> raw_text (json_norm (sealed_json (reconstructStoredIntent row) c)))"

lemma contentSha_Inr:
  "liveExecutionIntentContentSha256 sha r = Inr d \<longleftrightarrow>
     (\<exists>c. canonicalContent (ir_content r) = Inr c \<and> json_supported (sealed_json r c)
        \<and> d = sha (raw_text (json_norm (sealed_json r c))))"
  unfolding liveExecutionIntentContentSha256_def rbind_eq_Inr digestOf_Inr canonicalJson_eq_Inr liveR_Inr
  by blast

lemma norm_members:
  assumes "json_norm (JObject xs) = json_norm (JObject ys)"
  shows "set (map (map_prod id json_norm) xs) = set (map (map_prod id json_norm) ys)"
proof -
  have "sort_key fst (map (map_prod id json_norm) xs) = sort_key fst (map (map_prod id json_norm) ys)"
    using assms by simp
  then show ?thesis by (metis set_sort)
qed

text \<open>Members with the same keys in the same places are compared one by one.\<close>

lemma norm_object_inject:
  assumes "json_norm (JObject xs) = json_norm (JObject ys)" and "map fst xs = map fst ys"
    and "distinct (map fst xs)"
  shows "map (map_prod id json_norm) xs = map (map_prod id json_norm) ys"
  using norm_members[OF assms(1)] by (rule members_eqI) (use assms(2,3) in \<open>simp_all add: comp_def\<close>)

lemma content_json_norm: "json_norm (JObject (content_members c)) = json_norm (JObject (content_members d)) \<Longrightarrow> c = d"
  using norm_object_inject[of "content_members c" "content_members d"] content_members_flat(1)[of c]
    content_members_flat(1)[of d] content_members_flat(2)[of c d] content_members_inject[of c d]
  by (simp add: flat_members_def)

lemma json_norm_leaf: "json_norm (JString t) = JString t" "json_norm JNull = JNull"
  by simp_all

definition approval_json :: "research_lineage \<Rightarrow> json" where
  "approval_json a = JObject [(''validationSubjectId'', JString (rl_validationSubjectId a)),
     (''validationPlanId'', JString (rl_validationPlanId a)),
     (''validationSubjectResultSha256'', JString (rl_validationSubjectResultSha256 a))]"

lemma approval_json_norm:
  assumes "json_norm (approval_json a) = json_norm (approval_json b)"
  shows "a = b"
  using norm_object_inject[OF assms[unfolded approval_json_def]]
  by (cases a; cases b) (simp del: json_norm.simps add: json_norm_leaf)

lemma approval_not_null: "json_norm (approval_json a) \<noteq> json_norm JNull"
  by (simp add: approval_json_def)

lemma lineage_json_norm:
  assumes "json_norm (lineage_json l) = json_norm (lineage_json m)"
  shows "l = m"
proof -
  have u: "lineage_json l = JObject [(''researchApproval'', case ll_researchApproval l of None \<Rightarrow> JNull | Some a \<Rightarrow> approval_json a),
      (''sourceStrategyDecisionId'', JString (ll_sourceStrategyDecisionId l))]" for l
    unfolding lineage_json_def approval_json_def by (rule refl)
  note e = norm_object_inject[OF assms[unfolded u]]
  have s: "ll_sourceStrategyDecisionId l = ll_sourceStrategyDecisionId m"
    and a: "json_norm (case ll_researchApproval l of None \<Rightarrow> JNull | Some a \<Rightarrow> approval_json a)
      = json_norm (case ll_researchApproval m of None \<Rightarrow> JNull | Some a \<Rightarrow> approval_json a)"
    using e by (simp_all del: json_norm.simps add: json_norm_leaf(1))
  have "ll_researchApproval l = ll_researchApproval m"
    using a approval_json_norm approval_not_null
    by (auto simp del: json_norm.simps split: option.splits)
  with s show ?thesis by (cases l; cases m) simp
qed

lemma sealed_json_norm:
  assumes "json_norm (sealed_json r c) = json_norm (sealed_json s d)"
  shows "ir_intentId r = ir_intentId s \<and> ir_clientOrderId r = ir_clientOrderId s
    \<and> ir_wireOrderType r = ir_wireOrderType s \<and> c = d \<and> ir_lineage r = ir_lineage s"
proof -
  note e = norm_object_inject[OF assms[unfolded sealed_json_def]]
  have "json_norm (JObject (content_members c)) = json_norm (JObject (content_members d))"
    and "json_norm (lineage_json (ir_lineage r)) = json_norm (lineage_json (ir_lineage s))"
    and "ir_intentId r = ir_intentId s \<and> ir_clientOrderId r = ir_clientOrderId s
    \<and> ir_wireOrderType r = ir_wireOrderType s"
    using e by (simp_all del: json_norm.simps add: json_norm_leaf(1))
  then show ?thesis using content_json_norm lineage_json_norm by blast
qed

lemma sealed_digest:
  assumes "liveExecutionIntentContentSha256 sha (reconstructStoredIntent row) = Inr d"
  shows "d = sha (sealed_text row)" and "canonicalContent (iw_content row) \<noteq> Inl e"
  using assms
  by (auto simp: contentSha_Inr sealed_text_def reconstructStoredIntent_def Let_def)

lemma sealed_text_inject:
  assumes "liveExecutionIntentContentSha256 sha (reconstructStoredIntent a) = Inr d"
    and "liveExecutionIntentContentSha256 sha (reconstructStoredIntent b) = Inr e"
    and "sealed_text a = sealed_text b"
  shows "sealed_view a = sealed_view b"
proof -
  have row: "ir_content (reconstructStoredIntent x) = iw_content x" "ir_intentId (reconstructStoredIntent x) = iw_intentId x"
    "ir_clientOrderId (reconstructStoredIntent x) = iw_clientOrderId x"
    "ir_wireOrderType (reconstructStoredIntent x) = iw_wireOrderType x" for x
    by (simp_all add: reconstructStoredIntent_def Let_def)
  obtain ca where a: "canonicalContent (iw_content a) = Inr ca" "json_supported (sealed_json (reconstructStoredIntent a) ca)"
    using assms(1) unfolding contentSha_Inr row by blast
  obtain cb where b: "canonicalContent (iw_content b) = Inr cb" "json_supported (sealed_json (reconstructStoredIntent b) cb)"
    using assms(2) unfolding contentSha_Inr row by blast
  let ?a = "sealed_json (reconstructStoredIntent a) ca" and ?b = "sealed_json (reconstructStoredIntent b) cb"
  have "raw_text (json_norm ?a) = raw_text (json_norm ?b)" using assms(3) a b by (simp add: sealed_text_def)
  then have "canonicalJson ?a = Inr (raw_text (json_norm ?a))" "canonicalJson ?b = Inr (raw_text (json_norm ?a))"
    using a b unfolding canonicalJson_eq_Inr by simp_all
  from sealed_json_norm[OF canonicalJson_inject[OF this]] a b show ?thesis
    by (simp add: sealed_view_def row)
qed

lemma sealed_view_digest:
  assumes "sealed_view a = sealed_view b"
  shows "liveExecutionIntentContentSha256 sha (reconstructStoredIntent a)
    = liveExecutionIntentContentSha256 sha (reconstructStoredIntent b)"
proof -
  have row: "ir_content (reconstructStoredIntent x) = iw_content x" "ir_intentId (reconstructStoredIntent x) = iw_intentId x"
    "ir_clientOrderId (reconstructStoredIntent x) = iw_clientOrderId x"
    "ir_wireOrderType (reconstructStoredIntent x) = iw_wireOrderType x" for x
    by (simp_all add: reconstructStoredIntent_def Let_def)
  show ?thesis
    using assms by (simp add: liveExecutionIntentContentSha256_def sealed_json_def sealed_view_def row)
qed

text \<open>C34. The seal of a stored intent: among rows that carry the digest of a verified row, exactly
  those with the same identity pair, wire type, canonical content and lineage verify, and every
  other one is refused as an integrity violation, provided the digest does not collide on the two
  sealed texts.\<close>

theorem sealed_row_is_bound:
  assumes "verifyStoredIntentIntegrity sha row = Inr v" and "iw_contentSha256 row' = iw_contentSha256 row"
    and "sha (sealed_text row') = sha (sealed_text row) \<Longrightarrow> sealed_text row' = sealed_text row"
  shows "verifyStoredIntentIntegrity sha row' =
    (if sealed_view row' = sealed_view row
     then Inr \<lparr>vi_intent = reconstructStoredIntent row', vi_digest = iw_contentSha256 row\<rparr>
     else Inl (Live LIVE_DURABLE_INTEGRITY_VIOLATION))"
proof -
  have r: "liveExecutionIntentContentSha256 sha (reconstructStoredIntent row) = Inr (iw_contentSha256 row)"
    using assms(1) by (simp add: verify_Inr)
  show ?thesis
  proof (cases "verifyStoredIntentIntegrity sha row'")
    case (Inl e)
    then have "e = Live LIVE_DURABLE_INTEGRITY_VIOLATION"
      by (auto simp: verifyStoredIntentIntegrity_def split: sum.splits if_splits)
    moreover have "sealed_view row' \<noteq> sealed_view row"
      using Inl r assms(2) sealed_view_digest[of row' row sha] by (auto simp: verifyStoredIntentIntegrity_def)
    ultimately show ?thesis using Inl by simp
  next
    case (Inr w)
    then have r': "liveExecutionIntentContentSha256 sha (reconstructStoredIntent row') = Inr (iw_contentSha256 row)"
      and w: "w = \<lparr>vi_intent = reconstructStoredIntent row', vi_digest = iw_contentSha256 row\<rparr>"
      using assms(2) by (simp_all add: verify_Inr)
    have "sealed_text row' = sealed_text row"
      using assms(3) sealed_digest(1)[OF r] sealed_digest(1)[OF r'] by simp
    from sealed_text_inject[OF r' r this] Inr w show ?thesis by simp
  qed
qed

text \<open>C5. The dispatch claim is exclusive: it succeeds exactly when the verified order is CREATED, then
  reserves that row with a new revision and, for an OPEN, leaves the admission bound to this
  intent; otherwise it writes nothing. Whoever claims on the resulting database, at any time and
  with any admission callback, does not get the claim again.\<close>

theorem claim_dispatch_exclusive:
  fixes k :: 'k
  assumes "claimDispatchTx env now i consume db k = (Inr (n, db'), k')"
  shows "\<exists>a v. requireVerifiedOrder (env_sha env) LIVE_PERSISTENCE_FAULT db i = Inr (a, v)
    \<and> n = (if lo_state a = CREATED then 1 else 0)
    \<and> (n = 0 \<longrightarrow> db' = db)
    \<and> (n = 1 \<longrightarrow> order_of db' i = Some (a\<lparr>lo_state := DISPATCH_RESERVED, lo_revision := lo_revision a + 1\<rparr>)
        \<and> (ic_action (ir_content (vi_intent v)) = OPEN \<longrightarrow>
             (\<exists>adm w. ic_admissionId (ir_content (vi_intent v)) = Some adm \<and> db_consumptions db' adm = Some w
                \<and> cw_intentId w = i \<and> cw_riskDecisionId w = ic_riskDecisionId (ir_content (vi_intent v)))))
    \<and> (\<forall>now2 consume2 (k2 :: 'k) m db2 k3. claimDispatchTx env now2 i consume2 db' k2 = (Inr (m, db2), k3) \<longrightarrow> m = 0)"
proof -
  obtain a v where req: "requireVerifiedOrder (env_sha env) LIVE_PERSISTENCE_FAULT db i = Inr (a, v)"
    using assms by (auto simp: claimDispatchTx_def split: sum.splits)
  note a = require_Inr(1)[OF req]
  have again: "m = 0" if "order_of db' i = Some b" "lo_state b \<noteq> CREATED"
      "claimDispatchTx env now2 i consume2 db' k2 = (Inr (m, db2), k3)" for b now2 consume2 k2 m db2 k3
    using that(3) by (cases rule: claimDispatchTx_Inr) (use that(1,2) in auto)
  show ?thesis
    using assms
  proof (cases rule: claimDispatchTx_Inr)
    case (lost b)
    then show ?thesis using req a again[of b] by auto
  next
    case (reserved b w db1)
    have w: "w = v" "b = a" using reserved req by simp_all
    have o: "order_of db' i = Some (reserved_row a)" using reserved w by simp
    have "lo_state (reserved_row a) \<noteq> CREATED" by (simp add: reserved_row_def)
    note again = again[OF o this]
    show ?thesis
      using reserved req w o again consumeAdmission_Inr(4)[of i "ir_content (vi_intent v)" consume db k db1 k']
      by (auto simp: reserved_row_def)
  qed
qed

text \<open>C18. A commit is a compare-and-set on the revision: it writes only the row whose revision the caller
  read, changes no immutable column, and once it has succeeded no commit computed from the same
  reading can succeed against any later state of the database.\<close>

theorem commit_compare_and_set:
  assumes "commitState env now nxt r0 db = Inr (ord, db')" and "r0 < lo_revision nxt"
  shows "(\<exists>a. order_of db (lo_intentId nxt) = Some a \<and> lo_revision a = r0 \<and> same_mirrors a ord
           \<and> order_of db' (lo_intentId nxt) = Some ord \<and> lo_state ord = lo_state nxt
           \<and> lo_revision ord = lo_revision nxt)
    \<and> (\<forall>now2 nxt2 db2 res. db_advances db' db2 \<longrightarrow> lo_intentId nxt2 = lo_intentId nxt \<longrightarrow>
         commitState env now2 nxt2 r0 db2 \<noteq> Inr res)"
proof -
  obtain a where a: "order_of db (lo_intentId nxt) = Some a" "lo_revision a = r0"
      "db' = put_order now (lo_intentId nxt) (commit_columns env nxt a) db" "ord = commit_columns env nxt a"
    using commitState_Inr[OF assms(1)] by blast
  have "commitState env now2 nxt2 r0 db2 \<noteq> Inr res"
    if "db_advances db' db2" and id: "lo_intentId nxt2 = lo_intentId nxt" for now2 nxt2 db2 res
  proof
    assume c: "commitState env now2 nxt2 r0 db2 = Inr res"
    then obtain b where b: "order_of db2 (lo_intentId nxt) = Some b" "lo_revision b = r0"
      using commitState_Inr[of env now2 nxt2 r0 db2 "fst res" "snd res"] id by auto
    have "order_of db' (lo_intentId nxt) = Some ord" using a by simp
    with that(1) b(1) have "row_advances ord b" by (auto elim!: db_advances_row)
    then show False using b(2) a(4) assms(2) by (auto simp: row_advances_def commit_columns_def)
  qed
  with a show ?thesis by (auto simp: same_mirrors_def commit_columns_def)
qed

subsection \<open>Recording an intent twice\<close>

text \<open>What a DECIMAL(36,18) column is relied on to do: canonical text of a number it holds is read back
  unchanged.\<close>

definition column_law :: "(string \<Rightarrow> string) \<Rightarrow> bool" where
  "column_law stored \<longleftrightarrow> (\<forall>s. normal_text s \<and> persisted_value (text_value s) \<longrightarrow> stored s = s)"

definition durable_text :: "string \<Rightarrow> bool" where
  "durable_text s \<longleftrightarrow> normal_text s \<and> persisted_value (text_value s)"

definition content_durable :: "intent_content \<Rightarrow> bool" where
  "content_durable c \<longleftrightarrow>
     durable_text (ic_quantity c) \<and> durable_text (ic_authorizedNotionalInr c)
     \<and> pred_option durable_text (ic_price c) \<and> pred_option durable_text (ic_leverage c)
     \<and> pred_option durable_text (ic_settlementRateInrPerQuote c)
     \<and> pred_option durable_text (ic_reduceOnlyQuantity c)"

lemma column_lawD: "column_law f \<Longrightarrow> durable_text s \<Longrightarrow> f s = s"
  by (simp add: column_law_def durable_text_def)

lemma column_law_option: "column_law f \<Longrightarrow> pred_option durable_text v \<Longrightarrow> map_option f v = v"
  by (cases v) (simp_all add: column_lawD)

lemma store_content_durable: "column_law (env_stored env) \<Longrightarrow> content_durable c \<Longrightarrow> store_content env c = c"
  by (cases c) (simp add: store_content_def content_durable_def column_lawD column_law_option)

lemma persisted_diff:
  assumes "persisted_value x" and "persisted_value y" and "0 \<le> y" and "y \<le> x"
  shows "persisted_value (x - y)"
proof -
  obtain a b where x: "x = of_int a / 10 ^ 18" "\<bar>a\<bar> < 10 ^ 36" and y: "y = of_int b / 10 ^ 18"
    using assms(1,2) unfolding persisted_value_def by blast
  have "of_int 0 \<le> (of_int b :: rat)" and "(of_int b :: rat) \<le> of_int a"
    using assms(3,4) unfolding x(1) y
    by (simp_all only: of_int_0 zero_le_divide_iff divide_le_cancel) auto
  then have "0 \<le> b" and "b \<le> a" by (simp_all only: of_int_le_iff)
  then have "\<bar>a - b\<bar> < 10 ^ 36" using x(2) by linarith
  moreover have "x - y = of_int (a - b) / 10 ^ 18" unfolding x(1) y by (simp only: of_int_diff diff_divide_distrib)
  ultimately show ?thesis unfolding persisted_value_def by blast
qed

lemma store_order_wf:
  assumes "column_law (env_stored env)" and "order_wf ord"
  shows "store_order env ord = ord"
proof -
  note w = order_wfD[OF assms(2)]
  have "durable_text (lo_orderedQuantity ord)" "durable_text (lo_cumulativeFilledQuantity ord)"
    "durable_text (lo_remainingQuantity ord)"
    using w persisted_diff by (simp_all add: durable_text_def)
  moreover have "pred_option durable_text (lo_averageFillPrice ord)"
    using w(10) by (auto simp: average_wf_def durable_text_def split: option.splits)
  ultimately show ?thesis
    using assms(1) by (cases ord) (simp add: store_order_def column_lawD column_law_option)
qed

lemma reconstruct_stored:
  assumes "intentCreateData env intent = Inr row" and "store_content env (ir_content intent) = ir_content intent"
  shows "reconstructStoredIntent row = intent\<lparr>ir_quantityAdjusted := False, ir_priceAdjusted := False\<rparr>"
    and "liveExecutionIntentContentSha256 (env_sha env) intent = Inr (iw_contentSha256 row)"
proof -
  obtain d where d: "liveExecutionIntentContentSha256 (env_sha env) intent = Inr d"
    using assms(1) by (auto simp: intentCreateData_def rbind_eq_Inr)
  show "reconstructStoredIntent row = intent\<lparr>ir_quantityAdjusted := False, ir_priceAdjusted := False\<rparr>"
    using assms d
    by (cases intent; cases "ir_lineage intent"; cases "ll_researchApproval (ir_lineage intent)")
      (auto simp: intentCreateData_def reconstructStoredIntent_def Let_def column_string_def)
  show "liveExecutionIntentContentSha256 (env_sha env) intent = Inr (iw_contentSha256 row)"
    using assms d by (auto simp: intentCreateData_def)
qed

lemma contentSha_adjusted [simp]:
  "liveExecutionIntentContentSha256 sha (intent\<lparr>ir_quantityAdjusted := a, ir_priceAdjusted := b\<rparr>)
   = liveExecutionIntentContentSha256 sha intent"
  by (simp add: liveExecutionIntentContentSha256_def sealed_json_def)

text \<open>A freshly recorded intent reads back as the initial order.\<close>

lemma recorded_reads_back:
  assumes law: "column_law (env_stored env)" and dur: "content_durable (ir_content intent)"
    and init: "initialLiveOrderState (ir_intentId intent) (ir_clientOrderId intent)
          (ic_accountId (ir_content intent)) (ic_pair (ir_content intent)) (ic_quantity (ir_content intent)) = Inr ord"
    and ins: "insertIntent env now intent ord db = Inr db'"
  obtains row where "db_intents db' (ir_intentId intent) = Some row"
    and "verifyStoredIntentIntegrity (env_sha env) row =
      Inr \<lparr>vi_intent = intent\<lparr>ir_quantityAdjusted := False, ir_priceAdjusted := False\<rparr>, vi_digest = iw_contentSha256 row\<rparr>"
    and "liveExecutionIntentContentSha256 (env_sha env) intent = Inr (iw_contentSha256 row)"
    and "readVerifiedOrder (env_sha env) db' (ir_intentId intent) =
      Inr (Some (ord, \<lparr>vi_intent = intent\<lparr>ir_quantityAdjusted := False, ir_priceAdjusted := False\<rparr>, vi_digest = iw_contentSha256 row\<rparr>))"
proof -
  note i = insertIntent_Inr[OF ins]
  obtain row where row: "intentCreateData env intent = Inr row"
      "db_intents db' = (db_intents db)(ir_intentId intent \<mapsto> row)"
    using i(3) by blast
  note r = reconstruct_stored[OF row(1) store_content_durable[OF law dur]]
  have v: "verifyStoredIntentIntegrity (env_sha env) row =
      Inr \<lparr>vi_intent = intent\<lparr>ir_quantityAdjusted := False, ir_priceAdjusted := False\<rparr>, vi_digest = iw_contentSha256 row\<rparr>"
    using r by (simp add: verify_Inr)
  have so: "store_order env ord = ord" by (rule store_order_wf[OF law initial_order_wf(1)[OF init]])
  then obtain orow where orow: "db_orders db' (ir_intentId intent) = Some orow" "ow_order orow = ord"
    using i(4)[of "ir_intentId intent"] by (auto simp: order_of_def)
  have o: "lo_lastProviderEventTimeMs ord = None" "lo_intentId ord = ir_intentId intent"
    "lo_clientOrderId ord = ir_clientOrderId intent" "lo_accountId ord = ic_accountId (ir_content intent)"
    "lo_pair ord = ic_pair (ir_content intent)"
    "canonicalPositiveLiveDecimal (Some (ic_quantity (ir_content intent))) = Inr (lo_orderedQuantity ord)"
    using init by (auto simp: initialLiveOrderState_def elim!: rbindE)
  have q: "signed_text (ic_quantity (ir_content intent))" "normal_text (lo_orderedQuantity ord)"
    "lo_orderedQuantity ord = normalize_text (ic_quantity (ir_content intent))"
    using o(6) positive_canonicalD[OF o(6)] by (auto simp: positive_eq_Inr)
  have "canonicalLiveDecimalString (Some (lo_orderedQuantity ord)) = Inr (lo_orderedQuantity ord)"
    "canonicalLiveDecimalString (Some (ic_quantity (ir_content intent))) = Inr (lo_orderedQuantity ord)"
    using q by (simp_all add: canonical_normalize normal_signed_text normalize_normal)
  then have m: "assertOrderProjectionMatchesIntent ord
      \<lparr>vi_intent = intent\<lparr>ir_quantityAdjusted := False, ir_priceAdjusted := False\<rparr>, vi_digest = iw_contentSha256 row\<rparr> = Inr ()"
    using o by (simp add: assertOrderProjectionMatchesIntent_def)
  have t: "toStateRecord orow = Inr ord"
    using o(1) orow(2) by (cases ord) (auto simp: toStateRecord_def bigIntToNumber_def)
  have "readVerifiedOrder (env_sha env) db' (ir_intentId intent) =
      Inr (Some (ord, \<lparr>vi_intent = intent\<lparr>ir_quantityAdjusted := False, ir_priceAdjusted := False\<rparr>, vi_digest = iw_contentSha256 row\<rparr>))"
    using orow row v m t by (simp add: readVerifiedOrder_def)
  from that[OF _ v r(2) this] row show thesis by simp
qed

lemma resolve_recorded:
  assumes "db_intents db i = Some row" and "verifyStoredIntentIntegrity (env_sha env) row = Inr v"
    and "ir_intentId other = i" and "liveExecutionIntentContentSha256 (env_sha env) other = Inr d"
  shows "ensureIntent env now other db =
    (if d = iw_contentSha256 row
     then rbind (load env i db) (\<lambda>order. case order of None \<Rightarrow> Inl (Live LIVE_PERSISTENCE_FAULT) | Some ord \<Rightarrow> Inr (ord, db))
     else Inl (Live LIVE_INTENT_CONFLICT))"
proof -
  have "vi_digest v = iw_contentSha256 row" using assms(2) by (auto simp: verify_Inr)
  then show ?thesis
    using assms
    by (cases "load env i db")
      (auto simp: ensureIntent_def resolveStoredIntent_def assertStoredIntentMatches_def split: option.splits)
qed

text \<open>C35. Recording an intent is idempotent, and an identity is never rebound: once an intent with durable
  decimals is recorded, recording it again gives the same order and writes nothing, and recording
  anything else under its identity that is sealed differently is a conflict.\<close>

theorem ensure_intent_idempotent:
  assumes "column_law (env_stored env)" and "content_durable (ir_content intent)"
    and "ensureIntent env now intent db = Inr (ord, db')"
  shows "ensureIntent env now2 intent db' = Inr (ord, db')
    \<and> (ir_intentId other = ir_intentId intent
       \<and> liveExecutionIntentContentSha256 (env_sha env) intent \<noteq> Inr d
       \<and> liveExecutionIntentContentSha256 (env_sha env) other = Inr d
       \<longrightarrow> ensureIntent env now2 other db' = Inl (Live LIVE_INTENT_CONFLICT))"
proof (cases "db_intents db (ir_intentId intent)")
  case (Some row)
  then have res: "resolveStoredIntent env row intent db = Inr ord" and db: "db' = db"
    using assms(3) by (auto simp: ensureIntent_def elim!: rbindE)
  then obtain v where v: "verifyStoredIntentIntegrity (env_sha env) row = Inr v"
      "liveExecutionIntentContentSha256 (env_sha env) intent = Inr (vi_digest v)"
    by (auto simp: resolveStoredIntent_def assertStoredIntentMatches_def elim!: rbindE split: if_splits)
  have "vi_digest v = iw_contentSha256 row" using v(1) by (auto simp: verify_Inr)
  moreover have "ensureIntent env now2 intent db = Inr (ord, db)"
    using Some res by (simp add: ensureIntent_def)
  ultimately show ?thesis
    using db v resolve_recorded[OF Some v(1), of other d now2] by auto
next
  case None
  from ensureIntent_cases[OF assms(3)] show ?thesis
  proof
    assume "db' = db \<and> order_of db (ir_intentId intent) = Some ord"
    then have db: "db' = db" by blast
    from None assms(3) obtain x where "insertIntent env now intent x db = Inr db'"
      by (auto simp: ensureIntent_def elim!: rbindE split: sum.splits thrown.splits)
    from insertIntent_Inr(3)[OF this] db None show ?thesis by (metis fun_upd_same option.distinct(1))
  next
    assume a: "db_intents db (ir_intentId intent) = None
      \<and> initialLiveOrderState (ir_intentId intent) (ir_clientOrderId intent)
          (ic_accountId (ir_content intent)) (ic_pair (ir_content intent)) (ic_quantity (ir_content intent)) = Inr ord
      \<and> insertIntent env now intent ord db = Inr db'"
    obtain row where r: "db_intents db' (ir_intentId intent) = Some row"
      "verifyStoredIntentIntegrity (env_sha env) row =
        Inr \<lparr>vi_intent = intent\<lparr>ir_quantityAdjusted := False, ir_priceAdjusted := False\<rparr>, vi_digest = iw_contentSha256 row\<rparr>"
      "liveExecutionIntentContentSha256 (env_sha env) intent = Inr (iw_contentSha256 row)"
      "readVerifiedOrder (env_sha env) db' (ir_intentId intent) =
        Inr (Some (ord, \<lparr>vi_intent = intent\<lparr>ir_quantityAdjusted := False, ir_priceAdjusted := False\<rparr>, vi_digest = iw_contentSha256 row\<rparr>))"
      using a recorded_reads_back[OF assms(1,2)] by blast
    have "load env (ir_intentId intent) db' = Inr (Some ord)" using r(4) by (simp add: load_def)
    then show ?thesis
      using r(3) resolve_recorded[OF r(1,2), of intent "iw_contentSha256 row" now2]
        resolve_recorded[OF r(1,2), of other d now2] by auto
  qed
qed

subsection \<open>A small database\<close>

definition sample_env :: live_env where
  "sample_env = \<lparr>env_sha = (\<lambda>t. t), env_decimal = half_up 128, env_stored = (\<lambda>s. s)\<rparr>"

definition empty_db :: live_db where
  "empty_db = \<lparr>db_intents = Map.empty, db_orders = Map.empty, db_consumptions = Map.empty,
     db_positions = Map.empty, db_events = {}, db_intentOfClientOrder = Map.empty,
     db_orderOfClientOrder = Map.empty, db_consumptionOfIntent = Map.empty\<rparr>"

definition sample_intent :: "order_side \<Rightarrow> intent_record" where
  "sample_intent s = \<lparr>ir_intentId = ''i1'', ir_clientOrderId = ''c1'', ir_content = sample_content\<lparr>ic_side := s\<rparr>,
     ir_lineage = sample_lineage, ir_wireOrderType = ''limit'', ir_quantityAdjusted = False, ir_priceAdjusted = False\<rparr>"

definition sample_row :: "order_side \<Rightarrow> intent_row" where
  "sample_row s = \<lparr>iw_intentId = ''i1'', iw_clientOrderId = ''c1'',
     iw_contentSha256 = raw_text (json_norm (sealed_json (sample_intent s) (sample_content\<lparr>ic_side := s\<rparr>))),
     iw_content = sample_content\<lparr>ic_side := s\<rparr>, iw_wireOrderType = ''limit'', iw_sourceStrategyDecisionId = ''d1'',
     iw_validationSubjectId = None, iw_validationPlanId = None, iw_validationSubjectResultSha256 = None\<rparr>"

definition sample_initial :: live_order where
  "sample_initial = \<lparr>lo_intentId = ''i1'', lo_clientOrderId = ''c1'', lo_accountId = ''a1'', lo_pair = ''BTC'',
     lo_state = CREATED, lo_exchangeOrderId = None, lo_orderedQuantity = ''2'', lo_cumulativeFilledQuantity = ''0'',
     lo_remainingQuantity = ''2'', lo_averageFillPrice = None, lo_lastExchangeStatus = None,
     lo_lastProviderEventTimeMs = None, lo_faultCode = None, lo_cancelState = NONE, lo_cancelGeneration = 0,
     lo_cancelExchangeOrderId = None, lo_cancelFaultCode = None, lo_revision = 0\<rparr>"

lemma sample_env_law: "column_law (env_stored sample_env)"
  by (simp add: column_law_def sample_env_def)

lemma sample_content_durable: "content_durable (ir_content (sample_intent s))"
  by (simp add: content_durable_def sample_intent_def sample_content_def durable_text_def)

lemma sample_content_sha:
  "liveExecutionIntentContentSha256 (\<lambda>t. t) (sample_intent s)
   = Inr (raw_text (json_norm (sealed_json (sample_intent s) (sample_content\<lparr>ic_side := s\<rparr>))))"
proof -
  have "json_supported (JObject (content_members (sample_content\<lparr>ic_side := s\<rparr>)))"
    by (simp only: json_supported.simps content_members_supported) (simp add: sample_content_def)
  then have "json_supported (sealed_json (sample_intent s) (sample_content\<lparr>ic_side := s\<rparr>))"
    by (simp add: sealed_json_def lineage_json_def sample_intent_def sample_lineage_def)
  then show ?thesis
    using sample_preimage_side(3)[of s]
    unfolding contentSha_Inr by (auto simp: sample_intent_def simp del: json_norm.simps raw_text.simps)
qed

lemma sample_recorded:
  "ensureIntent sample_env 0 (sample_intent s) empty_db = Inr (sample_initial,
     put_order 0 ''i1'' sample_initial (empty_db\<lparr>db_intents := [''i1'' \<mapsto> sample_row s],
       db_intentOfClientOrder := [''c1'' \<mapsto> ''i1''], db_orderOfClientOrder := [''c1'' \<mapsto> ''i1'']\<rparr>))"
proof -
  have init: "initialLiveOrderState ''i1'' ''c1'' ''a1'' ''BTC'' ''2'' = Inr sample_initial"
    by (simp add: initialLiveOrderState_def sample_initial_def)
  have st: "store_content sample_env c = c" "store_order sample_env ord = ord" for c ord
    by (cases c, simp add: store_content_def sample_env_def option.map_ident)
      (cases ord, simp add: store_order_def sample_env_def option.map_ident)
  have row: "intentCreateData sample_env (sample_intent s) = Inr (sample_row s)"
    unfolding intentCreateData_def st using sample_content_sha[of s]
    by (simp add: sample_env_def sample_row_def)
      (simp add: sample_intent_def sample_lineage_def)
  have "insertIntent sample_env 0 (sample_intent s) sample_initial empty_db = Inr
     (put_order 0 ''i1'' sample_initial (empty_db\<lparr>db_intents := [''i1'' \<mapsto> sample_row s],
       db_intentOfClientOrder := [''c1'' \<mapsto> ''i1''], db_orderOfClientOrder := [''c1'' \<mapsto> ''i1'']\<rparr>))"
    unfolding insertIntent_def row st by (simp add: empty_db_def sample_intent_def)
  then show ?thesis
    using init by (simp add: ensureIntent_def) (simp add: empty_db_def sample_intent_def sample_content_def)
qed

definition sample_db :: "order_side \<Rightarrow> live_db" where
  "sample_db s = put_order 0 ''i1'' sample_initial (empty_db\<lparr>db_intents := [''i1'' \<mapsto> sample_row s],
       db_intentOfClientOrder := [''c1'' \<mapsto> ''i1''], db_orderOfClientOrder := [''c1'' \<mapsto> ''i1'']\<rparr>)"

lemma sample_row_verified:
  "verifyStoredIntentIntegrity (\<lambda>t. t) (sample_row s) =
     Inr \<lparr>vi_intent = sample_intent s, vi_digest = iw_contentSha256 (sample_row s)\<rparr>"
proof -
  have r: "reconstructStoredIntent (sample_row s) = sample_intent s"
    by (simp add: reconstructStoredIntent_def sample_row_def)
      (simp add: sample_intent_def sample_lineage_def)
  have d: "iw_contentSha256 (sample_row s) =
      raw_text (json_norm (sealed_json (sample_intent s) (sample_content\<lparr>ic_side := s\<rparr>)))"
    by (simp only: sample_row_def intent_row.simps)
  show ?thesis
    unfolding verify_Inr r d using sample_content_sha[of s] by (simp only: simp_thms)
qed

lemma sample_read:
  assumes "order_of db ''i1'' = Some ord" and "db_intents db ''i1'' = Some (sample_row s)"
    and "lo_intentId ord = ''i1''" and "lo_clientOrderId ord = ''c1''" and "lo_accountId ord = ''a1''"
    and "lo_pair ord = ''BTC''" and "lo_orderedQuantity ord = ''2''" and "lo_lastProviderEventTimeMs ord = None"
  shows "requireVerifiedOrder (\<lambda>t. t) e db ''i1'' =
    Inr (ord, \<lparr>vi_intent = sample_intent s, vi_digest = iw_contentSha256 (sample_row s)\<rparr>)"
proof -
  obtain row where row: "db_orders db ''i1'' = Some row" "ow_order row = ord"
    using assms(1) by (auto simp: order_of_def)
  have t: "toStateRecord row = Inr ord"
    using row(2) assms(8) by (cases ord) (auto simp: toStateRecord_def bigIntToNumber_def)
  have "assertOrderProjectionMatchesIntent ord
      \<lparr>vi_intent = sample_intent s, vi_digest = iw_contentSha256 (sample_row s)\<rparr> = Inr ()"
    using assms(3-7) sample_canonical(2)[THEN canonical_of_positive]
    by (simp add: assertOrderProjectionMatchesIntent_def sample_intent_def sample_content_def)
  then show ?thesis
    using row t assms(2) sample_row_verified[of s]
    by (simp add: requireVerifiedOrder_def readVerifiedOrder_def)
qed

lemma sample_initial_read:
  "requireVerifiedOrder (\<lambda>t. t) e (sample_db s) ''i1'' =
    Inr (sample_initial, \<lparr>vi_intent = sample_intent s, vi_digest = iw_contentSha256 (sample_row s)\<rparr>)"
proof -
  have "order_of (sample_db s) ''i1'' = Some sample_initial" "db_intents (sample_db s) ''i1'' = Some (sample_row s)"
    by (simp_all add: sample_db_def)
  then show ?thesis by (rule sample_read) (simp_all add: sample_initial_def)
qed

lemma sample_claim:
  "\<exists>db'. claimDispatchTx sample_env 1 ''i1'' (Some (\<lambda>k. (True, k))) (sample_db s) () = (Inr (1, db'), ())"
proof -
  have c: "consumeAdmission ''i1'' (sample_content\<lparr>ic_side := s\<rparr>) (Some (\<lambda>k. (True, k))) (sample_db s) () =
      (Inr ((sample_db s)\<lparr>db_consumptions := [''ad1'' \<mapsto> \<lparr>cw_admissionId = ''ad1'', cw_intentId = ''i1'',
         cw_accountId = ''a1'', cw_pair = ''BTC'', cw_riskDecisionId = ''r1''\<rparr>],
         db_consumptionOfIntent := [''i1'' \<mapsto> ''ad1'']\<rparr>), ())"
    by (simp add: consumeAdmission_def sample_content_def sample_db_def empty_db_def put_order_def)
  let ?db = "(sample_db s)\<lparr>db_consumptions := [''ad1'' \<mapsto> \<lparr>cw_admissionId = ''ad1'', cw_intentId = ''i1'',
         cw_accountId = ''a1'', cw_pair = ''BTC'', cw_riskDecisionId = ''r1''\<rparr>],
         db_consumptionOfIntent := [''i1'' \<mapsto> ''ad1'']\<rparr>"
  have q: "canonicalLiveDecimalString (Some (lo_orderedQuantity sample_initial)) = Inr ''2''"
    using sample_canonical(2)[THEN canonical_of_positive] by (simp add: sample_initial_def)
  then have "\<exists>x. reserveOrderRow 1 ''i1'' sample_initial ?db = Inr x"
    unfolding reserveOrderRow_def q by simp
  then obtain n db' where r: "reserveOrderRow 1 ''i1'' sample_initial ?db = Inr (n, db')" by force
  have "n = 1"
    using reserveOrderRow_Inr[OF r] by (simp add: sample_db_def sample_initial_def)
  have e: "env_sha sample_env = (\<lambda>t. t)" by (simp add: sample_env_def)
  have a: "lo_state sample_initial = CREATED" "ir_content (sample_intent s) = sample_content\<lparr>ic_side := s\<rparr>"
    "ic_action (sample_content\<lparr>ic_side := s\<rparr>) = OPEN"
    by (simp_all add: sample_initial_def sample_intent_def sample_content_def)
  show ?thesis
    unfolding claimDispatchTx_def e sample_initial_read
    using a c r \<open>n = 1\<close> by simp
qed

lemma sample_commit:
  "\<exists>ord db'. commitState sample_env 1 (sample_initial\<lparr>lo_revision := 1\<rparr>) 0 (sample_db s) = Inr (ord, db')"
proof -
  have e: "env_sha sample_env = (\<lambda>t. t)" by (simp add: sample_env_def)
  let ?n = "sample_initial\<lparr>lo_revision := 1\<rparr>"
  have i: "lo_intentId ?n = ''i1''" by (simp add: sample_initial_def)
  have m: "assertOrderProjectionMatchesIntent ?n
      \<lparr>vi_intent = sample_intent s, vi_digest = iw_contentSha256 (sample_row s)\<rparr> = Inr ()"
    using sample_canonical(2)[THEN canonical_of_positive]
    by (simp add: assertOrderProjectionMatchesIntent_def sample_initial_def sample_intent_def sample_content_def)
  have q: "canonicalLiveDecimalString (Some (lo_orderedQuantity sample_initial)) = Inr ''2''"
    using sample_canonical(2)[THEN canonical_of_positive] by (simp add: sample_initial_def)
  have cc: "commit_columns sample_env ?n sample_initial = ?n"
    by (simp add: commit_columns_def sample_initial_def sample_env_def)
  have u: "updateManyOrder 1 ''i1'' (\<lambda>row. lo_revision row = 0 \<and> pinned sample_initial ''2'' row)
      (commit_columns sample_env ?n) (sample_db s) = (1, put_order 1 ''i1'' ?n (sample_db s))"
    unfolding updateManyOrder_def sample_db_def using cc
    by (simp add: put_order_def pinned_def) (simp add: sample_initial_def)
  have r: "requireVerifiedOrder (\<lambda>t. t) LIVE_PERSISTENCE_FAULT (put_order 1 ''i1'' ?n (sample_db s)) ''i1'' =
    Inr (?n, \<lparr>vi_intent = sample_intent s, vi_digest = iw_contentSha256 (sample_row s)\<rparr>)"
    by (rule sample_read) (simp_all add: sample_initial_def sample_db_def)
  have l: "lo_intentId sample_initial = ''i1''" "lo_revision sample_initial = 0" by (simp_all add: sample_initial_def)
  show ?thesis
    unfolding commitState_def i e sample_initial_read using m q u r l by simp
qed

theorem sealed_row_is_bound_witness:
  "verifyStoredIntentIntegrity (\<lambda>t. t) ((sample_row BUY)\<lparr>iw_content := sample_content\<lparr>ic_side := SELL\<rparr>\<rparr>)
   = Inl (Live LIVE_DURABLE_INTEGRITY_VIOLATION)"
proof -
  let ?r = "(sample_row BUY)\<lparr>iw_content := sample_content\<lparr>ic_side := SELL\<rparr>\<rparr>"
  have "iw_contentSha256 ?r = iw_contentSha256 (sample_row BUY)" by simp
  note w = sealed_row_is_bound[OF sample_row_verified this]
  have "sealed_view ?r \<noteq> sealed_view (sample_row BUY)"
  proof -
    have "canonicalContent (iw_content ?r) = Inr (sample_content\<lparr>ic_side := SELL\<rparr>)"
      "canonicalContent (iw_content (sample_row BUY)) = Inr (sample_content\<lparr>ic_side := BUY\<rparr>)"
      using sample_preimage_side(3) by (simp_all add: sample_row_def)
    moreover have "sample_content\<lparr>ic_side := SELL\<rparr> \<noteq> sample_content\<lparr>ic_side := BUY\<rparr>"
      by (simp add: sample_content_def)
    ultimately show ?thesis by (simp only: sealed_view_def prod.inject sum.inject simp_thms)
  qed
  moreover have "verifyStoredIntentIntegrity (\<lambda>t. t) ?r =
    (if sealed_view ?r = sealed_view (sample_row BUY)
     then Inr \<lparr>vi_intent = reconstructStoredIntent ?r, vi_digest = iw_contentSha256 (sample_row BUY)\<rparr>
     else Inl (Live LIVE_DURABLE_INTEGRITY_VIOLATION))"
    by (rule w) assumption
  ultimately show ?thesis by (simp only: if_False)
qed

theorem claim_dispatch_exclusive_witness:
  "\<exists>db'. claimDispatchTx sample_env 1 ''i1'' (Some (\<lambda>k. (True, k))) (sample_db BUY) () = (Inr (1, db'), ())
     \<and> (\<forall>now2 m db2. claimDispatchTx sample_env now2 ''i1'' (Some (\<lambda>k. (True, k))) db' () \<noteq> (Inr (Suc m, db2), ()))"
proof -
  obtain db' where c: "claimDispatchTx sample_env 1 ''i1'' (Some (\<lambda>k. (True, k))) (sample_db BUY) () = (Inr (1, db'), ())"
    using sample_claim by blast
  have "claimDispatchTx sample_env now2 ''i1'' (Some (\<lambda>k. (True, k))) db' () \<noteq> (Inr (Suc m, db2), ())" for now2 m db2
  proof
    assume again: "claimDispatchTx sample_env now2 ''i1'' (Some (\<lambda>k. (True, k))) db' () = (Inr (Suc m, db2), ())"
    show False
      using claim_dispatch_exclusive[OF c]
    proof (elim exE conjE)
      assume "\<forall>now2 consume2 (k2 :: unit) m db2 k3.
        claimDispatchTx sample_env now2 ''i1'' consume2 db' k2 = (Inr (m, db2), k3) \<longrightarrow> m = 0"
      from this[rule_format, OF again] show False by simp
    qed
  qed
  with c show ?thesis by blast
qed

theorem commit_compare_and_set_witness:
  "\<exists>ord db'. commitState sample_env 1 (sample_initial\<lparr>lo_revision := 1\<rparr>) 0 (sample_db BUY) = Inr (ord, db')
     \<and> (\<forall>r. commitState sample_env 2 (sample_initial\<lparr>lo_revision := 1\<rparr>) 0 db' \<noteq> Inr r)"
proof -
  obtain ord db' where c: "commitState sample_env 1 (sample_initial\<lparr>lo_revision := 1\<rparr>) 0 (sample_db BUY) = Inr (ord, db')"
    using sample_commit by blast
  have "(0::int) < lo_revision (sample_initial\<lparr>lo_revision := 1\<rparr>)" by simp
  note later = commit_compare_and_set[OF c this, THEN conjunct2, rule_format, OF db_advances_refl]
  have "commitState sample_env 2 (sample_initial\<lparr>lo_revision := 1\<rparr>) 0 db' \<noteq> Inr r" for r
    by (rule later) (rule refl)
  with c show ?thesis by blast
qed

theorem ensure_intent_idempotent_witness:
  "ensureIntent sample_env 5 (sample_intent BUY) (sample_db BUY) = Inr (sample_initial, sample_db BUY)"
  using ensure_intent_idempotent[OF sample_env_law sample_content_durable sample_recorded, of 5 BUY]
  by (simp only: sample_db_def simp_thms)

end
