(* ===== verification/Live_Gate.thy ===== *)
theory Live_Gate
  imports Live_Decimal Canonical_Json
begin

section \<open>The enablement gate\<close>

text \<open>
  \<^verbatim>\<open>src/execution/live/gate.ts\<close>: the only decision that turns live order mutation on, and the check
  of \<^verbatim>\<open>src/execution/live/authority.ts\<close> that an account and a pair are covered by it. The genuine
  \<^verbatim>\<open>LiveExecutionEnablement\<close> is its private record; a forged value reads as \<open>None\<close>.
\<close>

datatype disabled_reason =
    NOT_EXPLICITLY_ENABLED
  | MALFORMED_ENABLE_FLAG
  | UNSUPPORTED_ENVIRONMENT
  | MISSING_CREDENTIALS
  | MISSING_CREDENTIAL_ACCOUNT_ID
  | EMPTY_ACCOUNT_ALLOWLIST
  | EMPTY_PAIR_ALLOWLIST
  | MALFORMED_NOTIONAL_CEILING

record enablement =
  en_accountAllowlist :: "string list"
  en_pairAllowlist :: "string list"
  en_maxOrderNotionalInr :: string
  en_credentialAccountId :: string
  en_environment :: string

datatype gate_resolution = DISABLED disabled_reason | ENABLED enablement

record gate_config =
  cf_NODE_ENV :: "string option"
  cf_LIVE_EXECUTION_ENABLED :: "string option"
  cf_ACCOUNT_ALLOWLIST :: "string option"
  cf_PAIR_ALLOWLIST :: "string option"
  cf_MAX_ORDER_NOTIONAL_INR :: "string option"
  cf_COINDCX_API_KEY :: "string option"
  cf_COINDCX_API_SECRET :: "string option"
  cf_COINDCX_LIVE_ACCOUNT_ID :: "string option"

definition permitsAccount :: "enablement \<Rightarrow> string \<Rightarrow> bool" where
  "permitsAccount e accountId \<longleftrightarrow> List.member (en_accountAllowlist e) accountId"

definition permitsPair :: "enablement \<Rightarrow> string \<Rightarrow> bool" where
  "permitsPair e pair \<longleftrightarrow> List.member (en_pairAllowlist e) pair"

text \<open>\<^verbatim>\<open>raw.split(',')\<close>\<close>

fun split_comma :: "string \<Rightarrow> string list" where
  "split_comma [] = [[]]"
| "split_comma (c # s) =
     (if c = CHR '','' then [] # split_comma s
      else case split_comma s of [] \<Rightarrow> [[c]] | t # ts \<Rightarrow> (c # t) # ts)"

definition parseList :: "string option \<Rightarrow> string list" where
  "parseList raw =
     (case raw of
        None \<Rightarrow> []
      | Some r \<Rightarrow>
          let entries = filter (\<lambda>entry. length entry > 0) (map trim (split_comma r))
          in sort (set_of_values entries))"

definition blank :: "string option \<Rightarrow> bool" where
  "blank v \<longleftrightarrow> (case v of None \<Rightarrow> True | Some s \<Rightarrow> trim s = [])"

definition resolveLiveExecutionGate :: "gate_config \<Rightarrow> gate_resolution" where
  "resolveLiveExecutionGate config =
     (let rawFlag = cf_LIVE_EXECUTION_ENABLED config
      in if rawFlag = None \<or> rawFlag = Some [] \<or> rawFlag = Some ''false''
         then DISABLED NOT_EXPLICITLY_ENABLED
         else if rawFlag \<noteq> Some ''true'' then DISABLED MALFORMED_ENABLE_FLAG
         else if cf_NODE_ENV config \<noteq> Some ''production'' then DISABLED UNSUPPORTED_ENVIRONMENT
         else if blank (cf_COINDCX_API_KEY config) \<or> blank (cf_COINDCX_API_SECRET config)
         then DISABLED MISSING_CREDENTIALS
         else case cf_COINDCX_LIVE_ACCOUNT_ID config of
           None \<Rightarrow> DISABLED MISSING_CREDENTIAL_ACCOUNT_ID
         | Some credentialAccountId \<Rightarrow>
             if trim credentialAccountId = [] \<or> trim credentialAccountId \<noteq> credentialAccountId
             then DISABLED MISSING_CREDENTIAL_ACCOUNT_ID
             else
               let accountAllowlist = parseList (cf_ACCOUNT_ALLOWLIST config)
               in if length accountAllowlist = 0 then DISABLED EMPTY_ACCOUNT_ALLOWLIST
                  else if \<not> List.member accountAllowlist credentialAccountId
                  then DISABLED MISSING_CREDENTIAL_ACCOUNT_ID
                  else
                    let pairAllowlist = parseList (cf_PAIR_ALLOWLIST config)
                    in if length pairAllowlist = 0 then DISABLED EMPTY_PAIR_ALLOWLIST
                       else case canonicalPositiveLiveDecimal (cf_MAX_ORDER_NOTIONAL_INR config) of
                         Inl _ \<Rightarrow> DISABLED MALFORMED_NOTIONAL_CEILING
                       | Inr maxOrderNotionalInr \<Rightarrow>
                           ENABLED \<lparr>en_accountAllowlist = accountAllowlist,
                                    en_pairAllowlist = pairAllowlist,
                                    en_maxOrderNotionalInr = maxOrderNotionalInr,
                                    en_credentialAccountId = credentialAccountId,
                                    en_environment = ''production''\<rparr>)"

definition requireLiveExecutionEnabled :: "gate_config \<Rightarrow> (live_code, enablement) res" where
  "requireLiveExecutionEnabled config =
     (case resolveLiveExecutionGate config of
        DISABLED _ \<Rightarrow> Inl LIVE_EXECUTION_DISABLED
      | ENABLED e \<Rightarrow> Inr e)"

text \<open>\<^verbatim>\<open>assertGenuineEnablement\<close> of the mint functions.\<close>

definition assertGenuineEnablement :: "enablement option \<Rightarrow> string \<Rightarrow> string \<Rightarrow> (live_code, unit) res" where
  "assertGenuineEnablement e accountId pair =
     (case e of
        None \<Rightarrow> Inl LIVE_EXECUTION_DISABLED
      | Some r \<Rightarrow>
          if \<not> List.member (en_accountAllowlist r) accountId then Inl LIVE_EXECUTION_DISABLED
          else if en_credentialAccountId r \<noteq> accountId then Inl LIVE_EXECUTION_DISABLED
          else if \<not> List.member (en_pairAllowlist r) pair then Inl LIVE_EXECUTION_DISABLED
          else Inr ())"

subsection \<open>When the gate opens\<close>

text \<open>The fields of a comma-separated text, as the pieces between the commas.\<close>

fun join_fields :: "string list \<Rightarrow> string" where
  "join_fields [] = []"
| "join_fields [t] = t"
| "join_fields (t # u # ts) = t @ CHR '','' # join_fields (u # ts)"

lemma split_comma_nonempty: "split_comma s \<noteq> []"
  by (induction s) (auto split: list.splits)

lemma split_comma_no_comma: "t \<in> set (split_comma s) \<Longrightarrow> CHR '','' \<notin> set t"
proof (induction s arbitrary: t)
  case (Cons c s)
  then show ?case by (cases "split_comma s") (auto split: if_splits)
qed simp

lemma split_comma_join: "join_fields (split_comma s) = s"
proof (induction s)
  case (Cons c s)
  then show ?case using split_comma_nonempty[of s]
    by (cases "split_comma s"; cases "tl (split_comma s)") auto
qed simp

definition allow_listed :: "string option \<Rightarrow> string \<Rightarrow> bool" where
  "allow_listed raw x \<longleftrightarrow> x \<noteq> [] \<and> (\<exists>r t. raw = Some r \<and> t \<in> set (split_comma r) \<and> trim t = x)"

lemma parseList_set: "x \<in> set (parseList raw) \<longleftrightarrow> allow_listed raw x"
  by (auto simp: parseList_def allow_listed_def Let_def split: option.splits)

lemma parseList_sorted: "sorted (parseList raw)" "distinct (parseList raw)"
  by (auto simp: parseList_def Let_def split: option.splits)

lemma gate_ENABLED_iff:
  "resolveLiveExecutionGate config = ENABLED e \<longleftrightarrow>
     cf_LIVE_EXECUTION_ENABLED config = Some ''true'' \<and> cf_NODE_ENV config = Some ''production''
     \<and> \<not> blank (cf_COINDCX_API_KEY config) \<and> \<not> blank (cf_COINDCX_API_SECRET config)
     \<and> cf_COINDCX_LIVE_ACCOUNT_ID config = Some (en_credentialAccountId e)
     \<and> trim (en_credentialAccountId e) = en_credentialAccountId e
     \<and> allow_listed (cf_ACCOUNT_ALLOWLIST config) (en_credentialAccountId e)
     \<and> (\<exists>p. allow_listed (cf_PAIR_ALLOWLIST config) p)
     \<and> canonicalPositiveLiveDecimal (cf_MAX_ORDER_NOTIONAL_INR config) = Inr (en_maxOrderNotionalInr e)
     \<and> en_accountAllowlist e = parseList (cf_ACCOUNT_ALLOWLIST config)
     \<and> en_pairAllowlist e = parseList (cf_PAIR_ALLOWLIST config) \<and> en_environment e = ''production''"
proof -
  have ne: "length (parseList raw) \<noteq> 0 \<longleftrightarrow> (\<exists>p. allow_listed raw p)" for raw
    using parseList_set[of _ raw] by (cases "parseList raw") auto
  have al: "allow_listed raw x \<Longrightarrow> x \<noteq> []" for raw x by (simp add: allow_listed_def)
  show ?thesis
    unfolding resolveLiveExecutionGate_def Let_def
    using ne[of "cf_ACCOUNT_ALLOWLIST config"] ne[of "cf_PAIR_ALLOWLIST config"]
      parseList_set[of "en_credentialAccountId e" "cf_ACCOUNT_ALLOWLIST config"]
    by (cases e) (auto simp: parseList_set split: option.splits sum.splits if_splits dest: al)
qed

text \<open>C33. Live mutation is enabled exactly when the flag is the literal \<open>true\<close>, the environment is
  production, both credentials are non-blank, the credential account is an exact non-empty id that
  is itself on the account allow-list, some pair is allowed and the notional ceiling is a positive
  persisted decimal; the enablement then carries exactly these values.\<close>

theorem gate_opens_exactly:
  "resolveLiveExecutionGate config = ENABLED e \<longleftrightarrow>
     cf_LIVE_EXECUTION_ENABLED config = Some ''true'' \<and> cf_NODE_ENV config = Some ''production''
     \<and> \<not> blank (cf_COINDCX_API_KEY config) \<and> \<not> blank (cf_COINDCX_API_SECRET config)
     \<and> cf_COINDCX_LIVE_ACCOUNT_ID config = Some (en_credentialAccountId e)
     \<and> trim (en_credentialAccountId e) = en_credentialAccountId e
     \<and> allow_listed (cf_ACCOUNT_ALLOWLIST config) (en_credentialAccountId e)
     \<and> (\<exists>p. allow_listed (cf_PAIR_ALLOWLIST config) p)
     \<and> canonicalPositiveLiveDecimal (cf_MAX_ORDER_NOTIONAL_INR config) = Inr (en_maxOrderNotionalInr e)
     \<and> en_accountAllowlist e = parseList (cf_ACCOUNT_ALLOWLIST config)
     \<and> en_pairAllowlist e = parseList (cf_PAIR_ALLOWLIST config) \<and> en_environment e = ''production''"
  by (rule gate_ENABLED_iff)

text \<open>What the gate enables covers an account and a pair for the mint functions exactly when the
  account is the owner of the credentials and the pair is on the configured list; without an
  enablement nothing is covered.\<close>

theorem enablement_scope:
  assumes "resolveLiveExecutionGate config = ENABLED e"
  shows "(assertGenuineEnablement (Some e) accountId pair = Inr () \<longleftrightarrow>
            cf_COINDCX_LIVE_ACCOUNT_ID config = Some accountId
            \<and> allow_listed (cf_PAIR_ALLOWLIST config) pair)
     \<and> assertGenuineEnablement None accountId pair = Inl LIVE_EXECUTION_DISABLED
     \<and> requireLiveExecutionEnabled config = Inr e"
proof -
  note e = assms[unfolded gate_ENABLED_iff]
  from e have "assertGenuineEnablement (Some e) accountId pair = Inr () \<longleftrightarrow>
            cf_COINDCX_LIVE_ACCOUNT_ID config = Some accountId
            \<and> allow_listed (cf_PAIR_ALLOWLIST config) pair"
    by (auto simp: assertGenuineEnablement_def parseList_set)
  moreover have "requireLiveExecutionEnabled config = Inr e"
    by (simp add: requireLiveExecutionEnabled_def assms)
  ultimately show ?thesis by (simp add: assertGenuineEnablement_def)
qed

definition sample_config :: gate_config where
  "sample_config =
     \<lparr>cf_NODE_ENV = Some ''production'', cf_LIVE_EXECUTION_ENABLED = Some ''true'',
      cf_ACCOUNT_ALLOWLIST = Some ''a2, a1'', cf_PAIR_ALLOWLIST = Some ''BTC'',
      cf_MAX_ORDER_NOTIONAL_INR = Some ''100'', cf_COINDCX_API_KEY = Some ''k'',
      cf_COINDCX_API_SECRET = Some ''s'', cf_COINDCX_LIVE_ACCOUNT_ID = Some ''a1''\<rparr>"

theorem enablement_scope_witness:
  "\<exists>e. resolveLiveExecutionGate sample_config = ENABLED e
     \<and> assertGenuineEnablement (Some e) ''a1'' ''BTC'' = Inr ()
     \<and> assertGenuineEnablement (Some e) ''a2'' ''BTC'' \<noteq> Inr ()"
proof -
  have "case resolveLiveExecutionGate sample_config of ENABLED e \<Rightarrow> True | DISABLED _ \<Rightarrow> False"
    by code_simp
  then obtain e where e: "resolveLiveExecutionGate sample_config = ENABLED e"
    by (auto split: gate_resolution.splits)
  have "trim ''BTC'' = ''BTC''" by code_simp
  then have "allow_listed (cf_PAIR_ALLOWLIST sample_config) ''BTC''"
    by (simp add: allow_listed_def sample_config_def)
  moreover have "cf_COINDCX_LIVE_ACCOUNT_ID sample_config = Some ''a1''" by (simp add: sample_config_def)
  ultimately show ?thesis using enablement_scope[OF e] e by auto
qed

end
