(* ===== verification/Risk_Decimal.thy ===== *)
theory Risk_Decimal
  imports Decimal_Context Canonical_Json
begin

section \<open>Decimals of the risk engine\<close>

text \<open>
  The part of \<^verbatim>\<open>src/risk/decimal.ts\<close> the admission coordinator computes with: exact addition on
  decimal text and the canonical text of a number. A \<^verbatim>\<open>RiskValue\<close> is the rational it denotes, as every
  decimal.js value. The lemmas show that addition is exact, without the context's rounding.
\<close>

text \<open>What the risk engine throws: the codes of \<^verbatim>\<open>src/risk/errors.ts\<close>, a numeric context that is exceeded, a
  value that has no canonical text, a plain error, and one of the strategy layer.\<close>

datatype risk_error =
    RISK_SOURCE_INVALID
  | RISK_CONFIG_INVALID
  | RISK_OVERRIDE_INVALID
  | UNSUPPORTED_RISK_MODE
  | RISK_POLICY_IDENTITY_MISMATCH
  | ValuationNumericContextError
  | CanonicalJsonError json_error
  | PlainError
  | StrategyError

text \<open>\<^verbatim>\<open>BigInt(text)\<close> for an optional minus sign and digits.\<close>

definition bigint_text :: "string \<Rightarrow> int" where
  "bigint_text s = (if negative_text s then - int (digits_nat (tl s)) else int (digits_nat s))"

definition exactSum :: "string \<Rightarrow> string \<Rightarrow> string" where
  "exactSum left right =
     (let (li, lf) = split_dot left;
          (ri, rf) = split_dot right;
          a = li @ lf; as = length lf; b = ri @ rf; bs = length rf;
          scale = (if as > bs then as else bs);
          coefficient = bigint_text a * 10 ^ (scale - as) + bigint_text b * 10 ^ (scale - bs);
          negative = coefficient < 0;
          digits = pad_start (scale + 1) (nat_digits (nat (if negative then - coefficient else coefficient)))
      in (if negative then ''-'' else [])
         @ (if scale = 0 then digits
            else take (length digits - scale) digits @ ''.'' @ drop (length digits - scale) digits))"

definition riskDecimal :: "decimal_js \<Rightarrow> string \<Rightarrow> rat" where
  "riskDecimal D value = dnew D value"

definition risk_plus :: "decimal_js \<Rightarrow> rat \<Rightarrow> string \<Rightarrow> rat" where
  "risk_plus D x right = riskDecimal D (exactSum (dfixed D x) right)"

definition canonicalDecimalString :: "string \<Rightarrow> (risk_error, string) res" where
  "canonicalDecimalString value =
     (if \<not> signed_text value then Inl RISK_SOURCE_INVALID
      else
        let negative = negative_text value;
            unsigned = (if negative then tl value else value);
            (rawInteger, rawFraction) = split_dot unsigned;
            integer = (if strip_leading_zeros rawInteger = [] then ''0'' else strip_leading_zeros rawInteger);
            fraction = strip_trailing_zeros rawFraction;
            zero = (integer = ''0'' \<and> length fraction = 0)
        in Inr ((if negative \<and> \<not> zero then ''-'' else [])
                @ integer @ (if length fraction = 0 then [] else ''.'' @ fraction)))"

subsection \<open>Addition is exact\<close>

lemma exactSum_scaled:
  assumes "split_dot left = (li, lf)" and "split_dot right = (ri, rf)"
  defines "s \<equiv> max (length lf) (length rf)"
  shows "exactSum left right =
    scaled_text (bigint_text (li @ lf) * 10 ^ (s - length lf) + bigint_text (ri @ rf) * 10 ^ (s - length rf)) s"
proof -
  have s: "(if length lf > length rf then length lf else length rf) = s" by (simp add: s_def max_def)
  define c where "c = bigint_text (li @ lf) * 10 ^ (s - length lf) + bigint_text (ri @ rf) * 10 ^ (s - length rf)"
  have n: "nat (if c < 0 then - c else c) = nat \<bar>c\<bar>" by simp
  define ds where "ds = pad_start (s + 1) (nat_digits (nat \<bar>c\<bar>))"
  have len: "s < length ds" by (simp add: ds_def pad_start_def)
  have "length (drop (length ds - s) ds) = s" using len by simp
  then have "drop (length ds - s) ds \<noteq> []" if "s \<noteq> 0" using that by (metis length_0_conv)
  then have "exactSum left right = scaled_text c s"
    unfolding exactSum_def Let_def assms(1,2) prod.case s c_def[symmetric] n ds_def[symmetric]
      scaled_text_def join_dot_def
    using len by (cases "s = 0") simp_all
  then show ?thesis by (simp only: c_def)
qed

lemma bigint_value:
  assumes "signed_text t"
  obtains i f where "split_dot t = (i, f)" and "text_value t = of_int (bigint_text (i @ f)) / 10 ^ length f"
proof -
  have u: "unsigned_text (unsigned_part t)" using assms by (simp add: signed_text_def)
  obtain i f where j: "unsigned_part t = join_dot i f" "list_all is_digit i" "list_all is_digit f" "i \<noteq> []"
    using u by (auto elim: unsigned_textE)
  have v: "text_value t = (if negative_text t then - 1 else 1) * (of_nat (digits_nat (i @ f)) / 10 ^ length f)"
    using text_value_signed[OF assms] unsigned_value_join[OF j(2,3)] by (simp add: j(1))
  show thesis
  proof (cases "negative_text t")
    case True
    then obtain u' where t: "t = CHR ''-'' # u'" by (cases t) (auto simp: negative_text_def)
    have u': "u' = join_dot i f" using j(1) True t by (simp add: unsigned_part_def)
    have sp: "split_dot t = (CHR ''-'' # i, f)"
      using split_join_dot[OF j(2,3)] by (simp add: t u' split_dot_def)
    have "bigint_text ((CHR ''-'' # i) @ f) = - int (digits_nat (i @ f))"
      by (simp add: bigint_text_def negative_text_def)
    with sp v True show thesis by (intro that) auto
  next
    case False
    then have t: "t = join_dot i f" using j(1) by (simp add: unsigned_part_not_negative)
    have sp: "split_dot t = (i, f)" using split_join_dot[OF j(2,3)] by (simp add: t)
    have "\<not> negative_text (i @ f)"
      using j(2,4) by (cases i) (auto simp: negative_text_def)
    with sp v False show thesis by (intro that) (auto simp: bigint_text_def)
  qed
qed

lemma exactSum_value:
  assumes "signed_text l" and "signed_text r"
  shows "signed_text (exactSum l r)" and "text_value (exactSum l r) = text_value l + text_value r"
proof -
  obtain li lf where l: "split_dot l = (li, lf)" "text_value l = of_int (bigint_text (li @ lf)) / 10 ^ length lf"
    by (rule bigint_value[OF assms(1)])
  obtain ri rf where r: "split_dot r = (ri, rf)" "text_value r = of_int (bigint_text (ri @ rf)) / 10 ^ length rf"
    by (rule bigint_value[OF assms(2)])
  let ?s = "max (length lf) (length rf)"
  note e = exactSum_scaled[OF l(1) r(1)]
  have scale: "of_int (c * 10 ^ (?s - k)) / 10 ^ ?s = (of_int c / 10 ^ k :: rat)" if "k \<le> ?s" for c k
  proof -
    have "(10::rat) ^ ?s = 10 ^ (?s - k) * 10 ^ k" using that by (simp flip: power_add)
    then show ?thesis by simp
  qed
  show "signed_text (exactSum l r)" unfolding e by (rule scaled_text_signed)
  show "text_value (exactSum l r) = text_value l + text_value r"
    unfolding e scaled_text_value of_int_add add_divide_distrib l(2) r(2)
    by (simp only: scale max.cobounded1 max.cobounded2)
qed

lemma canonicalDecimalString_signed:
  assumes "signed_text v"
  shows "canonicalDecimalString v = Inr (normalize_text v)"
proof -
  from assms obtain i f where u: "unsigned_part v = join_dot i f" "list_all is_digit i"
      "list_all is_digit f" "i \<noteq> []"
    unfolding signed_text_def by (rule unsigned_textE)
  have "(if negative_text v then tl v else v) = join_dot i f" using u by (simp add: unsigned_part_def)
  with assms u show ?thesis
    by (simp add: canonicalDecimalString_def normalize_text_def split_join_dot Let_def)
      (simp add: join_dot_def)
qed

context decimal_lib
begin

lemma riskDecimal_signed: "signed_text v \<Longrightarrow> riskDecimal D v = text_value v"
  by (simp add: riskDecimal_def dnew_text)

lemma riskDecimal_0: "riskDecimal D ''0'' = 0"
proof -
  have "signed_text ''0''" "text_value ''0'' = 0" by code_simp+
  then show ?thesis by (simp add: riskDecimal_signed)
qed

lemma risk_plus_exact:
  assumes "decimal_fraction x" and "signed_text r"
  shows "risk_plus D x r = x + text_value r" and "decimal_fraction (x + text_value r)"
proof -
  have s: "signed_text (dfixed D x)" by (rule normal_signed_text[OF dfixed_normal[OF assms(1)]])
  note e = exactSum_value[OF s assms(2)]
  show "risk_plus D x r = x + text_value r"
    using e by (simp add: risk_plus_def riskDecimal_signed dfixed_value[OF assms(1)])
  show "decimal_fraction (x + text_value r)"
    using e(2) decimal_fraction_text_value[of "exactSum (dfixed D x) r"] by (simp add: dfixed_value[OF assms(1)])
qed

end

end
