(* ===== verification/Risk_Types.thy ===== *)
theory Risk_Types
  imports Live_Types Canonical_Json Risk_Decimal
begin

section \<open>The vocabulary of the risk engine\<close>

text \<open>
  \<^verbatim>\<open>src/risk/types.ts\<close> and the strategy decisions of \<^verbatim>\<open>src/strategies/core/types.ts\<close> it is fed with.
  An amount is the decimal text the code carries; a nullable field is an option; a record of texts is
  the list of its members in order. The shape a JavaScript value has to be checked for at run time
  (exact keys, types of the fields) is what the types of these records say.
\<close>

subsection \<open>Strategy decisions\<close>

datatype target_exposure = TARGET_LONG | TARGET_SHORT | TARGET_FLAT

datatype decision_status = WARMING | READY

record strategy_decision =
  sd_decisionId :: string
  sd_decisionSequence :: int
  sd_strategyInstanceId :: string
  sd_strategyId :: string
  sd_strategyVersion :: string
  sd_parameterHash :: string
  sd_pair :: string
  sd_evaluationTimeMs :: int
  sd_triggerTimeframeMinutes :: int
  sd_status :: decision_status
  sd_targetExposure :: "target_exposure option"
  sd_reasonCodes :: "string list"

record bootstrap_entry =
  be_timeframeMinutes :: int
  be_bootstrapStartOpenTimeMs :: int

record strategy_lineage =
  sl_normalizedParameters :: json
  sl_indicatorBootstrapIdentity :: "bootstrap_entry list"

record strategy_candidate =
  cd_strategyDecision :: strategy_decision
  cd_strategyLineage :: strategy_lineage
  cd_pair :: string
  cd_instrumentSpecSnapshotId :: string

text \<open>What a kernel vouches for of a decision it emitted (\<^verbatim>\<open>src/strategies/core/kernel.ts\<close>). The class with a
  private field that carries it is the type: a value of it is genuine.\<close>

record strategy_instance =
  si_pair :: string
  si_strategyId :: string
  si_strategyVersion :: string
  si_parameterHash :: string
  si_strategyInstanceId :: string
  si_normalizedParameters :: json
  si_indicatorBootstrapIdentity :: "bootstrap_entry list"
  si_triggerTimeframeMinutes :: int

record decision_origin =
  or_decision :: strategy_decision
  or_instance :: strategy_instance

subsection \<open>Evidence and proposals\<close>

datatype risk_mode = SAFE | NORMAL | HIGH | CUSTOM
datatype risk_action = OPEN_ACTION | CLOSE_ACTION | NO_CHANGE | REVERSAL_DEFERRED
datatype audit_outcome = PASS | FAIL | SKIPPED

record provenance =
  pv_sourceId :: string
  pv_sourceTimeMs :: "int option"
  pv_observedAtMs :: int
  pv_contentSha256 :: string

record entry_stop =
  es_proposalId :: string
  es_proposalPolicyId :: string
  es_sourceStrategyDecisionId :: string
  es_pair :: string
  es_entryPriceUsdt :: string
  es_stopPriceUsdt :: string
  es_provenance :: provenance

record leverage_proposal =
  lp_proposalId :: string
  lp_proposalPolicyId :: string
  lp_sourceStrategyDecisionId :: string
  lp_requestedLeverage :: "string option"

subsection \<open>The pair, its position and who owns it\<close>

record ownership_record =
  ow_strategyInstanceId :: string
  ow_strategyId :: string
  ow_strategyVersion :: string
  ow_parameterHash :: string
  ow_currentQuantity :: string
  ow_currentNotionalInr :: string

text \<open>Account, pair, and for an open position its identity and the owning instances.\<close>

datatype position_ownership =
    RECONCILED_FLAT string string
  | RECONCILED_OPEN string string string "ownership_record list"
  | UNRECONCILED

record position_valuation =
  vl_valuationMethodVersion :: string
  vl_valuationPriceField :: string
  vl_valuationPriceUsdt :: string
  vl_valuationPriceSourceId :: string
  vl_valuationPriceSourceTimeMs :: "int option"
  vl_valuationPriceObservedAtMs :: int
  vl_contractMultiplier :: string
  vl_conversionMarket :: string
  vl_conversionRateInrPerUsdt :: string
  vl_conversionSourceId :: string
  vl_unitValuationInrPerQty :: string
  vl_aggregateCurrentNotionalInr :: string

record open_position =
  op_positionId :: string
  op_positionDirection :: position_side
  op_quantityMagnitude :: string
  op_valuation :: "position_valuation option"

datatype pair_position = POSITION_FLAT | POSITION_OPEN open_position

record pair_snapshot =
  ps_pair :: string
  ps_instrumentSpecSnapshotId :: string
  ps_status :: string
  ps_exitOnly :: bool
  ps_priceIncrement :: string
  ps_quantityIncrement :: string
  ps_minPrice :: string
  ps_maxPrice :: string
  ps_minQuantity :: string
  ps_maxQuantity :: string
  ps_minTradeSize :: string
  ps_minNotional :: string
  ps_maxNotional :: "string option"
  ps_contractMultiplier :: string
  ps_position :: pair_position
  ps_ownership :: position_ownership
  ps_provenance :: provenance

subsection \<open>Exposure, account, tiers and conversion\<close>

record pending_reservation =
  pr_strategyInstanceId :: string
  pr_strategyId :: string
  pr_strategyVersion :: string
  pr_parameterHash :: string
  pr_pendingNotionalInr :: string
  pr_pendingReservationCount :: int

record known_pending =
  kp_globalPendingNotionalInr :: string
  kp_pairPendingNotionalInr :: "(string \<times> string) list"
  kp_strategyPendingNotionalInr :: "(string \<times> string) list"
  kp_instancePendingReservations :: "pending_reservation list"
  kp_pendingReservationCount :: int
  kp_longInr :: string
  kp_shortInr :: string

datatype pending_exposure = KNOWN known_pending | UNKNOWN

record exposure_snapshot =
  ex_accountId :: string
  ex_globalOpenNotionalInr :: string
  ex_perPairOpenNotionalInr :: "(string \<times> string) list"
  ex_perStrategyOpenNotionalInr :: "(string \<times> string) list"
  ex_concurrentOpenPositions :: int
  ex_pending :: pending_exposure
  ex_provenance :: provenance

record daily_pnl =
  dp_realizedTradingPnlInr :: string
  dp_fundingPnlInr :: string
  dp_feesInr :: string
  dp_otherAccountAdjustmentsInr :: string
  dp_netDailyPnlInr :: string

record account_snapshot =
  ac_accountId :: string
  ac_provenance :: provenance
  ac_accountStateKnown :: bool
  ac_availableMarginInr :: string
  ac_lockedMarginInr :: string
  ac_currentEquityInr :: string
  ac_peakEquityInr :: string
  ac_dailyPnl :: daily_pnl
  ac_consecutiveLossCount :: int
  ac_cooldownActiveUntilMs :: "int option"
  ac_accountMaxLeverage :: "string option"
  ac_reconciliationSourceIds :: "string list"

record leverage_tier =
  tr_tierId :: string
  tr_lowerNotionalUsdt :: string
  tr_upperNotionalUsdt :: "string option"
  tr_lowerInclusive :: bool
  tr_upperInclusive :: bool
  tr_maxLeverage :: string

record safety_margin_tier =
  sm_positionSizeThresholdUsdt :: string
  sm_maintenanceMarginPercent :: string

record tier_snapshot =
  ts_pair :: string
  ts_provenance :: provenance
  ts_verified :: bool
  ts_semanticsVersion :: "string option"
  ts_exchangeMaxLeverage :: string
  ts_tiers :: "leverage_tier list"
  ts_safetyMarginTiers :: "safety_margin_tier list"
  ts_legacyMaxLeverageLongIgnored :: "string option"
  ts_legacyMaxLeverageShortIgnored :: "string option"

record settlement_snapshot =
  st_conversionMarketId :: string
  st_sourceCurrency :: string
  st_targetCurrency :: string
  st_marginCurrency :: string
  st_rateInrPerUsdt :: string
  st_provenance :: provenance

subsection \<open>Policies\<close>

record global_config =
  gc_globalRiskConfigId :: string
  gc_globalMaxLeverage :: string
  gc_globalMaxOpenNotionalInr :: string
  gc_globalMaxConcurrentPositions :: int
  gc_globalMaxDailyLossInr :: string
  gc_globalDailyLossLimitPercent :: "string option"
  gc_globalMaxDrawdownPercent :: string

record pair_config =
  pc_pair :: string
  pc_pairRiskConfigId :: string
  pc_pairMaxLeverage :: string
  pc_pairMaxExposureInr :: string
  pc_pairMaxConcurrentPositions :: "int option"

record mode_config =
  mc_mode :: risk_mode
  mc_riskModeConfigId :: string
  mc_riskPerTradePercent :: string
  mc_maxNotionalPerTradeInr :: string
  mc_leverageRecommendation :: string
  mc_maxConcurrentExposureInr :: string
  mc_maxCoinExposureInr :: string
  mc_maxStrategyExposureInr :: string
  mc_maxConcurrentPositions :: int
  mc_maxDailyLossInr :: string
  mc_dailyLossLimitPercent :: "string option"
  mc_maxDrawdownPercent :: string
  mc_consecutiveLossLimit :: "int option"
  mc_cooldownMs :: "int option"

record risk_override =
  ov_overrideId :: string
  ov_overrideRiskPerTradePercent :: "string option"
  ov_overrideMaxLeverage :: "string option"
  ov_overrideMaxNotionalInr :: "string option"

record freshness_policy =
  fp_riskFreshnessPolicyId :: string
  fp_maxAccountSnapshotAgeMs :: int
  fp_maxPairSnapshotAgeMs :: int
  fp_maxExposureSnapshotAgeMs :: int
  fp_maxLeverageTierSnapshotAgeMs :: int
  fp_maxSettlementRateSnapshotAgeMs :: int

record source_policy =
  sp_riskSourceAuthorityPolicyId :: string
  sp_accountRiskSourceId :: string
  sp_pairRiskSourceId :: string
  sp_exposureSourceId :: string
  sp_leverageTierSourceId :: string
  sp_conversionSourceId :: string

record valuation_policy =
  vp_riskValuationPolicyId :: string
  vp_valuationMethodVersion :: string
  vp_valuationPriceField :: string
  vp_valuationUnitScale :: int
  vp_valuationUnitRounding :: string

record risk_policy =
  rp_globalConfig :: global_config
  rp_pairConfig :: pair_config
  rp_modeConfig :: mode_config
  rp_sourceAuthorityPolicy :: source_policy
  rp_freshnessPolicy :: freshness_policy
  rp_valuationPolicy :: valuation_policy
  rp_positionSizingPolicyId :: string
  rp_riskPolicyId :: string

subsection \<open>Reasons for rejecting\<close>

text \<open>The codes of \<^verbatim>\<open>src/risk/reason-codes.ts\<close>, the first group about the trade and the second about
  the evidence.\<close>

datatype rejection_code =
    INVALID_ENTRY_PRICE | INVALID_STOP_PRICE | INVALID_STOP_DISTANCE | RISK_BUDGET_NON_POSITIVE
  | MIN_QUANTITY_NOT_MET | MIN_NOTIONAL_NOT_MET | INSUFFICIENT_MARGIN | NO_VALID_LEVERAGE_TIER
  | INSTRUMENT_NOT_TRADEABLE_FOR_NEW_EXPOSURE | GLOBAL_EXPOSURE_LIMIT | PAIR_EXPOSURE_LIMIT
  | STRATEGY_EXPOSURE_LIMIT | MAX_CONCURRENT_POSITIONS | DAILY_LOSS_LIMIT
  | DAILY_LOSS_PERCENT_LIMIT | DRAWDOWN_LIMIT | CONSECUTIVE_LOSS_COOLDOWN_ACTIVE
  | NO_CHANGE_TARGET_ALREADY_HELD | REVERSAL_REQUIRES_SEQUENTIAL_EVALUATION
  | ACCOUNT_STATE_UNAVAILABLE | ACCOUNT_STATE_STALE | ACCOUNT_IDENTITY_MISMATCH | PAIR_STATE_UNAVAILABLE
  | EXPOSURE_STATE_UNAVAILABLE | EXPOSURE_STATE_STALE | PENDING_EXPOSURE_UNKNOWN
  | POSITION_OWNERSHIP_UNRECONCILED | POSITION_OWNERSHIP_MISMATCH | POSITION_IDENTITY_MISMATCH
  | EVIDENCE_TEMPORAL_CAUSALITY_VIOLATION | SOURCE_ID_MISMATCH | VALUATION_METHOD_MISMATCH
  | VALUATION_NUMERIC_CONTEXT_EXCEEDED | LEVERAGE_TIERS_UNAVAILABLE | LEVERAGE_TIERS_STALE
  | LEVERAGE_TIER_SEMANTICS_UNVERIFIED | SETTLEMENT_RATE_UNAVAILABLE | SETTLEMENT_RATE_STALE
  | DECISION_IDENTITY_MISMATCH

subsection \<open>Decisions\<close>

datatype cap_value = RESOLVED string | NOT_APPLICABLE | UNRESOLVED

record caps_applied =
  cp_riskPerTradePercentApplied :: cap_value
  cp_maxNotionalPerTradeInrApplied :: cap_value
  cp_requestedLeverage :: cap_value
  cp_modeRecommendedLeverage :: cap_value
  cp_exchangeMaxLeverage :: cap_value
  cp_tierMaxLeverage :: cap_value
  cp_accountMaxLeverage :: cap_value
  cp_pairMaxLeverage :: cap_value
  cp_globalMaxLeverage :: cap_value
  cp_finalLeverage :: cap_value

record audit_step =
  as_step :: nat
  as_name :: string
  as_outcome :: audit_outcome
  as_reasonCodes :: "rejection_code list"

record content_hashes =
  ch_accountSnapshotSha256 :: "string option"
  ch_pairSnapshotSha256 :: string
  ch_exposureSnapshotSha256 :: "string option"
  ch_leverageTierSnapshotSha256 :: "string option"
  ch_settlementRateSnapshotSha256 :: "string option"

record sizing_values =
  sv_riskBudgetInr :: string
  sv_riskCappedQuantity :: string
  sv_finalQuantity :: string
  sv_finalLeverage :: string
  sv_finalNotionalUsdt :: string
  sv_finalNotionalInr :: string
  sv_estimatedInitialMarginUsdt :: string
  sv_estimatedInitialMarginInr :: string
  sv_estimatedStopLossRiskInr :: string

datatype sizing_outcome = SIZED | NOT_SIZED | SIZING_NOT_APPLICABLE

record sizing_decision =
  zd_positionSizingDecisionId :: string
  zd_sourceStrategyDecisionId :: string
  zd_strategyInstanceId :: string
  zd_pair :: string
  zd_instrumentSpecSnapshotId :: string
  zd_positionSizingPolicyId :: string
  zd_action :: risk_action
  zd_outcome :: sizing_outcome
  zd_sizing :: "sizing_values option"
  zd_sizingReasonCodes :: "rejection_code list"
  zd_auditTrail :: "audit_step list"

record decision_base =
  db_riskDecisionId :: string
  db_riskPolicyId :: string
  db_sourceStrategyDecisionId :: string
  db_sourcePositionSizingDecisionId :: string
  db_strategyId :: string
  db_strategyVersion :: string
  db_parameterHash :: string
  db_strategyInstanceId :: string
  db_pair :: string
  db_riskMode :: risk_mode
  db_evaluationTimeMs :: int
  db_capsApplied :: caps_applied
  db_auditTrail :: "audit_step list"
  db_inputContentHashes :: content_hashes

record approved_open =
  ap_approvedQuantity :: string
  ap_approvedLeverage :: string
  ap_approvedNotionalUsdt :: string
  ap_approvedNotionalInr :: string
  ap_estimatedInitialMarginUsdt :: string
  ap_estimatedInitialMarginInr :: string
  ap_estimatedStopLossRiskInr :: string

record approved_close =
  al_approvedQuantity :: string
  al_approvedNotionalUsdt :: string
  al_approvedNotionalInr :: string

datatype risk_decision =
    ACCEPTED_OPEN "decision_base \<times> approved_open"
  | ACCEPTED_CLOSE "decision_base \<times> approved_close"
  | RISK_REJECTED decision_base risk_action rejection_code "rejection_code list"

subsection \<open>The input of one evaluation\<close>

record risk_context =
  rc_strategyOrigin :: "decision_origin option"
  rc_candidate :: strategy_candidate
  rc_entryStopProposal :: "entry_stop option"
  rc_leverageProposal :: "leverage_proposal option"
  rc_override :: "risk_override option"
  rc_evaluationTimeMs :: int
  rc_expectedRiskPolicyId :: "string option"
  rc_accountSnapshot :: "account_snapshot option"
  rc_pairSnapshot :: pair_snapshot
  rc_exposureSnapshot :: "exposure_snapshot option"
  rc_leverageTierSnapshot :: "tier_snapshot option"
  rc_settlementRateSnapshot :: "settlement_snapshot option"

record sizing_request =
  sq_action :: risk_action
  sq_candidate :: strategy_candidate
  sq_entryStopProposal :: "entry_stop option"
  sq_leverageProposal :: "leverage_proposal option"
  sq_override :: "risk_override option"
  sq_accountSnapshot :: "account_snapshot option"
  sq_pairSnapshot :: pair_snapshot
  sq_exposureSnapshot :: "exposure_snapshot option"
  sq_leverageTierSnapshot :: "tier_snapshot option"
  sq_settlementRateSnapshot :: "settlement_snapshot option"

end
