(* ===== verification/Risk_Calc.thy ===== *)
theory Risk_Calc
  imports Risk_Decimal "HOL-Library.Signed_Division"
begin

section \<open>Calculation of the risk engine\<close>

text \<open>
  The rest of \<^verbatim>\<open>src/risk/decimal.ts\<close>. The file makes two private clones of decimal.js with 128 digits,
  one that rounds half up and one that rounds up for margins; \<open>cj_margin\<close> is the rounding of the second,
  \<open>cj_sd\<close> the number of significant digits and \<open>cj_places\<close> the rounding to decimal places. Where the code
  writes a value out and reads it back (\<^verbatim>\<open>unwrap\<close>, \<^verbatim>\<open>riskDecimal(x.toFixed())\<close>) the number stays the same
  and the model keeps it. The locale states what is relied on; the lemmas show that a checked product and
  the floor of a ratio are exact, so that no cap is exceeded by rounding.
\<close>

record calc_js =
  cj_D :: decimal_js
  cj_margin :: "rat \<Rightarrow> rat"
  cj_sd :: "rat \<Rightarrow> nat"
  cj_places :: "int \<Rightarrow> rat \<Rightarrow> rat"

definition risk_minus :: "decimal_js \<Rightarrow> rat \<Rightarrow> string \<Rightarrow> rat" where
  "risk_minus D x right = risk_plus D x (dfixed D (- riskDecimal D right))"

definition risk_mul :: "decimal_js \<Rightarrow> rat \<Rightarrow> rat \<Rightarrow> rat" where
  "risk_mul D x y = dround D (x * y)"

definition risk_div :: "decimal_js \<Rightarrow> rat \<Rightarrow> rat \<Rightarrow> rat" where
  "risk_div D x y = dround D (x / y)"

definition risk_divUp :: "calc_js \<Rightarrow> rat \<Rightarrow> rat \<Rightarrow> rat" where
  "risk_divUp C x y = cj_margin C (x / y)"

text \<open>The remainder of the division that truncates towards zero.\<close>

definition risk_mod :: "decimal_js \<Rightarrow> rat \<Rightarrow> rat \<Rightarrow> rat" where
  "risk_mod D x y = dround D (x - y * of_int (if 0 \<le> x / y then \<lfloor>x / y\<rfloor> else \<lceil>x / y\<rceil>))"

definition canonicalRiskDecimal :: "decimal_js \<Rightarrow> rat \<Rightarrow> (risk_error, string) res" where
  "canonicalRiskDecimal D x = canonicalDecimalString (dfixed D x)"

definition assertRiskDecimalContext :: "calc_js \<Rightarrow> rat list \<Rightarrow> (risk_error, unit) res" where
  "assertRiskDecimalContext C values =
     (if list_ex (\<lambda>v. cj_sd C v > 128) values then Inl ValuationNumericContextError else Inr ())"

definition checked_step :: "calc_js \<Rightarrow> rat \<Rightarrow> rat \<Rightarrow> (risk_error, rat) res" where
  "checked_step C result v =
     (if cj_sd C result + cj_sd C v > 128 then Inl ValuationNumericContextError
      else Inr (risk_mul (cj_D C) result v))"

definition checkedProduct :: "calc_js \<Rightarrow> rat list \<Rightarrow> (risk_error, rat) res" where
  "checkedProduct C values =
     rbind (assertRiskDecimalContext C values) (\<lambda>_.
       foldl_res (checked_step C) (riskDecimal (cj_D C) ''1'') values)"

definition ratio_parts :: "decimal_js \<Rightarrow> rat \<Rightarrow> int \<times> nat" where
  "ratio_parts D v = (case split_dot (dfixed D v) of (integer, fraction) \<Rightarrow> (bigint_text (integer @ fraction), length fraction))"

definition floorRatioToIncrement :: "calc_js \<Rightarrow> rat \<Rightarrow> rat \<Rightarrow> rat \<Rightarrow> (risk_error, rat) res" where
  "floorRatioToIncrement C numerator denominator increment =
     (let (n, ns) = ratio_parts (cj_D C) numerator;
          (d, ds) = ratio_parts (cj_D C) denominator;
          (i, is') = ratio_parts (cj_D C) increment
      in if d \<le> 0 \<or> i \<le> 0 then Inl ValuationNumericContextError
         else
           let top = n * 10 ^ (ds + is'); bottom = d * i * 10 ^ ns;
               quotient = top sdiv bottom - (if top < 0 \<and> top smod bottom \<noteq> 0 then 1 else 0)
           in checkedProduct C [riskDecimal (cj_D C) (json_integer quotient), increment])"

definition floorToIncrement :: "calc_js \<Rightarrow> rat \<Rightarrow> rat \<Rightarrow> (risk_error, rat) res" where
  "floorToIncrement C v increment = floorRatioToIncrement C v (riskDecimal (cj_D C) ''1'') increment"

lemma sdiv_floor:
  assumes "(0::int) < b"
  shows "a sdiv b - (if a < 0 \<and> a smod b \<noteq> 0 then 1 else 0) = a div b"
proof (cases "0 \<le> a")
  case True
  then show ?thesis using assms by (simp add: signed_divide_int_def sgn_if)
next
  case False
  then have "a sdiv b = - (- a div b)" and "a smod b = - (- a mod b)"
    using assms by (simp_all add: signed_divide_int_def signed_modulo_int_def sgn_if minus_mult_div_eq_mod[symmetric])
  moreover have "a div b = - (- a div b) - (if - a mod b = 0 then 0 else 1)"
    using zdiv_zminus1_eq_if[of b "- a"] assms by simp
  ultimately show ?thesis using False by simp
qed

subsection \<open>What is relied on\<close>

locale risk_arith = decimal_lib "cj_D C" 128 for C :: calc_js +
  assumes sd_digits: "decimal_fraction x \<Longrightarrow> \<exists>c k. x = of_int c * 10 powi k \<and> \<bar>c\<bar> < 10 ^ cj_sd C x"
    and round_scaled: "\<bar>c\<bar> < 10 ^ 128 \<Longrightarrow> dround (cj_D C) (of_int c * 10 powi k) = of_int c * 10 powi k"
    and margin_up: "x \<le> cj_margin C x"
    and margin_decimal: "decimal_fraction (cj_margin C x)"
    and places_decimal: "decimal_fraction (cj_places C n x)"
begin

abbreviation "D \<equiv> cj_D C"

lemma risk_minus_exact:
  assumes "decimal_fraction x" and "signed_text r"
  shows "risk_minus D x r = x - text_value r" and "decimal_fraction (x - text_value r)"
proof -
  have f: "decimal_fraction (- text_value r)" by (intro decimal_fraction_uminus decimal_fraction_text_value)
  note n = dfixed_normal[OF f] and v = dfixed_value[OF f]
  note p = risk_plus_exact[OF assms(1) normal_signed_text[OF n]]
  show "risk_minus D x r = x - text_value r"
    using p(1) by (simp add: risk_minus_def riskDecimal_signed[OF assms(2)] v)
  show "decimal_fraction (x - text_value r)" using p(2) by (simp add: v)
qed

lemma one_exact [simp]: "riskDecimal D ''1'' = 1"
proof -
  have "signed_text ''1''" "text_value ''1'' = 1" by code_simp+
  then show ?thesis by (simp add: riskDecimal_signed)
qed

lemma checked_step_scaled:
  assumes "decimal_fraction x" "decimal_fraction y" and "checked_step C x y = Inr p"
  shows "p = x * y \<and> (\<exists>c k. p = of_int c * 10 powi k \<and> \<bar>c\<bar> < 10 ^ 128)"
proof -
  obtain c k where x: "x = of_int c * 10 powi k" "\<bar>c\<bar> < 10 ^ cj_sd C x" using sd_digits[OF assms(1)] by blast
  obtain d l where y: "y = of_int d * 10 powi l" "\<bar>d\<bar> < 10 ^ cj_sd C y" using sd_digits[OF assms(2)] by blast
  have s: "cj_sd C x + cj_sd C y \<le> 128" and p: "p = dround D (x * y)"
    using assms(3) by (auto simp: checked_step_def risk_mul_def split: if_splits)
  have "\<bar>c * d\<bar> < 10 ^ cj_sd C x * 10 ^ cj_sd C y"
    unfolding abs_mult using x(2) y(2) by (intro mult_strict_mono) simp_all
  also have "\<dots> = 10 ^ (cj_sd C x + cj_sd C y)" by (simp add: power_add)
  also have "\<dots> \<le> 10 ^ 128" using s by (intro power_increasing) simp_all
  finally have m: "\<bar>c * d\<bar> < 10 ^ 128" .
  then have "dround D (of_int (c * d) * 10 powi (k + l)) = of_int (c * d) * 10 powi (k + l)"
    by (rule round_scaled)
  moreover have "of_int (c * d) * 10 powi (k + l) = x * y"
    by (simp add: x(1) y(1) powi_10_split)
  ultimately show ?thesis using m p by metis
qed

lemma checked_step_exact:
  assumes "decimal_fraction x" "decimal_fraction y" and "checked_step C x y = Inr p"
  shows "p = x * y \<and> decimal_fraction p"
  using checked_step_scaled[OF assms] decimal_fraction_mult[OF assms(1,2)] by simp

lemma checked_fold_exact:
  assumes "foldl_res (checked_step C) r vs = Inr p" and "decimal_fraction r" and "\<forall>v\<in>set vs. decimal_fraction v"
  shows "p = r * prod_list vs \<and> decimal_fraction p"
  using assms
proof (induction vs arbitrary: r)
  case (Cons v vs)
  then obtain q where q: "checked_step C r v = Inr q" "foldl_res (checked_step C) q vs = Inr p"
    by (auto elim!: rbindE)
  have "q = r * v \<and> decimal_fraction q" using Cons.prems by (intro checked_step_exact[OF _ _ q(1)]) auto
  then have r: "q = r * v" "decimal_fraction q" by blast+
  have p: "p = q * prod_list vs \<and> decimal_fraction p" by (rule Cons.IH[OF q(2) r(2)]) (use Cons.prems(3) in simp)
  show ?case
  proof
    show "p = r * prod_list (v # vs)" using conjunct1[OF p] by (simp add: r(1) mult.assoc)
    show "decimal_fraction p" using p by (rule conjunct2)
  qed
qed simp

lemma checkedProduct_exact:
  assumes "checkedProduct C vs = Inr p" and "\<forall>v\<in>set vs. decimal_fraction v"
  shows "p = prod_list vs" and "decimal_fraction p"
proof -
  have f: "foldl_res (checked_step C) 1 vs = Inr p"
    using assms(1) by (auto simp: checkedProduct_def elim!: rbindE)
  have "decimal_fraction 1" using decimal_fraction_of_int[of 1] by simp
  note e = checked_fold_exact[OF f this assms(2)]
  show "p = prod_list vs" using e by simp
  show "decimal_fraction p" using e by (rule conjunct2)
qed

lemma percent_exact:
  assumes "checkedProduct C [x, y] = Inr p" and "decimal_fraction x" "decimal_fraction y"
  shows "risk_div D p 100 = x * y / 100" and "decimal_fraction (risk_div D p 100)"
proof -
  obtain q where q: "checked_step C 1 x = Inr q" "checked_step C q y = Inr p"
    using assms(1) by (auto simp: checkedProduct_def elim!: rbindE)
  have "q = 1 * x" using checked_step_exact[OF _ assms(2) q(1)] decimal_fraction_of_int[of 1] by simp
  then have "checked_step C x y = Inr p" using q(2) by simp
  from checked_step_scaled[OF assms(2,3) this]
  obtain c k where p: "p = x * y" "p = of_int c * 10 powi k" "\<bar>c\<bar> < 10 ^ 128" by blast
  have h: "p / 100 = of_int c * 10 powi (k - 2)" unfolding p(2) by (simp add: power_int_diff)
  show "risk_div D p 100 = x * y / 100"
    unfolding risk_div_def h round_scaled[OF p(3)] p(1)[symmetric] by (simp only: h)
  show "decimal_fraction (risk_div D p 100)" by (simp only: risk_div_def dround_decimal)
qed

lemma ratio_parts_value:
  assumes "decimal_fraction v"
  obtains c k where "ratio_parts D v = (c, k)" and "v = of_int c / 10 ^ k"
proof -
  have "signed_text (dfixed D v)" by (rule normal_signed_text[OF dfixed_normal[OF assms]])
  then obtain i f where "split_dot (dfixed D v) = (i, f)" "text_value (dfixed D v) = of_int (bigint_text (i @ f)) / 10 ^ length f"
    by (rule bigint_value)
  then show thesis by (intro that[of "bigint_text (i @ f)" "length f"]) (simp_all add: ratio_parts_def dfixed_value[OF assms])
qed

lemma json_integer_value: "signed_text (json_integer n)" "text_value (json_integer n) = of_int n"
proof -
  have d: "unsigned_text (nat_digits m)" "unsigned_value (nat_digits m) = of_nat m" for m
    using unsigned_text_join[of "nat_digits m" "[]"] unsigned_value_join[of "nat_digits m" "[]"]
    by (simp_all add: join_dot_def nat_digits_all nat_digits_nonempty)
  show "signed_text (json_integer n)"
    using d(1)[of "nat \<bar>n\<bar>"]
    by (cases "n < 0") (simp_all add: json_integer_def signed_text_def unsigned_part_minus unsigned_part_not_negative
        unsigned_not_negative)
  show "text_value (json_integer n) = of_int n"
    using d[of "nat \<bar>n\<bar>"] by (cases "n < 0") (simp_all add: json_integer_def text_value_minus text_value_unsigned)
qed

lemma floorRatio_exact:
  assumes "decimal_fraction num" "decimal_fraction den" "decimal_fraction inc"
    and "floorRatioToIncrement C num den inc = Inr q"
  shows "0 < den" and "0 < inc" and "q = of_int \<lfloor>num / (den * inc)\<rfloor> * inc" and "decimal_fraction q"
proof -
  obtain n ns where n: "ratio_parts D num = (n, ns)" "num = of_int n / 10 ^ ns" by (rule ratio_parts_value[OF assms(1)])
  obtain d ds where d: "ratio_parts D den = (d, ds)" "den = of_int d / 10 ^ ds" by (rule ratio_parts_value[OF assms(2)])
  obtain i is' where i: "ratio_parts D inc = (i, is')" "inc = of_int i / 10 ^ is'" by (rule ratio_parts_value[OF assms(3)])
  let ?top = "n * 10 ^ (ds + is')" and ?bottom = "d * i * 10 ^ ns"
  have pos: "0 < d" "0 < i" using assms(4) by (auto simp: floorRatioToIncrement_def n(1) d(1) i(1) split: if_splits)
  then show "0 < den" "0 < inc" by (simp_all add: d(2) i(2))
  have b: "0 < ?bottom" using pos by simp
  have quot: "?top sdiv ?bottom - (if ?top < 0 \<and> ?top smod ?bottom \<noteq> 0 then 1 else 0) = ?top div ?bottom"
    by (rule sdiv_floor[OF b])
  have "checkedProduct C [riskDecimal D (json_integer (?top div ?bottom)), inc] = Inr q"
    using assms(4) pos by (simp only: floorRatioToIncrement_def n(1) d(1) i(1) prod.case Let_def quot) simp
  moreover have "riskDecimal D (json_integer (?top div ?bottom)) = of_int (?top div ?bottom)"
    by (simp add: riskDecimal_signed json_integer_value)
  ultimately have "checkedProduct C [of_int (?top div ?bottom), inc] = Inr q" by simp
  from checkedProduct_exact[OF this] assms(3)
  have q: "q = of_int (?top div ?bottom) * inc" "decimal_fraction q" by simp_all
  have "num / (den * inc) = of_int ?top / of_int ?bottom"
    using pos by (simp add: n(2) d(2) i(2) field_simps power_add)
  then have "\<lfloor>num / (den * inc)\<rfloor> = ?top div ?bottom" by (simp only: floor_divide_of_int_eq)
  with q show "q = of_int \<lfloor>num / (den * inc)\<rfloor> * inc" "decimal_fraction q" by simp_all
qed

lemma floorToIncrement_exact:
  assumes "decimal_fraction v" "decimal_fraction inc" and "floorToIncrement C v inc = Inr q"
  shows "0 < inc" and "q = of_int \<lfloor>v / inc\<rfloor> * inc" and "decimal_fraction q"
  using floorRatio_exact[of v 1 inc q] decimal_fraction_of_int[of 1] assms by (simp_all add: floorToIncrement_def)

end

subsection \<open>The library with 128 digits\<close>

text \<open>Rounding up, significant digits and decimal places as documented.\<close>

definition round_up :: "nat \<Rightarrow> rat \<Rightarrow> rat" where
  "round_up p x = (if x = 0 then 0 else let u = 10 powi (exponent10 \<bar>x\<bar> - int p + 1) in of_int \<lceil>x / u\<rceil> * u)"

definition sig_digits :: "rat \<Rightarrow> nat" where
  "sig_digits x =
     (case quotient_of x of (n, d) \<Rightarrow>
        max 1 (length (strip_trailing_zeros (nat_digits (nat \<bar>n * (10 ^ scale_of (nat d) div d)\<bar>)))))"

definition round_places :: "int \<Rightarrow> rat \<Rightarrow> rat" where
  "round_places n x = sgn x * (of_int \<lfloor>\<bar>x\<bar> * 10 powi n + 1 / 2\<rfloor> * 10 powi (- n))"

definition calc_128 :: calc_js where
  "calc_128 = \<lparr>cj_D = half_up 128, cj_margin = round_up 128, cj_sd = sig_digits, cj_places = round_places\<rparr>"

lemma round_up_ge: "x \<le> round_up p x"
proof (cases "x = 0")
  case False
  let ?u = "(10::rat) powi (exponent10 \<bar>x\<bar> - int p + 1)"
  have "x = x / ?u * ?u" by simp
  also have "\<dots> \<le> of_int \<lceil>x / ?u\<rceil> * ?u" by (intro mult_right_mono) (simp_all add: less_imp_le)
  finally show ?thesis using False by (simp add: round_up_def Let_def)
qed (simp add: round_up_def)

lemma strip_trailing_split:
  obtains z where "s = strip_trailing_zeros s @ replicate z (CHR ''0'')"
proof -
  have "rev s = takeWhile (\<lambda>c. c = CHR ''0'') (rev s) @ dropWhile (\<lambda>c. c = CHR ''0'') (rev s)" by simp
  moreover have "takeWhile (\<lambda>c. c = CHR ''0'') (rev s) =
      replicate (length (takeWhile (\<lambda>c. c = CHR ''0'') (rev s))) (CHR ''0'')"
    by (rule replicate_eqI) (auto dest: set_takeWhileD)
  ultimately have "rev (rev s) = strip_trailing_zeros s @ replicate (length (takeWhile (\<lambda>c. c = CHR ''0'') (rev s))) (CHR ''0'')"
    unfolding strip_trailing_zeros_def by (metis rev_append rev_replicate)
  then show thesis by (intro that) simp
qed

lemma fraction_quotient:
  assumes "decimal_fraction x" and "quotient_of x = (n, d)"
  shows "of_int (n * (10 ^ scale_of (nat d) div d)) / 10 ^ scale_of (nat d) = x"
proof -
  have "text_value (fixed_text x) = x" by (rule fixed_text_value[OF assms(1)])
  then show ?thesis by (simp add: fixed_text_def assms(2) Let_def normalize_text_value scaled_text_signed scaled_text_value)
qed

lemma sig_digits_bound:
  assumes "decimal_fraction x"
  shows "\<exists>c k. x = of_int c * 10 powi k \<and> \<bar>c\<bar> < 10 ^ sig_digits x"
proof -
  obtain n d where q: "quotient_of x = (n, d)" by fastforce
  define m where "m = n * (10 ^ scale_of (nat d) div d)"
  define s where "s = strip_trailing_zeros (nat_digits (nat \<bar>m\<bar>))"
  obtain z where z: "nat_digits (nat \<bar>m\<bar>) = s @ replicate z (CHR ''0'')"
    unfolding s_def by (rule strip_trailing_split)
  have "digits_nat (replicate z (CHR ''0'')) = 0" using digits_nat_replicate[of z "[]"] by simp
  then have "nat \<bar>m\<bar> = digits_nat s * 10 ^ z"
    using arg_cong[OF z, of digits_nat] by (simp add: digits_nat_append)
  then have m: "\<bar>m\<bar> = int (digits_nat s) * 10 ^ z" by (metis int_nat_eq abs_ge_zero of_nat_mult of_nat_power of_nat_numeral)
  have "list_all is_digit s" using nat_digits_all[of "nat \<bar>m\<bar>"] by (simp add: z)
  then have "digits_nat s < 10 ^ length s" by (rule digits_nat_less)
  also have "\<dots> \<le> 10 ^ sig_digits x" by (simp add: sig_digits_def q m_def[symmetric] s_def[symmetric])
  finally have b: "int (digits_nat s) < 10 ^ sig_digits x" by (metis of_nat_less_numeral_power_cancel_iff)
  have "x = of_int m / 10 ^ scale_of (nat d)" using fraction_quotient[OF assms q] by (simp add: m_def)
  also have "of_int m = of_int (sgn m * int (digits_nat s)) * (10::rat) ^ z"
    by (metis m mult_sgn_abs mult.assoc of_int_mult of_int_numeral of_int_power)
  also have "of_int (sgn m * int (digits_nat s)) * (10::rat) ^ z / 10 ^ scale_of (nat d) =
      of_int (sgn m * int (digits_nat s)) * 10 powi (int z - int (scale_of (nat d)))"
    by (simp add: powi_10_quot[symmetric])
  finally have "x = of_int (sgn m * int (digits_nat s)) * 10 powi (int z - int (scale_of (nat d)))" .
  moreover have "\<bar>sgn m * int (digits_nat s)\<bar> < 10 ^ sig_digits x"
    using b by (cases "m = 0") (simp_all add: abs_mult)
  ultimately show ?thesis by blast
qed

lemma round_abs_unit:
  assumes "0 < c" and "c < 10 ^ p" and "a = of_int c * 10 powi k"
  obtains j where "a = of_int j * 10 powi (exponent10 a - int p + 1)"
proof -
  let ?e = "exponent10 a" and ?u = "(10::rat) powi (exponent10 a - int p + 1)"
  have a: "0 < a" using assms by simp
  have "(of_int c :: rat) < of_int (10 ^ p)" by (simp only: of_int_less_iff assms(2))
  then have "a < 10 powi (int p + k)" unfolding assms(3) powi_10_split by (intro mult_strict_right_mono) simp_all
  moreover have "10 powi ?e \<le> a" by (rule exponent10_bounds[OF a])
  ultimately have "?e < int p + k" by (metis le_less_trans not_le powi_10_le_iff)
  then obtain j where j: "int j = int p - 1 - ?e + k" by (intro that[of "nat (int p - 1 - ?e + k)"]) simp
  have "(10::rat) ^ j * ?u = 10 powi (int j + (?e - int p + 1))" by (simp only: powi_10_split power_int_of_nat)
  also have "int j + (?e - int p + 1) = k" using j by simp
  finally have "of_int c * ((10::rat) ^ j * ?u) = a" by (simp only: assms(3))
  then show thesis by (intro that[of "c * 10 ^ j"]) (simp add: mult.assoc)
qed

lemma round_abs_scaled:
  assumes "0 < c" and "c < 10 ^ p" and "a = of_int c * 10 powi k"
  shows "round_abs p a = a"
proof -
  let ?u = "(10::rat) powi (exponent10 a - int p + 1)"
  obtain j where j: "a = of_int j * ?u" by (rule round_abs_unit[OF assms])
  have "of_int j * ?u / ?u = of_int j" by simp
  then have q: "a / ?u = of_int j" by (simp only: j[symmetric])
  have "\<lfloor>of_int j + 1 / 2 :: rat\<rfloor> = j" by (simp only: floor_eq_iff) simp
  then show ?thesis by (simp only: round_abs_def Let_def q j[symmetric])
qed

lemma round_sig_scaled:
  assumes "\<bar>c\<bar> < 10 ^ p"
  shows "round_sig p (of_int c * 10 powi k) = of_int c * 10 powi k"
proof (cases "c = 0")
  case False
  let ?x = "of_int c * (10::rat) powi k"
  have "round_abs p \<bar>?x\<bar> = \<bar>?x\<bar>"
    using False assms by (intro round_abs_scaled[of "\<bar>c\<bar>" p _ k]) (simp_all add: abs_mult)
  then show ?thesis using False by (simp add: round_sig_def mult_sgn_abs)
qed (simp add: round_sig_def)

interpretation calc_128: risk_arith calc_128
proof (rule risk_arith.intro)
  show "decimal_lib (cj_D calc_128) 128" using half_up_128.decimal_lib_axioms by (simp add: calc_128_def)
  show "risk_arith_axioms calc_128"
  proof
    show "decimal_fraction x \<Longrightarrow> \<exists>c k. x = of_int c * 10 powi k \<and> \<bar>c\<bar> < 10 ^ cj_sd calc_128 x" for x
      using sig_digits_bound[of x] by (simp add: calc_128_def)
    show "\<bar>c\<bar> < 10 ^ 128 \<Longrightarrow> dround (cj_D calc_128) (of_int c * 10 powi k) = of_int c * 10 powi k" for c k
      by (simp only: calc_128_def calc_js.simps half_up_def decimal_js.simps round_sig_scaled)
    show "x \<le> cj_margin calc_128 x" for x by (simp add: calc_128_def round_up_ge)
    show "decimal_fraction (cj_margin calc_128 x)" for x
      by (auto simp: calc_128_def round_up_def Let_def intro!: decimal_fraction_mult decimal_fraction_powi)
    show "decimal_fraction (cj_places calc_128 n x)" for n x
      by (auto simp: calc_128_def round_places_def sgn_if intro!: decimal_fraction_mult decimal_fraction_powi decimal_fraction_uminus)
  qed
qed

end
