(* ===== verification/Risk_Rules.thy ===== *)
theory Risk_Rules
  imports Risk_Types Risk_Calc
begin

section \<open>The rules of the risk engine\<close>

text \<open>
  \<^verbatim>\<open>src/risk/reason-codes.ts\<close>, \<^verbatim>\<open>source-authority.ts\<close>, \<^verbatim>\<open>account.ts\<close>, \<^verbatim>\<open>exposure.ts\<close>,
  \<^verbatim>\<open>loss-drawdown.ts\<close>, \<^verbatim>\<open>valuation.ts\<close>, \<^verbatim>\<open>ownership.ts\<close> and \<^verbatim>\<open>strategy-lineage.ts\<close>: each rule looks at one
  part of the evidence and answers the reasons it has to reject. What a rule throws is on the left of its
  result; \<open>caught\<close> is the \<^verbatim>\<open>catch\<close> of the numeric context the code has in several places.
\<close>

definition caught :: "(risk_error, 'a) res \<Rightarrow> ('a \<Rightarrow> 'b) \<Rightarrow> 'b \<Rightarrow> (risk_error, 'b) res" where
  "caught m ok exceeded =
     (case m of
        Inr x \<Rightarrow> Inr (ok x)
      | Inl e \<Rightarrow> if e = ValuationNumericContextError then Inr exceeded else Inl e)"

subsection \<open>Reason codes\<close>

definition GROUP_A_REASON_CODES :: "rejection_code list" where
  "GROUP_A_REASON_CODES =
     [INVALID_ENTRY_PRICE, INVALID_STOP_PRICE, INVALID_STOP_DISTANCE, RISK_BUDGET_NON_POSITIVE,
      MIN_QUANTITY_NOT_MET, MIN_NOTIONAL_NOT_MET, INSUFFICIENT_MARGIN, NO_VALID_LEVERAGE_TIER,
      INSTRUMENT_NOT_TRADEABLE_FOR_NEW_EXPOSURE, GLOBAL_EXPOSURE_LIMIT, PAIR_EXPOSURE_LIMIT,
      STRATEGY_EXPOSURE_LIMIT, MAX_CONCURRENT_POSITIONS, DAILY_LOSS_LIMIT, DAILY_LOSS_PERCENT_LIMIT,
      DRAWDOWN_LIMIT, CONSECUTIVE_LOSS_COOLDOWN_ACTIVE, NO_CHANGE_TARGET_ALREADY_HELD,
      REVERSAL_REQUIRES_SEQUENTIAL_EVALUATION]"

definition GROUP_B_REASON_CODES :: "rejection_code list" where
  "GROUP_B_REASON_CODES =
     [ACCOUNT_STATE_UNAVAILABLE, ACCOUNT_STATE_STALE, ACCOUNT_IDENTITY_MISMATCH,
      PAIR_STATE_UNAVAILABLE, EXPOSURE_STATE_UNAVAILABLE, EXPOSURE_STATE_STALE,
      PENDING_EXPOSURE_UNKNOWN, POSITION_OWNERSHIP_UNRECONCILED, POSITION_OWNERSHIP_MISMATCH,
      POSITION_IDENTITY_MISMATCH, EVIDENCE_TEMPORAL_CAUSALITY_VIOLATION, SOURCE_ID_MISMATCH,
      VALUATION_METHOD_MISMATCH, VALUATION_NUMERIC_CONTEXT_EXCEEDED, LEVERAGE_TIERS_UNAVAILABLE,
      LEVERAGE_TIERS_STALE, LEVERAGE_TIER_SEMANTICS_UNVERIFIED, SETTLEMENT_RATE_UNAVAILABLE,
      SETTLEMENT_RATE_STALE, DECISION_IDENTITY_MISMATCH]"

definition REJECTION_PRECEDENCE_V1 :: "rejection_code list" where
  "REJECTION_PRECEDENCE_V1 =
     [DECISION_IDENTITY_MISMATCH, ACCOUNT_IDENTITY_MISMATCH, POSITION_IDENTITY_MISMATCH,
      SOURCE_ID_MISMATCH, VALUATION_METHOD_MISMATCH, VALUATION_NUMERIC_CONTEXT_EXCEEDED,
      PAIR_STATE_UNAVAILABLE, EVIDENCE_TEMPORAL_CAUSALITY_VIOLATION, ACCOUNT_STATE_UNAVAILABLE,
      ACCOUNT_STATE_STALE, EXPOSURE_STATE_UNAVAILABLE, EXPOSURE_STATE_STALE,
      LEVERAGE_TIERS_UNAVAILABLE, LEVERAGE_TIERS_STALE, LEVERAGE_TIER_SEMANTICS_UNVERIFIED,
      SETTLEMENT_RATE_UNAVAILABLE, SETTLEMENT_RATE_STALE, NO_CHANGE_TARGET_ALREADY_HELD,
      REVERSAL_REQUIRES_SEQUENTIAL_EVALUATION, INSTRUMENT_NOT_TRADEABLE_FOR_NEW_EXPOSURE,
      INVALID_ENTRY_PRICE, INVALID_STOP_PRICE, INVALID_STOP_DISTANCE, PENDING_EXPOSURE_UNKNOWN,
      POSITION_OWNERSHIP_UNRECONCILED, POSITION_OWNERSHIP_MISMATCH, RISK_BUDGET_NON_POSITIVE,
      NO_VALID_LEVERAGE_TIER, INSUFFICIENT_MARGIN, MIN_QUANTITY_NOT_MET, MIN_NOTIONAL_NOT_MET,
      GLOBAL_EXPOSURE_LIMIT, PAIR_EXPOSURE_LIMIT, STRATEGY_EXPOSURE_LIMIT, MAX_CONCURRENT_POSITIONS,
      DAILY_LOSS_LIMIT, DAILY_LOSS_PERCENT_LIMIT, DRAWDOWN_LIMIT, CONSECUTIVE_LOSS_COOLDOWN_ACTIVE]"

definition assertRejectionPrecedenceIntegrity :: "rejection_code list \<Rightarrow> (risk_error, unit) res" where
  "assertRejectionPrecedenceIntegrity precedence =
     (let known = GROUP_A_REASON_CODES @ GROUP_B_REASON_CODES
      in if length precedence \<noteq> length known \<or> length (remdups precedence) \<noteq> length precedence
            \<or> list_ex (\<lambda>c. c \<notin> set precedence) known \<or> list_ex (\<lambda>c. c \<notin> set known) precedence
         then Inl RISK_CONFIG_INVALID else Inr ())"

definition orderReasonCodes :: "rejection_code list \<Rightarrow> (risk_error, rejection_code list) res" where
  "orderReasonCodes codes =
     (if list_ex (\<lambda>c. c \<notin> set (GROUP_A_REASON_CODES @ GROUP_B_REASON_CODES) \<or> c \<notin> set REJECTION_PRECEDENCE_V1) codes
      then Inl RISK_CONFIG_INVALID
      else Inr (filter (\<lambda>c. c \<in> set codes) REJECTION_PRECEDENCE_V1))"

fun code_text :: "rejection_code \<Rightarrow> string" where
  "code_text INVALID_ENTRY_PRICE = ''INVALID_ENTRY_PRICE''"
| "code_text INVALID_STOP_PRICE = ''INVALID_STOP_PRICE''"
| "code_text INVALID_STOP_DISTANCE = ''INVALID_STOP_DISTANCE''"
| "code_text RISK_BUDGET_NON_POSITIVE = ''RISK_BUDGET_NON_POSITIVE''"
| "code_text MIN_QUANTITY_NOT_MET = ''MIN_QUANTITY_NOT_MET''"
| "code_text MIN_NOTIONAL_NOT_MET = ''MIN_NOTIONAL_NOT_MET''"
| "code_text INSUFFICIENT_MARGIN = ''INSUFFICIENT_MARGIN''"
| "code_text NO_VALID_LEVERAGE_TIER = ''NO_VALID_LEVERAGE_TIER''"
| "code_text INSTRUMENT_NOT_TRADEABLE_FOR_NEW_EXPOSURE = ''INSTRUMENT_NOT_TRADEABLE_FOR_NEW_EXPOSURE''"
| "code_text GLOBAL_EXPOSURE_LIMIT = ''GLOBAL_EXPOSURE_LIMIT''"
| "code_text PAIR_EXPOSURE_LIMIT = ''PAIR_EXPOSURE_LIMIT''"
| "code_text STRATEGY_EXPOSURE_LIMIT = ''STRATEGY_EXPOSURE_LIMIT''"
| "code_text MAX_CONCURRENT_POSITIONS = ''MAX_CONCURRENT_POSITIONS''"
| "code_text DAILY_LOSS_LIMIT = ''DAILY_LOSS_LIMIT''"
| "code_text DAILY_LOSS_PERCENT_LIMIT = ''DAILY_LOSS_PERCENT_LIMIT''"
| "code_text DRAWDOWN_LIMIT = ''DRAWDOWN_LIMIT''"
| "code_text CONSECUTIVE_LOSS_COOLDOWN_ACTIVE = ''CONSECUTIVE_LOSS_COOLDOWN_ACTIVE''"
| "code_text NO_CHANGE_TARGET_ALREADY_HELD = ''NO_CHANGE_TARGET_ALREADY_HELD''"
| "code_text REVERSAL_REQUIRES_SEQUENTIAL_EVALUATION = ''REVERSAL_REQUIRES_SEQUENTIAL_EVALUATION''"
| "code_text ACCOUNT_STATE_UNAVAILABLE = ''ACCOUNT_STATE_UNAVAILABLE''"
| "code_text ACCOUNT_STATE_STALE = ''ACCOUNT_STATE_STALE''"
| "code_text ACCOUNT_IDENTITY_MISMATCH = ''ACCOUNT_IDENTITY_MISMATCH''"
| "code_text PAIR_STATE_UNAVAILABLE = ''PAIR_STATE_UNAVAILABLE''"
| "code_text EXPOSURE_STATE_UNAVAILABLE = ''EXPOSURE_STATE_UNAVAILABLE''"
| "code_text EXPOSURE_STATE_STALE = ''EXPOSURE_STATE_STALE''"
| "code_text PENDING_EXPOSURE_UNKNOWN = ''PENDING_EXPOSURE_UNKNOWN''"
| "code_text POSITION_OWNERSHIP_UNRECONCILED = ''POSITION_OWNERSHIP_UNRECONCILED''"
| "code_text POSITION_OWNERSHIP_MISMATCH = ''POSITION_OWNERSHIP_MISMATCH''"
| "code_text POSITION_IDENTITY_MISMATCH = ''POSITION_IDENTITY_MISMATCH''"
| "code_text EVIDENCE_TEMPORAL_CAUSALITY_VIOLATION = ''EVIDENCE_TEMPORAL_CAUSALITY_VIOLATION''"
| "code_text SOURCE_ID_MISMATCH = ''SOURCE_ID_MISMATCH''"
| "code_text VALUATION_METHOD_MISMATCH = ''VALUATION_METHOD_MISMATCH''"
| "code_text VALUATION_NUMERIC_CONTEXT_EXCEEDED = ''VALUATION_NUMERIC_CONTEXT_EXCEEDED''"
| "code_text LEVERAGE_TIERS_UNAVAILABLE = ''LEVERAGE_TIERS_UNAVAILABLE''"
| "code_text LEVERAGE_TIERS_STALE = ''LEVERAGE_TIERS_STALE''"
| "code_text LEVERAGE_TIER_SEMANTICS_UNVERIFIED = ''LEVERAGE_TIER_SEMANTICS_UNVERIFIED''"
| "code_text SETTLEMENT_RATE_UNAVAILABLE = ''SETTLEMENT_RATE_UNAVAILABLE''"
| "code_text SETTLEMENT_RATE_STALE = ''SETTLEMENT_RATE_STALE''"
| "code_text DECISION_IDENTITY_MISMATCH = ''DECISION_IDENTITY_MISMATCH''"

lemma precedence_complete [simp]: "c \<in> set REJECTION_PRECEDENCE_V1"
  by (cases c) (simp_all add: REJECTION_PRECEDENCE_V1_def)

lemma groups_complete [simp]: "c \<in> set GROUP_A_REASON_CODES \<or> c \<in> set GROUP_B_REASON_CODES"
  by (cases c) (simp_all add: GROUP_A_REASON_CODES_def GROUP_B_REASON_CODES_def)

lemma precedence_UNIV: "set REJECTION_PRECEDENCE_V1 = UNIV"
  by auto

lemma precedence_distinct [simp]: "distinct REJECTION_PRECEDENCE_V1"
  by (simp add: REJECTION_PRECEDENCE_V1_def)

text \<open>The check of the constants passes, so ordering never throws; the order is one of the set of codes.\<close>

lemma precedence_integrity: "assertRejectionPrecedenceIntegrity REJECTION_PRECEDENCE_V1 = Inr ()"
proof -
  have "length REJECTION_PRECEDENCE_V1 = length (GROUP_A_REASON_CODES @ GROUP_B_REASON_CODES)"
    by (simp add: REJECTION_PRECEDENCE_V1_def GROUP_A_REASON_CODES_def GROUP_B_REASON_CODES_def)
  then show ?thesis
    by (simp add: assertRejectionPrecedenceIntegrity_def Let_def distinct_remdups_id list_ex_iff)
qed

lemma orderReasonCodes_ok [simp]:
  "orderReasonCodes codes = Inr (filter (\<lambda>c. c \<in> set codes) REJECTION_PRECEDENCE_V1)"
  by (simp add: orderReasonCodes_def list_ex_iff)

lemma orderReasonCodes_set:
  "orderReasonCodes codes = Inr out \<Longrightarrow> set out = set codes \<and> distinct out \<and> (out = [] \<longleftrightarrow> codes = [])"
  by (cases codes) (auto simp: filter_empty_conv precedence_UNIV)

subsection \<open>The account\<close>

definition accountStateReasons :: "decimal_js \<Rightarrow> account_snapshot option \<Rightarrow> rejection_code list" where
  "accountStateReasons D account =
     (case account of
        None \<Rightarrow> [ACCOUNT_STATE_UNAVAILABLE]
      | Some ac \<Rightarrow>
          if \<not> ac_accountStateKnown ac then [ACCOUNT_STATE_UNAVAILABLE]
          else if riskDecimal D (ac_availableMarginInr ac) < 0 \<or> riskDecimal D (ac_lockedMarginInr ac) < 0
                  \<or> riskDecimal D (ac_currentEquityInr ac) < 0
          then [ACCOUNT_STATE_UNAVAILABLE] else [])"

text \<open>Daily loss, drawdown and the cooldown after consecutive losses.\<close>

definition recomputedPnl :: "decimal_js \<Rightarrow> daily_pnl \<Rightarrow> rat" where
  "recomputedPnl D pnl =
     risk_plus D (risk_minus D (risk_plus D (riskDecimal D (dp_realizedTradingPnlInr pnl)) (dp_fundingPnlInr pnl))
       (dp_feesInr pnl)) (dp_otherAccountAdjustmentsInr pnl)"

definition dailyLossReasons :: "calc_js \<Rightarrow> account_snapshot \<Rightarrow> risk_policy \<Rightarrow> (risk_error, rejection_code list) res" where
  "dailyLossReasons C account policy =
     (let D = cj_D C; pnl = ac_dailyPnl account; recomputed = recomputedPnl D pnl;
          dailyLoss = (if recomputed < 0 then - recomputed else riskDecimal D ''0'');
          globalDaily = riskDecimal D (gc_globalMaxDailyLossInr (rp_globalConfig policy));
          modeDaily = riskDecimal D (mc_maxDailyLossInr (rp_modeConfig policy));
          inrCap = (if globalDaily < modeDaily then globalDaily else modeDaily);
          percentCaps = List.map_filter (\<lambda>v. v)
            [gc_globalDailyLossLimitPercent (rp_globalConfig policy), mc_dailyLossLimitPercent (rp_modeConfig policy)];
          equity = riskDecimal D (ac_currentEquityInr account);
          reasons = (if recomputed \<noteq> riskDecimal D (dp_netDailyPnlInr pnl) then [ACCOUNT_STATE_UNAVAILABLE] else [])
                    @ (if dailyLoss \<ge> inrCap then [DAILY_LOSS_LIMIT] else [])
      in case map (riskDecimal D) percentCaps of
          [] \<Rightarrow> Inr reasons
        | first # rest \<Rightarrow>
            if equity > 0 then
              let cap = fold (\<lambda>right left. if left < right then left else right) rest first
              in caught (rbind (checkedProduct C [dailyLoss, riskDecimal D ''100'']) (\<lambda>l.
                           rbind (checkedProduct C [equity, cap]) (\<lambda>r. Inr (l \<ge> r))))
                   (\<lambda>limit. reasons @ (if limit then [DAILY_LOSS_PERCENT_LIMIT] else []))
                   (reasons @ [VALUATION_NUMERIC_CONTEXT_EXCEEDED])
            else Inr reasons)"

definition drawdownReasons :: "calc_js \<Rightarrow> account_snapshot \<Rightarrow> risk_policy \<Rightarrow> (risk_error, rejection_code list) res" where
  "drawdownReasons C account policy =
     (let D = cj_D C; peak = riskDecimal D (ac_peakEquityInr account)
      in if peak \<le> 0 \<or> riskDecimal D (ac_currentEquityInr account) \<le> 0 then Inr [ACCOUNT_STATE_UNAVAILABLE]
         else
           let decline = risk_minus D peak (ac_currentEquityInr account);
               globalDrawdown = riskDecimal D (gc_globalMaxDrawdownPercent (rp_globalConfig policy));
               modeDrawdown = riskDecimal D (mc_maxDrawdownPercent (rp_modeConfig policy));
               cap = (if globalDrawdown < modeDrawdown then globalDrawdown else modeDrawdown)
           in caught (rbind (checkedProduct C [decline, riskDecimal D ''100'']) (\<lambda>l.
                        rbind (checkedProduct C [peak, cap]) (\<lambda>r. Inr (l \<ge> r))))
                (\<lambda>limit. if limit then [DRAWDOWN_LIMIT] else []) [VALUATION_NUMERIC_CONTEXT_EXCEEDED])"

definition lossDrawdownReasons ::
    "calc_js \<Rightarrow> account_snapshot option \<Rightarrow> risk_policy \<Rightarrow> int \<Rightarrow> (risk_error, rejection_code list) res" where
  "lossDrawdownReasons C account policy evaluationTimeMs =
     (case account of
        None \<Rightarrow> Inr [ACCOUNT_STATE_UNAVAILABLE]
      | Some ac \<Rightarrow>
          if \<not> ac_accountStateKnown ac then Inr [ACCOUNT_STATE_UNAVAILABLE]
          else rbind (dailyLossReasons C ac policy) (\<lambda>daily.
               rbind (drawdownReasons C ac policy) (\<lambda>drawdown.
                 Inr (daily @ drawdown
                   @ (case (mc_consecutiveLossLimit (rp_modeConfig policy), ac_cooldownActiveUntilMs ac) of
                        (Some limit, Some until) \<Rightarrow>
                          if ac_consecutiveLossCount ac \<ge> limit \<and> evaluationTimeMs < until
                          then [CONSECUTIVE_LOSS_COOLDOWN_ACTIVE] else []
                      | _ \<Rightarrow> [])))))"

subsection \<open>Exposure\<close>

fun reservationReasonsFrom :: "strategy_decision \<Rightarrow> string list \<Rightarrow> pending_reservation list \<Rightarrow> rejection_code list" where
  "reservationReasonsFrom d seen [] = []"
| "reservationReasonsFrom d seen (r # rs) =
     (if pr_strategyInstanceId r \<in> set seen then [EXPOSURE_STATE_UNAVAILABLE] else [])
     @ (if pr_strategyInstanceId r = sd_strategyInstanceId d
           \<and> (pr_strategyId r \<noteq> sd_strategyId d \<or> pr_strategyVersion r \<noteq> sd_strategyVersion d
              \<or> pr_parameterHash r \<noteq> sd_parameterHash d)
        then [DECISION_IDENTITY_MISMATCH] else [])
     @ reservationReasonsFrom d (pr_strategyInstanceId r # seen) rs"

definition reservationIdentityReasons :: "exposure_snapshot option \<Rightarrow> strategy_candidate \<Rightarrow> rejection_code list" where
  "reservationIdentityReasons snapshot candidate =
     (case snapshot of
        None \<Rightarrow> []
      | Some x \<Rightarrow> (case ex_pending x of
            UNKNOWN \<Rightarrow> []
          | KNOWN k \<Rightarrow> reservationReasonsFrom (cd_strategyDecision candidate) [] (kp_instancePendingReservations k)))"

definition mapValue :: "(string \<times> string) list \<Rightarrow> string \<Rightarrow> string" where
  "mapValue r key = (case map_of r key of None \<Rightarrow> ''0'' | Some v \<Rightarrow> v)"

definition nonNegative :: "decimal_js \<Rightarrow> string \<Rightarrow> bool" where
  "nonNegative D v \<longleftrightarrow> riskDecimal D v \<ge> 0"

definition recordNonNegative :: "decimal_js \<Rightarrow> (string \<times> string) list \<Rightarrow> bool" where
  "recordNonNegative D r \<longleftrightarrow> list_all (nonNegative D) (map snd r)"

definition noComponentExceedsParent :: "decimal_js \<Rightarrow> string \<Rightarrow> string list \<Rightarrow> bool" where
  "noComponentExceedsParent D parent components \<longleftrightarrow>
     list_all (\<lambda>c. \<not> riskDecimal D parent < riskDecimal D c) components"

definition exposureStateReasons :: "decimal_js \<Rightarrow> exposure_snapshot \<Rightarrow> rejection_code list" where
  "exposureStateReasons D x =
     (if ex_concurrentOpenPositions x < 0 then [EXPOSURE_STATE_UNAVAILABLE]
      else if \<not> nonNegative D (ex_globalOpenNotionalInr x) \<or> \<not> recordNonNegative D (ex_perPairOpenNotionalInr x)
              \<or> \<not> recordNonNegative D (ex_perStrategyOpenNotionalInr x) then [EXPOSURE_STATE_UNAVAILABLE]
      else if \<not> noComponentExceedsParent D (ex_globalOpenNotionalInr x)
                (map snd (ex_perPairOpenNotionalInr x) @ map snd (ex_perStrategyOpenNotionalInr x))
      then [EXPOSURE_STATE_UNAVAILABLE]
      else case ex_pending x of
          UNKNOWN \<Rightarrow> []
        | KNOWN k \<Rightarrow>
            if \<not> nonNegative D (kp_globalPendingNotionalInr k) \<or> \<not> recordNonNegative D (kp_pairPendingNotionalInr k)
               \<or> \<not> recordNonNegative D (kp_strategyPendingNotionalInr k) \<or> kp_pendingReservationCount k < 0
               \<or> \<not> nonNegative D (kp_longInr k) \<or> \<not> nonNegative D (kp_shortInr k)
               \<or> list_ex (\<lambda>r. \<not> nonNegative D (pr_pendingNotionalInr r) \<or> pr_pendingReservationCount r < 0)
                   (kp_instancePendingReservations k)
            then [EXPOSURE_STATE_UNAVAILABLE]
            else if \<not> noComponentExceedsParent D (kp_globalPendingNotionalInr k)
                      (map snd (kp_pairPendingNotionalInr k) @ map snd (kp_strategyPendingNotionalInr k)
                       @ map pr_pendingNotionalInr (kp_instancePendingReservations k))
            then [EXPOSURE_STATE_UNAVAILABLE] else [])"

record exposure_headroom =
  hr_globalInr :: string
  hr_pairInr :: string
  hr_strategyInr :: string

definition globalCap :: "decimal_js \<Rightarrow> risk_policy \<Rightarrow> rat" where
  "globalCap D policy =
     (let a = riskDecimal D (gc_globalMaxOpenNotionalInr (rp_globalConfig policy));
          b = riskDecimal D (mc_maxConcurrentExposureInr (rp_modeConfig policy))
      in if a < b then a else b)"

definition pairCap :: "decimal_js \<Rightarrow> risk_policy \<Rightarrow> rat" where
  "pairCap D policy =
     (let a = riskDecimal D (pc_pairMaxExposureInr (rp_pairConfig policy));
          b = riskDecimal D (mc_maxCoinExposureInr (rp_modeConfig policy))
      in if a < b then a else b)"

definition exposureHeadroom ::
    "decimal_js \<Rightarrow> exposure_snapshot \<Rightarrow> strategy_candidate \<Rightarrow> risk_policy \<Rightarrow> exposure_headroom option" where
  "exposureHeadroom D x candidate policy =
     (case ex_pending x of
        UNKNOWN \<Rightarrow> None
      | KNOWN k \<Rightarrow>
          if exposureStateReasons D x \<noteq> [] then None
          else
            let pair = cd_pair candidate; strategy = sd_strategyId (cd_strategyDecision candidate)
            in Some \<lparr>hr_globalInr = dfixed D (risk_minus D (risk_minus D (globalCap D policy)
                        (ex_globalOpenNotionalInr x)) (kp_globalPendingNotionalInr k)),
                 hr_pairInr = dfixed D (risk_minus D (risk_minus D (pairCap D policy)
                        (mapValue (ex_perPairOpenNotionalInr x) pair)) (mapValue (kp_pairPendingNotionalInr k) pair)),
                 hr_strategyInr = dfixed D (risk_minus D (risk_minus D
                        (riskDecimal D (mc_maxStrategyExposureInr (rp_modeConfig policy)))
                        (mapValue (ex_perStrategyOpenNotionalInr x) strategy))
                        (mapValue (kp_strategyPendingNotionalInr k) strategy))\<rparr>)"

text \<open>The three checks of \<^verbatim>\<open>exposureReasons\<close> have one shape: a cap, what is open, what is pending (when it is
  known and not negative), and the notional asked for (when there is one).\<close>

definition overLimit :: "decimal_js \<Rightarrow> rat \<Rightarrow> string \<Rightarrow> string option \<Rightarrow> rat option \<Rightarrow> bool" where
  "overLimit D cap current pending requested \<longleftrightarrow>
     nonNegative D current \<and>
     (let currentHeadroom = risk_minus D cap current
      in if currentHeadroom \<le> 0 then True
         else case pending of
             None \<Rightarrow> False
           | Some p \<Rightarrow>
               if nonNegative D p then
                 let headroom = risk_minus D currentHeadroom p
                 in (case requested of None \<Rightarrow> headroom \<le> 0 | Some r \<Rightarrow> r > headroom)
               else False)"

definition concurrentCap :: "risk_policy \<Rightarrow> int" where
  "concurrentCap policy =
     min (min (gc_globalMaxConcurrentPositions (rp_globalConfig policy)) (mc_maxConcurrentPositions (rp_modeConfig policy)))
       (case pc_pairMaxConcurrentPositions (rp_pairConfig policy) of
          None \<Rightarrow> gc_globalMaxConcurrentPositions (rp_globalConfig policy) | Some n \<Rightarrow> n)"

definition exposureReasons ::
    "decimal_js \<Rightarrow> exposure_snapshot option \<Rightarrow> strategy_candidate \<Rightarrow> risk_policy \<Rightarrow> string option \<Rightarrow> rejection_code list" where
  "exposureReasons D snapshot candidate policy candidateNotionalInr =
     (case snapshot of
        None \<Rightarrow> [EXPOSURE_STATE_UNAVAILABLE]
      | Some x \<Rightarrow>
          let requested = map_option (riskDecimal D) candidateNotionalInr;
              strategy = sd_strategyId (cd_strategyDecision candidate);
              known = (case ex_pending x of UNKNOWN \<Rightarrow> None | KNOWN k \<Rightarrow> Some k)
          in exposureStateReasons D x
             @ (if known = None then [PENDING_EXPOSURE_UNKNOWN] else [])
             @ reservationIdentityReasons (Some x) candidate
             @ (if overLimit D (globalCap D policy) (ex_globalOpenNotionalInr x)
                     (map_option kp_globalPendingNotionalInr known) requested
                then [GLOBAL_EXPOSURE_LIMIT] else [])
             @ (if overLimit D (pairCap D policy) (mapValue (ex_perPairOpenNotionalInr x) (cd_pair candidate))
                     (map_option (\<lambda>k. mapValue (kp_pairPendingNotionalInr k) (cd_pair candidate)) known) requested
                then [PAIR_EXPOSURE_LIMIT] else [])
             @ (if overLimit D (riskDecimal D (mc_maxStrategyExposureInr (rp_modeConfig policy)))
                     (mapValue (ex_perStrategyOpenNotionalInr x) strategy)
                     (map_option (\<lambda>k. mapValue (kp_strategyPendingNotionalInr k) strategy) known) requested
                then [STRATEGY_EXPOSURE_LIMIT] else [])
             @ (if ex_concurrentOpenPositions x \<ge> 0
                   \<and> (ex_concurrentOpenPositions x + 1 > concurrentCap policy
                      \<or> (case known of None \<Rightarrow> False
                         | Some k \<Rightarrow> kp_pendingReservationCount k \<ge> 0
                             \<and> ex_concurrentOpenPositions x + kp_pendingReservationCount k + 1 > concurrentCap policy))
                then [MAX_CONCURRENT_POSITIONS] else []))"

subsection \<open>Valuation of the position held\<close>

record valuation_check =
  vc_unitValuationInrPerQty :: "string option"
  vc_aggregateCurrentNotionalInr :: "string option"
  vc_reasons :: "rejection_code list"

definition settlementUsable :: "decimal_js \<Rightarrow> settlement_snapshot option \<Rightarrow> bool" where
  "settlementUsable D settlement =
     (case settlement of
        None \<Rightarrow> False
      | Some st \<Rightarrow> st_sourceCurrency st = ''USDT'' \<and> st_targetCurrency st = ''INR'' \<and> st_marginCurrency st = ''INR''
          \<and> \<not> riskDecimal D (st_rateInrPerUsdt st) \<le> 0)"

definition valuationReasons ::
    "decimal_js \<Rightarrow> pair_snapshot \<Rightarrow> position_valuation \<Rightarrow> settlement_snapshot option \<Rightarrow> risk_policy \<Rightarrow> int
     \<Rightarrow> rejection_code list" where
  "valuationReasons D pair v settlement policy evaluationTimeMs =
     (let vp = rp_valuationPolicy policy; sp = rp_sourceAuthorityPolicy policy;
          causal = (case vl_valuationPriceSourceTimeMs v of None \<Rightarrow> True | Some t \<Rightarrow> t \<le> vl_valuationPriceObservedAtMs v)
                   \<and> vl_valuationPriceObservedAtMs v \<le> evaluationTimeMs
      in (if vl_valuationMethodVersion v \<noteq> vp_valuationMethodVersion vp \<or> vl_valuationPriceField v \<noteq> vp_valuationPriceField vp
          then [VALUATION_METHOD_MISMATCH] else [])
       @ (if riskDecimal D (vl_valuationPriceUsdt v) \<le> 0 then [PAIR_STATE_UNAVAILABLE] else [])
       @ (if riskDecimal D (vl_contractMultiplier v) \<noteq> riskDecimal D (ps_contractMultiplier pair)
          then [PAIR_STATE_UNAVAILABLE] else [])
       @ (case settlement of
            None \<Rightarrow> [SETTLEMENT_RATE_UNAVAILABLE]
          | Some st \<Rightarrow>
              if \<not> settlementUsable D settlement then [SETTLEMENT_RATE_UNAVAILABLE]
              else if riskDecimal D (vl_conversionRateInrPerUsdt v) \<noteq> riskDecimal D (st_rateInrPerUsdt st)
                      \<or> vl_conversionMarket v \<noteq> st_conversionMarketId st
              then [SETTLEMENT_RATE_UNAVAILABLE] else [])
       @ (if vl_valuationPriceSourceId v \<noteq> sp_pairRiskSourceId sp \<or> vl_conversionSourceId v \<noteq> sp_conversionSourceId sp
          then [SOURCE_ID_MISMATCH] else [])
       @ (if \<not> causal then [EVIDENCE_TEMPORAL_CAUSALITY_VIOLATION]
          else if evaluationTimeMs - vl_valuationPriceObservedAtMs v > fp_maxPairSnapshotAgeMs (rp_freshnessPolicy policy)
          then [PAIR_STATE_UNAVAILABLE] else []))"

definition verifyCurrentValuation ::
    "calc_js \<Rightarrow> pair_snapshot \<Rightarrow> settlement_snapshot option \<Rightarrow> risk_policy \<Rightarrow> int \<Rightarrow> (risk_error, valuation_check) res" where
  "verifyCurrentValuation C pair settlement policy evaluationTimeMs =
     (let D = cj_D C in
      case ps_position pair of
        POSITION_FLAT \<Rightarrow> Inr \<lparr>vc_unitValuationInrPerQty = Some ''0'', vc_aggregateCurrentNotionalInr = Some ''0'', vc_reasons = []\<rparr>
      | POSITION_OPEN position \<Rightarrow>
          (case op_valuation position of
             None \<Rightarrow> Inr \<lparr>vc_unitValuationInrPerQty = None, vc_aggregateCurrentNotionalInr = None,
                          vc_reasons = [POSITION_OWNERSHIP_UNRECONCILED]\<rparr>
           | Some v \<Rightarrow>
               let reasons = valuationReasons D pair v settlement policy evaluationTimeMs
               in if VALUATION_METHOD_MISMATCH \<in> set reasons \<or> PAIR_STATE_UNAVAILABLE \<in> set reasons
                     \<or> SETTLEMENT_RATE_UNAVAILABLE \<in> set reasons
                  then Inr \<lparr>vc_unitValuationInrPerQty = None, vc_aggregateCurrentNotionalInr = None, vc_reasons = reasons\<rparr>
                  else caught
                    (rbind (checkedProduct C [riskDecimal D (vl_valuationPriceUsdt v), riskDecimal D (ps_contractMultiplier pair),
                              riskDecimal D (vl_conversionRateInrPerUsdt v)]) (\<lambda>product.
                     let unit = cj_places C (vp_valuationUnitScale (rp_valuationPolicy policy)) product in
                     rbind (checkedProduct C [riskDecimal D (op_quantityMagnitude position), unit]) (\<lambda>aggregate.
                     rbind (canonicalRiskDecimal D unit) (\<lambda>unitCanonical.
                     rbind (canonicalRiskDecimal D aggregate) (\<lambda>aggregateCanonical.
                       Inr (unitCanonical, aggregateCanonical))))))
                    (\<lambda>(unitCanonical, aggregateCanonical).
                       \<lparr>vc_unitValuationInrPerQty = Some unitCanonical, vc_aggregateCurrentNotionalInr = Some aggregateCanonical,
                        vc_reasons = reasons @ (if unitCanonical \<noteq> vl_unitValuationInrPerQty v
                            \<or> aggregateCanonical \<noteq> vl_aggregateCurrentNotionalInr v
                          then [POSITION_OWNERSHIP_UNRECONCILED] else [])\<rparr>)
                    \<lparr>vc_unitValuationInrPerQty = None, vc_aggregateCurrentNotionalInr = None,
                     vc_reasons = reasons @ [VALUATION_NUMERIC_CONTEXT_EXCEEDED]\<rparr>))"

subsection \<open>Ownership\<close>

definition normalizeCoinDcxPosition ::
    "decimal_js \<Rightarrow> string \<Rightarrow> rat \<Rightarrow> position_valuation option \<Rightarrow> (risk_error, pair_position) res" where
  "normalizeCoinDcxPosition D positionId activePositionQuantity valuation =
     (if activePositionQuantity = 0 then Inr POSITION_FLAT
      else rbind (canonicalDecimalString (dfixed D \<bar>activePositionQuantity\<bar>)) (\<lambda>magnitude.
        Inr (POSITION_OPEN \<lparr>op_positionId = positionId,
          op_positionDirection = (if activePositionQuantity > 0 then LONG else SHORT),
          op_quantityMagnitude = magnitude, op_valuation = valuation\<rparr>)))"

record ownership_check =
  oc_reasons :: "rejection_code list"
  oc_ownedQuantity :: "string option"
  oc_ownedNotionalInr :: "string option"

record ownership_loop =
  ol_reasons :: "rejection_code list"
  ol_quantitySum :: rat
  ol_notionalSum :: rat
  ol_ownedQuantity :: "string option"
  ol_ownedNotionalInr :: "string option"

definition duplicateInstanceIds :: "ownership_record list \<Rightarrow> string list" where
  "duplicateInstanceIds records =
     snd (fold (\<lambda>r (seen, dup). if ow_strategyInstanceId r \<in> set seen then (seen, ow_strategyInstanceId r # dup)
                               else (ow_strategyInstanceId r # seen, dup)) records ([], []))"

text \<open>One turn of the loop over the ownership records.\<close>

definition ownership_step ::
    "calc_js \<Rightarrow> strategy_decision \<Rightarrow> string option \<Rightarrow> string list \<Rightarrow> ownership_loop \<Rightarrow> ownership_record
     \<Rightarrow> (risk_error, ownership_loop) res" where
  "ownership_step C d unitValue duplicates l r =
     (let D = cj_D C;
          quantity = riskDecimal D (ow_currentQuantity r);
          own = (ow_strategyInstanceId r = sd_strategyInstanceId d);
          foreign = (ow_strategyId r \<noteq> sd_strategyId d \<or> ow_strategyVersion r \<noteq> sd_strategyVersion d
                     \<or> ow_parameterHash r \<noteq> sd_parameterHash d);
          owned = (own \<and> \<not> foreign \<and> ow_strategyInstanceId r \<notin> set duplicates);
          l' = \<lparr>ol_reasons = ol_reasons l @ (if quantity \<le> 0 then [POSITION_OWNERSHIP_UNRECONCILED] else [])
                  @ (if own \<and> foreign then [DECISION_IDENTITY_MISMATCH] else []),
                ol_quantitySum = risk_plus D (ol_quantitySum l) (dfixed D quantity),
                ol_notionalSum = risk_plus D (ol_notionalSum l) (ow_currentNotionalInr r),
                ol_ownedQuantity = (if owned then Some (ow_currentQuantity r) else ol_ownedQuantity l),
                ol_ownedNotionalInr = (if owned then Some (ow_currentNotionalInr r) else ol_ownedNotionalInr l)\<rparr>
      in case unitValue of
          None \<Rightarrow> Inr l'
        | Some u \<Rightarrow>
            if quantity > 0 then
              caught (rbind (checkedProduct C [quantity, riskDecimal D u]) (canonicalRiskDecimal D))
                (\<lambda>t. if t \<noteq> ow_currentNotionalInr r
                     then l'\<lparr>ol_reasons := ol_reasons l' @ [POSITION_OWNERSHIP_UNRECONCILED]\<rparr> else l')
                (l'\<lparr>ol_reasons := ol_reasons l' @ [VALUATION_NUMERIC_CONTEXT_EXCEEDED]\<rparr>)
            else Inr l')"

definition ownership_start :: "decimal_js \<Rightarrow> rejection_code list \<Rightarrow> ownership_loop" where
  "ownership_start D reasons = \<lparr>ol_reasons = reasons, ol_quantitySum = riskDecimal D ''0'', ol_notionalSum = riskDecimal D ''0'',
     ol_ownedQuantity = None, ol_ownedNotionalInr = None\<rparr>"

definition verifyOwnership ::
    "calc_js \<Rightarrow> pair_snapshot \<Rightarrow> strategy_candidate \<Rightarrow> string option \<Rightarrow> string option \<Rightarrow> string option
     \<Rightarrow> (risk_error, ownership_check) res" where
  "verifyOwnership C pair candidate accountId unitValue aggregateValue =
     (let D = cj_D C;
          wrong = (\<lambda>account p. (if p \<noteq> ps_pair pair then [DECISION_IDENTITY_MISMATCH] else [])
                    @ (if accountId \<noteq> None \<and> accountId \<noteq> Some account then [ACCOUNT_IDENTITY_MISMATCH] else []))
      in case ps_ownership pair of
          UNRECONCILED \<Rightarrow> Inr \<lparr>oc_reasons = [POSITION_OWNERSHIP_UNRECONCILED], oc_ownedQuantity = None, oc_ownedNotionalInr = None\<rparr>
        | RECONCILED_FLAT account p \<Rightarrow>
            Inr \<lparr>oc_reasons = wrong account p
                   @ (if ps_position pair = POSITION_FLAT then [] else [POSITION_OWNERSHIP_UNRECONCILED]),
                 oc_ownedQuantity = None, oc_ownedNotionalInr = None\<rparr>
        | RECONCILED_OPEN account p positionId records \<Rightarrow>
            (case ps_position pair of
               POSITION_FLAT \<Rightarrow> Inr \<lparr>oc_reasons = wrong account p @ [POSITION_OWNERSHIP_UNRECONCILED],
                                     oc_ownedQuantity = None, oc_ownedNotionalInr = None\<rparr>
             | POSITION_OPEN position \<Rightarrow>
                 let duplicates = duplicateInstanceIds records;
                     before = wrong account p
                       @ (if positionId \<noteq> op_positionId position then [POSITION_IDENTITY_MISMATCH] else [])
                       @ (if duplicates \<noteq> [] then [POSITION_OWNERSHIP_UNRECONCILED] else [])
                 in rbind (foldl_res (ownership_step C (cd_strategyDecision candidate) unitValue duplicates)
                             (ownership_start D before) records) (\<lambda>l.
                      Inr \<lparr>oc_reasons = ol_reasons l
                             @ (if ol_quantitySum l \<noteq> riskDecimal D (op_quantityMagnitude position)
                                   \<or> op_valuation position = None
                                   \<or> (case aggregateValue of None \<Rightarrow> False | Some a \<Rightarrow> ol_notionalSum l \<noteq> riskDecimal D a)
                                then [POSITION_OWNERSHIP_UNRECONCILED] else []),
                           oc_ownedQuantity = ol_ownedQuantity l, oc_ownedNotionalInr = ol_ownedNotionalInr l\<rparr>)))"

end
