(* ===== verification/Risk_Evidence.thy ===== *)
theory Risk_Evidence
  imports Risk_Rules
begin

section \<open>Evidence, its digest, and the lineage of a decision\<close>

text \<open>
  \<^verbatim>\<open>src/risk/canonical.ts\<close>, \<^verbatim>\<open>source-authority.ts\<close> and \<^verbatim>\<open>strategy-lineage.ts\<close>. A snapshot is digested as the
  canonical JSON of its fields, with its provenance but without the digest that travels in it. The
  strategy definitions a lineage is checked against are a parameter: a list of what each one constructs.
\<close>

subsection \<open>Values as JSON\<close>

definition nullable_text :: "string option \<Rightarrow> json" where
  "nullable_text v = (case v of None \<Rightarrow> JNull | Some s \<Rightarrow> JString s)"

definition nullable_number :: "int option \<Rightarrow> json" where
  "nullable_number v = (case v of None \<Rightarrow> JNull | Some n \<Rightarrow> JNumber n)"

definition text_array :: "string list \<Rightarrow> json" where
  "text_array vs = JArray (map JString vs)"

definition object_json :: "(string \<times> string) list \<Rightarrow> json" where
  "object_json m = JObject (map (\<lambda>(k, v). (k, JString v)) m)"

definition side_text :: "position_side \<Rightarrow> string" where
  "side_text s = (case s of LONG \<Rightarrow> ''LONG'' | SHORT \<Rightarrow> ''SHORT'')"

definition target_json :: "target_exposure option \<Rightarrow> json" where
  "target_json t = (case t of None \<Rightarrow> JNull | Some TARGET_LONG \<Rightarrow> JString ''LONG''
     | Some TARGET_SHORT \<Rightarrow> JString ''SHORT'' | Some TARGET_FLAT \<Rightarrow> JString ''FLAT'')"

definition status_text :: "decision_status \<Rightarrow> string" where
  "status_text s = (case s of WARMING \<Rightarrow> ''WARMING'' | READY \<Rightarrow> ''READY'')"

definition provenance_members :: "provenance \<Rightarrow> (string \<times> json) list" where
  "provenance_members p =
     [(''sourceId'', JString (pv_sourceId p)), (''sourceTimeMs'', nullable_number (pv_sourceTimeMs p)),
      (''observedAtMs'', JNumber (pv_observedAtMs p))]"

definition provenance_json :: "provenance \<Rightarrow> json" where
  "provenance_json p = JObject (provenance_members p @ [(''contentSha256'', JString (pv_contentSha256 p))])"

definition pending_json :: "pending_exposure \<Rightarrow> json" where
  "pending_json p =
     (case p of
        UNKNOWN \<Rightarrow> JObject [(''status'', JString ''UNKNOWN'')]
      | KNOWN k \<Rightarrow> JObject
          [(''status'', JString ''KNOWN''),
           (''globalPendingNotionalInr'', JString (kp_globalPendingNotionalInr k)),
           (''pairPendingNotionalInr'', object_json (kp_pairPendingNotionalInr k)),
           (''strategyPendingNotionalInr'', object_json (kp_strategyPendingNotionalInr k)),
           (''instancePendingReservations'', JArray (map (\<lambda>r. JObject
              [(''strategyInstanceId'', JString (pr_strategyInstanceId r)),
               (''strategyId'', JString (pr_strategyId r)), (''strategyVersion'', JString (pr_strategyVersion r)),
               (''parameterHash'', JString (pr_parameterHash r)),
               (''pendingNotionalInr'', JString (pr_pendingNotionalInr r)),
               (''pendingReservationCount'', JNumber (pr_pendingReservationCount r))]) (kp_instancePendingReservations k))),
           (''pendingReservationCount'', JNumber (kp_pendingReservationCount k)),
           (''pendingDirectionalNotionalInr'',
             JObject [(''longInr'', JString (kp_longInr k)), (''shortInr'', JString (kp_shortInr k))])])"

definition exposure_members :: "exposure_snapshot \<Rightarrow> (string \<times> json) list" where
  "exposure_members x =
     [(''accountId'', JString (ex_accountId x)), (''globalOpenNotionalInr'', JString (ex_globalOpenNotionalInr x)),
      (''perPairOpenNotionalInr'', object_json (ex_perPairOpenNotionalInr x)),
      (''perStrategyOpenNotionalInr'', object_json (ex_perStrategyOpenNotionalInr x)),
      (''concurrentOpenPositions'', JNumber (ex_concurrentOpenPositions x)),
      (''pending'', pending_json (ex_pending x))]"

definition valuation_json :: "position_valuation option \<Rightarrow> json" where
  "valuation_json v =
     (case v of
        None \<Rightarrow> JNull
      | Some v \<Rightarrow> JObject
          [(''valuationMethodVersion'', JString (vl_valuationMethodVersion v)),
           (''valuationPriceField'', JString (vl_valuationPriceField v)),
           (''valuationPriceUsdt'', JString (vl_valuationPriceUsdt v)),
           (''valuationPriceSourceId'', JString (vl_valuationPriceSourceId v)),
           (''valuationPriceSourceTimeMs'', nullable_number (vl_valuationPriceSourceTimeMs v)),
           (''valuationPriceObservedAtMs'', JNumber (vl_valuationPriceObservedAtMs v)),
           (''contractMultiplier'', JString (vl_contractMultiplier v)),
           (''conversionMarket'', JString (vl_conversionMarket v)),
           (''conversionRateInrPerUsdt'', JString (vl_conversionRateInrPerUsdt v)),
           (''conversionSourceId'', JString (vl_conversionSourceId v)),
           (''unitValuationInrPerQty'', JString (vl_unitValuationInrPerQty v)),
           (''aggregateCurrentNotionalInr'', JString (vl_aggregateCurrentNotionalInr v))])"

definition position_json :: "pair_position \<Rightarrow> json" where
  "position_json p =
     (case p of
        POSITION_FLAT \<Rightarrow> JObject [(''state'', JString ''FLAT'')]
      | POSITION_OPEN o' \<Rightarrow> JObject
          [(''state'', JString ''OPEN''), (''positionId'', JString (op_positionId o')),
           (''positionDirection'', JString (side_text (op_positionDirection o'))),
           (''quantityMagnitude'', JString (op_quantityMagnitude o')), (''valuation'', valuation_json (op_valuation o'))])"

definition ownership_json :: "position_ownership \<Rightarrow> json" where
  "ownership_json w =
     (case w of
        UNRECONCILED \<Rightarrow> JObject [(''status'', JString ''UNRECONCILED'')]
      | RECONCILED_FLAT account pair \<Rightarrow> JObject
          [(''status'', JString ''RECONCILED''), (''positionState'', JString ''FLAT''), (''accountId'', JString account),
           (''pair'', JString pair), (''positionId'', JNull), (''instanceOwnership'', JArray [])]
      | RECONCILED_OPEN account pair positionId records \<Rightarrow> JObject
          [(''status'', JString ''RECONCILED''), (''positionState'', JString ''OPEN''), (''accountId'', JString account),
           (''pair'', JString pair), (''positionId'', JString positionId),
           (''instanceOwnership'', JArray (map (\<lambda>r. JObject
              [(''strategyInstanceId'', JString (ow_strategyInstanceId r)), (''strategyId'', JString (ow_strategyId r)),
               (''strategyVersion'', JString (ow_strategyVersion r)), (''parameterHash'', JString (ow_parameterHash r)),
               (''currentQuantity'', JString (ow_currentQuantity r)),
               (''currentNotionalInr'', JString (ow_currentNotionalInr r))]) records))])"

definition pair_members :: "pair_snapshot \<Rightarrow> (string \<times> json) list" where
  "pair_members p =
     [(''pair'', JString (ps_pair p)), (''instrumentSpecSnapshotId'', JString (ps_instrumentSpecSnapshotId p)),
      (''status'', JString (ps_status p)), (''exitOnly'', JBool (ps_exitOnly p)),
      (''priceIncrement'', JString (ps_priceIncrement p)), (''quantityIncrement'', JString (ps_quantityIncrement p)),
      (''minPrice'', JString (ps_minPrice p)), (''maxPrice'', JString (ps_maxPrice p)),
      (''minQuantity'', JString (ps_minQuantity p)), (''maxQuantity'', JString (ps_maxQuantity p)),
      (''minTradeSize'', JString (ps_minTradeSize p)), (''minNotional'', JString (ps_minNotional p)),
      (''maxNotional'', nullable_text (ps_maxNotional p)), (''contractMultiplier'', JString (ps_contractMultiplier p)),
      (''position'', position_json (ps_position p)), (''ownership'', ownership_json (ps_ownership p))]"

definition entry_stop_members :: "entry_stop \<Rightarrow> (string \<times> json) list" where
  "entry_stop_members e =
     [(''proposalId'', JString (es_proposalId e)), (''proposalPolicyId'', JString (es_proposalPolicyId e)),
      (''sourceStrategyDecisionId'', JString (es_sourceStrategyDecisionId e)), (''pair'', JString (es_pair e)),
      (''entryPriceUsdt'', JString (es_entryPriceUsdt e)), (''stopPriceUsdt'', JString (es_stopPriceUsdt e))]"

definition account_members :: "account_snapshot \<Rightarrow> (string \<times> json) list" where
  "account_members a =
     [(''accountId'', JString (ac_accountId a)), (''accountStateKnown'', JBool (ac_accountStateKnown a)),
      (''availableMarginInr'', JString (ac_availableMarginInr a)), (''lockedMarginInr'', JString (ac_lockedMarginInr a)),
      (''currentEquityInr'', JString (ac_currentEquityInr a)), (''peakEquityInr'', JString (ac_peakEquityInr a)),
      (''dailyPnl'', JObject
         [(''realizedTradingPnlInr'', JString (dp_realizedTradingPnlInr (ac_dailyPnl a))),
          (''fundingPnlInr'', JString (dp_fundingPnlInr (ac_dailyPnl a))), (''feesInr'', JString (dp_feesInr (ac_dailyPnl a))),
          (''otherAccountAdjustmentsInr'', JString (dp_otherAccountAdjustmentsInr (ac_dailyPnl a))),
          (''netDailyPnlInr'', JString (dp_netDailyPnlInr (ac_dailyPnl a)))]),
      (''consecutiveLossCount'', JNumber (ac_consecutiveLossCount a)),
      (''cooldownActiveUntilMs'', nullable_number (ac_cooldownActiveUntilMs a)),
      (''accountMaxLeverage'', nullable_text (ac_accountMaxLeverage a)),
      (''reconciliationSourceIds'', text_array (ac_reconciliationSourceIds a))]"

definition tier_members :: "tier_snapshot \<Rightarrow> (string \<times> json) list" where
  "tier_members t =
     [(''pair'', JString (ts_pair t)),
      (''semanticsStatus'', JString (if ts_verified t then ''VERIFIED'' else ''SEMANTICS_UNVERIFIED'')),
      (''semanticsVersion'', nullable_text (ts_semanticsVersion t)),
      (''exchangeMaxLeverage'', JString (ts_exchangeMaxLeverage t)),
      (''tiers'', JArray (map (\<lambda>r. JObject
         [(''tierId'', JString (tr_tierId r)), (''lowerNotionalUsdt'', JString (tr_lowerNotionalUsdt r)),
          (''upperNotionalUsdt'', nullable_text (tr_upperNotionalUsdt r)), (''lowerInclusive'', JBool (tr_lowerInclusive r)),
          (''upperInclusive'', JBool (tr_upperInclusive r)), (''maxLeverage'', JString (tr_maxLeverage r))]) (ts_tiers t))),
      (''safetyMarginTiers'', JArray (map (\<lambda>r. JObject
         [(''positionSizeThresholdUsdt'', JString (sm_positionSizeThresholdUsdt r)),
          (''maintenanceMarginPercent'', JString (sm_maintenanceMarginPercent r))]) (ts_safetyMarginTiers t))),
      (''legacyMaxLeverageLongIgnored'', nullable_text (ts_legacyMaxLeverageLongIgnored t)),
      (''legacyMaxLeverageShortIgnored'', nullable_text (ts_legacyMaxLeverageShortIgnored t))]"

definition settlement_members :: "settlement_snapshot \<Rightarrow> (string \<times> json) list" where
  "settlement_members s =
     [(''conversionMarketId'', JString (st_conversionMarketId s)), (''sourceCurrency'', JString (st_sourceCurrency s)),
      (''targetCurrency'', JString (st_targetCurrency s)), (''marginCurrency'', JString (st_marginCurrency s)),
      (''rateInrPerUsdt'', JString (st_rateInrPerUsdt s))]"

subsection \<open>Digests\<close>

definition risk_digest :: "(string \<Rightarrow> string) \<Rightarrow> json \<Rightarrow> (risk_error, string) res" where
  "risk_digest sha v = (case sha256CanonicalJson sha v of Inl e \<Rightarrow> Inl (CanonicalJsonError e) | Inr d \<Rightarrow> Inr d)"

definition evidenceContentSha256 :: "(string \<Rightarrow> string) \<Rightarrow> (string \<times> json) list \<Rightarrow> provenance \<Rightarrow> (risk_error, string) res" where
  "evidenceContentSha256 sha members p = risk_digest sha (JObject (members @ [(''provenance'', JObject (provenance_members p))]))"

record evidence_check =
  ec_contentHash :: string
  ec_reasons :: "rejection_code list"

definition verifyEvidence ::
    "(string \<Rightarrow> string) \<Rightarrow> (string \<times> json) list \<Rightarrow> provenance \<Rightarrow> string \<Rightarrow> int \<Rightarrow> int \<Rightarrow> rejection_code
     \<Rightarrow> (risk_error, evidence_check) res" where
  "verifyEvidence sha members p expectedSourceId evaluationTimeMs maxAgeMs staleCode =
     rbind (evidenceContentSha256 sha members p) (\<lambda>computed.
       let causal = (case pv_sourceTimeMs p of None \<Rightarrow> True | Some t \<Rightarrow> t \<le> pv_observedAtMs p)
                    \<and> pv_observedAtMs p \<le> evaluationTimeMs
       in Inr \<lparr>ec_contentHash = computed,
            ec_reasons = (if computed \<noteq> pv_contentSha256 p then [DECISION_IDENTITY_MISMATCH] else [])
              @ (if pv_sourceId p \<noteq> expectedSourceId then [SOURCE_ID_MISMATCH] else [])
              @ (if \<not> causal then [EVIDENCE_TEMPORAL_CAUSALITY_VIOLATION]
                 else if evaluationTimeMs - pv_observedAtMs p > maxAgeMs then [staleCode] else [])\<rparr>)"

datatype snapshot_kind = KIND_ACCOUNT | KIND_PAIR | KIND_EXPOSURE | KIND_TIER | KIND_SETTLEMENT

definition freshnessFor :: "snapshot_kind \<Rightarrow> freshness_policy \<Rightarrow> int" where
  "freshnessFor kind policy =
     (case kind of
        KIND_ACCOUNT \<Rightarrow> fp_maxAccountSnapshotAgeMs policy
      | KIND_PAIR \<Rightarrow> fp_maxPairSnapshotAgeMs policy
      | KIND_EXPOSURE \<Rightarrow> fp_maxExposureSnapshotAgeMs policy
      | KIND_TIER \<Rightarrow> fp_maxLeverageTierSnapshotAgeMs policy
      | KIND_SETTLEMENT \<Rightarrow> fp_maxSettlementRateSnapshotAgeMs policy)"

subsection \<open>The lineage of a strategy decision\<close>

definition bootstrap_json :: "bootstrap_entry list \<Rightarrow> json" where
  "bootstrap_json es = JArray (map (\<lambda>e. JObject
     [(''timeframeMinutes'', JNumber (be_timeframeMinutes e)),
      (''bootstrapStartOpenTimeMs'', JNumber (be_bootstrapStartOpenTimeMs e))]) es)"

definition strategy_decision_json :: "strategy_decision \<Rightarrow> json" where
  "strategy_decision_json d = JObject
     [(''decisionId'', JString (sd_decisionId d)), (''decisionSequence'', JNumber (sd_decisionSequence d)),
      (''strategyInstanceId'', JString (sd_strategyInstanceId d)), (''strategyId'', JString (sd_strategyId d)),
      (''strategyVersion'', JString (sd_strategyVersion d)), (''parameterHash'', JString (sd_parameterHash d)),
      (''pair'', JString (sd_pair d)), (''evaluationTimeMs'', JNumber (sd_evaluationTimeMs d)),
      (''triggerTimeframeMinutes'', JNumber (sd_triggerTimeframeMinutes d)), (''status'', JString (status_text (sd_status d))),
      (''targetExposure'', target_json (sd_targetExposure d)), (''reasonCodes'', text_array (sd_reasonCodes d))]"

definition candidate_json :: "strategy_candidate \<Rightarrow> json" where
  "candidate_json c = JObject
     [(''strategyDecision'', strategy_decision_json (cd_strategyDecision c)),
      (''strategyLineage'', JObject
         [(''normalizedParameters'', sl_normalizedParameters (cd_strategyLineage c)),
          (''indicatorBootstrapIdentity'', bootstrap_json (sl_indicatorBootstrapIdentity (cd_strategyLineage c)))]),
      (''pair'', JString (cd_pair c)), (''instrumentSpecSnapshotId'', JString (cd_instrumentSpecSnapshotId c))]"

text \<open>The serializer of the strategy layer (\<^verbatim>\<open>src/strategies/core/canonical.ts\<close>) is the one of the backtest without
  its support of decimal values.\<close>

fun has_decimal :: "json \<Rightarrow> bool" where
  "has_decimal (JDecimal _) \<longleftrightarrow> True"
| "has_decimal (JArray vs) \<longleftrightarrow> list_ex has_decimal vs"
| "has_decimal (JObject ms) \<longleftrightarrow> list_ex (\<lambda>(k, v). has_decimal v) ms"
| "has_decimal _ \<longleftrightarrow> False"

definition strategySha256CanonicalJson :: "(string \<Rightarrow> string) \<Rightarrow> json \<Rightarrow> (risk_error, string) res" where
  "strategySha256CanonicalJson sha v =
     (if has_decimal v then Inl StrategyError
      else case sha256CanonicalJson sha v of Inl _ \<Rightarrow> Inl StrategyError | Inr d \<Rightarrow> Inr d)"

definition recomputeStrategyDecisionId :: "(string \<Rightarrow> string) \<Rightarrow> strategy_decision \<Rightarrow> (risk_error, string) res" where
  "recomputeStrategyDecisionId sha d = strategySha256CanonicalJson sha (JObject
     [(''strategyInstanceId'', JString (sd_strategyInstanceId d)), (''decisionSequence'', JNumber (sd_decisionSequence d)),
      (''evaluationTimeMs'', JNumber (sd_evaluationTimeMs d)),
      (''triggerTimeframeMinutes'', JNumber (sd_triggerTimeframeMinutes d)), (''status'', JString (status_text (sd_status d))),
      (''targetExposure'', target_json (sd_targetExposure d)), (''reasonCodes'', text_array (sd_reasonCodes d))])"

definition createStrategyRiskCandidate :: "strategy_decision \<Rightarrow> string \<Rightarrow> strategy_lineage \<Rightarrow> strategy_candidate option" where
  "createStrategyRiskCandidate d instrumentSpecSnapshotId lineage =
     (if sd_status d = WARMING then None
      else Some \<lparr>cd_strategyDecision = d, cd_strategyLineage = lineage, cd_pair = sd_pair d,
                 cd_instrumentSpecSnapshotId = instrumentSpecSnapshotId\<rparr>)"

text \<open>What a strategy definition constructs from parameters, or that it throws.\<close>

record strategy_construction =
  co_normalizedParameters :: json
  co_triggerTimeframeMinutes :: int
  co_requiredTimeframes :: "int list"

record strategy_definition =
  df_strategyId :: string
  df_strategyVersion :: string
  df_describeConstruction :: "json \<Rightarrow> (risk_error, strategy_construction) res"

definition is_sha256 :: "string \<Rightarrow> bool" where
  "is_sha256 s \<longleftrightarrow> length s = 64 \<and> list_all (\<lambda>c. is_digit c \<or> c \<in> set ''abcdef'') s"

definition computeStrategyInstanceId ::
    "(string \<Rightarrow> string) \<Rightarrow> string \<Rightarrow> string \<Rightarrow> string \<Rightarrow> string \<Rightarrow> bootstrap_entry list \<Rightarrow> (risk_error, string) res" where
  "computeStrategyInstanceId sha pair strategyId strategyVersion parameterHash bootstrap =
     (if pair = [] \<or> trim pair \<noteq> pair then Inl StrategyError
      else if \<not> is_sha256 parameterHash then Inl StrategyError
      else strategySha256CanonicalJson sha (JObject
        [(''indicatorBootstrapIdentity'', bootstrap_json bootstrap), (''pair'', JString pair),
         (''parameterHash'', JString parameterHash), (''strategyId'', JString strategyId),
         (''strategyVersion'', JString strategyVersion)]))"

definition MAX_STRATEGY_TIMEFRAME_MINUTES :: int where
  "MAX_STRATEGY_TIMEFRAME_MINUTES = 150119987579"

fun bootstrapEntries :: "int list \<Rightarrow> bootstrap_entry list \<Rightarrow> (risk_error, unit) res" where
  "bootstrapEntries seen [] = Inr ()"
| "bootstrapEntries seen (e # es) =
     (let t = be_timeframeMinutes e; b = be_bootstrapStartOpenTimeMs e
      in if \<not> isSafeInteger t \<or> t < 1 \<or> t > MAX_STRATEGY_TIMEFRAME_MINUTES then Inl StrategyError
         else if t \<in> set seen then Inl StrategyError
         else if \<not> isSafeInteger b \<or> b < 0 \<or> b mod 60000 \<noteq> 0 then Inl StrategyError
         else bootstrapEntries (t # seen) es)"

definition normalizeIndicatorBootstrapIdentity ::
    "bootstrap_entry list \<Rightarrow> int list \<Rightarrow> (risk_error, bootstrap_entry list) res" where
  "normalizeIndicatorBootstrapIdentity entries timeframes =
     rbind (bootstrapEntries [] entries) (\<lambda>_.
       let normalized = sort_key be_timeframeMinutes entries
       in if map be_timeframeMinutes normalized \<noteq> sort (set_of_values timeframes) then Inl StrategyError
          else Inr normalized)"

definition same_digest :: "(string \<Rightarrow> string) \<Rightarrow> json \<Rightarrow> json \<Rightarrow> (risk_error, bool) res" where
  "same_digest sha v w =
     rbind (strategySha256CanonicalJson sha v) (\<lambda>a. rbind (strategySha256CanonicalJson sha w) (\<lambda>b. Inr (a = b)))"

text \<open>Rebuilding the construction of the definition: whether parameters, instance, trigger and the decision's
  own identity all come out as claimed.\<close>

definition lineageRebuilds ::
    "(string \<Rightarrow> string) \<Rightarrow> strategy_definition \<Rightarrow> strategy_candidate \<Rightarrow> (risk_error, bool) res" where
  "lineageRebuilds sha definition candidate =
     (let d = cd_strategyDecision candidate; lineage = cd_strategyLineage candidate in
      rbind (df_describeConstruction definition (sl_normalizedParameters lineage)) (\<lambda>construction.
      rbind (normalizeIndicatorBootstrapIdentity (sl_indicatorBootstrapIdentity lineage) (co_requiredTimeframes construction)) (\<lambda>bootstrap.
      rbind (strategySha256CanonicalJson sha (co_normalizedParameters construction)) (\<lambda>parameterHash.
      rbind (computeStrategyInstanceId sha (sd_pair d) (df_strategyId definition) (df_strategyVersion definition) parameterHash bootstrap)
        (\<lambda>instanceId.
      if parameterHash \<noteq> sd_parameterHash d then Inr False
      else rbind (strategySha256CanonicalJson sha (sl_normalizedParameters lineage)) (\<lambda>given.
        if given \<noteq> parameterHash \<or> instanceId \<noteq> sd_strategyInstanceId d
           \<or> co_triggerTimeframeMinutes construction \<noteq> sd_triggerTimeframeMinutes d
        then Inr False
        else rbind (recomputeStrategyDecisionId sha d) (\<lambda>decisionId. Inr (decisionId = sd_decisionId d))))))))"

definition strategyLineageReasons ::
    "(string \<Rightarrow> string) \<Rightarrow> strategy_definition list \<Rightarrow> strategy_candidate \<Rightarrow> decision_origin option
     \<Rightarrow> (risk_error, rejection_code list) res" where
  "strategyLineageReasons sha definitions candidate origin =
     (let d = cd_strategyDecision candidate; lineage = cd_strategyLineage candidate
      in case origin of
          None \<Rightarrow> Inr [DECISION_IDENTITY_MISMATCH]
        | Some r \<Rightarrow>
            rbind (same_digest sha (strategy_decision_json d) (strategy_decision_json (or_decision r))) (\<lambda>same.
            if \<not> same then Inr [DECISION_IDENTITY_MISMATCH]
            else
              let expected = or_instance r in
              if sd_pair d \<noteq> si_pair expected \<or> sd_strategyId d \<noteq> si_strategyId expected
                 \<or> sd_strategyVersion d \<noteq> si_strategyVersion expected \<or> sd_parameterHash d \<noteq> si_parameterHash expected
                 \<or> sd_strategyInstanceId d \<noteq> si_strategyInstanceId expected
                 \<or> sd_triggerTimeframeMinutes d \<noteq> si_triggerTimeframeMinutes expected
              then Inr [DECISION_IDENTITY_MISMATCH]
              else rbind (same_digest sha (sl_normalizedParameters lineage) (si_normalizedParameters expected)) (\<lambda>same1.
                if \<not> same1 then Inr [DECISION_IDENTITY_MISMATCH]
                else rbind (same_digest sha (bootstrap_json (sl_indicatorBootstrapIdentity lineage))
                              (bootstrap_json (si_indicatorBootstrapIdentity expected))) (\<lambda>same2.
                  if \<not> same2 then Inr [DECISION_IDENTITY_MISMATCH]
                  else case find (\<lambda>f. df_strategyId f = sd_strategyId d \<and> df_strategyVersion f = sd_strategyVersion d) definitions of
                      None \<Rightarrow> Inr [DECISION_IDENTITY_MISMATCH]
                    | Some f \<Rightarrow>
                        (case lineageRebuilds sha f candidate of
                           Inl e \<Rightarrow> if e = StrategyError then Inr [DECISION_IDENTITY_MISMATCH] else Inl e
                         | Inr ok \<Rightarrow> Inr (if ok then [] else [DECISION_IDENTITY_MISMATCH]))))))"

definition deriveRiskAction :: "strategy_decision \<Rightarrow> pair_position \<Rightarrow> (risk_error, risk_action) res" where
  "deriveRiskAction d position =
     (case sd_targetExposure d of
        None \<Rightarrow> Inl PlainError
      | Some target \<Rightarrow> Inr
          (case position of
             POSITION_FLAT \<Rightarrow> if target = TARGET_FLAT then NO_CHANGE else OPEN_ACTION
           | POSITION_OPEN p \<Rightarrow>
               if target = (case op_positionDirection p of LONG \<Rightarrow> TARGET_LONG | SHORT \<Rightarrow> TARGET_SHORT) then NO_CHANGE
               else if target = TARGET_FLAT then CLOSE_ACTION else REVERSAL_DEFERRED))"

end
