(* ===== verification/Decimal_Code.thy ===== *)
theory Decimal_Code
  imports Risk_Calc
begin

section \<open>Evaluating decimals on binary integers\<close>

text \<open>
  Code equations only: a concrete decimal is evaluated with the binary integers of HOL instead of the unary
  naturals, so that the samples of the risk engine are run by \<^verbatim>\<open>code_simp\<close>. Nothing of the program is
  modelled here; the definitions are auxiliary to evaluation.
\<close>

text \<open>A digit is read off the bits of its character, and written by cases.\<close>

lemma is_digit_code [code]:
  "is_digit (Char b0 b1 b2 b3 b4 b5 b6 b7) \<longleftrightarrow> b5 \<and> b4 \<and> \<not> b6 \<and> \<not> b7 \<and> \<not> (b3 \<and> (b1 \<or> b2))"
  by (cases b7; cases b6; cases b5; cases b4; cases b3; cases b2; cases b1; cases b0)
    (simp_all add: is_digit_def of_char_Char)

definition digit_int :: "char \<Rightarrow> int" where
  "digit_int c = int (digit_val c)"

lemma digit_int_code [code]:
  "digit_int (Char b0 b1 b2 b3 b4 b5 b6 b7) =
     (if b5 \<and> b4 \<and> \<not> b6 \<and> \<not> b7 then (if b0 then 1 else 0) + (if b1 then 2 else 0) + (if b2 then 4 else 0) + (if b3 then 8 else 0)
      else int (of_char (Char b0 b1 b2 b3 b4 b5 b6 b7) - 48))"
  by (cases b0; cases b1; cases b2; cases b3) (simp_all add: digit_int_def digit_val_def of_char_Char)

definition digit_of :: "int \<Rightarrow> char" where
  "digit_of i = digit_char (nat i)"

lemma digit_of_code [code]:
  "digit_of i = (if i = 0 then CHR ''0'' else if i = 1 then CHR ''1'' else if i = 2 then CHR ''2''
     else if i = 3 then CHR ''3'' else if i = 4 then CHR ''4'' else if i = 5 then CHR ''5'' else if i = 6 then CHR ''6''
     else if i = 7 then CHR ''7'' else if i = 8 then CHR ''8'' else if i = 9 then CHR ''9'' else digit_char (nat i))"
  by (simp add: digit_of_def digit_char_def char_of_def bit_0)

definition digits_int :: "string \<Rightarrow> int" where
  "digits_int s = foldl (\<lambda>n c. 10 * n + digit_int c) 0 s"

lemma digits_int_acc: "foldl (\<lambda>n c. 10 * n + digit_int c) (int a) s = int (foldl (\<lambda>n c. 10 * n + digit_val c) a s)"
proof (induction s arbitrary: a)
  case (Cons c s)
  from Cons.IH[of "10 * a + digit_val c"] show ?case by (simp add: digit_int_def)
qed simp

lemma int_digits_nat [code_unfold]: "int (digits_nat s) = digits_int s"
  using digits_int_acc[of 0 s] by (simp add: digits_int_def digits_nat_def)

lemma rat_digits_nat [code_unfold]: "(of_nat (digits_nat s) :: rat) = of_int (digits_int s)"
  unfolding int_digits_nat[symmetric] by simp

function int_digits_onto :: "int \<Rightarrow> string \<Rightarrow> string" where
  "int_digits_onto n t = (if n < 10 then digit_of n # t else int_digits_onto (n div 10) (digit_of (n mod 10) # t))"
  by pat_completeness auto
termination by (relation "measure (\<lambda>(n, t). nat n)") auto

declare int_digits_onto.simps [simp del]

definition int_digits :: "int \<Rightarrow> string" where
  "int_digits n = int_digits_onto n []"

lemma int_digits_onto_nat: "int_digits_onto n t = nat_digits (nat n) @ t"
proof (induction n t rule: int_digits_onto.induct)
  case (1 n t)
  show ?case
  proof (cases "n < 10")
    case True
    then show ?thesis by (subst nat_digits.simps, subst int_digits_onto.simps) (auto simp: digit_of_def)
  next
    case False
    then have "int_digits_onto (n div 10) (digit_of (n mod 10) # t) = nat_digits (nat (n div 10)) @ digit_of (n mod 10) # t"
      by (rule 1)
    with False show ?thesis
      by (subst nat_digits.simps, subst int_digits_onto.simps) (simp add: nat_div_distrib nat_mod_distrib digit_of_def)
  qed
qed

lemma nat_digits_nat [code_unfold]: "nat_digits (nat n) = int_digits n"
  by (simp add: int_digits_def int_digits_onto_nat)

function int_scale :: "int \<Rightarrow> nat" where
  "int_scale d = (if d \<le> 1 \<or> gcd d 10 = 1 then 0 else Suc (int_scale (d div gcd d 10)))"
  by pat_completeness auto
termination
proof (relation "measure nat")
  fix d :: int
  assume a: "\<not> (d \<le> 1 \<or> gcd d 10 = 1)"
  then have "0 < gcd d 10" by (simp add: gcd_pos_int)
  with a have "1 < gcd d 10" by linarith
  with a have "d div gcd d 10 < d" by (intro int_div_less_self) auto
  with a show "(d div gcd d 10, d) \<in> measure nat" by simp
qed simp

declare int_scale.simps [simp del]

lemma scale_of_nat [code_unfold]: "scale_of (nat d) = int_scale d"
proof (induction d rule: int_scale.induct)
  case (1 d)
  have g: "gcd (nat d) 10 = nat (gcd d 10)" if "\<not> d \<le> 1"
    using that by (simp add: nat_eq_iff gcd_int_def)
  show ?case
  proof (cases "d \<le> 1 \<or> gcd d 10 = 1")
    case True
    have "nat d \<le> 1 \<or> gcd (nat d) 10 = 1"
    proof (cases "d \<le> 1")
      case False
      with True have "gcd d 10 = 1" by blast
      with g[OF False] show ?thesis by simp
    qed (intro disjI1, simp)
    with True show ?thesis by (subst scale_of.simps, subst int_scale.simps) (simp only: if_True)
  next
    case False
    then have g: "gcd (nat d) 10 = nat (gcd d 10)" by (intro g) blast
    have "scale_of (nat (d div gcd d 10)) = int_scale (d div gcd d 10)" by (rule 1[OF False])
    moreover have "nat d div gcd (nat d) 10 = nat (d div gcd d 10)"
      unfolding g using False by (simp add: nat_div_distrib)
    ultimately show ?thesis
      using False by (subst scale_of.simps, subst int_scale.simps) (auto simp: g)
  qed
qed

text \<open>A number of at most twenty decimal places that has few enough digits is not rounded.\<close>

definition rounds_exactly :: "nat \<Rightarrow> rat \<Rightarrow> bool" where
  "rounds_exactly p x =
     (40 \<le> p \<and> (case quotient_of x of (n, d) \<Rightarrow>
        100000000000000000000 mod d = 0 \<and>
        \<bar>n * (100000000000000000000 div d)\<bar> < 10000000000000000000000000000000000000000))"

lemma rounds_exactlyE:
  assumes "rounds_exactly p x"
  obtains c where "\<bar>c\<bar> < 10 ^ p" and "x = of_int c / 10 ^ 20"
proof -
  obtain n d where q: "quotient_of x = (n, d)" by fastforce
  then have d: "0 < d" and x: "x = of_int n / of_int d" by (auto simp: quotient_of_denom_pos quotient_of_div)
  have p: "40 \<le> p" and m: "10 ^ 20 mod d = 0" and b: "\<bar>n * (10 ^ 20 div d)\<bar> < 10 ^ 40"
    using assms by (simp_all add: rounds_exactly_def q)
  have "(10::int) ^ 40 \<le> 10 ^ p" using p by (intro power_increasing) simp_all
  with b have b: "\<bar>n * (10 ^ 20 div d)\<bar> < 10 ^ p" by (rule less_le_trans)
  have "d * (10 ^ 20 div d) = 10 ^ 20" using m by (simp add: mod_0_imp_dvd)
  then have "of_int d * of_int (10 ^ 20 div d) = (10::rat) ^ 20" by (metis of_int_mult of_int_numeral of_int_power)
  then have "x = of_int (n * (10 ^ 20 div d)) / 10 ^ 20" using d unfolding x by (simp add: field_simps)
  with b show thesis by (rule that)
qed

lemma round_sig_code [code]:
  "round_sig p x = (if rounds_exactly p x then x else if x = 0 then 0 else sgn x * round_abs p \<bar>x\<bar>)"
proof (cases "rounds_exactly p x")
  case True
  then obtain c where c: "\<bar>c\<bar> < 10 ^ p" "x = of_int c / 10 ^ 20" by (rule rounds_exactlyE)
  from round_sig_exact[OF c(1), of 20] show ?thesis using True by (simp only: c(2)[symmetric] if_True)
qed (simp add: round_sig_def)

lemma round_up_code [code]:
  "round_up p x = (if rounds_exactly p x then x else if x = 0 then 0
     else let u = 10 powi (exponent10 \<bar>x\<bar> - int p + 1) in of_int \<lceil>x / u\<rceil> * u)"
proof (cases "rounds_exactly p x \<and> x \<noteq> 0")
  case True
  then obtain c where c: "\<bar>c\<bar> < 10 ^ p" "x = of_int c / 10 ^ 20" using rounds_exactlyE by blast
  then have nz: "0 < \<bar>c\<bar>" "\<bar>c\<bar> < 10 ^ p" using True by auto
  have "(10::rat) powi (- int 20) = inverse (10 ^ 20)" by (simp only: power_int_minus power_int_of_nat)
  then have a: "\<bar>x\<bar> = of_int \<bar>c\<bar> * 10 powi (- int 20)"
    unfolding c(2) divide_inverse by (simp only: abs_mult of_int_abs abs_inverse power_abs abs_numeral)
  obtain j where j: "\<bar>x\<bar> = of_int j * 10 powi (exponent10 \<bar>x\<bar> - int p + 1)"
    by (rule round_abs_unit[OF nz a])
  let ?u = "10 powi (exponent10 \<bar>x\<bar> - int p + 1) :: rat"
  have x: "x = of_int (if x < 0 then - j else j) * ?u" using j by (cases "x < 0") auto
  then have "x / ?u = of_int (if x < 0 then - j else j)" by (metis nonzero_mult_div_cancel_right powi_10_pos less_irrefl)
  then have "\<lceil>x / ?u\<rceil> = (if x < 0 then - j else j)" by (simp only: ceiling_of_int)
  with x True show ?thesis by (simp only: round_up_def Let_def simp_thms if_True if_False)
qed (auto simp: round_up_def)

subsection \<open>Small numbers\<close>

text \<open>On numbers of at most twenty decimal places and forty digits the arithmetic with 128 digits is exact, so a
  calculation on them is the one on the rationals.\<close>

definition small :: "rat \<Rightarrow> bool" where
  "small x \<longleftrightarrow> (\<exists>c. x = of_int c / 10 ^ 20 \<and> \<bar>c\<bar> < 10 ^ 40)"

lemma small_of_int: "\<bar>n\<bar> < 10 ^ 20 \<Longrightarrow> small (of_int n)"
  unfolding small_def by (rule exI[of _ "n * 10 ^ 20"]) (simp add: abs_mult)

lemma small_numbers [simp]:
  "small 0" "small 1" "(numeral n :: int) < 10 ^ 20 \<Longrightarrow> small (numeral n)"
  using small_of_int[of 0] small_of_int[of 1] small_of_int[of "numeral n"] by simp_all

lemma small_decimal: "small x \<Longrightarrow> decimal_fraction x"
  unfolding small_def decimal_fraction_def by blast

lemma decimal_numbers [simp]: "decimal_fraction 0" "decimal_fraction 1" "decimal_fraction (numeral n)"
  using decimal_fraction_of_int[of 0] decimal_fraction_of_int[of 1] decimal_fraction_of_int[of "numeral n"] by simp_all

lemma round_sig_small: "small x \<Longrightarrow> round_sig 128 x = x"
proof -
  assume "small x"
  then obtain c where c: "x = of_int c / 10 ^ 20" "\<bar>c\<bar> < 10 ^ 40" unfolding small_def by blast
  have "(10::int) ^ 40 \<le> 10 ^ 128" by (rule power_increasing) simp_all
  with c(2) have "\<bar>c\<bar> < 10 ^ 128" by linarith
  from round_sig_exact[OF this, of 20] show "round_sig 128 x = x" by (simp only: c(1))
qed

lemma sig_digits_small:
  assumes "small x"
  shows "sig_digits x \<le> 40"
proof -
  obtain c where c: "x = of_int c / 10 ^ 20" "\<bar>c\<bar> < 10 ^ 40" using assms unfolding small_def by blast
  obtain n d where q: "quotient_of x = (n, d)" by fastforce
  define m where "m = n * (10 ^ scale_of (nat d) div d)"
  note dec = small_decimal[OF assms]
  have x: "of_int m / 10 ^ scale_of (nat d) = x" unfolding m_def by (rule fraction_quotient[OF dec q])
  have d: "0 < d" "x = of_int n / of_int d" "coprime n d"
    using q by (auto simp: quotient_of_denom_pos quotient_of_div quotient_of_coprime)
  have "(of_int (n * 10 ^ 20) :: rat) = of_int (c * d)" using c(1) d(1,2) by (simp add: field_simps)
  then have "n * 10 ^ 20 = c * d" by (simp only: of_int_eq_iff)
  then have "d dvd n * 10 ^ 20" by (metis dvd_triv_right)
  then have "d dvd 10 ^ 20" using d(3) by (metis coprime_commute coprime_dvd_mult_right_iff)
  then have "int (nat d) dvd int (10 ^ 20)" using d(1) by simp
  then have "nat d dvd 10 ^ 20" by (simp only: int_dvd_int_iff)
  then have s: "scale_of (nat d) \<le> 20" by (rule scale_of_le)
  have "of_int m = x * 10 ^ scale_of (nat d)" using x by (simp add: field_simps)
  then have "\<bar>of_int m :: rat\<bar> = \<bar>x\<bar> * 10 ^ scale_of (nat d)" by (simp add: abs_mult)
  also have "\<dots> \<le> \<bar>x\<bar> * 10 ^ 20" using s by (intro mult_left_mono power_increasing) simp_all
  also have "\<dots> = of_int \<bar>c\<bar>" by (simp add: c(1))
  finally have "\<bar>m\<bar> \<le> \<bar>c\<bar>" by (metis of_int_abs of_int_le_iff)
  then have m: "nat \<bar>m\<bar> < 10 ^ 40" using c(2) by (simp add: nat_less_iff)
  have "length (nat_digits (nat \<bar>m\<bar>)) \<le> 40"
  proof (rule ccontr)
    assume a: "\<not> length (nat_digits (nat \<bar>m\<bar>)) \<le> 40"
    show False
    proof (cases "nat \<bar>m\<bar> = 0")
      case True
      then show False using a by (simp add: nat_digits_0)
    next
      case False
      have "(10::nat) ^ 40 \<le> 10 ^ (length (nat_digits (nat \<bar>m\<bar>)) - 1)" using a by (intro power_increasing) auto
      with nat_digits_bounds(1)[OF False] m show False by linarith
    qed
  qed
  moreover have "length (strip_trailing_zeros s) \<le> length s" for s
    unfolding strip_trailing_zeros_def by (simp, metis length_dropWhile_le length_rev)
  ultimately have "length (strip_trailing_zeros (nat_digits (nat \<bar>m\<bar>))) \<le> 40" using le_trans by blast
  then show ?thesis by (simp add: sig_digits_def q m_def)
qed

fun small_products :: "rat \<Rightarrow> rat list \<Rightarrow> bool" where
  "small_products r [] = True"
| "small_products r (v # vs) = (small v \<and> small (r * v) \<and> small_products (r * v) vs)"

lemma checked_fold_small:
  "small r \<Longrightarrow> small_products r vs \<Longrightarrow> foldl_res (checked_step calc_128) r vs = Inr (r * prod_list vs)"
proof (induction vs arbitrary: r)
  case (Cons v vs)
  have sd: "\<not> cj_sd calc_128 r + cj_sd calc_128 v > 128"
    using sig_digits_small[of r] sig_digits_small[of v] Cons.prems by (simp add: calc_128_def)
  have p: "small (r * v)" using Cons.prems by simp
  then have "risk_mul (cj_D calc_128) r v = r * v"
    using round_sig_small[OF p] by (simp add: risk_mul_def calc_128_def half_up_def)
  then have "checked_step calc_128 r v = Inr (r * v)" using sd by (simp add: checked_step_def)
  with Cons.IH[OF p] Cons.prems show ?case by (simp add: mult.assoc)
qed simp

lemma small_products_all: "small_products r vs \<Longrightarrow> \<forall>v\<in>set vs. small v"
  by (induction vs arbitrary: r) auto

lemma checkedProduct_small:
  assumes "small_products 1 vs"
  shows "checkedProduct calc_128 vs = Inr (prod_list vs)"
proof -
  have "\<not> cj_sd calc_128 x > 128" if "x \<in> set vs" for x
    using sig_digits_small[of x] small_products_all[OF assms] that by (simp add: calc_128_def)
  then have "assertRiskDecimalContext calc_128 vs = Inr ()" by (auto simp: assertRiskDecimalContext_def list_ex_iff)
  with checked_fold_small[OF _ assms] show ?thesis by (simp add: checkedProduct_def calc_128.one_exact)
qed

lemma floorRatio_small:
  assumes "decimal_fraction num" "decimal_fraction den" "0 < den" "0 < inc" and "small inc"
    and "small (of_int \<lfloor>num / (den * inc)\<rfloor>)" "small (of_int \<lfloor>num / (den * inc)\<rfloor> * inc)"
  shows "floorRatioToIncrement calc_128 num den inc = Inr (of_int \<lfloor>num / (den * inc)\<rfloor> * inc)"
proof -
  obtain n ns where n: "ratio_parts (cj_D calc_128) num = (n, ns)" "num = of_int n / 10 ^ ns"
    by (rule calc_128.ratio_parts_value[OF assms(1)])
  obtain d ds where d: "ratio_parts (cj_D calc_128) den = (d, ds)" "den = of_int d / 10 ^ ds"
    by (rule calc_128.ratio_parts_value[OF assms(2)])
  obtain i is' where i: "ratio_parts (cj_D calc_128) inc = (i, is')" "inc = of_int i / 10 ^ is'"
    by (rule calc_128.ratio_parts_value[OF small_decimal[OF assms(5)]])
  let ?top = "n * 10 ^ (ds + is')" and ?bottom = "d * i * 10 ^ ns"
  have pos: "0 < d" "0 < i" using assms(3,4) by (simp_all add: d(2) i(2) zero_less_divide_iff)
  then have b: "0 < ?bottom" by simp
  have "num / (den * inc) = of_int ?top / of_int ?bottom"
    using pos by (simp add: n(2) d(2) i(2) field_simps power_add)
  then have fl: "\<lfloor>num / (den * inc)\<rfloor> = ?top div ?bottom" by (simp only: floor_divide_of_int_eq)
  have "riskDecimal (cj_D calc_128) (json_integer (?top div ?bottom)) = of_int (?top div ?bottom)"
    by (simp add: calc_128.riskDecimal_signed calc_128.json_integer_value)
  moreover have "checkedProduct calc_128 [of_int (?top div ?bottom), inc] = Inr (of_int (?top div ?bottom) * inc)"
    using checkedProduct_small[of "[of_int (?top div ?bottom), inc]"] assms(5-7) by (simp add: fl)
  ultimately show ?thesis
    using pos by (simp only: floorRatioToIncrement_def n(1) d(1) i(1) prod.case Let_def sdiv_floor[OF b] fl) simp
qed

end
