(* ===== verification/Risk_Policy.thy ===== *)
theory Risk_Policy
  imports Risk_Evidence Decimal_Code
begin

section \<open>Risk policies\<close>

text \<open>
  \<^verbatim>\<open>src/risk/policy.ts\<close>, the identities of \<^verbatim>\<open>src/risk/identity.ts\<close> a policy has, and the part of
  \<^verbatim>\<open>src/risk/engine.ts\<close> that takes a policy: a draft is normalized, checked for limits that widen one another
  and given an identity; the engine rebuilds the policy it is handed and refuses one it cannot rebuild. The
  lemmas show that the engine accepts exactly the policies that are made from a draft.
\<close>

subsection \<open>Single fields\<close>

definition configDecimal :: "decimal_js \<Rightarrow> bool \<Rightarrow> string \<Rightarrow> (risk_error, string) res" where
  "configDecimal D allowZero v =
     (case canonicalDecimalString v of
        Inl _ \<Rightarrow> Inl RISK_CONFIG_INVALID
      | Inr normalized \<Rightarrow>
          if (if allowZero then riskDecimal D normalized < 0 else riskDecimal D normalized \<le> 0)
          then Inl RISK_CONFIG_INVALID else Inr normalized)"

definition optionalDecimal :: "decimal_js \<Rightarrow> string option \<Rightarrow> (risk_error, string option) res" where
  "optionalDecimal D v = (case v of None \<Rightarrow> Inr None | Some s \<Rightarrow> rbind (configDecimal D False s) (\<lambda>n. Inr (Some n)))"

definition config_count :: "int \<Rightarrow> (risk_error, int) res" where
  "config_count n = (if \<not> isSafeInteger n \<or> n < 1 then Inl RISK_CONFIG_INVALID else Inr n)"

definition optional_count :: "int option \<Rightarrow> (risk_error, int option) res" where
  "optional_count v = (case v of None \<Rightarrow> Inr None | Some n \<Rightarrow> rbind (config_count n) (\<lambda>k. Inr (Some k)))"

definition exactString :: "string \<Rightarrow> (risk_error, string) res" where
  "exactString v = (if v = [] \<or> trim v \<noteq> v then Inl RISK_CONFIG_INVALID else Inr v)"

definition freshness :: "int \<Rightarrow> (risk_error, int) res" where
  "freshness n = (if \<not> isSafeInteger n \<or> n < 0 then Inl RISK_CONFIG_INVALID else Inr n)"

subsection \<open>Identities\<close>

text \<open>The body of a part of the policy, as it is digested.\<close>

definition global_json :: "global_config \<Rightarrow> json" where
  "global_json g = JObject
     [(''globalMaxLeverage'', JString (gc_globalMaxLeverage g)),
      (''globalMaxOpenNotionalInr'', JString (gc_globalMaxOpenNotionalInr g)),
      (''globalMaxConcurrentPositions'', JNumber (gc_globalMaxConcurrentPositions g)),
      (''globalMaxDailyLossInr'', JString (gc_globalMaxDailyLossInr g)),
      (''globalDailyLossLimitPercent'', nullable_text (gc_globalDailyLossLimitPercent g)),
      (''globalMaxDrawdownPercent'', JString (gc_globalMaxDrawdownPercent g))]"

definition pair_config_json :: "pair_config \<Rightarrow> json" where
  "pair_config_json p = JObject
     [(''pair'', JString (pc_pair p)), (''pairMaxLeverage'', JString (pc_pairMaxLeverage p)),
      (''pairMaxExposureInr'', JString (pc_pairMaxExposureInr p)),
      (''pairMaxConcurrentPositions'', nullable_number (pc_pairMaxConcurrentPositions p))]"

definition mode_text :: "risk_mode \<Rightarrow> string" where
  "mode_text m = (case m of SAFE \<Rightarrow> ''SAFE'' | NORMAL \<Rightarrow> ''NORMAL'' | HIGH \<Rightarrow> ''HIGH'' | CUSTOM \<Rightarrow> ''CUSTOM'')"

definition mode_json :: "mode_config \<Rightarrow> json" where
  "mode_json m = JObject
     [(''mode'', JString (mode_text (mc_mode m))), (''riskPerTradePercent'', JString (mc_riskPerTradePercent m)),
      (''maxNotionalPerTradeInr'', JString (mc_maxNotionalPerTradeInr m)),
      (''leverageRecommendation'', JString (mc_leverageRecommendation m)),
      (''maxConcurrentExposureInr'', JString (mc_maxConcurrentExposureInr m)),
      (''maxCoinExposureInr'', JString (mc_maxCoinExposureInr m)),
      (''maxStrategyExposureInr'', JString (mc_maxStrategyExposureInr m)),
      (''maxConcurrentPositions'', JNumber (mc_maxConcurrentPositions m)),
      (''maxDailyLossInr'', JString (mc_maxDailyLossInr m)),
      (''dailyLossLimitPercent'', nullable_text (mc_dailyLossLimitPercent m)),
      (''maxDrawdownPercent'', JString (mc_maxDrawdownPercent m)),
      (''consecutiveLossLimit'', nullable_number (mc_consecutiveLossLimit m)),
      (''cooldownMs'', nullable_number (mc_cooldownMs m))]"

definition source_json :: "source_policy \<Rightarrow> json" where
  "source_json s = JObject
     [(''accountRiskSourceId'', JString (sp_accountRiskSourceId s)), (''pairRiskSourceId'', JString (sp_pairRiskSourceId s)),
      (''exposureSourceId'', JString (sp_exposureSourceId s)), (''leverageTierSourceId'', JString (sp_leverageTierSourceId s)),
      (''conversionSourceId'', JString (sp_conversionSourceId s))]"

definition freshness_json :: "freshness_policy \<Rightarrow> json" where
  "freshness_json f = JObject
     [(''maxAccountSnapshotAgeMs'', JNumber (fp_maxAccountSnapshotAgeMs f)),
      (''maxPairSnapshotAgeMs'', JNumber (fp_maxPairSnapshotAgeMs f)),
      (''maxExposureSnapshotAgeMs'', JNumber (fp_maxExposureSnapshotAgeMs f)),
      (''maxLeverageTierSnapshotAgeMs'', JNumber (fp_maxLeverageTierSnapshotAgeMs f)),
      (''maxSettlementRateSnapshotAgeMs'', JNumber (fp_maxSettlementRateSnapshotAgeMs f))]"

definition valuation_policy_json :: "valuation_policy \<Rightarrow> json" where
  "valuation_policy_json v = JObject
     [(''valuationMethodVersion'', JString (vp_valuationMethodVersion v)),
      (''valuationPriceField'', JString (vp_valuationPriceField v)),
      (''valuationUnitScale'', JNumber (vp_valuationUnitScale v)),
      (''valuationUnitRounding'', JString (vp_valuationUnitRounding v))]"

definition POSITION_SIZING_POLICY_PAYLOAD :: json where
  "POSITION_SIZING_POLICY_PAYLOAD = JObject
     [(''policyId'', JString ''P13_POSITION_SIZING_V1''),
      (''tierEnumerationPolicyId'', JString ''P13_LEVERAGE_TIER_ENUMERATION_V1''),
      (''roundingMode'', JString ''FLOOR_CONSERVATIVE'')]"

definition computePositionSizingPolicyId :: "(string \<Rightarrow> string) \<Rightarrow> (risk_error, string) res" where
  "computePositionSizingPolicyId sha = risk_digest sha POSITION_SIZING_POLICY_PAYLOAD"

definition policy_id_json :: "risk_policy \<Rightarrow> json" where
  "policy_id_json p = JObject
     [(''globalRiskConfigId'', JString (gc_globalRiskConfigId (rp_globalConfig p))),
      (''pairRiskConfigId'', JString (pc_pairRiskConfigId (rp_pairConfig p))),
      (''riskModeConfigId'', JString (mc_riskModeConfigId (rp_modeConfig p))),
      (''riskSourceAuthorityPolicyId'', JString (sp_riskSourceAuthorityPolicyId (rp_sourceAuthorityPolicy p))),
      (''riskValuationPolicyId'', JString (vp_riskValuationPolicyId (rp_valuationPolicy p))),
      (''riskFreshnessPolicyId'', JString (fp_riskFreshnessPolicyId (rp_freshnessPolicy p))),
      (''sizingPolicyId'', JString ''P13_POSITION_SIZING_V1''),
      (''tierEnumerationPolicyId'', JString ''P13_LEVERAGE_TIER_ENUMERATION_V1''),
      (''exposurePolicyId'', JString ''P13_EXPOSURE_V1''),
      (''lossDrawdownPolicyId'', JString ''P13_LOSS_DRAWDOWN_V1''),
      (''validationPrecedenceId'', JString ''P13_VALIDATION_PRECEDENCE_V1''),
      (''rejectionPrecedenceId'', JString ''P13_REJECTION_PRECEDENCE_V1''),
      (''auditOrderingId'', JString ''P13_AUDIT_ORDERING_V1'')]"

definition computeRiskPolicyId :: "(string \<Rightarrow> string) \<Rightarrow> risk_policy \<Rightarrow> (risk_error, string) res" where
  "computeRiskPolicyId sha p = risk_digest sha (policy_id_json p)"

subsection \<open>Making a policy\<close>

text \<open>A draft has the fields of the parts without their identities, which are never read from it.\<close>

record policy_draft =
  dr_globalConfig :: global_config
  dr_pairConfig :: pair_config
  dr_modeConfig :: mode_config
  dr_sourceAuthorityPolicy :: source_policy
  dr_freshnessPolicy :: freshness_policy
  dr_valuationPolicy :: valuation_policy

definition makeGlobalConfig :: "(string \<Rightarrow> string) \<Rightarrow> decimal_js \<Rightarrow> global_config \<Rightarrow> (risk_error, global_config) res" where
  "makeGlobalConfig sha D g =
     rbind (configDecimal D False (gc_globalMaxLeverage g)) (\<lambda>leverage.
     rbind (configDecimal D False (gc_globalMaxOpenNotionalInr g)) (\<lambda>openNotional.
     rbind (config_count (gc_globalMaxConcurrentPositions g)) (\<lambda>positions.
     rbind (configDecimal D False (gc_globalMaxDailyLossInr g)) (\<lambda>dailyLoss.
     rbind (optionalDecimal D (gc_globalDailyLossLimitPercent g)) (\<lambda>dailyPercent.
     rbind (configDecimal D False (gc_globalMaxDrawdownPercent g)) (\<lambda>drawdown.
       let body = \<lparr>gc_globalRiskConfigId = [], gc_globalMaxLeverage = leverage, gc_globalMaxOpenNotionalInr = openNotional,
             gc_globalMaxConcurrentPositions = positions, gc_globalMaxDailyLossInr = dailyLoss,
             gc_globalDailyLossLimitPercent = dailyPercent, gc_globalMaxDrawdownPercent = drawdown\<rparr>
       in rbind (risk_digest sha (global_json body)) (\<lambda>k. Inr (body\<lparr>gc_globalRiskConfigId := k\<rparr>))))))))"

definition makePairConfig :: "(string \<Rightarrow> string) \<Rightarrow> decimal_js \<Rightarrow> pair_config \<Rightarrow> (risk_error, pair_config) res" where
  "makePairConfig sha D p =
     rbind (exactString (pc_pair p)) (\<lambda>pair.
     rbind (configDecimal D False (pc_pairMaxLeverage p)) (\<lambda>leverage.
     rbind (configDecimal D False (pc_pairMaxExposureInr p)) (\<lambda>exposure.
     rbind (optional_count (pc_pairMaxConcurrentPositions p)) (\<lambda>positions.
       let body = \<lparr>pc_pair = pair, pc_pairRiskConfigId = [], pc_pairMaxLeverage = leverage, pc_pairMaxExposureInr = exposure,
             pc_pairMaxConcurrentPositions = positions\<rparr>
       in rbind (risk_digest sha (pair_config_json body)) (\<lambda>k. Inr (body\<lparr>pc_pairRiskConfigId := k\<rparr>))))))"

text \<open>That the mode is one of the four supported is the type.\<close>

definition makeModeConfig :: "(string \<Rightarrow> string) \<Rightarrow> decimal_js \<Rightarrow> mode_config \<Rightarrow> (risk_error, mode_config) res" where
  "makeModeConfig sha D m =
     rbind (configDecimal D False (mc_riskPerTradePercent m)) (\<lambda>riskPercent.
     rbind (configDecimal D False (mc_maxNotionalPerTradeInr m)) (\<lambda>notional.
     rbind (configDecimal D False (mc_leverageRecommendation m)) (\<lambda>leverage.
     rbind (configDecimal D False (mc_maxConcurrentExposureInr m)) (\<lambda>concurrent.
     rbind (configDecimal D False (mc_maxCoinExposureInr m)) (\<lambda>coin.
     rbind (configDecimal D False (mc_maxStrategyExposureInr m)) (\<lambda>strategy.
     rbind (config_count (mc_maxConcurrentPositions m)) (\<lambda>positions.
     rbind (configDecimal D False (mc_maxDailyLossInr m)) (\<lambda>dailyLoss.
     rbind (optionalDecimal D (mc_dailyLossLimitPercent m)) (\<lambda>dailyPercent.
     rbind (configDecimal D False (mc_maxDrawdownPercent m)) (\<lambda>drawdown.
     rbind (optional_count (mc_consecutiveLossLimit m)) (\<lambda>losses.
     rbind (optional_count (mc_cooldownMs m)) (\<lambda>cooldown.
       let body = \<lparr>mc_mode = mc_mode m, mc_riskModeConfigId = [], mc_riskPerTradePercent = riskPercent,
             mc_maxNotionalPerTradeInr = notional, mc_leverageRecommendation = leverage,
             mc_maxConcurrentExposureInr = concurrent, mc_maxCoinExposureInr = coin, mc_maxStrategyExposureInr = strategy,
             mc_maxConcurrentPositions = positions, mc_maxDailyLossInr = dailyLoss, mc_dailyLossLimitPercent = dailyPercent,
             mc_maxDrawdownPercent = drawdown, mc_consecutiveLossLimit = losses, mc_cooldownMs = cooldown\<rparr>
       in rbind (risk_digest sha (mode_json body)) (\<lambda>k. Inr (body\<lparr>mc_riskModeConfigId := k\<rparr>))))))))))))))"

definition makeSourcePolicy :: "(string \<Rightarrow> string) \<Rightarrow> source_policy \<Rightarrow> (risk_error, source_policy) res" where
  "makeSourcePolicy sha s =
     rbind (exactString (sp_accountRiskSourceId s)) (\<lambda>account.
     rbind (exactString (sp_pairRiskSourceId s)) (\<lambda>pair.
     rbind (exactString (sp_exposureSourceId s)) (\<lambda>exposure.
     rbind (exactString (sp_leverageTierSourceId s)) (\<lambda>tier.
     rbind (exactString (sp_conversionSourceId s)) (\<lambda>conversion.
       let body = \<lparr>sp_riskSourceAuthorityPolicyId = [], sp_accountRiskSourceId = account, sp_pairRiskSourceId = pair,
             sp_exposureSourceId = exposure, sp_leverageTierSourceId = tier, sp_conversionSourceId = conversion\<rparr>
       in rbind (risk_digest sha (source_json body)) (\<lambda>k. Inr (body\<lparr>sp_riskSourceAuthorityPolicyId := k\<rparr>)))))))"

definition makeFreshnessPolicy :: "(string \<Rightarrow> string) \<Rightarrow> freshness_policy \<Rightarrow> (risk_error, freshness_policy) res" where
  "makeFreshnessPolicy sha f =
     rbind (freshness (fp_maxAccountSnapshotAgeMs f)) (\<lambda>account.
     rbind (freshness (fp_maxPairSnapshotAgeMs f)) (\<lambda>pair.
     rbind (freshness (fp_maxExposureSnapshotAgeMs f)) (\<lambda>exposure.
     rbind (freshness (fp_maxLeverageTierSnapshotAgeMs f)) (\<lambda>tier.
     rbind (freshness (fp_maxSettlementRateSnapshotAgeMs f)) (\<lambda>settlement.
       let body = \<lparr>fp_riskFreshnessPolicyId = [], fp_maxAccountSnapshotAgeMs = account, fp_maxPairSnapshotAgeMs = pair,
             fp_maxExposureSnapshotAgeMs = exposure, fp_maxLeverageTierSnapshotAgeMs = tier,
             fp_maxSettlementRateSnapshotAgeMs = settlement\<rparr>
       in rbind (risk_digest sha (freshness_json body)) (\<lambda>k. Inr (body\<lparr>fp_riskFreshnessPolicyId := k\<rparr>)))))))"

definition makeValuationPolicy :: "(string \<Rightarrow> string) \<Rightarrow> valuation_policy \<Rightarrow> (risk_error, valuation_policy) res" where
  "makeValuationPolicy sha v =
     (if vp_valuationMethodVersion v \<noteq> ''P13_MARK_PRICE_MULTIPLIER_SETTLEMENT_V1''
         \<or> vp_valuationPriceField v \<noteq> ''markPriceUsdt'' \<or> vp_valuationUnitRounding v \<noteq> ''ROUND_HALF_UP''
         \<or> \<not> isSafeInteger (vp_valuationUnitScale v) \<or> vp_valuationUnitScale v < 0 \<or> vp_valuationUnitScale v > 128
      then Inl RISK_CONFIG_INVALID
      else rbind (risk_digest sha (valuation_policy_json v)) (\<lambda>k. Inr (v\<lparr>vp_riskValuationPolicyId := k\<rparr>)))"

definition validateAuthority :: "decimal_js \<Rightarrow> global_config \<Rightarrow> pair_config \<Rightarrow> mode_config \<Rightarrow> (risk_error, unit) res" where
  "validateAuthority D g p m =
     (let n = riskDecimal D in
      if n (pc_pairMaxLeverage p) > n (gc_globalMaxLeverage g)
         \<or> n (pc_pairMaxExposureInr p) > n (gc_globalMaxOpenNotionalInr g)
         \<or> (case pc_pairMaxConcurrentPositions p of None \<Rightarrow> False | Some k \<Rightarrow> k > gc_globalMaxConcurrentPositions g)
         \<or> n (mc_leverageRecommendation m) > n (pc_pairMaxLeverage p)
         \<or> n (mc_maxConcurrentExposureInr m) > n (gc_globalMaxOpenNotionalInr g)
         \<or> n (mc_maxCoinExposureInr m) > n (pc_pairMaxExposureInr p)
         \<or> mc_maxConcurrentPositions m > gc_globalMaxConcurrentPositions g
         \<or> n (mc_maxDailyLossInr m) > n (gc_globalMaxDailyLossInr g)
         \<or> (case (mc_dailyLossLimitPercent m, gc_globalDailyLossLimitPercent g) of
              (Some a, Some b) \<Rightarrow> n a > n b | _ \<Rightarrow> False)
         \<or> n (mc_maxDrawdownPercent m) > n (gc_globalMaxDrawdownPercent g)
         \<or> (mc_consecutiveLossLimit m = None) \<noteq> (mc_cooldownMs m = None)
      then Inl RISK_CONFIG_INVALID else Inr ())"

definition createRiskPolicy :: "(string \<Rightarrow> string) \<Rightarrow> decimal_js \<Rightarrow> policy_draft \<Rightarrow> (risk_error, risk_policy) res" where
  "createRiskPolicy sha D draft =
     rbind (assertRejectionPrecedenceIntegrity REJECTION_PRECEDENCE_V1) (\<lambda>_.
     rbind (makeGlobalConfig sha D (dr_globalConfig draft)) (\<lambda>globalConfig.
     rbind (makePairConfig sha D (dr_pairConfig draft)) (\<lambda>pairConfig.
     rbind (makeModeConfig sha D (dr_modeConfig draft)) (\<lambda>modeConfig.
     rbind (makeSourcePolicy sha (dr_sourceAuthorityPolicy draft)) (\<lambda>sourceAuthorityPolicy.
     rbind (makeFreshnessPolicy sha (dr_freshnessPolicy draft)) (\<lambda>freshnessPolicy.
     rbind (makeValuationPolicy sha (dr_valuationPolicy draft)) (\<lambda>valuationPolicy.
     rbind (validateAuthority D globalConfig pairConfig modeConfig) (\<lambda>_.
     rbind (computePositionSizingPolicyId sha) (\<lambda>sizingId.
       let withoutId = \<lparr>rp_globalConfig = globalConfig, rp_pairConfig = pairConfig, rp_modeConfig = modeConfig,
             rp_sourceAuthorityPolicy = sourceAuthorityPolicy, rp_freshnessPolicy = freshnessPolicy,
             rp_valuationPolicy = valuationPolicy, rp_positionSizingPolicyId = sizingId, rp_riskPolicyId = []\<rparr>
       in rbind (computeRiskPolicyId sha withoutId) (\<lambda>k. Inr (withoutId\<lparr>rp_riskPolicyId := k\<rparr>)))))))))))"

subsection \<open>Overrides\<close>

definition widens :: "decimal_js \<Rightarrow> string option \<Rightarrow> string \<Rightarrow> bool" where
  "widens D v cap = (case v of None \<Rightarrow> False | Some s \<Rightarrow> riskDecimal D s > riskDecimal D cap)"

definition normalizeOverrideFields :: "decimal_js \<Rightarrow> risk_policy \<Rightarrow> risk_override \<Rightarrow> (risk_error, risk_override) res" where
  "normalizeOverrideFields D policy ov =
     rbind (exactString (ov_overrideId ov)) (\<lambda>k.
     rbind (optionalDecimal D (ov_overrideRiskPerTradePercent ov)) (\<lambda>riskPercent.
     rbind (optionalDecimal D (ov_overrideMaxLeverage ov)) (\<lambda>leverage.
     rbind (optionalDecimal D (ov_overrideMaxNotionalInr ov)) (\<lambda>notional.
       if widens D riskPercent (mc_riskPerTradePercent (rp_modeConfig policy)) then Inl PlainError
       else if widens D leverage (mc_leverageRecommendation (rp_modeConfig policy)) then Inl PlainError
       else if widens D notional (mc_maxNotionalPerTradeInr (rp_modeConfig policy)) then Inl PlainError
       else Inr \<lparr>ov_overrideId = k, ov_overrideRiskPerTradePercent = riskPercent, ov_overrideMaxLeverage = leverage,
                 ov_overrideMaxNotionalInr = notional\<rparr>))))"

definition normalizeRiskOverride ::
    "decimal_js \<Rightarrow> risk_policy \<Rightarrow> risk_override option \<Rightarrow> (risk_error, risk_override option) res" where
  "normalizeRiskOverride D policy override =
     (case override of
        None \<Rightarrow> Inr None
      | Some ov \<Rightarrow>
          (case normalizeOverrideFields D policy ov of
             Inl e \<Rightarrow> Inl (if e = UNSUPPORTED_RISK_MODE then e else RISK_OVERRIDE_INVALID)
           | Inr n \<Rightarrow> Inr (Some n)))"

subsection \<open>Taking a policy\<close>

definition policyDraftFromPolicy :: "risk_policy \<Rightarrow> policy_draft" where
  "policyDraftFromPolicy p =
     \<lparr>dr_globalConfig = (rp_globalConfig p)\<lparr>gc_globalRiskConfigId := []\<rparr>,
      dr_pairConfig = (rp_pairConfig p)\<lparr>pc_pairRiskConfigId := []\<rparr>,
      dr_modeConfig = (rp_modeConfig p)\<lparr>mc_riskModeConfigId := []\<rparr>,
      dr_sourceAuthorityPolicy = (rp_sourceAuthorityPolicy p)\<lparr>sp_riskSourceAuthorityPolicyId := []\<rparr>,
      dr_freshnessPolicy = (rp_freshnessPolicy p)\<lparr>fp_riskFreshnessPolicyId := []\<rparr>,
      dr_valuationPolicy = (rp_valuationPolicy p)\<lparr>vp_riskValuationPolicyId := []\<rparr>\<rparr>"

text \<open>The digests are compared one after the other, and the first that differs ends the comparison.\<close>

fun digests_match :: "(string \<Rightarrow> string) \<Rightarrow> (json \<times> string) list \<Rightarrow> (risk_error, bool) res" where
  "digests_match sha [] = Inr True"
| "digests_match sha ((v, expected) # rest) =
     rbind (risk_digest sha v) (\<lambda>d. if d \<noteq> expected then Inr False else digests_match sha rest)"

definition assertPolicyIdentity :: "(string \<Rightarrow> string) \<Rightarrow> risk_policy \<Rightarrow> (risk_error, unit) res" where
  "assertPolicyIdentity sha p =
     rbind (digests_match sha
       [(global_json (rp_globalConfig p), gc_globalRiskConfigId (rp_globalConfig p)),
        (pair_config_json (rp_pairConfig p), pc_pairRiskConfigId (rp_pairConfig p)),
        (mode_json (rp_modeConfig p), mc_riskModeConfigId (rp_modeConfig p)),
        (source_json (rp_sourceAuthorityPolicy p), sp_riskSourceAuthorityPolicyId (rp_sourceAuthorityPolicy p)),
        (freshness_json (rp_freshnessPolicy p), fp_riskFreshnessPolicyId (rp_freshnessPolicy p)),
        (valuation_policy_json (rp_valuationPolicy p), vp_riskValuationPolicyId (rp_valuationPolicy p)),
        (POSITION_SIZING_POLICY_PAYLOAD, rp_positionSizingPolicyId p),
        (policy_id_json p, rp_riskPolicyId p)])
       (\<lambda>ok. if ok then Inr () else Inl RISK_POLICY_IDENTITY_MISMATCH)"

definition newRiskEngine :: "(string \<Rightarrow> string) \<Rightarrow> decimal_js \<Rightarrow> risk_policy \<Rightarrow> (risk_error, risk_policy) res" where
  "newRiskEngine sha D policy =
     rbind (assertPolicyIdentity sha policy) (\<lambda>_.
     rbind (createRiskPolicy sha D (policyDraftFromPolicy policy)) (\<lambda>normalized.
       if rp_riskPolicyId normalized \<noteq> rp_riskPolicyId policy then Inl RISK_POLICY_IDENTITY_MISMATCH
       else Inr normalized))"

definition createRiskEngine :: "(string \<Rightarrow> string) \<Rightarrow> decimal_js \<Rightarrow> policy_draft \<Rightarrow> (risk_error, risk_policy) res" where
  "createRiskEngine sha D draft = rbind (createRiskPolicy sha D draft) (newRiskEngine sha D)"

subsection \<open>What a policy is\<close>

definition good_decimal :: "string \<Rightarrow> bool" where
  "good_decimal s \<longleftrightarrow> normal_text s \<and> 0 < text_value s"

definition good_count :: "int \<Rightarrow> bool" where
  "good_count n \<longleftrightarrow> isSafeInteger n \<and> 1 \<le> n"

definition good_string :: "string \<Rightarrow> bool" where
  "good_string s \<longleftrightarrow> s \<noteq> [] \<and> trim s = s"

definition good_age :: "int \<Rightarrow> bool" where
  "good_age n \<longleftrightarrow> isSafeInteger n \<and> 0 \<le> n"

definition global_ok :: "global_config \<Rightarrow> bool" where
  "global_ok g \<longleftrightarrow> good_decimal (gc_globalMaxLeverage g) \<and> good_decimal (gc_globalMaxOpenNotionalInr g)
     \<and> good_count (gc_globalMaxConcurrentPositions g) \<and> good_decimal (gc_globalMaxDailyLossInr g)
     \<and> option_all good_decimal (gc_globalDailyLossLimitPercent g) \<and> good_decimal (gc_globalMaxDrawdownPercent g)"

definition pair_config_ok :: "pair_config \<Rightarrow> bool" where
  "pair_config_ok p \<longleftrightarrow> good_string (pc_pair p) \<and> good_decimal (pc_pairMaxLeverage p) \<and> good_decimal (pc_pairMaxExposureInr p)
     \<and> option_all good_count (pc_pairMaxConcurrentPositions p)"

definition mode_ok :: "mode_config \<Rightarrow> bool" where
  "mode_ok m \<longleftrightarrow> good_decimal (mc_riskPerTradePercent m) \<and> good_decimal (mc_maxNotionalPerTradeInr m)
     \<and> good_decimal (mc_leverageRecommendation m) \<and> good_decimal (mc_maxConcurrentExposureInr m)
     \<and> good_decimal (mc_maxCoinExposureInr m) \<and> good_decimal (mc_maxStrategyExposureInr m)
     \<and> good_count (mc_maxConcurrentPositions m) \<and> good_decimal (mc_maxDailyLossInr m)
     \<and> option_all good_decimal (mc_dailyLossLimitPercent m) \<and> good_decimal (mc_maxDrawdownPercent m)
     \<and> option_all good_count (mc_consecutiveLossLimit m) \<and> option_all good_count (mc_cooldownMs m)"

definition source_ok :: "source_policy \<Rightarrow> bool" where
  "source_ok s \<longleftrightarrow> good_string (sp_accountRiskSourceId s) \<and> good_string (sp_pairRiskSourceId s)
     \<and> good_string (sp_exposureSourceId s) \<and> good_string (sp_leverageTierSourceId s) \<and> good_string (sp_conversionSourceId s)"

definition freshness_ok :: "freshness_policy \<Rightarrow> bool" where
  "freshness_ok f \<longleftrightarrow> good_age (fp_maxAccountSnapshotAgeMs f) \<and> good_age (fp_maxPairSnapshotAgeMs f)
     \<and> good_age (fp_maxExposureSnapshotAgeMs f) \<and> good_age (fp_maxLeverageTierSnapshotAgeMs f)
     \<and> good_age (fp_maxSettlementRateSnapshotAgeMs f)"

definition valuation_ok :: "valuation_policy \<Rightarrow> bool" where
  "valuation_ok v \<longleftrightarrow> vp_valuationMethodVersion v = ''P13_MARK_PRICE_MULTIPLIER_SETTLEMENT_V1''
     \<and> vp_valuationPriceField v = ''markPriceUsdt'' \<and> vp_valuationUnitRounding v = ''ROUND_HALF_UP''
     \<and> isSafeInteger (vp_valuationUnitScale v) \<and> 0 \<le> vp_valuationUnitScale v \<and> vp_valuationUnitScale v \<le> 128"

text \<open>No limit of a narrower part exceeds the wider part's.\<close>

definition policy_ordered :: "risk_policy \<Rightarrow> bool" where
  "policy_ordered p \<longleftrightarrow>
     (let n = text_value; g = rp_globalConfig p; q = rp_pairConfig p; m = rp_modeConfig p in
      n (mc_leverageRecommendation m) \<le> n (pc_pairMaxLeverage q) \<and> n (pc_pairMaxLeverage q) \<le> n (gc_globalMaxLeverage g)
      \<and> n (mc_maxCoinExposureInr m) \<le> n (pc_pairMaxExposureInr q) \<and> n (pc_pairMaxExposureInr q) \<le> n (gc_globalMaxOpenNotionalInr g)
      \<and> n (mc_maxConcurrentExposureInr m) \<le> n (gc_globalMaxOpenNotionalInr g)
      \<and> (case pc_pairMaxConcurrentPositions q of None \<Rightarrow> True | Some k \<Rightarrow> k \<le> gc_globalMaxConcurrentPositions g)
      \<and> mc_maxConcurrentPositions m \<le> gc_globalMaxConcurrentPositions g
      \<and> n (mc_maxDailyLossInr m) \<le> n (gc_globalMaxDailyLossInr g) \<and> n (mc_maxDrawdownPercent m) \<le> n (gc_globalMaxDrawdownPercent g)
      \<and> (case (mc_dailyLossLimitPercent m, gc_globalDailyLossLimitPercent g) of (Some a, Some b) \<Rightarrow> n a \<le> n b | _ \<Rightarrow> True)
      \<and> (mc_consecutiveLossLimit m = None \<longleftrightarrow> mc_cooldownMs m = None))"

definition parts_ok :: "risk_policy \<Rightarrow> bool" where
  "parts_ok p \<longleftrightarrow> global_ok (rp_globalConfig p) \<and> pair_config_ok (rp_pairConfig p) \<and> mode_ok (rp_modeConfig p)
     \<and> source_ok (rp_sourceAuthorityPolicy p) \<and> freshness_ok (rp_freshnessPolicy p) \<and> valuation_ok (rp_valuationPolicy p)"

definition identities_ok :: "(string \<Rightarrow> string) \<Rightarrow> risk_policy \<Rightarrow> bool" where
  "identities_ok sha p \<longleftrightarrow>
     risk_digest sha (global_json (rp_globalConfig p)) = Inr (gc_globalRiskConfigId (rp_globalConfig p))
     \<and> risk_digest sha (pair_config_json (rp_pairConfig p)) = Inr (pc_pairRiskConfigId (rp_pairConfig p))
     \<and> risk_digest sha (mode_json (rp_modeConfig p)) = Inr (mc_riskModeConfigId (rp_modeConfig p))
     \<and> risk_digest sha (source_json (rp_sourceAuthorityPolicy p)) = Inr (sp_riskSourceAuthorityPolicyId (rp_sourceAuthorityPolicy p))
     \<and> risk_digest sha (freshness_json (rp_freshnessPolicy p)) = Inr (fp_riskFreshnessPolicyId (rp_freshnessPolicy p))
     \<and> risk_digest sha (valuation_policy_json (rp_valuationPolicy p)) = Inr (vp_riskValuationPolicyId (rp_valuationPolicy p))
     \<and> risk_digest sha POSITION_SIZING_POLICY_PAYLOAD = Inr (rp_positionSizingPolicyId p)
     \<and> risk_digest sha (policy_id_json p) = Inr (rp_riskPolicyId p)"

text \<open>The bodies do not hold their own identity.\<close>

lemma body_json_id [simp]:
  "global_json (g\<lparr>gc_globalRiskConfigId := k\<rparr>) = global_json g"
  "pair_config_json (p\<lparr>pc_pairRiskConfigId := k\<rparr>) = pair_config_json p"
  "mode_json (m\<lparr>mc_riskModeConfigId := k\<rparr>) = mode_json m"
  "source_json (s\<lparr>sp_riskSourceAuthorityPolicyId := k\<rparr>) = source_json s"
  "freshness_json (f\<lparr>fp_riskFreshnessPolicyId := k\<rparr>) = freshness_json f"
  "valuation_policy_json (v\<lparr>vp_riskValuationPolicyId := k\<rparr>) = valuation_policy_json v"
  "policy_id_json (r\<lparr>rp_riskPolicyId := k\<rparr>) = policy_id_json r"
  by (simp_all add: global_json_def pair_config_json_def mode_json_def source_json_def freshness_json_def
      valuation_policy_json_def policy_id_json_def)

lemma config_count_iff: "config_count n = Inr k \<longleftrightarrow> k = n \<and> good_count n"
  by (auto simp: config_count_def good_count_def)

lemma optional_count_iff: "optional_count v = Inr w \<longleftrightarrow> w = v \<and> option_all good_count v"
  by (cases v) (auto simp: optional_count_def rbind_eq_Inr config_count_iff)

lemma exactString_iff: "exactString v = Inr w \<longleftrightarrow> w = v \<and> good_string v"
  by (auto simp: exactString_def good_string_def)

lemma freshness_iff: "freshness n = Inr k \<longleftrightarrow> k = n \<and> good_age n"
  by (auto simp: freshness_def good_age_def)

context decimal_lib
begin

lemma configDecimal_good: "configDecimal D False v = Inr w \<Longrightarrow> good_decimal w"
proof -
  assume a: "configDecimal D False v = Inr w"
  have s: "signed_text v"
  proof (rule ccontr)
    assume "\<not> signed_text v"
    then show False using a by (simp add: configDecimal_def canonicalDecimalString_def)
  qed
  then have "w = normalize_text v" and "0 < riskDecimal D w"
    using a by (auto simp: configDecimal_def canonicalDecimalString_signed split: if_splits)
  then show "good_decimal w"
    using s by (simp add: good_decimal_def normalize_text_normal riskDecimal_signed normal_signed_text)
qed

lemma configDecimal_same: "good_decimal w \<Longrightarrow> configDecimal D False w = Inr w"
  by (simp add: good_decimal_def configDecimal_def canonicalDecimalString_signed normal_signed_text normalize_normal
      riskDecimal_signed)

lemma optionalDecimal_good: "optionalDecimal D v = Inr w \<Longrightarrow> option_all good_decimal w"
  by (cases v) (auto simp: optionalDecimal_def dest: configDecimal_good elim!: rbindE)

lemma optionalDecimal_same: "option_all good_decimal w \<Longrightarrow> optionalDecimal D w = Inr w"
  by (cases w) (simp_all add: optionalDecimal_def configDecimal_same)

lemmas made_iff = config_count_iff optional_count_iff exactString_iff freshness_iff

lemma makeGlobalConfig_ok:
  "makeGlobalConfig sha D g = Inr h \<Longrightarrow> global_ok h \<and> risk_digest sha (global_json h) = Inr (gc_globalRiskConfigId h)"
  unfolding makeGlobalConfig_def Let_def
  by (elim rbindE) (clarsimp simp: made_iff global_ok_def global_json_def configDecimal_good optionalDecimal_good)

lemma makeGlobalConfig_same:
  "global_ok h \<Longrightarrow> risk_digest sha (global_json h) = Inr (gc_globalRiskConfigId h)
     \<Longrightarrow> makeGlobalConfig sha D (h\<lparr>gc_globalRiskConfigId := k\<rparr>) = Inr h"
  by (cases h) (simp add: makeGlobalConfig_def Let_def global_ok_def configDecimal_same optionalDecimal_same
      made_iff[THEN iffD2] global_json_def)

lemma makePairConfig_ok:
  "makePairConfig sha D g = Inr h
     \<Longrightarrow> pair_config_ok h \<and> risk_digest sha (pair_config_json h) = Inr (pc_pairRiskConfigId h)"
  unfolding makePairConfig_def Let_def
  by (elim rbindE) (clarsimp simp: made_iff pair_config_ok_def pair_config_json_def configDecimal_good optionalDecimal_good)

lemma makePairConfig_same:
  "pair_config_ok h \<Longrightarrow> risk_digest sha (pair_config_json h) = Inr (pc_pairRiskConfigId h)
     \<Longrightarrow> makePairConfig sha D (h\<lparr>pc_pairRiskConfigId := k\<rparr>) = Inr h"
  by (cases h) (simp add: makePairConfig_def Let_def pair_config_ok_def configDecimal_same optionalDecimal_same
      made_iff[THEN iffD2] pair_config_json_def)

lemma makeModeConfig_ok:
  "makeModeConfig sha D g = Inr h \<Longrightarrow> mode_ok h \<and> risk_digest sha (mode_json h) = Inr (mc_riskModeConfigId h)"
  unfolding makeModeConfig_def Let_def
  by (elim rbindE) (clarsimp simp: made_iff mode_ok_def mode_json_def configDecimal_good optionalDecimal_good)

lemma makeModeConfig_same:
  "mode_ok h \<Longrightarrow> risk_digest sha (mode_json h) = Inr (mc_riskModeConfigId h)
     \<Longrightarrow> makeModeConfig sha D (h\<lparr>mc_riskModeConfigId := k\<rparr>) = Inr h"
  by (cases h) (simp add: makeModeConfig_def Let_def mode_ok_def configDecimal_same optionalDecimal_same
      made_iff[THEN iffD2] mode_json_def)

end

lemmas part_iff = config_count_iff optional_count_iff exactString_iff freshness_iff

lemma makeSourcePolicy_ok:
  "makeSourcePolicy sha g = Inr h \<Longrightarrow> source_ok h \<and> risk_digest sha (source_json h) = Inr (sp_riskSourceAuthorityPolicyId h)"
  unfolding makeSourcePolicy_def Let_def
  by (elim rbindE) (clarsimp simp: part_iff source_ok_def source_json_def)

lemma makeSourcePolicy_same:
  "source_ok h \<Longrightarrow> risk_digest sha (source_json h) = Inr (sp_riskSourceAuthorityPolicyId h)
     \<Longrightarrow> makeSourcePolicy sha (h\<lparr>sp_riskSourceAuthorityPolicyId := k\<rparr>) = Inr h"
  by (cases h) (simp add: makeSourcePolicy_def Let_def source_ok_def part_iff[THEN iffD2] source_json_def)

lemma makeFreshnessPolicy_ok:
  "makeFreshnessPolicy sha g = Inr h
     \<Longrightarrow> freshness_ok h \<and> risk_digest sha (freshness_json h) = Inr (fp_riskFreshnessPolicyId h)"
  unfolding makeFreshnessPolicy_def Let_def
  by (elim rbindE) (clarsimp simp: part_iff freshness_ok_def freshness_json_def)

lemma makeFreshnessPolicy_same:
  "freshness_ok h \<Longrightarrow> risk_digest sha (freshness_json h) = Inr (fp_riskFreshnessPolicyId h)
     \<Longrightarrow> makeFreshnessPolicy sha (h\<lparr>fp_riskFreshnessPolicyId := k\<rparr>) = Inr h"
  by (cases h) (simp add: makeFreshnessPolicy_def Let_def freshness_ok_def part_iff[THEN iffD2] freshness_json_def)

lemma makeValuationPolicy_ok:
  "makeValuationPolicy sha g = Inr h
     \<Longrightarrow> valuation_ok h \<and> risk_digest sha (valuation_policy_json h) = Inr (vp_riskValuationPolicyId h)"
  by (clarsimp simp: makeValuationPolicy_def valuation_ok_def elim!: rbindE split: if_splits)

lemma makeValuationPolicy_same:
  "valuation_ok h \<Longrightarrow> risk_digest sha (valuation_policy_json h) = Inr (vp_riskValuationPolicyId h)
     \<Longrightarrow> makeValuationPolicy sha (h\<lparr>vp_riskValuationPolicyId := k\<rparr>) = Inr h"
  by (cases h) (simp add: makeValuationPolicy_def valuation_ok_def valuation_policy_json_def)

subsection \<open>Which policies there are\<close>

context decimal_lib
begin

lemma validateAuthority_ok:
  assumes "parts_ok p"
  shows "validateAuthority D (rp_globalConfig p) (rp_pairConfig p) (rp_modeConfig p) = Inr () \<longleftrightarrow> policy_ordered p"
proof -
  have t: "riskDecimal D s = text_value s" if "good_decimal s" for s
    using that by (simp add: good_decimal_def riskDecimal_signed normal_signed_text)
  have g: "global_ok (rp_globalConfig p)" and q: "pair_config_ok (rp_pairConfig p)" and m: "mode_ok (rp_modeConfig p)"
    using assms by (simp_all add: parts_ok_def)
  have n: "riskDecimal D (pc_pairMaxLeverage (rp_pairConfig p)) = text_value (pc_pairMaxLeverage (rp_pairConfig p))"
    "riskDecimal D (gc_globalMaxLeverage (rp_globalConfig p)) = text_value (gc_globalMaxLeverage (rp_globalConfig p))"
    "riskDecimal D (pc_pairMaxExposureInr (rp_pairConfig p)) = text_value (pc_pairMaxExposureInr (rp_pairConfig p))"
    "riskDecimal D (gc_globalMaxOpenNotionalInr (rp_globalConfig p)) = text_value (gc_globalMaxOpenNotionalInr (rp_globalConfig p))"
    "riskDecimal D (mc_leverageRecommendation (rp_modeConfig p)) = text_value (mc_leverageRecommendation (rp_modeConfig p))"
    "riskDecimal D (mc_maxConcurrentExposureInr (rp_modeConfig p)) = text_value (mc_maxConcurrentExposureInr (rp_modeConfig p))"
    "riskDecimal D (mc_maxCoinExposureInr (rp_modeConfig p)) = text_value (mc_maxCoinExposureInr (rp_modeConfig p))"
    "riskDecimal D (mc_maxDailyLossInr (rp_modeConfig p)) = text_value (mc_maxDailyLossInr (rp_modeConfig p))"
    "riskDecimal D (gc_globalMaxDailyLossInr (rp_globalConfig p)) = text_value (gc_globalMaxDailyLossInr (rp_globalConfig p))"
    "riskDecimal D (mc_maxDrawdownPercent (rp_modeConfig p)) = text_value (mc_maxDrawdownPercent (rp_modeConfig p))"
    "riskDecimal D (gc_globalMaxDrawdownPercent (rp_globalConfig p)) = text_value (gc_globalMaxDrawdownPercent (rp_globalConfig p))"
    using g q m by (auto simp: global_ok_def pair_config_ok_def mode_ok_def intro!: t)
  have o': "riskDecimal D s = text_value s"
    if "mc_dailyLossLimitPercent (rp_modeConfig p) = Some s \<or> gc_globalDailyLossLimitPercent (rp_globalConfig p) = Some s" for s
    using g m that by (auto simp: global_ok_def mode_ok_def intro!: t)
  show ?thesis
    unfolding validateAuthority_def policy_ordered_def Let_def n using o'
    by (cases "mc_dailyLossLimitPercent (rp_modeConfig p)"; cases "gc_globalDailyLossLimitPercent (rp_globalConfig p)";
        cases "pc_pairMaxConcurrentPositions (rp_pairConfig p)") (auto simp: not_less)
qed

lemma createRiskPolicy_ok:
  assumes "createRiskPolicy sha D d = Inr p"
  shows "parts_ok p \<and> policy_ordered p \<and> identities_ok sha p"
proof -
  obtain g q m s f v z k where made: "makeGlobalConfig sha D (dr_globalConfig d) = Inr g" "makePairConfig sha D (dr_pairConfig d) = Inr q"
      "makeModeConfig sha D (dr_modeConfig d) = Inr m" "makeSourcePolicy sha (dr_sourceAuthorityPolicy d) = Inr s"
      "makeFreshnessPolicy sha (dr_freshnessPolicy d) = Inr f" "makeValuationPolicy sha (dr_valuationPolicy d) = Inr v"
    and auth: "validateAuthority D g q m = Inr ()" and z: "computePositionSizingPolicyId sha = Inr z"
    and p: "p = \<lparr>rp_globalConfig = g, rp_pairConfig = q, rp_modeConfig = m, rp_sourceAuthorityPolicy = s, rp_freshnessPolicy = f,
              rp_valuationPolicy = v, rp_positionSizingPolicyId = z, rp_riskPolicyId = k\<rparr>"
    and k: "computeRiskPolicyId sha (p\<lparr>rp_riskPolicyId := []\<rparr>) = Inr k"
    using assms unfolding createRiskPolicy_def Let_def by (elim rbindE) auto
  note ok = makeGlobalConfig_ok[OF made(1)] makePairConfig_ok[OF made(2)] makeModeConfig_ok[OF made(3)]
    makeSourcePolicy_ok[OF made(4)] makeFreshnessPolicy_ok[OF made(5)] makeValuationPolicy_ok[OF made(6)]
  have parts: "parts_ok p" using ok by (simp add: parts_ok_def p)
  moreover have "policy_ordered p" using validateAuthority_ok[OF parts] auth by (simp add: p)
  moreover have "identities_ok sha p"
    using ok z k by (simp add: identities_ok_def p computePositionSizingPolicyId_def computeRiskPolicyId_def policy_id_json_def)
  ultimately show ?thesis by blast
qed

lemma createRiskPolicy_same:
  assumes "parts_ok p" and "policy_ordered p" and "identities_ok sha p"
  shows "createRiskPolicy sha D (policyDraftFromPolicy p) = Inr p"
proof -
  note ids = assms(3)[unfolded identities_ok_def]
  note made = makeGlobalConfig_same[of "rp_globalConfig p" sha] makePairConfig_same[of "rp_pairConfig p" sha]
    makeModeConfig_same[of "rp_modeConfig p" sha] makeSourcePolicy_same[of "rp_sourceAuthorityPolicy p" sha]
    makeFreshnessPolicy_same[of "rp_freshnessPolicy p" sha] makeValuationPolicy_same[of "rp_valuationPolicy p" sha]
  have k: "computeRiskPolicyId sha (p\<lparr>rp_riskPolicyId := []\<rparr>) = Inr (rp_riskPolicyId p)"
    using ids by (simp add: computeRiskPolicyId_def)
  have z: "computePositionSizingPolicyId sha = Inr (rp_positionSizingPolicyId p)"
    using ids by (simp add: computePositionSizingPolicyId_def)
  have r: "\<lparr>rp_globalConfig = rp_globalConfig p, rp_pairConfig = rp_pairConfig p, rp_modeConfig = rp_modeConfig p,
      rp_sourceAuthorityPolicy = rp_sourceAuthorityPolicy p, rp_freshnessPolicy = rp_freshnessPolicy p,
      rp_valuationPolicy = rp_valuationPolicy p, rp_positionSizingPolicyId = rp_positionSizingPolicyId p, rp_riskPolicyId = t\<rparr>
      = p\<lparr>rp_riskPolicyId := t\<rparr>" for t
    by (cases p) simp
  show ?thesis
    using made ids assms(1) validateAuthority_ok[OF assms(1)] assms(2)
    by (simp add: createRiskPolicy_def Let_def policyDraftFromPolicy_def precedence_integrity parts_ok_def z r k)
qed

end

text \<open>Under a digest without collisions the identity of a policy is the policy.\<close>

lemma risk_digest_inject:
  assumes "inj sha" and "risk_digest sha (JObject xs) = Inr h" and "risk_digest sha (JObject ys) = Inr h"
    and "flat_members xs" and "flat_members ys" and "map fst xs = map fst ys"
  shows "xs = ys"
proof -
  obtain t u where t: "canonicalJson (JObject xs) = Inr t" "sha t = h" and u: "canonicalJson (JObject ys) = Inr u" "sha u = h"
    using assms(2,3) by (auto simp: risk_digest_def sha256CanonicalJson_def split: sum.splits elim!: rbindE)
  then have "u = t" using assms(1) by (simp add: inj_def)
  then show ?thesis using flat_object_inject[of xs t ys] t u assms(4-6) by blast
qed

lemma nullable_inject [simp]:
  "nullable_text a = nullable_text b \<longleftrightarrow> a = b" "nullable_number x = nullable_number y \<longleftrightarrow> x = y"
  by (auto simp: nullable_text_def nullable_number_def split: option.splits)

lemma nullable_norm [simp]: "json_norm (nullable_text a) = nullable_text a" "json_norm (nullable_number x) = nullable_number x"
  by (simp_all add: nullable_text_def nullable_number_def split: option.splits)

lemma mode_text_inject [simp]: "mode_text a = mode_text b \<longleftrightarrow> a = b"
  by (cases a; cases b) (simp_all add: mode_text_def)

text \<open>What a digest binds: the members of the body.\<close>

lemma digest_binds:
  assumes "inj sha" and "risk_digest sha (body x) = Inr h" and "risk_digest sha (body y) = Inr h"
    and "\<And>z. \<exists>xs. body z = JObject xs \<and> flat_members xs \<and> map fst xs = ks"
  shows "body x = body y"
proof -
  obtain xs ys where "body x = JObject xs" "flat_members xs" "map fst xs = ks" "body y = JObject ys" "flat_members ys" "map fst ys = ks"
    using assms(4)[of x] assms(4)[of y] by blast
  then show ?thesis using risk_digest_inject[OF assms(1), of xs h ys] assms(2,3) by simp
qed

lemma flat_bodies:
  "\<exists>xs. global_json g = JObject xs \<and> flat_members xs \<and> map fst xs =
     [''globalMaxLeverage'', ''globalMaxOpenNotionalInr'', ''globalMaxConcurrentPositions'', ''globalMaxDailyLossInr'',
      ''globalDailyLossLimitPercent'', ''globalMaxDrawdownPercent'']"
  "\<exists>xs. pair_config_json q = JObject xs \<and> flat_members xs \<and> map fst xs =
     [''pair'', ''pairMaxLeverage'', ''pairMaxExposureInr'', ''pairMaxConcurrentPositions'']"
  "\<exists>xs. mode_json m = JObject xs \<and> flat_members xs \<and> map fst xs =
     [''mode'', ''riskPerTradePercent'', ''maxNotionalPerTradeInr'', ''leverageRecommendation'', ''maxConcurrentExposureInr'',
      ''maxCoinExposureInr'', ''maxStrategyExposureInr'', ''maxConcurrentPositions'', ''maxDailyLossInr'', ''dailyLossLimitPercent'',
      ''maxDrawdownPercent'', ''consecutiveLossLimit'', ''cooldownMs'']"
  "\<exists>xs. source_json s = JObject xs \<and> flat_members xs \<and> map fst xs =
     [''accountRiskSourceId'', ''pairRiskSourceId'', ''exposureSourceId'', ''leverageTierSourceId'', ''conversionSourceId'']"
  "\<exists>xs. freshness_json f = JObject xs \<and> flat_members xs \<and> map fst xs =
     [''maxAccountSnapshotAgeMs'', ''maxPairSnapshotAgeMs'', ''maxExposureSnapshotAgeMs'', ''maxLeverageTierSnapshotAgeMs'',
      ''maxSettlementRateSnapshotAgeMs'']"
  "\<exists>xs. valuation_policy_json v = JObject xs \<and> flat_members xs \<and> map fst xs =
     [''valuationMethodVersion'', ''valuationPriceField'', ''valuationUnitScale'', ''valuationUnitRounding'']"
  by (simp_all add: global_json_def pair_config_json_def mode_json_def source_json_def freshness_json_def
      valuation_policy_json_def flat_members_def)

lemma flat_policy_id:
  "\<exists>xs. policy_id_json p = JObject xs \<and> flat_members xs \<and> map fst xs =
     [''globalRiskConfigId'', ''pairRiskConfigId'', ''riskModeConfigId'', ''riskSourceAuthorityPolicyId'', ''riskValuationPolicyId'',
      ''riskFreshnessPolicyId'', ''sizingPolicyId'', ''tierEnumerationPolicyId'', ''exposurePolicyId'', ''lossDrawdownPolicyId'',
      ''validationPrecedenceId'', ''rejectionPrecedenceId'', ''auditOrderingId'']"
  by (simp add: policy_id_json_def flat_members_def)

lemma body_inject:
  "global_json g = global_json g' \<Longrightarrow> gc_globalRiskConfigId g = gc_globalRiskConfigId g' \<Longrightarrow> g = g'"
  "pair_config_json q = pair_config_json q' \<Longrightarrow> pc_pairRiskConfigId q = pc_pairRiskConfigId q' \<Longrightarrow> q = q'"
  "mode_json m = mode_json m' \<Longrightarrow> mc_riskModeConfigId m = mc_riskModeConfigId m' \<Longrightarrow> m = m'"
  "source_json s = source_json s' \<Longrightarrow> sp_riskSourceAuthorityPolicyId s = sp_riskSourceAuthorityPolicyId s' \<Longrightarrow> s = s'"
  "freshness_json f = freshness_json f' \<Longrightarrow> fp_riskFreshnessPolicyId f = fp_riskFreshnessPolicyId f' \<Longrightarrow> f = f'"
  "valuation_policy_json v = valuation_policy_json v' \<Longrightarrow> vp_riskValuationPolicyId v = vp_riskValuationPolicyId v' \<Longrightarrow> v = v'"
  by (simp_all add: global_json_def pair_config_json_def mode_json_def source_json_def freshness_json_def valuation_policy_json_def)

lemma policy_of_identity:
  assumes sha: "inj sha" and p: "identities_ok sha p" and q: "identities_ok sha q" and eq: "rp_riskPolicyId p = rp_riskPolicyId q"
  shows "p = q"
proof -
  note P = p[unfolded identities_ok_def] and Q = q[unfolded identities_ok_def]
  have b: "policy_id_json p = policy_id_json q"
    using digest_binds[where body = policy_id_json, OF sha _ _ flat_policy_id] P Q eq by auto
  note ids = b[unfolded policy_id_json_def, simplified]
  have "rp_globalConfig p = rp_globalConfig q"
    using digest_binds[where body = global_json, OF sha _ _ flat_bodies(1)] P Q ids by (intro body_inject) metis+
  moreover have "rp_pairConfig p = rp_pairConfig q"
    using digest_binds[where body = pair_config_json, OF sha _ _ flat_bodies(2)] P Q ids by (intro body_inject) metis+
  moreover have "rp_modeConfig p = rp_modeConfig q"
    using digest_binds[where body = mode_json, OF sha _ _ flat_bodies(3)] P Q ids by (intro body_inject) metis+
  moreover have "rp_sourceAuthorityPolicy p = rp_sourceAuthorityPolicy q"
    using digest_binds[where body = source_json, OF sha _ _ flat_bodies(4)] P Q ids by (intro body_inject) metis+
  moreover have "rp_freshnessPolicy p = rp_freshnessPolicy q"
    using digest_binds[where body = freshness_json, OF sha _ _ flat_bodies(5)] P Q ids by (intro body_inject) metis+
  moreover have "rp_valuationPolicy p = rp_valuationPolicy q"
    using digest_binds[where body = valuation_policy_json, OF sha _ _ flat_bodies(6)] P Q ids by (intro body_inject) metis+
  moreover have "rp_positionSizingPolicyId p = rp_positionSizingPolicyId q" using P Q by simp
  ultimately show ?thesis using eq by simp
qed

lemma assertPolicyIdentity_ok: "assertPolicyIdentity sha p = Inr () \<longleftrightarrow> identities_ok sha p"
  unfolding assertPolicyIdentity_def identities_ok_def
  by (auto simp: rbind_eq_Inr split: if_splits) 

text \<open>A well formed policy can be given its identities under any digest.\<close>

lemma risk_digest_supported: "json_supported v \<Longrightarrow> risk_digest sha v = Inr (sha (raw_text (json_norm v)))"
  by (simp add: risk_digest_def sha256CanonicalJson_def canonicalJson_eq_Inr[THEN iffD2])

definition text_digest :: "(string \<Rightarrow> string) \<Rightarrow> json \<Rightarrow> string" where
  "text_digest sha v = sha (raw_text (json_norm v))"

definition identified_parts :: "(string \<Rightarrow> string) \<Rightarrow> risk_policy \<Rightarrow> risk_policy" where
  "identified_parts sha p =
     \<lparr>rp_globalConfig = (rp_globalConfig p)\<lparr>gc_globalRiskConfigId := text_digest sha (global_json (rp_globalConfig p))\<rparr>,
      rp_pairConfig = (rp_pairConfig p)\<lparr>pc_pairRiskConfigId := text_digest sha (pair_config_json (rp_pairConfig p))\<rparr>,
      rp_modeConfig = (rp_modeConfig p)\<lparr>mc_riskModeConfigId := text_digest sha (mode_json (rp_modeConfig p))\<rparr>,
      rp_sourceAuthorityPolicy = (rp_sourceAuthorityPolicy p)\<lparr>sp_riskSourceAuthorityPolicyId :=
        text_digest sha (source_json (rp_sourceAuthorityPolicy p))\<rparr>,
      rp_freshnessPolicy = (rp_freshnessPolicy p)\<lparr>fp_riskFreshnessPolicyId :=
        text_digest sha (freshness_json (rp_freshnessPolicy p))\<rparr>,
      rp_valuationPolicy = (rp_valuationPolicy p)\<lparr>vp_riskValuationPolicyId :=
        text_digest sha (valuation_policy_json (rp_valuationPolicy p))\<rparr>,
      rp_positionSizingPolicyId = text_digest sha POSITION_SIZING_POLICY_PAYLOAD, rp_riskPolicyId = []\<rparr>"

definition identified :: "(string \<Rightarrow> string) \<Rightarrow> risk_policy \<Rightarrow> risk_policy" where
  "identified sha p = (identified_parts sha p)\<lparr>rp_riskPolicyId := text_digest sha (policy_id_json (identified_parts sha p))\<rparr>"

lemma nullable_supported: "json_supported (nullable_text a)"
  "json_supported (nullable_number x) \<longleftrightarrow> option_all isSafeInteger x"
  by (simp_all add: nullable_text_def nullable_number_def split: option.splits)

lemma identified_fields:
  "policy_id_json (identified sha p) = policy_id_json (identified_parts sha p)"
  "rp_globalConfig (identified sha p) = rp_globalConfig (identified_parts sha p)"
  "rp_pairConfig (identified sha p) = rp_pairConfig (identified_parts sha p)"
  "rp_modeConfig (identified sha p) = rp_modeConfig (identified_parts sha p)"
  "rp_sourceAuthorityPolicy (identified sha p) = rp_sourceAuthorityPolicy (identified_parts sha p)"
  "rp_freshnessPolicy (identified sha p) = rp_freshnessPolicy (identified_parts sha p)"
  "rp_valuationPolicy (identified sha p) = rp_valuationPolicy (identified_parts sha p)"
  "rp_positionSizingPolicyId (identified sha p) = rp_positionSizingPolicyId (identified_parts sha p)"
  "rp_riskPolicyId (identified sha p) = text_digest sha (policy_id_json (identified_parts sha p))"
  by (simp_all add: identified_def)

lemma identified_ok:
  assumes "parts_ok p"
  shows "identities_ok sha (identified sha p)" "parts_ok (identified sha p)"
    "policy_ordered (identified sha p) \<longleftrightarrow> policy_ordered p"
proof -
  have c: "option_all isSafeInteger v" if "option_all good_count v" for v
    using that by (cases v) (simp_all add: good_count_def)
  have s: "json_supported (global_json (rp_globalConfig p))" "json_supported (pair_config_json (rp_pairConfig p))"
    "json_supported (mode_json (rp_modeConfig p))" "json_supported (source_json (rp_sourceAuthorityPolicy p))"
    "json_supported (freshness_json (rp_freshnessPolicy p))" "json_supported (valuation_policy_json (rp_valuationPolicy p))"
    using assms
    by (simp_all add: parts_ok_def global_json_def pair_config_json_def mode_json_def source_json_def freshness_json_def
        valuation_policy_json_def nullable_supported global_ok_def pair_config_ok_def mode_ok_def source_ok_def freshness_ok_def
        valuation_ok_def good_count_def good_age_def c)
  moreover have "json_supported POSITION_SIZING_POLICY_PAYLOAD" "json_supported (policy_id_json q)" for q
    by (simp_all add: POSITION_SIZING_POLICY_PAYLOAD_def policy_id_json_def)
  ultimately show "identities_ok sha (identified sha p)"
    unfolding identities_ok_def identified_fields
    by (simp add: text_digest_def risk_digest_supported) (simp add: identified_parts_def text_digest_def risk_digest_supported)
  show "parts_ok (identified sha p)"
    using assms by (simp add: parts_ok_def identified_def identified_parts_def global_ok_def pair_config_ok_def mode_ok_def
        source_ok_def freshness_ok_def valuation_ok_def)
  show "policy_ordered (identified sha p) \<longleftrightarrow> policy_ordered p"
    by (simp add: policy_ordered_def Let_def identified_def identified_parts_def cong: option.case_cong)
qed

subsection \<open>A sample policy\<close>

definition sample_limits :: risk_policy where
  "sample_limits = \<lparr>
     rp_globalConfig = \<lparr>gc_globalRiskConfigId = [], gc_globalMaxLeverage = ''10'', gc_globalMaxOpenNotionalInr = ''600'',
        gc_globalMaxConcurrentPositions = 5, gc_globalMaxDailyLossInr = ''50'', gc_globalDailyLossLimitPercent = None,
        gc_globalMaxDrawdownPercent = ''20''\<rparr>,
     rp_pairConfig = \<lparr>pc_pair = ''B-BTC_USDT'', pc_pairRiskConfigId = [], pc_pairMaxLeverage = ''5'', pc_pairMaxExposureInr = ''400'',
        pc_pairMaxConcurrentPositions = None\<rparr>,
     rp_modeConfig = \<lparr>mc_mode = SAFE, mc_riskModeConfigId = [], mc_riskPerTradePercent = ''1'', mc_maxNotionalPerTradeInr = ''300'',
        mc_leverageRecommendation = ''2'', mc_maxConcurrentExposureInr = ''500'', mc_maxCoinExposureInr = ''400'',
        mc_maxStrategyExposureInr = ''400'', mc_maxConcurrentPositions = 3, mc_maxDailyLossInr = ''30'',
        mc_dailyLossLimitPercent = None, mc_maxDrawdownPercent = ''10'', mc_consecutiveLossLimit = None, mc_cooldownMs = None\<rparr>,
     rp_sourceAuthorityPolicy = \<lparr>sp_riskSourceAuthorityPolicyId = [], sp_accountRiskSourceId = ''source'', sp_pairRiskSourceId = ''source'',
        sp_exposureSourceId = ''source'', sp_leverageTierSourceId = ''source'', sp_conversionSourceId = ''source''\<rparr>,
     rp_freshnessPolicy = \<lparr>fp_riskFreshnessPolicyId = [], fp_maxAccountSnapshotAgeMs = 1000, fp_maxPairSnapshotAgeMs = 1000,
        fp_maxExposureSnapshotAgeMs = 1000, fp_maxLeverageTierSnapshotAgeMs = 1000, fp_maxSettlementRateSnapshotAgeMs = 1000\<rparr>,
     rp_valuationPolicy = \<lparr>vp_riskValuationPolicyId = [], vp_valuationMethodVersion = ''P13_MARK_PRICE_MULTIPLIER_SETTLEMENT_V1'',
        vp_valuationPriceField = ''markPriceUsdt'', vp_valuationUnitScale = 8, vp_valuationUnitRounding = ''ROUND_HALF_UP''\<rparr>,
     rp_positionSizingPolicyId = [], rp_riskPolicyId = []\<rparr>"

text \<open>The digest of the sample is the text itself, which has no collisions.\<close>

definition sample_policy :: risk_policy where
  "sample_policy = identified (\<lambda>t. t) sample_limits"

lemma sample_limits_ok: "parts_ok sample_limits" "policy_ordered sample_limits"
  by code_simp+

lemma sample_policy_created: "createRiskPolicy (\<lambda>t. t) (half_up 128) (policyDraftFromPolicy sample_policy) = Inr sample_policy"
  unfolding sample_policy_def
  using half_up_128.createRiskPolicy_same identified_ok[OF sample_limits_ok(1)] sample_limits_ok(2) by blast

lemma sample_mode:
  "mc_riskPerTradePercent (rp_modeConfig sample_policy) = ''1''" "mc_leverageRecommendation (rp_modeConfig sample_policy) = ''2''"
  "mc_maxNotionalPerTradeInr (rp_modeConfig sample_policy) = ''300''"
  by (simp_all add: sample_policy_def identified_def identified_parts_def sample_limits_def)

subsection \<open>Properties\<close>

text \<open>C21. A risk policy can be made from a draft exactly when its limits are positive canonical decimals and
  counts, none of them widens the wider part's limit, and every identity is the digest of what it names.\<close>

theorem policies_are_well_formed:
  assumes "decimal_lib D prec"
  shows "(\<exists>d. createRiskPolicy sha D d = Inr p) \<longleftrightarrow> parts_ok p \<and> policy_ordered p \<and> identities_ok sha p"
  using decimal_lib.createRiskPolicy_ok[OF assms] decimal_lib.createRiskPolicy_same[OF assms] by blast

theorem policies_are_well_formed_witness:
  "parts_ok sample_policy \<and> policy_ordered sample_policy \<and> identities_ok (\<lambda>t. t) sample_policy"
  using policies_are_well_formed[OF half_up_128.decimal_lib_axioms, of "\<lambda>t. t" sample_policy] sample_policy_created by blast

text \<open>C36. Under a digest without collisions the engine takes exactly the policies that are made from a draft,
  and takes them as they are: a policy with a field or an identity changed after it was made is refused.\<close>

theorem engine_takes_made_policies:
  assumes "inj sha" and "decimal_lib D prec"
  shows "newRiskEngine sha D p = Inr q \<longleftrightarrow> q = p \<and> (\<exists>d. createRiskPolicy sha D d = Inr p)"
proof
  assume "newRiskEngine sha D p = Inr q"
  then have p: "identities_ok sha p" and q: "createRiskPolicy sha D (policyDraftFromPolicy p) = Inr q"
    and eq: "rp_riskPolicyId q = rp_riskPolicyId p"
    by (auto simp: newRiskEngine_def assertPolicyIdentity_ok elim!: rbindE split: if_splits)
  have "q = p"
    using policy_of_identity[OF assms(1) _ p eq] decimal_lib.createRiskPolicy_ok[OF assms(2) q] by blast
  then show "q = p \<and> (\<exists>d. createRiskPolicy sha D d = Inr p)" using q by blast
next
  assume a: "q = p \<and> (\<exists>d. createRiskPolicy sha D d = Inr p)"
  then obtain d where "createRiskPolicy sha D d = Inr p" by blast
  note ok = decimal_lib.createRiskPolicy_ok[OF assms(2) this]
  then have "createRiskPolicy sha D (policyDraftFromPolicy p) = Inr p"
    using decimal_lib.createRiskPolicy_same[OF assms(2)] by blast
  then show "newRiskEngine sha D p = Inr q"
    using a ok by (simp add: newRiskEngine_def assertPolicyIdentity_ok[THEN iffD2])
qed

theorem engine_takes_made_policies_witness:
  "newRiskEngine (\<lambda>t. t) (half_up 128) sample_policy = Inr sample_policy"
  using engine_takes_made_policies[of "\<lambda>t. t" "half_up 128" 128 sample_policy sample_policy]
    half_up_128.decimal_lib_axioms sample_policy_created by (auto simp: inj_def)

lemma normalizeRiskOverride_Some:
  assumes "normalizeRiskOverride D p (Some ov) = Inr n"
  obtains k where "n = Some k" and "normalizeOverrideFields D p ov = Inr k"
  using assms by (auto simp: normalizeRiskOverride_def split: sum.splits)

context decimal_lib
begin

lemma widens_text:
  assumes "option_all good_decimal v" and "good_decimal cap" and "\<not> widens D v cap"
  shows "option_all (\<lambda>s. good_decimal s \<and> text_value s \<le> text_value cap) v"
  using assms by (cases v) (simp_all add: widens_def good_decimal_def riskDecimal_signed normal_signed_text)

lemma normalizeOverrideFields_ok:
  assumes "normalizeOverrideFields D p ov = Inr k" and "mode_ok (rp_modeConfig p)"
  shows "good_string (ov_overrideId k)
    \<and> option_all (\<lambda>s. good_decimal s \<and> text_value s \<le> text_value (mc_riskPerTradePercent (rp_modeConfig p)))
        (ov_overrideRiskPerTradePercent k)
    \<and> option_all (\<lambda>s. good_decimal s \<and> text_value s \<le> text_value (mc_leverageRecommendation (rp_modeConfig p)))
        (ov_overrideMaxLeverage k)
    \<and> option_all (\<lambda>s. good_decimal s \<and> text_value s \<le> text_value (mc_maxNotionalPerTradeInr (rp_modeConfig p)))
        (ov_overrideMaxNotionalInr k)"
proof -
  have m: "good_decimal (mc_riskPerTradePercent (rp_modeConfig p))" "good_decimal (mc_leverageRecommendation (rp_modeConfig p))"
    "good_decimal (mc_maxNotionalPerTradeInr (rp_modeConfig p))" using assms(2) by (simp_all add: mode_ok_def)
  show ?thesis
    using assms(1) unfolding normalizeOverrideFields_def
    by (elim rbindE) (auto simp: exactString_iff split: if_splits intro!: widens_text m dest: optionalDecimal_good)
qed

end

text \<open>C22. An override that is accepted tightens: each limit it sets is a positive canonical decimal not above
  the limit of the policy's mode.\<close>

theorem override_never_widens:
  assumes "decimal_lib D prec" and "createRiskPolicy sha D d = Inr p" and "normalizeRiskOverride D p (Some ov) = Inr n"
  shows "\<exists>k. n = Some k \<and> good_string (ov_overrideId k)
    \<and> option_all (\<lambda>s. good_decimal s \<and> text_value s \<le> text_value (mc_riskPerTradePercent (rp_modeConfig p)))
        (ov_overrideRiskPerTradePercent k)
    \<and> option_all (\<lambda>s. good_decimal s \<and> text_value s \<le> text_value (mc_leverageRecommendation (rp_modeConfig p)))
        (ov_overrideMaxLeverage k)
    \<and> option_all (\<lambda>s. good_decimal s \<and> text_value s \<le> text_value (mc_maxNotionalPerTradeInr (rp_modeConfig p)))
        (ov_overrideMaxNotionalInr k)"
proof -
  obtain k where k: "n = Some k" "normalizeOverrideFields D p ov = Inr k"
    using normalizeRiskOverride_Some[OF assms(3)] by blast
  have "mode_ok (rp_modeConfig p)" using decimal_lib.createRiskPolicy_ok[OF assms(1,2)] by (simp add: parts_ok_def)
  from decimal_lib.normalizeOverrideFields_ok[OF assms(1) k(2) this] k(1) show ?thesis by blast
qed

definition sample_override :: risk_override where
  "sample_override = \<lparr>ov_overrideId = ''careful'', ov_overrideRiskPerTradePercent = Some ''0.50'', ov_overrideMaxLeverage = None,
     ov_overrideMaxNotionalInr = None\<rparr>"

lemma sample_override_accepted:
  "normalizeRiskOverride (half_up 128) sample_policy (Some sample_override) =
     Inr (Some (sample_override\<lparr>ov_overrideRiskPerTradePercent := Some ''0.5''\<rparr>))"
proof -
  have "optionalDecimal (half_up 128) (Some ''0.50'') = Inr (Some ''0.5'')" "exactString ''careful'' = Inr ''careful''"
    "riskDecimal (half_up 128) ''0.5'' = 1 / 2" "riskDecimal (half_up 128) ''1'' = 1"
    by code_simp+
  then show ?thesis
    by (simp add: normalizeRiskOverride_def normalizeOverrideFields_def sample_override_def sample_mode widens_def optionalDecimal_def)
qed

theorem override_never_widens_witness:
  "text_value ''0.5'' \<le> text_value (mc_riskPerTradePercent (rp_modeConfig sample_policy))"
  using override_never_widens[OF half_up_128.decimal_lib_axioms sample_policy_created sample_override_accepted]
  by (simp add: sample_override_def)

end
