(* ===== verification/Risk_Sizing.thy ===== *)
theory Risk_Sizing
  imports Risk_Evidence
begin

section \<open>Sizing a position\<close>

text \<open>
  \<^verbatim>\<open>src/risk/tier-resolution.ts\<close>: the quantity an opening trade may have, as the largest multiple of the
  increment below every ceiling, tried in each leverage tier. The lemmas show that whatever comes out
  respects every ceiling exactly: the computation floors ratios of exact products, so no rounding can
  push a size over a cap.
\<close>

record tier_result =
  tz_sizing :: "sizing_values option"
  tz_reasons :: "rejection_code list"
  tz_capsApplied :: caps_applied

datatype tier_failure = MARGIN_FLOOR | MIN_QUANTITY | MIN_NOTIONAL | OTHER_FAILURE

definition noFeasibleTierReason :: "tier_failure list \<Rightarrow> rejection_code" where
  "noFeasibleTierReason failures =
     (if failures \<noteq> [] \<and> list_all (\<lambda>f. f = MARGIN_FLOOR) failures then INSUFFICIENT_MARGIN
      else if failures \<noteq> [] \<and> list_all (\<lambda>f. f = MIN_QUANTITY) failures then MIN_QUANTITY_NOT_MET
      else if failures \<noteq> [] \<and> list_all (\<lambda>f. f = MIN_NOTIONAL) failures then MIN_NOTIONAL_NOT_MET
      else NO_VALID_LEVERAGE_TIER)"

text \<open>The reduction over a list that is not empty.\<close>

definition minimum :: "rat \<Rightarrow> rat list \<Rightarrow> rat" where
  "minimum first rest = foldl (\<lambda>current v. if current < v then current else v) first rest"

definition aligned :: "decimal_js \<Rightarrow> rat \<Rightarrow> rat \<Rightarrow> bool" where
  "aligned D v increment \<longleftrightarrow> risk_mod D v increment = 0"

definition override_or :: "(risk_override \<Rightarrow> string option) \<Rightarrow> risk_override option \<Rightarrow> string \<Rightarrow> string" where
  "override_or f override fallback =
     (case override of None \<Rightarrow> fallback | Some ov \<Rightarrow> (case f ov of None \<Rightarrow> fallback | Some v \<Rightarrow> v))"

definition resolvedOr :: "cap_value \<Rightarrow> string option \<Rightarrow> cap_value" where
  "resolvedOr none v = (case v of None \<Rightarrow> none | Some s \<Rightarrow> RESOLVED s)"

definition riskCapsForRequest :: "sizing_request \<Rightarrow> risk_policy \<Rightarrow> caps_applied" where
  "riskCapsForRequest request policy =
     (let mode = rp_modeConfig policy in
      \<lparr>cp_riskPerTradePercentApplied =
         RESOLVED (override_or ov_overrideRiskPerTradePercent (sq_override request) (mc_riskPerTradePercent mode)),
       cp_maxNotionalPerTradeInrApplied =
         RESOLVED (override_or ov_overrideMaxNotionalInr (sq_override request) (mc_maxNotionalPerTradeInr mode)),
       cp_requestedLeverage = resolvedOr NOT_APPLICABLE (Option.bind (sq_leverageProposal request) lp_requestedLeverage),
       cp_modeRecommendedLeverage = RESOLVED (mc_leverageRecommendation mode),
       cp_exchangeMaxLeverage = resolvedOr UNRESOLVED (map_option ts_exchangeMaxLeverage (sq_leverageTierSnapshot request)),
       cp_tierMaxLeverage = UNRESOLVED,
       cp_accountMaxLeverage = resolvedOr NOT_APPLICABLE (Option.bind (sq_accountSnapshot request) ac_accountMaxLeverage),
       cp_pairMaxLeverage = RESOLVED (pc_pairMaxLeverage (rp_pairConfig policy)),
       cp_globalMaxLeverage = RESOLVED (gc_globalMaxLeverage (rp_globalConfig policy)),
       cp_finalLeverage = UNRESOLVED\<rparr>)"

definition isInstrumentPriceReason :: "rejection_code \<Rightarrow> bool" where
  "isInstrumentPriceReason code \<longleftrightarrow> code \<in> {INVALID_ENTRY_PRICE, INVALID_STOP_PRICE, INVALID_STOP_DISTANCE}"

definition instrumentPriceReasons :: "calc_js \<Rightarrow> sizing_request \<Rightarrow> (risk_error, rejection_code list) res" where
  "instrumentPriceReasons C request =
     (if sq_action request \<noteq> OPEN_ACTION then Inr []
      else case sq_entryStopProposal request of
          None \<Rightarrow> Inr [INVALID_ENTRY_PRICE]
        | Some proposal \<Rightarrow>
            let D = cj_D C; pair = sq_pairSnapshot request;
                entry = riskDecimal D (es_entryPriceUsdt proposal);
                stop = riskDecimal D (es_stopPriceUsdt proposal);
                priceIncrement = riskDecimal D (ps_priceIncrement pair);
                minPrice = riskDecimal D (ps_minPrice pair); maxPrice = riskDecimal D (ps_maxPrice pair);
                side = sd_targetExposure (cd_strategyDecision (sq_candidate request));
                reasons = (if entry \<le> 0 \<or> entry < minPrice \<or> entry > maxPrice then [INVALID_ENTRY_PRICE] else [])
                  @ (if stop \<le> 0 \<or> stop < minPrice \<or> stop > maxPrice then [INVALID_STOP_PRICE] else [])
                  @ (if (side = Some TARGET_LONG \<and> stop \<ge> entry) \<or> (side = Some TARGET_SHORT \<and> stop \<le> entry) \<or> entry = stop
                     then [INVALID_STOP_DISTANCE] else [])
            in caught (assertRiskDecimalContext C [entry, stop, priceIncrement])
                 (\<lambda>_. reasons
                    @ (if priceIncrement > 0 \<and> \<not> aligned D entry priceIncrement then [INVALID_ENTRY_PRICE] else [])
                    @ (if priceIncrement > 0 \<and> \<not> aligned D stop priceIncrement then [INVALID_STOP_PRICE] else []))
                 (reasons @ [VALUATION_NUMERIC_CONTEXT_EXCEEDED]))"

fun tiersFrom :: "decimal_js \<Rightarrow> leverage_tier option \<Rightarrow> leverage_tier list \<Rightarrow> bool" where
  "tiersFrom D prior [] \<longleftrightarrow> True"
| "tiersFrom D prior (tier # tiers) \<longleftrightarrow>
     (let lower = riskDecimal D (tr_lowerNotionalUsdt tier) in
      \<not> lower < 0 \<and> \<not> riskDecimal D (tr_maxLeverage tier) \<le> 0
      \<and> (case tr_upperNotionalUsdt tier of None \<Rightarrow> tiers = [] | Some upper \<Rightarrow> \<not> lower \<ge> riskDecimal D upper)
      \<and> (case prior of
           Some p \<Rightarrow> (case tr_upperNotionalUsdt p of None \<Rightarrow> False
              | Some upper \<Rightarrow> riskDecimal D upper = lower \<and> tr_upperInclusive p \<noteq> tr_lowerInclusive tier)
         | None \<Rightarrow> lower = 0 \<and> tr_lowerInclusive tier)
      \<and> tiersFrom D (Some tier) tiers)"

definition validateTierIntervals :: "decimal_js \<Rightarrow> leverage_tier list \<Rightarrow> bool" where
  "validateTierIntervals D tiers \<longleftrightarrow> tiers \<noteq> [] \<and> tiersFrom D None tiers"

definition inTier :: "decimal_js \<Rightarrow> rat \<Rightarrow> leverage_tier \<Rightarrow> bool" where
  "inTier D notional tier \<longleftrightarrow>
     (let lower = riskDecimal D (tr_lowerNotionalUsdt tier) in
      if (if tr_lowerInclusive tier then notional < lower else notional \<le> lower) then False
      else case tr_upperNotionalUsdt tier of
          None \<Rightarrow> True
        | Some u \<Rightarrow> (if tr_upperInclusive tier then notional \<le> riskDecimal D u else notional < riskDecimal D u))"

subsection \<open>What has to hold before anything is sized\<close>

definition requestReasons :: "calc_js \<Rightarrow> sizing_request \<Rightarrow> risk_policy \<Rightarrow> (risk_error, rejection_code list) res" where
  "requestReasons C request policy =
     (let D = cj_D C; pair = sq_pairSnapshot request;
          riskPercent = riskDecimal D (override_or ov_overrideRiskPerTradePercent (sq_override request)
                          (mc_riskPerTradePercent (rp_modeConfig policy)))
      in rbind (instrumentPriceReasons C request) (\<lambda>priceReasons. Inr (priceReasons
        @ (case sq_accountSnapshot request of
             None \<Rightarrow> [ACCOUNT_STATE_UNAVAILABLE]
           | Some account \<Rightarrow>
               if \<not> ac_accountStateKnown account then [ACCOUNT_STATE_UNAVAILABLE]
               else if riskPercent \<le> 0 \<or> riskDecimal D (ac_currentEquityInr account) \<le> 0 then [RISK_BUDGET_NON_POSITIVE]
               else [])
        @ (if settlementUsable D (sq_settlementRateSnapshot request) then [] else [SETTLEMENT_RATE_UNAVAILABLE])
        @ (case sq_leverageTierSnapshot request of
             None \<Rightarrow> [LEVERAGE_TIERS_UNAVAILABLE]
           | Some ts \<Rightarrow>
               let exchangeMax = riskDecimal D (ts_exchangeMaxLeverage ts) in
               (if \<not> validateTierIntervals D (ts_tiers ts) \<or> ts_pair ts \<noteq> cd_pair (sq_candidate request) \<or> exchangeMax \<le> 0
                   \<or> list_ex (\<lambda>tier. riskDecimal D (tr_maxLeverage tier) > exchangeMax) (ts_tiers ts)
                then [LEVERAGE_TIERS_UNAVAILABLE] else [])
               @ (if \<not> ts_verified ts \<or> ts_semanticsVersion ts = None then [LEVERAGE_TIER_SEMANTICS_UNVERIFIED] else []))
        @ (case sq_exposureSnapshot request of
             None \<Rightarrow> [EXPOSURE_STATE_UNAVAILABLE]
           | Some x \<Rightarrow> exposureStateReasons D x @ (if ex_pending x = UNKNOWN then [PENDING_EXPOSURE_UNKNOWN] else []))
        @ (if riskDecimal D (ps_quantityIncrement pair) \<le> 0 \<or> riskDecimal D (ps_priceIncrement pair) \<le> 0
              \<or> riskDecimal D (ps_contractMultiplier pair) \<le> 0
              \<or> riskDecimal D (ps_maxQuantity pair) < riskDecimal D (ps_minQuantity pair)
              \<or> riskDecimal D (ps_minQuantity pair) < 0
           then [PAIR_STATE_UNAVAILABLE] else []))))"

subsection \<open>The ceilings and one tier\<close>

text \<open>The numbers every tier is tried with.\<close>

record sizing_basis =
  sb_unitNotionalUsdt :: rat
  sb_rate :: rat
  sb_riskBudget :: rat
  sb_perUnitLossInr :: rat
  sb_riskCapped :: rat
  sb_quantityIncrement :: rat
  sb_maxNotionalInr :: rat
  sb_headroom :: exposure_headroom
  sb_commonCeilings :: "rat list"

definition qtyFromUsdt :: "calc_js \<Rightarrow> sizing_basis \<Rightarrow> rat \<Rightarrow> (risk_error, rat) res" where
  "qtyFromUsdt C b cap = floorRatioToIncrement C cap (sb_unitNotionalUsdt b) (sb_quantityIncrement b)"

definition qtyFromInr :: "calc_js \<Rightarrow> sizing_basis \<Rightarrow> rat \<Rightarrow> (risk_error, rat) res" where
  "qtyFromInr C b cap =
     rbind (checkedProduct C [sb_rate b, sb_unitNotionalUsdt b]) (\<lambda>unit. floorRatioToIncrement C cap unit (sb_quantityIncrement b))"

definition orZero :: "decimal_js \<Rightarrow> string \<Rightarrow> rat" where
  "orZero D v = (if riskDecimal D v < 0 then riskDecimal D ''0'' else riskDecimal D v)"

definition commonCeilings :: "calc_js \<Rightarrow> pair_snapshot \<Rightarrow> sizing_basis \<Rightarrow> (risk_error, rat list) res" where
  "commonCeilings C pair b =
     (let D = cj_D C in
      rbind (qtyFromInr C b (sb_maxNotionalInr b)) (\<lambda>maxNotional.
      rbind (qtyFromInr C b (orZero D (hr_globalInr (sb_headroom b)))) (\<lambda>global.
      rbind (qtyFromInr C b (orZero D (hr_pairInr (sb_headroom b)))) (\<lambda>pairExposure.
      rbind (qtyFromInr C b (orZero D (hr_strategyInr (sb_headroom b)))) (\<lambda>strategy.
      rbind (case ps_maxNotional pair of
               None \<Rightarrow> Inr [] | Some m \<Rightarrow> rbind (qtyFromUsdt C b (riskDecimal D m)) (\<lambda>q. Inr [q])) (\<lambda>pairMax.
        Inr ([riskDecimal D (ps_maxQuantity pair), maxNotional, global, pairExposure, strategy] @ pairMax)))))))"

record feasible_size =
  fz_quantity :: rat
  fz_leverage :: rat
  fz_tierLeverage :: string

definition finalLeverage :: "decimal_js \<Rightarrow> sizing_request \<Rightarrow> risk_policy \<Rightarrow> account_snapshot \<Rightarrow> leverage_tier \<Rightarrow> rat" where
  "finalLeverage D request policy account tier =
     minimum (riskDecimal D (tr_maxLeverage tier))
       (map (riskDecimal D)
         ([mc_leverageRecommendation (rp_modeConfig policy), pc_pairMaxLeverage (rp_pairConfig policy),
           gc_globalMaxLeverage (rp_globalConfig policy)]
          @ (case Option.bind (sq_leverageProposal request) lp_requestedLeverage of None \<Rightarrow> [] | Some v \<Rightarrow> [v])
          @ (case Option.bind (sq_override request) ov_overrideMaxLeverage of None \<Rightarrow> [] | Some v \<Rightarrow> [v])
          @ (case ac_accountMaxLeverage account of None \<Rightarrow> [] | Some v \<Rightarrow> [v])))"

definition tierUpper :: "calc_js \<Rightarrow> sizing_basis \<Rightarrow> leverage_tier \<Rightarrow> (risk_error, rat list) res" where
  "tierUpper C b tier =
     (let D = cj_D C in
      case tr_upperNotionalUsdt tier of
        None \<Rightarrow> Inr []
      | Some u \<Rightarrow>
          rbind (qtyFromUsdt C b (riskDecimal D u)) (\<lambda>upper.
            if tr_upperInclusive tier then Inr [upper]
            else rbind (checkedProduct C [upper, sb_unitNotionalUsdt b]) (\<lambda>reached.
              if reached = riskDecimal D u then
                let lowered = risk_minus D upper (dfixed D (sb_quantityIncrement b))
                in Inr [if lowered < 0 then riskDecimal D ''0'' else lowered]
              else Inr [upper])))"

text \<open>The checks after flooring: first the minimum quantity and notional, then every ceiling once more.\<close>

definition judge_tier ::
    "decimal_js \<Rightarrow> pair_snapshot \<Rightarrow> sizing_basis \<Rightarrow> leverage_tier \<Rightarrow> rat \<Rightarrow> rat \<Rightarrow> bool \<Rightarrow> rat \<Rightarrow> rat \<Rightarrow> rat
     \<Rightarrow> tier_failure + feasible_size" where
  "judge_tier D pair b tier leverage margin marginIsBinding quantity notionalUsdt notionalInr =
     (let minQuantity = riskDecimal D (ps_minQuantity pair); minTradeSize = riskDecimal D (ps_minTradeSize pair);
          minimumQuantity = (if minQuantity > minTradeSize then minQuantity else minTradeSize);
          quantityFloorFailed = quantity < minimumQuantity;
          notionalFloorFailed = notionalUsdt < riskDecimal D (ps_minNotional pair)
      in if quantityFloorFailed \<or> notionalFloorFailed
         then Inl (if marginIsBinding then MARGIN_FLOOR else if quantityFloorFailed then MIN_QUANTITY else MIN_NOTIONAL)
         else if \<not> inTier D notionalUsdt tier \<or> quantity > sb_riskCapped b \<or> quantity > riskDecimal D (ps_maxQuantity pair)
              \<or> (case ps_maxNotional pair of None \<Rightarrow> False | Some m \<Rightarrow> notionalUsdt > riskDecimal D m)
              \<or> notionalInr > sb_maxNotionalInr b
              \<or> notionalInr > riskDecimal D (hr_globalInr (sb_headroom b))
              \<or> notionalInr > riskDecimal D (hr_pairInr (sb_headroom b))
              \<or> notionalInr > riskDecimal D (hr_strategyInr (sb_headroom b))
              \<or> notionalInr > margin
         then Inl OTHER_FAILURE
         else Inr \<lparr>fz_quantity = quantity, fz_leverage = leverage, fz_tierLeverage = tr_maxLeverage tier\<rparr>)"

definition try_tier ::
    "calc_js \<Rightarrow> sizing_request \<Rightarrow> risk_policy \<Rightarrow> account_snapshot \<Rightarrow> sizing_basis \<Rightarrow> leverage_tier
     \<Rightarrow> (risk_error, tier_failure + feasible_size) res" where
  "try_tier C request policy account b tier =
     (let D = cj_D C; pair = sq_pairSnapshot request; leverage = finalLeverage D request policy account tier in
      rbind (checkedProduct C [riskDecimal D (ac_availableMarginInr account), leverage]) (\<lambda>margin.
      rbind (qtyFromInr C b margin) (\<lambda>marginQty.
      rbind (tierUpper C b tier) (\<lambda>upper.
      let minimumCeiling = minimum (sb_riskCapped b) (sb_commonCeilings b @ [marginQty] @ upper) in
      rbind (floorToIncrement C minimumCeiling (sb_quantityIncrement b)) (\<lambda>quantity.
      rbind (checkedProduct C [quantity, sb_unitNotionalUsdt b]) (\<lambda>notionalUsdt.
      rbind (checkedProduct C [notionalUsdt, sb_rate b]) (\<lambda>notionalInr.
        Inr (judge_tier D pair b tier leverage margin (marginQty = minimumCeiling) quantity notionalUsdt notionalInr))))))))"

definition try_step ::
    "calc_js \<Rightarrow> sizing_request \<Rightarrow> risk_policy \<Rightarrow> account_snapshot \<Rightarrow> sizing_basis
     \<Rightarrow> feasible_size list \<times> tier_failure list \<Rightarrow> leverage_tier \<Rightarrow> (risk_error, feasible_size list \<times> tier_failure list) res" where
  "try_step C request policy account b acc tier =
     rbind (try_tier C request policy account b tier) (\<lambda>out.
       Inr (case out of Inl f \<Rightarrow> (fst acc, snd acc @ [f]) | Inr z \<Rightarrow> (fst acc @ [z], snd acc)))"

text \<open>The head of the stable sort by quantity and then leverage, both falling.\<close>

definition better :: "feasible_size \<Rightarrow> feasible_size \<Rightarrow> bool" where
  "better a c \<longleftrightarrow> fz_quantity c > fz_quantity a \<or> fz_quantity c = fz_quantity a \<and> fz_leverage c > fz_leverage a"

definition select_size :: "feasible_size \<Rightarrow> feasible_size list \<Rightarrow> feasible_size" where
  "select_size first rest = foldl (\<lambda>a c. if better a c then c else a) first rest"

definition sized_values ::
    "calc_js \<Rightarrow> sizing_basis \<Rightarrow> feasible_size \<Rightarrow> (risk_error, sizing_values option) res" where
  "sized_values C b selected =
     (let D = cj_D C; canonical = canonicalRiskDecimal D in
      rbind (checkedProduct C [fz_quantity selected, sb_unitNotionalUsdt b]) (\<lambda>notionalUsdt.
      rbind (checkedProduct C [notionalUsdt, sb_rate b]) (\<lambda>notionalInr.
      let marginUsdt = risk_divUp C notionalUsdt (fz_leverage selected);
          marginInr = risk_divUp C notionalInr (fz_leverage selected) in
      rbind (checkedProduct C [fz_quantity selected, sb_perUnitLossInr b]) (\<lambda>stopRisk.
        if stopRisk > sb_riskBudget b then Inr None
        else
          rbind (canonical (sb_riskBudget b)) (\<lambda>budget.
          rbind (canonical (sb_riskCapped b)) (\<lambda>capped.
          rbind (canonical (fz_quantity selected)) (\<lambda>quantity.
          rbind (canonical (fz_leverage selected)) (\<lambda>leverage.
          rbind (canonical notionalUsdt) (\<lambda>usdt.
          rbind (canonical notionalInr) (\<lambda>inr.
          rbind (canonical marginUsdt) (\<lambda>mUsdt.
          rbind (canonical marginInr) (\<lambda>mInr.
          rbind (canonical stopRisk) (\<lambda>risk.
            Inr (Some \<lparr>sv_riskBudgetInr = budget, sv_riskCappedQuantity = capped, sv_finalQuantity = quantity,
              sv_finalLeverage = leverage, sv_finalNotionalUsdt = usdt, sv_finalNotionalInr = inr,
              sv_estimatedInitialMarginUsdt = mUsdt, sv_estimatedInitialMarginInr = mInr,
              sv_estimatedStopLossRiskInr = risk\<rparr>))))))))))))))"

definition unsized :: "rejection_code list \<Rightarrow> caps_applied \<Rightarrow> tier_result" where
  "unsized reasons caps = \<lparr>tz_sizing = None, tz_reasons = reasons, tz_capsApplied = caps\<rparr>"

definition size_tiers ::
    "calc_js \<Rightarrow> sizing_request \<Rightarrow> risk_policy \<Rightarrow> account_snapshot \<Rightarrow> tier_snapshot \<Rightarrow> sizing_basis \<Rightarrow> (risk_error, tier_result) res" where
  "size_tiers C request policy account tiers b =
     (let caps = riskCapsForRequest request policy in
      rbind (foldl_res (try_step C request policy account b) ([], []) (ts_tiers tiers)) (\<lambda>(feasible, failures).
        case feasible of
          [] \<Rightarrow> Inr (unsized [noFeasibleTierReason failures] caps)
        | first # rest \<Rightarrow>
            let selected = select_size first rest in
            rbind (sized_values C b selected) (\<lambda>values.
              case values of
                None \<Rightarrow> Inr (unsized [VALUATION_NUMERIC_CONTEXT_EXCEEDED] caps)
              | Some v \<Rightarrow> Inr \<lparr>tz_sizing = Some v, tz_reasons = [],
                  tz_capsApplied = caps\<lparr>cp_tierMaxLeverage := RESOLVED (fz_tierLeverage selected),
                    cp_finalLeverage := RESOLVED (sv_finalLeverage v)\<rparr>\<rparr>)))"

definition size_request ::
    "calc_js \<Rightarrow> sizing_request \<Rightarrow> risk_policy \<Rightarrow> account_snapshot \<Rightarrow> entry_stop \<Rightarrow> settlement_snapshot \<Rightarrow> tier_snapshot
     \<Rightarrow> exposure_snapshot \<Rightarrow> (risk_error, tier_result) res" where
  "size_request C request policy account proposal conversion tiers exposure =
     (let D = cj_D C; pair = sq_pairSnapshot request; caps = riskCapsForRequest request policy;
          riskPercent = riskDecimal D (override_or ov_overrideRiskPerTradePercent (sq_override request)
                          (mc_riskPerTradePercent (rp_modeConfig policy)));
          entry = riskDecimal D (es_entryPriceUsdt proposal);
          stopDistance = \<bar>risk_minus D entry (es_stopPriceUsdt proposal)\<bar>;
          rate = riskDecimal D (st_rateInrPerUsdt conversion);
          multiplier = riskDecimal D (ps_contractMultiplier pair);
          increment = riskDecimal D (ps_quantityIncrement pair)
      in rbind (checkedProduct C [entry, multiplier]) (\<lambda>unitNotionalUsdt.
         rbind (checkedProduct C [riskDecimal D (ac_currentEquityInr account), riskPercent]) (\<lambda>percentOfEquity.
         let riskBudget = risk_div D percentOfEquity 100 in
         rbind (checkedProduct C [stopDistance, multiplier, rate]) (\<lambda>perUnitLossInr.
         if perUnitLossInr \<le> 0 \<or> riskBudget \<le> 0 then Inr (unsized [RISK_BUDGET_NON_POSITIVE] caps)
         else
           rbind (floorRatioToIncrement C riskBudget perUnitLossInr increment) (\<lambda>riskCapped.
           case exposureHeadroom D exposure (sq_candidate request) policy of
             None \<Rightarrow> Inr (unsized [PENDING_EXPOSURE_UNKNOWN] caps)
           | Some headroom \<Rightarrow>
               let b = \<lparr>sb_unitNotionalUsdt = unitNotionalUsdt, sb_rate = rate, sb_riskBudget = riskBudget,
                        sb_perUnitLossInr = perUnitLossInr, sb_riskCapped = riskCapped, sb_quantityIncrement = increment,
                        sb_maxNotionalInr = riskDecimal D (override_or ov_overrideMaxNotionalInr (sq_override request)
                          (mc_maxNotionalPerTradeInr (rp_modeConfig policy))),
                        sb_headroom = headroom, sb_commonCeilings = []\<rparr>
               in rbind (commonCeilings C pair b) (\<lambda>ceilings.
                    size_tiers C request policy account tiers (b\<lparr>sb_commonCeilings := ceilings\<rparr>)))))))"

definition resolveTierSizingUnchecked ::
    "calc_js \<Rightarrow> sizing_request \<Rightarrow> risk_policy \<Rightarrow> (risk_error, tier_result) res" where
  "resolveTierSizingUnchecked C request policy =
     (let caps = riskCapsForRequest request policy in
      if sq_action request \<noteq> OPEN_ACTION then Inr (unsized [] caps)
      else rbind (requestReasons C request policy) (\<lambda>reasons.
        if reasons \<noteq> [] then Inr (unsized reasons caps)
        else case (sq_accountSnapshot request, sq_entryStopProposal request, sq_settlementRateSnapshot request,
                   sq_leverageTierSnapshot request, sq_exposureSnapshot request) of
            (Some account, Some proposal, Some conversion, Some tiers, Some exposure) \<Rightarrow>
              size_request C request policy account proposal conversion tiers exposure
          | _ \<Rightarrow> Inr (unsized reasons caps)))"

definition resolveTierSizing :: "calc_js \<Rightarrow> sizing_request \<Rightarrow> risk_policy \<Rightarrow> (risk_error, tier_result) res" where
  "resolveTierSizing C request policy =
     caught (resolveTierSizingUnchecked C request policy) (\<lambda>r. r)
       (unsized [VALUATION_NUMERIC_CONTEXT_EXCEEDED] (riskCapsForRequest request policy))"

subsection \<open>Whatever is sized is within every limit\<close>

definition optional_text :: "string option \<Rightarrow> bool" where
  "optional_text v = (case v of None \<Rightarrow> True | Some s \<Rightarrow> signed_text s)"

definition account_texts :: "account_snapshot \<Rightarrow> bool" where
  "account_texts a \<longleftrightarrow> signed_text (ac_availableMarginInr a) \<and> signed_text (ac_lockedMarginInr a)
     \<and> signed_text (ac_currentEquityInr a) \<and> signed_text (ac_peakEquityInr a) \<and> optional_text (ac_accountMaxLeverage a)
     \<and> list_all signed_text [dp_realizedTradingPnlInr (ac_dailyPnl a), dp_fundingPnlInr (ac_dailyPnl a),
          dp_feesInr (ac_dailyPnl a), dp_otherAccountAdjustmentsInr (ac_dailyPnl a), dp_netDailyPnlInr (ac_dailyPnl a)]"

definition pair_texts :: "pair_snapshot \<Rightarrow> bool" where
  "pair_texts p \<longleftrightarrow> list_all signed_text [ps_priceIncrement p, ps_quantityIncrement p, ps_minPrice p, ps_maxPrice p,
      ps_minQuantity p, ps_maxQuantity p, ps_minTradeSize p, ps_minNotional p, ps_contractMultiplier p]
     \<and> optional_text (ps_maxNotional p)"

definition tier_texts :: "leverage_tier \<Rightarrow> bool" where
  "tier_texts t \<longleftrightarrow> signed_text (tr_lowerNotionalUsdt t) \<and> optional_text (tr_upperNotionalUsdt t) \<and> signed_text (tr_maxLeverage t)"

definition exposure_texts :: "exposure_snapshot \<Rightarrow> bool" where
  "exposure_texts x \<longleftrightarrow> signed_text (ex_globalOpenNotionalInr x)
     \<and> list_all signed_text (map snd (ex_perPairOpenNotionalInr x)) \<and> list_all signed_text (map snd (ex_perStrategyOpenNotionalInr x))
     \<and> (case ex_pending x of UNKNOWN \<Rightarrow> True
        | KNOWN k \<Rightarrow> signed_text (kp_globalPendingNotionalInr k) \<and> signed_text (kp_longInr k) \<and> signed_text (kp_shortInr k)
            \<and> list_all signed_text (map snd (kp_pairPendingNotionalInr k))
            \<and> list_all signed_text (map snd (kp_strategyPendingNotionalInr k))
            \<and> list_all (\<lambda>r. signed_text (pr_pendingNotionalInr r)) (kp_instancePendingReservations k))"

definition policy_texts :: "risk_policy \<Rightarrow> bool" where
  "policy_texts p \<longleftrightarrow> list_all signed_text
     [gc_globalMaxLeverage (rp_globalConfig p), gc_globalMaxOpenNotionalInr (rp_globalConfig p),
      gc_globalMaxDailyLossInr (rp_globalConfig p), gc_globalMaxDrawdownPercent (rp_globalConfig p),
      pc_pairMaxLeverage (rp_pairConfig p), pc_pairMaxExposureInr (rp_pairConfig p),
      mc_riskPerTradePercent (rp_modeConfig p), mc_maxNotionalPerTradeInr (rp_modeConfig p),
      mc_leverageRecommendation (rp_modeConfig p), mc_maxConcurrentExposureInr (rp_modeConfig p),
      mc_maxCoinExposureInr (rp_modeConfig p), mc_maxStrategyExposureInr (rp_modeConfig p),
      mc_maxDailyLossInr (rp_modeConfig p), mc_maxDrawdownPercent (rp_modeConfig p)]
     \<and> optional_text (gc_globalDailyLossLimitPercent (rp_globalConfig p)) \<and> optional_text (mc_dailyLossLimitPercent (rp_modeConfig p))"

lemma optional_text_simps [simp]: "optional_text None" "optional_text (Some s) = signed_text s"
  by (simp_all add: optional_text_def)

definition override_texts :: "risk_override \<Rightarrow> bool" where
  "override_texts ov \<longleftrightarrow> optional_text (ov_overrideRiskPerTradePercent ov) \<and> optional_text (ov_overrideMaxLeverage ov)
     \<and> optional_text (ov_overrideMaxNotionalInr ov)"

definition sizing_texts :: "sizing_request \<Rightarrow> risk_policy \<Rightarrow> bool" where
  "sizing_texts q p \<longleftrightarrow> policy_texts p \<and> pair_texts (sq_pairSnapshot q) \<and> option_all account_texts (sq_accountSnapshot q)
     \<and> option_all (\<lambda>e. signed_text (es_entryPriceUsdt e) \<and> signed_text (es_stopPriceUsdt e)) (sq_entryStopProposal q)
     \<and> option_all (\<lambda>l. optional_text (lp_requestedLeverage l)) (sq_leverageProposal q)
     \<and> option_all override_texts (sq_override q) \<and> option_all exposure_texts (sq_exposureSnapshot q)
     \<and> option_all (\<lambda>t. list_all tier_texts (ts_tiers t) \<and> signed_text (ts_exchangeMaxLeverage t)) (sq_leverageTierSnapshot q)
     \<and> option_all (\<lambda>s. signed_text (st_rateInrPerUsdt s)) (sq_settlementRateSnapshot q)"

text \<open>The limits, over the numbers the texts denote.\<close>

definition trade_numbers_exact ::
    "sizing_request \<Rightarrow> entry_stop \<Rightarrow> settlement_snapshot \<Rightarrow> sizing_values \<Rightarrow> bool" where
  "trade_numbers_exact request proposal conversion v \<longleftrightarrow>
     (let n = text_value; q = n (sv_finalQuantity v); pair = sq_pairSnapshot request in
      n (sv_finalNotionalUsdt v) = q * n (es_entryPriceUsdt proposal) * n (ps_contractMultiplier pair)
      \<and> n (sv_finalNotionalInr v) = n (sv_finalNotionalUsdt v) * n (st_rateInrPerUsdt conversion)
      \<and> n (sv_estimatedStopLossRiskInr v) =
          q * \<bar>n (es_entryPriceUsdt proposal) - n (es_stopPriceUsdt proposal)\<bar> * n (ps_contractMultiplier pair)
            * n (st_rateInrPerUsdt conversion)
      \<and> n (sv_finalNotionalInr v) / n (sv_finalLeverage v) \<le> n (sv_estimatedInitialMarginInr v)
      \<and> n (sv_finalNotionalUsdt v) / n (sv_finalLeverage v) \<le> n (sv_estimatedInitialMarginUsdt v))"

definition quantity_admissible :: "sizing_request \<Rightarrow> sizing_values \<Rightarrow> bool" where
  "quantity_admissible request v \<longleftrightarrow>
     (let n = text_value; q = n (sv_finalQuantity v); pair = sq_pairSnapshot request in
      (\<exists>m. q = of_int m * n (ps_quantityIncrement pair))
      \<and> n (ps_minQuantity pair) \<le> q \<and> n (ps_minTradeSize pair) \<le> q \<and> q \<le> n (ps_maxQuantity pair)
      \<and> n (ps_minNotional pair) \<le> n (sv_finalNotionalUsdt v)
      \<and> (\<forall>m. ps_maxNotional pair = Some m \<longrightarrow> n (sv_finalNotionalUsdt v) \<le> n m))"

definition risk_within :: "sizing_request \<Rightarrow> risk_policy \<Rightarrow> account_snapshot \<Rightarrow> sizing_values \<Rightarrow> bool" where
  "risk_within request policy account v \<longleftrightarrow>
     (let n = text_value in
      n (sv_estimatedStopLossRiskInr v) \<le> n (ac_currentEquityInr account)
         * n (override_or ov_overrideRiskPerTradePercent (sq_override request) (mc_riskPerTradePercent (rp_modeConfig policy))) / 100
      \<and> n (sv_finalNotionalInr v) \<le>
          n (override_or ov_overrideMaxNotionalInr (sq_override request) (mc_maxNotionalPerTradeInr (rp_modeConfig policy)))
      \<and> n (sv_finalNotionalInr v) \<le> n (ac_availableMarginInr account) * n (sv_finalLeverage v))"

definition exposure_within :: "sizing_request \<Rightarrow> risk_policy \<Rightarrow> exposure_snapshot \<Rightarrow> known_pending \<Rightarrow> sizing_values \<Rightarrow> bool" where
  "exposure_within request policy x k v \<longleftrightarrow>
     (let n = text_value; inr = n (sv_finalNotionalInr v); pair = cd_pair (sq_candidate request);
          strategy = sd_strategyId (cd_strategyDecision (sq_candidate request)); mode = rp_modeConfig policy in
      n (ex_globalOpenNotionalInr x) + n (kp_globalPendingNotionalInr k) + inr
        \<le> min (n (gc_globalMaxOpenNotionalInr (rp_globalConfig policy))) (n (mc_maxConcurrentExposureInr mode))
      \<and> n (mapValue (ex_perPairOpenNotionalInr x) pair) + n (mapValue (kp_pairPendingNotionalInr k) pair) + inr
        \<le> min (n (pc_pairMaxExposureInr (rp_pairConfig policy))) (n (mc_maxCoinExposureInr mode))
      \<and> n (mapValue (ex_perStrategyOpenNotionalInr x) strategy) + n (mapValue (kp_strategyPendingNotionalInr k) strategy) + inr
        \<le> n (mc_maxStrategyExposureInr mode))"

definition leverage_within ::
    "sizing_request \<Rightarrow> risk_policy \<Rightarrow> account_snapshot \<Rightarrow> leverage_tier \<Rightarrow> sizing_values \<Rightarrow> bool" where
  "leverage_within request policy account tier v \<longleftrightarrow>
     (let n = text_value; lev = n (sv_finalLeverage v) in
      lev \<le> n (tr_maxLeverage tier) \<and> lev \<le> n (mc_leverageRecommendation (rp_modeConfig policy))
      \<and> lev \<le> n (pc_pairMaxLeverage (rp_pairConfig policy)) \<and> lev \<le> n (gc_globalMaxLeverage (rp_globalConfig policy))
      \<and> (\<forall>l. Option.bind (sq_leverageProposal request) lp_requestedLeverage = Some l \<longrightarrow> lev \<le> n l)
      \<and> (\<forall>l. Option.bind (sq_override request) ov_overrideMaxLeverage = Some l \<longrightarrow> lev \<le> n l)
      \<and> (\<forall>l. ac_accountMaxLeverage account = Some l \<longrightarrow> lev \<le> n l))"

definition tier_covers :: "leverage_tier \<Rightarrow> rat \<Rightarrow> bool" where
  "tier_covers t x \<longleftrightarrow>
     (if tr_lowerInclusive t then text_value (tr_lowerNotionalUsdt t) \<le> x else text_value (tr_lowerNotionalUsdt t) < x)
     \<and> (\<forall>u. tr_upperNotionalUsdt t = Some u \<longrightarrow> (if tr_upperInclusive t then x \<le> text_value u else x < text_value u))"

lemma minimum_le:
  assumes "x \<in> set (first # rest)"
  shows "minimum first rest \<le> x"
  using assms unfolding minimum_def
proof (induction rest arbitrary: first x)
  case (Cons y rest)
  have "foldl (\<lambda>current v. if current < v then current else v) (if first < y then first else y) rest
      \<le> (if first < y then first else y)"
    by (rule Cons.IH) simp
  moreover have "foldl (\<lambda>current v. if current < v then current else v) (if first < y then first else y) rest \<le> x"
    if "x \<in> set rest"
    by (rule Cons.IH) (simp add: that)
  ultimately show ?case using Cons.prems by (auto split: if_splits)
qed simp

lemma minimum_in: "minimum first rest \<in> set (first # rest)"
  unfolding minimum_def
proof (induction rest arbitrary: first)
  case (Cons y rest)
  from Cons.IH[of "if first < y then first else y"] show ?case by (auto split: if_splits)
qed simp

lemma select_size_in: "select_size first rest \<in> set (first # rest)"
  unfolding select_size_def
proof (induction rest arbitrary: first)
  case (Cons y rest)
  from Cons.IH[of "if better first y then y else first"] show ?case by (auto split: if_splits)
qed simp

lemma try_fold:
  assumes "foldl_res (try_step C request policy account b) acc tiers = Inr out" and "z \<in> set (fst out)"
  shows "z \<in> set (fst acc) \<or> (\<exists>t\<in>set tiers. try_tier C request policy account b t = Inr (Inr z))"
  using assms
proof (induction tiers arbitrary: acc)
  case (Cons t tiers)
  obtain s where s: "try_step C request policy account b acc t = Inr s"
    and rest: "foldl_res (try_step C request policy account b) s tiers = Inr out"
    using Cons.prems(1) by (auto elim!: rbindE)
  obtain r where r: "try_tier C request policy account b t = Inr r"
    and "s = (case r of Inl f \<Rightarrow> (fst acc, snd acc @ [f]) | Inr z \<Rightarrow> (fst acc @ [z], snd acc))"
    using s by (auto simp: try_step_def elim!: rbindE)
  with Cons.IH[OF rest Cons.prems(2)] show ?case by (cases r) auto
qed simp

lemma mapValue_text: "list_all signed_text (map snd m) \<Longrightarrow> signed_text (mapValue m k)"
proof -
  have "signed_text ''0''" by code_simp
  then show "list_all signed_text (map snd m) \<Longrightarrow> signed_text (mapValue m k)"
    by (auto simp: mapValue_def list_all_iff split: option.split dest!: map_of_SomeD)
qed

lemma override_or_text:
  "option_all (\<lambda>ov. optional_text (f ov)) override \<Longrightarrow> signed_text fallback \<Longrightarrow> signed_text (override_or f override fallback)"
  by (auto simp: override_or_def split: option.splits)

context risk_arith
begin

lemma num: "signed_text s \<Longrightarrow> riskDecimal D s = text_value s"
  by (rule riskDecimal_signed)

lemma canonical_text_exact:
  assumes "canonicalRiskDecimal D x = Inr t" and "decimal_fraction x"
  shows "text_value t = x" and "signed_text t"
proof -
  have s: "signed_text (dfixed D x)" by (rule normal_signed_text[OF dfixed_normal[OF assms(2)]])
  have t: "t = normalize_text (dfixed D x)"
    using assms(1) by (simp add: canonicalRiskDecimal_def canonicalDecimalString_signed[OF s])
  show "text_value t = x" by (simp add: t normalize_text_value[OF s] dfixed_value[OF assms(2)])
  show "signed_text t" unfolding t by (rule normal_signed_text[OF normalize_text_normal[OF s]])
qed

definition basis_ok :: "sizing_basis \<Rightarrow> bool" where
  "basis_ok b \<longleftrightarrow> decimal_fraction (sb_unitNotionalUsdt b) \<and> decimal_fraction (sb_rate b) \<and> decimal_fraction (sb_riskBudget b)
     \<and> decimal_fraction (sb_perUnitLossInr b) \<and> decimal_fraction (sb_riskCapped b) \<and> decimal_fraction (sb_quantityIncrement b)
     \<and> decimal_fraction (sb_maxNotionalInr b) \<and> signed_text (hr_globalInr (sb_headroom b))
     \<and> signed_text (hr_pairInr (sb_headroom b)) \<and> signed_text (hr_strategyInr (sb_headroom b))
     \<and> (\<forall>q\<in>set (sb_commonCeilings b). decimal_fraction q)"

lemma qtyFromUsdt_fraction:
  "basis_ok b \<Longrightarrow> decimal_fraction cap \<Longrightarrow> qtyFromUsdt C b cap = Inr q \<Longrightarrow> decimal_fraction q"
  unfolding qtyFromUsdt_def basis_ok_def by (blast intro: floorRatio_exact(4))

lemma qtyFromInr_fraction:
  assumes "basis_ok b" "decimal_fraction cap" "qtyFromInr C b cap = Inr q"
  shows "decimal_fraction q"
proof -
  obtain u where u: "checkedProduct C [sb_rate b, sb_unitNotionalUsdt b] = Inr u"
    and q: "floorRatioToIncrement C cap u (sb_quantityIncrement b) = Inr q"
    using assms(3) by (auto simp: qtyFromInr_def elim!: rbindE)
  have "decimal_fraction u" by (rule checkedProduct_exact(2)[OF u]) (use assms(1) in \<open>simp add: basis_ok_def\<close>)
  from floorRatio_exact(4)[OF assms(2) this _ q] assms(1) show ?thesis by (simp add: basis_ok_def)
qed

lemma orZero_fraction: "signed_text v \<Longrightarrow> decimal_fraction (orZero D v)"
proof -
  show "signed_text v \<Longrightarrow> decimal_fraction (orZero D v)" by (simp add: orZero_def num riskDecimal_0)
qed

lemma commonCeilings_fraction:
  assumes b: "basis_ok b" and p: "pair_texts pair" and run: "commonCeilings C pair b = Inr qs"
  shows "\<forall>q\<in>set qs. decimal_fraction q"
proof -
  obtain a g e s m where r: "qtyFromInr C b (sb_maxNotionalInr b) = Inr a"
      "qtyFromInr C b (orZero D (hr_globalInr (sb_headroom b))) = Inr g"
      "qtyFromInr C b (orZero D (hr_pairInr (sb_headroom b))) = Inr e"
      "qtyFromInr C b (orZero D (hr_strategyInr (sb_headroom b))) = Inr s"
      "(case ps_maxNotional pair of None \<Rightarrow> Inr [] | Some m \<Rightarrow> rbind (qtyFromUsdt C b (riskDecimal D m)) (\<lambda>q. Inr [q])) = Inr m"
      "qs = [riskDecimal D (ps_maxQuantity pair), a, g, e, s] @ m"
    using run by (auto simp: commonCeilings_def Let_def elim!: rbindE)
  have "\<forall>q\<in>set m. decimal_fraction q"
  proof (cases "ps_maxNotional pair")
    case (Some t)
    then have "signed_text t" using p by (simp add: pair_texts_def)
    with Some r(5) show ?thesis by (auto simp: num elim!: rbindE intro: qtyFromUsdt_fraction[OF b])
  qed (use r(5) in simp)
  moreover have "decimal_fraction a" "decimal_fraction g" "decimal_fraction e" "decimal_fraction s"
    using r(1-4) b by (auto simp: basis_ok_def intro: qtyFromInr_fraction[OF b] orZero_fraction)
  moreover have "decimal_fraction (riskDecimal D (ps_maxQuantity pair))" using p by (simp add: pair_texts_def num)
  ultimately show ?thesis by (auto simp: r(6))
qed

lemma tierUpper_fraction:
  assumes b: "basis_ok b" and t: "tier_texts tier" and run: "tierUpper C b tier = Inr qs"
  shows "\<forall>q\<in>set qs. decimal_fraction q"
proof (cases "tr_upperNotionalUsdt tier")
  case (Some u)
  then have u: "signed_text u" using t by (simp add: tier_texts_def)
  obtain upper where q: "qtyFromUsdt C b (riskDecimal D u) = Inr upper"
    using run Some by (auto simp: tierUpper_def Let_def elim!: rbindE)
  have f: "decimal_fraction upper" by (rule qtyFromUsdt_fraction[OF b _ q]) (simp add: num[OF u])
  have i: "decimal_fraction (sb_quantityIncrement b)" using b by (simp add: basis_ok_def)
  have "decimal_fraction (risk_minus D upper (dfixed D (sb_quantityIncrement b)))"
    using risk_minus_exact[OF f normal_signed_text[OF dfixed_normal[OF i]]] by simp
  moreover have "decimal_fraction (riskDecimal D ''0'')" by (simp add: riskDecimal_0)
  ultimately show ?thesis
    using run Some q f by (auto simp: tierUpper_def Let_def elim!: rbindE split: if_splits)
qed (use run in \<open>simp add: tierUpper_def\<close>)

text \<open>The exact numbers behind a size that passes the checks of its tier.\<close>

lemma try_tier_size:
  assumes b: "basis_ok b" and pair: "pair_texts (sq_pairSnapshot request)" and acc: "account_texts account"
    and tier: "tier_texts tier" and lev: "decimal_fraction (finalLeverage D request policy account tier)"
    and run: "try_tier C request policy account b tier = Inr (Inr z)"
  defines "q \<equiv> fz_quantity z" and "usdt \<equiv> fz_quantity z * sb_unitNotionalUsdt b"
    and "p \<equiv> sq_pairSnapshot request"
  shows "decimal_fraction q" and "fz_leverage z = finalLeverage D request policy account tier"
    and "\<exists>m. q = of_int m * sb_quantityIncrement b"
    and "text_value (ps_minQuantity p) \<le> q" and "text_value (ps_minTradeSize p) \<le> q" and "q \<le> text_value (ps_maxQuantity p)"
    and "text_value (ps_minNotional p) \<le> usdt" and "ps_maxNotional p = Some m \<Longrightarrow> usdt \<le> text_value m"
    and "usdt * sb_rate b \<le> sb_maxNotionalInr b"
    and "usdt * sb_rate b \<le> text_value (hr_globalInr (sb_headroom b))"
    and "usdt * sb_rate b \<le> text_value (hr_pairInr (sb_headroom b))"
    and "usdt * sb_rate b \<le> text_value (hr_strategyInr (sb_headroom b))"
    and "usdt * sb_rate b \<le> text_value (ac_availableMarginInr account) * fz_leverage z"
    and "q \<le> sb_riskCapped b" and "tier_covers tier usdt"
proof -
  let ?lev = "finalLeverage D request policy account tier"
  obtain margin marginQty upper quantity usdt' inr' where
    m: "checkedProduct C [riskDecimal D (ac_availableMarginInr account), ?lev] = Inr margin"
      "qtyFromInr C b margin = Inr marginQty" "tierUpper C b tier = Inr upper"
    and q: "floorToIncrement C (minimum (sb_riskCapped b) (sb_commonCeilings b @ [marginQty] @ upper))
        (sb_quantityIncrement b) = Inr quantity"
      "checkedProduct C [quantity, sb_unitNotionalUsdt b] = Inr usdt'" "checkedProduct C [usdt', sb_rate b] = Inr inr'"
    and j: "judge_tier D p b tier ?lev margin (marginQty = minimum (sb_riskCapped b) (sb_commonCeilings b @ [marginQty] @ upper))
        quantity usdt' inr' = Inr z"
    using run unfolding try_tier_def Let_def p_def by (elim rbindE) (simp only: sum.inject)
  have z: "z = \<lparr>fz_quantity = quantity, fz_leverage = ?lev, fz_tierLeverage = tr_maxLeverage tier\<rparr>"
    and c: "\<not> quantity < riskDecimal D (ps_minQuantity p)" "\<not> quantity < riskDecimal D (ps_minTradeSize p)"
      "\<not> usdt' < riskDecimal D (ps_minNotional p)" "inTier D usdt' tier"
      "\<not> quantity > sb_riskCapped b" "\<not> quantity > riskDecimal D (ps_maxQuantity p)"
      "\<not> (case ps_maxNotional p of None \<Rightarrow> False | Some m \<Rightarrow> usdt' > riskDecimal D m)"
      "\<not> inr' > sb_maxNotionalInr b" "\<not> inr' > riskDecimal D (hr_globalInr (sb_headroom b))"
      "\<not> inr' > riskDecimal D (hr_pairInr (sb_headroom b))" "\<not> inr' > riskDecimal D (hr_strategyInr (sb_headroom b))"
      "\<not> inr' > margin"
    using j unfolding judge_tier_def Let_def by (simp_all split: if_splits)
  have texts: "signed_text (ps_minQuantity p)" "signed_text (ps_minTradeSize p)" "signed_text (ps_maxQuantity p)"
      "signed_text (ps_minNotional p)" "\<And>m. ps_maxNotional p = Some m \<Longrightarrow> signed_text m"
      "signed_text (ac_availableMarginInr account)"
    using pair acc by (auto simp: pair_texts_def account_texts_def p_def)
  have bf: "decimal_fraction (sb_unitNotionalUsdt b)" "decimal_fraction (sb_rate b)" "decimal_fraction (sb_riskCapped b)"
      "decimal_fraction (sb_quantityIncrement b)" "signed_text (hr_globalInr (sb_headroom b))"
      "signed_text (hr_pairInr (sb_headroom b))" "signed_text (hr_strategyInr (sb_headroom b))"
      "\<forall>q\<in>set (sb_commonCeilings b). decimal_fraction q"
    using b by (simp_all add: basis_ok_def)
  have mg: "margin = text_value (ac_availableMarginInr account) * ?lev" "decimal_fraction margin"
    using checkedProduct_exact[OF m(1)] lev texts(6) by (simp_all add: num)
  have "\<forall>x\<in>set (sb_riskCapped b # sb_commonCeilings b @ [marginQty] @ upper). decimal_fraction x"
    using bf(3,8) qtyFromInr_fraction[OF b mg(2) m(2)] tierUpper_fraction[OF b tier m(3)] by auto
  then have "decimal_fraction (minimum (sb_riskCapped b) (sb_commonCeilings b @ [marginQty] @ upper))"
    using minimum_in by blast
  note fl = floorToIncrement_exact[OF this bf(4) q(1)]
  have u: "usdt' = quantity * sb_unitNotionalUsdt b" "decimal_fraction usdt'"
    using checkedProduct_exact[OF q(2)] fl(3) bf(1) by simp_all
  have i: "inr' = usdt' * sb_rate b"
    using checkedProduct_exact(1)[OF q(3)] u(2) bf(2) by simp
  have qq: "q = quantity" "usdt = usdt'" "fz_leverage z = ?lev" by (simp_all add: q_def usdt_def z u(1))
  show "decimal_fraction q" "fz_leverage z = ?lev" "\<exists>m. q = of_int m * sb_quantityIncrement b"
    using fl by (auto simp: qq)
  show "text_value (ps_minQuantity p) \<le> q" "text_value (ps_minTradeSize p) \<le> q" "q \<le> text_value (ps_maxQuantity p)"
    using c(1,2,6) texts by (simp_all add: qq num)
  show "text_value (ps_minNotional p) \<le> usdt" using c(3) texts by (simp add: qq num)
  show "usdt \<le> text_value m" if "ps_maxNotional p = Some m" using c(7) texts(5)[OF that] by (simp add: qq num that)
  show "usdt * sb_rate b \<le> sb_maxNotionalInr b" "usdt * sb_rate b \<le> text_value (hr_globalInr (sb_headroom b))"
    "usdt * sb_rate b \<le> text_value (hr_pairInr (sb_headroom b))" "usdt * sb_rate b \<le> text_value (hr_strategyInr (sb_headroom b))"
    "usdt * sb_rate b \<le> text_value (ac_availableMarginInr account) * fz_leverage z"
    using c(8-12) bf(5-7) by (simp_all only: qq num i[symmetric] mg(1)[symmetric] not_less)
  show "q \<le> sb_riskCapped b" using c(5) by (simp add: qq)
  show "tier_covers tier usdt"
    using c(4) tier by (auto simp: tier_covers_def inTier_def tier_texts_def num qq Let_def split: if_splits option.splits)
qed

lemma caps_exact:
  assumes "policy_texts policy"
  shows "globalCap D policy = min (text_value (gc_globalMaxOpenNotionalInr (rp_globalConfig policy)))
      (text_value (mc_maxConcurrentExposureInr (rp_modeConfig policy)))"
    and "pairCap D policy = min (text_value (pc_pairMaxExposureInr (rp_pairConfig policy)))
      (text_value (mc_maxCoinExposureInr (rp_modeConfig policy)))"
    and "decimal_fraction (globalCap D policy)" "decimal_fraction (pairCap D policy)"
  using assms by (simp_all add: policy_texts_def globalCap_def pairCap_def Let_def num min_def)

lemma headroom_exact:
  assumes x: "exposure_texts x" and p: "policy_texts policy" and run: "exposureHeadroom D x candidate policy = Some h"
  obtains k where "ex_pending x = KNOWN k" and "exposureStateReasons D x = []"
    and "text_value (hr_globalInr h) = globalCap D policy - text_value (ex_globalOpenNotionalInr x) - text_value (kp_globalPendingNotionalInr k)"
    and "text_value (hr_pairInr h) = pairCap D policy - text_value (mapValue (ex_perPairOpenNotionalInr x) (cd_pair candidate))
      - text_value (mapValue (kp_pairPendingNotionalInr k) (cd_pair candidate))"
    and "text_value (hr_strategyInr h) = text_value (mc_maxStrategyExposureInr (rp_modeConfig policy))
      - text_value (mapValue (ex_perStrategyOpenNotionalInr x) (sd_strategyId (cd_strategyDecision candidate)))
      - text_value (mapValue (kp_strategyPendingNotionalInr k) (sd_strategyId (cd_strategyDecision candidate)))"
    and "signed_text (hr_globalInr h)" "signed_text (hr_pairInr h)" "signed_text (hr_strategyInr h)"
proof -
  obtain k where k: "ex_pending x = KNOWN k" "exposureStateReasons D x = []"
    and h: "h = \<lparr>hr_globalInr = dfixed D (risk_minus D (risk_minus D (globalCap D policy)
                        (ex_globalOpenNotionalInr x)) (kp_globalPendingNotionalInr k)),
                 hr_pairInr = dfixed D (risk_minus D (risk_minus D (pairCap D policy)
                        (mapValue (ex_perPairOpenNotionalInr x) (cd_pair candidate))) (mapValue (kp_pairPendingNotionalInr k) (cd_pair candidate))),
                 hr_strategyInr = dfixed D (risk_minus D (risk_minus D
                        (riskDecimal D (mc_maxStrategyExposureInr (rp_modeConfig policy)))
                        (mapValue (ex_perStrategyOpenNotionalInr x) (sd_strategyId (cd_strategyDecision candidate))))
                        (mapValue (kp_strategyPendingNotionalInr k) (sd_strategyId (cd_strategyDecision candidate))))\<rparr>"
    using run by (auto simp: exposureHeadroom_def Let_def split: pending_exposure.splits if_splits)
  have sub: "text_value (dfixed D (risk_minus D (risk_minus D c a) b)) = c - text_value a - text_value b
      \<and> signed_text (dfixed D (risk_minus D (risk_minus D c a) b))"
    if "decimal_fraction c" "signed_text a" "signed_text b" for c a b
  proof -
    note m = risk_minus_exact[OF that(1,2)]
    have m1: "decimal_fraction (risk_minus D c a)" using m by simp
    note n = risk_minus_exact[OF m1 that(3)]
    have n1: "decimal_fraction (risk_minus D (risk_minus D c a) b)" using n by simp
    show ?thesis
      using dfixed_value[OF n1] normal_signed_text[OF dfixed_normal[OF n1]] n(1) m(1) by simp
  qed
  have t: "signed_text (ex_globalOpenNotionalInr x)" "signed_text (kp_globalPendingNotionalInr k)"
    "signed_text (mapValue (ex_perPairOpenNotionalInr x) y)" "signed_text (mapValue (kp_pairPendingNotionalInr k) y)"
    "signed_text (mapValue (ex_perStrategyOpenNotionalInr x) y)" "signed_text (mapValue (kp_strategyPendingNotionalInr k) y)" for y
    using x k(1) by (auto simp: exposure_texts_def intro: mapValue_text)
  have s: "signed_text (mc_maxStrategyExposureInr (rp_modeConfig policy))" using p by (simp add: policy_texts_def)
  note g = sub[OF caps_exact(3)[OF p] t(1,2)] and e = sub[OF caps_exact(4)[OF p] t(3,4)[of "cd_pair candidate"]]
    and r = sub[OF decimal_fraction_text_value t(5,6)[of "sd_strategyId (cd_strategyDecision candidate)"],
        of "mc_maxStrategyExposureInr (rp_modeConfig policy)"]
  show thesis
    by (rule that[OF k]) (use g e r in \<open>simp_all only: h exposure_headroom.simps num[OF s]\<close>)
qed

lemma set_option_list: "set (case v of None \<Rightarrow> [] | Some x \<Rightarrow> [x]) = set_option v"
  by (cases v) simp_all

lemma finalLeverage_bounds:
  assumes p: "policy_texts policy" and a: "account_texts account" and t: "tier_texts tier"
    and lp: "option_all (\<lambda>l. optional_text (lp_requestedLeverage l)) (sq_leverageProposal request)"
    and ov: "option_all override_texts (sq_override request)"
  defines "l \<equiv> finalLeverage D request policy account tier"
  shows "decimal_fraction l"
    and "l \<le> text_value (tr_maxLeverage tier)" and "l \<le> text_value (mc_leverageRecommendation (rp_modeConfig policy))"
    and "l \<le> text_value (pc_pairMaxLeverage (rp_pairConfig policy))"
    and "l \<le> text_value (gc_globalMaxLeverage (rp_globalConfig policy))"
    and "Option.bind (sq_leverageProposal request) lp_requestedLeverage = Some v \<Longrightarrow> l \<le> text_value v"
    and "Option.bind (sq_override request) ov_overrideMaxLeverage = Some v \<Longrightarrow> l \<le> text_value v"
    and "ac_accountMaxLeverage account = Some v \<Longrightarrow> l \<le> text_value v"
proof -
  let ?first = "tr_maxLeverage tier"
  let ?rest = "[mc_leverageRecommendation (rp_modeConfig policy), pc_pairMaxLeverage (rp_pairConfig policy),
           gc_globalMaxLeverage (rp_globalConfig policy)]
          @ (case Option.bind (sq_leverageProposal request) lp_requestedLeverage of None \<Rightarrow> [] | Some v \<Rightarrow> [v])
          @ (case Option.bind (sq_override request) ov_overrideMaxLeverage of None \<Rightarrow> [] | Some v \<Rightarrow> [v])
          @ (case ac_accountMaxLeverage account of None \<Rightarrow> [] | Some v \<Rightarrow> [v])"
  have b: "optional_text (Option.bind (sq_leverageProposal request) lp_requestedLeverage)"
    "optional_text (Option.bind (sq_override request) ov_overrideMaxLeverage)"
  proof -
    show "optional_text (Option.bind (sq_leverageProposal request) lp_requestedLeverage)"
      using lp by (cases "sq_leverageProposal request") simp_all
    show "optional_text (Option.bind (sq_override request) ov_overrideMaxLeverage)"
      using ov by (cases "sq_override request") (simp_all add: override_texts_def)
  qed
  have s: "\<forall>x\<in>set (?first # ?rest). signed_text x"
  proof -
    have "signed_text ?first" "signed_text (mc_leverageRecommendation (rp_modeConfig policy))"
      "signed_text (pc_pairMaxLeverage (rp_pairConfig policy))" "signed_text (gc_globalMaxLeverage (rp_globalConfig policy))"
      "optional_text (ac_accountMaxLeverage account)"
      using p a t by (simp_all add: policy_texts_def account_texts_def tier_texts_def)
    moreover have "signed_text x" if "optional_text w" "x \<in> set_option w" for x w using that by (cases w) simp_all
    ultimately show ?thesis using b by (simp only: set_append list.set set_option_list ball_simps ball_Un) blast
  qed
  have l: "l = minimum (riskDecimal D ?first) (map (riskDecimal D) ?rest)" by (simp add: l_def finalLeverage_def)
  have le: "l \<le> text_value x" if "x \<in> set (?first # ?rest)" for x
  proof -
    have "riskDecimal D x \<in> set (riskDecimal D ?first # map (riskDecimal D) ?rest)" using that by (simp only: list.set(2) set_map) blast
    from minimum_le[OF this] show ?thesis using s that by (simp only: l num)
  qed
  have "l \<in> set (riskDecimal D ?first # map (riskDecimal D) ?rest)" unfolding l by (rule minimum_in)
  then obtain x where "x \<in> set (?first # ?rest)" "l = riskDecimal D x" by (simp only: list.set(2) set_map) blast
  then show "decimal_fraction l" using s by (simp only: num decimal_fraction_text_value)
  show "l \<le> text_value (tr_maxLeverage tier)" "l \<le> text_value (mc_leverageRecommendation (rp_modeConfig policy))"
    "l \<le> text_value (pc_pairMaxLeverage (rp_pairConfig policy))" "l \<le> text_value (gc_globalMaxLeverage (rp_globalConfig policy))"
    by (simp_all add: le)
  show "l \<le> text_value v" if "Option.bind (sq_leverageProposal request) lp_requestedLeverage = Some v" by (rule le) (simp only: that set_append set_option_list, simp)
  show "l \<le> text_value v" if "Option.bind (sq_override request) ov_overrideMaxLeverage = Some v" by (rule le) (simp only: that set_append set_option_list, simp)
  show "l \<le> text_value v" if "ac_accountMaxLeverage account = Some v" by (rule le) (simp only: that set_append set_option_list, simp)
qed

lemma sized_values_exact:
  assumes f: "decimal_fraction (fz_quantity z)" "decimal_fraction (fz_leverage z)" and b: "basis_ok b"
    and run: "sized_values C b z = Inr (Some v)"
  shows "text_value (sv_finalQuantity v) = fz_quantity z" and "text_value (sv_finalLeverage v) = fz_leverage z"
    and "text_value (sv_finalNotionalUsdt v) = fz_quantity z * sb_unitNotionalUsdt b"
    and "text_value (sv_finalNotionalInr v) = fz_quantity z * sb_unitNotionalUsdt b * sb_rate b"
    and "text_value (sv_estimatedStopLossRiskInr v) = fz_quantity z * sb_perUnitLossInr b"
    and "fz_quantity z * sb_perUnitLossInr b \<le> sb_riskBudget b"
    and "fz_quantity z * sb_unitNotionalUsdt b / fz_leverage z \<le> text_value (sv_estimatedInitialMarginUsdt v)"
    and "fz_quantity z * sb_unitNotionalUsdt b * sb_rate b / fz_leverage z \<le> text_value (sv_estimatedInitialMarginInr v)"
proof -
  have bf: "decimal_fraction (sb_unitNotionalUsdt b)" "decimal_fraction (sb_rate b)" "decimal_fraction (sb_perUnitLossInr b)"
    using b by (simp_all add: basis_ok_def)
  obtain usdt inr' stop where c: "checkedProduct C [fz_quantity z, sb_unitNotionalUsdt b] = Inr usdt"
      "checkedProduct C [usdt, sb_rate b] = Inr inr'" "checkedProduct C [fz_quantity z, sb_perUnitLossInr b] = Inr stop"
    and le: "\<not> stop > sb_riskBudget b"
    and v: "canonicalRiskDecimal D (fz_quantity z) = Inr (sv_finalQuantity v)"
      "canonicalRiskDecimal D (fz_leverage z) = Inr (sv_finalLeverage v)"
      "canonicalRiskDecimal D usdt = Inr (sv_finalNotionalUsdt v)" "canonicalRiskDecimal D inr' = Inr (sv_finalNotionalInr v)"
      "canonicalRiskDecimal D (risk_divUp C usdt (fz_leverage z)) = Inr (sv_estimatedInitialMarginUsdt v)"
      "canonicalRiskDecimal D (risk_divUp C inr' (fz_leverage z)) = Inr (sv_estimatedInitialMarginInr v)"
      "canonicalRiskDecimal D stop = Inr (sv_estimatedStopLossRiskInr v)"
    using run unfolding sized_values_def Let_def by (auto elim!: rbindE split: if_splits)
  have u: "usdt = fz_quantity z * sb_unitNotionalUsdt b" "decimal_fraction usdt"
    using checkedProduct_exact[OF c(1)] f bf by simp_all
  have i: "inr' = usdt * sb_rate b" "decimal_fraction inr'"
    using checkedProduct_exact[OF c(2)] u(2) bf by simp_all
  have s: "stop = fz_quantity z * sb_perUnitLossInr b" "decimal_fraction stop"
    using checkedProduct_exact[OF c(3)] f bf by simp_all
  have d: "decimal_fraction (risk_divUp C x y)" for x y by (simp add: risk_divUp_def margin_decimal)
  show "text_value (sv_finalQuantity v) = fz_quantity z" "text_value (sv_finalLeverage v) = fz_leverage z"
    using canonical_text_exact(1)[OF v(1) f(1)] canonical_text_exact(1)[OF v(2) f(2)] by simp_all
  show "text_value (sv_finalNotionalUsdt v) = fz_quantity z * sb_unitNotionalUsdt b"
    using canonical_text_exact(1)[OF v(3) u(2)] u(1) by simp
  show "text_value (sv_finalNotionalInr v) = fz_quantity z * sb_unitNotionalUsdt b * sb_rate b"
    using canonical_text_exact(1)[OF v(4) i(2)] i(1) u(1) by simp
  show "text_value (sv_estimatedStopLossRiskInr v) = fz_quantity z * sb_perUnitLossInr b"
    using canonical_text_exact(1)[OF v(7) s(2)] s(1) by simp
  show "fz_quantity z * sb_perUnitLossInr b \<le> sb_riskBudget b" using le s(1) by simp
  show "fz_quantity z * sb_unitNotionalUsdt b / fz_leverage z \<le> text_value (sv_estimatedInitialMarginUsdt v)"
    using canonical_text_exact(1)[OF v(5) d] margin_up[of "usdt / fz_leverage z"] u(1) by (simp add: risk_divUp_def)
  show "fz_quantity z * sb_unitNotionalUsdt b * sb_rate b / fz_leverage z \<le> text_value (sv_estimatedInitialMarginInr v)"
    using canonical_text_exact(1)[OF v(6) d] margin_up[of "inr' / fz_leverage z"] i(1) u(1) by (simp add: risk_divUp_def)
qed

end


context risk_arith
begin

lemma size_tiers_some:
  assumes "size_tiers C request policy account tiers b = Inr r" and "tz_sizing r = Some v"
  obtains tier z where "tier \<in> set (ts_tiers tiers)" and "try_tier C request policy account b tier = Inr (Inr z)"
    and "sized_values C b z = Inr (Some v)"
proof -
  obtain out where f: "foldl_res (try_step C request policy account b) ([], []) (ts_tiers tiers) = Inr out"
    and n: "(case out of (feasible, failures) \<Rightarrow> case feasible of
          [] \<Rightarrow> Inr (unsized [noFeasibleTierReason failures] (riskCapsForRequest request policy))
        | first # rest \<Rightarrow>
            rbind (sized_values C b (select_size first rest)) (\<lambda>values.
              case values of
                None \<Rightarrow> Inr (unsized [VALUATION_NUMERIC_CONTEXT_EXCEEDED] (riskCapsForRequest request policy))
              | Some v \<Rightarrow> Inr \<lparr>tz_sizing = Some v, tz_reasons = [],
                  tz_capsApplied = (riskCapsForRequest request policy)\<lparr>cp_tierMaxLeverage := RESOLVED (fz_tierLeverage (select_size first rest)),
                    cp_finalLeverage := RESOLVED (sv_finalLeverage v)\<rparr>\<rparr>)) = Inr r"
    using assms(1) unfolding size_tiers_def Let_def by (elim rbindE) blast
  obtain first rest where o: "fst out = first # rest"
    using n assms(2) by (cases out; cases "fst out") (auto simp: unsized_def)
  then have "rbind (sized_values C b (select_size first rest)) (\<lambda>values.
              case values of
                None \<Rightarrow> Inr (unsized [VALUATION_NUMERIC_CONTEXT_EXCEEDED] (riskCapsForRequest request policy))
              | Some v \<Rightarrow> Inr \<lparr>tz_sizing = Some v, tz_reasons = [],
                  tz_capsApplied = (riskCapsForRequest request policy)\<lparr>cp_tierMaxLeverage := RESOLVED (fz_tierLeverage (select_size first rest)),
                    cp_finalLeverage := RESOLVED (sv_finalLeverage v)\<rparr>\<rparr>) = Inr r"
    using n by (cases out) simp
  then obtain vs where vs: "sized_values C b (select_size first rest) = Inr vs"
    and "(case vs of None \<Rightarrow> Inr (unsized [VALUATION_NUMERIC_CONTEXT_EXCEEDED] (riskCapsForRequest request policy))
              | Some v \<Rightarrow> Inr \<lparr>tz_sizing = Some v, tz_reasons = [],
                  tz_capsApplied = (riskCapsForRequest request policy)\<lparr>cp_tierMaxLeverage := RESOLVED (fz_tierLeverage (select_size first rest)),
                    cp_finalLeverage := RESOLVED (sv_finalLeverage v)\<rparr>\<rparr>) = (Inr r :: (risk_error, tier_result) res)"
    by (elim rbindE)
  then have "vs = Some v" using assms(2) by (cases vs) (auto simp: unsized_def)
  moreover have "select_size first rest \<in> set (fst out)" unfolding o by (rule select_size_in)
  moreover note try_fold[OF f this]
  ultimately show thesis using vs that by auto
qed

lemma size_request_basis:
  assumes t: "sizing_texts request policy" and a: "account_texts account"
    and e: "signed_text (es_entryPriceUsdt proposal)" "signed_text (es_stopPriceUsdt proposal)"
    and r: "signed_text (st_rateInrPerUsdt conversion)" and x: "exposure_texts exposure"
    and run: "size_request C request policy account proposal conversion tiers exposure = Inr result"
    and some: "tz_sizing result = Some v"
  defines "p \<equiv> sq_pairSnapshot request"
  obtains b where "size_tiers C request policy account tiers b = Inr result" and "basis_ok b"
    and "exposureHeadroom D exposure (sq_candidate request) policy = Some (sb_headroom b)"
    and "sb_unitNotionalUsdt b = text_value (es_entryPriceUsdt proposal) * text_value (ps_contractMultiplier p)"
    and "sb_rate b = text_value (st_rateInrPerUsdt conversion)"
    and "sb_riskBudget b = text_value (ac_currentEquityInr account)
      * text_value (override_or ov_overrideRiskPerTradePercent (sq_override request) (mc_riskPerTradePercent (rp_modeConfig policy))) / 100"
    and "sb_perUnitLossInr b = \<bar>text_value (es_entryPriceUsdt proposal) - text_value (es_stopPriceUsdt proposal)\<bar>
      * text_value (ps_contractMultiplier p) * text_value (st_rateInrPerUsdt conversion)"
    and "sb_quantityIncrement b = text_value (ps_quantityIncrement p)"
    and "sb_maxNotionalInr b = text_value (override_or ov_overrideMaxNotionalInr (sq_override request)
      (mc_maxNotionalPerTradeInr (rp_modeConfig policy)))"
proof -
  let ?percent = "override_or ov_overrideRiskPerTradePercent (sq_override request) (mc_riskPerTradePercent (rp_modeConfig policy))"
    and ?cap = "override_or ov_overrideMaxNotionalInr (sq_override request) (mc_maxNotionalPerTradeInr (rp_modeConfig policy))"
  have pt: "policy_texts policy" "pair_texts p" and ov: "option_all override_texts (sq_override request)"
    using t by (simp_all add: sizing_texts_def p_def)
  have s: "signed_text ?percent" "signed_text ?cap" "signed_text (ac_currentEquityInr account)"
      "signed_text (ps_contractMultiplier p)" "signed_text (ps_quantityIncrement p)"
    using pt ov a by (auto simp: policy_texts_def pair_texts_def account_texts_def override_or_def override_texts_def split: option.splits)
  note d = risk_minus_exact[OF decimal_fraction_text_value[of "es_entryPriceUsdt proposal"] e(2)]
  have dist: "decimal_fraction \<bar>risk_minus D (riskDecimal D (es_entryPriceUsdt proposal)) (es_stopPriceUsdt proposal)\<bar>"
    using d decimal_fraction_uminus[OF d(2)] by (simp add: num e(1) abs_if)
  obtain unit percent loss capped head ceilings where
    u: "checkedProduct C [riskDecimal D (es_entryPriceUsdt proposal), riskDecimal D (ps_contractMultiplier p)] = Inr unit"
    and q: "checkedProduct C [riskDecimal D (ac_currentEquityInr account), riskDecimal D ?percent] = Inr percent"
    and l: "checkedProduct C [\<bar>risk_minus D (riskDecimal D (es_entryPriceUsdt proposal)) (es_stopPriceUsdt proposal)\<bar>,
        riskDecimal D (ps_contractMultiplier p), riskDecimal D (st_rateInrPerUsdt conversion)] = Inr loss"
    and f: "floorRatioToIncrement C (risk_div D percent 100) loss (riskDecimal D (ps_quantityIncrement p)) = Inr capped"
    and h: "exposureHeadroom D exposure (sq_candidate request) policy = Some head"
    and c: "commonCeilings C p \<lparr>sb_unitNotionalUsdt = unit, sb_rate = riskDecimal D (st_rateInrPerUsdt conversion),
        sb_riskBudget = risk_div D percent 100, sb_perUnitLossInr = loss, sb_riskCapped = capped,
        sb_quantityIncrement = riskDecimal D (ps_quantityIncrement p), sb_maxNotionalInr = riskDecimal D ?cap,
        sb_headroom = head, sb_commonCeilings = []\<rparr> = Inr ceilings"
    and z: "size_tiers C request policy account tiers \<lparr>sb_unitNotionalUsdt = unit, sb_rate = riskDecimal D (st_rateInrPerUsdt conversion),
        sb_riskBudget = risk_div D percent 100, sb_perUnitLossInr = loss, sb_riskCapped = capped,
        sb_quantityIncrement = riskDecimal D (ps_quantityIncrement p), sb_maxNotionalInr = riskDecimal D ?cap,
        sb_headroom = head, sb_commonCeilings = ceilings\<rparr> = Inr result"
    using run some unfolding size_request_def Let_def p_def[symmetric]
    by (elim rbindE) (auto simp: unsized_def elim!: rbindE split: if_splits option.splits)
  have uv: "unit = text_value (es_entryPriceUsdt proposal) * text_value (ps_contractMultiplier p)" "decimal_fraction unit"
    using checkedProduct_exact[OF u] s e(1) by (simp_all add: num)
  have qv: "risk_div D percent 100 = text_value (ac_currentEquityInr account) * text_value ?percent / 100"
    "decimal_fraction (risk_div D percent 100)"
    using percent_exact[OF q] s by (simp_all add: num)
  have lv: "loss = \<bar>text_value (es_entryPriceUsdt proposal) - text_value (es_stopPriceUsdt proposal)\<bar>
      * text_value (ps_contractMultiplier p) * text_value (st_rateInrPerUsdt conversion)" "decimal_fraction loss"
    using checkedProduct_exact[OF l] dist s r d(1) e(1) by (simp_all add: num mult.assoc)
  have cf: "decimal_fraction capped"
    by (rule floorRatio_exact(4)[OF qv(2) lv(2) _ f]) (simp add: num[OF s(5)])
  have hs: "signed_text (hr_globalInr head)" "signed_text (hr_pairInr head)" "signed_text (hr_strategyInr head)"
    by (rule headroom_exact[OF x pt(1) h]; assumption)+
  define b0 where "b0 = \<lparr>sb_unitNotionalUsdt = unit, sb_rate = riskDecimal D (st_rateInrPerUsdt conversion),
        sb_riskBudget = risk_div D percent 100, sb_perUnitLossInr = loss, sb_riskCapped = capped,
        sb_quantityIncrement = riskDecimal D (ps_quantityIncrement p), sb_maxNotionalInr = riskDecimal D ?cap,
        sb_headroom = head, sb_commonCeilings = []\<rparr>"
  have b0: "basis_ok b0"
    unfolding basis_ok_def b0_def sizing_basis.simps num[OF r] num[OF s(5)] num[OF s(2)]
    using uv(2) qv(2) lv(2) cf hs by simp
  have "\<forall>q\<in>set ceilings. decimal_fraction q"
    by (rule commonCeilings_fraction[OF b0 pt(2)]) (simp only: b0_def c)
  then have b: "basis_ok (b0\<lparr>sb_commonCeilings := ceilings\<rparr>)"
    using b0 by (simp add: basis_ok_def)
  show thesis
    by (rule that[of "b0\<lparr>sb_commonCeilings := ceilings\<rparr>"])
      (use z h b in \<open>simp_all only: b0_def sizing_basis.simps uv(1) qv(1) lv(1) num[OF r] num[OF s(5)] num[OF s(2)]\<close>)
qed

end


lemma resolve_some:
  assumes "resolveTierSizing C request policy = Inr r" and "tz_sizing r = Some v"
  obtains account proposal conversion tiers exposure where
    "sq_accountSnapshot request = Some account" "sq_entryStopProposal request = Some proposal"
    "sq_settlementRateSnapshot request = Some conversion" "sq_leverageTierSnapshot request = Some tiers"
    "sq_exposureSnapshot request = Some exposure" and "sq_action request = OPEN_ACTION"
    and "requestReasons C request policy = Inr []"
    and "size_request C request policy account proposal conversion tiers exposure = Inr r"
proof -
  have u: "resolveTierSizingUnchecked C request policy = Inr r"
    using assms by (auto simp: resolveTierSizing_def caught_def unsized_def split: sum.splits if_splits)
  have act: "sq_action request = OPEN_ACTION"
    using u assms(2) by (auto simp: resolveTierSizingUnchecked_def Let_def unsized_def split: if_splits)
  obtain reasons where q: "requestReasons C request policy = Inr reasons"
    and n: "(if reasons \<noteq> [] then Inr (unsized reasons (riskCapsForRequest request policy))
        else case (sq_accountSnapshot request, sq_entryStopProposal request, sq_settlementRateSnapshot request,
                   sq_leverageTierSnapshot request, sq_exposureSnapshot request) of
            (Some account, Some proposal, Some conversion, Some tiers, Some exposure) \<Rightarrow>
              size_request C request policy account proposal conversion tiers exposure
          | _ \<Rightarrow> Inr (unsized reasons (riskCapsForRequest request policy))) = Inr r"
    using u act unfolding resolveTierSizingUnchecked_def Let_def by (auto elim: rbindE)
  have e: "reasons = []" using n assms(2) by (auto simp: unsized_def split: if_splits)
  show thesis
    using n assms(2) that[OF _ _ _ _ _ act] q unfolding e
    by (auto simp: unsized_def split: option.splits)
qed

context risk_arith
begin

lemma sized_within_limits:
  assumes t: "sizing_texts request policy" and run: "resolveTierSizing C request policy = Inr r" and some: "tz_sizing r = Some v"
  shows "\<exists>account proposal conversion tiers exposure k tier.
      sq_accountSnapshot request = Some account \<and> sq_entryStopProposal request = Some proposal
    \<and> sq_settlementRateSnapshot request = Some conversion \<and> sq_leverageTierSnapshot request = Some tiers
    \<and> sq_exposureSnapshot request = Some exposure \<and> ex_pending exposure = KNOWN k \<and> tier \<in> set (ts_tiers tiers)
    \<and> trade_numbers_exact request proposal conversion v \<and> quantity_admissible request v
    \<and> risk_within request policy account v \<and> exposure_within request policy exposure k v
    \<and> leverage_within request policy account tier v \<and> tier_covers tier (text_value (sv_finalNotionalUsdt v))"
proof -
  obtain account proposal conversion tiers exposure where
    s: "sq_accountSnapshot request = Some account" "sq_entryStopProposal request = Some proposal"
      "sq_settlementRateSnapshot request = Some conversion" "sq_leverageTierSnapshot request = Some tiers"
      "sq_exposureSnapshot request = Some exposure"
    and z: "size_request C request policy account proposal conversion tiers exposure = Inr r"
    by (rule resolve_some[OF run some])
  have pt: "policy_texts policy" "pair_texts (sq_pairSnapshot request)"
    and lp: "option_all (\<lambda>l. optional_text (lp_requestedLeverage l)) (sq_leverageProposal request)"
    and ov: "option_all override_texts (sq_override request)"
    and a: "account_texts account" and e: "signed_text (es_entryPriceUsdt proposal)" "signed_text (es_stopPriceUsdt proposal)"
    and rt: "signed_text (st_rateInrPerUsdt conversion)" and x: "exposure_texts exposure"
    and tt: "list_all tier_texts (ts_tiers tiers)"
    using t s by (simp_all add: sizing_texts_def)
  obtain b where st: "size_tiers C request policy account tiers b = Inr r" and b: "basis_ok b"
    and h: "exposureHeadroom D exposure (sq_candidate request) policy = Some (sb_headroom b)"
    and bv: "sb_unitNotionalUsdt b = text_value (es_entryPriceUsdt proposal) * text_value (ps_contractMultiplier (sq_pairSnapshot request))"
      "sb_rate b = text_value (st_rateInrPerUsdt conversion)"
      "sb_riskBudget b = text_value (ac_currentEquityInr account)
        * text_value (override_or ov_overrideRiskPerTradePercent (sq_override request) (mc_riskPerTradePercent (rp_modeConfig policy))) / 100"
      "sb_perUnitLossInr b = \<bar>text_value (es_entryPriceUsdt proposal) - text_value (es_stopPriceUsdt proposal)\<bar>
        * text_value (ps_contractMultiplier (sq_pairSnapshot request)) * text_value (st_rateInrPerUsdt conversion)"
      "sb_quantityIncrement b = text_value (ps_quantityIncrement (sq_pairSnapshot request))"
      "sb_maxNotionalInr b = text_value (override_or ov_overrideMaxNotionalInr (sq_override request)
        (mc_maxNotionalPerTradeInr (rp_modeConfig policy)))"
    by (rule size_request_basis[OF t a e rt x z some])
  obtain tier f where tier: "tier \<in> set (ts_tiers tiers)" and f: "try_tier C request policy account b tier = Inr (Inr f)"
    and sv: "sized_values C b f = Inr (Some v)"
    by (rule size_tiers_some[OF st some])
  have tx: "tier_texts tier" using tt tier by (simp add: list_all_iff)
  note lev = finalLeverage_bounds[OF pt(1) a tx lp ov]
  note q = try_tier_size[OF b pt(2) a tx lev(1) f]
  have fl: "decimal_fraction (fz_leverage f)" using q(2) lev(1) by simp
  note w = sized_values_exact[OF q(1) fl b sv]
  obtain k where k: "ex_pending exposure = KNOWN k"
    and hv: "text_value (hr_globalInr (sb_headroom b)) = globalCap D policy - text_value (ex_globalOpenNotionalInr exposure)
        - text_value (kp_globalPendingNotionalInr k)"
      "text_value (hr_pairInr (sb_headroom b)) = pairCap D policy
        - text_value (mapValue (ex_perPairOpenNotionalInr exposure) (cd_pair (sq_candidate request)))
        - text_value (mapValue (kp_pairPendingNotionalInr k) (cd_pair (sq_candidate request)))"
      "text_value (hr_strategyInr (sb_headroom b)) = text_value (mc_maxStrategyExposureInr (rp_modeConfig policy))
        - text_value (mapValue (ex_perStrategyOpenNotionalInr exposure) (sd_strategyId (cd_strategyDecision (sq_candidate request))))
        - text_value (mapValue (kp_strategyPendingNotionalInr k) (sd_strategyId (cd_strategyDecision (sq_candidate request))))"
    by (rule headroom_exact[OF x pt(1) h])
  have n: "trade_numbers_exact request proposal conversion v"
    unfolding trade_numbers_exact_def Let_def
  proof (intro conjI)
    show "text_value (sv_finalNotionalUsdt v) = text_value (sv_finalQuantity v) * text_value (es_entryPriceUsdt proposal)
        * text_value (ps_contractMultiplier (sq_pairSnapshot request))"
      by (simp only: w(1,3) bv(1) mult.assoc)
    show "text_value (sv_finalNotionalInr v) = text_value (sv_finalNotionalUsdt v) * text_value (st_rateInrPerUsdt conversion)"
      by (simp only: w(3,4) bv(2))
    show "text_value (sv_estimatedStopLossRiskInr v) = text_value (sv_finalQuantity v)
        * \<bar>text_value (es_entryPriceUsdt proposal) - text_value (es_stopPriceUsdt proposal)\<bar>
        * text_value (ps_contractMultiplier (sq_pairSnapshot request)) * text_value (st_rateInrPerUsdt conversion)"
      by (simp only: w(1,5) bv(4) mult.assoc)
    show "text_value (sv_finalNotionalInr v) / text_value (sv_finalLeverage v) \<le> text_value (sv_estimatedInitialMarginInr v)"
      using w(8) by (simp only: w(2,4))
    show "text_value (sv_finalNotionalUsdt v) / text_value (sv_finalLeverage v) \<le> text_value (sv_estimatedInitialMarginUsdt v)"
      using w(7) by (simp only: w(2,3))
  qed
  have qa: "quantity_admissible request v"
    unfolding quantity_admissible_def Let_def w(1,3) using q(3)[unfolded bv(5)] q(4-8) by simp
  have rw: "risk_within request policy account v"
    unfolding risk_within_def Let_def w(2,4,5) using w(6) q(9,13) by (simp only: bv(3,6) simp_thms)
  have ew: "exposure_within request policy exposure k v"
    unfolding exposure_within_def Let_def w(4) using q(10,11,12) by (simp only: hv caps_exact[OF pt(1)]) linarith
  have lw: "leverage_within request policy account tier v"
    unfolding leverage_within_def Let_def w(2) q(2) using lev(2-8) by blast
  have tc: "tier_covers tier (text_value (sv_finalNotionalUsdt v))" using q(15) by (simp only: w(3))
  show ?thesis using s k tier n qa rw ew lw tc by blast
qed

end

text \<open>C8. Whatever size the tier sizing returns keeps within every limit, exactly: the notional, the loss at the
  stop and the margin are the products they stand for (margins rounded up), the quantity is a multiple of the
  increment between the instrument's bounds, the loss at the stop is at most the risk percentage of the
  equity, the notional fits the available margin times the leverage and, on top of what is open and pending, the
  global, pair and strategy caps, and the leverage is at most that of the tier the notional falls into and every other cap.\<close>

theorem sizing_respects_limits:
  assumes "risk_arith C" and "sizing_texts request policy"
    and "resolveTierSizing C request policy = Inr r" and "tz_sizing r = Some v"
  shows "\<exists>account proposal conversion tiers exposure k tier.
      sq_accountSnapshot request = Some account \<and> sq_entryStopProposal request = Some proposal
    \<and> sq_settlementRateSnapshot request = Some conversion \<and> sq_leverageTierSnapshot request = Some tiers
    \<and> sq_exposureSnapshot request = Some exposure \<and> ex_pending exposure = KNOWN k \<and> tier \<in> set (ts_tiers tiers)
    \<and> trade_numbers_exact request proposal conversion v \<and> quantity_admissible request v
    \<and> risk_within request policy account v \<and> exposure_within request policy exposure k v
    \<and> leverage_within request policy account tier v \<and> tier_covers tier (text_value (sv_finalNotionalUsdt v))"
  by (rule risk_arith.sized_within_limits[OF assms])

end
