(* ===== verification/Risk_Validation.thy ===== *)
theory Risk_Validation
  imports Risk_Policy Risk_Sizing
begin

section \<open>Taking the input of an evaluation\<close>

text \<open>
  \<^verbatim>\<open>src/risk/validation.ts\<close> and the assertions of \<^verbatim>\<open>src/risk/canonical.ts\<close>: every part of the input is checked and
  its decimals are rewritten in canonical form. That a part is an object with exactly its keys, a boolean, an
  array, is the type of the records; what is left is modelled, one function per function of the file. Each
  function is a normalizer: what it returns satisfies a predicate, and what satisfies the predicate it returns
  unchanged. The interface is the locale \<open>normalizer\<close>, interpreted on each of them.
\<close>

subsection \<open>Normalizers\<close>

text \<open>A field that may be null.\<close>

definition nullableR :: "('a \<Rightarrow> ('e, 'b) res) \<Rightarrow> 'a option \<Rightarrow> ('e, 'b option) res" where
  "nullableR f v = (case v of None \<Rightarrow> Inr None | Some x \<Rightarrow> rbind (f x) (\<lambda>y. Inr (Some y)))"

locale normalizer =
  fixes f :: "'a \<Rightarrow> ('e, 'a) res" and ok :: "'a \<Rightarrow> bool"
  assumes result: "f x = Inr y \<Longrightarrow> ok y"
    and fixpoint: "ok y \<Longrightarrow> f y = Inr y"
begin

lemma idempotent: "f x = Inr y \<Longrightarrow> f y = Inr y"
  using result fixpoint by blast

lemma range: "(\<exists>x. f x = Inr y) \<longleftrightarrow> ok y"
  using result fixpoint by blast

lemma list_result: "mapR f xs = Inr ys \<Longrightarrow> list_all ok ys"
  by (induction xs arbitrary: ys) (auto simp: rbind_eq_Inr dest: result)

lemma list_fixpoint: "list_all ok ys \<Longrightarrow> mapR f ys = Inr ys"
  by (induction ys) (auto simp: fixpoint)

lemma nullable_result: "nullableR f x = Inr y \<Longrightarrow> option_all ok y"
  by (cases x) (auto simp: nullableR_def rbind_eq_Inr dest: result)

lemma nullable_fixpoint: "option_all ok y \<Longrightarrow> nullableR f y = Inr y"
  by (cases y) (simp_all add: nullableR_def fixpoint)

end

subsection \<open>Single fields\<close>

definition assertString :: "string \<Rightarrow> (risk_error, string) res" where
  "assertString s = (if s = [] \<or> trim s \<noteq> s then Inl RISK_SOURCE_INVALID else Inr s)"

definition assertSafeInteger :: "int \<Rightarrow> int \<Rightarrow> (risk_error, int) res" where
  "assertSafeInteger least n = (if \<not> isSafeInteger n \<or> n < least then Inl RISK_SOURCE_INVALID else Inr n)"

definition assertSha :: "string \<Rightarrow> (risk_error, string) res" where
  "assertSha s = (if is_sha256 s then Inr s else Inl RISK_SOURCE_INVALID)"

definition safe_count :: "int \<Rightarrow> int \<Rightarrow> bool" where
  "safe_count least n \<longleftrightarrow> isSafeInteger n \<and> least \<le> n"

interpretation exact: normalizer assertString good_string
  by unfold_locales (auto simp: assertString_def good_string_def split: if_splits)

interpretation safe: normalizer "assertSafeInteger least" "safe_count least" for least
  by unfold_locales (auto simp: assertSafeInteger_def safe_count_def split: if_splits)

interpretation digest: normalizer assertSha is_sha256
  by unfold_locales (auto simp: assertSha_def split: if_splits)

lemma canonicalDecimalString_normal: "canonicalDecimalString v = Inr w \<Longrightarrow> normal_text w"
proof -
  assume a: "canonicalDecimalString v = Inr w"
  have "signed_text v"
  proof (rule ccontr)
    assume "\<not> signed_text v"
    then show False using a by (simp add: canonicalDecimalString_def)
  qed
  then show "normal_text w" using a normalize_text_normal[of v] by (simp add: canonicalDecimalString_signed)
qed

interpretation dec: normalizer canonicalDecimalString normal_text
  by unfold_locales (simp_all add: canonicalDecimalString_normal canonicalDecimalString_signed normal_signed_text normalize_normal)

text \<open>A record of decimals: its keys in order.\<close>

definition decimal_member :: "string \<times> string \<Rightarrow> (risk_error, string \<times> string) res" where
  "decimal_member kv = (case kv of (k, v) \<Rightarrow>
     rbind (assertString k) (\<lambda>k. rbind (canonicalDecimalString v) (\<lambda>d. Inr (k, d))))"

definition decimalRecord :: "(string \<times> string) list \<Rightarrow> (risk_error, (string \<times> string) list) res" where
  "decimalRecord m = mapR decimal_member (sort_key fst m)"

definition member_ok :: "string \<times> string \<Rightarrow> bool" where
  "member_ok kv \<longleftrightarrow> good_string (fst kv) \<and> normal_text (snd kv)"

definition record_ok :: "(string \<times> string) list \<Rightarrow> bool" where
  "record_ok m \<longleftrightarrow> sorted (map fst m) \<and> list_all member_ok m"

interpretation member: normalizer decimal_member member_ok
  by unfold_locales
    (auto simp: decimal_member_def member_ok_def rbind_eq_Inr exact.result dec.result exact.fixpoint dec.fixpoint split: prod.splits)

lemma decimal_members_keys: "mapR decimal_member m = Inr n \<Longrightarrow> map fst n = map fst m"
  by (induction m arbitrary: n) (auto simp: rbind_eq_Inr decimal_member_def assertString_def split: prod.splits if_splits)

interpretation drecord: normalizer decimalRecord record_ok
proof
  fix x y
  show "decimalRecord x = Inr y \<Longrightarrow> record_ok y"
    unfolding decimalRecord_def record_ok_def
    using member.list_result decimal_members_keys by (metis sorted_sort_key)
  show "record_ok y \<Longrightarrow> decimalRecord y = Inr y"
    unfolding decimalRecord_def record_ok_def using member.list_fixpoint by (simp add: sort_key_id_if_sorted)
qed

abbreviation nullableString :: "string option \<Rightarrow> (risk_error, string option) res" where
  "nullableString \<equiv> nullableR assertString"

abbreviation nullableTime :: "int option \<Rightarrow> (risk_error, int option) res" where
  "nullableTime \<equiv> nullableR (assertSafeInteger 0)"

abbreviation nullableDecimal :: "string option \<Rightarrow> (risk_error, string option) res" where
  "nullableDecimal \<equiv> nullableR canonicalDecimalString"

abbreviation stringArray :: "string list \<Rightarrow> (risk_error, string list) res" where
  "stringArray \<equiv> mapR assertString"

lemmas field_result = exact.result safe.result digest.result dec.result drecord.result exact.nullable_result safe.nullable_result
  dec.nullable_result exact.list_result

lemmas field_fixpoint = exact.fixpoint safe.fixpoint digest.fixpoint dec.fixpoint drecord.fixpoint exact.nullable_fixpoint
  safe.nullable_fixpoint dec.nullable_fixpoint exact.list_fixpoint

subsection \<open>Provenance, the decision and its candidate\<close>

definition provenanceV :: "provenance \<Rightarrow> (risk_error, provenance) res" where
  "provenanceV p =
     rbind (assertString (pv_sourceId p)) (\<lambda>sourceId.
     rbind (assertSafeInteger 0 (pv_observedAtMs p)) (\<lambda>observedAtMs.
     rbind (nullableTime (pv_sourceTimeMs p)) (\<lambda>sourceTimeMs.
     rbind (assertSha (pv_contentSha256 p)) (\<lambda>contentSha256.
       Inr \<lparr>pv_sourceId = sourceId, pv_sourceTimeMs = sourceTimeMs, pv_observedAtMs = observedAtMs,
            pv_contentSha256 = contentSha256\<rparr>))))"

definition provenance_ok :: "provenance \<Rightarrow> bool" where
  "provenance_ok p \<longleftrightarrow> good_string (pv_sourceId p) \<and> safe_count 0 (pv_observedAtMs p)
     \<and> option_all (safe_count 0) (pv_sourceTimeMs p) \<and> is_sha256 (pv_contentSha256 p)"

interpretation prov: normalizer provenanceV provenance_ok
proof
  fix x y
  show "provenanceV x = Inr y \<Longrightarrow> provenance_ok y"
    unfolding provenanceV_def by (elim rbindE) (clarsimp simp: provenance_ok_def field_result)
  show "provenance_ok y \<Longrightarrow> provenanceV y = Inr y"
    by (simp add: provenanceV_def provenance_ok_def field_fixpoint)
qed

definition strategyDecisionV :: "strategy_decision \<Rightarrow> (risk_error, strategy_decision) res" where
  "strategyDecisionV d =
     rbind (assertSha (sd_decisionId d)) (\<lambda>_.
     rbind (assertSha (sd_parameterHash d)) (\<lambda>_.
     rbind (assertSafeInteger 1 (sd_decisionSequence d)) (\<lambda>_.
     rbind (assertSafeInteger 0 (sd_evaluationTimeMs d)) (\<lambda>_.
     rbind (assertSafeInteger 1 (sd_triggerTimeframeMinutes d)) (\<lambda>_.
     rbind (stringArray [sd_strategyInstanceId d, sd_strategyId d, sd_strategyVersion d, sd_pair d]) (\<lambda>_.
       if (sd_status d = WARMING) \<noteq> (sd_targetExposure d = None) then Inl RISK_SOURCE_INVALID
       else rbind (stringArray (sd_reasonCodes d)) (\<lambda>codes. Inr (d\<lparr>sd_reasonCodes := codes\<rparr>))))))))"

definition strategy_decision_ok :: "strategy_decision \<Rightarrow> bool" where
  "strategy_decision_ok d \<longleftrightarrow> is_sha256 (sd_decisionId d) \<and> is_sha256 (sd_parameterHash d) \<and> safe_count 1 (sd_decisionSequence d)
     \<and> safe_count 0 (sd_evaluationTimeMs d) \<and> safe_count 1 (sd_triggerTimeframeMinutes d)
     \<and> list_all good_string [sd_strategyInstanceId d, sd_strategyId d, sd_strategyVersion d, sd_pair d]
     \<and> (sd_status d = WARMING \<longleftrightarrow> sd_targetExposure d = None) \<and> list_all good_string (sd_reasonCodes d)"

lemma field_same:
  "assertString s = Inr t \<longleftrightarrow> t = s \<and> good_string s"
  "assertSha s = Inr t \<longleftrightarrow> t = s \<and> is_sha256 s"
  "assertSafeInteger m n = Inr k \<longleftrightarrow> k = n \<and> safe_count m n"
  by (auto simp: assertString_def good_string_def assertSha_def assertSafeInteger_def safe_count_def)

lemma stringArray_same: "stringArray s = Inr t \<longleftrightarrow> t = s \<and> list_all good_string s"
  by (induction s arbitrary: t) (auto simp: rbind_eq_Inr field_same)

interpretation sdec: normalizer strategyDecisionV strategy_decision_ok
proof
  fix x y
  show "strategyDecisionV x = Inr y \<Longrightarrow> strategy_decision_ok y"
    unfolding strategyDecisionV_def
    by (elim rbindE) (auto simp: strategy_decision_ok_def field_same stringArray_same rbind_eq_Inr split: if_splits)
  show "strategy_decision_ok y \<Longrightarrow> strategyDecisionV y = Inr y"
    unfolding strategyDecisionV_def strategy_decision_ok_def
    by (elim conjE) (simp only: digest.fixpoint safe.fixpoint exact.list_fixpoint rbind_Inr if_False simp_thms, simp)
qed

text \<open>The parameters have to be an object the serializer of the strategies takes.\<close>

definition strategyCanonicalJson :: "json \<Rightarrow> (risk_error, string) res" where
  "strategyCanonicalJson v =
     (if has_decimal v then Inl StrategyError
      else case canonicalJson v of Inl _ \<Rightarrow> Inl StrategyError | Inr t \<Rightarrow> Inr t)"

definition parametersV :: "json \<Rightarrow> (risk_error, json) res" where
  "parametersV v =
     (case v of
        JObject _ \<Rightarrow> (case strategyCanonicalJson v of Inl _ \<Rightarrow> Inl RISK_SOURCE_INVALID | Inr _ \<Rightarrow> Inr v)
      | _ \<Rightarrow> Inl RISK_SOURCE_INVALID)"

definition parameters_ok :: "json \<Rightarrow> bool" where
  "parameters_ok v \<longleftrightarrow> (case v of JObject _ \<Rightarrow> json_supported v \<and> \<not> has_decimal v | _ \<Rightarrow> False)"

lemma strategyCanonicalJson_ok: "is_ok (strategyCanonicalJson v) \<longleftrightarrow> json_supported v \<and> \<not> has_decimal v"
  using canonicalJson_eq_Inr[of v "raw_text (json_norm v)"] canonicalJson_eq_Inr[of v]
  by (cases "canonicalJson v") (auto simp: strategyCanonicalJson_def)

interpretation params: normalizer parametersV parameters_ok
proof
  fix x y
  show "parametersV x = Inr y \<Longrightarrow> parameters_ok y"
    using strategyCanonicalJson_ok[of x]
    by (cases x) (auto simp: parametersV_def parameters_ok_def split: sum.splits)
  show "parameters_ok y \<Longrightarrow> parametersV y = Inr y"
    using strategyCanonicalJson_ok[of y]
    by (cases y) (auto simp: parametersV_def parameters_ok_def is_ok_iff)
qed

definition bootstrapV :: "bootstrap_entry \<Rightarrow> (risk_error, bootstrap_entry) res" where
  "bootstrapV e =
     rbind (assertSafeInteger 1 (be_timeframeMinutes e)) (\<lambda>t.
     rbind (assertSafeInteger 0 (be_bootstrapStartOpenTimeMs e)) (\<lambda>s.
       Inr \<lparr>be_timeframeMinutes = t, be_bootstrapStartOpenTimeMs = s\<rparr>))"

definition bootstrap_ok :: "bootstrap_entry \<Rightarrow> bool" where
  "bootstrap_ok e \<longleftrightarrow> safe_count 1 (be_timeframeMinutes e) \<and> safe_count 0 (be_bootstrapStartOpenTimeMs e)"

interpretation boot: normalizer bootstrapV bootstrap_ok
  by unfold_locales (auto simp: bootstrapV_def bootstrap_ok_def rbind_eq_Inr field_same)

definition candidateV :: "strategy_candidate \<Rightarrow> (risk_error, strategy_candidate) res" where
  "candidateV c =
     rbind (assertString (cd_pair c)) (\<lambda>pair.
     rbind (assertString (cd_instrumentSpecSnapshotId c)) (\<lambda>spec.
     rbind (parametersV (sl_normalizedParameters (cd_strategyLineage c))) (\<lambda>parameters.
     rbind (mapR bootstrapV (sl_indicatorBootstrapIdentity (cd_strategyLineage c))) (\<lambda>entries.
     rbind (strategyDecisionV (cd_strategyDecision c)) (\<lambda>decision.
       Inr \<lparr>cd_strategyDecision = decision,
            cd_strategyLineage = \<lparr>sl_normalizedParameters = parameters,
              sl_indicatorBootstrapIdentity = sort_key be_timeframeMinutes entries\<rparr>,
            cd_pair = pair, cd_instrumentSpecSnapshotId = spec\<rparr>)))))"

definition candidate_ok :: "strategy_candidate \<Rightarrow> bool" where
  "candidate_ok c \<longleftrightarrow> good_string (cd_pair c) \<and> good_string (cd_instrumentSpecSnapshotId c)
     \<and> parameters_ok (sl_normalizedParameters (cd_strategyLineage c))
     \<and> list_all bootstrap_ok (sl_indicatorBootstrapIdentity (cd_strategyLineage c))
     \<and> sorted (map be_timeframeMinutes (sl_indicatorBootstrapIdentity (cd_strategyLineage c)))
     \<and> strategy_decision_ok (cd_strategyDecision c)"

interpretation cand: normalizer candidateV candidate_ok
proof
  fix x y
  have s: "list_all bootstrap_ok (sort_key be_timeframeMinutes es) \<longleftrightarrow> list_all bootstrap_ok es" for es
    by (simp add: list_all_iff)
  show "candidateV x = Inr y \<Longrightarrow> candidate_ok y"
    unfolding candidateV_def
    by (elim rbindE) (clarsimp simp: candidate_ok_def exact.result params.result boot.list_result sdec.result s)
  show "candidate_ok y \<Longrightarrow> candidateV y = Inr y"
    by (simp add: candidateV_def candidate_ok_def exact.fixpoint params.fixpoint boot.list_fixpoint sdec.fixpoint
        sort_key_id_if_sorted)
qed

subsection \<open>Proposals\<close>

definition entryStopV :: "entry_stop \<Rightarrow> (risk_error, entry_stop) res" where
  "entryStopV e =
     rbind (stringArray [es_proposalId e, es_proposalPolicyId e, es_sourceStrategyDecisionId e, es_pair e]) (\<lambda>_.
     rbind (canonicalDecimalString (es_entryPriceUsdt e)) (\<lambda>entryPriceUsdt.
     rbind (canonicalDecimalString (es_stopPriceUsdt e)) (\<lambda>stopPriceUsdt.
     rbind (provenanceV (es_provenance e)) (\<lambda>prov.
       Inr (e\<lparr>es_entryPriceUsdt := entryPriceUsdt, es_stopPriceUsdt := stopPriceUsdt, es_provenance := prov\<rparr>)))))"

definition entry_stop_ok :: "entry_stop \<Rightarrow> bool" where
  "entry_stop_ok e \<longleftrightarrow> list_all good_string [es_proposalId e, es_proposalPolicyId e, es_sourceStrategyDecisionId e, es_pair e]
     \<and> normal_text (es_entryPriceUsdt e) \<and> normal_text (es_stopPriceUsdt e) \<and> provenance_ok (es_provenance e)"

interpretation entry: normalizer entryStopV entry_stop_ok
proof
  fix x y
  show "entryStopV x = Inr y \<Longrightarrow> entry_stop_ok y"
    unfolding entryStopV_def
    by (elim rbindE) (clarsimp simp: entry_stop_ok_def stringArray_same dec.result prov.result simp del: mapR.simps)
  show "entry_stop_ok y \<Longrightarrow> entryStopV y = Inr y"
    unfolding entryStopV_def entry_stop_ok_def
    by (elim conjE) (simp only: exact.list_fixpoint dec.fixpoint prov.fixpoint rbind_Inr, simp)
qed

definition leverageV :: "leverage_proposal \<Rightarrow> (risk_error, leverage_proposal) res" where
  "leverageV l =
     rbind (stringArray [lp_proposalId l, lp_proposalPolicyId l, lp_sourceStrategyDecisionId l]) (\<lambda>_.
     rbind (nullableDecimal (lp_requestedLeverage l)) (\<lambda>requested. Inr (l\<lparr>lp_requestedLeverage := requested\<rparr>)))"

definition leverage_ok :: "leverage_proposal \<Rightarrow> bool" where
  "leverage_ok l \<longleftrightarrow> list_all good_string [lp_proposalId l, lp_proposalPolicyId l, lp_sourceStrategyDecisionId l]
     \<and> option_all normal_text (lp_requestedLeverage l)"

interpretation lever: normalizer leverageV leverage_ok
proof
  fix x y
  show "leverageV x = Inr y \<Longrightarrow> leverage_ok y"
    unfolding leverageV_def by (elim rbindE) (clarsimp simp: leverage_ok_def stringArray_same dec.nullable_result simp del: mapR.simps)
  show "leverage_ok y \<Longrightarrow> leverageV y = Inr y"
    unfolding leverageV_def leverage_ok_def
    by (elim conjE) (simp only: exact.list_fixpoint dec.nullable_fixpoint rbind_Inr, simp)
qed

subsection \<open>The pair\<close>

definition ownershipRecordV :: "ownership_record \<Rightarrow> (risk_error, ownership_record) res" where
  "ownershipRecordV r =
     rbind (stringArray [ow_strategyInstanceId r, ow_strategyId r, ow_strategyVersion r, ow_parameterHash r]) (\<lambda>_.
     rbind (canonicalDecimalString (ow_currentQuantity r)) (\<lambda>quantity.
     rbind (canonicalDecimalString (ow_currentNotionalInr r)) (\<lambda>notional.
       Inr (r\<lparr>ow_currentQuantity := quantity, ow_currentNotionalInr := notional\<rparr>))))"

definition ownership_record_ok :: "ownership_record \<Rightarrow> bool" where
  "ownership_record_ok r \<longleftrightarrow>
     list_all good_string [ow_strategyInstanceId r, ow_strategyId r, ow_strategyVersion r, ow_parameterHash r]
     \<and> normal_text (ow_currentQuantity r) \<and> normal_text (ow_currentNotionalInr r)"

interpretation owner: normalizer ownershipRecordV ownership_record_ok
proof
  fix x y
  show "ownershipRecordV x = Inr y \<Longrightarrow> ownership_record_ok y"
    unfolding ownershipRecordV_def by (elim rbindE) (clarsimp simp: ownership_record_ok_def stringArray_same dec.result simp del: mapR.simps)
  show "ownership_record_ok y \<Longrightarrow> ownershipRecordV y = Inr y"
    unfolding ownershipRecordV_def ownership_record_ok_def
    by (elim conjE) (simp only: exact.list_fixpoint dec.fixpoint rbind_Inr, simp)
qed

fun ownershipV :: "position_ownership \<Rightarrow> (risk_error, position_ownership) res" where
  "ownershipV UNRECONCILED = Inr UNRECONCILED"
| "ownershipV (RECONCILED_FLAT account pair) =
     rbind (assertString account) (\<lambda>account. rbind (assertString pair) (\<lambda>pair. Inr (RECONCILED_FLAT account pair)))"
| "ownershipV (RECONCILED_OPEN account pair positionId records) =
     rbind (assertString account) (\<lambda>account. rbind (assertString pair) (\<lambda>pair. rbind (assertString positionId) (\<lambda>positionId.
     rbind (mapR ownershipRecordV records) (\<lambda>records. Inr (RECONCILED_OPEN account pair positionId records)))))"

fun ownership_ok :: "position_ownership \<Rightarrow> bool" where
  "ownership_ok UNRECONCILED \<longleftrightarrow> True"
| "ownership_ok (RECONCILED_FLAT account pair) \<longleftrightarrow> good_string account \<and> good_string pair"
| "ownership_ok (RECONCILED_OPEN account pair positionId records) \<longleftrightarrow>
     good_string account \<and> good_string pair \<and> good_string positionId \<and> list_all ownership_record_ok records"

interpretation owners: normalizer ownershipV ownership_ok
proof
  fix x y
  show "ownershipV x = Inr y \<Longrightarrow> ownership_ok y"
    by (cases x) (auto simp: rbind_eq_Inr field_same owner.list_result)
  show "ownership_ok y \<Longrightarrow> ownershipV y = Inr y"
    by (cases y) (simp_all add: exact.fixpoint owner.list_fixpoint)
qed

definition valuationV :: "position_valuation \<Rightarrow> (risk_error, position_valuation) res" where
  "valuationV v =
     rbind (stringArray [vl_valuationMethodVersion v, vl_valuationPriceField v, vl_valuationPriceSourceId v, vl_conversionMarket v,
              vl_conversionSourceId v]) (\<lambda>_.
     rbind (assertSafeInteger 0 (vl_valuationPriceObservedAtMs v)) (\<lambda>_.
     rbind (canonicalDecimalString (vl_valuationPriceUsdt v)) (\<lambda>price.
     rbind (nullableTime (vl_valuationPriceSourceTimeMs v)) (\<lambda>sourceTime.
     rbind (canonicalDecimalString (vl_contractMultiplier v)) (\<lambda>multiplier.
     rbind (canonicalDecimalString (vl_conversionRateInrPerUsdt v)) (\<lambda>rate.
     rbind (canonicalDecimalString (vl_unitValuationInrPerQty v)) (\<lambda>unit.
     rbind (canonicalDecimalString (vl_aggregateCurrentNotionalInr v)) (\<lambda>aggregate.
       Inr (v\<lparr>vl_valuationPriceUsdt := price, vl_valuationPriceSourceTimeMs := sourceTime, vl_contractMultiplier := multiplier,
              vl_conversionRateInrPerUsdt := rate, vl_unitValuationInrPerQty := unit,
              vl_aggregateCurrentNotionalInr := aggregate\<rparr>)))))))))"

definition valuation_fields_ok :: "position_valuation \<Rightarrow> bool" where
  "valuation_fields_ok v \<longleftrightarrow>
     list_all good_string [vl_valuationMethodVersion v, vl_valuationPriceField v, vl_valuationPriceSourceId v, vl_conversionMarket v,
       vl_conversionSourceId v]
     \<and> safe_count 0 (vl_valuationPriceObservedAtMs v) \<and> option_all (safe_count 0) (vl_valuationPriceSourceTimeMs v)
     \<and> normal_text (vl_valuationPriceUsdt v) \<and> normal_text (vl_contractMultiplier v) \<and> normal_text (vl_conversionRateInrPerUsdt v)
     \<and> normal_text (vl_unitValuationInrPerQty v) \<and> normal_text (vl_aggregateCurrentNotionalInr v)"

interpretation val: normalizer valuationV valuation_fields_ok
proof
  fix x y
  show "valuationV x = Inr y \<Longrightarrow> valuation_fields_ok y"
    unfolding valuationV_def
    by (elim rbindE) (clarsimp simp: valuation_fields_ok_def stringArray_same field_same dec.result safe.nullable_result simp del: mapR.simps)
  show "valuation_fields_ok y \<Longrightarrow> valuationV y = Inr y"
    unfolding valuationV_def valuation_fields_ok_def
    by (elim conjE) (simp only: exact.list_fixpoint safe.fixpoint safe.nullable_fixpoint dec.fixpoint rbind_Inr, simp)
qed

definition positionV :: "pair_position \<Rightarrow> (risk_error, pair_position) res" where
  "positionV p =
     (case p of
        POSITION_FLAT \<Rightarrow> Inr POSITION_FLAT
      | POSITION_OPEN w \<Rightarrow>
          rbind (assertString (op_positionId w)) (\<lambda>_.
          rbind (canonicalDecimalString (op_quantityMagnitude w)) (\<lambda>quantity.
          rbind (nullableR valuationV (op_valuation w)) (\<lambda>v.
            Inr (POSITION_OPEN (w\<lparr>op_quantityMagnitude := quantity, op_valuation := v\<rparr>))))))"

definition position_ok :: "pair_position \<Rightarrow> bool" where
  "position_ok p \<longleftrightarrow>
     (case p of
        POSITION_FLAT \<Rightarrow> True
      | POSITION_OPEN w \<Rightarrow> good_string (op_positionId w) \<and> normal_text (op_quantityMagnitude w)
          \<and> option_all valuation_fields_ok (op_valuation w))"

interpretation pos: normalizer positionV position_ok
proof
  fix x y
  show "positionV x = Inr y \<Longrightarrow> position_ok y"
    by (cases x) (auto simp: positionV_def position_ok_def rbind_eq_Inr field_same dec.result val.nullable_result)
  show "position_ok y \<Longrightarrow> positionV y = Inr y"
    by (cases y) (simp_all add: positionV_def position_ok_def exact.fixpoint dec.fixpoint val.nullable_fixpoint)
qed

definition pairSnapshotV :: "pair_snapshot \<Rightarrow> (risk_error, pair_snapshot) res" where
  "pairSnapshotV p =
     rbind (stringArray [ps_pair p, ps_instrumentSpecSnapshotId p, ps_status p]) (\<lambda>_.
     rbind (canonicalDecimalString (ps_priceIncrement p)) (\<lambda>priceIncrement.
     rbind (canonicalDecimalString (ps_quantityIncrement p)) (\<lambda>quantityIncrement.
     rbind (canonicalDecimalString (ps_minPrice p)) (\<lambda>minPrice.
     rbind (canonicalDecimalString (ps_maxPrice p)) (\<lambda>maxPrice.
     rbind (canonicalDecimalString (ps_minQuantity p)) (\<lambda>minQuantity.
     rbind (canonicalDecimalString (ps_maxQuantity p)) (\<lambda>maxQuantity.
     rbind (canonicalDecimalString (ps_minTradeSize p)) (\<lambda>minTradeSize.
     rbind (canonicalDecimalString (ps_minNotional p)) (\<lambda>minNotional.
     rbind (nullableDecimal (ps_maxNotional p)) (\<lambda>maxNotional.
     rbind (canonicalDecimalString (ps_contractMultiplier p)) (\<lambda>contractMultiplier.
     rbind (positionV (ps_position p)) (\<lambda>position.
     rbind (ownershipV (ps_ownership p)) (\<lambda>ownership.
     rbind (provenanceV (ps_provenance p)) (\<lambda>prov.
       Inr (p\<lparr>ps_priceIncrement := priceIncrement, ps_quantityIncrement := quantityIncrement, ps_minPrice := minPrice,
              ps_maxPrice := maxPrice, ps_minQuantity := minQuantity, ps_maxQuantity := maxQuantity,
              ps_minTradeSize := minTradeSize, ps_minNotional := minNotional, ps_maxNotional := maxNotional,
              ps_contractMultiplier := contractMultiplier, ps_position := position, ps_ownership := ownership,
              ps_provenance := prov\<rparr>)))))))))))))))"

definition pair_ok :: "pair_snapshot \<Rightarrow> bool" where
  "pair_ok p \<longleftrightarrow> list_all good_string [ps_pair p, ps_instrumentSpecSnapshotId p, ps_status p]
     \<and> normal_text (ps_priceIncrement p) \<and> normal_text (ps_quantityIncrement p) \<and> normal_text (ps_minPrice p)
     \<and> normal_text (ps_maxPrice p) \<and> normal_text (ps_minQuantity p) \<and> normal_text (ps_maxQuantity p)
     \<and> normal_text (ps_minTradeSize p) \<and> normal_text (ps_minNotional p) \<and> option_all normal_text (ps_maxNotional p)
     \<and> normal_text (ps_contractMultiplier p) \<and> position_ok (ps_position p) \<and> ownership_ok (ps_ownership p)
     \<and> provenance_ok (ps_provenance p)"

interpretation pairs: normalizer pairSnapshotV pair_ok
proof
  fix x y
  show "pairSnapshotV x = Inr y \<Longrightarrow> pair_ok y"
    unfolding pairSnapshotV_def
    by (elim rbindE) (clarsimp simp: pair_ok_def stringArray_same dec.result dec.nullable_result pos.result owners.result prov.result
        simp del: mapR.simps)
  show "pair_ok y \<Longrightarrow> pairSnapshotV y = Inr y"
    unfolding pairSnapshotV_def pair_ok_def
    by (elim conjE) (simp only: exact.list_fixpoint dec.fixpoint dec.nullable_fixpoint pos.fixpoint owners.fixpoint prov.fixpoint
        rbind_Inr, simp)
qed

subsection \<open>The account\<close>

definition dailyPnlV :: "daily_pnl \<Rightarrow> (risk_error, daily_pnl) res" where
  "dailyPnlV d =
     rbind (canonicalDecimalString (dp_realizedTradingPnlInr d)) (\<lambda>realized.
     rbind (canonicalDecimalString (dp_fundingPnlInr d)) (\<lambda>funding.
     rbind (canonicalDecimalString (dp_feesInr d)) (\<lambda>fees.
     rbind (canonicalDecimalString (dp_otherAccountAdjustmentsInr d)) (\<lambda>other.
     rbind (canonicalDecimalString (dp_netDailyPnlInr d)) (\<lambda>net.
       Inr \<lparr>dp_realizedTradingPnlInr = realized, dp_fundingPnlInr = funding, dp_feesInr = fees,
            dp_otherAccountAdjustmentsInr = other, dp_netDailyPnlInr = net\<rparr>)))))"

definition daily_pnl_ok :: "daily_pnl \<Rightarrow> bool" where
  "daily_pnl_ok d \<longleftrightarrow> normal_text (dp_realizedTradingPnlInr d) \<and> normal_text (dp_fundingPnlInr d) \<and> normal_text (dp_feesInr d)
     \<and> normal_text (dp_otherAccountAdjustmentsInr d) \<and> normal_text (dp_netDailyPnlInr d)"

interpretation pnl: normalizer dailyPnlV daily_pnl_ok
proof
  fix x y
  show "dailyPnlV x = Inr y \<Longrightarrow> daily_pnl_ok y"
    unfolding dailyPnlV_def by (elim rbindE) (clarsimp simp: daily_pnl_ok_def dec.result)
  show "daily_pnl_ok y \<Longrightarrow> dailyPnlV y = Inr y"
    by (simp add: dailyPnlV_def daily_pnl_ok_def dec.fixpoint)
qed

definition accountSnapshotV :: "account_snapshot \<Rightarrow> (risk_error, account_snapshot) res" where
  "accountSnapshotV a =
     rbind (assertString (ac_accountId a)) (\<lambda>_.
     rbind (assertSafeInteger 0 (ac_consecutiveLossCount a)) (\<lambda>_.
     rbind (provenanceV (ac_provenance a)) (\<lambda>prov.
     rbind (canonicalDecimalString (ac_availableMarginInr a)) (\<lambda>availableMarginInr.
     rbind (canonicalDecimalString (ac_lockedMarginInr a)) (\<lambda>lockedMarginInr.
     rbind (canonicalDecimalString (ac_currentEquityInr a)) (\<lambda>currentEquityInr.
     rbind (canonicalDecimalString (ac_peakEquityInr a)) (\<lambda>peakEquityInr.
     rbind (dailyPnlV (ac_dailyPnl a)) (\<lambda>dailyPnl.
     rbind (nullableTime (ac_cooldownActiveUntilMs a)) (\<lambda>cooldown.
     rbind (nullableDecimal (ac_accountMaxLeverage a)) (\<lambda>maxLeverage.
     rbind (stringArray (ac_reconciliationSourceIds a)) (\<lambda>sources.
       Inr (a\<lparr>ac_provenance := prov, ac_availableMarginInr := availableMarginInr, ac_lockedMarginInr := lockedMarginInr,
              ac_currentEquityInr := currentEquityInr, ac_peakEquityInr := peakEquityInr, ac_dailyPnl := dailyPnl,
              ac_cooldownActiveUntilMs := cooldown, ac_accountMaxLeverage := maxLeverage,
              ac_reconciliationSourceIds := sources\<rparr>))))))))))))"

definition account_ok :: "account_snapshot \<Rightarrow> bool" where
  "account_ok a \<longleftrightarrow> good_string (ac_accountId a) \<and> safe_count 0 (ac_consecutiveLossCount a) \<and> provenance_ok (ac_provenance a)
     \<and> normal_text (ac_availableMarginInr a) \<and> normal_text (ac_lockedMarginInr a) \<and> normal_text (ac_currentEquityInr a)
     \<and> normal_text (ac_peakEquityInr a) \<and> daily_pnl_ok (ac_dailyPnl a) \<and> option_all (safe_count 0) (ac_cooldownActiveUntilMs a)
     \<and> option_all normal_text (ac_accountMaxLeverage a) \<and> list_all good_string (ac_reconciliationSourceIds a)"

interpretation acct: normalizer accountSnapshotV account_ok
proof
  fix x y
  show "accountSnapshotV x = Inr y \<Longrightarrow> account_ok y"
    unfolding accountSnapshotV_def
    by (elim rbindE) (clarsimp simp: account_ok_def stringArray_same field_same dec.result dec.nullable_result safe.nullable_result
        pnl.result prov.result)
  show "account_ok y \<Longrightarrow> accountSnapshotV y = Inr y"
    by (simp add: accountSnapshotV_def account_ok_def exact.fixpoint safe.fixpoint exact.list_fixpoint dec.fixpoint
        dec.nullable_fixpoint safe.nullable_fixpoint pnl.fixpoint prov.fixpoint)
qed

subsection \<open>Exposure\<close>

definition reservationV :: "pending_reservation \<Rightarrow> (risk_error, pending_reservation) res" where
  "reservationV r =
     rbind (stringArray [pr_strategyInstanceId r, pr_strategyId r, pr_strategyVersion r, pr_parameterHash r]) (\<lambda>_.
     rbind (assertSafeInteger 0 (pr_pendingReservationCount r)) (\<lambda>_.
     rbind (canonicalDecimalString (pr_pendingNotionalInr r)) (\<lambda>notional. Inr (r\<lparr>pr_pendingNotionalInr := notional\<rparr>))))"

definition reservation_ok :: "pending_reservation \<Rightarrow> bool" where
  "reservation_ok r \<longleftrightarrow>
     list_all good_string [pr_strategyInstanceId r, pr_strategyId r, pr_strategyVersion r, pr_parameterHash r]
     \<and> safe_count 0 (pr_pendingReservationCount r) \<and> normal_text (pr_pendingNotionalInr r)"

interpretation resv: normalizer reservationV reservation_ok
proof
  fix x y
  show "reservationV x = Inr y \<Longrightarrow> reservation_ok y"
    unfolding reservationV_def
    by (elim rbindE) (clarsimp simp: reservation_ok_def stringArray_same field_same dec.result simp del: mapR.simps)
  show "reservation_ok y \<Longrightarrow> reservationV y = Inr y"
    unfolding reservationV_def reservation_ok_def
    by (elim conjE) (simp only: exact.list_fixpoint safe.fixpoint dec.fixpoint rbind_Inr, simp)
qed

definition pendingV :: "pending_exposure \<Rightarrow> (risk_error, pending_exposure) res" where
  "pendingV p =
     (case p of
        UNKNOWN \<Rightarrow> Inr UNKNOWN
      | KNOWN k \<Rightarrow>
          rbind (assertSafeInteger 0 (kp_pendingReservationCount k)) (\<lambda>_.
          rbind (canonicalDecimalString (kp_globalPendingNotionalInr k)) (\<lambda>globalPending.
          rbind (decimalRecord (kp_pairPendingNotionalInr k)) (\<lambda>pairPending.
          rbind (decimalRecord (kp_strategyPendingNotionalInr k)) (\<lambda>strategyPending.
          rbind (mapR reservationV (kp_instancePendingReservations k)) (\<lambda>reservations.
          rbind (canonicalDecimalString (kp_longInr k)) (\<lambda>longInr.
          rbind (canonicalDecimalString (kp_shortInr k)) (\<lambda>shortInr.
            Inr (KNOWN (k\<lparr>kp_globalPendingNotionalInr := globalPending, kp_pairPendingNotionalInr := pairPending,
              kp_strategyPendingNotionalInr := strategyPending, kp_instancePendingReservations := reservations,
              kp_longInr := longInr, kp_shortInr := shortInr\<rparr>))))))))))"

definition pending_ok :: "pending_exposure \<Rightarrow> bool" where
  "pending_ok p \<longleftrightarrow>
     (case p of
        UNKNOWN \<Rightarrow> True
      | KNOWN k \<Rightarrow> safe_count 0 (kp_pendingReservationCount k) \<and> normal_text (kp_globalPendingNotionalInr k)
          \<and> record_ok (kp_pairPendingNotionalInr k) \<and> record_ok (kp_strategyPendingNotionalInr k)
          \<and> list_all reservation_ok (kp_instancePendingReservations k) \<and> normal_text (kp_longInr k) \<and> normal_text (kp_shortInr k))"

interpretation pend: normalizer pendingV pending_ok
proof
  fix x y
  show "pendingV x = Inr y \<Longrightarrow> pending_ok y"
    by (cases x) (auto simp: pendingV_def pending_ok_def field_same dec.result drecord.result resv.list_result elim!: rbindE)
  show "pending_ok y \<Longrightarrow> pendingV y = Inr y"
    by (cases y) (simp_all add: pendingV_def pending_ok_def safe.fixpoint dec.fixpoint drecord.fixpoint resv.list_fixpoint)
qed

definition exposureSnapshotV :: "exposure_snapshot \<Rightarrow> (risk_error, exposure_snapshot) res" where
  "exposureSnapshotV x =
     rbind (assertString (ex_accountId x)) (\<lambda>_.
     rbind (assertSafeInteger 0 (ex_concurrentOpenPositions x)) (\<lambda>_.
     rbind (canonicalDecimalString (ex_globalOpenNotionalInr x)) (\<lambda>globalOpen.
     rbind (decimalRecord (ex_perPairOpenNotionalInr x)) (\<lambda>perPair.
     rbind (decimalRecord (ex_perStrategyOpenNotionalInr x)) (\<lambda>perStrategy.
     rbind (pendingV (ex_pending x)) (\<lambda>pending.
     rbind (provenanceV (ex_provenance x)) (\<lambda>prov.
       Inr (x\<lparr>ex_globalOpenNotionalInr := globalOpen, ex_perPairOpenNotionalInr := perPair,
              ex_perStrategyOpenNotionalInr := perStrategy, ex_pending := pending, ex_provenance := prov\<rparr>))))))))"

definition exposure_ok :: "exposure_snapshot \<Rightarrow> bool" where
  "exposure_ok x \<longleftrightarrow> good_string (ex_accountId x) \<and> safe_count 0 (ex_concurrentOpenPositions x)
     \<and> normal_text (ex_globalOpenNotionalInr x) \<and> record_ok (ex_perPairOpenNotionalInr x)
     \<and> record_ok (ex_perStrategyOpenNotionalInr x) \<and> pending_ok (ex_pending x) \<and> provenance_ok (ex_provenance x)"

interpretation expo: normalizer exposureSnapshotV exposure_ok
proof
  fix x y
  show "exposureSnapshotV x = Inr y \<Longrightarrow> exposure_ok y"
    unfolding exposureSnapshotV_def
    by (elim rbindE) (clarsimp simp: exposure_ok_def field_same dec.result drecord.result pend.result prov.result)
  show "exposure_ok y \<Longrightarrow> exposureSnapshotV y = Inr y"
    by (simp add: exposureSnapshotV_def exposure_ok_def exact.fixpoint safe.fixpoint dec.fixpoint drecord.fixpoint pend.fixpoint
        prov.fixpoint)
qed

subsection \<open>Tiers and conversion\<close>

definition tierV :: "leverage_tier \<Rightarrow> (risk_error, leverage_tier) res" where
  "tierV t =
     rbind (assertString (tr_tierId t)) (\<lambda>_.
     rbind (canonicalDecimalString (tr_lowerNotionalUsdt t)) (\<lambda>lower.
     rbind (nullableDecimal (tr_upperNotionalUsdt t)) (\<lambda>upper.
     rbind (canonicalDecimalString (tr_maxLeverage t)) (\<lambda>maxLeverage.
       Inr (t\<lparr>tr_lowerNotionalUsdt := lower, tr_upperNotionalUsdt := upper, tr_maxLeverage := maxLeverage\<rparr>)))))"

definition tier_ok :: "leverage_tier \<Rightarrow> bool" where
  "tier_ok t \<longleftrightarrow> good_string (tr_tierId t) \<and> normal_text (tr_lowerNotionalUsdt t) \<and> option_all normal_text (tr_upperNotionalUsdt t)
     \<and> normal_text (tr_maxLeverage t)"

interpretation tiers: normalizer tierV tier_ok
proof
  fix x y
  show "tierV x = Inr y \<Longrightarrow> tier_ok y"
    unfolding tierV_def by (elim rbindE) (clarsimp simp: tier_ok_def field_same dec.result dec.nullable_result)
  show "tier_ok y \<Longrightarrow> tierV y = Inr y"
    by (simp add: tierV_def tier_ok_def exact.fixpoint dec.fixpoint dec.nullable_fixpoint)
qed

definition safetyTierV :: "safety_margin_tier \<Rightarrow> (risk_error, safety_margin_tier) res" where
  "safetyTierV t =
     rbind (canonicalDecimalString (sm_positionSizeThresholdUsdt t)) (\<lambda>threshold.
     rbind (canonicalDecimalString (sm_maintenanceMarginPercent t)) (\<lambda>percent.
       Inr \<lparr>sm_positionSizeThresholdUsdt = threshold, sm_maintenanceMarginPercent = percent\<rparr>))"

definition safety_tier_ok :: "safety_margin_tier \<Rightarrow> bool" where
  "safety_tier_ok t \<longleftrightarrow> normal_text (sm_positionSizeThresholdUsdt t) \<and> normal_text (sm_maintenanceMarginPercent t)"

interpretation safety: normalizer safetyTierV safety_tier_ok
proof
  fix x y
  show "safetyTierV x = Inr y \<Longrightarrow> safety_tier_ok y"
    unfolding safetyTierV_def by (elim rbindE) (clarsimp simp: safety_tier_ok_def dec.result)
  show "safety_tier_ok y \<Longrightarrow> safetyTierV y = Inr y"
    by (simp add: safetyTierV_def safety_tier_ok_def dec.fixpoint)
qed

definition tierSnapshotV :: "tier_snapshot \<Rightarrow> (risk_error, tier_snapshot) res" where
  "tierSnapshotV t =
     rbind (assertString (ts_pair t)) (\<lambda>_.
     rbind (mapR safetyTierV (ts_safetyMarginTiers t)) (\<lambda>safetyTiers.
     rbind (provenanceV (ts_provenance t)) (\<lambda>prov.
     rbind (nullableString (ts_semanticsVersion t)) (\<lambda>semanticsVersion.
     rbind (canonicalDecimalString (ts_exchangeMaxLeverage t)) (\<lambda>exchangeMax.
     rbind (mapR tierV (ts_tiers t)) (\<lambda>tierList.
     rbind (nullableDecimal (ts_legacyMaxLeverageLongIgnored t)) (\<lambda>legacyLong.
     rbind (nullableDecimal (ts_legacyMaxLeverageShortIgnored t)) (\<lambda>legacyShort.
       Inr (t\<lparr>ts_provenance := prov, ts_semanticsVersion := semanticsVersion, ts_exchangeMaxLeverage := exchangeMax,
              ts_tiers := tierList, ts_safetyMarginTiers := safetyTiers, ts_legacyMaxLeverageLongIgnored := legacyLong,
              ts_legacyMaxLeverageShortIgnored := legacyShort\<rparr>)))))))))"

definition tier_snapshot_ok :: "tier_snapshot \<Rightarrow> bool" where
  "tier_snapshot_ok t \<longleftrightarrow> good_string (ts_pair t) \<and> list_all safety_tier_ok (ts_safetyMarginTiers t) \<and> provenance_ok (ts_provenance t)
     \<and> option_all good_string (ts_semanticsVersion t) \<and> normal_text (ts_exchangeMaxLeverage t) \<and> list_all tier_ok (ts_tiers t)
     \<and> option_all normal_text (ts_legacyMaxLeverageLongIgnored t) \<and> option_all normal_text (ts_legacyMaxLeverageShortIgnored t)"

interpretation tsnap: normalizer tierSnapshotV tier_snapshot_ok
proof
  fix x y
  show "tierSnapshotV x = Inr y \<Longrightarrow> tier_snapshot_ok y"
    unfolding tierSnapshotV_def
    by (elim rbindE) (clarsimp simp: tier_snapshot_ok_def field_same safety.list_result prov.result exact.nullable_result dec.result
        tiers.list_result dec.nullable_result)
  show "tier_snapshot_ok y \<Longrightarrow> tierSnapshotV y = Inr y"
    by (simp add: tierSnapshotV_def tier_snapshot_ok_def exact.fixpoint safety.list_fixpoint prov.fixpoint exact.nullable_fixpoint
        dec.fixpoint tiers.list_fixpoint dec.nullable_fixpoint)
qed

definition settlementSnapshotV :: "settlement_snapshot \<Rightarrow> (risk_error, settlement_snapshot) res" where
  "settlementSnapshotV s =
     rbind (assertString (st_conversionMarketId s)) (\<lambda>_.
     rbind (canonicalDecimalString (st_rateInrPerUsdt s)) (\<lambda>rate.
     rbind (provenanceV (st_provenance s)) (\<lambda>prov. Inr (s\<lparr>st_rateInrPerUsdt := rate, st_provenance := prov\<rparr>))))"

definition settlement_ok :: "settlement_snapshot \<Rightarrow> bool" where
  "settlement_ok s \<longleftrightarrow> good_string (st_conversionMarketId s) \<and> normal_text (st_rateInrPerUsdt s) \<and> provenance_ok (st_provenance s)"

interpretation settle: normalizer settlementSnapshotV settlement_ok
proof
  fix x y
  show "settlementSnapshotV x = Inr y \<Longrightarrow> settlement_ok y"
    unfolding settlementSnapshotV_def by (elim rbindE) (clarsimp simp: settlement_ok_def field_same dec.result prov.result)
  show "settlement_ok y \<Longrightarrow> settlementSnapshotV y = Inr y"
    by (simp add: settlementSnapshotV_def settlement_ok_def exact.fixpoint dec.fixpoint prov.fixpoint)
qed

subsection \<open>The input as a whole\<close>

definition normalizeRiskEvaluationContext :: "risk_context \<Rightarrow> (risk_error, risk_context) res" where
  "normalizeRiskEvaluationContext c =
     rbind (assertSafeInteger 0 (rc_evaluationTimeMs c)) (\<lambda>_.
     rbind (nullableR assertSha (rc_expectedRiskPolicyId c)) (\<lambda>_.
     rbind (candidateV (rc_candidate c)) (\<lambda>cand.
     rbind (nullableR entryStopV (rc_entryStopProposal c)) (\<lambda>entryStop.
     rbind (nullableR leverageV (rc_leverageProposal c)) (\<lambda>lever.
     rbind (nullableR accountSnapshotV (rc_accountSnapshot c)) (\<lambda>account.
     rbind (pairSnapshotV (rc_pairSnapshot c)) (\<lambda>pair.
     rbind (nullableR exposureSnapshotV (rc_exposureSnapshot c)) (\<lambda>exposure.
     rbind (nullableR tierSnapshotV (rc_leverageTierSnapshot c)) (\<lambda>tierSnapshot.
     rbind (nullableR settlementSnapshotV (rc_settlementRateSnapshot c)) (\<lambda>conversion.
       Inr (c\<lparr>rc_candidate := cand, rc_entryStopProposal := entryStop, rc_leverageProposal := lever,
              rc_accountSnapshot := account, rc_pairSnapshot := pair, rc_exposureSnapshot := exposure,
              rc_leverageTierSnapshot := tierSnapshot, rc_settlementRateSnapshot := conversion\<rparr>)))))))))))"

definition context_ok :: "risk_context \<Rightarrow> bool" where
  "context_ok c \<longleftrightarrow> safe_count 0 (rc_evaluationTimeMs c) \<and> option_all is_sha256 (rc_expectedRiskPolicyId c)
     \<and> candidate_ok (rc_candidate c) \<and> option_all entry_stop_ok (rc_entryStopProposal c)
     \<and> option_all leverage_ok (rc_leverageProposal c) \<and> option_all account_ok (rc_accountSnapshot c) \<and> pair_ok (rc_pairSnapshot c)
     \<and> option_all exposure_ok (rc_exposureSnapshot c) \<and> option_all tier_snapshot_ok (rc_leverageTierSnapshot c)
     \<and> option_all settlement_ok (rc_settlementRateSnapshot c)"

lemma nullable_sha_same: "nullableR assertSha v = Inr w \<longleftrightarrow> w = v \<and> option_all is_sha256 v"
  by (cases v) (auto simp: nullableR_def rbind_eq_Inr field_same)

interpretation input: normalizer normalizeRiskEvaluationContext context_ok
proof
  fix x y
  show "normalizeRiskEvaluationContext x = Inr y \<Longrightarrow> context_ok y"
    unfolding normalizeRiskEvaluationContext_def
    by (elim rbindE) (clarsimp simp: context_ok_def field_same nullable_sha_same cand.result entry.nullable_result
        lever.nullable_result acct.nullable_result pairs.result expo.nullable_result tsnap.nullable_result settle.nullable_result)
  show "context_ok y \<Longrightarrow> normalizeRiskEvaluationContext y = Inr y"
    by (simp add: normalizeRiskEvaluationContext_def context_ok_def safe.fixpoint digest.nullable_fixpoint cand.fixpoint
        entry.nullable_fixpoint lever.nullable_fixpoint acct.nullable_fixpoint pairs.fixpoint expo.nullable_fixpoint
        tsnap.nullable_fixpoint settle.nullable_fixpoint)
qed

subsection \<open>What an input means\<close>

text \<open>The meaning of a field, a record or a list is what normalizing keeps: every amount as the number it denotes, the
  members of a record of amounts in the order of their keys, and everything else as it is. Normal forms with
  the same meaning are equal.\<close>

locale meaningful = normalizer f ok for f :: "'a \<Rightarrow> ('e, 'a) res" and ok :: "'a \<Rightarrow> bool" +
  fixes m :: "'a \<Rightarrow> 'b"
  assumes keeps: "f x = Inr y \<Longrightarrow> m y = m x"
    and unique: "ok x \<Longrightarrow> ok y \<Longrightarrow> m x = m y \<Longrightarrow> x = y"
begin

lemma list_keeps: "mapR f xs = Inr ys \<Longrightarrow> map m ys = map m xs"
  by (induction xs arbitrary: ys) (auto simp: rbind_eq_Inr dest: keeps)

lemma list_unique: "list_all ok xs \<Longrightarrow> list_all ok ys \<Longrightarrow> map m xs = map m ys \<Longrightarrow> xs = ys"
proof (induction xs arbitrary: ys)
  case (Cons x xs)
  then show ?case by (cases ys) (auto intro: unique)
qed simp

lemma nullable_keeps: "nullableR f x = Inr y \<Longrightarrow> map_option m y = map_option m x"
  by (cases x) (auto simp: nullableR_def rbind_eq_Inr dest: keeps)

lemma nullable_unique: "option_all ok x \<Longrightarrow> option_all ok y \<Longrightarrow> map_option m x = map_option m y \<Longrightarrow> x = y"
  by (cases x; cases y) (auto intro: unique)

lemma same_normal_form: "f x = Inr y \<Longrightarrow> f x' = Inr y' \<Longrightarrow> y = y' \<longleftrightarrow> m x = m x'"
  using result keeps unique by metis

end

lemma canonicalDecimalString_value: "canonicalDecimalString v = Inr w \<Longrightarrow> text_value w = text_value v"
proof -
  assume a: "canonicalDecimalString v = Inr w"
  have "signed_text v"
  proof (rule ccontr)
    assume "\<not> signed_text v"
    then show False using a by (simp add: canonicalDecimalString_def)
  qed
  then show "text_value w = text_value v" using a by (auto simp: canonicalDecimalString_signed normalize_text_value)
qed

interpretation amount: meaningful canonicalDecimalString normal_text text_value
  by unfold_locales (auto simp: canonicalDecimalString_value intro: normal_text_inject)

definition record_meaning :: "(string \<times> string) list \<Rightarrow> (string \<times> rat) list" where
  "record_meaning r = map (map_prod id text_value) (sort_key fst r)"

lemma decimal_member_pair:
  "decimal_member (k, v) = Inr z \<longleftrightarrow> (\<exists>d. canonicalDecimalString v = Inr d \<and> z = (k, d) \<and> good_string k)"
  by (auto simp: decimal_member_def rbind_eq_Inr field_same)

lemma decimal_members_keep: "mapR decimal_member xs = Inr ys \<Longrightarrow> map (map_prod id text_value) ys = map (map_prod id text_value) xs"
proof (induction xs arbitrary: ys)
  case (Cons x xs)
  obtain k v where x: "x = (k, v)" by (cases x)
  with Cons.prems obtain d zs where d: "canonicalDecimalString v = Inr d" and zs: "mapR decimal_member xs = Inr zs"
    and ys: "ys = (k, d) # zs"
    by (auto simp: rbind_eq_Inr decimal_member_pair)
  from Cons.IH[OF zs] canonicalDecimalString_value[OF d] show ?case by (simp add: x ys)
qed simp

lemma members_unique:
  "list_all member_ok xs \<Longrightarrow> list_all member_ok ys \<Longrightarrow> map (map_prod id text_value) xs = map (map_prod id text_value) ys \<Longrightarrow> xs = ys"
proof (induction xs arbitrary: ys)
  case (Cons x xs)
  then obtain y zs where ys: "ys = y # zs" by (cases ys) simp_all
  with Cons.prems have "fst x = fst y" "text_value (snd x) = text_value (snd y)" "normal_text (snd x)" "normal_text (snd y)"
    by (simp_all add: member_ok_def map_prod_def split: prod.splits)
  then have "x = y" using normal_text_inject by (simp add: prod_eq_iff)
  with Cons ys show ?case by simp
qed simp

interpretation amounts: meaningful decimalRecord record_ok record_meaning
proof
  fix x y
  assume "decimalRecord x = Inr y"
  then have y: "mapR decimal_member (sort_key fst x) = Inr y" by (simp add: decimalRecord_def)
  then have "sorted (map fst y)" using decimal_members_keys by (metis sorted_sort_key)
  moreover have "map (map_prod id text_value) y = map (map_prod id text_value) (sort_key fst x)"
    by (rule decimal_members_keep[OF y])
  ultimately show "record_meaning y = record_meaning x" by (simp add: record_meaning_def sort_key_id_if_sorted)
next
  fix x y
  assume ok: "record_ok x" "record_ok y" and m: "record_meaning x = record_meaning y"
  have "map (map_prod id text_value) x = map (map_prod id text_value) y"
    using ok m by (simp add: record_ok_def record_meaning_def sort_key_id_if_sorted)
  then show "x = y" using ok members_unique by (simp add: record_ok_def)
qed

lemma nullableTime_same: "nullableTime v = Inr w \<Longrightarrow> w = v"
  by (cases v) (auto simp: nullableR_def rbind_eq_Inr field_same)

lemma nullableString_same: "nullableString v = Inr w \<Longrightarrow> w = v"
  by (cases v) (auto simp: nullableR_def rbind_eq_Inr field_same)

lemma provenanceV_same: "provenanceV p = Inr q \<Longrightarrow> q = p"
  unfolding provenanceV_def by (elim rbindE) (auto simp: field_same dest!: nullableTime_same)

lemma strategyDecisionV_same: "strategyDecisionV d = Inr e \<Longrightarrow> e = d"
  unfolding strategyDecisionV_def
  by (elim rbindE) (auto simp: stringArray_same rbind_eq_Inr split: if_splits simp del: mapR.simps)

lemmas field_keeps = canonicalDecimalString_value amount.nullable_keeps amounts.keeps provenanceV_same nullableTime_same
  nullableString_same strategyDecisionV_same

subsubsection \<open>Of the proposals\<close>

definition candidate_meaning :: "strategy_candidate \<Rightarrow> strategy_candidate" where
  "candidate_meaning c = c\<lparr>cd_strategyLineage := (cd_strategyLineage c)
     \<lparr>sl_indicatorBootstrapIdentity := sort_key be_timeframeMinutes (sl_indicatorBootstrapIdentity (cd_strategyLineage c))\<rparr>\<rparr>"

definition entry_stop_meaning :: "entry_stop \<Rightarrow> entry_stop \<times> rat list" where
  "entry_stop_meaning e = (e\<lparr>es_entryPriceUsdt := [], es_stopPriceUsdt := []\<rparr>,
     [text_value (es_entryPriceUsdt e), text_value (es_stopPriceUsdt e)])"

definition leverage_meaning :: "leverage_proposal \<Rightarrow> leverage_proposal \<times> rat option" where
  "leverage_meaning l = (l\<lparr>lp_requestedLeverage := None\<rparr>, map_option text_value (lp_requestedLeverage l))"

subsubsection \<open>Of the pair\<close>

definition ownership_record_meaning :: "ownership_record \<Rightarrow> ownership_record \<times> rat list" where
  "ownership_record_meaning r = (r\<lparr>ow_currentQuantity := [], ow_currentNotionalInr := []\<rparr>,
     [text_value (ow_currentQuantity r), text_value (ow_currentNotionalInr r)])"

fun ownership_meaning :: "position_ownership \<Rightarrow> position_ownership \<times> (ownership_record \<times> rat list) list" where
  "ownership_meaning UNRECONCILED = (UNRECONCILED, [])"
| "ownership_meaning (RECONCILED_FLAT account pair) = (RECONCILED_FLAT account pair, [])"
| "ownership_meaning (RECONCILED_OPEN account pair positionId records) =
     (RECONCILED_OPEN account pair positionId [], map ownership_record_meaning records)"

definition valuation_meaning :: "position_valuation \<Rightarrow> position_valuation \<times> rat list" where
  "valuation_meaning v =
     (v\<lparr>vl_valuationPriceUsdt := [], vl_contractMultiplier := [], vl_conversionRateInrPerUsdt := [], vl_unitValuationInrPerQty := [],
        vl_aggregateCurrentNotionalInr := []\<rparr>,
      [text_value (vl_valuationPriceUsdt v), text_value (vl_contractMultiplier v), text_value (vl_conversionRateInrPerUsdt v),
       text_value (vl_unitValuationInrPerQty v), text_value (vl_aggregateCurrentNotionalInr v)])"

definition position_meaning :: "pair_position \<Rightarrow> (open_position \<times> rat \<times> (position_valuation \<times> rat list) option) option" where
  "position_meaning p =
     (case p of
        POSITION_FLAT \<Rightarrow> None
      | POSITION_OPEN w \<Rightarrow> Some (w\<lparr>op_quantityMagnitude := [], op_valuation := None\<rparr>, text_value (op_quantityMagnitude w),
          map_option valuation_meaning (op_valuation w)))"

definition pair_meaning :: "pair_snapshot \<Rightarrow>
    pair_snapshot \<times> rat list \<times> rat option \<times> (open_position \<times> rat \<times> (position_valuation \<times> rat list) option) option
      \<times> position_ownership \<times> (ownership_record \<times> rat list) list" where
  "pair_meaning p =
     (p\<lparr>ps_priceIncrement := [], ps_quantityIncrement := [], ps_minPrice := [], ps_maxPrice := [], ps_minQuantity := [],
        ps_maxQuantity := [], ps_minTradeSize := [], ps_minNotional := [], ps_maxNotional := None, ps_contractMultiplier := [],
        ps_position := POSITION_FLAT, ps_ownership := UNRECONCILED\<rparr>,
      [text_value (ps_priceIncrement p), text_value (ps_quantityIncrement p), text_value (ps_minPrice p), text_value (ps_maxPrice p),
       text_value (ps_minQuantity p), text_value (ps_maxQuantity p), text_value (ps_minTradeSize p), text_value (ps_minNotional p),
       text_value (ps_contractMultiplier p)],
      map_option text_value (ps_maxNotional p), position_meaning (ps_position p), ownership_meaning (ps_ownership p))"

subsubsection \<open>Of the account and its exposure\<close>

definition account_meaning :: "account_snapshot \<Rightarrow> account_snapshot \<times> rat list \<times> rat list \<times> rat option" where
  "account_meaning a =
     (a\<lparr>ac_availableMarginInr := [], ac_lockedMarginInr := [], ac_currentEquityInr := [], ac_peakEquityInr := [],
        ac_dailyPnl := \<lparr>dp_realizedTradingPnlInr = [], dp_fundingPnlInr = [], dp_feesInr = [], dp_otherAccountAdjustmentsInr = [],
          dp_netDailyPnlInr = []\<rparr>, ac_accountMaxLeverage := None\<rparr>,
      [text_value (ac_availableMarginInr a), text_value (ac_lockedMarginInr a), text_value (ac_currentEquityInr a),
       text_value (ac_peakEquityInr a)],
      [text_value (dp_realizedTradingPnlInr (ac_dailyPnl a)), text_value (dp_fundingPnlInr (ac_dailyPnl a)),
       text_value (dp_feesInr (ac_dailyPnl a)), text_value (dp_otherAccountAdjustmentsInr (ac_dailyPnl a)),
       text_value (dp_netDailyPnlInr (ac_dailyPnl a))],
      map_option text_value (ac_accountMaxLeverage a))"

definition reservation_meaning :: "pending_reservation \<Rightarrow> pending_reservation \<times> rat" where
  "reservation_meaning r = (r\<lparr>pr_pendingNotionalInr := []\<rparr>, text_value (pr_pendingNotionalInr r))"

definition pending_meaning :: "pending_exposure \<Rightarrow>
    (int \<times> rat list \<times> (string \<times> rat) list \<times> (string \<times> rat) list \<times> (pending_reservation \<times> rat) list) option" where
  "pending_meaning p =
     (case p of
        UNKNOWN \<Rightarrow> None
      | KNOWN k \<Rightarrow> Some (kp_pendingReservationCount k,
          [text_value (kp_globalPendingNotionalInr k), text_value (kp_longInr k), text_value (kp_shortInr k)],
          record_meaning (kp_pairPendingNotionalInr k), record_meaning (kp_strategyPendingNotionalInr k),
          map reservation_meaning (kp_instancePendingReservations k)))"

definition exposure_meaning :: "exposure_snapshot \<Rightarrow>
    exposure_snapshot \<times> rat \<times> (string \<times> rat) list \<times> (string \<times> rat) list
      \<times> (int \<times> rat list \<times> (string \<times> rat) list \<times> (string \<times> rat) list \<times> (pending_reservation \<times> rat) list) option" where
  "exposure_meaning x =
     (x\<lparr>ex_globalOpenNotionalInr := [], ex_perPairOpenNotionalInr := [], ex_perStrategyOpenNotionalInr := [], ex_pending := UNKNOWN\<rparr>,
      text_value (ex_globalOpenNotionalInr x), record_meaning (ex_perPairOpenNotionalInr x),
      record_meaning (ex_perStrategyOpenNotionalInr x), pending_meaning (ex_pending x))"

subsubsection \<open>Of the tiers, the conversion and the whole\<close>

definition tier_meaning :: "leverage_tier \<Rightarrow> leverage_tier \<times> rat list \<times> rat option" where
  "tier_meaning t = (t\<lparr>tr_lowerNotionalUsdt := [], tr_upperNotionalUsdt := None, tr_maxLeverage := []\<rparr>,
     [text_value (tr_lowerNotionalUsdt t), text_value (tr_maxLeverage t)], map_option text_value (tr_upperNotionalUsdt t))"

definition safety_tier_meaning :: "safety_margin_tier \<Rightarrow> rat list" where
  "safety_tier_meaning t = [text_value (sm_positionSizeThresholdUsdt t), text_value (sm_maintenanceMarginPercent t)]"

definition tier_snapshot_meaning :: "tier_snapshot \<Rightarrow>
    tier_snapshot \<times> rat \<times> (leverage_tier \<times> rat list \<times> rat option) list \<times> rat list list \<times> rat option \<times> rat option" where
  "tier_snapshot_meaning t =
     (t\<lparr>ts_exchangeMaxLeverage := [], ts_tiers := [], ts_safetyMarginTiers := [], ts_legacyMaxLeverageLongIgnored := None,
        ts_legacyMaxLeverageShortIgnored := None\<rparr>,
      text_value (ts_exchangeMaxLeverage t), map tier_meaning (ts_tiers t), map safety_tier_meaning (ts_safetyMarginTiers t),
      map_option text_value (ts_legacyMaxLeverageLongIgnored t), map_option text_value (ts_legacyMaxLeverageShortIgnored t))"

definition settlement_meaning :: "settlement_snapshot \<Rightarrow> settlement_snapshot \<times> rat" where
  "settlement_meaning s = (s\<lparr>st_rateInrPerUsdt := []\<rparr>, text_value (st_rateInrPerUsdt s))"

text \<open>Two inputs mean the same when all their parts do.\<close>

definition same_input :: "risk_context \<Rightarrow> risk_context \<Rightarrow> bool" where
  "same_input c n \<longleftrightarrow> rc_strategyOrigin n = rc_strategyOrigin c
     \<and> rc_evaluationTimeMs n = rc_evaluationTimeMs c \<and> rc_expectedRiskPolicyId n = rc_expectedRiskPolicyId c
     \<and> rc_override n = rc_override c
     \<and> candidate_meaning (rc_candidate n) = candidate_meaning (rc_candidate c)
     \<and> map_option entry_stop_meaning (rc_entryStopProposal n) = map_option entry_stop_meaning (rc_entryStopProposal c)
     \<and> map_option leverage_meaning (rc_leverageProposal n) = map_option leverage_meaning (rc_leverageProposal c)
     \<and> map_option account_meaning (rc_accountSnapshot n) = map_option account_meaning (rc_accountSnapshot c)
     \<and> pair_meaning (rc_pairSnapshot n) = pair_meaning (rc_pairSnapshot c)
     \<and> map_option exposure_meaning (rc_exposureSnapshot n) = map_option exposure_meaning (rc_exposureSnapshot c)
     \<and> map_option tier_snapshot_meaning (rc_leverageTierSnapshot n) = map_option tier_snapshot_meaning (rc_leverageTierSnapshot c)
     \<and> map_option settlement_meaning (rc_settlementRateSnapshot n) = map_option settlement_meaning (rc_settlementRateSnapshot c)"

subsubsection \<open>Normalizing keeps the meaning\<close>

interpretation candM: meaningful candidateV candidate_ok candidate_meaning
proof
  fix x y
  have b: "mapR bootstrapV xs = Inr ys \<Longrightarrow> ys = xs" for xs ys
    by (induction xs arbitrary: ys) (auto simp: rbind_eq_Inr bootstrapV_def field_same)
  have p: "parametersV v = Inr w \<Longrightarrow> w = v" for v w
    by (cases v) (auto simp: parametersV_def split: sum.splits)
  show "candidateV x = Inr y \<Longrightarrow> candidate_meaning y = candidate_meaning x"
    unfolding candidateV_def
    by (cases x; cases "cd_strategyLineage x"; elim rbindE)
      (auto simp: candidate_meaning_def field_same sort_key_id_if_sorted dest!: b p strategyDecisionV_same)
  show "candidate_ok x \<Longrightarrow> candidate_ok y \<Longrightarrow> candidate_meaning x = candidate_meaning y \<Longrightarrow> x = y"
    by (cases x; cases y; cases "cd_strategyLineage x"; cases "cd_strategyLineage y")
      (auto simp: candidate_meaning_def candidate_ok_def sort_key_id_if_sorted)
qed

interpretation entryM: meaningful entryStopV entry_stop_ok entry_stop_meaning
proof
  fix x y
  show "entryStopV x = Inr y \<Longrightarrow> entry_stop_meaning y = entry_stop_meaning x"
    unfolding entryStopV_def by (elim rbindE) (auto simp: entry_stop_meaning_def dest!: field_keeps simp del: mapR.simps)
  show "entry_stop_ok x \<Longrightarrow> entry_stop_ok y \<Longrightarrow> entry_stop_meaning x = entry_stop_meaning y \<Longrightarrow> x = y"
    by (cases x; cases y) (auto simp: entry_stop_meaning_def entry_stop_ok_def intro: normal_text_inject)
qed

interpretation leverM: meaningful leverageV leverage_ok leverage_meaning
proof
  fix x y
  show "leverageV x = Inr y \<Longrightarrow> leverage_meaning y = leverage_meaning x"
    unfolding leverageV_def by (elim rbindE) (auto simp: leverage_meaning_def dest!: field_keeps simp del: mapR.simps)
  show "leverage_ok x \<Longrightarrow> leverage_ok y \<Longrightarrow> leverage_meaning x = leverage_meaning y \<Longrightarrow> x = y"
    by (cases x; cases y) (auto simp: leverage_meaning_def leverage_ok_def intro: amount.nullable_unique)
qed

interpretation ownerM: meaningful ownershipRecordV ownership_record_ok ownership_record_meaning
proof
  fix x y
  show "ownershipRecordV x = Inr y \<Longrightarrow> ownership_record_meaning y = ownership_record_meaning x"
    unfolding ownershipRecordV_def by (elim rbindE) (auto simp: ownership_record_meaning_def dest!: field_keeps simp del: mapR.simps)
  show "ownership_record_ok x \<Longrightarrow> ownership_record_ok y \<Longrightarrow> ownership_record_meaning x = ownership_record_meaning y \<Longrightarrow> x = y"
    by (cases x; cases y) (auto simp: ownership_record_meaning_def ownership_record_ok_def intro: normal_text_inject)
qed

interpretation ownersM: meaningful ownershipV ownership_ok ownership_meaning
proof
  fix x y
  show "ownershipV x = Inr y \<Longrightarrow> ownership_meaning y = ownership_meaning x"
    by (cases x) (auto simp: rbind_eq_Inr field_same dest: ownerM.list_keeps)
  show "ownership_ok x \<Longrightarrow> ownership_ok y \<Longrightarrow> ownership_meaning x = ownership_meaning y \<Longrightarrow> x = y"
    by (cases x; cases y) (auto intro: ownerM.list_unique)
qed

interpretation valM: meaningful valuationV valuation_fields_ok valuation_meaning
proof
  fix x y
  show "valuationV x = Inr y \<Longrightarrow> valuation_meaning y = valuation_meaning x"
    unfolding valuationV_def by (elim rbindE) (auto simp: valuation_meaning_def dest!: field_keeps simp del: mapR.simps)
  show "valuation_fields_ok x \<Longrightarrow> valuation_fields_ok y \<Longrightarrow> valuation_meaning x = valuation_meaning y \<Longrightarrow> x = y"
    by (cases x; cases y) (auto simp: valuation_meaning_def valuation_fields_ok_def intro: normal_text_inject)
qed

interpretation posM: meaningful positionV position_ok position_meaning
proof
  fix x y
  show "positionV x = Inr y \<Longrightarrow> position_meaning y = position_meaning x"
    by (cases x) (auto simp: positionV_def position_meaning_def rbind_eq_Inr dest: canonicalDecimalString_value valM.nullable_keeps)
  have "w = v" if "normal_text (op_quantityMagnitude w)" "normal_text (op_quantityMagnitude v)"
    "option_all valuation_fields_ok (op_valuation w)" "option_all valuation_fields_ok (op_valuation v)"
    "position_meaning (POSITION_OPEN w) = position_meaning (POSITION_OPEN v)" for w v
    using that by (cases w; cases v) (auto simp: position_meaning_def intro: normal_text_inject valM.nullable_unique)
  then show "position_ok x \<Longrightarrow> position_ok y \<Longrightarrow> position_meaning x = position_meaning y \<Longrightarrow> x = y"
    by (cases x; cases y) (auto simp: position_ok_def, simp_all add: position_meaning_def)
qed

interpretation pairM: meaningful pairSnapshotV pair_ok pair_meaning
proof
  fix x y
  show "pairSnapshotV x = Inr y \<Longrightarrow> pair_meaning y = pair_meaning x"
    unfolding pairSnapshotV_def
    by (elim rbindE) (auto simp: pair_meaning_def dest!: field_keeps posM.keeps ownersM.keeps simp del: mapR.simps)
  show "pair_ok x \<Longrightarrow> pair_ok y \<Longrightarrow> pair_meaning x = pair_meaning y \<Longrightarrow> x = y"
    by (cases x; cases y) (auto simp: pair_meaning_def pair_ok_def
        intro: normal_text_inject amount.nullable_unique posM.unique ownersM.unique)
qed

interpretation acctM: meaningful accountSnapshotV account_ok account_meaning
proof
  fix x y
  show "accountSnapshotV x = Inr y \<Longrightarrow> account_meaning y = account_meaning x"
    unfolding accountSnapshotV_def dailyPnlV_def
    by (elim rbindE) (auto simp: account_meaning_def stringArray_same dest!: field_keeps simp del: mapR.simps)
  show "account_ok x \<Longrightarrow> account_ok y \<Longrightarrow> account_meaning x = account_meaning y \<Longrightarrow> x = y"
    by (cases x; cases y; cases "ac_dailyPnl x"; cases "ac_dailyPnl y")
      (auto simp: account_meaning_def account_ok_def daily_pnl_ok_def intro: normal_text_inject amount.nullable_unique)
qed

interpretation resvM: meaningful reservationV reservation_ok reservation_meaning
proof
  fix x y
  show "reservationV x = Inr y \<Longrightarrow> reservation_meaning y = reservation_meaning x"
    unfolding reservationV_def by (elim rbindE) (auto simp: reservation_meaning_def dest!: field_keeps simp del: mapR.simps)
  show "reservation_ok x \<Longrightarrow> reservation_ok y \<Longrightarrow> reservation_meaning x = reservation_meaning y \<Longrightarrow> x = y"
    by (cases x; cases y) (auto simp: reservation_meaning_def reservation_ok_def intro: normal_text_inject)
qed

interpretation pendM: meaningful pendingV pending_ok pending_meaning
proof
  fix x y
  show "pendingV x = Inr y \<Longrightarrow> pending_meaning y = pending_meaning x"
    by (cases x) (auto simp: pendingV_def pending_meaning_def rbind_eq_Inr
        dest: canonicalDecimalString_value amounts.keeps resvM.list_keeps)
  have "w = v" if "pending_ok (KNOWN w)" "pending_ok (KNOWN v)" "pending_meaning (KNOWN w) = pending_meaning (KNOWN v)" for w v
    using that by (cases w; cases v) (auto simp: pending_meaning_def pending_ok_def
        intro: normal_text_inject amounts.unique resvM.list_unique)
  then show "pending_ok x \<Longrightarrow> pending_ok y \<Longrightarrow> pending_meaning x = pending_meaning y \<Longrightarrow> x = y"
    by (cases x; cases y) (auto, simp_all add: pending_meaning_def)
qed

interpretation expoM: meaningful exposureSnapshotV exposure_ok exposure_meaning
proof
  fix x y
  show "exposureSnapshotV x = Inr y \<Longrightarrow> exposure_meaning y = exposure_meaning x"
    unfolding exposureSnapshotV_def by (elim rbindE) (auto simp: exposure_meaning_def dest!: field_keeps pendM.keeps)
  show "exposure_ok x \<Longrightarrow> exposure_ok y \<Longrightarrow> exposure_meaning x = exposure_meaning y \<Longrightarrow> x = y"
    by (cases x; cases y) (auto simp: exposure_meaning_def exposure_ok_def intro: normal_text_inject amounts.unique pendM.unique)
qed

interpretation tierM: meaningful tierV tier_ok tier_meaning
proof
  fix x y
  show "tierV x = Inr y \<Longrightarrow> tier_meaning y = tier_meaning x"
    unfolding tierV_def by (elim rbindE) (auto simp: tier_meaning_def dest!: field_keeps)
  show "tier_ok x \<Longrightarrow> tier_ok y \<Longrightarrow> tier_meaning x = tier_meaning y \<Longrightarrow> x = y"
    by (cases x; cases y) (auto simp: tier_meaning_def tier_ok_def intro: normal_text_inject amount.nullable_unique)
qed

interpretation safetyM: meaningful safetyTierV safety_tier_ok safety_tier_meaning
proof
  fix x y
  show "safetyTierV x = Inr y \<Longrightarrow> safety_tier_meaning y = safety_tier_meaning x"
    unfolding safetyTierV_def by (elim rbindE) (auto simp: safety_tier_meaning_def dest!: field_keeps)
  show "safety_tier_ok x \<Longrightarrow> safety_tier_ok y \<Longrightarrow> safety_tier_meaning x = safety_tier_meaning y \<Longrightarrow> x = y"
    by (cases x; cases y) (auto simp: safety_tier_meaning_def safety_tier_ok_def intro: normal_text_inject)
qed

interpretation tsnapM: meaningful tierSnapshotV tier_snapshot_ok tier_snapshot_meaning
proof
  fix x y
  show "tierSnapshotV x = Inr y \<Longrightarrow> tier_snapshot_meaning y = tier_snapshot_meaning x"
    unfolding tierSnapshotV_def
    by (elim rbindE) (auto simp: tier_snapshot_meaning_def dest!: field_keeps tierM.list_keeps safetyM.list_keeps)
  show "tier_snapshot_ok x \<Longrightarrow> tier_snapshot_ok y \<Longrightarrow> tier_snapshot_meaning x = tier_snapshot_meaning y \<Longrightarrow> x = y"
    by (cases x; cases y) (auto simp: tier_snapshot_meaning_def tier_snapshot_ok_def
        intro: normal_text_inject amount.nullable_unique tierM.list_unique safetyM.list_unique)
qed

interpretation settleM: meaningful settlementSnapshotV settlement_ok settlement_meaning
proof
  fix x y
  show "settlementSnapshotV x = Inr y \<Longrightarrow> settlement_meaning y = settlement_meaning x"
    unfolding settlementSnapshotV_def by (elim rbindE) (auto simp: settlement_meaning_def dest!: field_keeps)
  show "settlement_ok x \<Longrightarrow> settlement_ok y \<Longrightarrow> settlement_meaning x = settlement_meaning y \<Longrightarrow> x = y"
    by (cases x; cases y) (auto simp: settlement_meaning_def settlement_ok_def intro: normal_text_inject)
qed

lemma normalize_keeps: "normalizeRiskEvaluationContext c = Inr n \<Longrightarrow> same_input c n"
  unfolding normalizeRiskEvaluationContext_def
  by (elim rbindE) (clarsimp simp: same_input_def candM.keeps entryM.nullable_keeps leverM.nullable_keeps acctM.nullable_keeps
      pairM.keeps expoM.nullable_keeps tsnapM.nullable_keeps settleM.nullable_keeps)

lemma same_decision: "same_input c n \<Longrightarrow> cd_strategyDecision (rc_candidate n) = cd_strategyDecision (rc_candidate c)"
  unfolding same_input_def candidate_meaning_def
  by (cases "rc_candidate n"; cases "rc_candidate c") simp

lemma normal_unique: "context_ok n \<Longrightarrow> context_ok m \<Longrightarrow> same_input n m \<Longrightarrow> n = m"
  by (cases n; cases m)
    (auto simp: context_ok_def same_input_def intro: candM.unique[symmetric] entryM.nullable_unique[symmetric]
      leverM.nullable_unique[symmetric] acctM.nullable_unique[symmetric] pairM.unique[symmetric] expoM.nullable_unique[symmetric]
      tsnapM.nullable_unique[symmetric] settleM.nullable_unique[symmetric])

lemma same_input_trans: "same_input a b \<Longrightarrow> same_input b c \<Longrightarrow> same_input a c"
  and same_input_sym: "same_input a b \<Longrightarrow> same_input b a"
  unfolding same_input_def by metis+

text \<open>C37. Normalizing gives every accepted input its normal form, which is in canonical decimals, exact strings, safe
  integers and sorted keys and means the same in every field; normalizing it again changes nothing, such
  contexts are the only ones that come out, and two accepted inputs have the same normal form exactly when
  they mean the same.\<close>

theorem input_normal_form:
  assumes "normalizeRiskEvaluationContext c = Inr n" and "normalizeRiskEvaluationContext c' = Inr n'"
  shows "context_ok n \<and> same_input c n \<and> normalizeRiskEvaluationContext n = Inr n
    \<and> (\<forall>m. context_ok m \<longleftrightarrow> (\<exists>x. normalizeRiskEvaluationContext x = Inr m)) \<and> (n = n' \<longleftrightarrow> same_input c c')"
proof -
  note K = normalize_keeps[OF assms(1)] normalize_keeps[OF assms(2)] and R = input.result[OF assms(1)] input.result[OF assms(2)]
  have "n = n' \<longleftrightarrow> same_input c c'"
    using K normal_unique[OF R] same_input_trans same_input_sym by metis
  moreover have "context_ok m \<longleftrightarrow> (\<exists>x. normalizeRiskEvaluationContext x = Inr m)" for m
    using input.range[of m] by blast
  ultimately show ?thesis using R(1) K(1) input.idempotent[OF assms(1)] by blast
qed

end
