(* ===== verification/Risk_Engine.thy ===== *)
theory Risk_Engine
  imports Risk_Validation
begin

section \<open>The risk engine\<close>

text \<open>
  \<^verbatim>\<open>src/risk/position-sizing.ts\<close>, the decision identities of \<^verbatim>\<open>src/risk/identity.ts\<close> and the evaluation of
  \<^verbatim>\<open>src/risk/engine.ts\<close>: the input is normalized, the reasons against it are collected per step of the audit,
  the position is sized, and the decision is accepted when no reason was found. Where the code pushes
  reasons on the list of a step, the model writes the pushes as a list of step index and reasons, in the
  order of the code. The digest, the decimal library and the list of strategy definitions are parameters.
\<close>

subsection \<open>Reasons and the audit trail\<close>

text \<open>Every code of the type is in the precedence, so ordering does not throw.\<close>

definition ordered :: "rejection_code list \<Rightarrow> rejection_code list" where
  "ordered codes = (case orderReasonCodes codes of Inr cs \<Rightarrow> cs | Inl _ \<Rightarrow> [])"

definition STEP_NAMES :: "string list" where
  "STEP_NAMES =
     [''STATIC_POLICY_CONFIG_INTEGRITY'', ''CANONICAL_SOURCE_SHAPE'', ''STRATEGY_DECISION_IDENTITY'',
      ''PAIR_ACCOUNT_INSTRUMENT_IDENTITY'', ''PROPOSAL_IDENTITY_PROVENANCE'', ''SNAPSHOT_IDENTITY_PROVENANCE'',
      ''TEMPORAL_FRESHNESS'', ''ACTION_DERIVATION'', ''INSTRUMENT_CONSTRAINTS'', ''PENDING_OWNERSHIP_STATE'',
      ''SIZING_TIER_MARGIN'', ''EXPOSURE_LOSS_DRAWDOWN'', ''FINAL_DECISION_ASSEMBLY'']"

type_synonym pushes = "(nat \<times> rejection_code list) list"

definition step_codes :: "pushes \<Rightarrow> nat \<Rightarrow> rejection_code list" where
  "step_codes ps i = concat (map snd (filter (\<lambda>p. fst p = i) ps))"

definition audit :: "pushes \<Rightarrow> risk_action \<Rightarrow> bool \<Rightarrow> audit_step list" where
  "audit ps action sizingStepExecuted =
     map (\<lambda>index.
       let step = index + 1; reasons = ordered (step_codes ps index);
           applicable = (if step = 9 \<or> step = 12 then action = OPEN_ACTION
                         else if step = 11 then sizingStepExecuted
                         else if step = 10 then action \<noteq> NO_CHANGE else True)
       in \<lparr>as_step = step, as_name = STEP_NAMES ! index,
           as_outcome = (if reasons \<noteq> [] then FAIL else if applicable then PASS else SKIPPED), as_reasonCodes = reasons\<rparr>)
       [0..<13]"

record snapshot_check =
  sn_hash :: string
  sn_identity :: "rejection_code list"
  sn_temporal :: "rejection_code list"

definition is_identity_code :: "rejection_code \<Rightarrow> bool" where
  "is_identity_code c \<longleftrightarrow> c = DECISION_IDENTITY_MISMATCH \<or> c = SOURCE_ID_MISMATCH"

definition verifySnapshot ::
    "(string \<Rightarrow> string) \<Rightarrow> (string \<times> json) list \<Rightarrow> provenance \<Rightarrow> string \<Rightarrow> int \<Rightarrow> int \<Rightarrow> rejection_code
     \<Rightarrow> (risk_error, snapshot_check) res" where
  "verifySnapshot sha members prov source evaluationTimeMs age stale =
     rbind (verifyEvidence sha members prov source evaluationTimeMs age stale) (\<lambda>result.
       Inr \<lparr>sn_hash = ec_contentHash result, sn_identity = filter is_identity_code (ec_reasons result),
            sn_temporal = filter (\<lambda>c. \<not> is_identity_code c) (ec_reasons result)\<rparr>)"

subsection \<open>Identities of decisions\<close>

definition action_text :: "risk_action \<Rightarrow> string" where
  "action_text a = (case a of OPEN_ACTION \<Rightarrow> ''OPEN'' | CLOSE_ACTION \<Rightarrow> ''CLOSE'' | NO_CHANGE \<Rightarrow> ''NO_CHANGE''
     | REVERSAL_DEFERRED \<Rightarrow> ''REVERSAL_DEFERRED'')"

definition outcome_text :: "audit_outcome \<Rightarrow> string" where
  "outcome_text x = (case x of PASS \<Rightarrow> ''PASS'' | FAIL \<Rightarrow> ''FAIL'' | SKIPPED \<Rightarrow> ''SKIPPED'')"

definition sizing_outcome_text :: "sizing_outcome \<Rightarrow> string" where
  "sizing_outcome_text x =
     (case x of SIZED \<Rightarrow> ''SIZED'' | NOT_SIZED \<Rightarrow> ''NOT_SIZED'' | SIZING_NOT_APPLICABLE \<Rightarrow> ''NOT_APPLICABLE'')"

definition codes_json :: "rejection_code list \<Rightarrow> json" where
  "codes_json cs = text_array (map code_text cs)"

definition audit_json :: "audit_step list \<Rightarrow> json" where
  "audit_json steps = JArray (map (\<lambda>s. JObject
     [(''step'', JNumber (int (as_step s))), (''name'', JString (as_name s)), (''reasonCodes'', codes_json (as_reasonCodes s)),
      (''outcome'', JString (outcome_text (as_outcome s)))]) steps)"

definition sizing_json :: "sizing_values option \<Rightarrow> json" where
  "sizing_json v =
     (case v of
        None \<Rightarrow> JNull
      | Some z \<Rightarrow> JObject
          [(''riskBudgetInr'', JString (sv_riskBudgetInr z)), (''riskCappedQuantity'', JString (sv_riskCappedQuantity z)),
           (''finalQuantity'', JString (sv_finalQuantity z)), (''finalLeverage'', JString (sv_finalLeverage z)),
           (''finalNotionalUsdt'', JString (sv_finalNotionalUsdt z)), (''finalNotionalInr'', JString (sv_finalNotionalInr z)),
           (''estimatedInitialMarginUsdt'', JString (sv_estimatedInitialMarginUsdt z)),
           (''estimatedInitialMarginInr'', JString (sv_estimatedInitialMarginInr z)),
           (''estimatedStopLossRiskInr'', JString (sv_estimatedStopLossRiskInr z))])"

definition computePositionSizingDecisionId :: "(string \<Rightarrow> string) \<Rightarrow> sizing_decision \<Rightarrow> (risk_error, string) res" where
  "computePositionSizingDecisionId sha z = risk_digest sha (JObject
     [(''schemaVersion'', JNumber 1), (''sourceStrategyDecisionId'', JString (zd_sourceStrategyDecisionId z)),
      (''strategyInstanceId'', JString (zd_strategyInstanceId z)), (''pair'', JString (zd_pair z)),
      (''instrumentSpecSnapshotId'', JString (zd_instrumentSpecSnapshotId z)),
      (''positionSizingPolicyId'', JString (zd_positionSizingPolicyId z)), (''action'', JString (action_text (zd_action z))),
      (''outcome'', JString (sizing_outcome_text (zd_outcome z))), (''sizing'', sizing_json (zd_sizing z)),
      (''sizingReasonCodes'', codes_json (zd_sizingReasonCodes z)), (''auditTrail'', audit_json (zd_auditTrail z))])"

definition entry_stop_json :: "entry_stop option \<Rightarrow> json" where
  "entry_stop_json e =
     (case e of None \<Rightarrow> JNull | Some p \<Rightarrow> JObject (entry_stop_members p @ [(''provenance'', provenance_json (es_provenance p))]))"

definition leverage_json :: "leverage_proposal option \<Rightarrow> json" where
  "leverage_json l =
     (case l of
        None \<Rightarrow> JNull
      | Some p \<Rightarrow> JObject
          [(''proposalId'', JString (lp_proposalId p)), (''proposalPolicyId'', JString (lp_proposalPolicyId p)),
           (''sourceStrategyDecisionId'', JString (lp_sourceStrategyDecisionId p)),
           (''requestedLeverage'', nullable_text (lp_requestedLeverage p))])"

definition override_json :: "risk_override option \<Rightarrow> json" where
  "override_json w =
     (case w of
        None \<Rightarrow> JNull
      | Some v \<Rightarrow> JObject
          [(''overrideId'', JString (ov_overrideId v)),
           (''overrideRiskPerTradePercent'', nullable_text (ov_overrideRiskPerTradePercent v)),
           (''overrideMaxLeverage'', nullable_text (ov_overrideMaxLeverage v)),
           (''overrideMaxNotionalInr'', nullable_text (ov_overrideMaxNotionalInr v))])"

text \<open>Status, action, what is approved, and the reason codes of the outcome.\<close>

definition approved_open_json :: "approved_open \<Rightarrow> json" where
  "approved_open_json a = JObject
     [(''approvedQuantity'', JString (ap_approvedQuantity a)), (''approvedLeverage'', JString (ap_approvedLeverage a)),
      (''approvedNotionalUsdt'', JString (ap_approvedNotionalUsdt a)), (''approvedNotionalInr'', JString (ap_approvedNotionalInr a)),
      (''estimatedInitialMarginUsdt'', JString (ap_estimatedInitialMarginUsdt a)),
      (''estimatedInitialMarginInr'', JString (ap_estimatedInitialMarginInr a)),
      (''estimatedStopLossRiskInr'', JString (ap_estimatedStopLossRiskInr a))]"

definition approved_close_json :: "approved_close \<Rightarrow> json" where
  "approved_close_json a = JObject
     [(''approvedQuantity'', JString (al_approvedQuantity a)), (''approvedNotionalUsdt'', JString (al_approvedNotionalUsdt a)),
      (''approvedNotionalInr'', JString (al_approvedNotionalInr a))]"

definition outcome_json :: "risk_decision \<Rightarrow> json" where
  "outcome_json d =
     (case d of
        ACCEPTED_OPEN (base, a) \<Rightarrow> JObject
          [(''status'', JString ''ACCEPTED''), (''action'', JString ''OPEN''), (''approved'', approved_open_json a),
           (''reasonCodes'', JArray [])]
      | ACCEPTED_CLOSE (base, a) \<Rightarrow> JObject
          [(''status'', JString ''ACCEPTED''), (''action'', JString ''CLOSE''), (''approved'', approved_close_json a),
           (''reasonCodes'', JArray [])]
      | RISK_REJECTED base action primary secondary \<Rightarrow> JObject
          [(''status'', JString ''REJECTED''), (''action'', JString (action_text action)), (''approved'', JNull),
           (''reasonCodes'', codes_json (primary # secondary))])"

definition riskDecisionIdentityPayload :: "risk_context \<Rightarrow> risk_policy \<Rightarrow> string \<Rightarrow> content_hashes \<Rightarrow> json \<Rightarrow> (string \<times> json) list" where
  "riskDecisionIdentityPayload n policy positionSizingDecisionId hashes outcome =
     [(''identityPolicyId'', JString ''P13_RISK_DECISION_IDENTITY_V2''), (''riskPolicyId'', JString (rp_riskPolicyId policy)),
      (''positionSizingDecisionId'', JString positionSizingDecisionId),
      (''sourceStrategyDecisionId'', JString (sd_decisionId (cd_strategyDecision (rc_candidate n)))),
      (''candidate'', candidate_json (rc_candidate n)), (''entryStopProposal'', entry_stop_json (rc_entryStopProposal n)),
      (''leverageProposal'', leverage_json (rc_leverageProposal n)), (''override'', override_json (rc_override n)),
      (''evaluationTimeMs'', JNumber (rc_evaluationTimeMs n)),
      (''accountSnapshotSha256'', nullable_text (ch_accountSnapshotSha256 hashes)),
      (''pairSnapshotSha256'', JString (ch_pairSnapshotSha256 hashes)),
      (''exposureSnapshotSha256'', nullable_text (ch_exposureSnapshotSha256 hashes)),
      (''leverageTierSnapshotSha256'', nullable_text (ch_leverageTierSnapshotSha256 hashes)),
      (''settlementRateSnapshotSha256'', nullable_text (ch_settlementRateSnapshotSha256 hashes)),
      (''outcome'', outcome)]"

subsection \<open>Sizing a position\<close>

definition prerequisiteAudit :: "rejection_code list \<Rightarrow> audit_step list" where
  "prerequisiteAudit codes =
     concat (map (\<lambda>(step, name, watched).
       let reasons = filter (\<lambda>c. c \<in> set watched) codes
       in if reasons \<noteq> [] then [\<lparr>as_step = step, as_name = name, as_outcome = FAIL, as_reasonCodes = reasons\<rparr>] else [])
     [(7, ''TEMPORAL_FRESHNESS'', [ACCOUNT_STATE_UNAVAILABLE, EXPOSURE_STATE_UNAVAILABLE]),
      (10, ''PENDING_OWNERSHIP_STATE'', [PENDING_EXPOSURE_UNKNOWN])])"

text \<open>The entries of one step are merged: all their reasons, failed if there is one, passed if one passed.\<close>

definition merge_step :: "audit_step list \<Rightarrow> nat \<Rightarrow> audit_step" where
  "merge_step entries step =
     (let found = filter (\<lambda>e. as_step e = step) entries; reasons = ordered (concat (map as_reasonCodes found))
      in \<lparr>as_step = step, as_name = (case found of [] \<Rightarrow> [] | e # _ \<Rightarrow> as_name e),
          as_outcome = (if reasons \<noteq> [] then FAIL else if list_ex (\<lambda>e. as_outcome e = PASS) found then PASS else SKIPPED),
          as_reasonCodes = reasons\<rparr>)"

definition merge_audit :: "audit_step list \<Rightarrow> audit_step list" where
  "merge_audit entries = map (merge_step entries) (sort (remdups (map as_step entries)))"

definition sizing_entries ::
    "bool \<Rightarrow> rejection_code list \<Rightarrow> audit_step list \<Rightarrow> tier_result \<Rightarrow> rejection_code list \<Rightarrow> audit_step list" where
  "sizing_entries applicable codes preflightAudit result priceReasons =
     (let sizingReasons = ordered (filter (\<lambda>c. \<not> isInstrumentPriceReason c) priceReasons
            @ (if concat (map as_reasonCodes preflightAudit) \<noteq> [] then []
               else filter (\<lambda>c. \<not> isInstrumentPriceReason c \<and> c \<noteq> ACCOUNT_STATE_UNAVAILABLE
                              \<and> c \<noteq> EXPOSURE_STATE_UNAVAILABLE \<and> c \<noteq> PENDING_EXPOSURE_UNKNOWN) (tz_reasons result)))
      in preflightAudit @ prerequisiteAudit codes @
         [\<lparr>as_step = 9, as_name = ''INSTRUMENT_CONSTRAINTS'',
           as_outcome = (if \<not> applicable then SKIPPED else if list_ex isInstrumentPriceReason priceReasons then FAIL else PASS),
           as_reasonCodes = ordered (filter isInstrumentPriceReason priceReasons)\<rparr>,
          \<lparr>as_step = 11, as_name = ''SIZING_TIER_MARGIN'',
           as_outcome = (if sizingReasons \<noteq> [] then FAIL else if tz_sizing result \<noteq> None then PASS else SKIPPED),
           as_reasonCodes = sizingReasons\<rparr>])"

record sizing_evaluation =
  se_decision :: sizing_decision
  se_capsApplied :: caps_applied

definition evaluatePositionSizing ::
    "(string \<Rightarrow> string) \<Rightarrow> calc_js \<Rightarrow> sizing_request \<Rightarrow> risk_policy \<Rightarrow> audit_step list \<Rightarrow> (risk_error, sizing_evaluation) res" where
  "evaluatePositionSizing sha C request policy preflightAudit =
     (let preflightReasons = concat (map as_reasonCodes preflightAudit) in
      rbind (instrumentPriceReasons C request) (\<lambda>priceReasons.
      rbind (if preflightReasons = [] then resolveTierSizing C request policy
             else Inr (unsized preflightReasons (riskCapsForRequest request policy))) (\<lambda>result.
      let codes = ordered (tz_reasons result @ priceReasons); applicable = sq_action request = OPEN_ACTION;
          decision = cd_strategyDecision (sq_candidate request);
          payload = \<lparr>zd_positionSizingDecisionId = [], zd_sourceStrategyDecisionId = sd_decisionId decision,
            zd_strategyInstanceId = sd_strategyInstanceId decision, zd_pair = cd_pair (sq_candidate request),
            zd_instrumentSpecSnapshotId = cd_instrumentSpecSnapshotId (sq_candidate request),
            zd_positionSizingPolicyId = rp_positionSizingPolicyId policy, zd_action = sq_action request,
            zd_outcome = (if \<not> applicable then SIZING_NOT_APPLICABLE else if tz_sizing result = None then NOT_SIZED else SIZED),
            zd_sizing = tz_sizing result, zd_sizingReasonCodes = codes,
            zd_auditTrail = merge_audit (sizing_entries applicable codes preflightAudit result priceReasons)\<rparr>
      in rbind (computePositionSizingDecisionId sha payload) (\<lambda>k.
           Inr \<lparr>se_decision = payload\<lparr>zd_positionSizingDecisionId := k\<rparr>, se_capsApplied = tz_capsApplied result\<rparr>))))"

subsection \<open>Collecting reasons\<close>

definition engine_normalize :: "decimal_js \<Rightarrow> risk_policy \<Rightarrow> risk_context \<Rightarrow> (risk_error, risk_context) res" where
  "engine_normalize D policy c =
     rbind (normalizeRiskEvaluationContext c) (\<lambda>n.
       if rc_expectedRiskPolicyId n \<noteq> None \<and> rc_expectedRiskPolicyId n \<noteq> Some (rp_riskPolicyId policy)
       then Inl RISK_POLICY_IDENTITY_MISMATCH
       else rbind (normalizeRiskOverride D policy (rc_override n)) (\<lambda>ov. Inr (n\<lparr>rc_override := ov\<rparr>)))"

text \<open>What decision, candidate, proposals and policy have to agree on; the preflight repeats these checks.\<close>

definition identity_pushes ::
    "(string \<Rightarrow> string) \<Rightarrow> strategy_definition list \<Rightarrow> risk_policy \<Rightarrow> risk_context \<Rightarrow> (risk_error, pushes) res" where
  "identity_pushes sha definitions policy n =
     (let d = cd_strategyDecision (rc_candidate n); pair = rc_pairSnapshot n in
      rbind (strategyLineageReasons sha definitions (rc_candidate n) (rc_strategyOrigin n)) (\<lambda>lineage.
        Inr [(2, lineage),
             (6, if sd_evaluationTimeMs d > rc_evaluationTimeMs n then [EVIDENCE_TEMPORAL_CAUSALITY_VIOLATION] else []),
             (3, if cd_pair (rc_candidate n) \<noteq> sd_pair d \<or> ps_pair pair \<noteq> sd_pair d \<or> pc_pair (rp_pairConfig policy) \<noteq> sd_pair d
                    \<or> cd_instrumentSpecSnapshotId (rc_candidate n) \<noteq> ps_instrumentSpecSnapshotId pair
                 then [DECISION_IDENTITY_MISMATCH] else []),
             (4, case rc_entryStopProposal n of None \<Rightarrow> []
                 | Some e \<Rightarrow> if es_sourceStrategyDecisionId e \<noteq> sd_decisionId d \<or> es_pair e \<noteq> sd_pair d
                            then [DECISION_IDENTITY_MISMATCH] else []),
             (4, case rc_leverageProposal n of None \<Rightarrow> []
                 | Some l \<Rightarrow> if lp_sourceStrategyDecisionId l \<noteq> sd_decisionId d then [DECISION_IDENTITY_MISMATCH] else [])]))"

text \<open>The five kinds of evidence: the members, the provenance, the source it has to come from, how old it may be
  and the code for being older.\<close>

record evidence_item =
  ei_members :: "(string \<times> json) list"
  ei_provenance :: provenance
  ei_source :: string
  ei_age :: int
  ei_stale :: rejection_code

definition pair_evidence :: "risk_policy \<Rightarrow> pair_snapshot \<Rightarrow> evidence_item" where
  "pair_evidence policy p = \<lparr>ei_members = pair_members p, ei_provenance = ps_provenance p,
     ei_source = sp_pairRiskSourceId (rp_sourceAuthorityPolicy policy), ei_age = fp_maxPairSnapshotAgeMs (rp_freshnessPolicy policy),
     ei_stale = PAIR_STATE_UNAVAILABLE\<rparr>"

definition entry_evidence :: "risk_policy \<Rightarrow> entry_stop \<Rightarrow> evidence_item" where
  "entry_evidence policy e = \<lparr>ei_members = entry_stop_members e, ei_provenance = es_provenance e,
     ei_source = sp_pairRiskSourceId (rp_sourceAuthorityPolicy policy), ei_age = fp_maxPairSnapshotAgeMs (rp_freshnessPolicy policy),
     ei_stale = PAIR_STATE_UNAVAILABLE\<rparr>"

definition account_evidence :: "risk_policy \<Rightarrow> account_snapshot \<Rightarrow> evidence_item" where
  "account_evidence policy a = \<lparr>ei_members = account_members a, ei_provenance = ac_provenance a,
     ei_source = sp_accountRiskSourceId (rp_sourceAuthorityPolicy policy),
     ei_age = fp_maxAccountSnapshotAgeMs (rp_freshnessPolicy policy), ei_stale = ACCOUNT_STATE_STALE\<rparr>"

definition exposure_evidence :: "risk_policy \<Rightarrow> exposure_snapshot \<Rightarrow> evidence_item" where
  "exposure_evidence policy x = \<lparr>ei_members = exposure_members x, ei_provenance = ex_provenance x,
     ei_source = sp_exposureSourceId (rp_sourceAuthorityPolicy policy),
     ei_age = fp_maxExposureSnapshotAgeMs (rp_freshnessPolicy policy), ei_stale = EXPOSURE_STATE_STALE\<rparr>"

definition tier_evidence :: "risk_policy \<Rightarrow> tier_snapshot \<Rightarrow> evidence_item" where
  "tier_evidence policy t = \<lparr>ei_members = tier_members t, ei_provenance = ts_provenance t,
     ei_source = sp_leverageTierSourceId (rp_sourceAuthorityPolicy policy),
     ei_age = fp_maxLeverageTierSnapshotAgeMs (rp_freshnessPolicy policy), ei_stale = LEVERAGE_TIERS_STALE\<rparr>"

definition settlement_evidence :: "risk_policy \<Rightarrow> settlement_snapshot \<Rightarrow> evidence_item" where
  "settlement_evidence policy s = \<lparr>ei_members = settlement_members s, ei_provenance = st_provenance s,
     ei_source = sp_conversionSourceId (rp_sourceAuthorityPolicy policy),
     ei_age = fp_maxSettlementRateSnapshotAgeMs (rp_freshnessPolicy policy), ei_stale = SETTLEMENT_RATE_STALE\<rparr>"

definition check_item :: "(string \<Rightarrow> string) \<Rightarrow> int \<Rightarrow> evidence_item \<Rightarrow> (risk_error, snapshot_check) res" where
  "check_item sha time i = verifySnapshot sha (ei_members i) (ei_provenance i) (ei_source i) time (ei_age i) (ei_stale i)"

text \<open>A snapshot that may be missing: its digest, and the reasons of steps six and seven; \<open>known\<close> and \<open>missing\<close> are
  the further reasons of step seven when it is there and when it is not.\<close>

definition snapshot_pushes ::
    "(string \<Rightarrow> string) \<Rightarrow> int \<Rightarrow> evidence_item option \<Rightarrow> rejection_code list \<Rightarrow> rejection_code list
     \<Rightarrow> (risk_error, string option \<times> pushes) res" where
  "snapshot_pushes sha time item known missing =
     (case item of
        None \<Rightarrow> Inr (None, [(6, missing)])
      | Some i \<Rightarrow> rbind (check_item sha time i) (\<lambda>s.
          Inr (Some (sn_hash s), [(5, sn_identity s), (6, sn_temporal s), (6, known)])))"

definition evidence_pushes ::
    "(string \<Rightarrow> string) \<Rightarrow> risk_policy \<Rightarrow> risk_context \<Rightarrow> risk_action \<Rightarrow> (risk_error, content_hashes \<times> pushes) res" where
  "evidence_pushes sha policy n action =
     (let time = rc_evaluationTimeMs n; pair = rc_pairSnapshot n; needed = (\<lambda>b c. if b then [c] else []) in
      rbind (snapshot_pushes sha time (Some (pair_evidence policy pair)) [] []) (\<lambda>(_, pairP).
      rbind (snapshot_pushes sha time (map_option (entry_evidence policy) (rc_entryStopProposal n)) [] []) (\<lambda>(_, entryP).
      rbind (snapshot_pushes sha time (map_option (account_evidence policy) (rc_accountSnapshot n))
               (needed ((case rc_accountSnapshot n of None \<Rightarrow> False | Some a \<Rightarrow> \<not> ac_accountStateKnown a) \<and> action \<noteq> NO_CHANGE)
                  ACCOUNT_STATE_UNAVAILABLE)
               (needed (action = OPEN_ACTION \<or> action = CLOSE_ACTION \<or> action = REVERSAL_DEFERRED) ACCOUNT_STATE_UNAVAILABLE))
        (\<lambda>(accountHash, accountP).
      rbind (snapshot_pushes sha time (map_option (exposure_evidence policy) (rc_exposureSnapshot n)) []
               (needed (action = OPEN_ACTION) EXPOSURE_STATE_UNAVAILABLE)) (\<lambda>(exposureHash, exposureP).
      rbind (snapshot_pushes sha time (map_option (tier_evidence policy) (rc_leverageTierSnapshot n)) []
               (needed (action = OPEN_ACTION) LEVERAGE_TIERS_UNAVAILABLE)) (\<lambda>(tierHash, tierP).
      rbind (snapshot_pushes sha time (map_option (settlement_evidence policy) (rc_settlementRateSnapshot n)) []
               (needed (action = OPEN_ACTION \<or> (ps_position pair \<noteq> POSITION_FLAT \<and> action \<noteq> NO_CHANGE)) SETTLEMENT_RATE_UNAVAILABLE))
        (\<lambda>(settlementHash, settlementP).
      rbind (evidenceContentSha256 sha (pair_members pair) (ps_provenance pair)) (\<lambda>pairHash.
        Inr (\<lparr>ch_accountSnapshotSha256 = accountHash, ch_pairSnapshotSha256 = pairHash, ch_exposureSnapshotSha256 = exposureHash,
              ch_leverageTierSnapshotSha256 = tierHash, ch_settlementRateSnapshotSha256 = settlementHash\<rparr>,
             pairP @ entryP @ accountP @ exposureP @ tierP @ settlementP)))))))))"

definition upper_char :: "char \<Rightarrow> char" where
  "upper_char c = (if 97 \<le> (of_char c :: nat) \<and> (of_char c :: nat) \<le> 122 then char_of ((of_char c :: nat) - 32) else c)"

definition action_pushes :: "risk_context \<Rightarrow> risk_action \<Rightarrow> pushes" where
  "action_pushes n action =
     (let pair = rc_pairSnapshot n in
      [(3, case (rc_accountSnapshot n, ps_ownership pair) of
             (Some a, RECONCILED_FLAT account _) \<Rightarrow> if account \<noteq> ac_accountId a then [ACCOUNT_IDENTITY_MISMATCH] else []
           | (Some a, RECONCILED_OPEN account _ _ _) \<Rightarrow> if account \<noteq> ac_accountId a then [ACCOUNT_IDENTITY_MISMATCH] else []
           | _ \<Rightarrow> []),
       (7, if action = NO_CHANGE then [NO_CHANGE_TARGET_ALREADY_HELD] else []),
       (7, if action = REVERSAL_DEFERRED then [REVERSAL_REQUIRES_SEQUENTIAL_EVALUATION] else []),
       (8, if action = OPEN_ACTION \<and> (map upper_char (ps_status pair) \<noteq> ''ACTIVE'' \<or> ps_exitOnly pair)
           then [INSTRUMENT_NOT_TRADEABLE_FOR_NEW_EXPOSURE] else [])])"

definition ownership_pushes :: "risk_context \<Rightarrow> risk_action \<Rightarrow> valuation_check \<Rightarrow> ownership_check \<Rightarrow> pushes" where
  "ownership_pushes n action valuation ownership =
     (if action = NO_CHANGE then []
      else [(5, filter (\<lambda>c. c \<noteq> POSITION_OWNERSHIP_UNRECONCILED \<and> c \<noteq> EVIDENCE_TEMPORAL_CAUSALITY_VIOLATION) (vc_reasons valuation)),
            (6, filter (\<lambda>c. c = EVIDENCE_TEMPORAL_CAUSALITY_VIOLATION) (vc_reasons valuation)),
            (9, oc_reasons ownership @ filter (\<lambda>c. c = POSITION_OWNERSHIP_UNRECONCILED) (vc_reasons valuation))])
     @ [(9, if action = CLOSE_ACTION \<and> oc_ownedQuantity ownership = None then [POSITION_OWNERSHIP_MISMATCH] else []),
        (9, if action = OPEN_ACTION \<and> (case rc_exposureSnapshot n of None \<Rightarrow> False | Some x \<Rightarrow> ex_pending x = UNKNOWN)
            then [PENDING_EXPOSURE_UNKNOWN] else [])]"

definition sizing_request_of :: "risk_context \<Rightarrow> risk_action \<Rightarrow> sizing_request" where
  "sizing_request_of n action =
     \<lparr>sq_action = action, sq_candidate = rc_candidate n, sq_entryStopProposal = rc_entryStopProposal n,
      sq_leverageProposal = rc_leverageProposal n, sq_override = rc_override n, sq_accountSnapshot = rc_accountSnapshot n,
      sq_pairSnapshot = rc_pairSnapshot n, sq_exposureSnapshot = rc_exposureSnapshot n,
      sq_leverageTierSnapshot = rc_leverageTierSnapshot n, sq_settlementRateSnapshot = rc_settlementRateSnapshot n\<rparr>"

text \<open>Checks before sizing, so that nothing is sized on evidence that is refused. For an opening the evidence, the
  account and the reservations are checked too.\<close>

definition optional_item_pushes :: "(string \<Rightarrow> string) \<Rightarrow> int \<Rightarrow> evidence_item option \<Rightarrow> (risk_error, pushes) res" where
  "optional_item_pushes sha time item =
     (case item of
        None \<Rightarrow> Inr []
      | Some i \<Rightarrow> rbind (check_item sha time i) (\<lambda>s. Inr [(5, sn_identity s), (6, sn_temporal s)]))"

definition positionSizingPreflightAudit ::
    "(string \<Rightarrow> string) \<Rightarrow> strategy_definition list \<Rightarrow> decimal_js \<Rightarrow> risk_policy \<Rightarrow> risk_context \<Rightarrow> risk_action
     \<Rightarrow> (risk_error, audit_step list) res" where
  "positionSizingPreflightAudit sha definitions D policy n action =
     rbind (identity_pushes sha definitions policy n) (\<lambda>identity.
     rbind (if action = OPEN_ACTION
            then rbind (mapR (optional_item_pushes sha (rc_evaluationTimeMs n))
                          [Some (pair_evidence policy (rc_pairSnapshot n)),
                           map_option (entry_evidence policy) (rc_entryStopProposal n),
                           map_option (account_evidence policy) (rc_accountSnapshot n),
                           map_option (exposure_evidence policy) (rc_exposureSnapshot n),
                           map_option (tier_evidence policy) (rc_leverageTierSnapshot n),
                           map_option (settlement_evidence policy) (rc_settlementRateSnapshot n)])
                   (\<lambda>items. Inr (concat items @
                     [(6, accountStateReasons D (rc_accountSnapshot n)),
                      (9, reservationIdentityReasons (rc_exposureSnapshot n) (rc_candidate n))]))
            else Inr []) (\<lambda>evidence.
       let ps = identity @ evidence
       in Inr (map (\<lambda>step. \<lparr>as_step = step, as_name = STEP_NAMES ! (step - 1),
                     as_outcome = (if step_codes ps (step - 1) \<noteq> [] then FAIL else PASS),
                     as_reasonCodes = ordered (step_codes ps (step - 1))\<rparr>)
                 (if action = OPEN_ACTION then [3, 4, 5, 6, 7, 10] else [3, 4, 5, 7]))))"

definition limit_pushes ::
    "calc_js \<Rightarrow> risk_policy \<Rightarrow> risk_context \<Rightarrow> risk_action \<Rightarrow> sizing_decision \<Rightarrow> (risk_error, pushes) res" where
  "limit_pushes C policy n action sizing =
     (if action \<noteq> OPEN_ACTION then Inr []
      else rbind (lossDrawdownReasons C (rc_accountSnapshot n) policy (rc_evaluationTimeMs n)) (\<lambda>loss.
        Inr [(11, exposureReasons (cj_D C) (rc_exposureSnapshot n) (rc_candidate n) policy
                    (map_option sv_finalNotionalInr (zd_sizing sizing))),
             (11, loss), (11, accountStateReasons (cj_D C) (rc_accountSnapshot n))]))"

text \<open>The notional of a close, with the pair's own multiplier and the price of its valuation.\<close>

definition closeNotional ::
    "calc_js \<Rightarrow> risk_context \<Rightarrow> risk_action \<Rightarrow> ownership_check \<Rightarrow> (risk_error, string option \<times> pushes) res" where
  "closeNotional C n action ownership =
     (let D = cj_D C in
      case (oc_ownedQuantity ownership, ps_position (rc_pairSnapshot n)) of
        (Some quantity, POSITION_OPEN position) \<Rightarrow>
          (case op_valuation position of
             Some v \<Rightarrow>
               if action \<noteq> CLOSE_ACTION then Inr (None, [])
               else caught
                 (rbind (checkedProduct C [riskDecimal D quantity, riskDecimal D (vl_valuationPriceUsdt v),
                                           riskDecimal D (ps_contractMultiplier (rc_pairSnapshot n))]) (canonicalRiskDecimal D))
                 (\<lambda>t. (Some t, [])) (None, [(9, [VALUATION_NUMERIC_CONTEXT_EXCEEDED])])
           | None \<Rightarrow> Inr (None, []))
      | _ \<Rightarrow> Inr (None, []))"

subsection \<open>The decision\<close>

definition approved_of_sizing :: "sizing_values \<Rightarrow> approved_open" where
  "approved_of_sizing v =
     \<lparr>ap_approvedQuantity = sv_finalQuantity v, ap_approvedLeverage = sv_finalLeverage v,
      ap_approvedNotionalUsdt = sv_finalNotionalUsdt v, ap_approvedNotionalInr = sv_finalNotionalInr v,
      ap_estimatedInitialMarginUsdt = sv_estimatedInitialMarginUsdt v,
      ap_estimatedInitialMarginInr = sv_estimatedInitialMarginInr v, ap_estimatedStopLossRiskInr = sv_estimatedStopLossRiskInr v\<rparr>"

definition acceptOpen :: "decision_base \<Rightarrow> sizing_evaluation \<Rightarrow> (risk_error, risk_decision) res" where
  "acceptOpen base sizing =
     (case zd_sizing (se_decision sizing) of
        Some v \<Rightarrow> if zd_outcome (se_decision sizing) \<noteq> SIZED then Inl PlainError
                  else Inr (ACCEPTED_OPEN (base, approved_of_sizing v))
      | None \<Rightarrow> Inl PlainError)"

definition acceptClose ::
    "decision_base \<Rightarrow> risk_context \<Rightarrow> string option \<Rightarrow> string option \<Rightarrow> string option \<Rightarrow> (risk_error, risk_decision) res" where
  "acceptClose base n quantity notionalInr notionalUsdt =
     (case (quantity, notionalInr, notionalUsdt, ps_position (rc_pairSnapshot n)) of
        (Some q, Some inr, Some usdt, POSITION_OPEN position) \<Rightarrow>
          if op_valuation position = None then Inl PlainError
          else Inr (ACCEPTED_CLOSE (base, \<lparr>al_approvedQuantity = q, al_approvedNotionalUsdt = usdt, al_approvedNotionalInr = inr\<rparr>))
      | _ \<Rightarrow> Inl PlainError)"

definition with_identity :: "string \<Rightarrow> risk_decision \<Rightarrow> risk_decision" where
  "with_identity k d =
     (case d of
        ACCEPTED_OPEN (base, a) \<Rightarrow> ACCEPTED_OPEN (base\<lparr>db_riskDecisionId := k\<rparr>, a)
      | ACCEPTED_CLOSE (base, a) \<Rightarrow> ACCEPTED_CLOSE (base\<lparr>db_riskDecisionId := k\<rparr>, a)
      | RISK_REJECTED base action primary secondary \<Rightarrow> RISK_REJECTED (base\<lparr>db_riskDecisionId := k\<rparr>) action primary secondary)"

definition identify ::
    "(string \<Rightarrow> string) \<Rightarrow> risk_context \<Rightarrow> risk_policy \<Rightarrow> string \<Rightarrow> content_hashes \<Rightarrow> risk_decision \<Rightarrow> (risk_error, risk_decision) res" where
  "identify sha n policy sizingId hashes d =
     rbind (risk_digest sha (JObject (riskDecisionIdentityPayload n policy sizingId hashes (outcome_json d)))) (\<lambda>k.
       Inr (with_identity k d))"

definition decision_base_of ::
    "risk_policy \<Rightarrow> risk_context \<Rightarrow> sizing_evaluation \<Rightarrow> audit_step list \<Rightarrow> content_hashes \<Rightarrow> decision_base" where
  "decision_base_of policy n sizing trail hashes =
     (let d = cd_strategyDecision (rc_candidate n) in
      \<lparr>db_riskDecisionId = [], db_riskPolicyId = rp_riskPolicyId policy, db_sourceStrategyDecisionId = sd_decisionId d,
       db_sourcePositionSizingDecisionId = zd_positionSizingDecisionId (se_decision sizing), db_strategyId = sd_strategyId d,
       db_strategyVersion = sd_strategyVersion d, db_parameterHash = sd_parameterHash d,
       db_strategyInstanceId = sd_strategyInstanceId d, db_pair = sd_pair d, db_riskMode = mc_mode (rp_modeConfig policy),
       db_evaluationTimeMs = rc_evaluationTimeMs n, db_capsApplied = se_capsApplied sizing, db_auditTrail = trail,
       db_inputContentHashes = hashes\<rparr>)"

definition decide ::
    "decision_base \<Rightarrow> risk_context \<Rightarrow> risk_action \<Rightarrow> rejection_code list \<Rightarrow> sizing_evaluation \<Rightarrow> ownership_check \<Rightarrow> string option
     \<Rightarrow> (risk_error, risk_decision) res" where
  "decide base n action reasons sizing ownership notionalUsdt =
     (case reasons of
        primary # secondary \<Rightarrow> Inr (RISK_REJECTED base action primary secondary)
      | [] \<Rightarrow>
          if action = OPEN_ACTION then acceptOpen base sizing
          else if action = CLOSE_ACTION
          then acceptClose base n (oc_ownedQuantity ownership) (oc_ownedNotionalInr ownership) notionalUsdt
          else Inl PlainError)"

definition evaluateRisk ::
    "(string \<Rightarrow> string) \<Rightarrow> strategy_definition list \<Rightarrow> calc_js \<Rightarrow> risk_policy \<Rightarrow> risk_context \<Rightarrow> (risk_error, risk_decision) res" where
  "evaluateRisk sha definitions C policy c =
     rbind (engine_normalize (cj_D C) policy c) (\<lambda>n.
     let d = cd_strategyDecision (rc_candidate n); pair = rc_pairSnapshot n in
     if sd_status d \<noteq> READY \<or> sd_targetExposure d = None then Inl RISK_SOURCE_INVALID
     else
     rbind (deriveRiskAction d (ps_position pair)) (\<lambda>action.
     rbind (identity_pushes sha definitions policy n) (\<lambda>identity.
     rbind (evidence_pushes sha policy n action) (\<lambda>(hashes, evidence).
     rbind (verifyCurrentValuation C pair (rc_settlementRateSnapshot n) policy (rc_evaluationTimeMs n)) (\<lambda>valuation.
     rbind (verifyOwnership C pair (rc_candidate n) (map_option ac_accountId (rc_accountSnapshot n))
              (vc_unitValuationInrPerQty valuation) (vc_aggregateCurrentNotionalInr valuation)) (\<lambda>ownership.
     rbind (positionSizingPreflightAudit sha definitions (cj_D C) policy n action) (\<lambda>preflight.
     rbind (evaluatePositionSizing sha C (sizing_request_of n action) policy preflight) (\<lambda>sizing.
     rbind (limit_pushes C policy n action (se_decision sizing)) (\<lambda>limits.
     rbind (closeNotional C n action ownership) (\<lambda>(notionalUsdt, closing).
     let ps = identity @ evidence @ action_pushes n action @ ownership_pushes n action valuation ownership
                @ map (\<lambda>s. (as_step s - 1, as_reasonCodes s)) (zd_auditTrail (se_decision sizing)) @ limits @ closing;
         reasons = ordered (set_of_values (concat (map (step_codes ps) [0..<13])));
         trail = audit ps action (list_ex (\<lambda>s. as_step s = 11 \<and> as_outcome s \<noteq> SKIPPED) (zd_auditTrail (se_decision sizing)));
         base = decision_base_of policy n sizing trail hashes
     in rbind (decide base n action reasons sizing ownership notionalUsdt)
          (identify sha n policy (zd_positionSizingDecisionId (se_decision sizing)) hashes)))))))))))"

text \<open>The sizing alone (\<^verbatim>\<open>RiskEngine.evaluatePositionSizing\<close>).\<close>

definition engineEvaluatePositionSizing ::
    "(string \<Rightarrow> string) \<Rightarrow> strategy_definition list \<Rightarrow> calc_js \<Rightarrow> risk_policy \<Rightarrow> risk_context \<Rightarrow> (risk_error, sizing_evaluation) res" where
  "engineEvaluatePositionSizing sha definitions C policy c =
     rbind (engine_normalize (cj_D C) policy c) (\<lambda>n.
     rbind (deriveRiskAction (cd_strategyDecision (rc_candidate n)) (ps_position (rc_pairSnapshot n))) (\<lambda>action.
     rbind (positionSizingPreflightAudit sha definitions (cj_D C) policy n action) (\<lambda>preflight.
       evaluatePositionSizing sha C (sizing_request_of n action) policy preflight)))"

subsection \<open>Ordering and collecting\<close>

lemma ordered_eq: "ordered codes = filter (\<lambda>c. c \<in> set codes) REJECTION_PRECEDENCE_V1"
  by (simp add: ordered_def)

lemma ordered_set [simp]: "set (ordered codes) = set codes"
  by (auto simp: ordered_eq)

lemma ordered_empty [simp]: "ordered codes = [] \<longleftrightarrow> codes = []"
  by (metis ordered_set set_empty)

lemma ordered_cong: "set cs = set ds \<Longrightarrow> ordered cs = ordered ds"
  by (simp add: ordered_eq)

lemma step_codes_append: "step_codes (ps @ qs) i = step_codes ps i @ step_codes qs i"
  by (simp add: step_codes_def)

lemma step_codes_empty: "step_codes ps i = [] \<longleftrightarrow> (\<forall>cs. (i, cs) \<in> set ps \<longrightarrow> cs = [])"
  by (auto simp: step_codes_def filter_empty_conv)

text \<open>What was collected, whatever the outcome.\<close>

record evaluation =
  ev_context :: risk_context
  ev_action :: risk_action
  ev_identity :: pushes
  ev_hashes :: content_hashes
  ev_evidence :: pushes
  ev_valuation :: valuation_check
  ev_ownership :: ownership_check
  ev_preflight :: "audit_step list"
  ev_sizing :: sizing_evaluation
  ev_limits :: pushes
  ev_notionalUsdt :: "string option"
  ev_closing :: pushes

definition ev_pushes :: "evaluation \<Rightarrow> pushes" where
  "ev_pushes e = ev_identity e @ ev_evidence e @ action_pushes (ev_context e) (ev_action e)
     @ ownership_pushes (ev_context e) (ev_action e) (ev_valuation e) (ev_ownership e)
     @ map (\<lambda>s. (as_step s - 1, as_reasonCodes s)) (zd_auditTrail (se_decision (ev_sizing e))) @ ev_limits e @ ev_closing e"

definition ev_trail :: "evaluation \<Rightarrow> audit_step list" where
  "ev_trail e = audit (ev_pushes e) (ev_action e)
     (list_ex (\<lambda>s. as_step s = 11 \<and> as_outcome s \<noteq> SKIPPED) (zd_auditTrail (se_decision (ev_sizing e))))"

definition ev_reasons :: "evaluation \<Rightarrow> rejection_code list" where
  "ev_reasons e = ordered (set_of_values (concat (map (step_codes (ev_pushes e)) [0..<13])))"

definition ev_base :: "risk_policy \<Rightarrow> evaluation \<Rightarrow> decision_base" where
  "ev_base policy e = decision_base_of policy (ev_context e) (ev_sizing e) (ev_trail e) (ev_hashes e)"

definition evaluated ::
    "(string \<Rightarrow> string) \<Rightarrow> strategy_definition list \<Rightarrow> calc_js \<Rightarrow> risk_policy \<Rightarrow> risk_context \<Rightarrow> evaluation \<Rightarrow> bool" where
  "evaluated sha definitions C policy c e \<longleftrightarrow>
     (let n = ev_context e; d = cd_strategyDecision (rc_candidate n); pair = rc_pairSnapshot n; action = ev_action e in
      engine_normalize (cj_D C) policy c = Inr n \<and> sd_status d = READY
      \<and> deriveRiskAction d (ps_position pair) = Inr action
      \<and> identity_pushes sha definitions policy n = Inr (ev_identity e)
      \<and> evidence_pushes sha policy n action = Inr (ev_hashes e, ev_evidence e)
      \<and> verifyCurrentValuation C pair (rc_settlementRateSnapshot n) policy (rc_evaluationTimeMs n) = Inr (ev_valuation e)
      \<and> verifyOwnership C pair (rc_candidate n) (map_option ac_accountId (rc_accountSnapshot n))
          (vc_unitValuationInrPerQty (ev_valuation e)) (vc_aggregateCurrentNotionalInr (ev_valuation e)) = Inr (ev_ownership e)
      \<and> positionSizingPreflightAudit sha definitions (cj_D C) policy n action = Inr (ev_preflight e)
      \<and> evaluatePositionSizing sha C (sizing_request_of n action) policy (ev_preflight e) = Inr (ev_sizing e)
      \<and> limit_pushes C policy n action (se_decision (ev_sizing e)) = Inr (ev_limits e)
      \<and> closeNotional C n action (ev_ownership e) = Inr (ev_notionalUsdt e, ev_closing e))"

lemma rbind_pairE:
  assumes "rbind m (\<lambda>(a, b). f a b) = Inr y"
  obtains a b where "m = Inr (a, b)" and "f a b = Inr y"
  using assms by (auto simp: rbind_eq_Inr split: prod.splits)

lemma evaluateRisk_Inr:
  assumes "evaluateRisk sha definitions C policy c = Inr dec"
  obtains e d k where "evaluated sha definitions C policy c e"
    and "decide (ev_base policy e) (ev_context e) (ev_action e) (ev_reasons e) (ev_sizing e) (ev_ownership e) (ev_notionalUsdt e) = Inr d"
    and "risk_digest sha (JObject (riskDecisionIdentityPayload (ev_context e) policy
           (zd_positionSizingDecisionId (se_decision (ev_sizing e))) (ev_hashes e) (outcome_json d))) = Inr k"
    and "dec = with_identity k d"
proof -
  from assms obtain n where n: "engine_normalize (cj_D C) policy c = Inr n"
    and rest: "(let d = cd_strategyDecision (rc_candidate n); pair = rc_pairSnapshot n in
     if sd_status d \<noteq> READY \<or> sd_targetExposure d = None then Inl RISK_SOURCE_INVALID
     else
     rbind (deriveRiskAction d (ps_position pair)) (\<lambda>action.
     rbind (identity_pushes sha definitions policy n) (\<lambda>identity.
     rbind (evidence_pushes sha policy n action) (\<lambda>(hashes, evidence).
     rbind (verifyCurrentValuation C pair (rc_settlementRateSnapshot n) policy (rc_evaluationTimeMs n)) (\<lambda>valuation.
     rbind (verifyOwnership C pair (rc_candidate n) (map_option ac_accountId (rc_accountSnapshot n))
              (vc_unitValuationInrPerQty valuation) (vc_aggregateCurrentNotionalInr valuation)) (\<lambda>ownership.
     rbind (positionSizingPreflightAudit sha definitions (cj_D C) policy n action) (\<lambda>preflight.
     rbind (evaluatePositionSizing sha C (sizing_request_of n action) policy preflight) (\<lambda>sizing.
     rbind (limit_pushes C policy n action (se_decision sizing)) (\<lambda>limits.
     rbind (closeNotional C n action ownership) (\<lambda>(notionalUsdt, closing).
     let ps = identity @ evidence @ action_pushes n action @ ownership_pushes n action valuation ownership
                @ map (\<lambda>s. (as_step s - 1, as_reasonCodes s)) (zd_auditTrail (se_decision sizing)) @ limits @ closing;
         reasons = ordered (set_of_values (concat (map (step_codes ps) [0..<13])));
         trail = audit ps action (list_ex (\<lambda>s. as_step s = 11 \<and> as_outcome s \<noteq> SKIPPED) (zd_auditTrail (se_decision sizing)));
         base = decision_base_of policy n sizing trail hashes
     in rbind (decide base n action reasons sizing ownership notionalUsdt)
          (identify sha n policy (zd_positionSizingDecisionId (se_decision sizing)) hashes))))))))))) = Inr dec"
    unfolding evaluateRisk_def by (rule rbindE)
  have ready: "sd_status (cd_strategyDecision (rc_candidate n)) = READY"
    using rest by (auto simp: Let_def split: if_splits)
  obtain action identity hashes evidence valuation ownership preflight sizing limits notionalUsdt closing where
    runs: "deriveRiskAction (cd_strategyDecision (rc_candidate n)) (ps_position (rc_pairSnapshot n)) = Inr action"
      "identity_pushes sha definitions policy n = Inr identity" "evidence_pushes sha policy n action = Inr (hashes, evidence)"
      "verifyCurrentValuation C (rc_pairSnapshot n) (rc_settlementRateSnapshot n) policy (rc_evaluationTimeMs n) = Inr valuation"
      "verifyOwnership C (rc_pairSnapshot n) (rc_candidate n) (map_option ac_accountId (rc_accountSnapshot n))
         (vc_unitValuationInrPerQty valuation) (vc_aggregateCurrentNotionalInr valuation) = Inr ownership"
      "positionSizingPreflightAudit sha definitions (cj_D C) policy n action = Inr preflight"
      "evaluatePositionSizing sha C (sizing_request_of n action) policy preflight = Inr sizing"
      "limit_pushes C policy n action (se_decision sizing) = Inr limits"
      "closeNotional C n action ownership = Inr (notionalUsdt, closing)"
    and last: "(let ps = identity @ evidence @ action_pushes n action @ ownership_pushes n action valuation ownership
                @ map (\<lambda>s. (as_step s - 1, as_reasonCodes s)) (zd_auditTrail (se_decision sizing)) @ limits @ closing;
         reasons = ordered (set_of_values (concat (map (step_codes ps) [0..<13])));
         trail = audit ps action (list_ex (\<lambda>s. as_step s = 11 \<and> as_outcome s \<noteq> SKIPPED) (zd_auditTrail (se_decision sizing)));
         base = decision_base_of policy n sizing trail hashes
     in rbind (decide base n action reasons sizing ownership notionalUsdt)
          (identify sha n policy (zd_positionSizingDecisionId (se_decision sizing)) hashes)) = Inr dec"
    using rest unfolding Let_def[of "cd_strategyDecision _"] Let_def[of "rc_pairSnapshot _"] if_Inl_eq_Inr
    by (elim conjE rbind_pairE rbindE) (rule that; assumption)
  let ?e = "\<lparr>ev_context = n, ev_action = action, ev_identity = identity, ev_hashes = hashes, ev_evidence = evidence,
    ev_valuation = valuation, ev_ownership = ownership, ev_preflight = preflight, ev_sizing = sizing, ev_limits = limits,
    ev_notionalUsdt = notionalUsdt, ev_closing = closing\<rparr>"
  have e: "evaluated sha definitions C policy c ?e" using n ready runs by (simp add: evaluated_def)
  have "rbind (decide (ev_base policy ?e) (ev_context ?e) (ev_action ?e) (ev_reasons ?e) (ev_sizing ?e) (ev_ownership ?e)
      (ev_notionalUsdt ?e)) (identify sha n policy (zd_positionSizingDecisionId (se_decision sizing)) hashes) = Inr dec"
    using last by (simp only: Let_def ev_base_def ev_reasons_def ev_trail_def ev_pushes_def evaluation.simps)
  then obtain d where d: "decide (ev_base policy ?e) (ev_context ?e) (ev_action ?e) (ev_reasons ?e) (ev_sizing ?e) (ev_ownership ?e)
      (ev_notionalUsdt ?e) = Inr d" and i: "identify sha n policy (zd_positionSizingDecisionId (se_decision sizing)) hashes d = Inr dec"
    by (rule rbindE)
  from i obtain k where "risk_digest sha (JObject (riskDecisionIdentityPayload n policy
      (zd_positionSizingDecisionId (se_decision sizing)) hashes (outcome_json d))) = Inr k" "dec = with_identity k d"
    unfolding identify_def by (elim rbindE) simp
  with that[OF e d] show thesis by simp
qed

subsection \<open>Reasons decide\<close>

definition base_of :: "risk_decision \<Rightarrow> decision_base" where
  "base_of d = (case d of ACCEPTED_OPEN (b, _) \<Rightarrow> b | ACCEPTED_CLOSE (b, _) \<Rightarrow> b | RISK_REJECTED b _ _ _ \<Rightarrow> b)"

definition reasons_of :: "risk_decision \<Rightarrow> rejection_code list" where
  "reasons_of d = (case d of RISK_REJECTED _ _ primary secondary \<Rightarrow> primary # secondary | _ \<Rightarrow> [])"

lemma with_identity_base [simp]:
  "base_of (with_identity k d) = (base_of d)\<lparr>db_riskDecisionId := k\<rparr>" "reasons_of (with_identity k d) = reasons_of d"
  by (auto simp: base_of_def reasons_of_def with_identity_def split: risk_decision.splits prod.splits)

lemma decide_Inr:
  assumes "decide base n action reasons sizing ownership notional = Inr d"
  shows "base_of d = base" and "reasons_of d = reasons"
  using assms
  by (auto simp: decide_def base_of_def reasons_of_def acceptOpen_def acceptClose_def
      split: list.splits if_splits option.splits pair_position.splits)

lemma audit_fields [simp]:
  "map as_step (audit ps a b) = [1..<14]" "map as_name (audit ps a b) = STEP_NAMES"
  "map as_reasonCodes (audit ps a b) = map (\<lambda>i. ordered (step_codes ps i)) [0..<13]"
proof -
  have "[1..<14] = map Suc [0..<13]" by (simp add: map_Suc_upt)
  then show "map as_step (audit ps a b) = [1..<14]" by (simp add: audit_def Let_def comp_def)
  have len: "length STEP_NAMES = 13" by (simp add: STEP_NAMES_def)
  have "map (\<lambda>i. STEP_NAMES ! i) [0..<13] = STEP_NAMES"
    using map_nth[of STEP_NAMES] by (simp only: len)
  then show "map as_name (audit ps a b) = STEP_NAMES" by (simp add: audit_def Let_def comp_def)
  show "map as_reasonCodes (audit ps a b) = map (\<lambda>i. ordered (step_codes ps i)) [0..<13]"
    by (simp add: audit_def Let_def comp_def)
qed

lemma audit_outcome: "s \<in> set (audit ps a b) \<Longrightarrow> (as_outcome s = FAIL \<longleftrightarrow> as_reasonCodes s \<noteq> [])"
  by (auto simp: audit_def Let_def split: if_splits)

lemma ev_reasons_trail: "ev_reasons e = ordered (concat (map as_reasonCodes (ev_trail e)))"
  unfolding ev_reasons_def by (rule ordered_cong) (simp add: ev_trail_def)

lemma ev_reasons_empty: "ev_reasons e = [] \<longleftrightarrow> (\<forall>i<13. step_codes (ev_pushes e) i = [])"
proof -
  have "set_of_values xs = [] \<longleftrightarrow> xs = []" for xs :: "rejection_code list"
    by (metis set_of_values(1) set_empty)
  then show ?thesis by (auto simp: ev_reasons_def)
qed

text \<open>C19. Every decision carries an audit trail of the thirteen steps in order, in which a step has failed exactly
  when it has reasons; the decision is a rejection exactly when some step has a reason, and then its primary
  and secondary reasons are all the reasons of the trail, each once, in the order of precedence.\<close>

theorem decision_follows_reasons:
  assumes "evaluateRisk sha definitions C policy c = Inr d"
  shows "let trail = db_auditTrail (base_of d) in
    map as_step trail = [1..<14] \<and> map as_name trail = STEP_NAMES
    \<and> (\<forall>s \<in> set trail. as_outcome s = FAIL \<longleftrightarrow> as_reasonCodes s \<noteq> [])
    \<and> reasons_of d = filter (\<lambda>c. \<exists>s \<in> set trail. c \<in> set (as_reasonCodes s)) REJECTION_PRECEDENCE_V1
    \<and> ((\<exists>b a p s. d = RISK_REJECTED b a p s) \<longleftrightarrow> (\<exists>s \<in> set trail. as_reasonCodes s \<noteq> []))"
proof -
  obtain e d0 k where run: "decide (ev_base policy e) (ev_context e) (ev_action e) (ev_reasons e) (ev_sizing e) (ev_ownership e)
      (ev_notionalUsdt e) = Inr d0" and d: "d = with_identity k d0"
    by (rule evaluateRisk_Inr[OF assms])
  note D = decide_Inr[OF run]
  have t: "db_auditTrail (base_of d) = ev_trail e" using D by (simp add: d ev_base_def decision_base_of_def Let_def)
  have r: "reasons_of d = ordered (concat (map as_reasonCodes (ev_trail e)))" using D by (simp add: d ev_reasons_trail)
  have "(\<exists>b a p s. d = RISK_REJECTED b a p s) \<longleftrightarrow> reasons_of d \<noteq> []"
    by (cases d) (auto simp: reasons_of_def)
  also have "\<dots> \<longleftrightarrow> (\<exists>s \<in> set (ev_trail e). as_reasonCodes s \<noteq> [])"
    unfolding r ordered_empty by auto
  finally have rejected: "(\<exists>b a p s. d = RISK_REJECTED b a p s) \<longleftrightarrow> (\<exists>s \<in> set (ev_trail e). as_reasonCodes s \<noteq> [])" .
  have "ordered (concat (map as_reasonCodes tr)) =
      filter (\<lambda>c. \<exists>s \<in> set tr. c \<in> set (as_reasonCodes s)) REJECTION_PRECEDENCE_V1" for tr
    by (simp add: ordered_eq)
  moreover have "\<forall>s \<in> set (ev_trail e). as_outcome s = FAIL \<longleftrightarrow> as_reasonCodes s \<noteq> []"
    by (simp add: ev_trail_def audit_outcome)
  moreover have "map as_step (ev_trail e) = [1..<14]" "map as_name (ev_trail e) = STEP_NAMES" by (simp_all add: ev_trail_def)
  ultimately show ?thesis
    unfolding Let_def t r using rejected by blast
qed

subsection \<open>What an accepted opening rests on\<close>

definition evidence_fresh :: "(string \<Rightarrow> string) \<Rightarrow> int \<Rightarrow> evidence_item \<Rightarrow> bool" where
  "evidence_fresh sha time i \<longleftrightarrow>
     (let p = ei_provenance i in
      evidenceContentSha256 sha (ei_members i) p = Inr (pv_contentSha256 p) \<and> pv_sourceId p = ei_source i
      \<and> option_all (\<lambda>t. t \<le> pv_observedAtMs p) (pv_sourceTimeMs p)
      \<and> pv_observedAtMs p \<le> time \<and> time - pv_observedAtMs p \<le> ei_age i)"

definition within_all_limits :: "sizing_request \<Rightarrow> risk_policy \<Rightarrow> sizing_values \<Rightarrow> bool" where
  "within_all_limits request policy v \<longleftrightarrow> (\<exists>account proposal conversion tiers exposure k tier.
      sq_accountSnapshot request = Some account \<and> sq_entryStopProposal request = Some proposal
    \<and> sq_settlementRateSnapshot request = Some conversion \<and> sq_leverageTierSnapshot request = Some tiers
    \<and> sq_exposureSnapshot request = Some exposure \<and> ex_pending exposure = KNOWN k \<and> tier \<in> set (ts_tiers tiers)
    \<and> trade_numbers_exact request proposal conversion v \<and> quantity_admissible request v
    \<and> risk_within request policy account v \<and> exposure_within request policy exposure k v
    \<and> leverage_within request policy account tier v \<and> tier_covers tier (text_value (sv_finalNotionalUsdt v)))"

definition opening_sound ::
    "(string \<Rightarrow> string) \<Rightarrow> strategy_definition list \<Rightarrow> calc_js \<Rightarrow> risk_policy \<Rightarrow> risk_context \<Rightarrow> sizing_values \<Rightarrow> bool" where
  "opening_sound sha definitions C policy n v \<longleftrightarrow>
     (let d = cd_strategyDecision (rc_candidate n); pair = rc_pairSnapshot n; time = rc_evaluationTimeMs n in
      sd_status d = READY \<and> sd_evaluationTimeMs d \<le> time
      \<and> cd_pair (rc_candidate n) = sd_pair d \<and> ps_pair pair = sd_pair d \<and> pc_pair (rp_pairConfig policy) = sd_pair d
      \<and> strategyLineageReasons sha definitions (rc_candidate n) (rc_strategyOrigin n) = Inr []
      \<and> ps_position pair = POSITION_FLAT \<and> map upper_char (ps_status pair) = ''ACTIVE'' \<and> \<not> ps_exitOnly pair
      \<and> evidence_fresh sha time (pair_evidence policy pair)
      \<and> option_all (\<lambda>x. evidence_fresh sha time (entry_evidence policy x)) (rc_entryStopProposal n)
      \<and> option_all (\<lambda>x. evidence_fresh sha time (account_evidence policy x)) (rc_accountSnapshot n)
      \<and> option_all (\<lambda>x. evidence_fresh sha time (exposure_evidence policy x)) (rc_exposureSnapshot n)
      \<and> option_all (\<lambda>x. evidence_fresh sha time (tier_evidence policy x)) (rc_leverageTierSnapshot n)
      \<and> option_all (\<lambda>x. evidence_fresh sha time (settlement_evidence policy x)) (rc_settlementRateSnapshot n)
      \<and> lossDrawdownReasons C (rc_accountSnapshot n) policy time = Inr []
      \<and> accountStateReasons (cj_D C) (rc_accountSnapshot n) = []
      \<and> exposureReasons (cj_D C) (rc_exposureSnapshot n) (rc_candidate n) policy (Some (sv_finalNotionalInr v)) = []
      \<and> within_all_limits (sizing_request_of n OPEN_ACTION) policy v)"

lemma if_singleton_empty: "(if b then [c] else []) = [] \<longleftrightarrow> \<not> b"
  by simp

lemma verifyEvidence_clean:
  assumes "verifyEvidence sha (ei_members i) (ei_provenance i) (ei_source i) time (ei_age i) stale = Inr r" and "ec_reasons r = []"
  shows "evidence_fresh sha time i"
proof -
  let ?p = "ei_provenance i"
  let ?causal = "(case pv_sourceTimeMs ?p of None \<Rightarrow> True | Some t \<Rightarrow> t \<le> pv_observedAtMs ?p) \<and> pv_observedAtMs ?p \<le> time"
  obtain h where h: "evidenceContentSha256 sha (ei_members i) ?p = Inr h"
    and r: "ec_reasons r = (if h \<noteq> pv_contentSha256 ?p then [DECISION_IDENTITY_MISMATCH] else [])
              @ (if pv_sourceId ?p \<noteq> ei_source i then [SOURCE_ID_MISMATCH] else [])
              @ (if \<not> ?causal then [EVIDENCE_TEMPORAL_CAUSALITY_VIOLATION]
                 else if time - pv_observedAtMs ?p > ei_age i then [stale] else [])"
    using assms(1) unfolding verifyEvidence_def Let_def
    by (elim rbindE) (rule that, assumption, simp only: sum.inject, drule sym, simp only: evidence_check.simps)
  from r assms(2) have "h = pv_contentSha256 ?p" "pv_sourceId ?p = ei_source i"
    and t: "(if \<not> ?causal then [EVIDENCE_TEMPORAL_CAUSALITY_VIOLATION]
             else if time - pv_observedAtMs ?p > ei_age i then [stale] else []) = []"
    by (simp_all add: if_singleton_empty)
  moreover have c: ?causal
  proof (rule ccontr)
    assume n: "\<not> ?causal"
    from t show False unfolding if_P[OF n] by simp
  qed
  moreover have "time - pv_observedAtMs ?p \<le> ei_age i"
  proof -
    from c have n: "\<not> \<not> ?causal" by (rule contrapos_pn) 
    from t show ?thesis unfolding if_not_P[OF n] by (cases "time - pv_observedAtMs ?p > ei_age i") (simp_all only: if_True if_False list.distinct not_less)
  qed
  moreover from c have "option_all (\<lambda>t. t \<le> pv_observedAtMs ?p) (pv_sourceTimeMs ?p)"
    by (cases "pv_sourceTimeMs ?p") simp_all
  ultimately show ?thesis using h by (simp add: evidence_fresh_def Let_def)
qed

lemma check_item_clean:
  assumes "check_item sha time i = Inr s" and "sn_identity s = []" and "sn_temporal s = []"
  shows "evidence_fresh sha time i"
proof -
  obtain r where r: "verifyEvidence sha (ei_members i) (ei_provenance i) (ei_source i) time (ei_age i) (ei_stale i) = Inr r"
    and s: "s = \<lparr>sn_hash = ec_contentHash r, sn_identity = filter is_identity_code (ec_reasons r),
              sn_temporal = filter (\<lambda>c. \<not> is_identity_code c) (ec_reasons r)\<rparr>"
    using assms(1) unfolding check_item_def verifySnapshot_def by (elim rbindE) simp
  have "ec_reasons r = []" using assms(2,3) unfolding s by (simp add: filter_empty_conv)
  with r show ?thesis by (rule verifyEvidence_clean)
qed

lemma snapshot_clean:
  assumes "snapshot_pushes sha time item known missing = Inr (h, ps)" and "\<And>i cs. (i, cs) \<in> set ps \<Longrightarrow> cs = []"
  shows "option_all (evidence_fresh sha time) item"
proof (cases item)
  case (Some i)
  with assms(1) obtain s where s: "check_item sha time i = Inr s" and ps: "ps = [(5, sn_identity s), (6, sn_temporal s), (6, known)]"
    by (auto simp: snapshot_pushes_def rbind_eq_Inr)
  have "sn_identity s = []" "sn_temporal s = []" using assms(2) by (auto simp: ps)
  with check_item_clean[OF s] Some show ?thesis by simp
qed simp

lemma option_all_map: "option_all P (map_option f v) \<longleftrightarrow> option_all (\<lambda>x. P (f x)) v"
  by (cases v) simp_all

lemma evidence_clean:
  assumes "evidence_pushes sha policy n action = Inr (hashes, ps)" and "\<And>i cs. (i, cs) \<in> set ps \<Longrightarrow> cs = []"
  shows "evidence_fresh sha (rc_evaluationTimeMs n) (pair_evidence policy (rc_pairSnapshot n))"
    and "option_all (\<lambda>x. evidence_fresh sha (rc_evaluationTimeMs n) (entry_evidence policy x)) (rc_entryStopProposal n)"
    and "option_all (\<lambda>x. evidence_fresh sha (rc_evaluationTimeMs n) (account_evidence policy x)) (rc_accountSnapshot n)"
    and "option_all (\<lambda>x. evidence_fresh sha (rc_evaluationTimeMs n) (exposure_evidence policy x)) (rc_exposureSnapshot n)"
    and "option_all (\<lambda>x. evidence_fresh sha (rc_evaluationTimeMs n) (tier_evidence policy x)) (rc_leverageTierSnapshot n)"
    and "option_all (\<lambda>x. evidence_fresh sha (rc_evaluationTimeMs n) (settlement_evidence policy x)) (rc_settlementRateSnapshot n)"
proof -
  from assms(1) obtain p e a x t s h1 h2 h3 h4 h5 h6 k1 k2 k3 k4 m1 m2 m3 m4 m5 m6 k5 k6 where
    runs: "snapshot_pushes sha (rc_evaluationTimeMs n) (Some (pair_evidence policy (rc_pairSnapshot n))) k1 m1 = Inr (h1, p)"
      "snapshot_pushes sha (rc_evaluationTimeMs n) (map_option (entry_evidence policy) (rc_entryStopProposal n)) k2 m2 = Inr (h2, e)"
      "snapshot_pushes sha (rc_evaluationTimeMs n) (map_option (account_evidence policy) (rc_accountSnapshot n)) k3 m3 = Inr (h3, a)"
      "snapshot_pushes sha (rc_evaluationTimeMs n) (map_option (exposure_evidence policy) (rc_exposureSnapshot n)) k4 m4 = Inr (h4, x)"
      "snapshot_pushes sha (rc_evaluationTimeMs n) (map_option (tier_evidence policy) (rc_leverageTierSnapshot n)) k5 m5 = Inr (h5, t)"
      "snapshot_pushes sha (rc_evaluationTimeMs n) (map_option (settlement_evidence policy) (rc_settlementRateSnapshot n)) k6 m6 = Inr (h6, s)"
    and ps: "ps = p @ e @ a @ x @ t @ s"
    unfolding evidence_pushes_def Let_def by (elim rbind_pairE rbindE) (rule that, (assumption | simp)+)
  note clean = snapshot_clean[OF runs(1)] snapshot_clean[OF runs(2)] snapshot_clean[OF runs(3)] snapshot_clean[OF runs(4)]
    snapshot_clean[OF runs(5)] snapshot_clean[OF runs(6)]
  show "evidence_fresh sha (rc_evaluationTimeMs n) (pair_evidence policy (rc_pairSnapshot n))"
    using clean(1) assms(2) by (auto simp: ps)
  show "option_all (\<lambda>x. evidence_fresh sha (rc_evaluationTimeMs n) (entry_evidence policy x)) (rc_entryStopProposal n)"
    using clean(2) assms(2) by (auto simp: ps option_all_map)
  show "option_all (\<lambda>x. evidence_fresh sha (rc_evaluationTimeMs n) (account_evidence policy x)) (rc_accountSnapshot n)"
    using clean(3) assms(2) by (auto simp: ps option_all_map)
  show "option_all (\<lambda>x. evidence_fresh sha (rc_evaluationTimeMs n) (exposure_evidence policy x)) (rc_exposureSnapshot n)"
    using clean(4) assms(2) by (auto simp: ps option_all_map)
  show "option_all (\<lambda>x. evidence_fresh sha (rc_evaluationTimeMs n) (tier_evidence policy x)) (rc_leverageTierSnapshot n)"
    using clean(5) assms(2) by (auto simp: ps option_all_map)
  show "option_all (\<lambda>x. evidence_fresh sha (rc_evaluationTimeMs n) (settlement_evidence policy x)) (rc_settlementRateSnapshot n)"
    using clean(6) assms(2) by (auto simp: ps option_all_map)
qed

text \<open>Normalized input over a policy that was made has only decimal texts.\<close>

lemma good_decimal_text: "good_decimal s \<Longrightarrow> signed_text s"
  by (simp add: good_decimal_def normal_signed_text)

lemma optional_texts:
  "option_all good_decimal v \<Longrightarrow> optional_text v" "option_all normal_text v \<Longrightarrow> optional_text v"
  by (cases v; simp add: good_decimal_text normal_signed_text)+

lemma parts_policy_texts: "parts_ok p \<Longrightarrow> policy_texts p"
  by (simp add: parts_ok_def policy_texts_def global_ok_def pair_config_ok_def mode_ok_def good_decimal_text optional_texts)

lemma pair_ok_texts: "pair_ok p \<Longrightarrow> pair_texts p"
  by (simp add: pair_ok_def pair_texts_def normal_signed_text optional_texts)

lemma account_ok_texts: "account_ok a \<Longrightarrow> account_texts a"
  by (simp add: account_ok_def account_texts_def daily_pnl_ok_def normal_signed_text optional_texts)

lemma record_ok_texts: "record_ok m \<Longrightarrow> list_all signed_text (map snd m)"
  by (auto simp: record_ok_def list_all_iff member_ok_def normal_signed_text)

lemma pending_ok_texts:
  "pending_ok (KNOWN k) \<Longrightarrow> list_all (\<lambda>r. signed_text (pr_pendingNotionalInr r)) (kp_instancePendingReservations k)"
  by (auto simp: pending_ok_def reservation_ok_def normal_signed_text elim!: list.pred_mono_strong)

lemma exposure_ok_texts: "exposure_ok x \<Longrightarrow> exposure_texts x"
  using pending_ok_texts
  by (cases "ex_pending x") (simp_all add: exposure_ok_def exposure_texts_def pending_ok_def normal_signed_text record_ok_texts)

lemma tier_ok_texts: "tier_ok t \<Longrightarrow> tier_texts t"
  by (simp add: tier_ok_def tier_texts_def normal_signed_text optional_texts)

lemma option_all_conj: "option_all (\<lambda>x. P x \<and> Q x) v \<longleftrightarrow> option_all P v \<and> option_all Q v"
  by (cases v) simp_all

lemma option_all_mono: "option_all P v \<Longrightarrow> (\<And>x. P x \<Longrightarrow> Q x) \<Longrightarrow> option_all Q v"
  by (cases v) simp_all

lemma engine_normalize_ok:
  assumes "engine_normalize D policy c = Inr n"
  obtains m where "normalizeRiskEvaluationContext c = Inr m" and "normalizeRiskOverride D policy (rc_override m) = Inr (rc_override n)"
    and "n = m\<lparr>rc_override := rc_override n\<rparr>" and "context_ok n"
proof -
  from assms obtain m ov where m: "normalizeRiskEvaluationContext c = Inr m" "normalizeRiskOverride D policy (rc_override m) = Inr ov"
      "n = m\<lparr>rc_override := ov\<rparr>"
    by (auto simp: engine_normalize_def rbind_eq_Inr split: if_splits)
  then have "context_ok n" using input.result[OF m(1)] by (simp add: context_ok_def)
  with that[OF m(1)] m show thesis by simp
qed

lemma engine_sizing_texts:
  assumes "decimal_lib D prec" and "createRiskPolicy sha D draft = Inr policy" and "engine_normalize D policy c = Inr n"
  shows "sizing_texts (sizing_request_of n action) policy"
proof -
  have parts: "parts_ok policy" using decimal_lib.createRiskPolicy_ok[OF assms(1,2)] by blast
  obtain m where "normalizeRiskEvaluationContext c = Inr m"
    and ov: "normalizeRiskOverride D policy (rc_override m) = Inr (rc_override n)"
    and "n = m\<lparr>rc_override := rc_override n\<rparr>" and ok: "context_ok n"
    by (rule engine_normalize_ok[OF assms(3)])
  have "option_all override_texts (rc_override n)"
  proof (cases "rc_override n")
    case (Some k)
    with ov obtain w where "normalizeOverrideFields D policy w = Inr k"
      by (auto simp: normalizeRiskOverride_def split: option.splits sum.splits)
    moreover have "mode_ok (rp_modeConfig policy)" using parts by (simp add: parts_ok_def)
    ultimately show ?thesis
      using decimal_lib.normalizeOverrideFields_ok[OF assms(1), of policy w k] unfolding option_all_conj
      by (simp only: Some option_all_simps override_texts_def optional_texts)
  qed simp
  moreover have "option_all (\<lambda>t. list_all tier_texts (ts_tiers t) \<and> signed_text (ts_exchangeMaxLeverage t)) (rc_leverageTierSnapshot n)"
    using ok by (auto simp: context_ok_def tier_snapshot_ok_def normal_signed_text list_all_iff tier_ok_texts elim!: option_all_mono)
  moreover have "option_all (\<lambda>e. signed_text (es_entryPriceUsdt e) \<and> signed_text (es_stopPriceUsdt e)) (rc_entryStopProposal n)"
    using ok by (auto simp: context_ok_def entry_stop_ok_def normal_signed_text elim!: option_all_mono)
  moreover have "option_all (\<lambda>l. optional_text (lp_requestedLeverage l)) (rc_leverageProposal n)"
    using ok by (auto simp: context_ok_def leverage_ok_def optional_texts elim!: option_all_mono)
  moreover have "option_all (\<lambda>s. signed_text (st_rateInrPerUsdt s)) (rc_settlementRateSnapshot n)"
    using ok by (auto simp: context_ok_def settlement_ok_def normal_signed_text elim!: option_all_mono)
  moreover have "option_all account_texts (rc_accountSnapshot n)" "option_all exposure_texts (rc_exposureSnapshot n)"
    "pair_texts (rc_pairSnapshot n)"
    using ok by (auto simp: context_ok_def account_ok_texts exposure_ok_texts pair_ok_texts elim!: option_all_mono)
  ultimately show ?thesis
    by (simp add: sizing_texts_def sizing_request_of_def parts_policy_texts[OF parts])
qed

lemma sized_evaluation:
  assumes "evaluatePositionSizing sha C request policy preflight = Inr z" and "zd_sizing (se_decision z) = Some v"
  obtains r where "resolveTierSizing C request policy = Inr r" and "tz_sizing r = Some v"
proof -
  let ?none = "concat (map as_reasonCodes preflight) = []"
  from assms(1) obtain r where r: "(if ?none then resolveTierSizing C request policy
      else Inr (unsized (concat (map as_reasonCodes preflight)) (riskCapsForRequest request policy))) = Inr r"
    and z: "zd_sizing (se_decision z) = tz_sizing r"
    unfolding evaluatePositionSizing_def Let_def by (elim rbindE) (rule that, assumption, drule sym, simp)
  from z assms(2) have v: "tz_sizing r = Some v" by simp
  show thesis
  proof (cases ?none)
    case True
    with r have "resolveTierSizing C request policy = Inr r" by simp
    with that v show ?thesis by blast
  next
    case False
    from r have "r = unsized (concat (map as_reasonCodes preflight)) (riskCapsForRequest request policy)"
      unfolding if_not_P[OF False] by simp
    then show ?thesis using v by (simp add: unsized_def)
  qed
qed

lemma with_identity_open: "with_identity k d = ACCEPTED_OPEN (b, a) \<Longrightarrow> \<exists>b'. d = ACCEPTED_OPEN (b', a)"
  by (cases d) (auto simp: with_identity_def split: prod.splits)

lemma decide_open:
  assumes "decide base n action reasons sizing ownership notional = Inr (ACCEPTED_OPEN (b, a))"
  obtains v where "reasons = []" and "action = OPEN_ACTION" and "zd_sizing (se_decision sizing) = Some v"
    and "a = approved_of_sizing v"
  using assms
  by (auto simp: decide_def acceptOpen_def acceptClose_def split: list.splits if_splits option.splits pair_position.splits)

lemma deriveRiskAction_open:
  assumes "deriveRiskAction d position = Inr OPEN_ACTION"
  shows "position = POSITION_FLAT"
  using assms by (auto simp: deriveRiskAction_def split: option.splits pair_position.splits if_splits)

text \<open>No reason means that nothing was pushed with reasons.\<close>

lemma no_reason:
  assumes "ev_reasons e = []" and "(i, cs) \<in> set (ev_pushes e)" and "i < 13"
  shows "cs = []"
  using assms ev_reasons_empty[of e] step_codes_empty[of "ev_pushes e" i] by blast

lemma small_indices:
  "identity_pushes sha definitions policy n = Inr ps \<Longrightarrow> (i, cs) \<in> set ps \<Longrightarrow> i < 13"
  "evidence_pushes sha policy n action = Inr (hashes, ps) \<Longrightarrow> (i, cs) \<in> set ps \<Longrightarrow> i < 13"
  "(i, cs) \<in> set (action_pushes n action) \<Longrightarrow> i < 13"
  "limit_pushes C policy n action z = Inr ps \<Longrightarrow> (i, cs) \<in> set ps \<Longrightarrow> i < 13"
proof -
  show "identity_pushes sha definitions policy n = Inr ps \<Longrightarrow> (i, cs) \<in> set ps \<Longrightarrow> i < 13"
    unfolding identity_pushes_def Let_def by (elim rbindE) auto
  have s: "snapshot_pushes sha time item known missing = Inr (h, ps) \<Longrightarrow> (i, cs) \<in> set ps \<Longrightarrow> i < 13" for time item known missing h ps
    by (cases item) (auto simp: snapshot_pushes_def rbind_eq_Inr)
  show "evidence_pushes sha policy n action = Inr (hashes, ps) \<Longrightarrow> (i, cs) \<in> set ps \<Longrightarrow> i < 13"
    unfolding evidence_pushes_def Let_def by (elim rbind_pairE rbindE) (auto dest: s)
  show "(i, cs) \<in> set (action_pushes n action) \<Longrightarrow> i < 13"
    by (auto simp: action_pushes_def Let_def)
  show "limit_pushes C policy n action z = Inr ps \<Longrightarrow> (i, cs) \<in> set ps \<Longrightarrow> i < 13"
    unfolding limit_pushes_def by (auto elim!: rbindE split: if_splits)
qed

lemma identity_clean:
  assumes "identity_pushes sha definitions policy n = Inr ps" and clean: "\<And>i cs. (i, cs) \<in> set ps \<Longrightarrow> cs = []"
  defines "d \<equiv> cd_strategyDecision (rc_candidate n)"
  shows "strategyLineageReasons sha definitions (rc_candidate n) (rc_strategyOrigin n) = Inr []"
    and "sd_evaluationTimeMs d \<le> rc_evaluationTimeMs n"
    and "cd_pair (rc_candidate n) = sd_pair d \<and> ps_pair (rc_pairSnapshot n) = sd_pair d \<and> pc_pair (rp_pairConfig policy) = sd_pair d"
proof -
  obtain l p1 p2 where l: "strategyLineageReasons sha definitions (rc_candidate n) (rc_strategyOrigin n) = Inr l"
    and ps: "ps = [(2, l),
      (6, if sd_evaluationTimeMs d > rc_evaluationTimeMs n then [EVIDENCE_TEMPORAL_CAUSALITY_VIOLATION] else []),
      (3, if cd_pair (rc_candidate n) \<noteq> sd_pair d \<or> ps_pair (rc_pairSnapshot n) \<noteq> sd_pair d
             \<or> pc_pair (rp_pairConfig policy) \<noteq> sd_pair d
             \<or> cd_instrumentSpecSnapshotId (rc_candidate n) \<noteq> ps_instrumentSpecSnapshotId (rc_pairSnapshot n)
          then [DECISION_IDENTITY_MISMATCH] else []), p1, p2]"
    using assms(1) unfolding identity_pushes_def Let_def d_def[symmetric]
    by (elim rbindE) (drule sum.inject(2)[THEN iffD1], rule that, assumption, erule sym)
  note c = clean[unfolded ps]
  show "strategyLineageReasons sha definitions (rc_candidate n) (rc_strategyOrigin n) = Inr []" using l c[of 2 l] by simp
  have "(if sd_evaluationTimeMs d > rc_evaluationTimeMs n then [EVIDENCE_TEMPORAL_CAUSALITY_VIOLATION] else []) = []"
    by (rule c[of 6]) simp
  then show "sd_evaluationTimeMs d \<le> rc_evaluationTimeMs n" unfolding if_singleton_empty by simp
  have "(if cd_pair (rc_candidate n) \<noteq> sd_pair d \<or> ps_pair (rc_pairSnapshot n) \<noteq> sd_pair d
             \<or> pc_pair (rp_pairConfig policy) \<noteq> sd_pair d
             \<or> cd_instrumentSpecSnapshotId (rc_candidate n) \<noteq> ps_instrumentSpecSnapshotId (rc_pairSnapshot n)
          then [DECISION_IDENTITY_MISMATCH] else []) = []"
    by (rule c[of 3]) simp
  then show "cd_pair (rc_candidate n) = sd_pair d \<and> ps_pair (rc_pairSnapshot n) = sd_pair d \<and> pc_pair (rp_pairConfig policy) = sd_pair d"
    unfolding if_singleton_empty by blast
qed

lemma tradeable_clean:
  assumes "\<And>i cs. (i, cs) \<in> set (action_pushes n OPEN_ACTION) \<Longrightarrow> cs = []"
  shows "map upper_char (ps_status (rc_pairSnapshot n)) = ''ACTIVE''" and "\<not> ps_exitOnly (rc_pairSnapshot n)"
proof -
  have "(if OPEN_ACTION = OPEN_ACTION \<and> (map upper_char (ps_status (rc_pairSnapshot n)) \<noteq> ''ACTIVE'' \<or> ps_exitOnly (rc_pairSnapshot n))
           then [INSTRUMENT_NOT_TRADEABLE_FOR_NEW_EXPOSURE] else []) = []"
    by (rule assms[of 8]) (simp only: action_pushes_def Let_def list.set insert_iff simp_thms)
  then show "map upper_char (ps_status (rc_pairSnapshot n)) = ''ACTIVE''" and "\<not> ps_exitOnly (rc_pairSnapshot n)"
    unfolding if_singleton_empty by blast+
qed

lemma limits_clean:
  assumes "limit_pushes C policy n OPEN_ACTION z = Inr ps" and "\<And>i cs. (i, cs) \<in> set ps \<Longrightarrow> cs = []" and "zd_sizing z = Some v"
  shows "lossDrawdownReasons C (rc_accountSnapshot n) policy (rc_evaluationTimeMs n) = Inr []"
    and "accountStateReasons (cj_D C) (rc_accountSnapshot n) = []"
    and "exposureReasons (cj_D C) (rc_exposureSnapshot n) (rc_candidate n) policy (Some (sv_finalNotionalInr v)) = []"
proof -
  obtain loss where l: "lossDrawdownReasons C (rc_accountSnapshot n) policy (rc_evaluationTimeMs n) = Inr loss"
    and ps: "ps = [(11, exposureReasons (cj_D C) (rc_exposureSnapshot n) (rc_candidate n) policy (Some (sv_finalNotionalInr v))),
             (11, loss), (11, accountStateReasons (cj_D C) (rc_accountSnapshot n))]"
    using assms(1,3) by (auto simp: limit_pushes_def elim!: rbindE)
  have "cs = []" if "(11, cs) \<in> set ps" for cs using assms(2) that by blast
  then show "lossDrawdownReasons C (rc_accountSnapshot n) policy (rc_evaluationTimeMs n) = Inr []"
    and "accountStateReasons (cj_D C) (rc_accountSnapshot n) = []"
    and "exposureReasons (cj_D C) (rc_exposureSnapshot n) (rc_candidate n) policy (Some (sv_finalNotionalInr v)) = []"
    using l by (simp_all add: ps)
qed

lemma accepted_opening:
  assumes arith: "risk_arith C" and made: "createRiskPolicy sha (cj_D C) draft = Inr policy"
    and run: "evaluateRisk sha definitions C policy c = Inr (ACCEPTED_OPEN (base, ap))"
  obtains n v where "engine_normalize (cj_D C) policy c = Inr n" and "ap = approved_of_sizing v"
    and "opening_sound sha definitions C policy n v"
proof -
  obtain e d0 k where e: "evaluated sha definitions C policy c e"
    and decided: "decide (ev_base policy e) (ev_context e) (ev_action e) (ev_reasons e) (ev_sizing e) (ev_ownership e)
      (ev_notionalUsdt e) = Inr d0" and d: "ACCEPTED_OPEN (base, ap) = with_identity k d0"
    by (rule evaluateRisk_Inr[OF run])
  obtain b' where "d0 = ACCEPTED_OPEN (b', ap)" using with_identity_open[OF d[symmetric]] by blast
  with decided have "decide (ev_base policy e) (ev_context e) (ev_action e) (ev_reasons e) (ev_sizing e) (ev_ownership e)
      (ev_notionalUsdt e) = Inr (ACCEPTED_OPEN (b', ap))" by simp
  then obtain v where none: "ev_reasons e = []" and act: "ev_action e = OPEN_ACTION"
    and v: "zd_sizing (se_decision (ev_sizing e)) = Some v" and ap: "ap = approved_of_sizing v"
    by (rule decide_open)
  let ?n = "ev_context e" and ?d = "cd_strategyDecision (rc_candidate (ev_context e))" and ?pair = "rc_pairSnapshot (ev_context e)"
  note E = e[unfolded evaluated_def Let_def act]
  have norm: "engine_normalize (cj_D C) policy c = Inr ?n" and ready: "sd_status ?d = READY"
    and derived: "deriveRiskAction ?d (ps_position ?pair) = Inr OPEN_ACTION"
    and ident: "identity_pushes sha definitions policy ?n = Inr (ev_identity e)"
    and evid: "evidence_pushes sha policy ?n OPEN_ACTION = Inr (ev_hashes e, ev_evidence e)"
    and sized: "evaluatePositionSizing sha C (sizing_request_of ?n OPEN_ACTION) policy (ev_preflight e) = Inr (ev_sizing e)"
    and limits: "limit_pushes C policy ?n OPEN_ACTION (se_decision (ev_sizing e)) = Inr (ev_limits e)"
    using E by blast+
  have clean: "cs = []" if "(i, cs) \<in> set (ev_identity e @ ev_evidence e @ action_pushes ?n OPEN_ACTION @ ev_limits e)" for i cs
  proof (rule no_reason[OF none])
    show "(i, cs) \<in> set (ev_pushes e)" using that by (auto simp: ev_pushes_def act)
    show "i < 13" using that small_indices(1)[OF ident] small_indices(2)[OF evid] small_indices(3) small_indices(4)[OF limits] by auto
  qed
  have F: "(i, cs) \<in> set (ev_identity e) \<Longrightarrow> cs = []" "(i, cs) \<in> set (ev_evidence e) \<Longrightarrow> cs = []"
    "(i, cs) \<in> set (action_pushes ?n OPEN_ACTION) \<Longrightarrow> cs = []" "(i, cs) \<in> set (ev_limits e) \<Longrightarrow> cs = []" for i cs
    using clean by auto
  note I = identity_clean[OF ident F(1)] and A = tradeable_clean[OF F(3)] and L = limits_clean[OF limits F(4) v]
  obtain r where r: "resolveTierSizing C (sizing_request_of ?n OPEN_ACTION) policy = Inr r" "tz_sizing r = Some v"
    using sized_evaluation[OF sized v] by blast
  have lib: "decimal_lib (cj_D C) 128" using arith by (simp add: risk_arith_def)
  have W: "within_all_limits (sizing_request_of ?n OPEN_ACTION) policy v"
    unfolding within_all_limits_def
    by (rule risk_arith.sized_within_limits[OF arith engine_sizing_texts[OF lib made norm] r])
  have "opening_sound sha definitions C policy ?n v"
    unfolding opening_sound_def Let_def
    using ready I A L W evidence_clean[OF evid F(2)] deriveRiskAction_open[OF derived] by simp
  with that norm ap show thesis by blast
qed

text \<open>C4. An accepted opening rests on sound evidence and keeps within every limit: the decision is ready, not from
  the future, of the policy's pair and of a lineage that rebuilds; the pair is active, not exit-only and flat;
  every snapshot present has the digest it claims, comes from the source the policy names, is causal and not
  older than the policy allows; account, loss, drawdown and exposure rules give no reason; and the approved
  numbers are those of a sizing that respects the limits of all the others.\<close>

theorem accepted_opening_sound:
  assumes "risk_arith C" and "createRiskPolicy sha (cj_D C) draft = Inr policy"
    and "evaluateRisk sha definitions C policy c = Inr (ACCEPTED_OPEN (base, ap))"
  shows "\<exists>n v. engine_normalize (cj_D C) policy c = Inr n \<and> ap = approved_of_sizing v
    \<and> opening_sound sha definitions C policy n v"
  using accepted_opening[OF assms] by blast

subsection \<open>What a decision identity binds\<close>

lemma payload_keys: "map fst (riskDecisionIdentityPayload n policy z h outcome) = map fst (riskDecisionIdentityPayload n' policy' z' h' outcome')"
  "distinct (map fst (riskDecisionIdentityPayload n policy z h outcome))"
  by (simp_all add: riskDecisionIdentityPayload_def)

lemma norm_object_members:
  assumes "json_norm (JObject xs) = json_norm (JObject ys)"
  shows "set (map (map_prod id json_norm) xs) = set (map (map_prod id json_norm) ys)"
  using assms by (simp only: json_norm.simps json.inject) (metis set_sort)

lemma norm_member:
  assumes "json_norm (JObject xs) = json_norm (JObject ys)" and "distinct (map fst ys)" and "(key, v) \<in> set xs" and "(key, w) \<in> set ys"
  shows "json_norm v = json_norm w"
proof -
  have "(key, json_norm v) \<in> set (map (map_prod id json_norm) xs)" using assms(3) by force
  then obtain w' where w': "(key, w') \<in> set ys" "json_norm w' = json_norm v" unfolding norm_object_members[OF assms(1)] by auto
  then have "w' = w" using assms(2,4) by (metis eq_key_imp_eq_value)
  with w' show ?thesis by simp
qed

lemma flat_norm_inject:
  assumes "json_norm (JObject xs) = json_norm (JObject ys)" and "flat_members xs" and "flat_members ys" and "map fst xs = map fst ys"
  shows "xs = ys"
proof (rule members_eqI)
  have "map (map_prod id json_norm) xs = xs" "map (map_prod id json_norm) ys = ys" using assms(2,3) by (simp_all only: flat_members_def)
  then show "set xs = set ys" using norm_object_members[OF assms(1)] by (simp only:)
qed (use assms(2,4) in \<open>simp_all add: flat_members_def\<close>)

lemma engine_decision_source:
  assumes "engine_normalize D policy c = Inr n"
  shows "cd_strategyDecision (rc_candidate n) = cd_strategyDecision (rc_candidate c)" and "rc_evaluationTimeMs n = rc_evaluationTimeMs c"
proof -
  obtain m where m: "normalizeRiskEvaluationContext c = Inr m" and n: "n = m\<lparr>rc_override := rc_override n\<rparr>"
    by (rule engine_normalize_ok[OF assms])
  have "same_input c m" by (rule normalize_keeps[OF m])
  moreover have "rc_candidate n = rc_candidate m" "rc_evaluationTimeMs n = rc_evaluationTimeMs m" by (subst n, simp)+
  ultimately show "cd_strategyDecision (rc_candidate n) = cd_strategyDecision (rc_candidate c)"
    and "rc_evaluationTimeMs n = rc_evaluationTimeMs c" by (simp_all add: same_decision) (simp add: same_input_def)
qed

lemma decision_identity_run:
  assumes "evaluateRisk sha definitions C policy c = Inr d"
  obtains n where "risk_digest sha (JObject (riskDecisionIdentityPayload n policy (db_sourcePositionSizingDecisionId (base_of d))
      (db_inputContentHashes (base_of d)) (outcome_json d))) = Inr (db_riskDecisionId (base_of d))"
    and "engine_normalize (cj_D C) policy c = Inr n"
proof -
  obtain e d0 k where e: "evaluated sha definitions C policy c e"
    and run: "decide (ev_base policy e) (ev_context e) (ev_action e) (ev_reasons e) (ev_sizing e) (ev_ownership e)
      (ev_notionalUsdt e) = Inr d0" and k: "risk_digest sha (JObject (riskDecisionIdentityPayload (ev_context e) policy
           (zd_positionSizingDecisionId (se_decision (ev_sizing e))) (ev_hashes e) (outcome_json d0))) = Inr k"
    and d: "d = with_identity k d0"
    by (rule evaluateRisk_Inr[OF assms])
  have o': "outcome_json d = outcome_json d0"
    by (cases d0) (auto simp: d with_identity_def outcome_json_def split: prod.splits)
  have b: "base_of d = (ev_base policy e)\<lparr>db_riskDecisionId := k\<rparr>" using decide_Inr(1)[OF run] by (simp add: d)
  have norm: "engine_normalize (cj_D C) policy c = Inr (ev_context e)" using e by (simp add: evaluated_def Let_def)
  show thesis
    by (rule that[OF _ norm]) (use k in \<open>simp_all add: o' b ev_base_def decision_base_of_def Let_def\<close>)
qed

lemma outcome_inject:
  assumes "json_norm (outcome_json (ACCEPTED_OPEN (b, x))) = json_norm (outcome_json (ACCEPTED_OPEN (b', y)))"
  shows "x = y"
proof -
  have "json_norm (approved_open_json x) = json_norm (approved_open_json y)"
    by (rule norm_member[OF assms[unfolded outcome_json_def risk_decision.case prod.case], of "''approved''"]) simp_all
  then show ?thesis
    unfolding approved_open_json_def by (drule_tac flat_norm_inject) (simp_all add: flat_members_def)
qed

text \<open>The text a decision identity is the digest of, from the normalized input and the decision.\<close>

definition decision_payload :: "risk_policy \<Rightarrow> risk_context \<Rightarrow> risk_decision \<Rightarrow> json" where
  "decision_payload policy n d = JObject (riskDecisionIdentityPayload n policy (db_sourcePositionSizingDecisionId (base_of d))
     (db_inputContentHashes (base_of d)) (outcome_json d))"

definition decision_text :: "risk_policy \<Rightarrow> risk_context \<Rightarrow> risk_decision \<Rightarrow> string" where
  "decision_text policy n d = raw_text (json_norm (decision_payload policy n d))"

lemma decision_identity_text:
  assumes "evaluateRisk sha definitions C policy c = Inr d" and "engine_normalize (cj_D C) policy c = Inr n"
  shows "canonicalJson (decision_payload policy n d) = Inr (decision_text policy n d)"
    and "db_riskDecisionId (base_of d) = sha (decision_text policy n d)"
proof -
  obtain n' where n': "risk_digest sha (decision_payload policy n' d) = Inr (db_riskDecisionId (base_of d))"
      "engine_normalize (cj_D C) policy c = Inr n'"
    unfolding decision_payload_def by (rule decision_identity_run[OF assms(1)])
  have "n' = n" using n'(2) assms(2) by simp
  then obtain t where t: "canonicalJson (decision_payload policy n d) = Inr t" "sha t = db_riskDecisionId (base_of d)"
    using n'(1) by (auto simp: risk_digest_def sha256CanonicalJson_def split: sum.splits elim!: rbindE)
  then have "t = decision_text policy n d" by (simp add: canonicalJson_eq_Inr decision_text_def)
  with t show "canonicalJson (decision_payload policy n d) = Inr (decision_text policy n d)"
    and "db_riskDecisionId (base_of d) = sha (decision_text policy n d)" by simp_all
qed

text \<open>What the proposals of two inputs agree on when they are the same JSON.\<close>

definition same_proposals :: "risk_context \<Rightarrow> risk_context \<Rightarrow> bool" where
  "same_proposals n m \<longleftrightarrow>
     json_norm (candidate_json (rc_candidate n)) = json_norm (candidate_json (rc_candidate m))
     \<and> json_norm (entry_stop_json (rc_entryStopProposal n)) = json_norm (entry_stop_json (rc_entryStopProposal m))
     \<and> json_norm (leverage_json (rc_leverageProposal n)) = json_norm (leverage_json (rc_leverageProposal m))
     \<and> json_norm (override_json (rc_override n)) = json_norm (override_json (rc_override m))"

lemma base_of_open: "base_of (ACCEPTED_OPEN (b, x)) = b"
  by (simp add: base_of_def)

lemma payload_inject:
  assumes "json_norm (decision_payload policy n (ACCEPTED_OPEN (b, x))) = json_norm (decision_payload policy' m (ACCEPTED_OPEN (b', y)))"
  shows "x = y \<and> rp_riskPolicyId policy = rp_riskPolicyId policy'
    \<and> db_sourcePositionSizingDecisionId b = db_sourcePositionSizingDecisionId b' \<and> db_inputContentHashes b = db_inputContentHashes b'
    \<and> sd_decisionId (cd_strategyDecision (rc_candidate n)) = sd_decisionId (cd_strategyDecision (rc_candidate m))
    \<and> rc_evaluationTimeMs n = rc_evaluationTimeMs m \<and> same_proposals n m"
proof -
  let ?h = "db_inputContentHashes b" and ?h' = "db_inputContentHashes b'"
  note same = norm_member[OF assms[unfolded decision_payload_def base_of_open] payload_keys(2)]
  have "json_norm (outcome_json (ACCEPTED_OPEN (b, x))) = json_norm (outcome_json (ACCEPTED_OPEN (b', y)))"
    by (rule same[of "''outcome''"]) (simp_all add: riskDecisionIdentityPayload_def)
  moreover have "json_norm (JString (rp_riskPolicyId policy)) = json_norm (JString (rp_riskPolicyId policy'))"
    by (rule same[of "''riskPolicyId''"]) (simp_all add: riskDecisionIdentityPayload_def)
  moreover have "json_norm (JString (db_sourcePositionSizingDecisionId b)) = json_norm (JString (db_sourcePositionSizingDecisionId b'))"
    by (rule same[of "''positionSizingDecisionId''"]) (simp_all add: riskDecisionIdentityPayload_def)
  moreover have "json_norm (JString (sd_decisionId (cd_strategyDecision (rc_candidate n)))) =
      json_norm (JString (sd_decisionId (cd_strategyDecision (rc_candidate m))))"
    by (rule same[of "''sourceStrategyDecisionId''"]) (simp_all add: riskDecisionIdentityPayload_def)
  moreover have "json_norm (JNumber (rc_evaluationTimeMs n)) = json_norm (JNumber (rc_evaluationTimeMs m))"
    by (rule same[of "''evaluationTimeMs''"]) (simp_all add: riskDecisionIdentityPayload_def)
  moreover have "json_norm (nullable_text (ch_accountSnapshotSha256 ?h)) = json_norm (nullable_text (ch_accountSnapshotSha256 ?h'))"
    by (rule same[of "''accountSnapshotSha256''"]) (simp_all add: riskDecisionIdentityPayload_def)
  moreover have "json_norm (JString (ch_pairSnapshotSha256 ?h)) = json_norm (JString (ch_pairSnapshotSha256 ?h'))"
    by (rule same[of "''pairSnapshotSha256''"]) (simp_all add: riskDecisionIdentityPayload_def)
  moreover have "json_norm (nullable_text (ch_exposureSnapshotSha256 ?h)) = json_norm (nullable_text (ch_exposureSnapshotSha256 ?h'))"
    by (rule same[of "''exposureSnapshotSha256''"]) (simp_all add: riskDecisionIdentityPayload_def)
  moreover have "json_norm (nullable_text (ch_leverageTierSnapshotSha256 ?h)) = json_norm (nullable_text (ch_leverageTierSnapshotSha256 ?h'))"
    by (rule same[of "''leverageTierSnapshotSha256''"]) (simp_all add: riskDecisionIdentityPayload_def)
  moreover have "json_norm (nullable_text (ch_settlementRateSnapshotSha256 ?h)) = json_norm (nullable_text (ch_settlementRateSnapshotSha256 ?h'))"
    by (rule same[of "''settlementRateSnapshotSha256''"]) (simp_all add: riskDecisionIdentityPayload_def)
  moreover have "json_norm (candidate_json (rc_candidate n)) = json_norm (candidate_json (rc_candidate m))"
    by (rule same[of "''candidate''"]) (simp_all add: riskDecisionIdentityPayload_def)
  moreover have "json_norm (entry_stop_json (rc_entryStopProposal n)) = json_norm (entry_stop_json (rc_entryStopProposal m))"
    by (rule same[of "''entryStopProposal''"]) (simp_all add: riskDecisionIdentityPayload_def)
  moreover have "json_norm (leverage_json (rc_leverageProposal n)) = json_norm (leverage_json (rc_leverageProposal m))"
    by (rule same[of "''leverageProposal''"]) (simp_all add: riskDecisionIdentityPayload_def)
  moreover have "json_norm (override_json (rc_override n)) = json_norm (override_json (rc_override m))"
    by (rule same[of "''override''"]) (simp_all add: riskDecisionIdentityPayload_def)
  ultimately show ?thesis by (simp add: outcome_inject same_proposals_def)
qed

lemma payload_same:
  assumes "rp_riskPolicyId policy = rp_riskPolicyId policy'"
    and "db_sourcePositionSizingDecisionId b = db_sourcePositionSizingDecisionId b'" and "db_inputContentHashes b = db_inputContentHashes b'"
    and "sd_decisionId (cd_strategyDecision (rc_candidate n)) = sd_decisionId (cd_strategyDecision (rc_candidate m))"
    and "rc_evaluationTimeMs n = rc_evaluationTimeMs m" and "same_proposals n m"
  shows "json_norm (decision_payload policy n (ACCEPTED_OPEN (b, x))) = json_norm (decision_payload policy' m (ACCEPTED_OPEN (b', x)))"
proof -
  have "outcome_json (ACCEPTED_OPEN (b, x)) = outcome_json (ACCEPTED_OPEN (b', x))" by (simp add: outcome_json_def)
  then have "map (map_prod id json_norm) (riskDecisionIdentityPayload n policy (db_sourcePositionSizingDecisionId b)
        (db_inputContentHashes b) (outcome_json (ACCEPTED_OPEN (b, x)))) =
      map (map_prod id json_norm) (riskDecisionIdentityPayload m policy' (db_sourcePositionSizingDecisionId b')
        (db_inputContentHashes b') (outcome_json (ACCEPTED_OPEN (b', x))))"
    using assms by (simp add: riskDecisionIdentityPayload_def same_proposals_def)
  then show ?thesis unfolding decision_payload_def base_of_open json_norm.simps by (simp only:)
qed

text \<open>C20. The identity of an accepted opening is its content: two openings accepted by any engines have the same
  identity if and only if they agree on the policy, the proposals (candidate, entry and stop, leverage,
  override), the sizing decision, the time, the digests of all snapshots and the approved trade, provided
  the digest does not collide on the two texts it is applied to.\<close>

theorem decision_identity_binds:
  assumes "evaluateRisk sha definitions C policy c = Inr (ACCEPTED_OPEN (b, x))" and "engine_normalize (cj_D C) policy c = Inr n"
    and "evaluateRisk sha definitions' C' policy' c' = Inr (ACCEPTED_OPEN (b', y))" and "engine_normalize (cj_D C') policy' c' = Inr m"
    and "sha (decision_text policy n (ACCEPTED_OPEN (b, x))) = sha (decision_text policy' m (ACCEPTED_OPEN (b', y))) \<Longrightarrow>
      decision_text policy n (ACCEPTED_OPEN (b, x)) = decision_text policy' m (ACCEPTED_OPEN (b', y))"
  shows "db_riskDecisionId b = db_riskDecisionId b' \<longleftrightarrow>
    x = y \<and> rp_riskPolicyId policy = rp_riskPolicyId policy'
    \<and> db_sourcePositionSizingDecisionId b = db_sourcePositionSizingDecisionId b' \<and> db_inputContentHashes b = db_inputContentHashes b'
    \<and> sd_decisionId (cd_strategyDecision (rc_candidate c)) = sd_decisionId (cd_strategyDecision (rc_candidate c'))
    \<and> rc_evaluationTimeMs c = rc_evaluationTimeMs c' \<and> same_proposals n m"
proof -
  note P = decision_identity_text[OF assms(1,2), unfolded base_of_open] and Q = decision_identity_text[OF assms(3,4), unfolded base_of_open]
  note S = engine_decision_source[OF assms(2)] engine_decision_source[OF assms(4)]
  have "db_riskDecisionId b = db_riskDecisionId b' \<longleftrightarrow>
      json_norm (decision_payload policy n (ACCEPTED_OPEN (b, x))) = json_norm (decision_payload policy' m (ACCEPTED_OPEN (b', y)))"
  proof
    assume "db_riskDecisionId b = db_riskDecisionId b'"
    then have "decision_text policy n (ACCEPTED_OPEN (b, x)) = decision_text policy' m (ACCEPTED_OPEN (b', y))"
      using P(2) Q(2) assms(5) by simp
    with P(1) Q(1) canonicalJson_inject
    show "json_norm (decision_payload policy n (ACCEPTED_OPEN (b, x))) = json_norm (decision_payload policy' m (ACCEPTED_OPEN (b', y)))"
      by metis
  qed (simp add: P(2) Q(2) decision_text_def)
  also have "\<dots> \<longleftrightarrow> x = y \<and> rp_riskPolicyId policy = rp_riskPolicyId policy'
    \<and> db_sourcePositionSizingDecisionId b = db_sourcePositionSizingDecisionId b' \<and> db_inputContentHashes b = db_inputContentHashes b'
    \<and> sd_decisionId (cd_strategyDecision (rc_candidate n)) = sd_decisionId (cd_strategyDecision (rc_candidate m))
    \<and> rc_evaluationTimeMs n = rc_evaluationTimeMs m \<and> same_proposals n m"
    using payload_inject[of policy n b x policy' m b' y] payload_same[of policy policy' b b' n m x] by blast
  finally show ?thesis by (simp only: S)
qed

end
