(* ===== verification/Risk_Sample.thy ===== *)
theory Risk_Sample
  imports Risk_Engine
begin

section \<open>A sample of the risk engine\<close>

text \<open>
  One account, pair, policy and proposal, and the run of the tier sizing on them: the first tier is too small
  for one increment, the second takes a quantity of two. The witnesses of the sizing and of the engine use it.
\<close>

text \<open>An account of four hundred rupees that risks one percent on a long at 10 with the stop at 9.\<close>

definition sample_sha :: string where
  "sample_sha = replicate 64 (CHR ''0'')"

definition sample_provenance :: provenance where
  "sample_provenance = \<lparr>pv_sourceId = ''source'', pv_sourceTimeMs = None, pv_observedAtMs = 300000, pv_contentSha256 = sample_sha\<rparr>"

definition sample_risk_decision :: strategy_decision where
  "sample_risk_decision = \<lparr>sd_decisionId = sample_sha, sd_decisionSequence = 1, sd_strategyInstanceId = sample_sha, sd_strategyId = ''RSI_MOMENTUM'',
     sd_strategyVersion = ''1.0.0'', sd_parameterHash = sample_sha, sd_pair = ''B-BTC_USDT'', sd_evaluationTimeMs = 300000,
     sd_triggerTimeframeMinutes = 5, sd_status = READY, sd_targetExposure = Some TARGET_LONG, sd_reasonCodes = [''RSI_LONG_THRESHOLD'']\<rparr>"

definition sample_parameters :: json where
  "sample_parameters = JObject [(''timeframeMinutes'', JNumber 5), (''period'', JNumber 14), (''longThreshold'', JString ''70''),
     (''shortThreshold'', JString ''30''), (''priceSource'', JString ''CLOSE'')]"

definition sample_risk_candidate :: strategy_candidate where
  "sample_risk_candidate = \<lparr>cd_strategyDecision = sample_risk_decision,
     cd_strategyLineage = \<lparr>sl_normalizedParameters = sample_parameters, sl_indicatorBootstrapIdentity = [\<lparr>be_timeframeMinutes = 5, be_bootstrapStartOpenTimeMs = 0\<rparr>]\<rparr>,
     cd_pair = ''B-BTC_USDT'', cd_instrumentSpecSnapshotId = ''spec''\<rparr>"

definition sample_entry_stop :: entry_stop where
  "sample_entry_stop = \<lparr>es_proposalId = ''e'', es_proposalPolicyId = ''q'', es_sourceStrategyDecisionId = sample_sha,
     es_pair = ''B-BTC_USDT'', es_entryPriceUsdt = ''10'', es_stopPriceUsdt = ''9'', es_provenance = sample_provenance\<rparr>"

definition sample_account :: account_snapshot where
  "sample_account = \<lparr>ac_accountId = ''a'', ac_provenance = sample_provenance, ac_accountStateKnown = True,
     ac_availableMarginInr = ''500'', ac_lockedMarginInr = ''0'', ac_currentEquityInr = ''400'', ac_peakEquityInr = ''400'',
     ac_dailyPnl = \<lparr>dp_realizedTradingPnlInr = ''0'', dp_fundingPnlInr = ''0'', dp_feesInr = ''0'',
        dp_otherAccountAdjustmentsInr = ''0'', dp_netDailyPnlInr = ''0''\<rparr>,
     ac_consecutiveLossCount = 0, ac_cooldownActiveUntilMs = None, ac_accountMaxLeverage = None, ac_reconciliationSourceIds = []\<rparr>"

definition sample_pair :: pair_snapshot where
  "sample_pair = \<lparr>ps_pair = ''B-BTC_USDT'', ps_instrumentSpecSnapshotId = ''spec'', ps_status = ''active'', ps_exitOnly = False,
     ps_priceIncrement = ''1'', ps_quantityIncrement = ''1'', ps_minPrice = ''1'', ps_maxPrice = ''100'',
     ps_minQuantity = ''1'', ps_maxQuantity = ''50'', ps_minTradeSize = ''1'', ps_minNotional = ''6'', ps_maxNotional = None,
     ps_contractMultiplier = ''1'', ps_position = POSITION_FLAT, ps_ownership = RECONCILED_FLAT ''a'' ''B-BTC_USDT'',
     ps_provenance = sample_provenance\<rparr>"

definition sample_risk_exposure :: exposure_snapshot where
  "sample_risk_exposure = \<lparr>ex_accountId = ''a'', ex_globalOpenNotionalInr = ''10'', ex_perPairOpenNotionalInr = [(''B-ETH_USDT'', ''10'')],
     ex_perStrategyOpenNotionalInr = [], ex_concurrentOpenPositions = 1,
     ex_pending = KNOWN \<lparr>kp_globalPendingNotionalInr = ''0'', kp_pairPendingNotionalInr = [], kp_strategyPendingNotionalInr = [],
        kp_instancePendingReservations = [], kp_pendingReservationCount = 0, kp_longInr = ''0'', kp_shortInr = ''0''\<rparr>,
     ex_provenance = sample_provenance\<rparr>"

definition sample_tiers :: tier_snapshot where
  "sample_tiers = \<lparr>ts_pair = ''B-BTC_USDT'', ts_provenance = sample_provenance, ts_verified = True, ts_semanticsVersion = Some ''v1'',
     ts_exchangeMaxLeverage = ''20'',
     ts_tiers = [\<lparr>tr_tierId = ''1'', tr_lowerNotionalUsdt = ''0'', tr_upperNotionalUsdt = Some ''10'', tr_lowerInclusive = True,
          tr_upperInclusive = False, tr_maxLeverage = ''20''\<rparr>,
        \<lparr>tr_tierId = ''2'', tr_lowerNotionalUsdt = ''10'', tr_upperNotionalUsdt = None, tr_lowerInclusive = True,
          tr_upperInclusive = False, tr_maxLeverage = ''10''\<rparr>],
     ts_safetyMarginTiers = [], ts_legacyMaxLeverageLongIgnored = None, ts_legacyMaxLeverageShortIgnored = None\<rparr>"

definition sample_settlement :: settlement_snapshot where
  "sample_settlement = \<lparr>st_conversionMarketId = ''USDTINR'', st_sourceCurrency = ''USDT'', st_targetCurrency = ''INR'',
     st_marginCurrency = ''INR'', st_rateInrPerUsdt = ''2'', st_provenance = sample_provenance\<rparr>"

definition sample_risk_policy :: risk_policy where
  "sample_risk_policy = \<lparr>
     rp_globalConfig = \<lparr>gc_globalRiskConfigId = sample_sha, gc_globalMaxLeverage = ''5'', gc_globalMaxOpenNotionalInr = ''600'',
        gc_globalMaxConcurrentPositions = 5, gc_globalMaxDailyLossInr = ''50'', gc_globalDailyLossLimitPercent = None,
        gc_globalMaxDrawdownPercent = ''20''\<rparr>,
     rp_pairConfig = \<lparr>pc_pair = ''B-BTC_USDT'', pc_pairRiskConfigId = sample_sha, pc_pairMaxLeverage = ''4'',
        pc_pairMaxExposureInr = ''400'', pc_pairMaxConcurrentPositions = None\<rparr>,
     rp_modeConfig = \<lparr>mc_mode = SAFE, mc_riskModeConfigId = sample_sha, mc_riskPerTradePercent = ''1'', mc_maxNotionalPerTradeInr = ''300'',
        mc_leverageRecommendation = ''2'', mc_maxConcurrentExposureInr = ''510'', mc_maxCoinExposureInr = ''400'',
        mc_maxStrategyExposureInr = ''400'', mc_maxConcurrentPositions = 3, mc_maxDailyLossInr = ''30'',
        mc_dailyLossLimitPercent = None, mc_maxDrawdownPercent = ''10'', mc_consecutiveLossLimit = None, mc_cooldownMs = None\<rparr>,
     rp_sourceAuthorityPolicy = \<lparr>sp_riskSourceAuthorityPolicyId = sample_sha, sp_accountRiskSourceId = ''source'',
        sp_pairRiskSourceId = ''source'', sp_exposureSourceId = ''source'', sp_leverageTierSourceId = ''source'',
        sp_conversionSourceId = ''source''\<rparr>,
     rp_freshnessPolicy = \<lparr>fp_riskFreshnessPolicyId = sample_sha, fp_maxAccountSnapshotAgeMs = 1000, fp_maxPairSnapshotAgeMs = 1000,
        fp_maxExposureSnapshotAgeMs = 1000, fp_maxLeverageTierSnapshotAgeMs = 1000, fp_maxSettlementRateSnapshotAgeMs = 1000\<rparr>,
     rp_valuationPolicy = \<lparr>vp_riskValuationPolicyId = sample_sha,
        vp_valuationMethodVersion = ''P13_MARK_PRICE_MULTIPLIER_SETTLEMENT_V1'', vp_valuationPriceField = ''markPriceUsdt'',
        vp_valuationUnitScale = 8, vp_valuationUnitRounding = ''ROUND_HALF_UP''\<rparr>,
     rp_positionSizingPolicyId = sample_sha, rp_riskPolicyId = sample_sha\<rparr>"

definition sample_sizing_request :: sizing_request where
  "sample_sizing_request = \<lparr>sq_action = OPEN_ACTION, sq_candidate = sample_risk_candidate, sq_entryStopProposal = Some sample_entry_stop,
     sq_leverageProposal = None, sq_override = None, sq_accountSnapshot = Some sample_account, sq_pairSnapshot = sample_pair,
     sq_exposureSnapshot = Some sample_risk_exposure, sq_leverageTierSnapshot = Some sample_tiers,
     sq_settlementRateSnapshot = Some sample_settlement\<rparr>"

subsection \<open>Its sizing\<close>

lemma sample_numbers:
  "riskDecimal (cj_D calc_128) ''0'' = 0" "riskDecimal (cj_D calc_128) ''1'' = 1" "riskDecimal (cj_D calc_128) ''2'' = 2"
  "riskDecimal (cj_D calc_128) ''4'' = 4" "riskDecimal (cj_D calc_128) ''5'' = 5" "riskDecimal (cj_D calc_128) ''6'' = 6"
  "riskDecimal (cj_D calc_128) ''9'' = 9" "riskDecimal (cj_D calc_128) ''10'' = 10"
  "riskDecimal (cj_D calc_128) ''20'' = 20" "riskDecimal (cj_D calc_128) ''50'' = 50" "riskDecimal (cj_D calc_128) ''300'' = 300"
  "riskDecimal (cj_D calc_128) ''400'' = 400" "riskDecimal (cj_D calc_128) ''500'' = 500"
  by code_simp+

lemma sample_headroom:
  "exposureHeadroom (cj_D calc_128) sample_risk_exposure sample_risk_candidate sample_risk_policy =
     Some \<lparr>hr_globalInr = ''500'', hr_pairInr = ''400'', hr_strategyInr = ''400''\<rparr>"
  by code_simp

lemma sample_stop: "risk_minus (cj_D calc_128) 10 ''9'' = 1" by code_simp

lemma sample_reasons: "requestReasons calc_128 sample_sizing_request sample_risk_policy = Inr []"
  by code_simp

definition sample_basis :: "rat list \<Rightarrow> sizing_basis" where
  "sample_basis qs = \<lparr>sb_unitNotionalUsdt = 10, sb_rate = 2, sb_riskBudget = 4, sb_perUnitLossInr = 2, sb_riskCapped = 2,
     sb_quantityIncrement = 1, sb_maxNotionalInr = 300,
     sb_headroom = \<lparr>hr_globalInr = ''500'', hr_pairInr = ''400'', hr_strategyInr = ''400''\<rparr>, sb_commonCeilings = qs\<rparr>"

lemma sample_basis_fields [simp]:
  "sb_unitNotionalUsdt (sample_basis qs) = 10" "sb_rate (sample_basis qs) = 2" "sb_riskBudget (sample_basis qs) = 4"
  "sb_perUnitLossInr (sample_basis qs) = 2" "sb_riskCapped (sample_basis qs) = 2" "sb_quantityIncrement (sample_basis qs) = 1"
  "sb_maxNotionalInr (sample_basis qs) = 300" "sb_commonCeilings (sample_basis qs) = qs"
  "sb_headroom (sample_basis qs) = \<lparr>hr_globalInr = ''500'', hr_pairInr = ''400'', hr_strategyInr = ''400''\<rparr>"
  by (simp_all add: sample_basis_def)

lemma sample_percent: "risk_div (cj_D calc_128) 400 100 = 4"
  using round_sig_small[of 4] by (simp add: risk_div_def calc_128_def half_up_def)

lemma sample_qty:
  "qtyFromInr calc_128 (sample_basis qs) 300 = Inr 15"
  "qtyFromInr calc_128 (sample_basis qs) 500 = Inr 25"
  "qtyFromInr calc_128 (sample_basis qs) 400 = Inr 20"
  "qtyFromInr calc_128 (sample_basis qs) 1000 = Inr 50"
  "qtyFromUsdt calc_128 (sample_basis qs) 10 = Inr 1"
  by (simp_all add: qtyFromInr_def qtyFromUsdt_def checkedProduct_small floorRatio_small)

lemma sample_ceilings: "commonCeilings calc_128 sample_pair (sample_basis []) = Inr [50, 15, 25, 20, 20]"
  unfolding commonCeilings_def Let_def by (simp add: orZero_def sample_numbers sample_qty) (simp add: sample_pair_def sample_numbers)

lemma sample_request: "size_request calc_128 sample_sizing_request sample_risk_policy sample_account sample_entry_stop sample_settlement sample_tiers
     sample_risk_exposure = size_tiers calc_128 sample_sizing_request sample_risk_policy sample_account sample_tiers
       (sample_basis [50, 15, 25, 20, 20])"
proof -
  have f: "sq_candidate sample_sizing_request = sample_risk_candidate" "sq_pairSnapshot sample_sizing_request = sample_pair"
    "sq_override sample_sizing_request = None" "mc_riskPerTradePercent (rp_modeConfig sample_risk_policy) = ''1''"
    "mc_maxNotionalPerTradeInr (rp_modeConfig sample_risk_policy) = ''300''" "ac_currentEquityInr sample_account = ''400''"
    "es_entryPriceUsdt sample_entry_stop = ''10''" "es_stopPriceUsdt sample_entry_stop = ''9''" 
    "st_rateInrPerUsdt sample_settlement = ''2''" "ps_contractMultiplier sample_pair = ''1''" "ps_quantityIncrement sample_pair = ''1''"
    by (simp_all add: sample_sizing_request_def sample_risk_policy_def sample_account_def sample_entry_stop_def sample_settlement_def
       sample_pair_def)
  show ?thesis
    unfolding size_request_def Let_def
    by (simp add: f override_or_def sample_numbers sample_stop sample_percent sample_headroom checkedProduct_small floorRatio_small
        sample_basis_def[symmetric] sample_ceilings del: One_nat_def)
qed

lemma sample_leverage:
  "finalLeverage (cj_D calc_128) sample_sizing_request sample_risk_policy sample_account tier =
     minimum (riskDecimal (cj_D calc_128) (tr_maxLeverage tier)) [2, 4, 5]"
  unfolding finalLeverage_def
  by (simp add: sample_sizing_request_def sample_risk_policy_def sample_account_def sample_numbers)


lemma sample_lowered: "risk_minus (cj_D calc_128) 1 (dfixed (cj_D calc_128) 1) = 0"
  by code_simp

lemma sample_floor:
  "floorToIncrement calc_128 0 1 = Inr 0" "floorToIncrement calc_128 2 1 = Inr 2"
  by (simp_all add: floorToIncrement_def sample_numbers floorRatio_small)

lemma sample_tier_1:
  "try_tier calc_128 sample_sizing_request sample_risk_policy sample_account (sample_basis [50, 15, 25, 20, 20])
     (ts_tiers sample_tiers ! 0) = Inr (Inl MIN_QUANTITY)"
proof -
  have f: "tr_maxLeverage (ts_tiers sample_tiers ! 0) = ''20''" "tr_upperNotionalUsdt (ts_tiers sample_tiers ! 0) = Some ''10''"
    "tr_upperInclusive (ts_tiers sample_tiers ! 0) = False" "ac_availableMarginInr sample_account = ''500''"
    "sq_pairSnapshot sample_sizing_request = sample_pair"
    by (simp_all add: sample_tiers_def sample_account_def sample_sizing_request_def)
  have p: "ps_minQuantity sample_pair = ''1''" "ps_minTradeSize sample_pair = ''1''" "ps_minNotional sample_pair = ''6''"
    by (simp_all add: sample_pair_def)
  show ?thesis
    unfolding try_tier_def Let_def tierUpper_def
    by (simp add: f sample_leverage minimum_def sample_numbers sample_qty sample_lowered sample_floor checkedProduct_small)
      (simp add: judge_tier_def Let_def p sample_numbers)
qed

lemma sample_tier_2:
  "try_tier calc_128 sample_sizing_request sample_risk_policy sample_account (sample_basis [50, 15, 25, 20, 20])
     (ts_tiers sample_tiers ! 1) = Inr (Inr \<lparr>fz_quantity = 2, fz_leverage = 2, fz_tierLeverage = ''10''\<rparr>)"
proof -
  have f: "tr_maxLeverage (ts_tiers sample_tiers ! 1) = ''10''" "tr_upperNotionalUsdt (ts_tiers sample_tiers ! 1) = None"
    "tr_lowerNotionalUsdt (ts_tiers sample_tiers ! 1) = ''10''" "tr_lowerInclusive (ts_tiers sample_tiers ! 1) = True"
     "ac_availableMarginInr sample_account = ''500''"
    "sq_pairSnapshot sample_sizing_request = sample_pair"
    by (simp_all add: sample_tiers_def sample_account_def sample_sizing_request_def)
  have p: "ps_minQuantity sample_pair = ''1''" "ps_minTradeSize sample_pair = ''1''" "ps_minNotional sample_pair = ''6''"
    "ps_maxQuantity sample_pair = ''50''" "ps_maxNotional sample_pair = None"
    by (simp_all add: sample_pair_def)
  show ?thesis
    unfolding try_tier_def Let_def tierUpper_def
    by (simp add: f[unfolded One_nat_def] sample_leverage minimum_def sample_numbers sample_qty sample_floor checkedProduct_small)
      (simp add: judge_tier_def Let_def p f[unfolded One_nat_def] inTier_def sample_numbers)
qed

lemma sample_sized_values:
  "\<exists>v. sized_values calc_128 (sample_basis qs) \<lparr>fz_quantity = 2, fz_leverage = 2, fz_tierLeverage = l\<rparr> = Inr (Some v)
     \<and> sv_finalQuantity v = ''2'' \<and> sv_finalNotionalInr v = ''40'' \<and> sv_finalLeverage v = ''2''"
proof -
  have up: "risk_divUp calc_128 20 2 = 10" "risk_divUp calc_128 40 2 = 20"
    unfolding risk_divUp_def by code_simp+
  have c: "canonicalRiskDecimal (cj_D calc_128) 2 = Inr ''2''" "canonicalRiskDecimal (cj_D calc_128) 4 = Inr ''4''"
    "canonicalRiskDecimal (cj_D calc_128) 10 = Inr ''10''" "canonicalRiskDecimal (cj_D calc_128) 20 = Inr ''20''"
    "canonicalRiskDecimal (cj_D calc_128) 40 = Inr ''40''"
    by code_simp+
  show ?thesis unfolding sized_values_def Let_def by (simp add: checkedProduct_small up c)
qed

lemma sample_sized:
  obtains r v where "resolveTierSizing calc_128 sample_sizing_request sample_risk_policy = Inr r" and "tz_sizing r = Some v"
    and "tz_reasons r = []"
    and "sv_finalQuantity v = ''2''" and "sv_finalNotionalInr v = ''40''" and "sv_finalLeverage v = ''2''"
proof -
  obtain v where v: "sized_values calc_128 (sample_basis [50, 15, 25, 20, 20])
      \<lparr>fz_quantity = 2, fz_leverage = 2, fz_tierLeverage = ''10''\<rparr> = Inr (Some v)"
      "sv_finalQuantity v = ''2''" "sv_finalNotionalInr v = ''40''" "sv_finalLeverage v = ''2''"
    using sample_sized_values by blast
  have t: "ts_tiers sample_tiers = [ts_tiers sample_tiers ! 0, ts_tiers sample_tiers ! 1]"
    by (simp add: sample_tiers_def)
  have f: "foldl_res (try_step calc_128 sample_sizing_request sample_risk_policy sample_account (sample_basis [50, 15, 25, 20, 20]))
      ([], []) (ts_tiers sample_tiers) = Inr ([\<lparr>fz_quantity = 2, fz_leverage = 2, fz_tierLeverage = ''10''\<rparr>], [MIN_QUANTITY])"
    by (subst t) (simp add: try_step_def sample_tier_1 sample_tier_2[unfolded One_nat_def])
  have z: "\<exists>r. size_tiers calc_128 sample_sizing_request sample_risk_policy sample_account sample_tiers
      (sample_basis [50, 15, 25, 20, 20]) = Inr r \<and> tz_sizing r = Some v \<and> tz_reasons r = []"
    unfolding size_tiers_def Let_def f by (simp add: select_size_def v(1))
  have q: "sq_accountSnapshot sample_sizing_request = Some sample_account" "sq_entryStopProposal sample_sizing_request = Some sample_entry_stop"
    "sq_settlementRateSnapshot sample_sizing_request = Some sample_settlement" "sq_leverageTierSnapshot sample_sizing_request = Some sample_tiers"
    "sq_exposureSnapshot sample_sizing_request = Some sample_risk_exposure" "sq_action sample_sizing_request = OPEN_ACTION"
    by (simp_all add: sample_sizing_request_def)
  from z obtain r where r: "size_tiers calc_128 sample_sizing_request sample_risk_policy sample_account sample_tiers
      (sample_basis [50, 15, 25, 20, 20]) = Inr r" "tz_sizing r = Some v" "tz_reasons r = []" by blast
  have "resolveTierSizing calc_128 sample_sizing_request sample_risk_policy = Inr r"
    unfolding resolveTierSizing_def resolveTierSizingUnchecked_def Let_def
    by (simp add: q sample_reasons sample_request r(1) caught_def)
  from that[OF this r(2,3) v(2-4)] show thesis .
qed

lemma sample_sizing_texts: "sizing_texts sample_sizing_request sample_risk_policy"
  by code_simp

theorem sizing_respects_limits_witness:
  "\<exists>r v. resolveTierSizing calc_128 sample_sizing_request sample_risk_policy = Inr r \<and> tz_sizing r = Some v
     \<and> sv_finalQuantity v = ''2'' \<and> quantity_admissible sample_sizing_request v
     \<and> risk_within sample_sizing_request sample_risk_policy sample_account v"
proof -
  obtain r v where r: "resolveTierSizing calc_128 sample_sizing_request sample_risk_policy = Inr r" "tz_sizing r = Some v"
    "sv_finalQuantity v = ''2''"
    by (rule sample_sized)
  have "sq_accountSnapshot sample_sizing_request = Some sample_account" by (simp add: sample_sizing_request_def)
  with sizing_respects_limits[OF calc_128.risk_arith_axioms sample_sizing_texts r(1,2)] r show ?thesis by auto
qed

subsection \<open>The engine on it\<close>

text \<open>A digest that gives every text the same value accepts the evidence, and one strategy definition rebuilds the
  lineage of the decision.\<close>

definition same_sha :: "string \<Rightarrow> string" where
  "same_sha t = sample_sha"

definition sample_definitions :: "strategy_definition list" where
  "sample_definitions = [\<lparr>df_strategyId = ''RSI_MOMENTUM'', df_strategyVersion = ''1.0.0'',
     df_describeConstruction = (\<lambda>_. Inr \<lparr>co_normalizedParameters = sample_parameters, co_triggerTimeframeMinutes = 5,
       co_requiredTimeframes = [5]\<rparr>)\<rparr>]"

definition sample_risk_context :: risk_context where
  "sample_risk_context = \<lparr>
     rc_strategyOrigin = Some \<lparr>or_decision = sample_risk_decision,
       or_instance = \<lparr>si_pair = ''B-BTC_USDT'', si_strategyId = ''RSI_MOMENTUM'', si_strategyVersion = ''1.0.0'', si_parameterHash = sample_sha,
         si_strategyInstanceId = sample_sha, si_normalizedParameters = sample_parameters,
         si_indicatorBootstrapIdentity = [\<lparr>be_timeframeMinutes = 5, be_bootstrapStartOpenTimeMs = 0\<rparr>],
         si_triggerTimeframeMinutes = 5\<rparr>\<rparr>,
     rc_candidate = sample_risk_candidate, rc_entryStopProposal = Some sample_entry_stop, rc_leverageProposal = None,
     rc_override = None, rc_evaluationTimeMs = 300000, rc_expectedRiskPolicyId = None, rc_accountSnapshot = Some sample_account,
     rc_pairSnapshot = sample_pair, rc_exposureSnapshot = Some sample_risk_exposure, rc_leverageTierSnapshot = Some sample_tiers,
     rc_settlementRateSnapshot = Some sample_settlement\<rparr>"

lemma sample_context_ok: "context_ok sample_risk_context"
  by code_simp

text \<open>The same evidence evaluated at another time, while it is fresh.\<close>

abbreviation sample_at :: "int \<Rightarrow> risk_context" where
  "sample_at t \<equiv> sample_risk_context\<lparr>rc_evaluationTimeMs := t\<rparr>"

definition sample_fresh :: "int \<Rightarrow> bool" where
  "sample_fresh t \<longleftrightarrow> 300000 \<le> t \<and> t \<le> 301000"

lemma sample_at_fields:
  "rc_candidate (sample_at t) = rc_candidate sample_risk_context" "rc_strategyOrigin (sample_at t) = rc_strategyOrigin sample_risk_context"
  "rc_entryStopProposal (sample_at t) = rc_entryStopProposal sample_risk_context"
  "rc_leverageProposal (sample_at t) = rc_leverageProposal sample_risk_context" "rc_override (sample_at t) = rc_override sample_risk_context"
  "rc_accountSnapshot (sample_at t) = rc_accountSnapshot sample_risk_context"
  "rc_pairSnapshot (sample_at t) = rc_pairSnapshot sample_risk_context"
  "rc_exposureSnapshot (sample_at t) = rc_exposureSnapshot sample_risk_context"
  "rc_leverageTierSnapshot (sample_at t) = rc_leverageTierSnapshot sample_risk_context"
  "rc_settlementRateSnapshot (sample_at t) = rc_settlementRateSnapshot sample_risk_context" "rc_evaluationTimeMs (sample_at t) = t"
  by simp_all

lemma sample_now: "sample_at 300000 = sample_risk_context" "sample_fresh 300000"
  by (simp_all add: sample_risk_context_def sample_fresh_def)

lemma sample_normalized_at:
  assumes "sample_fresh t"
  shows "engine_normalize (cj_D calc_128) sample_risk_policy (sample_at t) = Inr (sample_at t)"
proof -
  have "context_ok (sample_at t)"
    using sample_context_ok assms by (simp add: context_ok_def safe_count_def isSafeInteger_def sample_fresh_def)
  from input.fixpoint[OF this] show ?thesis
    by (simp add: engine_normalize_def) (simp add: sample_risk_context_def normalizeRiskOverride_def)
qed

lemmas sample_normalized = sample_normalized_at[OF sample_now(2), unfolded sample_now(1)]

lemma sample_policy_made:
  "createRiskPolicy same_sha (cj_D calc_128) (policyDraftFromPolicy sample_risk_policy) = Inr sample_risk_policy"
proof (rule decimal_lib.createRiskPolicy_same)
  show "decimal_lib (cj_D calc_128) 128" using calc_128.risk_arith_axioms by (simp add: risk_arith_def)
  show "parts_ok sample_risk_policy" "policy_ordered sample_risk_policy" by code_simp+
  have "json_supported (policy_id_json p)" "json_supported POSITION_SIZING_POLICY_PAYLOAD" for p
    by (simp_all add: policy_id_json_def POSITION_SIZING_POLICY_PAYLOAD_def)
  moreover have "json_supported (global_json (rp_globalConfig sample_risk_policy))"
    "json_supported (pair_config_json (rp_pairConfig sample_risk_policy))"
    "json_supported (mode_json (rp_modeConfig sample_risk_policy))"
    "json_supported (source_json (rp_sourceAuthorityPolicy sample_risk_policy))"
    "json_supported (freshness_json (rp_freshnessPolicy sample_risk_policy))"
    "json_supported (valuation_policy_json (rp_valuationPolicy sample_risk_policy))"
    by code_simp+
  ultimately show "identities_ok same_sha sample_risk_policy"
    unfolding identities_ok_def by (simp add: risk_digest_supported same_sha_def) (simp add: sample_risk_policy_def)
qed

lemma sample_action: "deriveRiskAction (cd_strategyDecision (rc_candidate sample_risk_context))
    (ps_position (rc_pairSnapshot sample_risk_context)) = Inr OPEN_ACTION"
  by code_simp

lemma sample_request_of: "sizing_request_of (sample_at t) OPEN_ACTION = sample_sizing_request"
  by (simp add: sizing_request_of_def sample_risk_context_def sample_sizing_request_def)

lemma same_sha_digest: "json_supported v \<Longrightarrow> risk_digest same_sha v = Inr sample_sha"
  by (simp add: risk_digest_supported same_sha_def)

text \<open>A digest that may tell decisions apart: every other text still gets the same value.\<close>

definition plain_digest :: "(string \<Rightarrow> string) \<Rightarrow> bool" where
  "plain_digest sha \<longleftrightarrow>
     (\<forall>v. json_supported v \<and> (\<forall>xs. v = JObject xs \<longrightarrow> ''leverageProposal'' \<notin> fst ` set xs) \<longrightarrow>
        sha (raw_text (json_norm v)) = sample_sha)"

lemma same_sha_plain: "plain_digest same_sha"
  by (simp add: plain_digest_def same_sha_def)

lemma plain_object:
  "plain_digest sha \<Longrightarrow> json_supported (JObject xs) \<Longrightarrow> ''leverageProposal'' \<notin> fst ` set xs \<Longrightarrow>
    risk_digest sha (JObject xs) = Inr sample_sha"
  unfolding plain_digest_def by (simp only: risk_digest_supported json.inject) blast

lemma plain_strategy:
  "plain_digest sha \<Longrightarrow> json_supported v \<Longrightarrow> \<not> has_decimal v \<Longrightarrow> (\<And>xs. v = JObject xs \<Longrightarrow> ''leverageProposal'' \<notin> fst ` set xs) \<Longrightarrow>
    strategySha256CanonicalJson sha v = Inr sample_sha"
  by (simp add: strategySha256CanonicalJson_def sha256CanonicalJson_def canonicalJson_eq_Inr[THEN iffD2] plain_digest_def)

lemma sample_item:
  assumes "plain_digest sha" and "sample_fresh t"
    and "json_supported (JObject (ei_members i))" and "''leverageProposal'' \<notin> fst ` set (ei_members i)"
    and "ei_provenance i = sample_provenance" and "ei_source i = ''source''" and "ei_age i = 1000"
  shows "check_item sha t i = Inr \<lparr>sn_hash = sample_sha, sn_identity = [], sn_temporal = []\<rparr>"
proof -
  have p: "pv_contentSha256 sample_provenance = sample_sha" "pv_sourceId sample_provenance = ''source''"
    "pv_sourceTimeMs sample_provenance = None" "pv_observedAtMs sample_provenance = 300000"
    by (simp_all add: sample_provenance_def)
  have "json_supported (JObject (ei_members i @ [(''provenance'', JObject (provenance_members sample_provenance))]))"
    using assms(3) by (simp add: provenance_members_def p nullable_text_def nullable_number_def isSafeInteger_def)
  from plain_object[OF assms(1) this] assms(4)
  have "risk_digest sha (JObject (ei_members i @ [(''provenance'', JObject (provenance_members sample_provenance))])) = Inr sample_sha"
    by simp
  with assms(2) show ?thesis
    by (simp add: check_item_def verifySnapshot_def verifyEvidence_def evidenceContentSha256_def assms(5-) p sample_fresh_def)
qed

lemma sample_items:
  assumes "plain_digest sha" and "sample_fresh t"
  shows "check_item sha t (pair_evidence sample_risk_policy sample_pair) =
     Inr \<lparr>sn_hash = sample_sha, sn_identity = [], sn_temporal = []\<rparr>"
  "check_item sha t (entry_evidence sample_risk_policy sample_entry_stop) =
     Inr \<lparr>sn_hash = sample_sha, sn_identity = [], sn_temporal = []\<rparr>"
  "check_item sha t (account_evidence sample_risk_policy sample_account) =
     Inr \<lparr>sn_hash = sample_sha, sn_identity = [], sn_temporal = []\<rparr>"
  "check_item sha t (exposure_evidence sample_risk_policy sample_risk_exposure) =
     Inr \<lparr>sn_hash = sample_sha, sn_identity = [], sn_temporal = []\<rparr>"
  "check_item sha t (tier_evidence sample_risk_policy sample_tiers) =
     Inr \<lparr>sn_hash = sample_sha, sn_identity = [], sn_temporal = []\<rparr>"
  "check_item sha t (settlement_evidence sample_risk_policy sample_settlement) =
     Inr \<lparr>sn_hash = sample_sha, sn_identity = [], sn_temporal = []\<rparr>"
  by (rule sample_item[OF assms]; code_simp)+

lemma sample_fields [simp]:
  "rc_candidate sample_risk_context = sample_risk_candidate" "rc_entryStopProposal sample_risk_context = Some sample_entry_stop"
  "rc_leverageProposal sample_risk_context = None" "rc_evaluationTimeMs sample_risk_context = 300000"
  "rc_accountSnapshot sample_risk_context = Some sample_account" "rc_pairSnapshot sample_risk_context = sample_pair"
  "rc_exposureSnapshot sample_risk_context = Some sample_risk_exposure" "rc_leverageTierSnapshot sample_risk_context = Some sample_tiers"
  "rc_settlementRateSnapshot sample_risk_context = Some sample_settlement"
  "cd_strategyDecision sample_risk_candidate = sample_risk_decision" "cd_pair sample_risk_candidate = ''B-BTC_USDT''"
  "cd_instrumentSpecSnapshotId sample_risk_candidate = ''spec''" "sd_status sample_risk_decision = READY"
  "sd_pair sample_risk_decision = ''B-BTC_USDT''" "sd_evaluationTimeMs sample_risk_decision = 300000"
  "sd_decisionId sample_risk_decision = sample_sha" "sd_targetExposure sample_risk_decision = Some TARGET_LONG"
  "ps_pair sample_pair = ''B-BTC_USDT''" "ps_instrumentSpecSnapshotId sample_pair = ''spec''" "ps_position sample_pair = POSITION_FLAT"
  "ps_ownership sample_pair = RECONCILED_FLAT ''a'' ''B-BTC_USDT''" "ps_status sample_pair = ''active''" "\<not> ps_exitOnly sample_pair"
  "pc_pair (rp_pairConfig sample_risk_policy) = ''B-BTC_USDT''" "es_sourceStrategyDecisionId sample_entry_stop = sample_sha"
  "es_pair sample_entry_stop = ''B-BTC_USDT''" "ac_accountStateKnown sample_account" "ac_accountId sample_account = ''a''"
  by (simp_all add: sample_risk_context_def sample_risk_candidate_def sample_risk_decision_def sample_pair_def sample_risk_policy_def
      sample_entry_stop_def sample_account_def)

text \<open>Whatever the strategy definitions are, if they rebuild the lineage.\<close>

definition rebuilds_by :: "(string \<Rightarrow> string) \<Rightarrow> strategy_definition list \<Rightarrow> bool" where
  "rebuilds_by sha definitions \<longleftrightarrow>
     strategyLineageReasons sha definitions sample_risk_candidate (rc_strategyOrigin sample_risk_context) = Inr []"

definition rebuilds_sample :: "strategy_definition list \<Rightarrow> bool" where
  "rebuilds_sample definitions \<longleftrightarrow>
     strategyLineageReasons same_sha definitions sample_risk_candidate (rc_strategyOrigin sample_risk_context) = Inr []"

lemma sample_definitions_rebuild_by:
  assumes "plain_digest sha"
  shows "rebuilds_by sha sample_definitions"
proof -
  note P = plain_strategy[OF assms]
  let ?l = "cd_strategyLineage sample_risk_candidate"
  have d: "strategySha256CanonicalJson sha (strategy_decision_json sample_risk_decision) = Inr sample_sha"
    by (rule P; (code_simp; fail)?; auto simp: strategy_decision_json_def)
  have p: "strategySha256CanonicalJson sha sample_parameters = Inr sample_sha"
    by (rule P; (code_simp; fail)?; auto simp: sample_parameters_def)
  have b: "strategySha256CanonicalJson sha (bootstrap_json (sl_indicatorBootstrapIdentity ?l)) = Inr sample_sha"
    by (rule P; (code_simp; fail)?; auto simp: bootstrap_json_def)
  have k: "computeStrategyInstanceId sha ''B-BTC_USDT'' ''RSI_MOMENTUM'' ''1.0.0'' sample_sha (sl_indicatorBootstrapIdentity ?l) = Inr sample_sha"
  proof -
    have t: "''B-BTC_USDT'' \<noteq> []" "trim ''B-BTC_USDT'' = ''B-BTC_USDT''" "is_sha256 sample_sha" by code_simp+
    show ?thesis unfolding computeStrategyInstanceId_def
      by (simp only: t if_False simp_thms) (rule P; (code_simp; fail)?; auto)
  qed
  have i: "recomputeStrategyDecisionId sha sample_risk_decision = Inr sample_sha"
    unfolding recomputeStrategyDecisionId_def by (rule P; (code_simp; fail)?; auto)
  have n: "normalizeIndicatorBootstrapIdentity (sl_indicatorBootstrapIdentity ?l) [5] = Inr (sl_indicatorBootstrapIdentity ?l)"
    by code_simp
  show ?thesis
    unfolding rebuilds_by_def strategyLineageReasons_def Let_def same_digest_def lineageRebuilds_def
    using d p b k i n
    by (simp add: sample_risk_context_def sample_risk_candidate_def sample_definitions_def)
      (simp add: sample_risk_decision_def)
qed

lemma sample_definitions_rebuild: "rebuilds_sample sample_definitions"
  using sample_definitions_rebuild_by[OF same_sha_plain] by (simp add: rebuilds_sample_def rebuilds_by_def)

lemma sample_identity_pushes:
  assumes "rebuilds_by sha definitions" and "sample_fresh t"
  shows "identity_pushes sha definitions sample_risk_policy (sample_at t) = Inr [(2, []), (6, []), (3, []), (4, []), (4, [])]"
  using assms unfolding identity_pushes_def Let_def by (simp add: rebuilds_by_def sample_fresh_def)

definition sample_hashes :: content_hashes where
  "sample_hashes = \<lparr>ch_accountSnapshotSha256 = Some sample_sha, ch_pairSnapshotSha256 = sample_sha,
     ch_exposureSnapshotSha256 = Some sample_sha, ch_leverageTierSnapshotSha256 = Some sample_sha,
     ch_settlementRateSnapshotSha256 = Some sample_sha\<rparr>"

lemma sample_pair_digest:
  assumes "plain_digest sha"
  shows "evidenceContentSha256 sha (pair_members sample_pair) (ps_provenance sample_pair) = Inr sample_sha"
  unfolding evidenceContentSha256_def by (rule plain_object[OF assms]; code_simp)

lemma sample_evidence:
  assumes "plain_digest sha" and "sample_fresh t"
  shows "\<exists>ps. evidence_pushes sha sample_risk_policy (sample_at t) OPEN_ACTION = Inr (sample_hashes, ps) \<and> (\<forall>p\<in>set ps. snd p = [])"
  unfolding evidence_pushes_def Let_def
  by (simp add: snapshot_pushes_def sample_items[OF assms] sample_pair_digest[OF assms(1)] sample_hashes_def)

lemma sample_rules:
  "accountStateReasons (cj_D calc_128) (Some sample_account) = []"
  "exposureReasons (cj_D calc_128) (Some sample_risk_exposure) sample_risk_candidate sample_risk_policy (Some ''40'') = []"
  "lossDrawdownReasons calc_128 (Some sample_account) sample_risk_policy t = Inr []"
  "reservationIdentityReasons (Some sample_risk_exposure) sample_risk_candidate = []"
  "instrumentPriceReasons calc_128 sample_sizing_request = Inr []"
proof -
  have "dailyLossReasons calc_128 sample_account sample_risk_policy = Inr []"
    "drawdownReasons calc_128 sample_account sample_risk_policy = Inr []" "ac_accountStateKnown sample_account"
    "ac_cooldownActiveUntilMs sample_account = None"
    by code_simp+
  then show "lossDrawdownReasons calc_128 (Some sample_account) sample_risk_policy t = Inr []"
    by (simp add: lossDrawdownReasons_def split: option.split)
qed code_simp+

lemma sample_preflight:
  assumes "rebuilds_by sha definitions" and "plain_digest sha" and "sample_fresh t"
  shows "\<exists>audit. positionSizingPreflightAudit sha definitions (cj_D calc_128) sample_risk_policy (sample_at t) OPEN_ACTION =
     Inr audit \<and> concat (map as_reasonCodes audit) = [] \<and> map as_step audit = [3, 4, 5, 6, 7, 10]"
  unfolding positionSizingPreflightAudit_def Let_def sample_identity_pushes[OF assms(1,3)]
  by (simp add: optional_item_pushes_def sample_items[OF assms(2,3)] sample_rules step_codes_def)

lemma merge_audit_facts:
  "set (map as_step (merge_audit entries)) = set (map as_step entries)"
  "concat (map as_reasonCodes entries) = [] \<Longrightarrow> concat (map as_reasonCodes (merge_audit entries)) = []"
proof -
  show "set (map as_step (merge_audit entries)) = set (map as_step entries)"
    by (force simp: merge_audit_def merge_step_def Let_def)
  assume "concat (map as_reasonCodes entries) = []"
  then have "\<forall>e\<in>set entries. as_reasonCodes e = []" by simp
  then show "concat (map as_reasonCodes (merge_audit entries)) = []"
    by (simp add: merge_audit_def merge_step_def Let_def)
qed

lemma json_supported_audit: "json_supported (audit_json steps) \<longleftrightarrow> (\<forall>k\<in>set (map as_step steps). isSafeInteger (int k))"
  by (auto simp: audit_json_def list_all_iff codes_json_def text_array_def)

lemma json_supported_sizing: "json_supported (sizing_json v)"
  by (cases v) (simp_all add: sizing_json_def)

lemma sample_sizing_evaluation:
  assumes r: "resolveTierSizing calc_128 sample_sizing_request sample_risk_policy = Inr r" "tz_sizing r = Some v" "tz_reasons r = []"
    and sha: "plain_digest sha"
    and pre: "concat (map as_reasonCodes pre) = []" "map as_step pre = [3, 4, 5, 6, 7, 10]"
  obtains z where "evaluatePositionSizing sha calc_128 sample_sizing_request sample_risk_policy pre = Inr z"
    and "zd_sizing (se_decision z) = Some v" and "zd_outcome (se_decision z) = SIZED"
    and "\<forall>s\<in>set (zd_auditTrail (se_decision z)). as_reasonCodes s = []"
    and "zd_positionSizingDecisionId (se_decision z) = sample_sha"
proof -
  let ?entries = "sizing_entries True [] pre r []"
  have open': "sq_action sample_sizing_request = OPEN_ACTION" by (simp add: sample_sizing_request_def)
  have ord: "ordered [] = []" by simp
  have clean: "concat (map as_reasonCodes ?entries) = []"
    using pre(1) by (simp add: sizing_entries_def prerequisiteAudit_def Let_def r(3) ord)
  have "set (map as_step ?entries) = set (map as_step pre) \<union> {9, 11}"
    by (auto simp: sizing_entries_def prerequisiteAudit_def Let_def)
  then have "\<forall>k\<in>set (map as_step (merge_audit ?entries)). isSafeInteger (int k)"
    unfolding merge_audit_facts(1) pre(2) by (auto simp: isSafeInteger_def)
  then have json: "json_supported (audit_json (merge_audit ?entries))" by (simp only: json_supported_audit)
  have d: "\<exists>z. evaluatePositionSizing sha calc_128 sample_sizing_request sample_risk_policy pre = Inr z
      \<and> zd_sizing (se_decision z) = Some v \<and> zd_outcome (se_decision z) = SIZED
      \<and> zd_auditTrail (se_decision z) = merge_audit ?entries \<and> zd_positionSizingDecisionId (se_decision z) = sample_sha"
    unfolding evaluatePositionSizing_def Let_def computePositionSizingDecisionId_def
    using pre(1) json by (simp add: sample_rules r ord open' plain_object[OF sha] json_supported_sizing codes_json_def text_array_def isSafeInteger_def)
  then obtain z where z: "evaluatePositionSizing sha calc_128 sample_sizing_request sample_risk_policy pre = Inr z"
      "zd_sizing (se_decision z) = Some v" "zd_outcome (se_decision z) = SIZED" "zd_auditTrail (se_decision z) = merge_audit ?entries"
      "zd_positionSizingDecisionId (se_decision z) = sample_sha"
    by blast
  have "\<forall>s\<in>set (zd_auditTrail (se_decision z)). as_reasonCodes s = []"
    unfolding z(4) using merge_audit_facts(2)[OF clean] by simp
  with that z(1-3,5) show thesis by blast
qed

lemma sample_accepted_at:
  assumes plain: "plain_digest sha" and fresh: "sample_fresh t" and built: "rebuilds_by sha definitions"
    and r: "resolveTierSizing calc_128 sample_sizing_request sample_risk_policy = Inr r" "tz_sizing r = Some v" "tz_reasons r = []"
    and v: "sv_finalNotionalInr v = ''40''"
  obtains base where "evaluateRisk sha definitions calc_128 sample_risk_policy (sample_at t) =
      Inr (ACCEPTED_OPEN (base, approved_of_sizing v))"
    and "db_inputContentHashes base = sample_hashes" and "db_sourcePositionSizingDecisionId base = sample_sha"
proof -
  obtain pre where pre: "positionSizingPreflightAudit sha definitions (cj_D calc_128) sample_risk_policy (sample_at t) OPEN_ACTION = Inr pre"
      "concat (map as_reasonCodes pre) = []" "map as_step pre = [3, 4, 5, 6, 7, 10]"
    using sample_preflight[OF built plain fresh] by (elim exE conjE) (rule that)
  obtain z where z: "evaluatePositionSizing sha calc_128 sample_sizing_request sample_risk_policy pre = Inr z"
      "zd_sizing (se_decision z) = Some v" "zd_outcome (se_decision z) = SIZED"
      "\<forall>s\<in>set (zd_auditTrail (se_decision z)). as_reasonCodes s = []"
      "zd_positionSizingDecisionId (se_decision z) = sample_sha"
    by (rule sample_sizing_evaluation[OF r plain pre(2,3)])
  obtain ev where ev: "evidence_pushes sha sample_risk_policy (sample_at t) OPEN_ACTION = Inr (sample_hashes, ev)" "\<forall>p\<in>set ev. snd p = []"
    using sample_evidence[OF plain fresh] by (elim exE conjE) (rule that)
  let ?val = "\<lparr>vc_unitValuationInrPerQty = Some ''0'', vc_aggregateCurrentNotionalInr = Some ''0'', vc_reasons = []\<rparr>"
  let ?own = "\<lparr>oc_reasons = [], oc_ownedQuantity = None, oc_ownedNotionalInr = None\<rparr>"
  have val: "verifyCurrentValuation calc_128 sample_pair (Some sample_settlement) sample_risk_policy t = Inr ?val"
    by (simp add: verifyCurrentValuation_def)
  have own: "verifyOwnership calc_128 sample_pair sample_risk_candidate (Some ''a'') (Some ''0'') (Some ''0'') = Inr ?own"
    by (simp add: verifyOwnership_def)
  let ?lim = "[(11, []), (11, []), (11, [])] :: pushes"
  have lim: "limit_pushes calc_128 sample_risk_policy (sample_at t) OPEN_ACTION (se_decision z) = Inr ?lim"
    by (simp add: limit_pushes_def z(2) v sample_rules)
  have clos: "closeNotional calc_128 (sample_at t) OPEN_ACTION ?own = Inr (None, [])"
    by (simp add: closeNotional_def)
  let ?ps = "[(2, []), (6, []), (3, []), (4, []), (4, [])] @ ev @ action_pushes (sample_at t) OPEN_ACTION
    @ ownership_pushes (sample_at t) OPEN_ACTION ?val ?own
    @ map (\<lambda>s. (as_step s - 1, as_reasonCodes s)) (zd_auditTrail (se_decision z)) @ ?lim @ []"
  have act: "map upper_char ''active'' = ''ACTIVE''" by code_simp
  have pend: "ex_pending sample_risk_exposure \<noteq> UNKNOWN" by (simp add: sample_risk_exposure_def)
  have "\<forall>p\<in>set (action_pushes (sample_at t) OPEN_ACTION). snd p = []"
    unfolding action_pushes_def Let_def sample_at_fields sample_fields act by simp
  moreover have "\<forall>p\<in>set (ownership_pushes (sample_at t) OPEN_ACTION ?val ?own). snd p = []"
    by (simp add: ownership_pushes_def pend)
  ultimately have "\<forall>p\<in>set ?ps. snd p = []" using ev(2) z(4) by auto
  then have none: "step_codes ?ps i = []" for i by (force simp: step_codes_empty)
  then have reasons: "ordered (set_of_values (concat (map (step_codes ?ps) [0..<13]))) = []"
    by (simp add: set_of_values_def)
  define trail where "trail = audit ?ps OPEN_ACTION (list_ex (\<lambda>s. as_step s = 11 \<and> as_outcome s \<noteq> SKIPPED) (zd_auditTrail (se_decision z)))"
  define base where "base = decision_base_of sample_risk_policy (sample_at t) z trail sample_hashes"
  have decided: "decide base (sample_at t) OPEN_ACTION [] z ?own None = Inr (ACCEPTED_OPEN (base, approved_of_sizing v))"
    by (simp add: decide_def acceptOpen_def z(2,3))
  have json: "json_supported (candidate_json sample_risk_candidate)" "json_supported (entry_stop_json (Some sample_entry_stop))"
    by code_simp+
  have safe: "isSafeInteger t" using fresh by (simp add: isSafeInteger_def sample_fresh_def)
  obtain k where id: "identify sha (sample_at t) sample_risk_policy (zd_positionSizingDecisionId (se_decision z)) sample_hashes
      (ACCEPTED_OPEN (base, approved_of_sizing v)) = Inr (ACCEPTED_OPEN (base\<lparr>db_riskDecisionId := k\<rparr>, approved_of_sizing v))"
    unfolding identify_def
    by (subst (asm) risk_digest_supported)
      (simp_all add: riskDecisionIdentityPayload_def json leverage_json_def override_json_def outcome_json_def approved_open_json_def
        nullable_supported safe with_identity_def, simp add: sample_risk_context_def)
  have "evaluateRisk sha definitions calc_128 sample_risk_policy (sample_at t) =
      Inr (ACCEPTED_OPEN (base\<lparr>db_riskDecisionId := k\<rparr>, approved_of_sizing v))"
    unfolding evaluateRisk_def sample_normalized_at[OF fresh] rbind_Inr Let_def sample_at_fields sample_action
    unfolding sample_identity_pushes[OF built fresh] sample_request_of
    by (simp only: rbind_Inr sample_request_of sample_fields option.map val own ev(1) prod.case z(1) pre(1) lim clos
        valuation_check.simps if_False simp_thms decision_status.distinct option.distinct reasons[unfolded append_Nil2]
        trail_def[symmetric, unfolded append_Nil2] base_def[symmetric] decided id append_Nil2)
  from that[OF this] show thesis by (simp add: base_def decision_base_of_def Let_def z(5))
qed

lemma sample_accepted_by:
  assumes "rebuilds_sample definitions"
  obtains base v where "evaluateRisk same_sha definitions calc_128 sample_risk_policy sample_risk_context =
      Inr (ACCEPTED_OPEN (base, approved_of_sizing v))"
    and "db_riskDecisionId base = sample_sha" and "sv_finalQuantity v = ''2''" and "sv_finalNotionalInr v = ''40''"
    and "sv_finalLeverage v = ''2''"
proof -
  obtain r v where r: "resolveTierSizing calc_128 sample_sizing_request sample_risk_policy = Inr r" "tz_sizing r = Some v" "tz_reasons r = []"
    and v: "sv_finalQuantity v = ''2''" "sv_finalNotionalInr v = ''40''" "sv_finalLeverage v = ''2''"
    by (rule sample_sized)
  have "rebuilds_by same_sha definitions" using assms by (simp add: rebuilds_sample_def rebuilds_by_def)
  from sample_accepted_at[OF same_sha_plain sample_now(2) this r v(2)]
  obtain base where run: "evaluateRisk same_sha definitions calc_128 sample_risk_policy sample_risk_context =
      Inr (ACCEPTED_OPEN (base, approved_of_sizing v))"
    unfolding sample_now(1) by blast
  from decision_identity_text(2)[OF run sample_normalized] have "db_riskDecisionId base = sample_sha"
    by (simp add: base_of_open same_sha_def)
  from that[OF run this v] show thesis .
qed

lemmas sample_accepted = sample_accepted_by[OF sample_definitions_rebuild]

theorem accepted_opening_sound_witness:
  "\<exists>v. sv_finalQuantity v = ''2'' \<and> opening_sound same_sha sample_definitions calc_128 sample_risk_policy sample_risk_context v"
proof -
  obtain base v where run: "evaluateRisk same_sha sample_definitions calc_128 sample_risk_policy sample_risk_context =
      Inr (ACCEPTED_OPEN (base, approved_of_sizing v))" and q: "sv_finalQuantity v = ''2''"
    by (rule sample_accepted)
  from accepted_opening_sound[OF calc_128.risk_arith_axioms sample_policy_made run]
  obtain n w where w: "engine_normalize (cj_D calc_128) sample_risk_policy sample_risk_context = Inr n"
      "approved_of_sizing v = approved_of_sizing w" "opening_sound same_sha sample_definitions calc_128 sample_risk_policy n w"
    by blast
  have "sv_finalQuantity w = ''2''" using w(2) q by (simp add: approved_of_sizing_def)
  with w show ?thesis by (auto simp: sample_normalized)
qed

theorem decision_follows_reasons_witness:
  "\<exists>d. evaluateRisk same_sha sample_definitions calc_128 sample_risk_policy sample_risk_context = Inr d \<and> reasons_of d = []
     \<and> map as_name (db_auditTrail (base_of d)) = STEP_NAMES \<and> (\<forall>s \<in> set (db_auditTrail (base_of d)). as_outcome s \<noteq> FAIL)"
proof -
  obtain base v where run: "evaluateRisk same_sha sample_definitions calc_128 sample_risk_policy sample_risk_context =
      Inr (ACCEPTED_OPEN (base, approved_of_sizing v))"
    by (rule sample_accepted)
  from decision_follows_reasons[OF run] show ?thesis
    unfolding run Let_def by (auto simp: reasons_of_def)
qed

text \<open>Two openings accepted a millisecond apart, under a digest that gives the later one another value.\<close>

definition later_sha :: string where
  "later_sha = replicate 64 (CHR ''1'')"

theorem decision_identity_binds_witness:
  "\<exists>sha b b' x. evaluateRisk sha sample_definitions calc_128 sample_risk_policy (sample_at 300000) = Inr (ACCEPTED_OPEN (b, x))
     \<and> evaluateRisk sha sample_definitions calc_128 sample_risk_policy (sample_at 300001) = Inr (ACCEPTED_OPEN (b', x))
     \<and> db_riskDecisionId b \<noteq> db_riskDecisionId b'"
proof -
  obtain r v where r: "resolveTierSizing calc_128 sample_sizing_request sample_risk_policy = Inr r" "tz_sizing r = Some v" "tz_reasons r = []"
    and v: "sv_finalNotionalInr v = ''40''"
    by (rule sample_sized)
  let ?later = "JObject (riskDecisionIdentityPayload (sample_at 300001) sample_risk_policy sample_sha sample_hashes
      (outcome_json (ACCEPTED_OPEN (undefined, approved_of_sizing v))))"
  define sha where "sha = (\<lambda>t. if t = raw_text (json_norm ?later) then later_sha else sample_sha)"
  have two: "later_sha \<noteq> sample_sha" by (simp add: later_sha_def sample_sha_def)
  have fresh: "sample_fresh 300000" "sample_fresh 300001" by (simp_all add: sample_fresh_def)
  have out: "outcome_json (ACCEPTED_OPEN (b, x)) = outcome_json (ACCEPTED_OPEN (b', x))" for b b' x
    by (simp add: outcome_json_def)
  have json: "json_supported (candidate_json sample_risk_candidate)" "json_supported (entry_stop_json (Some sample_entry_stop))"
    by code_simp+
  have sup: "json_supported ?later"
    by (simp add: riskDecisionIdentityPayload_def json leverage_json_def override_json_def outcome_json_def approved_open_json_def
        nullable_supported isSafeInteger_def) (simp add: sample_risk_context_def)
  have plain: "plain_digest sha"
    unfolding plain_digest_def
  proof (intro allI impI, elim conjE)
    fix w
    assume w: "json_supported w" and keys: "\<forall>xs. w = JObject xs \<longrightarrow> ''leverageProposal'' \<notin> fst ` set xs"
    have "json_norm w \<noteq> json_norm ?later"
    proof
      assume eq: "json_norm w = json_norm ?later"
      then obtain xs where xs: "w = JObject xs" by (cases w) simp_all
      have "(''leverageProposal'', json_norm (leverage_json None)) \<in> set (map (map_prod id json_norm) xs)"
        unfolding norm_object_members[OF eq[unfolded xs]] by (simp add: riskDecisionIdentityPayload_def)
      then show False using keys xs by force
    qed
    then have "raw_text (json_norm w) \<noteq> raw_text (json_norm ?later)"
      using canonicalJson_inject w sup canonicalJson_eq_Inr by metis
    then show "sha (raw_text (json_norm w)) = sample_sha" by (simp add: sha_def)
  qed
  note built = sample_definitions_rebuild_by[OF plain]
  obtain b where b: "evaluateRisk sha sample_definitions calc_128 sample_risk_policy (sample_at 300000) = Inr (ACCEPTED_OPEN (b, approved_of_sizing v))"
      "db_inputContentHashes b = sample_hashes" "db_sourcePositionSizingDecisionId b = sample_sha"
    by (rule sample_accepted_at[OF plain fresh(1) built r v])
  obtain b' where b': "evaluateRisk sha sample_definitions calc_128 sample_risk_policy (sample_at 300001) = Inr (ACCEPTED_OPEN (b', approved_of_sizing v))"
      "db_inputContentHashes b' = sample_hashes" "db_sourcePositionSizingDecisionId b' = sample_sha"
    by (rule sample_accepted_at[OF plain fresh(2) built r v])
  have "decision_payload sample_risk_policy (sample_at 300001) (ACCEPTED_OPEN (b', approved_of_sizing v)) = ?later"
    unfolding decision_payload_def base_of_open b'(2,3) out[of b' _ undefined] ..
  then have later: "decision_text sample_risk_policy (sample_at 300001) (ACCEPTED_OPEN (b', approved_of_sizing v)) = raw_text (json_norm ?later)"
    by (simp only: decision_text_def)
  note norm = fresh[THEN sample_normalized_at]
  have apart: "sha (decision_text sample_risk_policy (sample_at 300000) (ACCEPTED_OPEN (b, approved_of_sizing v))) =
        sha (decision_text sample_risk_policy (sample_at 300001) (ACCEPTED_OPEN (b', approved_of_sizing v))) \<Longrightarrow>
      decision_text sample_risk_policy (sample_at 300000) (ACCEPTED_OPEN (b, approved_of_sizing v)) =
        decision_text sample_risk_policy (sample_at 300001) (ACCEPTED_OPEN (b', approved_of_sizing v))"
    using two by (auto simp: sha_def later split: if_splits)
  from decision_identity_binds[OF b(1) norm(1) b'(1) norm(2) apart] have "db_riskDecisionId b \<noteq> db_riskDecisionId b'"
    by simp
  with b(1) b'(1) show ?thesis by blast
qed

text \<open>The same input with an amount written differently.\<close>

definition sample_rewritten :: risk_context where
  "sample_rewritten = sample_risk_context\<lparr>rc_accountSnapshot := Some (sample_account\<lparr>ac_availableMarginInr := ''0500.00''\<rparr>)\<rparr>"

theorem input_normal_form_witness:
  "\<exists>n. normalizeRiskEvaluationContext sample_risk_context = Inr n \<and> normalizeRiskEvaluationContext sample_rewritten = Inr n
     \<and> sample_rewritten \<noteq> sample_risk_context \<and> same_input sample_risk_context sample_rewritten"
proof -
  have f: "ac_availableMarginInr sample_account = ''500''" by (simp add: sample_account_def)
  have n: "normalizeRiskEvaluationContext sample_risk_context = Inr sample_risk_context"
    by (rule input.fixpoint[OF sample_context_ok])
  have "accountSnapshotV (sample_account\<lparr>ac_availableMarginInr := ''0500.00''\<rparr>) = Inr sample_account"
    "accountSnapshotV sample_account = Inr sample_account"
    by code_simp+
  then have r: "normalizeRiskEvaluationContext sample_rewritten = Inr sample_risk_context"
    using n by (simp add: normalizeRiskEvaluationContext_def sample_rewritten_def nullableR_def rbind_eq_Inr)
  have "sample_rewritten \<noteq> sample_risk_context"
  proof
    assume "sample_rewritten = sample_risk_context"
    then have "rc_accountSnapshot sample_rewritten = Some sample_account" by simp
    then have "ac_availableMarginInr (sample_account\<lparr>ac_availableMarginInr := ''0500.00''\<rparr>) = ac_availableMarginInr sample_account"
      by (simp add: sample_rewritten_def)
    then show False by (simp add: f)
  qed
  with input_normal_form[OF n r] n r show ?thesis by blast
qed

end
