(* ===== verification/Admission.thy ===== *)
theory Admission
  imports Live_Policy Risk_Sample "HOL-Library.AList"
begin

section \<open>The admission coordinator\<close>

text \<open>
  \<^verbatim>\<open>src/dispatch/admission.ts\<close> and the records of \<^verbatim>\<open>src/dispatch/types.ts\<close>. The coordinator owns the
  capacity an account has been granted and not yet released. Its operations run one at a time per
  account (\<^verbatim>\<open>src/dispatch/serial-queue.ts\<close>), so each is one function from the state to a result; an
  error leaves the state as it was. A JavaScript map whose iteration order matters is an association
  list, where \<open>AList.update\<close> keeps the place of a key as \<^verbatim>\<open>Map.set\<close> does. The risk engine is the
  parameter \<open>evaluate\<close>.
\<close>

subsection \<open>Records\<close>

datatype admission_status = ADMITTED | RELEASED

record admission_record =
  ad_admissionId :: string
  ad_generation :: int
  ad_accountId :: string
  ad_riskDecisionId :: string
  ad_sourceStrategyDecisionId :: string
  ad_strategyInstanceId :: string
  ad_strategyId :: string
  ad_strategyVersion :: string
  ad_parameterHash :: string
  ad_pair :: string
  ad_decisionSequence :: int
  ad_direction :: position_side
  ad_approvedNotionalInr :: string
  ad_approvedMarginInr :: string
  ad_status :: admission_status

text \<open>An accepted opening decision is its base and what it approves.\<close>

type_synonym accepted_open_decision = "decision_base \<times> approved_open"

definition ao_riskDecisionId :: "accepted_open_decision \<Rightarrow> string" where
  "ao_riskDecisionId o' = db_riskDecisionId (fst o')"

definition ao_approvedNotionalInr :: "accepted_open_decision \<Rightarrow> string" where
  "ao_approvedNotionalInr o' = ap_approvedNotionalInr (snd o')"

definition ao_estimatedInitialMarginInr :: "accepted_open_decision \<Rightarrow> string" where
  "ao_estimatedInitialMarginInr o' = ap_estimatedInitialMarginInr (snd o')"

abbreviation rc_strategyDecision :: "risk_context \<Rightarrow> strategy_decision" where
  "rc_strategyDecision ctx \<equiv> cd_strategyDecision (rc_candidate ctx)"

definition reconciledAccount :: "position_ownership \<Rightarrow> string option" where
  "reconciledAccount ownership =
     (case ownership of RECONCILED_FLAT a _ \<Rightarrow> Some a | RECONCILED_OPEN a _ _ _ \<Rightarrow> Some a | UNRECONCILED \<Rightarrow> None)"

datatype admission_error =
    AccountFaulted
  | StateNotEmpty
  | RecordAccountMismatch
  | RecordNotAdmitted
  | DuplicateDecision
  | MalformedSequenceWatermark
  | DuplicateSequenceWatermark
  | MalformedGenerationWatermark
  | RestoredDisagrees
  | NoDirection
  | LiveAccountMismatch
  | LiveInstrumentMismatch
  | LiveLineageMismatch
  | RiskThrows risk_error
  | DigestThrows json_error
  | EvaluationThrows

record admission_request =
  rq_accountId :: string
  rq_context :: risk_context

datatype admission_outcome =
    OUT_ADMITTED accepted_open_decision admission_record
  | ACCEPTED_NO_CAPACITY_OWNERSHIP risk_decision
  | STALE_DECISION_SEQUENCE string int int
  | OUT_REJECTED risk_decision

datatype release_outcome =
    OUT_RELEASED admission_record
  | ALREADY_RELEASED admission_record
  | UNKNOWN_ADMISSION

datatype consumption_outcome = CONSUMED | ALREADY_CONSUMED_SAME_INTENT | UNAVAILABLE

subsection \<open>The state\<close>

text \<open>A restored entry has no decision until it is evaluated again; the intent that consumed the
  capacity is a field of the entry.\<close>

record entry =
  et_record :: admission_record
  et_decision :: "accepted_open_decision option"
  et_consumedByIntentId :: "string option"

record coordinator =
  co_byAccountAndDecision :: "string \<rightharpoonup> (string \<times> entry) list"
  co_byAdmissionId :: "(string \<times> entry) list"
  co_latestAdmittedSequence :: "string \<rightharpoonup> (string \<rightharpoonup> int)"
  co_latestGeneration :: "string \<rightharpoonup> (string \<rightharpoonup> int)"
  co_faultedAccounts :: "string set"

definition new_coordinator :: coordinator where
  "new_coordinator = \<lparr>co_byAccountAndDecision = Map.empty, co_byAdmissionId = [],
     co_latestAdmittedSequence = Map.empty, co_latestGeneration = Map.empty, co_faultedAccounts = {}\<rparr>"

definition entries_of :: "coordinator \<Rightarrow> string \<Rightarrow> (string \<times> entry) list" where
  "entries_of co accountId = (case co_byAccountAndDecision co accountId of None \<Rightarrow> [] | Some m \<Rightarrow> m)"

text \<open>\<^verbatim>\<open>map.get(a)?.get(b) ?? 0\<close>\<close>

definition watermark :: "(string \<rightharpoonup> (string \<rightharpoonup> int)) \<Rightarrow> string \<Rightarrow> string \<Rightarrow> int" where
  "watermark m a b =
     (case m a of None \<Rightarrow> 0 | Some n \<Rightarrow> (case n b of None \<Rightarrow> 0 | Some k \<Rightarrow> k))"

definition raise_watermark :: "(string \<rightharpoonup> (string \<rightharpoonup> int)) \<Rightarrow> string \<Rightarrow> string \<Rightarrow> int \<Rightarrow> (string \<rightharpoonup> (string \<rightharpoonup> int))" where
  "raise_watermark m a b k =
     m(a \<mapsto> (case m a of None \<Rightarrow> Map.empty | Some n \<Rightarrow> n)(b \<mapsto> k))"

text \<open>Replacing an entry in both maps; the account's map is only written when it exists.\<close>

definition replace_entry :: "string \<Rightarrow> string \<Rightarrow> string \<Rightarrow> entry \<Rightarrow> coordinator \<Rightarrow> coordinator" where
  "replace_entry accountId decisionId admissionId e co =
     co\<lparr>co_byAdmissionId := AList.update admissionId e (co_byAdmissionId co),
        co_byAccountAndDecision :=
          (case co_byAccountAndDecision co accountId of
             None \<Rightarrow> co_byAccountAndDecision co
           | Some m \<Rightarrow> (co_byAccountAndDecision co)(accountId \<mapsto> AList.update decisionId e m))\<rparr>"

subsection \<open>The pending overlay\<close>

record pending_totals =
  tt_global :: rat
  tt_long :: rat
  tt_short :: rat
  tt_count :: int
  tt_pairs :: "(string \<times> rat) list"
  tt_strategies :: "(string \<times> rat) list"
  tt_instances :: "(string \<times> (rat \<times> int \<times> string \<times> string \<times> string)) list"

text \<open>The totals the loop starts from: what is already known to be pending, or nothing.\<close>

definition base_totals :: "decimal_js \<Rightarrow> pending_exposure \<Rightarrow> pending_totals" where
  "base_totals D base =
     (case base of
        UNKNOWN \<Rightarrow> \<lparr>tt_global = riskDecimal D ''0'', tt_long = riskDecimal D ''0'', tt_short = riskDecimal D ''0'',
                    tt_count = 0, tt_pairs = [], tt_strategies = [], tt_instances = []\<rparr>
      | KNOWN k \<Rightarrow>
          \<lparr>tt_global = riskDecimal D (kp_globalPendingNotionalInr k),
           tt_long = riskDecimal D (kp_longInr k), tt_short = riskDecimal D (kp_shortInr k),
           tt_count = kp_pendingReservationCount k,
           tt_pairs = fold (\<lambda>(p, v). AList.update p (riskDecimal D v)) (kp_pairPendingNotionalInr k) [],
           tt_strategies = fold (\<lambda>(p, v). AList.update p (riskDecimal D v)) (kp_strategyPendingNotionalInr k) [],
           tt_instances = fold (\<lambda>r. AList.update (pr_strategyInstanceId r)
               (riskDecimal D (pr_pendingNotionalInr r), pr_pendingReservationCount r, pr_strategyId r,
                pr_strategyVersion r, pr_parameterHash r)) (kp_instancePendingReservations k) []\<rparr>)"

definition add_admitted :: "decimal_js \<Rightarrow> admission_record \<Rightarrow> pending_totals \<Rightarrow> pending_totals" where
  "add_admitted D r t =
     (let notional = ad_approvedNotionalInr r;
          (prior, count) = (case map_of (tt_instances t) (ad_strategyInstanceId r) of
                              None \<Rightarrow> (riskDecimal D ''0'', 0) | Some (n, c, _) \<Rightarrow> (n, c))
      in t\<lparr>tt_global := risk_plus D (tt_global t) notional,
           tt_pairs := AList.update (ad_pair r)
             (risk_plus D (case map_of (tt_pairs t) (ad_pair r) of None \<Rightarrow> riskDecimal D ''0'' | Some v \<Rightarrow> v) notional) (tt_pairs t),
           tt_strategies := AList.update (ad_strategyId r)
             (risk_plus D (case map_of (tt_strategies t) (ad_strategyId r) of None \<Rightarrow> riskDecimal D ''0'' | Some v \<Rightarrow> v) notional)
             (tt_strategies t),
           tt_instances := AList.update (ad_strategyInstanceId r)
             (risk_plus D prior notional, count + 1, ad_strategyId r, ad_strategyVersion r, ad_parameterHash r)
             (tt_instances t),
           tt_long := (if ad_direction r = LONG then risk_plus D (tt_long t) notional else tt_long t),
           tt_short := (if ad_direction r = LONG then tt_short t else risk_plus D (tt_short t) notional),
           tt_count := tt_count t + 1\<rparr>)"

definition riskR :: "(risk_error, 'a) res \<Rightarrow> (admission_error, 'a) res" where
  "riskR m = (case m of Inl e \<Rightarrow> Inl (RiskThrows e) | Inr x \<Rightarrow> Inr x)"

definition canonical_total :: "decimal_js \<Rightarrow> rat \<Rightarrow> (admission_error, string) res" where
  "canonical_total D v = riskR (canonicalDecimalString (dfixed D v))"

definition canonical_members :: "decimal_js \<Rightarrow> (string \<times> rat) list \<Rightarrow> (admission_error, (string \<times> string) list) res" where
  "canonical_members D = mapR (\<lambda>(k, v). rbind (canonical_total D v) (\<lambda>c. Inr (k, c)))"

definition buildPending :: "decimal_js \<Rightarrow> pending_exposure \<Rightarrow> admission_record list \<Rightarrow> (admission_error, pending_exposure) res" where
  "buildPending D base admitted =
     (let t = fold (add_admitted D) admitted (base_totals D base)
      in rbind (canonical_total D (tt_global t)) (\<lambda>global.
         rbind (canonical_members D (tt_pairs t)) (\<lambda>pairs.
         rbind (canonical_members D (tt_strategies t)) (\<lambda>strategies.
         rbind (mapR (\<lambda>(i, n, c, s, v, h). rbind (canonical_total D n) (\<lambda>notional.
                  Inr \<lparr>pr_strategyInstanceId = i, pr_strategyId = s, pr_strategyVersion = v,
                       pr_parameterHash = h, pr_pendingNotionalInr = notional, pr_pendingReservationCount = c\<rparr>))
                 (tt_instances t)) (\<lambda>instances.
         rbind (canonical_total D (tt_long t)) (\<lambda>long.
         rbind (canonical_total D (tt_short t)) (\<lambda>short.
           Inr (KNOWN \<lparr>kp_globalPendingNotionalInr = global, kp_pairPendingNotionalInr = pairs,
                       kp_strategyPendingNotionalInr = strategies, kp_instancePendingReservations = instances,
                       kp_pendingReservationCount = tt_count t, kp_longInr = long, kp_shortInr = short\<rparr>))))))))"

definition digestR :: "(json_error, 'a) res \<Rightarrow> (admission_error, 'a) res" where
  "digestR m = (case m of Inl e \<Rightarrow> Inl (DigestThrows e) | Inr x \<Rightarrow> Inr x)"

definition admitted_records :: "coordinator \<Rightarrow> string \<Rightarrow> string option \<Rightarrow> admission_record list" where
  "admitted_records co accountId excludeDecisionId =
     filter (\<lambda>r. ad_status r = ADMITTED)
       (map (\<lambda>(_, e). et_record e) (filter (\<lambda>(d, _). Some d \<noteq> excludeDecisionId) (entries_of co accountId)))"

definition overlayPending ::
    "(string \<Rightarrow> string) \<Rightarrow> decimal_js \<Rightarrow> coordinator \<Rightarrow> string \<Rightarrow> risk_context \<Rightarrow> string option
     \<Rightarrow> (admission_error, risk_context) res" where
  "overlayPending sha D co accountId ctx excludeDecisionId =
     (case rc_exposureSnapshot ctx of
        None \<Rightarrow> Inr ctx
      | Some x \<Rightarrow>
          rbind (buildPending D (ex_pending x) (admitted_records co accountId excludeDecisionId)) (\<lambda>pending.
            let withPending = x\<lparr>ex_pending := pending\<rparr>
            in rbind (riskR (evidenceContentSha256 sha (exposure_members withPending) (ex_provenance withPending))) (\<lambda>digest.
                 Inr (ctx\<lparr>rc_exposureSnapshot := Some (withPending\<lparr>ex_provenance := (ex_provenance withPending)\<lparr>pv_contentSha256 := digest\<rparr>\<rparr>)\<rparr>))))"

subsection \<open>Admitting, releasing and consuming\<close>

definition admission_identity :: "(string \<Rightarrow> string) \<Rightarrow> admission_record \<Rightarrow> (admission_error, string) res" where
  "admission_identity sha r = digestR (sha256CanonicalJson sha (JObject
     [(''accountId'', JString (ad_accountId r)), (''riskDecisionId'', JString (ad_riskDecisionId r)),
      (''strategyInstanceId'', JString (ad_strategyInstanceId r)), (''pair'', JString (ad_pair r)),
      (''approvedNotionalInr'', JString (ad_approvedNotionalInr r)),
      (''approvedMarginInr'', JString (ad_approvedMarginInr r)), (''generation'', JNumber (ad_generation r))]))"

text \<open>The grant for a fresh acceptance, with the generation after every one ever used for the decision.\<close>

definition next_generation :: "coordinator \<Rightarrow> string \<Rightarrow> string \<Rightarrow> int" where
  "next_generation co accountId decisionId =
     max (case map_of (entries_of co accountId) decisionId of None \<Rightarrow> 0 | Some e \<Rightarrow> ad_generation (et_record e))
         (watermark (co_latestGeneration co) accountId decisionId) + 1"

definition admission_draft ::
    "coordinator \<Rightarrow> string \<Rightarrow> strategy_decision \<Rightarrow> position_side \<Rightarrow> accepted_open_decision \<Rightarrow> admission_record" where
  "admission_draft co accountId d direction o' =
     \<lparr>ad_admissionId = [], ad_generation = next_generation co accountId (sd_decisionId d),
      ad_accountId = accountId, ad_riskDecisionId = ao_riskDecisionId o',
      ad_sourceStrategyDecisionId = sd_decisionId d, ad_strategyInstanceId = sd_strategyInstanceId d,
      ad_strategyId = sd_strategyId d, ad_strategyVersion = sd_strategyVersion d,
      ad_parameterHash = sd_parameterHash d, ad_pair = sd_pair d, ad_decisionSequence = sd_decisionSequence d,
      ad_direction = direction, ad_approvedNotionalInr = ao_approvedNotionalInr o',
      ad_approvedMarginInr = ao_estimatedInitialMarginInr o', ad_status = ADMITTED\<rparr>"

definition record_admission :: "admission_record \<Rightarrow> accepted_open_decision \<Rightarrow> coordinator \<Rightarrow> coordinator" where
  "record_admission r o' co =
     (let e = \<lparr>et_record = r, et_decision = Some o', et_consumedByIntentId = None\<rparr>; a = ad_accountId r
      in co\<lparr>co_byAccountAndDecision := (co_byAccountAndDecision co)
              (a \<mapsto> AList.update (ad_sourceStrategyDecisionId r) e (entries_of co a)),
            co_byAdmissionId := AList.update (ad_admissionId r) e (co_byAdmissionId co),
            co_latestAdmittedSequence :=
              raise_watermark (co_latestAdmittedSequence co) a (ad_strategyInstanceId r) (ad_decisionSequence r),
            co_latestGeneration :=
              raise_watermark (co_latestGeneration co) a (ad_sourceStrategyDecisionId r) (ad_generation r)\<rparr>)"

definition admitFresh ::
    "(string \<Rightarrow> string) \<Rightarrow> decimal_js \<Rightarrow> (risk_context \<Rightarrow> (admission_error, risk_decision) res)
     \<Rightarrow> string \<Rightarrow> risk_context \<Rightarrow> coordinator \<Rightarrow> (admission_error, admission_outcome \<times> coordinator) res" where
  "admitFresh sha D evaluate accountId ctx co =
     (let d = rc_strategyDecision ctx;
          latest = watermark (co_latestAdmittedSequence co) accountId (sd_strategyInstanceId d)
      in if sd_decisionSequence d < latest
         then Inr (STALE_DECISION_SEQUENCE (sd_strategyInstanceId d) (sd_decisionSequence d) latest, co)
         else
           rbind (overlayPending sha D co accountId ctx None) (\<lambda>overlaid.
           rbind (evaluate overlaid) (\<lambda>decision.
             case decision of
               RISK_REJECTED _ _ _ _ \<Rightarrow> Inr (OUT_REJECTED decision, co)
             | ACCEPTED_CLOSE _ \<Rightarrow> Inr (ACCEPTED_NO_CAPACITY_OWNERSHIP decision, co)
             | ACCEPTED_OPEN o' \<Rightarrow>
                 (case sd_targetExposure d of
                    Some TARGET_LONG \<Rightarrow>
                      (let r = admission_draft co accountId d LONG o' in
                       rbind (admission_identity sha r) (\<lambda>k. let r' = r\<lparr>ad_admissionId := k\<rparr>
                         in Inr (OUT_ADMITTED o' r', record_admission r' o' co)))
                  | Some TARGET_SHORT \<Rightarrow>
                      (let r = admission_draft co accountId d SHORT o' in
                       rbind (admission_identity sha r) (\<lambda>k. let r' = r\<lparr>ad_admissionId := k\<rparr>
                         in Inr (OUT_ADMITTED o' r', record_admission r' o' co)))
                  | _ \<Rightarrow> Inl NoDirection))))"

definition admitLocked ::
    "(string \<Rightarrow> string) \<Rightarrow> decimal_js \<Rightarrow> (risk_context \<Rightarrow> (admission_error, risk_decision) res)
     \<Rightarrow> admission_request \<Rightarrow> coordinator \<Rightarrow> (admission_error, admission_outcome \<times> coordinator) res" where
  "admitLocked sha D evaluate request co =
     (let accountId = rq_accountId request; ctx = rq_context request; d = rc_strategyDecision ctx
      in if accountId \<in> co_faultedAccounts co then Inl AccountFaulted
         else case map_of (entries_of co accountId) (sd_decisionId d) of
             Some existing \<Rightarrow>
               if ad_status (et_record existing) = ADMITTED then
                 (case et_decision existing of
                    Some o' \<Rightarrow> Inr (OUT_ADMITTED o' (et_record existing), co)
                  | None \<Rightarrow>
                      rbind (overlayPending sha D co accountId ctx (Some (sd_decisionId d))) (\<lambda>overlaid.
                      rbind (evaluate overlaid) (\<lambda>reconfirmed.
                        case reconfirmed of
                          ACCEPTED_OPEN o' \<Rightarrow>
                            if ao_riskDecisionId o' \<noteq> ad_riskDecisionId (et_record existing) then Inl RestoredDisagrees
                            else Inr (OUT_ADMITTED o' (et_record existing),
                                   replace_entry accountId (sd_decisionId d) (ad_admissionId (et_record existing))
                                     (existing\<lparr>et_decision := Some o'\<rparr>) co)
                        | _ \<Rightarrow> Inl RestoredDisagrees)))
               else admitFresh sha D evaluate accountId ctx co
           | None \<Rightarrow> admitFresh sha D evaluate accountId ctx co)"

definition releaseLocked :: "string \<Rightarrow> string \<Rightarrow> coordinator \<Rightarrow> (admission_error, release_outcome \<times> coordinator) res" where
  "releaseLocked accountId admissionId co =
     (if accountId \<in> co_faultedAccounts co then Inl AccountFaulted
      else case map_of (co_byAdmissionId co) admissionId of
          None \<Rightarrow> Inr (UNKNOWN_ADMISSION, co)
        | Some e \<Rightarrow>
            if ad_accountId (et_record e) \<noteq> accountId then Inr (UNKNOWN_ADMISSION, co)
            else if ad_status (et_record e) = RELEASED then Inr (ALREADY_RELEASED (et_record e), co)
            else
              let e' = e\<lparr>et_record := (et_record e)\<lparr>ad_status := RELEASED\<rparr>\<rparr>
              in Inr (OUT_RELEASED (et_record e'),
                   replace_entry accountId (ad_sourceStrategyDecisionId (et_record e)) admissionId e' co))"

definition consumeForLiveLocked :: "string \<Rightarrow> string \<Rightarrow> string \<Rightarrow> coordinator \<Rightarrow> consumption_outcome \<times> coordinator" where
  "consumeForLiveLocked accountId admissionId intentId co =
     (if accountId \<in> co_faultedAccounts co then (UNAVAILABLE, co)
      else case map_of (co_byAdmissionId co) admissionId of
          None \<Rightarrow> (UNAVAILABLE, co)
        | Some e \<Rightarrow>
            if ad_accountId (et_record e) \<noteq> accountId \<or> ad_status (et_record e) \<noteq> ADMITTED then (UNAVAILABLE, co)
            else if et_consumedByIntentId e = Some intentId then (ALREADY_CONSUMED_SAME_INTENT, co)
            else if et_consumedByIntentId e \<noteq> None then (UNAVAILABLE, co)
            else (CONSUMED, replace_entry accountId (ad_sourceStrategyDecisionId (et_record e)) admissionId
                    (e\<lparr>et_consumedByIntentId := Some intentId\<rparr>) co))"

definition markAccountFaulted :: "string \<Rightarrow> coordinator \<Rightarrow> coordinator" where
  "markAccountFaulted accountId co = co\<lparr>co_faultedAccounts := insert accountId (co_faultedAccounts co)\<rparr>"

definition liveAdmissionConsumptionCardinality :: "coordinator \<Rightarrow> nat" where
  "liveAdmissionConsumptionCardinality co =
     length (filter (\<lambda>(_, e). et_consumedByIntentId e \<noteq> None) (co_byAdmissionId co))"

subsection \<open>Restoring durable state\<close>

record sequence_watermark =
  sq_strategyInstanceId :: string
  sq_latestDecisionSequence :: int

record generation_watermark =
  gw_sourceStrategyDecisionId :: string
  gw_highestGeneration :: int

record restore_batch =
  rb_byDecision :: "(string \<times> entry) list"
  rb_byAdmissionIdEntries :: "(string \<times> entry) list"
  rb_byGeneration :: "string \<rightharpoonup> int"

definition restored_entry :: "admission_record \<Rightarrow> entry" where
  "restored_entry r = \<lparr>et_record = r, et_decision = None, et_consumedByIntentId = None\<rparr>"

definition restoreRecord :: "string \<Rightarrow> restore_batch \<Rightarrow> admission_record \<Rightarrow> (admission_error, restore_batch) res" where
  "restoreRecord accountId b r =
     (if ad_accountId r \<noteq> accountId then Inl RecordAccountMismatch
      else if ad_status r \<noteq> ADMITTED then Inl RecordNotAdmitted
      else if map_of (rb_byDecision b) (ad_sourceStrategyDecisionId r) \<noteq> None then Inl DuplicateDecision
      else
        let e = restored_entry r
        in Inr (b\<lparr>rb_byDecision := AList.update (ad_sourceStrategyDecisionId r) e (rb_byDecision b),
                  rb_byAdmissionIdEntries := rb_byAdmissionIdEntries b @ [(ad_admissionId r, e)],
                  rb_byGeneration := (rb_byGeneration b)(ad_sourceStrategyDecisionId r \<mapsto> ad_generation r)\<rparr>))"

definition restoreSequence :: "(string \<rightharpoonup> int) \<Rightarrow> sequence_watermark \<Rightarrow> (admission_error, string \<rightharpoonup> int) res" where
  "restoreSequence m w =
     (if \<not> isSafeInteger (sq_latestDecisionSequence w) \<or> sq_latestDecisionSequence w < 0 then Inl MalformedSequenceWatermark
      else if m (sq_strategyInstanceId w) \<noteq> None then Inl DuplicateSequenceWatermark
      else Inr (m(sq_strategyInstanceId w \<mapsto> sq_latestDecisionSequence w)))"

definition restoreGeneration :: "(string \<rightharpoonup> int) \<Rightarrow> generation_watermark \<Rightarrow> (admission_error, string \<rightharpoonup> int) res" where
  "restoreGeneration m w =
     (if \<not> isSafeInteger (gw_highestGeneration w) \<or> gw_highestGeneration w < 1 then Inl MalformedGenerationWatermark
      else if gw_highestGeneration w > (case m (gw_sourceStrategyDecisionId w) of None \<Rightarrow> 0 | Some g \<Rightarrow> g)
      then Inr (m(gw_sourceStrategyDecisionId w \<mapsto> gw_highestGeneration w))
      else Inr m)"

definition validateRestoreBatch ::
    "string \<Rightarrow> admission_record list \<Rightarrow> sequence_watermark list \<Rightarrow> generation_watermark list
     \<Rightarrow> (admission_error, restore_batch \<times> (string \<rightharpoonup> int)) res" where
  "validateRestoreBatch accountId admittedRecords sequenceWatermarks generationWatermarks =
     rbind (foldl_res (restoreRecord accountId)
              \<lparr>rb_byDecision = [], rb_byAdmissionIdEntries = [], rb_byGeneration = Map.empty\<rparr> admittedRecords) (\<lambda>b.
     rbind (foldl_res restoreSequence Map.empty sequenceWatermarks) (\<lambda>bySequence.
     rbind (foldl_res restoreGeneration (rb_byGeneration b) generationWatermarks) (\<lambda>byGeneration.
       Inr (b\<lparr>rb_byGeneration := byGeneration\<rparr>, bySequence))))"

definition commit_batch :: "string \<Rightarrow> restore_batch \<Rightarrow> (string \<rightharpoonup> int) \<Rightarrow> coordinator \<Rightarrow> coordinator" where
  "commit_batch accountId b bySequence co =
     co\<lparr>co_byAccountAndDecision := (co_byAccountAndDecision co)(accountId \<mapsto> rb_byDecision b),
        co_byAdmissionId := fold (\<lambda>(k, e). AList.update k e) (rb_byAdmissionIdEntries b) (co_byAdmissionId co),
        co_latestAdmittedSequence := (co_latestAdmittedSequence co)(accountId \<mapsto> bySequence),
        co_latestGeneration := (co_latestGeneration co)(accountId \<mapsto> rb_byGeneration b)\<rparr>"

definition restoreLocked ::
    "string \<Rightarrow> admission_record list \<Rightarrow> sequence_watermark list \<Rightarrow> generation_watermark list \<Rightarrow> coordinator
     \<Rightarrow> (admission_error, coordinator) res" where
  "restoreLocked accountId admittedRecords sequenceWatermarks generationWatermarks co =
     (if accountId \<in> co_faultedAccounts co then Inl AccountFaulted
      else if co_byAccountAndDecision co accountId \<noteq> None \<or> co_latestAdmittedSequence co accountId \<noteq> None
      then Inl StateNotEmpty
      else rbind (validateRestoreBatch accountId admittedRecords sequenceWatermarks generationWatermarks)
             (\<lambda>(b, bySequence). Inr (commit_batch accountId b bySequence co)))"

definition restoreAuthoritativeLocked ::
    "string \<Rightarrow> admission_record list \<Rightarrow> sequence_watermark list \<Rightarrow> generation_watermark list \<Rightarrow> coordinator
     \<Rightarrow> (admission_error, coordinator) res" where
  "restoreAuthoritativeLocked accountId admittedRecords sequenceWatermarks generationWatermarks co =
     rbind (validateRestoreBatch accountId admittedRecords sequenceWatermarks generationWatermarks) (\<lambda>(b, bySequence).
       let cleared = co\<lparr>co_byAdmissionId :=
             fold (\<lambda>(_, e). AList.delete (ad_admissionId (et_record e))) (entries_of co accountId) (co_byAdmissionId co)\<rparr>
       in Inr ((commit_batch accountId b bySequence cleared)
                 \<lparr>co_faultedAccounts := co_faultedAccounts co - {accountId}\<rparr>))"

subsection \<open>The live entry point\<close>

definition admitForLiveExecution ::
    "(string \<Rightarrow> string) \<Rightarrow> decimal_js \<Rightarrow> (risk_context \<Rightarrow> (admission_error, risk_decision) res)
     \<Rightarrow> admission_request \<Rightarrow> coordinator \<Rightarrow> (admission_error, admission_outcome) res \<times> coordinator" where
  "admitForLiveExecution sha D evaluate request co =
     (let accountId = rq_accountId request; ctx = rq_context request; ps = rc_pairSnapshot ctx
      in if map_option ac_accountId (rc_accountSnapshot ctx) \<noteq> Some accountId then (Inl LiveAccountMismatch, co)
         else if map_option ex_accountId (rc_exposureSnapshot ctx) \<noteq> Some accountId then (Inl LiveAccountMismatch, co)
         else if reconciledAccount (ps_ownership ps) \<noteq> Some accountId then (Inl LiveAccountMismatch, co)
         else if cd_pair (rc_candidate ctx) \<noteq> ps_pair ps \<or> cd_instrumentSpecSnapshotId (rc_candidate ctx) \<noteq> ps_instrumentSpecSnapshotId ps
         then (Inl LiveInstrumentMismatch, co)
         else case admitLocked sha D evaluate request co of
             Inl e \<Rightarrow> (Inl e, co)
           | Inr (OUT_ADMITTED o' r, co') \<Rightarrow>
               if ad_accountId r \<noteq> accountId \<or> ad_pair r \<noteq> ps_pair ps \<or> ad_riskDecisionId r \<noteq> ao_riskDecisionId o'
               then (Inl LiveLineageMismatch, co') else (Inr (OUT_ADMITTED o' r), co')
           | Inr (out, co') \<Rightarrow> (Inr out, co'))"

subsection \<open>The two maps agree\<close>

text \<open>What a grant is known by. The risk engine is relied on to name the strategy decision in the
  identity of its own decision: \<open>source_of\<close> reads it back.\<close>

definition record_genuine :: "(string \<Rightarrow> string) \<Rightarrow> (string \<Rightarrow> string) \<Rightarrow> admission_record \<Rightarrow> bool" where
  "record_genuine sha source_of r \<longleftrightarrow>
     admission_identity sha r = Inr (ad_admissionId r)
     \<and> source_of (ad_riskDecisionId r) = ad_sourceStrategyDecisionId r"

definition engine_binds :: "(string \<Rightarrow> string) \<Rightarrow> (risk_context \<Rightarrow> (admission_error, risk_decision) res) \<Rightarrow> bool" where
  "engine_binds source_of evaluate \<longleftrightarrow>
     (\<forall>ctx o'. evaluate ctx = Inr (ACCEPTED_OPEN o') \<longrightarrow>
        source_of (ao_riskDecisionId o') = sd_decisionId (rc_strategyDecision ctx))"

definition coordinator_wf :: "(string \<Rightarrow> string) \<Rightarrow> (string \<Rightarrow> string) \<Rightarrow> coordinator \<Rightarrow> bool" where
  "coordinator_wf sha source_of co \<longleftrightarrow>
     (\<forall>a. distinct (map fst (entries_of co a)))
     \<and> (\<forall>a d e. map_of (entries_of co a) d = Some e \<longrightarrow>
          ad_sourceStrategyDecisionId (et_record e) = d \<and> ad_accountId (et_record e) = a
          \<and> map_of (co_byAdmissionId co) (ad_admissionId (et_record e)) = Some e)
     \<and> (\<forall>k e. map_of (co_byAdmissionId co) k = Some e \<longrightarrow>
          ad_admissionId (et_record e) = k \<and> record_genuine sha source_of (et_record e)
          \<and> (ad_status (et_record e) = ADMITTED \<longrightarrow>
              map_of (entries_of co (ad_accountId (et_record e))) (ad_sourceStrategyDecisionId (et_record e)) = Some e))"

lemma coordinator_wfD:
  assumes "coordinator_wf sha source_of co"
  shows "distinct (map fst (entries_of co a))"
    and "map_of (entries_of co a) d = Some e \<Longrightarrow>
      ad_sourceStrategyDecisionId (et_record e) = d \<and> ad_accountId (et_record e) = a
      \<and> map_of (co_byAdmissionId co) (ad_admissionId (et_record e)) = Some e"
    and "map_of (co_byAdmissionId co) k = Some e \<Longrightarrow>
      ad_admissionId (et_record e) = k \<and> record_genuine sha source_of (et_record e)"
    and "map_of (co_byAdmissionId co) k = Some e \<Longrightarrow> ad_status (et_record e) = ADMITTED \<Longrightarrow>
      map_of (entries_of co (ad_accountId (et_record e))) (ad_sourceStrategyDecisionId (et_record e)) = Some e"
  using assms unfolding coordinator_wf_def by blast+

lemma identity_ignores [simp]:
  "admission_identity sha (r\<lparr>ad_status := s\<rparr>) = admission_identity sha r"
  "admission_identity sha (r\<lparr>ad_admissionId := k\<rparr>) = admission_identity sha r"
  by (simp_all add: admission_identity_def)

text \<open>The members of the identity preimage of a grant.\<close>

definition identity_fields :: "admission_record \<Rightarrow> (string \<times> json) list" where
  "identity_fields r =
     [(''accountId'', JString (ad_accountId r)), (''riskDecisionId'', JString (ad_riskDecisionId r)),
      (''strategyInstanceId'', JString (ad_strategyInstanceId r)), (''pair'', JString (ad_pair r)),
      (''approvedNotionalInr'', JString (ad_approvedNotionalInr r)),
      (''approvedMarginInr'', JString (ad_approvedMarginInr r)), (''generation'', JNumber (ad_generation r))]"

lemma identity_inject:
  assumes "inj sha" and "admission_identity sha r = Inr k" and "admission_identity sha s = Inr k"
  shows "ad_accountId r = ad_accountId s \<and> ad_riskDecisionId r = ad_riskDecisionId s
    \<and> ad_generation r = ad_generation s"
proof -
  have i: "\<exists>t. canonicalJson (JObject (identity_fields x)) = Inr t \<and> k = sha t"
    if "admission_identity sha x = Inr k" for x
    using that unfolding admission_identity_def identity_fields_def[symmetric]
    by (auto simp: digestR_def sha256CanonicalJson_def rbind_eq_Inr split: sum.splits)
  obtain t u where t: "canonicalJson (JObject (identity_fields r)) = Inr t" "k = sha t"
    and u: "canonicalJson (JObject (identity_fields s)) = Inr u" "k = sha u"
    using i[OF assms(2)] i[OF assms(3)] by blast
  have "t = u" using assms(1) t(2) u(2) by (auto dest: injD)
  moreover have "flat_members (identity_fields x)" for x
    by (simp add: flat_members_def identity_fields_def)
  moreover have "map fst (identity_fields r) = map fst (identity_fields s)"
    by (simp add: identity_fields_def)
  ultimately have "identity_fields r = identity_fields s"
    using flat_object_inject t(1) u(1) by blast
  then show ?thesis by (simp add: identity_fields_def)
qed

lemma genuine_inject:
  assumes "inj sha" and "record_genuine sha source_of r" and "record_genuine sha source_of s"
    and "ad_admissionId r = ad_admissionId s"
  shows "ad_accountId r = ad_accountId s \<and> ad_sourceStrategyDecisionId r = ad_sourceStrategyDecisionId s
    \<and> ad_generation r = ad_generation s"
  using identity_inject[OF assms(1), of r "ad_admissionId r" s] assms(2-4)
  by (simp add: record_genuine_def)

text \<open>The one way an operation changes an entry: in both maps, under its own keys, and never beside an
  admitted grant of the same decision.\<close>

lemma set_entry_wf:
  assumes inj: "inj sha" and wf: "coordinator_wf sha source_of co"
    and gen: "record_genuine sha source_of (et_record e)"
    and alone: "\<And>e1. map_of (entries_of co (ad_accountId (et_record e))) (ad_sourceStrategyDecisionId (et_record e)) = Some e1 \<Longrightarrow>
      ad_status (et_record e1) = ADMITTED \<Longrightarrow> ad_admissionId (et_record e1) = ad_admissionId (et_record e)"
    and dec: "co_byAccountAndDecision co' = (co_byAccountAndDecision co)
      (ad_accountId (et_record e) \<mapsto> AList.update (ad_sourceStrategyDecisionId (et_record e)) e (entries_of co (ad_accountId (et_record e))))"
    and id: "co_byAdmissionId co' = AList.update (ad_admissionId (et_record e)) e (co_byAdmissionId co)"
  shows "coordinator_wf sha source_of co'"
proof -
  let ?a = "ad_accountId (et_record e)" and ?d = "ad_sourceStrategyDecisionId (et_record e)"
    and ?k = "ad_admissionId (et_record e)"
  note W = coordinator_wfD[OF wf]
  have en: "entries_of co' b = (if b = ?a then AList.update ?d e (entries_of co ?a) else entries_of co b)" for b
    by (simp add: entries_of_def dec)
  have look: "map_of (entries_of co' b) c = (if b = ?a \<and> c = ?d then Some e else map_of (entries_of co b) c)" for b c
    by (simp add: en update_conv)
  have byid: "map_of (co_byAdmissionId co') k = (if k = ?k then Some e else map_of (co_byAdmissionId co) k)" for k
    by (simp add: id update_conv)
  show ?thesis
    unfolding coordinator_wf_def
  proof (intro conjI allI impI)
    show "distinct (map fst (entries_of co' b))" for b
      using W(1)[of b] W(1)[of ?a] distinct_update by (auto simp: en)
  next
    fix b c x
    assume x: "map_of (entries_of co' b) c = Some x"
    have other: "ad_admissionId (et_record x) \<noteq> ?k" if "\<not> (b = ?a \<and> c = ?d)"
    proof
      assume k: "ad_admissionId (et_record x) = ?k"
      have o: "map_of (entries_of co b) c = Some x" using x that by (simp add: look)
      then have "record_genuine sha source_of (et_record x)" using W(2) W(3) by blast
      from genuine_inject[OF inj this gen k] W(2)[OF o] that show False by simp
    qed
    show "ad_sourceStrategyDecisionId (et_record x) = c" "ad_accountId (et_record x) = b"
      "map_of (co_byAdmissionId co') (ad_admissionId (et_record x)) = Some x"
      using x W(2)[of b c x] other by (auto simp: look byid split: if_splits)
  next
    fix k x
    assume x: "map_of (co_byAdmissionId co') k = Some x"
    show "ad_admissionId (et_record x) = k" "record_genuine sha source_of (et_record x)"
      using x W(3)[of k x] gen by (auto simp: byid split: if_splits)
    assume adm: "ad_status (et_record x) = ADMITTED"
    show "map_of (entries_of co' (ad_accountId (et_record x))) (ad_sourceStrategyDecisionId (et_record x)) = Some x"
    proof (cases "k = ?k")
      case True
      then show ?thesis using x by (simp add: byid look)
    next
      case False
      then have o: "map_of (co_byAdmissionId co) k = Some x" using x by (simp add: byid)
      note cur = W(4)[OF o adm]
      have "\<not> (ad_accountId (et_record x) = ?a \<and> ad_sourceStrategyDecisionId (et_record x) = ?d)"
        using alone[of x] cur adm W(3)[OF o] False by auto
      then show ?thesis using cur by (auto simp: look)
    qed
  qed
qed

lemma new_coordinator_wf: "coordinator_wf sha source_of new_coordinator"
  by (simp add: coordinator_wf_def new_coordinator_def entries_of_def)

text \<open>Replacing the current entry keeps the maps in agreement.\<close>

lemma replace_current_wf:
  assumes "inj sha" and wf: "coordinator_wf sha source_of co"
    and cur: "map_of (entries_of co (ad_accountId (et_record e))) (ad_sourceStrategyDecisionId (et_record e)) = Some e"
    and same: "ad_accountId (et_record e') = ad_accountId (et_record e)"
      "ad_sourceStrategyDecisionId (et_record e') = ad_sourceStrategyDecisionId (et_record e)"
      "ad_admissionId (et_record e') = ad_admissionId (et_record e)"
      "ad_riskDecisionId (et_record e') = ad_riskDecisionId (et_record e)"
      "admission_identity sha (et_record e') = admission_identity sha (et_record e)"
  shows "coordinator_wf sha source_of
    (replace_entry (ad_accountId (et_record e)) (ad_sourceStrategyDecisionId (et_record e)) (ad_admissionId (et_record e)) e' co)"
proof (rule set_entry_wf[OF assms(1) wf, of e'])
  note W = coordinator_wfD[OF wf]
  have "map_of (co_byAdmissionId co) (ad_admissionId (et_record e)) = Some e" using W(2)[OF cur] by blast
  from W(3)[OF this] show "record_genuine sha source_of (et_record e')"
    unfolding record_genuine_def same by simp
  show "ad_admissionId (et_record e1) = ad_admissionId (et_record e')"
    if "map_of (entries_of co (ad_accountId (et_record e'))) (ad_sourceStrategyDecisionId (et_record e')) = Some e1" for e1
    using that cur same by simp
  obtain m where "co_byAccountAndDecision co (ad_accountId (et_record e)) = Some m"
    using cur by (cases "co_byAccountAndDecision co (ad_accountId (et_record e))") (simp_all add: entries_of_def)
  then show "co_byAccountAndDecision (replace_entry (ad_accountId (et_record e)) (ad_sourceStrategyDecisionId (et_record e))
        (ad_admissionId (et_record e)) e' co) =
      (co_byAccountAndDecision co)(ad_accountId (et_record e') \<mapsto>
        AList.update (ad_sourceStrategyDecisionId (et_record e')) e' (entries_of co (ad_accountId (et_record e'))))"
    using same by (simp add: replace_entry_def entries_of_def)
qed (simp add: replace_entry_def same)

lemma release_wf:
  assumes "inj sha" and "coordinator_wf sha source_of co" and "releaseLocked a k co = Inr (out, co')"
  shows "coordinator_wf sha source_of co'"
proof (cases "co' = co")
  case False
  then obtain e where e: "map_of (co_byAdmissionId co) k = Some e" "ad_accountId (et_record e) = a"
      "ad_status (et_record e) \<noteq> RELEASED"
      "co' = replace_entry a (ad_sourceStrategyDecisionId (et_record e)) k
         (e\<lparr>et_record := (et_record e)\<lparr>ad_status := RELEASED\<rparr>\<rparr>) co"
    using assms(3) by (auto simp: releaseLocked_def Let_def split: if_splits option.splits)
  then have "ad_status (et_record e) = ADMITTED" by (cases "ad_status (et_record e)") simp_all
  note cur = coordinator_wfD(4)[OF assms(2) e(1) this]
  have k: "ad_admissionId (et_record e) = k" using coordinator_wfD(3)[OF assms(2) e(1)] by blast
  have "coordinator_wf sha source_of (replace_entry (ad_accountId (et_record e)) (ad_sourceStrategyDecisionId (et_record e))
      (ad_admissionId (et_record e)) (e\<lparr>et_record := (et_record e)\<lparr>ad_status := RELEASED\<rparr>\<rparr>) co)"
    by (rule replace_current_wf[OF assms(1,2) cur]) simp_all
  then show ?thesis by (simp only: e(2,4) k)
qed (use assms(2) in simp)

lemma consume_wf:
  assumes "inj sha" and "coordinator_wf sha source_of co" and "consumeForLiveLocked a k i co = (out, co')"
  shows "coordinator_wf sha source_of co'"
proof (cases "co' = co")
  case False
  then obtain e where e: "map_of (co_byAdmissionId co) k = Some e" "ad_accountId (et_record e) = a"
      "ad_status (et_record e) = ADMITTED"
      "co' = replace_entry a (ad_sourceStrategyDecisionId (et_record e)) k (e\<lparr>et_consumedByIntentId := Some i\<rparr>) co"
    using assms(3) by (auto simp: consumeForLiveLocked_def split: if_splits option.splits)
  note cur = coordinator_wfD(4)[OF assms(2) e(1,3)]
  have k: "ad_admissionId (et_record e) = k" using coordinator_wfD(3)[OF assms(2) e(1)] by blast
  have "coordinator_wf sha source_of (replace_entry (ad_accountId (et_record e)) (ad_sourceStrategyDecisionId (et_record e))
      (ad_admissionId (et_record e)) (e\<lparr>et_consumedByIntentId := Some i\<rparr>) co)"
    by (rule replace_current_wf[OF assms(1,2) cur]) simp_all
  then show ?thesis by (simp only: e(2,4) k)
qed (use assms(2) in simp)

lemma fault_wf: "coordinator_wf sha source_of co \<Longrightarrow> coordinator_wf sha source_of (markAccountFaulted a co)"
  by (simp add: coordinator_wf_def markAccountFaulted_def entries_of_def)

lemma overlay_decision:
  "overlayPending sha D co a ctx x = Inr ctx' \<Longrightarrow> rc_strategyDecision ctx' = rc_strategyDecision ctx"
  by (auto simp: overlayPending_def rbind_eq_Inr Let_def split: option.splits)

text \<open>What admitting can do to the state: nothing, hand back the current grant with its decision filled in,
  or record a new grant of the next generation.\<close>

lemma admitFresh_Inr:
  assumes "admitFresh sha D ev a ctx co = Inr (out, co')"
  obtains (kept) "co' = co" "\<And>o' r. out \<noteq> OUT_ADMITTED o' r"
  | (fresh) o' dir k r ctx' where "r = (admission_draft co a (rc_strategyDecision ctx) dir o')\<lparr>ad_admissionId := k\<rparr>"
      "admission_identity sha r = Inr k" "out = OUT_ADMITTED o' r" "co' = record_admission r o' co"
      "overlayPending sha D co a ctx None = Inr ctx'" "ev ctx' = Inr (ACCEPTED_OPEN o')"
      "\<not> sd_decisionSequence (rc_strategyDecision ctx) <
          watermark (co_latestAdmittedSequence co) a (sd_strategyInstanceId (rc_strategyDecision ctx))"
proof (cases "sd_decisionSequence (rc_strategyDecision ctx) <
          watermark (co_latestAdmittedSequence co) a (sd_strategyInstanceId (rc_strategyDecision ctx))")
  case True
  then show thesis using assms by (intro kept) (auto simp: admitFresh_def Let_def)
next
  case False
  then obtain ctx' dc where c: "overlayPending sha D co a ctx None = Inr ctx'" "ev ctx' = Inr dc"
    using assms by (auto simp: admitFresh_def Let_def rbind_eq_Inr)
  show thesis
  proof (cases dc)
    case (ACCEPTED_OPEN o')
    then obtain dir where "rbind (admission_identity sha (admission_draft co a (rc_strategyDecision ctx) dir o'))
        (\<lambda>k. Inr (OUT_ADMITTED o' ((admission_draft co a (rc_strategyDecision ctx) dir o')\<lparr>ad_admissionId := k\<rparr>),
           record_admission ((admission_draft co a (rc_strategyDecision ctx) dir o')\<lparr>ad_admissionId := k\<rparr>) o' co))
        = Inr (out, co')"
      using assms c False
      by (auto simp: admitFresh_def Let_def split: option.splits target_exposure.splits)
    then obtain k where k: "admission_identity sha (admission_draft co a (rc_strategyDecision ctx) dir o') = Inr k"
        "out = OUT_ADMITTED o' ((admission_draft co a (rc_strategyDecision ctx) dir o')\<lparr>ad_admissionId := k\<rparr>)"
        "co' = record_admission ((admission_draft co a (rc_strategyDecision ctx) dir o')\<lparr>ad_admissionId := k\<rparr>) o' co"
      by (auto simp: rbind_eq_Inr)
    show thesis
      by (rule fresh[OF refl _ k(2,3) c(1)]) (use c(2) k(1) ACCEPTED_OPEN False in simp_all)
  qed (use assms c False in \<open>(intro kept, auto simp: admitFresh_def Let_def)\<close>)+
qed

lemma admitLocked_Inr:
  assumes "admitLocked sha D ev rq co = Inr (out, co')"
  obtains (kept) "co' = co" "\<And>o' r. out = OUT_ADMITTED o' r \<Longrightarrow>
        \<exists>e. map_of (entries_of co (rq_accountId rq)) (sd_decisionId (rc_strategyDecision (rq_context rq))) = Some e
          \<and> et_record e = r \<and> ad_status r = ADMITTED"
  | (healed) e o' where "map_of (entries_of co (rq_accountId rq)) (sd_decisionId (rc_strategyDecision (rq_context rq))) = Some e"
      "ad_status (et_record e) = ADMITTED" "out = OUT_ADMITTED o' (et_record e)"
      "co' = replace_entry (rq_accountId rq) (sd_decisionId (rc_strategyDecision (rq_context rq)))
               (ad_admissionId (et_record e)) (e\<lparr>et_decision := Some o'\<rparr>) co"
  | (fresh) "admitFresh sha D ev (rq_accountId rq) (rq_context rq) co = Inr (out, co')"
      "\<And>e. map_of (entries_of co (rq_accountId rq)) (sd_decisionId (rc_strategyDecision (rq_context rq))) = Some e \<Longrightarrow>
         ad_status (et_record e) = RELEASED"
proof -
  have live: "rq_accountId rq \<notin> co_faultedAccounts co"
    using assms by (auto simp: admitLocked_def Let_def)
  let ?e = "map_of (entries_of co (rq_accountId rq)) (sd_decisionId (rc_strategyDecision (rq_context rq)))"
  show thesis
  proof (cases "\<exists>e. ?e = Some e \<and> ad_status (et_record e) = ADMITTED")
    case False
    then have "admitFresh sha D ev (rq_accountId rq) (rq_context rq) co = Inr (out, co')"
      using assms live by (auto simp: admitLocked_def Let_def split: option.splits if_splits)
    then show thesis
    proof (rule fresh)
      show "ad_status (et_record e) = RELEASED" if "?e = Some e" for e
        using that False by (cases "ad_status (et_record e)") auto
    qed
  next
    case True
    then obtain e where e: "?e = Some e" "ad_status (et_record e) = ADMITTED" by blast
    show thesis
    proof (cases "et_decision e")
      case (Some o')
      then show thesis using assms live e by (intro kept) (auto simp: admitLocked_def Let_def)
    next
      case None
      then obtain ctx' dc where c: "overlayPending sha D co (rq_accountId rq) (rq_context rq)
            (Some (sd_decisionId (rc_strategyDecision (rq_context rq)))) = Inr ctx'" "ev ctx' = Inr dc"
          "(case dc of ACCEPTED_OPEN o' \<Rightarrow>
              if ao_riskDecisionId o' \<noteq> ad_riskDecisionId (et_record e) then Inl RestoredDisagrees
              else Inr (OUT_ADMITTED o' (et_record e),
                     replace_entry (rq_accountId rq) (sd_decisionId (rc_strategyDecision (rq_context rq)))
                       (ad_admissionId (et_record e)) (e\<lparr>et_decision := Some o'\<rparr>) co)
            | _ \<Rightarrow> Inl RestoredDisagrees) = Inr (out, co')"
        using assms live e unfolding admitLocked_def Let_def by (auto elim!: rbindE)
      then show thesis using e
        by (cases dc) (auto split: if_splits intro!: healed[of e])
    qed
  qed
qed

lemma admit_wf:
  assumes inj: "inj sha" and wf: "coordinator_wf sha source_of co" and law: "engine_binds source_of ev"
    and run: "admitLocked sha D ev rq co = Inr (out, co')"
  shows "coordinator_wf sha source_of co'"
  using run
proof (cases rule: admitLocked_Inr)
  case kept
  with wf show ?thesis by simp
next
  case (healed e o')
  note W = coordinator_wfD(2)[OF wf healed(1)]
  have cur: "map_of (entries_of co (ad_accountId (et_record e))) (ad_sourceStrategyDecisionId (et_record e)) = Some e"
    using W healed(1) by simp
  have "coordinator_wf sha source_of (replace_entry (ad_accountId (et_record e)) (ad_sourceStrategyDecisionId (et_record e))
      (ad_admissionId (et_record e)) (e\<lparr>et_decision := Some o'\<rparr>) co)"
    by (rule replace_current_wf[OF inj wf cur]) simp_all
  then show ?thesis using W by (simp only: healed(4))
next
  case fresh
  from fresh(1) show ?thesis
  proof (cases rule: admitFresh_Inr)
    case kept
    with wf show ?thesis by simp
  next
    case (fresh o' dir k r ctx')
    have src: "source_of (ao_riskDecisionId o') = sd_decisionId (rc_strategyDecision (rq_context rq))"
      using law[unfolded engine_binds_def, rule_format, OF fresh(6)] overlay_decision[OF fresh(5)] by simp
    let ?e = "\<lparr>et_record = r, et_decision = Some o', et_consumedByIntentId = None\<rparr>"
    have r: "ad_accountId r = rq_accountId rq"
      "ad_sourceStrategyDecisionId r = sd_decisionId (rc_strategyDecision (rq_context rq))"
      "ad_riskDecisionId r = ao_riskDecisionId o'" "ad_admissionId r = k"
      by (simp_all add: fresh(1) admission_draft_def)
    have "admission_identity sha r = Inr k" using fresh(2) by (simp add: fresh(1))
    then have gen: "record_genuine sha source_of (et_record ?e)" using src r by (simp add: record_genuine_def)
    show ?thesis
    proof (rule set_entry_wf[OF inj wf gen])
      show "ad_admissionId (et_record e1) = ad_admissionId (et_record ?e)"
        if "map_of (entries_of co (ad_accountId (et_record ?e))) (ad_sourceStrategyDecisionId (et_record ?e)) = Some e1"
          and "ad_status (et_record e1) = ADMITTED" for e1
        using that \<open>\<And>e. map_of (entries_of co (rq_accountId rq)) (sd_decisionId (rc_strategyDecision (rq_context rq))) = Some e \<Longrightarrow>
         ad_status (et_record e) = RELEASED\<close>[of e1] r by simp
    qed (simp_all add: fresh(4) record_admission_def Let_def r)
  qed
qed

subsection \<open>Restoring keeps the maps in agreement\<close>

lemma map_of_updates: "map_of (fold (\<lambda>(k, e). AList.update k e) xs m) = map_of m ++ map_of (rev xs)"
proof (induction xs arbitrary: m)
  case (Cons x xs)
  then show ?case by (cases x) (simp add: update_conv map_add_def fun_eq_iff split: option.splits)
qed simp

lemma map_of_deletes:
  "map_of (fold (\<lambda>(_, e). AList.delete (f e)) xs m) k = (if k \<in> (\<lambda>(_, e). f e) ` set xs then None else map_of m k)"
proof (induction xs arbitrary: m)
  case (Cons x xs)
  then show ?case by (cases x) (auto simp: delete_conv)
qed simp

lemma update_new: "map_of m k = None \<Longrightarrow> AList.update k v m = m @ [(k, v)]"
  by (induction m) (auto split: if_splits)

lemma restored_entry_simps [simp]:
  "et_record (restored_entry r) = r" "et_consumedByIntentId (restored_entry r) = None"
  by (simp_all add: restored_entry_def)

text \<open>A validated batch holds exactly the records it was given, once each.\<close>

lemma restore_records:
  assumes "foldl_res (restoreRecord a) b rs = Inr b'"
  shows "rb_byDecision b' = rb_byDecision b @
      map (\<lambda>r. (ad_sourceStrategyDecisionId r, restored_entry r)) rs
    \<and> rb_byAdmissionIdEntries b' = rb_byAdmissionIdEntries b @
      map (\<lambda>r. (ad_admissionId r, restored_entry r)) rs
    \<and> (distinct (map fst (rb_byDecision b)) \<longrightarrow> distinct (map fst (rb_byDecision b')))
    \<and> (\<forall>r\<in>set rs. ad_accountId r = a \<and> ad_status r = ADMITTED)"
  using assms
proof (induction rs arbitrary: b)
  case Nil
  then show ?case by simp
next
  case (Cons r rs)
  then obtain b1 where b1: "restoreRecord a b r = Inr b1" and rest: "foldl_res (restoreRecord a) b1 rs = Inr b'"
    by (auto elim!: rbindE)
  have r: "ad_accountId r = a" "ad_status r = ADMITTED"
      "map_of (rb_byDecision b) (ad_sourceStrategyDecisionId r) = None"
    using b1 by (auto simp: restoreRecord_def Let_def split: if_splits)
  have e: "rb_byDecision b1 = rb_byDecision b @ [(ad_sourceStrategyDecisionId r, restored_entry r)]"
    "rb_byAdmissionIdEntries b1 = rb_byAdmissionIdEntries b @ [(ad_admissionId r, restored_entry r)]"
    using b1 r update_new[OF r(3)] by (auto simp: restoreRecord_def Let_def)
  have "ad_sourceStrategyDecisionId r \<notin> fst ` set (rb_byDecision b)" using r(3) by (simp add: map_of_eq_None_iff)
  with e(1) have "distinct (map fst (rb_byDecision b)) \<longrightarrow> distinct (map fst (rb_byDecision b1))" by simp
  then have d: "distinct (map fst (rb_byDecision b)) \<longrightarrow> distinct (map fst (rb_byDecision b'))"
    using Cons.IH[OF rest] by blast
  note I = Cons.IH[OF rest]
  show ?case
  proof (intro conjI)
    show "distinct (map fst (rb_byDecision b)) \<longrightarrow> distinct (map fst (rb_byDecision b'))" by (rule d)
  qed (use I e r in auto)
qed

lemma validated_batch:
  assumes "validateRestoreBatch a rs sq gn = Inr (b, bs)"
  shows "rb_byDecision b =
      map (\<lambda>r. (ad_sourceStrategyDecisionId r, restored_entry r)) rs"
    and "rb_byAdmissionIdEntries b =
      map (\<lambda>r. (ad_admissionId r, restored_entry r)) rs"
    and "distinct (map fst (rb_byDecision b))"
    and "r \<in> set rs \<Longrightarrow> ad_accountId r = a \<and> ad_status r = ADMITTED"
proof -
  let ?z = "\<lparr>rb_byDecision = [], rb_byAdmissionIdEntries = [], rb_byGeneration = Map.empty\<rparr>"
  obtain b0 g where b0: "foldl_res (restoreRecord a) ?z rs = Inr b0" "b = b0\<lparr>rb_byGeneration := g\<rparr>"
    using assms unfolding validateRestoreBatch_def by (auto elim!: rbindE)
  note R = restore_records[OF b0(1)]
  have "distinct (map fst (rb_byDecision ?z))" by simp
  with R have "distinct (map fst (rb_byDecision b0))" by blast
  moreover have "rb_byDecision b = rb_byDecision b0" by (simp add: b0(2))
  ultimately show "distinct (map fst (rb_byDecision b))" by (simp only:)
  from R b0(2)
  show "rb_byDecision b =
      map (\<lambda>r. (ad_sourceStrategyDecisionId r, restored_entry r)) rs"
    and "rb_byAdmissionIdEntries b =
      map (\<lambda>r. (ad_admissionId r, restored_entry r)) rs"
    and "r \<in> set rs \<Longrightarrow> ad_accountId r = a \<and> ad_status r = ADMITTED"
    by simp_all
qed

lemma commit_batch_wf:
  assumes inj: "inj sha" and wf: "coordinator_wf sha source_of co"
    and batch: "validateRestoreBatch a rs sq gn = Inr (b, bs)"
    and gen: "\<forall>r\<in>set rs. record_genuine sha source_of r"
    and by': "\<And>x. co_byAccountAndDecision co' x = (if x = a then Some (rb_byDecision b) else co_byAccountAndDecision co x)"
    and keep: "\<And>k e. map_of m k = Some e \<Longrightarrow> map_of (co_byAdmissionId co) k = Some e
       \<and> (ad_accountId (et_record e) = a \<longrightarrow> ad_status (et_record e) = RELEASED)"
    and others: "\<And>k e. map_of (co_byAdmissionId co) k = Some e \<Longrightarrow> ad_accountId (et_record e) \<noteq> a \<Longrightarrow> map_of m k = Some e"
    and id: "co_byAdmissionId co' = fold (\<lambda>(k, e). AList.update k e) (rb_byAdmissionIdEntries b) m"
  shows "coordinator_wf sha source_of co'"
proof -
  note W = coordinator_wfD[OF wf]
  note B = validated_batch[OF batch]
  have en: "entries_of co' x = (if x = a then rb_byDecision b else entries_of co x)" for x
    by (simp add: entries_of_def by')
  have same: "r = s" if "r \<in> set rs" "s \<in> set rs" "ad_sourceStrategyDecisionId r = ad_sourceStrategyDecisionId s" for r s
  proof -
    have "inj_on ad_sourceStrategyDecisionId (set rs)"
      using B(1,3) by (simp add: comp_def distinct_map)
    with that show ?thesis by (auto dest: inj_onD)
  qed
  have ids: "r = s" if "r \<in> set rs" "s \<in> set rs" "ad_admissionId r = ad_admissionId s" for r s
    using genuine_inject[OF inj _ _ that(3)] gen that(1,2) same by blast
  have dec: "map_of (rb_byDecision b) d = Some x \<longleftrightarrow> (\<exists>r\<in>set rs. d = ad_sourceStrategyDecisionId r \<and> x = restored_entry r)" for d x
    using B(3) by (simp add: map_of_eq_Some_iff) (auto simp: B(1))
  have new: "map_of (rev (rb_byAdmissionIdEntries b)) k = Some x \<longleftrightarrow> (\<exists>r\<in>set rs. k = ad_admissionId r \<and> x = restored_entry r)" for k x
  proof
    assume "map_of (rev (rb_byAdmissionIdEntries b)) k = Some x"
    then have "(k, x) \<in> set (rb_byAdmissionIdEntries b)" using map_of_SomeD by fastforce
    then show "\<exists>r\<in>set rs. k = ad_admissionId r \<and> x = restored_entry r" by (auto simp: B(2))
  next
    assume "\<exists>r\<in>set rs. k = ad_admissionId r \<and> x = restored_entry r"
    then obtain r where r: "r \<in> set rs" "k = ad_admissionId r" "x = restored_entry r" by blast
    then have "(k, x) \<in> set (rb_byAdmissionIdEntries b)" by (auto simp: B(2))
    then have "k \<in> fst ` set (rev (rb_byAdmissionIdEntries b))" by (metis fst_conv image_eqI set_rev)
    then obtain y where y: "map_of (rev (rb_byAdmissionIdEntries b)) k = Some y"
      by (metis map_of_eq_None_iff not_None_eq)
    then have "(k, y) \<in> set (rb_byAdmissionIdEntries b)" using map_of_SomeD by fastforce
    then obtain s where "s \<in> set rs" "k = ad_admissionId s" "y = restored_entry s" by (auto simp: B(2))
    with y r ids show "map_of (rev (rb_byAdmissionIdEntries b)) k = Some x" by metis
  qed
  have byid: "map_of (co_byAdmissionId co') k = Some x \<longleftrightarrow>
      (\<exists>r\<in>set rs. k = ad_admissionId r \<and> x = restored_entry r) \<or> (\<forall>r\<in>set rs. k \<noteq> ad_admissionId r) \<and> map_of m k = Some x" for k x
    using new[of k] by (cases "map_of (rev (rb_byAdmissionIdEntries b)) k") (auto simp: id map_of_updates map_add_def)
  show ?thesis
    unfolding coordinator_wf_def
  proof (intro conjI allI impI)
    show "distinct (map fst (entries_of co' x))" for x using W(1) B(3) by (simp add: en)
  next
    fix x d e
    assume e: "map_of (entries_of co' x) d = Some e"
    show "ad_sourceStrategyDecisionId (et_record e) = d" "ad_accountId (et_record e) = x"
      using e W(2)[of x d e] B(4) by (auto simp: en dec split: if_splits)
    show "map_of (co_byAdmissionId co') (ad_admissionId (et_record e)) = Some e"
    proof (cases "x = a")
      case True
      then show ?thesis using e by (auto simp: en dec byid)
    next
      case False
      then have o: "map_of (entries_of co x) d = Some e" using e by (simp add: en)
      have "ad_admissionId (et_record e) \<noteq> ad_admissionId r" if "r \<in> set rs" for r
      proof
        assume k: "ad_admissionId (et_record e) = ad_admissionId r"
        have "record_genuine sha source_of (et_record e)" using W(2)[OF o] W(3) by blast
        from genuine_inject[OF inj this _ k] gen that B(4)[OF that] W(2)[OF o] False show False by auto
      qed
      with W(2)[OF o] others False show ?thesis by (auto simp: byid)
    qed
  next
    fix k e
    assume e: "map_of (co_byAdmissionId co') k = Some e"
    have "ad_admissionId (et_record e) = k \<and> record_genuine sha source_of (et_record e)"
      using e unfolding byid
    proof
      assume "\<exists>r\<in>set rs. k = ad_admissionId r \<and> e = restored_entry r"
      then show ?thesis using gen by auto
    next
      assume "(\<forall>r\<in>set rs. k \<noteq> ad_admissionId r) \<and> map_of m k = Some e"
      then have "map_of (co_byAdmissionId co) k = Some e" using keep by blast
      then show ?thesis by (rule W(3))
    qed
    then show "ad_admissionId (et_record e) = k" "record_genuine sha source_of (et_record e)" by blast+
    assume adm: "ad_status (et_record e) = ADMITTED"
    from e show "map_of (entries_of co' (ad_accountId (et_record e))) (ad_sourceStrategyDecisionId (et_record e)) = Some e"
      unfolding byid
    proof
      assume "\<exists>r\<in>set rs. k = ad_admissionId r \<and> e = restored_entry r"
      then obtain r where r: "r \<in> set rs" and er: "e = restored_entry r" by blast
      have rec: "et_record e = r" by (simp add: er)
      have "ad_accountId (et_record e) = a" using B(4)[OF r] rec by simp
      then have "entries_of co' (ad_accountId (et_record e)) = rb_byDecision b" by (simp add: en)
      moreover have "map_of (rb_byDecision b) (ad_sourceStrategyDecisionId (et_record e)) = Some e"
        unfolding dec rec using r er by blast
      ultimately show ?thesis by (simp only:)
    next
      assume "(\<forall>r\<in>set rs. k \<noteq> ad_admissionId r) \<and> map_of m k = Some e"
      then have m: "map_of m k = Some e" by blast
      have old: "map_of (co_byAdmissionId co) k = Some e" and rel: "ad_accountId (et_record e) = a \<longrightarrow> ad_status (et_record e) = RELEASED"
        using keep[OF m] by (rule conjunct1, rule conjunct2)
      have x: "ad_accountId (et_record e) \<noteq> a"
      proof
        assume "ad_accountId (et_record e) = a"
        with rel have "ad_status (et_record e) = RELEASED" by (rule mp)
        with adm show False by simp
      qed
      have "entries_of co' (ad_accountId (et_record e)) = entries_of co (ad_accountId (et_record e))"
        unfolding en if_not_P[OF x] by (rule refl)
      then show ?thesis using W(4)[OF old adm] by (simp only:)
    qed
  qed
qed

lemma restore_wf:
  assumes "inj sha" and wf: "coordinator_wf sha source_of co" and gen: "\<forall>r\<in>set rs. record_genuine sha source_of r"
    and run: "restoreLocked a rs sq gn co = Inr co'"
  shows "coordinator_wf sha source_of co'"
proof -
  obtain b bs where none: "co_byAccountAndDecision co a = None" and b: "validateRestoreBatch a rs sq gn = Inr (b, bs)"
    and co': "co' = commit_batch a b bs co"
    using run by (auto simp: restoreLocked_def split: if_splits elim!: rbindE)
  have e: "entries_of co a = []" using none by (simp add: entries_of_def)
  show ?thesis
  proof (rule commit_batch_wf[OF assms(1) wf b gen, of co' "co_byAdmissionId co"])
    show "map_of (co_byAdmissionId co) k = Some x \<and> (ad_accountId (et_record x) = a \<longrightarrow> ad_status (et_record x) = RELEASED)"
      if "map_of (co_byAdmissionId co) k = Some x" for k x
      using that coordinator_wfD(4)[OF wf that] e by (cases "ad_status (et_record x)") auto
  qed (simp_all add: co' commit_batch_def)
qed

lemma restoreAuthoritative_wf:
  assumes "inj sha" and wf: "coordinator_wf sha source_of co" and gen: "\<forall>r\<in>set rs. record_genuine sha source_of r"
    and run: "restoreAuthoritativeLocked a rs sq gn co = Inr co'"
  shows "coordinator_wf sha source_of co'"
proof -
  note W = coordinator_wfD[OF wf]
  let ?m = "fold (\<lambda>(_, e). AList.delete (ad_admissionId (et_record e))) (entries_of co a) (co_byAdmissionId co)"
  obtain b bs where b: "validateRestoreBatch a rs sq gn = Inr (b, bs)"
    and co': "co' = (commit_batch a b bs (co\<lparr>co_byAdmissionId := ?m\<rparr>))\<lparr>co_faultedAccounts := co_faultedAccounts co - {a}\<rparr>"
    using run by (auto simp: restoreAuthoritativeLocked_def Let_def elim!: rbindE)
  have m: "map_of ?m k = (if k \<in> (\<lambda>(_, e). ad_admissionId (et_record e)) ` set (entries_of co a) then None
      else map_of (co_byAdmissionId co) k)" for k
    by (rule map_of_deletes)
  show ?thesis
  proof (rule commit_batch_wf[OF assms(1) wf b gen, of co' ?m])
    fix k x
    assume "map_of ?m k = Some x"
    then have k: "k \<notin> (\<lambda>(_, e). ad_admissionId (et_record e)) ` set (entries_of co a)"
      and x: "map_of (co_byAdmissionId co) k = Some x"
      by (auto simp: m split: if_splits)
    have "ad_status (et_record x) = RELEASED" if "ad_accountId (et_record x) = a"
    proof (rule ccontr)
      assume "ad_status (et_record x) \<noteq> RELEASED"
      then have "ad_status (et_record x) = ADMITTED" by (cases "ad_status (et_record x)") simp_all
      from W(4)[OF x this] that have "(ad_sourceStrategyDecisionId (et_record x), x) \<in> set (entries_of co a)"
        by (auto dest: map_of_SomeD)
      with k W(3)[OF x] show False by (force simp: image_iff)
    qed
    with x show "map_of (co_byAdmissionId co) k = Some x \<and> (ad_accountId (et_record x) = a \<longrightarrow> ad_status (et_record x) = RELEASED)"
      by blast
  next
    fix k x
    assume x: "map_of (co_byAdmissionId co) k = Some x" and other: "ad_accountId (et_record x) \<noteq> a"
    have "k \<noteq> ad_admissionId (et_record e)" if "(d, e) \<in> set (entries_of co a)" for d e
    proof
      assume k: "k = ad_admissionId (et_record e)"
      have "map_of (entries_of co a) d = Some e" using that W(1) by (simp add: map_of_is_SomeI)
      from W(2)[OF this] x k other show False by auto
    qed
    then have "k \<notin> (\<lambda>(_, e). ad_admissionId (et_record e)) ` set (entries_of co a)" by auto
    then show "map_of ?m k = Some x" using x by (simp add: m)
  qed (simp_all add: co' commit_batch_def)
qed

subsection \<open>The coordinator as a state machine\<close>

text \<open>Any interleaving of the serialized operations, with engines of one family. A process starts
  empty, may restore what an earlier one issued, and then only admits, releases, consumes and faults;
  an authoritative recovery replaces the state of one account.\<close>

inductive runtime_step ::
    "(string \<Rightarrow> string) \<Rightarrow> decimal_js \<Rightarrow> (risk_context \<Rightarrow> (admission_error, risk_decision) res) set
     \<Rightarrow> coordinator \<Rightarrow> coordinator \<Rightarrow> bool"
  for sha :: "string \<Rightarrow> string" and D :: decimal_js
    and engines :: "(risk_context \<Rightarrow> (admission_error, risk_decision) res) set"
where
  admit: "ev \<in> engines \<Longrightarrow> admitLocked sha D ev rq co = Inr (out, co') \<Longrightarrow> runtime_step sha D engines co co'"
| release: "releaseLocked a k co = Inr (out2, co') \<Longrightarrow> runtime_step sha D engines co co'"
| consume: "consumeForLiveLocked a k i co = (out3, co') \<Longrightarrow> runtime_step sha D engines co co'"
| fault: "runtime_step sha D engines co (markAccountFaulted a co)"

inductive admission_step ::
    "(string \<Rightarrow> string) \<Rightarrow> decimal_js \<Rightarrow> (string \<Rightarrow> string) \<Rightarrow> (risk_context \<Rightarrow> (admission_error, risk_decision) res) set
     \<Rightarrow> coordinator \<Rightarrow> coordinator \<Rightarrow> bool"
  for sha :: "string \<Rightarrow> string" and D :: decimal_js and source_of :: "string \<Rightarrow> string"
    and engines :: "(risk_context \<Rightarrow> (admission_error, risk_decision) res) set"
where
  runtime: "runtime_step sha D engines co co' \<Longrightarrow> admission_step sha D source_of engines co co'"
| restore: "\<forall>r\<in>set rs. record_genuine sha source_of r \<Longrightarrow> restoreLocked a rs sq gn co = Inr co' \<Longrightarrow>
    admission_step sha D source_of engines co co'"
| recover: "\<forall>r\<in>set rs. record_genuine sha source_of r \<Longrightarrow> restoreAuthoritativeLocked a rs sq gn co = Inr co' \<Longrightarrow>
    admission_step sha D source_of engines co co'"

inductive admission_reachable for sha D source_of engines where
  start: "admission_reachable sha D source_of engines new_coordinator"
| step: "admission_reachable sha D source_of engines co \<Longrightarrow> admission_step sha D source_of engines co co' \<Longrightarrow>
    admission_reachable sha D source_of engines co'"

lemma runtime_step_wf:
  assumes "runtime_step sha D engines co co'" and "inj sha" and "\<forall>ev\<in>engines. engine_binds source_of ev"
    and "coordinator_wf sha source_of co"
  shows "coordinator_wf sha source_of co'"
  using assms by (cases rule: runtime_step.cases) (auto intro: admit_wf release_wf consume_wf fault_wf)

lemma reachable_coordinator_wf:
  assumes "admission_reachable sha D source_of engines co" and "inj sha"
    and "\<forall>ev\<in>engines. engine_binds source_of ev"
  shows "coordinator_wf sha source_of co"
  using assms(1)
proof (induction rule: admission_reachable.induct)
  case start
  show ?case by (rule new_coordinator_wf)
next
  case (step co co')
  from step.hyps(2) step.IH assms(2,3) show ?case
    by (cases rule: admission_step.cases)
      (auto intro: runtime_step_wf restore_wf restoreAuthoritative_wf)
qed

text \<open>C10. The coordinator never double-counts capacity: in every reachable state the two maps hold the
  same entries, each strategy decision of an account has at most one admitted grant, and the
  grants its pending overlay counts are exactly the admitted grants it has issued for the account,
  each once.\<close>

theorem admitted_once:
  assumes "admission_reachable sha D source_of engines co" and "inj sha"
    and "\<forall>ev\<in>engines. engine_binds source_of ev"
  shows "(\<forall>k e. map_of (co_byAdmissionId co) k = Some e \<and> ad_status (et_record e) = ADMITTED \<longrightarrow>
       map_of (entries_of co (ad_accountId (et_record e))) (ad_sourceStrategyDecisionId (et_record e)) = Some e)
    \<and> (\<forall>k e k' e'. map_of (co_byAdmissionId co) k = Some e \<and> map_of (co_byAdmissionId co) k' = Some e'
        \<and> ad_status (et_record e) = ADMITTED \<and> ad_status (et_record e') = ADMITTED
        \<and> ad_accountId (et_record e) = ad_accountId (et_record e')
        \<and> ad_sourceStrategyDecisionId (et_record e) = ad_sourceStrategyDecisionId (et_record e') \<longrightarrow> k = k' \<and> e = e')
    \<and> distinct (admitted_records co a None)
    \<and> set (admitted_records co a None) =
        {et_record e | k e. map_of (co_byAdmissionId co) k = Some e \<and> ad_status (et_record e) = ADMITTED
           \<and> ad_accountId (et_record e) = a}"
proof -
  note W = coordinator_wfD[OF reachable_coordinator_wf[OF assms]]
  have one: "k = k' \<and> e = e'" if "map_of (co_byAdmissionId co) k = Some e" "map_of (co_byAdmissionId co) k' = Some e'"
      "ad_status (et_record e) = ADMITTED" "ad_status (et_record e') = ADMITTED"
      "ad_accountId (et_record e) = ad_accountId (et_record e')"
      "ad_sourceStrategyDecisionId (et_record e) = ad_sourceStrategyDecisionId (et_record e')" for k e k' e'
  proof -
    have "Some e = Some e'" using W(4)[OF that(1,3)] W(4)[OF that(2,4)] unfolding that(5,6) by (simp only:)
    moreover have "ad_admissionId (et_record e) = k" "ad_admissionId (et_record e') = k'"
      using W(3)[OF that(1)] W(3)[OF that(2)] by blast+
    ultimately show ?thesis by simp
  qed
  have look: "(d, e) \<in> set (entries_of co a) \<longleftrightarrow> map_of (entries_of co a) d = Some e" for d e
    using W(1) by (simp add: map_of_eq_Some_iff)
  have key: "ad_sourceStrategyDecisionId (et_record e) = d" if "(d, e) \<in> set (entries_of co a)" for d e
    using W(2) that by (simp add: look)
  have recs: "admitted_records co a None =
      filter (\<lambda>r. ad_status r = ADMITTED) (map (\<lambda>(_, e). et_record e) (entries_of co a))"
    by (simp add: admitted_records_def)
  have "inj_on (\<lambda>(_, e). et_record e) (set (entries_of co a))"
  proof (rule inj_onI)
    fix x y
    assume x: "x \<in> set (entries_of co a)" "y \<in> set (entries_of co a)"
      and eq: "(\<lambda>(_, e). et_record e) x = (\<lambda>(_, e). et_record e) y"
    obtain d e where xe: "x = (d, e)" by (cases x)
    obtain d' e' where ye: "y = (d', e')" by (cases y)
    have m: "(d, e) \<in> set (entries_of co a)" "(d', e') \<in> set (entries_of co a)" and r: "et_record e = et_record e'"
      using x eq unfolding xe ye by simp_all
    have dd: "d = d'" using key[OF m(1)] key[OF m(2)] r by (simp only:)
    have "Some e = Some e'" using m dd look by (simp only:)
    then show "x = y" unfolding xe ye dd by simp
  qed
  moreover have "distinct (entries_of co a)" using W(1)[of a] by (simp add: distinct_map)
  ultimately have "distinct (map (\<lambda>(_, e). et_record e) (entries_of co a))" by (simp add: distinct_map)
  then have d: "distinct (admitted_records co a None)" by (simp add: recs)
  have "set (admitted_records co a None) =
        {et_record e | k e. map_of (co_byAdmissionId co) k = Some e \<and> ad_status (et_record e) = ADMITTED
           \<and> ad_accountId (et_record e) = a}" (is "_ = ?R")
  proof (intro set_eqI iffI)
    fix r
    assume "r \<in> set (admitted_records co a None)"
    then obtain dd e where e: "map_of (entries_of co a) dd = Some e" "r = et_record e" "ad_status r = ADMITTED"
      by (auto simp: recs look)
    with W(2)[OF e(1)] show "r \<in> ?R" by blast
  next
    fix r
    assume "r \<in> ?R"
    then obtain k e where e: "map_of (co_byAdmissionId co) k = Some e" "ad_status (et_record e) = ADMITTED"
        "ad_accountId (et_record e) = a" "r = et_record e"
      by blast
    with W(4)[OF e(1,2)] have "(ad_sourceStrategyDecisionId r, e) \<in> set (entries_of co a)" by (simp add: look)
    then have "et_record e \<in> (\<lambda>(_, e). et_record e) ` set (entries_of co a)" by (rule rev_image_eqI) simp
    with e show "r \<in> set (admitted_records co a None)" by (simp add: recs)
  qed
  with d one W(4) show ?thesis by blast
qed

subsection \<open>Generations and consumption\<close>

text \<open>No grant the coordinator still knows for the account is of a later generation than the watermark, and
  an account with no map of decisions has no grants.\<close>

definition account_bounded :: "string \<Rightarrow> coordinator \<Rightarrow> bool" where
  "account_bounded a co \<longleftrightarrow>
     (\<forall>k e. map_of (co_byAdmissionId co) k = Some e \<and> ad_accountId (et_record e) = a \<longrightarrow>
        co_byAccountAndDecision co a \<noteq> None
        \<and> ad_generation (et_record e) \<le> watermark (co_latestGeneration co) a (ad_sourceStrategyDecisionId (et_record e)))"

text \<open>Every grant of the account stays known, with the mark of the intent that consumed it.\<close>

definition keeps_marks :: "string \<Rightarrow> coordinator \<Rightarrow> coordinator \<Rightarrow> bool" where
  "keeps_marks a co co' \<longleftrightarrow>
     (\<forall>k e. map_of (co_byAdmissionId co) k = Some e \<and> ad_accountId (et_record e) = a \<longrightarrow>
        (\<exists>e'. map_of (co_byAdmissionId co') k = Some e' \<and> ad_accountId (et_record e') = a
           \<and> (et_consumedByIntentId e \<noteq> None \<longrightarrow> et_consumedByIntentId e' = et_consumedByIntentId e)))"

lemma keeps_marks_refl: "keeps_marks a co co"
  by (simp add: keeps_marks_def)

lemma keeps_marks_trans: "keeps_marks x a b \<Longrightarrow> keeps_marks x b c \<Longrightarrow> keeps_marks x a c"
  unfolding keeps_marks_def by (metis (no_types))

lemma watermark_raise:
  "watermark (raise_watermark m a b k) a' b' = (if a' = a \<and> b' = b then k else watermark m a' b')"
  by (simp add: watermark_def raise_watermark_def split: option.splits)

lemma replace_entry_simps [simp]:
  "map_of (co_byAdmissionId (replace_entry a d k e co)) j = (if j = k then Some e else map_of (co_byAdmissionId co) j)"
  "co_latestGeneration (replace_entry a d k e co) = co_latestGeneration co"
  "co_latestAdmittedSequence (replace_entry a d k e co) = co_latestAdmittedSequence co"
  "co_faultedAccounts (replace_entry a d k e co) = co_faultedAccounts co"
  "co_byAccountAndDecision (replace_entry a d k e co) x = None \<longleftrightarrow> co_byAccountAndDecision co x = None"
  by (simp_all add: replace_entry_def update_conv split: option.split)

lemma replace_keeps:
  assumes "account_bounded x co" and "map_of (co_byAdmissionId co) k = Some e"
    and "ad_generation (et_record e') = ad_generation (et_record e)" "ad_accountId (et_record e') = ad_accountId (et_record e)"
      "ad_sourceStrategyDecisionId (et_record e') = ad_sourceStrategyDecisionId (et_record e)"
    and "et_consumedByIntentId e \<noteq> None \<Longrightarrow> et_consumedByIntentId e' = et_consumedByIntentId e"
  shows "account_bounded x (replace_entry a d k e' co) \<and> keeps_marks x co (replace_entry a d k e' co)"
  using assms unfolding account_bounded_def keeps_marks_def replace_entry_simps by auto

lemma admit_keeps:
  assumes inj: "inj sha" and wf: "coordinator_wf sha source_of co" and law: "engine_binds source_of ev"
    and run: "admitLocked sha D ev rq co = Inr (out, co')" and b: "account_bounded x co"
  shows "account_bounded x co' \<and> keeps_marks x co co'"
  using run
proof (cases rule: admitLocked_Inr)
  case kept
  with b show ?thesis by (simp add: keeps_marks_refl)
next
  case (healed e o')
  show ?thesis
    unfolding healed(4)
    by (rule replace_keeps[OF b]) (use coordinator_wfD(2)[OF wf healed(1)] in simp_all)
next
  case fr: fresh
  from fr(1) show ?thesis
  proof (cases rule: admitFresh_Inr)
    case kept
    with b show ?thesis by (simp add: keeps_marks_refl)
  next
    case (fresh o' dir k r ctx')
    have src: "source_of (ao_riskDecisionId o') = sd_decisionId (rc_strategyDecision (rq_context rq))"
      using law[unfolded engine_binds_def, rule_format, OF fresh(6)] overlay_decision[OF fresh(5)] by simp
    have r: "ad_accountId r = rq_accountId rq"
      "ad_sourceStrategyDecisionId r = sd_decisionId (rc_strategyDecision (rq_context rq))"
      "ad_riskDecisionId r = ao_riskDecisionId o'" "ad_admissionId r = k"
      "ad_generation r = next_generation co (rq_accountId rq) (sd_decisionId (rc_strategyDecision (rq_context rq)))"
      by (simp_all add: fresh(1) admission_draft_def)
    have above: "watermark (co_latestGeneration co) (ad_accountId r) (ad_sourceStrategyDecisionId r) < ad_generation r"
      by (simp add: r next_generation_def)
    have "admission_identity sha r = Inr k" using fresh(2) by (simp add: fresh(1))
    then have gen: "record_genuine sha source_of r" using src r by (simp add: record_genuine_def)
    have new: False if e: "map_of (co_byAdmissionId co) k = Some e" and x: "ad_accountId (et_record e) = x" for e
    proof -
      note W = coordinator_wfD(3)[OF wf e]
      have "ad_admissionId (et_record e) = ad_admissionId r" using W r(4) by simp
      from genuine_inject[OF inj conjunct2[OF W] gen this] above b e x show False
        by (fastforce simp: account_bounded_def)
    qed
    have byid: "map_of (co_byAdmissionId co') j =
        (if j = k then Some \<lparr>et_record = r, et_decision = Some o', et_consumedByIntentId = None\<rparr>
         else map_of (co_byAdmissionId co) j)" for j
      by (simp add: fresh(4) record_admission_def Let_def r(4) update_conv)
    have w: "watermark (co_latestGeneration co') a' b' =
        (if a' = ad_accountId r \<and> b' = ad_sourceStrategyDecisionId r then ad_generation r
         else watermark (co_latestGeneration co) a' b')" for a' b'
      by (simp add: fresh(4) record_admission_def Let_def watermark_raise)
    have some: "co_byAccountAndDecision co' y \<noteq> None" if "y = ad_accountId r \<or> co_byAccountAndDecision co y \<noteq> None" for y
      using that by (auto simp: fresh(4) record_admission_def Let_def)
    have "account_bounded x co'"
      unfolding account_bounded_def
    proof (intro allI impI, elim conjE)
      fix j e
      assume e: "map_of (co_byAdmissionId co') j = Some e" and x: "ad_accountId (et_record e) = x"
      show "co_byAccountAndDecision co' x \<noteq> None
        \<and> ad_generation (et_record e) \<le> watermark (co_latestGeneration co') x (ad_sourceStrategyDecisionId (et_record e))"
      proof (cases "j = k")
        case False
        then have "map_of (co_byAdmissionId co) j = Some e" using e by (simp add: byid)
        then have "co_byAccountAndDecision co x \<noteq> None" "ad_generation (et_record e) \<le>
            watermark (co_latestGeneration co) x (ad_sourceStrategyDecisionId (et_record e))"
          using b x by (simp_all add: account_bounded_def)
        with above some[of x] show ?thesis by (auto simp: w)
      qed (use e x some[of x] in \<open>auto simp: byid w\<close>)
    qed
    moreover have "keeps_marks x co co'" using new by (auto simp: keeps_marks_def byid)
    ultimately show ?thesis by blast
  qed
qed

lemma runtime_step_keeps:
  assumes "runtime_step sha D engines co co'" and "inj sha" and "\<forall>ev\<in>engines. engine_binds source_of ev"
    and "coordinator_wf sha source_of co" and b: "account_bounded x co"
  shows "account_bounded x co' \<and> keeps_marks x co co'"
  using assms(1)
proof (cases rule: runtime_step.cases)
  case (admit ev rq out)
  have "engine_binds source_of ev" using assms(3) admit(1) by blast
  then show ?thesis by (rule admit_keeps[OF assms(2,4) _ admit(2) b])
next
  case (release a k out)
  then show ?thesis using b
    by (auto simp: releaseLocked_def Let_def keeps_marks_refl split: if_splits option.splits
        intro: replace_keeps[OF b, THEN conjunct1] replace_keeps[OF b, THEN conjunct2])
next
  case (consume a k i out)
  then show ?thesis using b
    by (auto simp: consumeForLiveLocked_def keeps_marks_refl split: if_splits option.splits
        intro: replace_keeps[OF b, THEN conjunct1] replace_keeps[OF b, THEN conjunct2])
next
  case (fault a)
  with b show ?thesis by (auto simp: account_bounded_def keeps_marks_def markAccountFaulted_def)
qed

text \<open>Restoring the records of one account leaves the grants of every other account alone.\<close>

lemma restored_ids:
  assumes "validateRestoreBatch a rs sq gn = Inr (b, bs)"
  shows "map_of (fold (\<lambda>(k, e). AList.update k e) (rb_byAdmissionIdEntries b) m) k = Some x \<Longrightarrow>
      (\<exists>r\<in>set rs. k = ad_admissionId r \<and> x = restored_entry r) \<or> k \<notin> ad_admissionId ` set rs \<and> map_of m k = Some x"
    and "k \<notin> ad_admissionId ` set rs \<Longrightarrow>
      map_of (fold (\<lambda>(k, e). AList.update k e) (rb_byAdmissionIdEntries b) m) k = map_of m k"
    and "k \<in> ad_admissionId ` set rs \<Longrightarrow>
      \<exists>r\<in>set rs. k = ad_admissionId r
        \<and> map_of (fold (\<lambda>(k, e). AList.update k e) (rb_byAdmissionIdEntries b) m) k = Some (restored_entry r)"
proof -
  note B = validated_batch(2)[OF assms]
  have some: "\<exists>r\<in>set rs. k = ad_admissionId r \<and> x = restored_entry r"
    if "map_of (rev (rb_byAdmissionIdEntries b)) k = Some x" for k x
  proof -
    have "(k, x) \<in> set (rb_byAdmissionIdEntries b)" using map_of_SomeD[OF that] by simp
    then show ?thesis by (auto simp: B)
  qed
  have none: "map_of (rev (rb_byAdmissionIdEntries b)) k = None \<longleftrightarrow> k \<notin> ad_admissionId ` set rs" for k
    by (force simp: map_of_eq_None_iff B)
  show "map_of (fold (\<lambda>(k, e). AList.update k e) (rb_byAdmissionIdEntries b) m) k = map_of m k"
    if "k \<notin> ad_admissionId ` set rs"
    using that none[of k] by (simp add: map_of_updates map_add_def)
  show "\<exists>r\<in>set rs. k = ad_admissionId r
        \<and> map_of (fold (\<lambda>(k, e). AList.update k e) (rb_byAdmissionIdEntries b) m) k = Some (restored_entry r)"
    if "k \<in> ad_admissionId ` set rs"
  proof -
    have "map_of (rev (rb_byAdmissionIdEntries b)) k \<noteq> None" using that none[of k] by simp
    then obtain y where y: "map_of (rev (rb_byAdmissionIdEntries b)) k = Some y" by blast
    with some[OF y] show ?thesis by (auto simp: map_of_updates map_add_def)
  qed
  show "(\<exists>r\<in>set rs. k = ad_admissionId r \<and> x = restored_entry r) \<or> k \<notin> ad_admissionId ` set rs \<and> map_of m k = Some x"
    if "map_of (fold (\<lambda>(k, e). AList.update k e) (rb_byAdmissionIdEntries b) m) k = Some x"
    using that some[of k] none[of k]
    by (cases "map_of (rev (rb_byAdmissionIdEntries b)) k") (auto simp: map_of_updates map_add_def)
qed

lemma restored_generations:
  assumes "foldl_res (restoreRecord a) b rs = Inr b'"
  shows "(\<forall>d g. rb_byGeneration b d = Some g \<and> map_of (rb_byDecision b) d \<noteq> None \<longrightarrow> rb_byGeneration b' d = Some g)
    \<and> (\<forall>r\<in>set rs. rb_byGeneration b' (ad_sourceStrategyDecisionId r) = Some (ad_generation r))"
  using assms
proof (induction rs arbitrary: b)
  case (Cons r rs)
  then obtain b1 where b1: "restoreRecord a b r = Inr b1" and rest: "foldl_res (restoreRecord a) b1 rs = Inr b'"
    by (auto elim!: rbindE)
  have g: "rb_byGeneration b1 = (rb_byGeneration b)(ad_sourceStrategyDecisionId r \<mapsto> ad_generation r)"
    and n: "map_of (rb_byDecision b) (ad_sourceStrategyDecisionId r) = None"
    and d: "\<And>d. map_of (rb_byDecision b1) d =
        (if d = ad_sourceStrategyDecisionId r then Some (restored_entry r) else map_of (rb_byDecision b) d)"
    using b1 by (auto simp: restoreRecord_def Let_def update_conv split: if_splits)
  note I = Cons.IH[OF rest]
  show ?case
  proof (intro conjI allI impI ballI)
    fix x k
    assume "rb_byGeneration b x = Some k \<and> map_of (rb_byDecision b) x \<noteq> None"
    then show "rb_byGeneration b' x = Some k" using I n by (cases "x = ad_sourceStrategyDecisionId r") (auto simp: g d)
  next
    fix s
    assume "s \<in> set (r # rs)"
    then show "rb_byGeneration b' (ad_sourceStrategyDecisionId s) = Some (ad_generation s)" using I by (auto simp: g d)
  qed
qed simp

lemma raised_generations:
  assumes "foldl_res restoreGeneration m ws = Inr m'" and "m d = Some g"
  shows "\<exists>g'. m' d = Some g' \<and> g \<le> g'"
  using assms
proof (induction ws arbitrary: m g)
  case (Cons w ws)
  then obtain m1 where m1: "restoreGeneration m w = Inr m1" and rest: "foldl_res restoreGeneration m1 ws = Inr m'"
    by (auto elim!: rbindE)
  have "\<exists>g1. m1 d = Some g1 \<and> g \<le> g1"
    using m1 Cons.prems(2) by (auto simp: restoreGeneration_def split: if_splits option.splits)
  then obtain g1 where g1: "m1 d = Some g1" "g \<le> g1" by blast
  from Cons.IH[OF rest g1(1)] g1(2) show ?case by fastforce
qed simp

lemma validated_generations:
  assumes "validateRestoreBatch a rs sq gn = Inr (b, bs)" and "r \<in> set rs"
  shows "\<exists>g. rb_byGeneration b (ad_sourceStrategyDecisionId r) = Some g \<and> ad_generation r \<le> g"
proof -
  obtain b0 g where b0: "foldl_res (restoreRecord a)
      \<lparr>rb_byDecision = [], rb_byAdmissionIdEntries = [], rb_byGeneration = Map.empty\<rparr> rs = Inr b0"
    and g: "foldl_res restoreGeneration (rb_byGeneration b0) gn = Inr g" and b: "b = b0\<lparr>rb_byGeneration := g\<rparr>"
    using assms(1) unfolding validateRestoreBatch_def by (auto elim!: rbindE)
  have "rb_byGeneration b0 (ad_sourceStrategyDecisionId r) = Some (ad_generation r)"
    using restored_generations[OF b0] assms(2) by blast
  from raised_generations[OF g this] show ?thesis by (simp add: b)
qed

lemma commit_keeps:
  assumes batch: "validateRestoreBatch a rs sq gn = Inr (b, bs)" and bound: "account_bounded x co"
    and by': "\<And>y. co_byAccountAndDecision co' y = (if y = a then Some (rb_byDecision b) else co_byAccountAndDecision co y)"
    and gen': "co_latestGeneration co' = (co_latestGeneration co)(a \<mapsto> rb_byGeneration b)"
    and id: "co_byAdmissionId co' = fold (\<lambda>(k, e). AList.update k e) (rb_byAdmissionIdEntries b) m"
    and keep: "\<And>k e. map_of m k = Some e \<Longrightarrow> map_of (co_byAdmissionId co) k = Some e"
    and own: "\<And>k e. map_of (co_byAdmissionId co) k = Some e \<Longrightarrow> ad_accountId (et_record e) = x \<Longrightarrow>
        x \<noteq> a \<and> k \<notin> ad_admissionId ` set rs \<and> map_of m k = Some e"
  shows "account_bounded x co' \<and> keeps_marks x co co'"
proof
  show "keeps_marks x co co'"
    unfolding keeps_marks_def
  proof (intro allI impI, elim conjE)
    fix k e
    assume e: "map_of (co_byAdmissionId co) k = Some e" and a: "ad_accountId (et_record e) = x"
    have "map_of (co_byAdmissionId co') k = Some e"
      using own[OF e a] by (simp add: id restored_ids(2)[OF batch])
    with a show "\<exists>e'. map_of (co_byAdmissionId co') k = Some e' \<and> ad_accountId (et_record e') = x
           \<and> (et_consumedByIntentId e \<noteq> None \<longrightarrow> et_consumedByIntentId e' = et_consumedByIntentId e)" by blast
  qed
  show "account_bounded x co'"
    unfolding account_bounded_def
  proof (intro allI impI, elim conjE)
    fix k e
    assume e: "map_of (co_byAdmissionId co') k = Some e" and a: "ad_accountId (et_record e) = x"
    show "co_byAccountAndDecision co' x \<noteq> None
        \<and> ad_generation (et_record e) \<le> watermark (co_latestGeneration co') x (ad_sourceStrategyDecisionId (et_record e))"
      using restored_ids(1)[OF batch e[unfolded id]]
    proof
      assume "\<exists>r\<in>set rs. k = ad_admissionId r \<and> e = restored_entry r"
      then obtain r where r: "r \<in> set rs" "e = restored_entry r" by blast
      from validated_batch(4)[OF batch r(1)] r a have "x = a" by simp
      then show ?thesis using validated_generations[OF batch r(1)] r(2) by (auto simp: by' gen' watermark_def)
    next
      assume "k \<notin> ad_admissionId ` set rs \<and> map_of m k = Some e"
      then have old: "map_of (co_byAdmissionId co) k = Some e" using keep by blast
      from own[OF this a] have "x \<noteq> a" by blast
      then show ?thesis using bound old a by (simp add: by' gen' account_bounded_def watermark_def)
    qed
  qed
qed

lemma other_account_ids:
  assumes "inj sha" and "coordinator_wf sha source_of co" and "\<forall>r\<in>set rs. record_genuine sha source_of r"
    and "validateRestoreBatch a rs sq gn = Inr (b, bs)"
    and "map_of (co_byAdmissionId co) k = Some e" and "ad_accountId (et_record e) \<noteq> a"
  shows "k \<notin> ad_admissionId ` set rs"
proof
  assume "k \<in> ad_admissionId ` set rs"
  then obtain r where r: "r \<in> set rs" "k = ad_admissionId r" by blast
  note W = coordinator_wfD(3)[OF assms(2,5)]
  have "ad_admissionId (et_record e) = ad_admissionId r" using W r(2) by simp
  from genuine_inject[OF assms(1) conjunct2[OF W] _ this] assms(3,6) r(1) validated_batch(4)[OF assms(4) r(1)]
  show False by auto
qed

lemma restore_keeps:
  assumes "inj sha" and wf: "coordinator_wf sha source_of co" and gen: "\<forall>r\<in>set rs. record_genuine sha source_of r"
    and run: "restoreLocked a rs sq gn co = Inr co'" and bound: "account_bounded x co"
  shows "account_bounded x co' \<and> keeps_marks x co co'"
proof -
  obtain b bs where none: "co_byAccountAndDecision co a = None" and b: "validateRestoreBatch a rs sq gn = Inr (b, bs)"
    and co': "co' = commit_batch a b bs co"
    using run by (auto simp: restoreLocked_def split: if_splits elim!: rbindE)
  show ?thesis
  proof (rule commit_keeps[OF b bound, of co' "co_byAdmissionId co"])
    fix k e
    assume e: "map_of (co_byAdmissionId co) k = Some e" and x: "ad_accountId (et_record e) = x"
    then have "x \<noteq> a" using bound none unfolding account_bounded_def by metis
    with other_account_ids[OF assms(1) wf gen b e] e x
    show "x \<noteq> a \<and> k \<notin> ad_admissionId ` set rs \<and> map_of (co_byAdmissionId co) k = Some e" by simp
  qed (simp_all add: co' commit_batch_def)
qed

lemma recover_keeps:
  assumes "inj sha" and wf: "coordinator_wf sha source_of co" and gen: "\<forall>r\<in>set rs. record_genuine sha source_of r"
    and run: "restoreAuthoritativeLocked a rs sq gn co = Inr co'" and bound: "account_bounded x co" and "x \<noteq> a"
  shows "account_bounded x co' \<and> keeps_marks x co co'"
proof -
  note W = coordinator_wfD[OF wf]
  let ?m = "fold (\<lambda>(_, e). AList.delete (ad_admissionId (et_record e))) (entries_of co a) (co_byAdmissionId co)"
  obtain b bs where b: "validateRestoreBatch a rs sq gn = Inr (b, bs)"
    and co': "co' = (commit_batch a b bs (co\<lparr>co_byAdmissionId := ?m\<rparr>))\<lparr>co_faultedAccounts := co_faultedAccounts co - {a}\<rparr>"
    using run by (auto simp: restoreAuthoritativeLocked_def Let_def elim!: rbindE)
  have m: "map_of ?m k = (if k \<in> (\<lambda>(_, e). ad_admissionId (et_record e)) ` set (entries_of co a) then None
      else map_of (co_byAdmissionId co) k)" for k
    by (rule map_of_deletes)
  show ?thesis
  proof (rule commit_keeps[OF b bound, of co' ?m])
    show "map_of (co_byAdmissionId co) k = Some e" if "map_of ?m k = Some e" for k e
      using that by (simp add: m split: if_splits)
  next
    fix k e
    assume e: "map_of (co_byAdmissionId co) k = Some e" and x: "ad_accountId (et_record e) = x"
    have "k \<noteq> ad_admissionId (et_record y)" if "(d, y) \<in> set (entries_of co a)" for d y
      using W(2)[OF map_of_is_SomeI[OF W(1) that]] e x \<open>x \<noteq> a\<close> by auto
    then have "map_of ?m k = Some e" using e by (auto simp: m)
    with other_account_ids[OF assms(1) wf gen b e] x \<open>x \<noteq> a\<close>
    show "x \<noteq> a \<and> k \<notin> ad_admissionId ` set rs \<and> map_of ?m k = Some e" by simp
  qed (simp_all add: co' commit_batch_def)
qed

text \<open>The runs in which one account is not recovered: every operation of the coordinator, the restoring of any
  account into an empty state and the recovery of every other account.\<close>

inductive unrecovered_step ::
    "(string \<Rightarrow> string) \<Rightarrow> decimal_js \<Rightarrow> (string \<Rightarrow> string) \<Rightarrow> (risk_context \<Rightarrow> (admission_error, risk_decision) res) set
     \<Rightarrow> string \<Rightarrow> coordinator \<Rightarrow> coordinator \<Rightarrow> bool"
  for sha :: "string \<Rightarrow> string" and D :: decimal_js and source_of :: "string \<Rightarrow> string"
    and engines :: "(risk_context \<Rightarrow> (admission_error, risk_decision) res) set" and account :: string
where
  runtime: "runtime_step sha D engines co co' \<Longrightarrow> unrecovered_step sha D source_of engines account co co'"
| restore: "\<forall>r\<in>set rs. record_genuine sha source_of r \<Longrightarrow> restoreLocked a rs sq gn co = Inr co' \<Longrightarrow>
    unrecovered_step sha D source_of engines account co co'"
| recover_other: "a \<noteq> account \<Longrightarrow> \<forall>r\<in>set rs. record_genuine sha source_of r \<Longrightarrow>
    restoreAuthoritativeLocked a rs sq gn co = Inr co' \<Longrightarrow> unrecovered_step sha D source_of engines account co co'"

lemma unrecovered_step_keeps:
  assumes "unrecovered_step sha D source_of engines x co co'" and "inj sha" and "\<forall>ev\<in>engines. engine_binds source_of ev"
    and "coordinator_wf sha source_of co" and "account_bounded x co"
  shows "coordinator_wf sha source_of co' \<and> account_bounded x co' \<and> keeps_marks x co co'"
  using assms(1)
proof (cases rule: unrecovered_step.cases)
  case runtime
  then show ?thesis using runtime_step_wf[OF _ assms(2-4)] runtime_step_keeps[OF _ assms(2-5)] by blast
next
  case (restore rs a sq gn)
  then show ?thesis using restore_wf[OF assms(2,4)] restore_keeps[OF assms(2,4) _ _ assms(5)] by blast
next
  case (recover_other a rs sq gn)
  then show ?thesis
    using restoreAuthoritative_wf[OF assms(2,4)] recover_keeps[OF assms(2,4) _ _ assms(5)] by blast
qed

lemma unrecovered_run_keeps:
  assumes "(unrecovered_step sha D source_of engines x)\<^sup>*\<^sup>* co co'" and "inj sha" and "\<forall>ev\<in>engines. engine_binds source_of ev"
    and "coordinator_wf sha source_of co" and "account_bounded x co"
  shows "coordinator_wf sha source_of co' \<and> account_bounded x co' \<and> keeps_marks x co co'"
  using assms(1)
proof (induction rule: rtranclp_induct)
  case base
  show ?case using assms(4,5) by (simp add: keeps_marks_refl)
next
  case (step y z)
  then show ?case
    using unrecovered_step_keeps[OF step.hyps(2) assms(2,3)] by (blast intro: keeps_marks_trans)
qed

lemma new_coordinator_bounded: "account_bounded x new_coordinator"
  by (simp add: account_bounded_def new_coordinator_def)

text \<open>After a recovery of the account every grant it was given back is consumable by any intent.\<close>

lemma recovered_consumable:
  assumes "restoreAuthoritativeLocked a rs sq gn co = Inr co'" and "k \<in> ad_admissionId ` set rs"
  shows "fst (consumeForLiveLocked a k j co') = CONSUMED"
proof -
  let ?m = "fold (\<lambda>(_, e). AList.delete (ad_admissionId (et_record e))) (entries_of co a) (co_byAdmissionId co)"
  obtain b bs where b: "validateRestoreBatch a rs sq gn = Inr (b, bs)"
    and co': "co' = (commit_batch a b bs (co\<lparr>co_byAdmissionId := ?m\<rparr>))\<lparr>co_faultedAccounts := co_faultedAccounts co - {a}\<rparr>"
    using assms(1) by (auto simp: restoreAuthoritativeLocked_def Let_def elim!: rbindE)
  obtain r where r: "r \<in> set rs" "map_of (co_byAdmissionId co') k = Some (restored_entry r)"
    using restored_ids(3)[OF b assms(2), of ?m] by (auto simp: co' commit_batch_def)
  have f: "a \<notin> co_faultedAccounts co'" by (simp add: co')
  show ?thesis using r(2) validated_batch(4)[OF b r(1)] f by (simp add: consumeForLiveLocked_def)
qed

subsection \<open>The overlay is the exact sum\<close>

definition keyed :: "(string \<times> rat) list \<Rightarrow> string \<Rightarrow> rat" where
  "keyed m k = (case map_of m k of None \<Rightarrow> 0 | Some v \<Rightarrow> v)"

definition keyed_text :: "(string \<times> string) list \<Rightarrow> string \<Rightarrow> rat" where
  "keyed_text m k = (case map_of m k of None \<Rightarrow> 0 | Some t \<Rightarrow> text_value t)"

definition granted :: "admission_record list \<Rightarrow> rat" where
  "granted rs = sum_list (map (\<lambda>r. text_value (ad_approvedNotionalInr r)) rs)"

text \<open>A pending state whose amounts are fixed-point texts and whose keys are those of an object.\<close>

definition pending_texts :: "pending_exposure \<Rightarrow> bool" where
  "pending_texts p =
     (case p of UNKNOWN \<Rightarrow> True
      | KNOWN k \<Rightarrow> signed_text (kp_globalPendingNotionalInr k) \<and> signed_text (kp_longInr k) \<and> signed_text (kp_shortInr k)
          \<and> distinct (map fst (kp_pairPendingNotionalInr k)) \<and> distinct (map fst (kp_strategyPendingNotionalInr k))
          \<and> (\<forall>v\<in>snd ` set (kp_pairPendingNotionalInr k) \<union> snd ` set (kp_strategyPendingNotionalInr k)
                \<union> pr_pendingNotionalInr ` set (kp_instancePendingReservations k). signed_text v))"

text \<open>What was known to be pending before.\<close>

definition known_value :: "(known_pending \<Rightarrow> rat) \<Rightarrow> pending_exposure \<Rightarrow> rat" where
  "known_value f p = (case p of UNKNOWN \<Rightarrow> 0 | KNOWN k \<Rightarrow> f k)"

definition totals_exact :: "pending_totals \<Rightarrow> bool" where
  "totals_exact t \<longleftrightarrow> decimal_fraction (tt_global t) \<and> decimal_fraction (tt_long t) \<and> decimal_fraction (tt_short t)
     \<and> (\<forall>v\<in>snd ` set (tt_pairs t) \<union> snd ` set (tt_strategies t) \<union> fst ` snd ` set (tt_instances t). decimal_fraction v)"

lemma set_update: "set (AList.update k v m) \<subseteq> insert (k, v) (set m)"
  by (induction m) auto

lemma keyed_update: "keyed (AList.update k v m) j = (if j = k then v else keyed m j)"
  by (simp add: keyed_def update_conv)

lemma keyed_fraction: "\<forall>v\<in>snd ` set m. decimal_fraction v \<Longrightarrow> decimal_fraction (keyed m k)"
  by (auto simp: keyed_def split: option.split dest!: map_of_SomeD)

lemma keyed_case: "(case map_of m k of None \<Rightarrow> 0 | Some v \<Rightarrow> v) = keyed m k"
  by (simp add: keyed_def)

lemma fold_updates_map:
  "distinct (map fst xs) \<Longrightarrow> fst ` set xs \<inter> fst ` set m = {} \<Longrightarrow>
   fold (\<lambda>(p, v). AList.update p (f v)) xs m = m @ map (\<lambda>(p, v). (p, f v)) xs"
proof (induction xs arbitrary: m)
  case (Cons x xs)
  obtain p v where x: "x = (p, v)" by (cases x)
  have "map_of m p = None" using Cons.prems(2) by (auto simp: x map_of_eq_None_iff)
  then have u: "AList.update p (f v) m = m @ [(p, f v)]" by (rule update_new)
  have "fst ` set xs \<inter> fst ` set (m @ [(p, f v)]) = {}" using Cons.prems by (auto simp: x)
  from Cons.IH[OF _ this] show ?case using Cons.prems(1) by (simp add: x u)
qed simp

lemma keyed_map: "keyed (map (\<lambda>(p, v). (p, text_value v)) m) k = keyed_text m k"
  by (induction m) (auto simp: keyed_def keyed_text_def)

lemma fold_instances_fraction:
  assumes "\<forall>v\<in>fst ` snd ` set m. decimal_fraction v" and "\<forall>r\<in>set rs. decimal_fraction (f r)"
  shows "\<forall>v\<in>fst ` snd ` set (fold (\<lambda>r. AList.update (g r) (f r, h r)) rs m). decimal_fraction v"
  using assms
proof (induction rs arbitrary: m)
  case (Cons r rs)
  have "\<forall>v\<in>fst ` snd ` set (AList.update (g r) (f r, h r) m). decimal_fraction v"
    using set_update[of "g r" "(f r, h r)" m] Cons.prems by fastforce
  with Cons show ?case by simp
qed simp

context decimal_lib
begin

lemma add_admitted_exact:
  assumes t: "totals_exact t" and r: "signed_text (ad_approvedNotionalInr r)"
  defines "v \<equiv> text_value (ad_approvedNotionalInr r)"
  shows "tt_global (add_admitted D r t) = tt_global t + v"
    and "tt_long (add_admitted D r t) = tt_long t + (if ad_direction r = LONG then v else 0)"
    and "tt_short (add_admitted D r t) = tt_short t + (if ad_direction r = LONG then 0 else v)"
    and "tt_count (add_admitted D r t) = tt_count t + 1"
    and "keyed (tt_pairs (add_admitted D r t)) p = keyed (tt_pairs t) p + (if ad_pair r = p then v else 0)"
    and "keyed (tt_strategies (add_admitted D r t)) p = keyed (tt_strategies t) p + (if ad_strategyId r = p then v else 0)"
    and "totals_exact (add_admitted D r t)"
proof -
  have f: "decimal_fraction (tt_global t)" "decimal_fraction (tt_long t)" "decimal_fraction (tt_short t)"
    "decimal_fraction (keyed (tt_pairs t) p)" "decimal_fraction (keyed (tt_strategies t) p)" for p
    using t by (auto simp: totals_exact_def intro!: keyed_fraction)
  have c: "(case map_of m k of None \<Rightarrow> riskDecimal D ''0'' | Some v \<Rightarrow> v) = keyed m k" for m k
    by (simp add: keyed_def riskDecimal_0 split: option.split)
  note P = risk_plus_exact(1)[OF _ r]
  show "tt_global (add_admitted D r t) = tt_global t + v"
    "tt_long (add_admitted D r t) = tt_long t + (if ad_direction r = LONG then v else 0)"
    "tt_short (add_admitted D r t) = tt_short t + (if ad_direction r = LONG then 0 else v)"
    "tt_count (add_admitted D r t) = tt_count t + 1"
    "keyed (tt_pairs (add_admitted D r t)) p = keyed (tt_pairs t) p + (if ad_pair r = p then v else 0)"
    "keyed (tt_strategies (add_admitted D r t)) p = keyed (tt_strategies t) p + (if ad_strategyId r = p then v else 0)"
    by (simp_all add: add_admitted_def Let_def split_beta P f c keyed_update v_def)
  have s: "decimal_fraction (x + v)" if "decimal_fraction x" for x
    using risk_plus_exact(2)[OF that r] by (simp add: v_def)
  have up: "\<forall>x\<in>g ` set (AList.update k y m). decimal_fraction x"
    if "\<forall>x\<in>g ` set m. decimal_fraction x" "decimal_fraction (g (k, y))" for g :: "string \<times> 'k \<Rightarrow> rat" and k y m
    using set_update[of k y m] that by blast
  have T: "\<forall>x\<in>snd ` set (tt_pairs t). decimal_fraction x" "\<forall>x\<in>snd ` set (tt_strategies t). decimal_fraction x"
    "\<forall>x\<in>(fst \<circ> snd) ` set (tt_instances t). decimal_fraction x"
    using t unfolding totals_exact_def by (auto simp: image_comp)
  have pairs: "tt_pairs (add_admitted D r t) = AList.update (ad_pair r) (keyed (tt_pairs t) (ad_pair r) + v) (tt_pairs t)"
    "tt_strategies (add_admitted D r t) =
      AList.update (ad_strategyId r) (keyed (tt_strategies t) (ad_strategyId r) + v) (tt_strategies t)"
    by (simp_all add: add_admitted_def Let_def split_beta P f c v_def)
  obtain n m rest where inst: "tt_instances (add_admitted D r t) =
      AList.update (ad_strategyInstanceId r) (risk_plus D n (ad_approvedNotionalInr r), m + 1, rest) (tt_instances t)"
    and n: "decimal_fraction n"
  proof (cases "map_of (tt_instances t) (ad_strategyInstanceId r)")
    case None
    then show thesis by (intro that[of 0 0]) (simp_all add: add_admitted_def Let_def riskDecimal_0)
  next
    case (Some y)
    obtain n m rest where y: "y = (n, m, rest)" by (cases y) auto
    have "(ad_strategyInstanceId r, n, m, rest) \<in> set (tt_instances t)" using Some y by (simp add: map_of_SomeD)
    then have "decimal_fraction n" using T(3) by force
    then show thesis using Some y by (intro that[of n m]) (simp_all add: add_admitted_def Let_def)
  qed
  have "\<forall>x\<in>snd ` set (tt_pairs (add_admitted D r t)). decimal_fraction x"
    unfolding pairs by (rule up[OF T(1)]) (simp add: s f)
  moreover have "\<forall>x\<in>snd ` set (tt_strategies (add_admitted D r t)). decimal_fraction x"
    unfolding pairs by (rule up[OF T(2)]) (simp add: s f)
  moreover have "\<forall>x\<in>(fst \<circ> snd) ` set (tt_instances (add_admitted D r t)). decimal_fraction x"
    unfolding inst by (rule up[OF T(3)]) (simp add: P[OF n] s n flip: v_def)
  moreover have "decimal_fraction (tt_global (add_admitted D r t))" "decimal_fraction (tt_long (add_admitted D r t))"
    "decimal_fraction (tt_short (add_admitted D r t))"
    by (simp_all add: add_admitted_def Let_def split_beta P f s flip: v_def)
  ultimately show "totals_exact (add_admitted D r t)" by (auto simp: totals_exact_def image_comp)
qed

lemma fold_admitted_exact:
  assumes "totals_exact t" and "\<forall>r\<in>set rs. signed_text (ad_approvedNotionalInr r)"
  defines "t' \<equiv> fold (add_admitted D) rs t"
  shows "tt_global t' = tt_global t + granted rs
    \<and> tt_long t' = tt_long t + granted (filter (\<lambda>r. ad_direction r = LONG) rs)
    \<and> tt_short t' = tt_short t + granted (filter (\<lambda>r. ad_direction r \<noteq> LONG) rs)
    \<and> tt_count t' = tt_count t + int (length rs)
    \<and> (\<forall>p. keyed (tt_pairs t') p = keyed (tt_pairs t) p + granted (filter (\<lambda>r. ad_pair r = p) rs))
    \<and> (\<forall>p. keyed (tt_strategies t') p = keyed (tt_strategies t) p + granted (filter (\<lambda>r. ad_strategyId r = p) rs))
    \<and> totals_exact t'"
  unfolding t'_def using assms(1,2)
proof (induction rs arbitrary: t)
  case Nil
  then show ?case by (simp add: granted_def)
next
  case (Cons r rs)
  have r: "signed_text (ad_approvedNotionalInr r)" and rs: "\<forall>r\<in>set rs. signed_text (ad_approvedNotionalInr r)"
    using Cons.prems(2) by simp_all
  note A = add_admitted_exact[OF Cons.prems(1) r]
  show ?case using Cons.IH[OF A(7) rs] by (simp add: A(1-6) granted_def)
qed

lemma canonical_total_Inr:
  assumes "decimal_fraction v"
  obtains c where "canonical_total D v = Inr c" and "text_value c = v" and "normal_text c"
proof -
  have s: "signed_text (dfixed D v)" by (rule normal_signed_text[OF dfixed_normal[OF assms]])
  show thesis
    by (rule that[of "normalize_text (dfixed D v)"])
      (simp_all add: canonical_total_def canonicalDecimalString_signed[OF s] riskR_def normalize_text_value[OF s]
        dfixed_value[OF assms] normalize_text_normal[OF s])
qed

lemma canonical_members_Inr:
  assumes "\<forall>v\<in>snd ` set m. decimal_fraction v"
  obtains c where "canonical_members D m = Inr c" and "map fst c = map fst m" and "\<And>k. keyed_text c k = keyed m k"
    and "\<forall>t\<in>snd ` set c. normal_text t"
  using assms
proof (induction m arbitrary: thesis)
  case Nil
  show ?case by (rule Nil.prems(1)[of "[]"]) (simp_all add: canonical_members_def keyed_def keyed_text_def)
next
  case (Cons x m)
  obtain k v where x: "x = (k, v)" by (cases x)
  obtain c where c: "canonical_total D v = Inr c" "text_value c = v" "normal_text c"
    using canonical_total_Inr[of v] Cons.prems(2) x by auto
  obtain cs where cs: "canonical_members D m = Inr cs" "map fst cs = map fst m" "\<And>k. keyed_text cs k = keyed m k"
    "\<forall>t\<in>snd ` set cs. normal_text t"
    using Cons.IH Cons.prems(2) by auto
  show ?case
  proof (rule Cons.prems(1)[of "(k, c) # cs"])
    show "keyed_text ((k, c) # cs) j = keyed (x # m) j" for j
      using cs(3)[of j] c(2) by (simp add: keyed_text_def keyed_def x)
  qed (use c cs x in \<open>simp_all add: canonical_members_def\<close>)
qed

end

context decimal_lib
begin

lemma totals_exact_base:
  assumes "pending_texts p"
  shows "totals_exact (base_totals D p)"
    and "tt_global (base_totals D p) = known_value (\<lambda>k. text_value (kp_globalPendingNotionalInr k)) p"
    and "tt_long (base_totals D p) = known_value (\<lambda>k. text_value (kp_longInr k)) p"
    and "tt_short (base_totals D p) = known_value (\<lambda>k. text_value (kp_shortInr k)) p"
    and "tt_count (base_totals D p) = (case p of UNKNOWN \<Rightarrow> 0 | KNOWN k \<Rightarrow> kp_pendingReservationCount k)"
    and "keyed (tt_pairs (base_totals D p)) x = known_value (\<lambda>k. keyed_text (kp_pairPendingNotionalInr k) x) p"
    and "keyed (tt_strategies (base_totals D p)) x = known_value (\<lambda>k. keyed_text (kp_strategyPendingNotionalInr k) x) p"
proof -
  have members: "fold (\<lambda>(p, v). AList.update p (riskDecimal D v)) m [] = map (\<lambda>(p, v). (p, text_value v)) m"
    if "distinct (map fst m)" "\<forall>v\<in>snd ` set m. signed_text v" for m
  proof -
    have "fold (\<lambda>(p, v). AList.update p (riskDecimal D v)) m [] = map (\<lambda>(p, v). (p, riskDecimal D v)) m"
      using fold_updates_map[OF that(1), of "[]" "riskDecimal D"] by simp
    also have "\<dots> = map (\<lambda>(p, v). (p, text_value v)) m"
      using that(2) by (auto simp: riskDecimal_signed)
    finally show ?thesis .
  qed
  have all: "totals_exact (base_totals D p)
    \<and> tt_global (base_totals D p) = known_value (\<lambda>k. text_value (kp_globalPendingNotionalInr k)) p
    \<and> tt_long (base_totals D p) = known_value (\<lambda>k. text_value (kp_longInr k)) p
    \<and> tt_short (base_totals D p) = known_value (\<lambda>k. text_value (kp_shortInr k)) p
    \<and> tt_count (base_totals D p) = (case p of UNKNOWN \<Rightarrow> 0 | KNOWN k \<Rightarrow> kp_pendingReservationCount k)
    \<and> keyed (tt_pairs (base_totals D p)) x = known_value (\<lambda>k. keyed_text (kp_pairPendingNotionalInr k) x) p
    \<and> keyed (tt_strategies (base_totals D p)) x = known_value (\<lambda>k. keyed_text (kp_strategyPendingNotionalInr k) x) p"
  proof (cases p)
    case (KNOWN k)
    note p = assms[unfolded KNOWN pending_texts_def pending_exposure.case]
    have m: "fold (\<lambda>(p, v). AList.update p (riskDecimal D v)) (kp_pairPendingNotionalInr k) [] =
        map (\<lambda>(p, v). (p, text_value v)) (kp_pairPendingNotionalInr k)"
      "fold (\<lambda>(p, v). AList.update p (riskDecimal D v)) (kp_strategyPendingNotionalInr k) [] =
        map (\<lambda>(p, v). (p, text_value v)) (kp_strategyPendingNotionalInr k)"
      using p by (auto intro!: members)
    have i: "\<forall>v\<in>fst ` snd ` set (fold (\<lambda>r. AList.update (pr_strategyInstanceId r)
        (riskDecimal D (pr_pendingNotionalInr r), pr_pendingReservationCount r, pr_strategyId r,
         pr_strategyVersion r, pr_parameterHash r)) (kp_instancePendingReservations k) []). decimal_fraction v"
      by (rule fold_instances_fraction) (use p in \<open>auto simp: riskDecimal_signed\<close>)
    have "totals_exact (base_totals D (KNOWN k))"
      using p i by (auto simp: totals_exact_def base_totals_def m riskDecimal_signed)
    moreover have "riskDecimal D (kp_globalPendingNotionalInr k) = text_value (kp_globalPendingNotionalInr k)"
      "riskDecimal D (kp_longInr k) = text_value (kp_longInr k)" "riskDecimal D (kp_shortInr k) = text_value (kp_shortInr k)"
      using p by (simp_all add: riskDecimal_signed)
    ultimately show ?thesis unfolding KNOWN by (simp add: base_totals_def known_value_def m keyed_map)
  qed (simp add: totals_exact_def base_totals_def known_value_def riskDecimal_0 keyed_def)
  then show "totals_exact (base_totals D p)"
    "tt_global (base_totals D p) = known_value (\<lambda>k. text_value (kp_globalPendingNotionalInr k)) p"
    "tt_long (base_totals D p) = known_value (\<lambda>k. text_value (kp_longInr k)) p"
    "tt_short (base_totals D p) = known_value (\<lambda>k. text_value (kp_shortInr k)) p"
    "tt_count (base_totals D p) = (case p of UNKNOWN \<Rightarrow> 0 | KNOWN k \<Rightarrow> kp_pendingReservationCount k)"
    "keyed (tt_pairs (base_totals D p)) x = known_value (\<lambda>k. keyed_text (kp_pairPendingNotionalInr k) x) p"
    "keyed (tt_strategies (base_totals D p)) x = known_value (\<lambda>k. keyed_text (kp_strategyPendingNotionalInr k) x) p"
    by blast+
qed

lemma pending_instances_Inr:
  assumes "\<forall>v\<in>fst ` snd ` set m. decimal_fraction v"
  shows "\<exists>c. mapR (\<lambda>(i, n, c, s, v, h). rbind (canonical_total D n) (\<lambda>notional.
                  Inr \<lparr>pr_strategyInstanceId = i, pr_strategyId = s, pr_strategyVersion = v,
                       pr_parameterHash = h, pr_pendingNotionalInr = notional, pr_pendingReservationCount = c\<rparr>)) m = Inr c"
  using assms
proof (induction m)
  case (Cons x m)
  obtain i n c s v h where x: "x = (i, n, c, s, v, h)" by (cases x) auto
  obtain t where "canonical_total D n = Inr t" using canonical_total_Inr[of n] Cons.prems x by auto
  then show ?case using Cons x by auto
qed simp

lemma buildPending_Inr:
  assumes "pending_texts base" and "\<forall>r\<in>set rs. signed_text (ad_approvedNotionalInr r)"
  obtains k where "buildPending D base rs = Inr (KNOWN k)"
    and "text_value (kp_globalPendingNotionalInr k) = known_value (\<lambda>k. text_value (kp_globalPendingNotionalInr k)) base + granted rs"
    and "text_value (kp_longInr k) = known_value (\<lambda>k. text_value (kp_longInr k)) base
      + granted (filter (\<lambda>r. ad_direction r = LONG) rs)"
    and "text_value (kp_shortInr k) = known_value (\<lambda>k. text_value (kp_shortInr k)) base
      + granted (filter (\<lambda>r. ad_direction r \<noteq> LONG) rs)"
    and "kp_pendingReservationCount k = (case base of UNKNOWN \<Rightarrow> 0 | KNOWN k \<Rightarrow> kp_pendingReservationCount k) + int (length rs)"
    and "\<forall>p. keyed_text (kp_pairPendingNotionalInr k) p = known_value (\<lambda>k. keyed_text (kp_pairPendingNotionalInr k) p) base
      + granted (filter (\<lambda>r. ad_pair r = p) rs)"
    and "\<forall>p. keyed_text (kp_strategyPendingNotionalInr k) p = known_value (\<lambda>k. keyed_text (kp_strategyPendingNotionalInr k) p) base
      + granted (filter (\<lambda>r. ad_strategyId r = p) rs)"
proof -
  note B = totals_exact_base[OF assms(1)]
  define t where "t = fold (add_admitted D) rs (base_totals D base)"
  note F = fold_admitted_exact[OF B(1) assms(2), folded t_def]
  have ok: "decimal_fraction (tt_global t)" "decimal_fraction (tt_long t)" "decimal_fraction (tt_short t)"
    "\<forall>v\<in>snd ` set (tt_pairs t). decimal_fraction v" "\<forall>v\<in>snd ` set (tt_strategies t). decimal_fraction v"
    "\<forall>v\<in>fst ` snd ` set (tt_instances t). decimal_fraction v"
    using F unfolding totals_exact_def by blast+
  obtain g where g: "canonical_total D (tt_global t) = Inr g" "text_value g = tt_global t"
    by (rule canonical_total_Inr[OF ok(1)])
  obtain l where l: "canonical_total D (tt_long t) = Inr l" "text_value l = tt_long t"
    by (rule canonical_total_Inr[OF ok(2)])
  obtain s where s: "canonical_total D (tt_short t) = Inr s" "text_value s = tt_short t"
    by (rule canonical_total_Inr[OF ok(3)])
  obtain ps where ps: "canonical_members D (tt_pairs t) = Inr ps" "\<And>k. keyed_text ps k = keyed (tt_pairs t) k"
    by (rule canonical_members_Inr[OF ok(4)]) (rule that, assumption+)
  obtain ss where ss: "canonical_members D (tt_strategies t) = Inr ss" "\<And>k. keyed_text ss k = keyed (tt_strategies t) k"
    by (rule canonical_members_Inr[OF ok(5)]) (rule that, assumption+)
  obtain iss where iss: "mapR (\<lambda>(i, n, c, s, v, h). rbind (canonical_total D n) (\<lambda>notional.
                  Inr \<lparr>pr_strategyInstanceId = i, pr_strategyId = s, pr_strategyVersion = v,
                       pr_parameterHash = h, pr_pendingNotionalInr = notional, pr_pendingReservationCount = c\<rparr>)) (tt_instances t) = Inr iss"
    using pending_instances_Inr[OF ok(6)] by blast
  let ?k = "\<lparr>kp_globalPendingNotionalInr = g, kp_pairPendingNotionalInr = ps,
          kp_strategyPendingNotionalInr = ss, kp_instancePendingReservations = iss,
          kp_pendingReservationCount = tt_count t, kp_longInr = l, kp_shortInr = s\<rparr>"
  have run: "buildPending D base rs = Inr (KNOWN ?k)"
    unfolding buildPending_def t_def[symmetric] Let_def by (simp only: g(1) l(1) s(1) ps(1) ss(1) iss rbind_Inr)
  show thesis
    by (rule that[OF run]) (use F B(2-) in \<open>simp_all add: g(2) l(2) s(2) ps(2) ss(2)\<close>)
qed

end

subsection \<open>A sample\<close>

text \<open>An engine that accepts every decision, naming it in the identity of its own decision.\<close>

definition sample_decision :: "string \<Rightarrow> accepted_open_decision" where
  "sample_decision d =
     (\<lparr>db_riskDecisionId = CHR ''r'' # d, db_riskPolicyId = ''r'', db_sourceStrategyDecisionId = d,
       db_sourcePositionSizingDecisionId = ''z'', db_strategyId = ''s'', db_strategyVersion = ''1'', db_parameterHash = ''h'',
       db_strategyInstanceId = ''i'', db_pair = ''B'', db_riskMode = SAFE, db_evaluationTimeMs = 1,
       db_capsApplied = \<lparr>cp_riskPerTradePercentApplied = UNRESOLVED, cp_maxNotionalPerTradeInrApplied = UNRESOLVED,
         cp_requestedLeverage = UNRESOLVED, cp_modeRecommendedLeverage = UNRESOLVED, cp_exchangeMaxLeverage = UNRESOLVED,
         cp_tierMaxLeverage = UNRESOLVED, cp_accountMaxLeverage = UNRESOLVED, cp_pairMaxLeverage = UNRESOLVED,
         cp_globalMaxLeverage = UNRESOLVED, cp_finalLeverage = UNRESOLVED\<rparr>,
       db_auditTrail = [],
       db_inputContentHashes = \<lparr>ch_accountSnapshotSha256 = None, ch_pairSnapshotSha256 = [], ch_exposureSnapshotSha256 = None,
         ch_leverageTierSnapshotSha256 = None, ch_settlementRateSnapshotSha256 = None\<rparr>\<rparr>,
      \<lparr>ap_approvedQuantity = ''1'', ap_approvedLeverage = ''2'', ap_approvedNotionalUsdt = ''5'', ap_approvedNotionalInr = ''10.5'',
       ap_estimatedInitialMarginUsdt = ''2.5'', ap_estimatedInitialMarginInr = ''5.25'', ap_estimatedStopLossRiskInr = ''1''\<rparr>)"

lemma sample_decision_fields [simp]:
  "ao_riskDecisionId (sample_decision d) = CHR ''r'' # d" "ao_approvedNotionalInr (sample_decision d) = ''10.5''"
  "ao_estimatedInitialMarginInr (sample_decision d) = ''5.25''"
  by (simp_all add: sample_decision_def ao_riskDecisionId_def ao_approvedNotionalInr_def ao_estimatedInitialMarginInr_def)

definition sample_engine :: "risk_context \<Rightarrow> (admission_error, risk_decision) res" where
  "sample_engine ctx = Inr (ACCEPTED_OPEN (sample_decision (sd_decisionId (rc_strategyDecision ctx))))"

definition sample_request :: "string \<Rightarrow> int \<Rightarrow> admission_request" where
  "sample_request d n = \<lparr>rq_accountId = ''a'',
     rq_context = \<lparr>rc_strategyOrigin = None,
       rc_candidate = sample_risk_candidate\<lparr>cd_strategyDecision := \<lparr>sd_decisionId = d, sd_decisionSequence = n,
         sd_strategyInstanceId = ''i'', sd_strategyId = ''s'', sd_strategyVersion = ''1'', sd_parameterHash = ''h'', sd_pair = ''B'',
         sd_evaluationTimeMs = 1, sd_triggerTimeframeMinutes = 5, sd_status = READY,
         sd_targetExposure = Some TARGET_LONG, sd_reasonCodes = []\<rparr>\<rparr>,
       rc_entryStopProposal = None, rc_leverageProposal = None, rc_override = None, rc_evaluationTimeMs = 1,
       rc_expectedRiskPolicyId = None, rc_accountSnapshot = Some sample_account, rc_pairSnapshot = sample_pair,
       rc_exposureSnapshot = None, rc_leverageTierSnapshot = None, rc_settlementRateSnapshot = None\<rparr>\<rparr>"

definition sample_grant :: "string \<Rightarrow> int \<Rightarrow> int \<Rightarrow> admission_record" where
  "sample_grant d n g = \<lparr>ad_admissionId = raw_text (json_norm (JObject (identity_fields
        \<lparr>ad_admissionId = [], ad_generation = g, ad_accountId = ''a'', ad_riskDecisionId = CHR ''r'' # d,
         ad_sourceStrategyDecisionId = d, ad_strategyInstanceId = ''i'', ad_strategyId = ''s'', ad_strategyVersion = ''1'',
         ad_parameterHash = ''h'', ad_pair = ''B'', ad_decisionSequence = n, ad_direction = LONG,
         ad_approvedNotionalInr = ''10.5'', ad_approvedMarginInr = ''5.25'', ad_status = ADMITTED\<rparr>))),
     ad_generation = g, ad_accountId = ''a'', ad_riskDecisionId = CHR ''r'' # d,
     ad_sourceStrategyDecisionId = d, ad_strategyInstanceId = ''i'', ad_strategyId = ''s'', ad_strategyVersion = ''1'',
     ad_parameterHash = ''h'', ad_pair = ''B'', ad_decisionSequence = n, ad_direction = LONG,
     ad_approvedNotionalInr = ''10.5'', ad_approvedMarginInr = ''5.25'', ad_status = ADMITTED\<rparr>"

lemma sample_engine_binds: "engine_binds tl sample_engine"
  by (simp add: engine_binds_def sample_engine_def)

lemma sample_identity:
  assumes "isSafeInteger g" and "identity_fields r = identity_fields (sample_grant d n g)"
  shows "admission_identity (\<lambda>t. t) r = Inr (ad_admissionId (sample_grant d n g))"
proof -
  have j: "json_supported (JObject (identity_fields (sample_grant d n g)))"
    using assms(1) by (simp add: identity_fields_def sample_grant_def)
  have "ad_admissionId (sample_grant d n g) = raw_text (json_norm (JObject (identity_fields (sample_grant d n g))))"
    by (simp only: sample_grant_def identity_fields_def admission_record.simps)
  then have c: "canonicalJson (JObject (identity_fields (sample_grant d n g))) = Inr (ad_admissionId (sample_grant d n g))"
    unfolding canonicalJson_eq_Inr using j by blast
  show ?thesis
    unfolding admission_identity_def identity_fields_def[of r, symmetric] assms(2)
    by (simp only: digestR_def sha256CanonicalJson_def c rbind_Inr sum.case)
qed

lemma sample_admits:
  assumes "isSafeInteger (next_generation co ''a'' d)" and "''a'' \<notin> co_faultedAccounts co"
    and "\<And>e. map_of (entries_of co ''a'') d = Some e \<Longrightarrow> ad_status (et_record e) = RELEASED"
    and "\<not> n < watermark (co_latestAdmittedSequence co) ''a'' ''i''"
  defines "r \<equiv> sample_grant d n (next_generation co ''a'' d)"
  shows "admitLocked (\<lambda>t. t) D sample_engine (sample_request d n) co =
    Inr (OUT_ADMITTED (sample_decision d) r, record_admission r (sample_decision d) co)"
proof -
  let ?d = "rc_strategyDecision (rq_context (sample_request d n))"
  have k: "admission_identity (\<lambda>t. t) (admission_draft co ''a'' ?d LONG (sample_decision d)) = Inr (ad_admissionId r)"
    unfolding r_def
    by (rule sample_identity[OF assms(1)])
      (simp add: identity_fields_def sample_grant_def admission_draft_def sample_request_def)
  have r: "(admission_draft co ''a'' ?d LONG (sample_decision d))\<lparr>ad_admissionId := ad_admissionId r\<rparr> = r"
    by (simp add: r_def sample_grant_def admission_draft_def sample_request_def)
  have q: "rq_accountId (sample_request d n) = ''a''" "sd_decisionId ?d = d" "sd_decisionSequence ?d = n"
    "sd_strategyInstanceId ?d = ''i''" "sd_targetExposure ?d = Some TARGET_LONG"
    "overlayPending (\<lambda>t. t) D co ''a'' (rq_context (sample_request d n)) None = Inr (rq_context (sample_request d n))"
    "sample_engine (rq_context (sample_request d n)) = Inr (ACCEPTED_OPEN (sample_decision d))"
    by (simp_all add: sample_request_def overlayPending_def sample_engine_def)
  have "admitFresh (\<lambda>t. t) D sample_engine ''a'' (rq_context (sample_request d n)) co =
      Inr (OUT_ADMITTED (sample_decision d) r, record_admission r (sample_decision d) co)"
    using assms(4) by (simp add: admitFresh_def Let_def q k r)
  then show ?thesis
    using assms(2,3) by (auto simp: admitLocked_def Let_def q split: option.split)
qed

definition sample_admitted :: coordinator where
  "sample_admitted = record_admission (sample_grant ''d'' 1 1) (sample_decision ''d'') new_coordinator"

lemma sample_first:
  "admitLocked (\<lambda>t. t) D sample_engine (sample_request ''d'' 1) new_coordinator =
    Inr (OUT_ADMITTED (sample_decision ''d'') (sample_grant ''d'' 1 1), sample_admitted)"
proof -
  have g: "next_generation new_coordinator ''a'' ''d'' = 1"
    by (simp add: next_generation_def new_coordinator_def entries_of_def watermark_def)
  show ?thesis
    unfolding sample_admitted_def
    by (rule sample_admits[of new_coordinator "''d''" 1, unfolded g])
      (simp_all add: new_coordinator_def entries_of_def watermark_def isSafeInteger_def)
qed

theorem admitted_once_witness:
  "admission_reachable (\<lambda>t. t) (half_up 128) tl {sample_engine} sample_admitted
    \<and> set (admitted_records sample_admitted ''a'' None) =
        {et_record e | k e. map_of (co_byAdmissionId sample_admitted) k = Some e \<and> ad_status (et_record e) = ADMITTED
           \<and> ad_accountId (et_record e) = ''a''}
    \<and> admitted_records sample_admitted ''a'' None = [sample_grant ''d'' 1 1]"
proof -
  have r: "admission_reachable (\<lambda>t. t) (half_up 128) tl {sample_engine} sample_admitted"
    by (rule admission_reachable.step[OF admission_reachable.start
          admission_step.runtime[OF runtime_step.admit[OF singletonI sample_first]]])
  have "inj (\<lambda>t::string. t)" "\<forall>ev\<in>{sample_engine}. engine_binds tl ev"
    using sample_engine_binds by simp_all
  note P = admitted_once[OF r this, of "''a''"]
  have "entries_of sample_admitted ''a'' =
      [(''d'', \<lparr>et_record = sample_grant ''d'' 1 1, et_decision = Some (sample_decision ''d''), et_consumedByIntentId = None\<rparr>)]"
    by (simp add: entries_of_def sample_admitted_def record_admission_def Let_def sample_grant_def new_coordinator_def
        del: json_norm.simps raw_text.simps)
  then have "admitted_records sample_admitted ''a'' None = [sample_grant ''d'' 1 1]"
    by (simp add: admitted_records_def) (simp add: sample_grant_def)
  with r P show ?thesis by blast
qed

subsection \<open>Properties of grants and their consumption\<close>

text \<open>A grant is only ever answered in one of two ways: it is the current admitted grant of the decision,
  unchanged, or it is new, of a generation after every generation known for the decision, not older
  than the latest admitted decision of its strategy instance, and both watermarks move to it. Every
  other answer leaves the state alone.\<close>

theorem grant_current_or_next:
  assumes "admitLocked sha D ev rq co = Inr (out, co')"
  defines "a \<equiv> rq_accountId rq" and "d \<equiv> rc_strategyDecision (rq_context rq)"
  shows "case out of
      OUT_ADMITTED o' r \<Rightarrow>
        (\<exists>e. map_of (entries_of co a) (sd_decisionId d) = Some e \<and> et_record e = r \<and> ad_status r = ADMITTED
           \<and> co_latestGeneration co' = co_latestGeneration co)
        \<or> (watermark (co_latestGeneration co) a (sd_decisionId d) < ad_generation r
           \<and> (\<forall>e. map_of (entries_of co a) (sd_decisionId d) = Some e \<longrightarrow> ad_generation (et_record e) < ad_generation r)
           \<and> watermark (co_latestAdmittedSequence co) a (sd_strategyInstanceId d) \<le> ad_decisionSequence r
           \<and> watermark (co_latestGeneration co') a (sd_decisionId d) = ad_generation r
           \<and> watermark (co_latestAdmittedSequence co') a (sd_strategyInstanceId d) = ad_decisionSequence r
           \<and> map_of (co_byAdmissionId co') (ad_admissionId r) =
               Some \<lparr>et_record = r, et_decision = Some o', et_consumedByIntentId = None\<rparr>)
    | _ \<Rightarrow> co' = co"
  using assms(1)
proof (cases rule: admitLocked_Inr)
  case kept
  then show ?thesis by (cases out) (auto simp: a_def d_def)
next
  case (healed e o')
  then show ?thesis by (auto simp: a_def d_def)
next
  case fresh
  from fresh(1) show ?thesis
  proof (cases rule: admitFresh_Inr)
    case kept
    then show ?thesis by (cases out) auto
  next
    case (fresh o' dir k r ctx')
    have r: "ad_accountId r = a" "ad_sourceStrategyDecisionId r = sd_decisionId d" "ad_strategyInstanceId r = sd_strategyInstanceId d"
      "ad_decisionSequence r = sd_decisionSequence d" "ad_generation r = next_generation co a (sd_decisionId d)"
      by (simp_all add: fresh(1) admission_draft_def a_def d_def)
    have "watermark (co_latestGeneration co) a (sd_decisionId d) < ad_generation r"
      "\<forall>e. map_of (entries_of co a) (sd_decisionId d) = Some e \<longrightarrow> ad_generation (et_record e) < ad_generation r"
      by (auto simp: r next_generation_def)
    moreover have "watermark (co_latestAdmittedSequence co) a (sd_strategyInstanceId d) \<le> ad_decisionSequence r"
      using fresh(7) by (simp add: r a_def d_def)
    moreover have "watermark (co_latestGeneration co') a (sd_decisionId d) = ad_generation r"
      "watermark (co_latestAdmittedSequence co') a (sd_strategyInstanceId d) = ad_decisionSequence r"
      "map_of (co_byAdmissionId co') (ad_admissionId r) =
               Some \<lparr>et_record = r, et_decision = Some o', et_consumedByIntentId = None\<rparr>"
      by (simp_all add: fresh(4) record_admission_def Let_def watermark_raise r(1-4) update_conv)
    ultimately show ?thesis by (simp add: fresh(3))
  qed
qed

theorem grant_current_or_next_witness:
  "admitLocked (\<lambda>t. t) (half_up 128) sample_engine (sample_request ''d'' 1) new_coordinator =
     Inr (OUT_ADMITTED (sample_decision ''d'') (sample_grant ''d'' 1 1), sample_admitted)
   \<and> watermark (co_latestGeneration sample_admitted) ''a'' ''d'' = 1"
proof -
  have q: "rq_accountId (sample_request ''d'' 1) = ''a''"
    "sd_decisionId (rc_strategyDecision (rq_context (sample_request ''d'' 1))) = ''d''"
    by (simp_all add: sample_request_def)
  have "entries_of new_coordinator ''a'' = []" by (simp add: entries_of_def new_coordinator_def)
  moreover have "ad_generation (sample_grant ''d'' 1 1) = 1" by (simp add: sample_grant_def)
  ultimately show ?thesis
    using grant_current_or_next[OF sample_first[of "half_up 128"]] sample_first[of "half_up 128"]
    by (simp only: admission_outcome.case q map_of.simps option.distinct(1) simp_thms ex_simps)
qed


definition sample_key :: string where
  "sample_key = ad_admissionId (sample_grant ''d'' 1 1)"

definition sample_consumed :: coordinator where
  "sample_consumed = replace_entry ''a'' ''d'' sample_key
     \<lparr>et_record = sample_grant ''d'' 1 1, et_decision = Some (sample_decision ''d''), et_consumedByIntentId = Some ''i1''\<rparr>
     sample_admitted"

lemma sample_grant_fields [simp]:
  "ad_status (sample_grant d n g) = ADMITTED" "ad_accountId (sample_grant d n g) = ''a''"
  "ad_sourceStrategyDecisionId (sample_grant d n g) = d" "ad_generation (sample_grant d n g) = g"
  "ad_strategyInstanceId (sample_grant d n g) = ''i''" "ad_decisionSequence (sample_grant d n g) = n"
  by (simp_all add: sample_grant_def)

lemma sample_admitted_maps:
  "entries_of sample_admitted ''a'' =
      [(''d'', \<lparr>et_record = sample_grant ''d'' 1 1, et_decision = Some (sample_decision ''d''), et_consumedByIntentId = None\<rparr>)]"
  "map_of (co_byAdmissionId sample_admitted) sample_key =
      Some \<lparr>et_record = sample_grant ''d'' 1 1, et_decision = Some (sample_decision ''d''), et_consumedByIntentId = None\<rparr>"
  "co_faultedAccounts sample_admitted = {}"
  by (simp_all add: entries_of_def sample_admitted_def record_admission_def Let_def new_coordinator_def sample_key_def)

lemma sample_consume:
  "consumeForLiveLocked ''a'' sample_key ''i1'' sample_admitted = (CONSUMED, sample_consumed)"
  by (simp add: consumeForLiveLocked_def sample_admitted_maps sample_consumed_def)

text \<open>The grant consumed by one intent, then the recovery of another account, then that of its own.\<close>

definition sample_others_recovered :: coordinator where
  "sample_others_recovered = (commit_batch ''b''
     \<lparr>rb_byDecision = [], rb_byAdmissionIdEntries = [], rb_byGeneration = Map.empty\<rparr> Map.empty sample_consumed)
     \<lparr>co_faultedAccounts := {}\<rparr>"

lemma sample_recovers_other:
  "restoreAuthoritativeLocked ''b'' [] [] [] sample_consumed = Inr sample_others_recovered"
  by (simp add: restoreAuthoritativeLocked_def validateRestoreBatch_def sample_others_recovered_def entries_of_def
      sample_consumed_def replace_entry_def sample_admitted_def record_admission_def Let_def new_coordinator_def)

lemma sample_admitted_unrecovered:
  "(unrecovered_step (\<lambda>t. t) D tl {sample_engine} x)\<^sup>*\<^sup>* new_coordinator sample_admitted"
  by (rule r_into_rtranclp, rule unrecovered_step.runtime[OF runtime_step.admit[OF singletonI sample_first]])


text \<open>C23. The overlay the risk engine sees is exact: pending notional, overall, by direction, by pair and by
  strategy, is what was already known to be pending plus the sum of the admitted grants it is given,
  with no rounding, and the reservation count grows by their number.\<close>

theorem pending_overlay_exact:
  assumes "decimal_lib D prec" and "pending_texts base"
    and "\<forall>r\<in>set rs. signed_text (ad_approvedNotionalInr r)"
  shows "\<exists>k. buildPending D base rs = Inr (KNOWN k)
    \<and> text_value (kp_globalPendingNotionalInr k) = known_value (\<lambda>k. text_value (kp_globalPendingNotionalInr k)) base + granted rs
    \<and> text_value (kp_longInr k) = known_value (\<lambda>k. text_value (kp_longInr k)) base
        + granted (filter (\<lambda>r. ad_direction r = LONG) rs)
    \<and> text_value (kp_shortInr k) = known_value (\<lambda>k. text_value (kp_shortInr k)) base
        + granted (filter (\<lambda>r. ad_direction r \<noteq> LONG) rs)
    \<and> kp_pendingReservationCount k = (case base of UNKNOWN \<Rightarrow> 0 | KNOWN k \<Rightarrow> kp_pendingReservationCount k) + int (length rs)
    \<and> (\<forall>p. keyed_text (kp_pairPendingNotionalInr k) p = known_value (\<lambda>k. keyed_text (kp_pairPendingNotionalInr k) p) base
        + granted (filter (\<lambda>r. ad_pair r = p) rs))
    \<and> (\<forall>p. keyed_text (kp_strategyPendingNotionalInr k) p = known_value (\<lambda>k. keyed_text (kp_strategyPendingNotionalInr k) p) base
        + granted (filter (\<lambda>r. ad_strategyId r = p) rs))"
  by (rule decimal_lib.buildPending_Inr[OF assms]) blast

theorem pending_overlay_exact_witness:
  "\<exists>k. buildPending (half_up 128) UNKNOWN [sample_grant ''d'' 1 1, sample_grant ''e'' 2 1] = Inr (KNOWN k)
     \<and> text_value (kp_globalPendingNotionalInr k) = 21 \<and> text_value (kp_shortInr k) = 0
     \<and> keyed_text (kp_pairPendingNotionalInr k) ''B'' = 21 \<and> kp_pendingReservationCount k = 2"
proof -
  have s: "signed_text ''10.5''" and v: "text_value ''10.5'' = 21 / 2" by code_simp+
  have n: "ad_approvedNotionalInr (sample_grant d n g) = ''10.5''" "ad_direction (sample_grant d n g) = LONG"
    "ad_pair (sample_grant d n g) = ''B''" for d n g
    by (simp_all add: sample_grant_def)
  have "\<forall>r\<in>set [sample_grant ''d'' 1 1, sample_grant ''e'' 2 1]. signed_text (ad_approvedNotionalInr r)"
    using s by (simp add: n)
  moreover have "pending_texts UNKNOWN" by (simp add: pending_texts_def)
  ultimately show ?thesis
    using pending_overlay_exact[OF half_up_128.decimal_lib_axioms]
    by (fastforce simp: known_value_def granted_def n v)
qed

text \<open>An authoritative recovery evicts only the current grant of each decision: a superseded grant of the
  same account keeps its entry and the mark of the intent that consumed it, so the number of marks
  does not fall to zero for the recovered account.\<close>

theorem recovery_keeps_superseded_marks:
  assumes "coordinator_wf sha source_of co"
    and "map_of (co_byAdmissionId co) k = Some e" and "et_consumedByIntentId e \<noteq> None"
    and "map_of (entries_of co a) (ad_sourceStrategyDecisionId (et_record e)) \<noteq> Some e"
    and "k \<notin> ad_admissionId ` set rs"
    and "restoreAuthoritativeLocked a rs sq gn co = Inr co'"
  shows "map_of (co_byAdmissionId co') k = Some e \<and> 0 < liveAdmissionConsumptionCardinality co'"
proof -
  note W = coordinator_wfD[OF assms(1)]
  let ?m = "fold (\<lambda>(_, e). AList.delete (ad_admissionId (et_record e))) (entries_of co a) (co_byAdmissionId co)"
  obtain b bs where b: "validateRestoreBatch a rs sq gn = Inr (b, bs)"
    and co': "co' = (commit_batch a b bs (co\<lparr>co_byAdmissionId := ?m\<rparr>))\<lparr>co_faultedAccounts := co_faultedAccounts co - {a}\<rparr>"
    using assms(6) by (auto simp: restoreAuthoritativeLocked_def Let_def elim!: rbindE)
  have "k \<noteq> ad_admissionId (et_record x)" if "(d, x) \<in> set (entries_of co a)" for d x
  proof
    assume k: "k = ad_admissionId (et_record x)"
    have cur: "map_of (entries_of co a) d = Some x" using that W(1) by (simp add: map_of_is_SomeI)
    from W(2)[OF this] k assms(2) have "x = e" by simp
    with cur W(2)[OF cur] assms(4) show False by simp
  qed
  then have "map_of ?m k = Some e" using assms(2) by (auto simp: map_of_deletes)
  moreover have "map_of (rev (rb_byAdmissionIdEntries b)) k = None"
    using assms(5) by (auto simp: validated_batch(2)[OF b] map_of_eq_None_iff)
  ultimately have m: "map_of (co_byAdmissionId co') k = Some e"
    by (simp add: co' commit_batch_def map_of_updates map_add_def)
  then have "(k, e) \<in> set (filter (\<lambda>(_, e). et_consumedByIntentId e \<noteq> None) (co_byAdmissionId co'))"
    using assms(3) by (simp add: map_of_SomeD)
  then have "0 < length (filter (\<lambda>(_, e). et_consumedByIntentId e \<noteq> None) (co_byAdmissionId co'))"
    by (rule length_pos_if_in_set)
  with m show ?thesis by (simp add: liveAdmissionConsumptionCardinality_def)
qed

definition sample_released :: coordinator where
  "sample_released = replace_entry ''a'' ''d'' sample_key
     \<lparr>et_record = (sample_grant ''d'' 1 1)\<lparr>ad_status := RELEASED\<rparr>, et_decision = Some (sample_decision ''d''),
      et_consumedByIntentId = Some ''i1''\<rparr> sample_consumed"

definition sample_again :: coordinator where
  "sample_again = record_admission (sample_grant ''d'' 1 2) (sample_decision ''d'') sample_released"

lemma sample_release:
  "\<exists>r. releaseLocked ''a'' sample_key sample_consumed = Inr (OUT_RELEASED r, sample_released)"
  by (simp add: releaseLocked_def Let_def sample_consumed_def sample_released_def sample_admitted_maps)

lemma entries_replace:
  "entries_of (replace_entry a d k e co) a =
     (if co_byAccountAndDecision co a = None then [] else AList.update d e (entries_of co a))"
  "co_byAccountAndDecision (replace_entry a d k e co) x = None \<longleftrightarrow> co_byAccountAndDecision co x = None"
  by (auto simp: entries_of_def replace_entry_def split: option.split)

lemma sample_released_entries:
  "entries_of sample_released ''a'' = [(''d'', \<lparr>et_record = (sample_grant ''d'' 1 1)\<lparr>ad_status := RELEASED\<rparr>,
      et_decision = Some (sample_decision ''d''), et_consumedByIntentId = Some ''i1''\<rparr>)]"
proof -
  have "co_byAccountAndDecision sample_admitted ''a'' \<noteq> None"
    by (simp add: sample_admitted_def record_admission_def Let_def)
  then show ?thesis
    by (simp only: sample_released_def sample_consumed_def entries_replace sample_admitted_maps(1)) simp
qed

lemma sample_readmits:
  "admitLocked (\<lambda>t. t) D sample_engine (sample_request ''d'' 1) sample_released =
    Inr (OUT_ADMITTED (sample_decision ''d'') (sample_grant ''d'' 1 2), sample_again)"
proof -
  have w: "watermark (co_latestGeneration sample_admitted) ''a'' ''d'' = 1"
    "watermark (co_latestAdmittedSequence sample_admitted) ''a'' ''i'' = 1"
    by (simp_all add: sample_admitted_def record_admission_def Let_def watermark_raise)
  have g: "next_generation sample_released ''a'' ''d'' = 2"
    by (simp add: next_generation_def sample_released_entries)
      (simp add: sample_released_def sample_consumed_def w)
  show ?thesis
    unfolding sample_again_def
    by (rule sample_admits[of sample_released "''d''" 1, unfolded g])
      (simp_all add: sample_released_entries isSafeInteger_def, simp_all add: sample_released_def sample_consumed_def
        w sample_admitted_maps)
qed

theorem recovery_keeps_superseded_marks_witness:
  "\<exists>co'. restoreAuthoritativeLocked ''a'' [] [] [] sample_again = Inr co'
     \<and> entries_of co' ''a'' = [] \<and> 0 < liveAdmissionConsumptionCardinality co'"
proof -
  obtain r where rel: "releaseLocked ''a'' sample_key sample_consumed = Inr (OUT_RELEASED r, sample_released)"
    using sample_release by blast
  note S = admission_reachable.start[THEN admission_reachable.step, OF admission_step.runtime]
    admission_reachable.step[OF _ admission_step.runtime]
  have "admission_reachable (\<lambda>t. t) (half_up 128) tl {sample_engine} sample_again"
    by (rule S(2)[OF S(2)[OF S(2)[OF S(1)[OF runtime_step.admit[OF singletonI sample_first]]
          runtime_step.consume[OF sample_consume]] runtime_step.release[OF rel]]
          runtime_step.admit[OF singletonI sample_readmits]])
  from reachable_coordinator_wf[OF this inj_on_id2]
  have wf: "coordinator_wf (\<lambda>t. t) tl sample_again" using sample_engine_binds by simp
  have ne: "ad_admissionId (sample_grant ''d'' 1 2) \<noteq> sample_key" unfolding sample_key_def by code_simp
  let ?e = "\<lparr>et_record = (sample_grant ''d'' 1 1)\<lparr>ad_status := RELEASED\<rparr>, et_decision = Some (sample_decision ''d''),
      et_consumedByIntentId = Some ''i1''\<rparr>"
  have m: "map_of (co_byAdmissionId sample_again) sample_key = Some ?e"
    using ne by (simp add: sample_again_def record_admission_def Let_def update_conv) (simp add: sample_released_def)
  have c: "map_of (entries_of sample_again ''a'') ''d'' \<noteq> Some ?e"
    by (simp add: entries_of_def sample_again_def record_admission_def Let_def update_conv)
  obtain co' where co': "restoreAuthoritativeLocked ''a'' [] [] [] sample_again = Inr co'" "entries_of co' ''a'' = []"
    by (simp add: restoreAuthoritativeLocked_def validateRestoreBatch_def commit_batch_def entries_of_def)
  have "0 < liveAdmissionConsumptionCardinality co'"
    using recovery_keeps_superseded_marks[OF wf m _ _ _ co'(1)] c by simp
  with co' show ?thesis by blast
qed

end
