(* ===== verification/Strategy_Kernel.thy ===== *)
theory Strategy_Kernel
  imports Risk_Evidence Live_Decimal
begin

section \<open>The strategy kernel\<close>

text \<open>
  \<^verbatim>\<open>src/strategies/core/kernel.ts\<close>: what turns closed candles and indicator points into numbered decisions, and the
  hand-off of a decision to the risk engine (\<^verbatim>\<open>src/risk/strategy-lineage.ts\<close>, \<^verbatim>\<open>src/dispatch/strategy-dispatch.ts\<close>).
  The strategy itself, a subclass, is the parameter \<open>strategy\<close>: a function of its memory, the snapshot and the
  validated points to an outcome. A \<^verbatim>\<open>Map\<close> that is iterated is an association list. Decisions are frozen objects
  and the weak set of issued ones is the list of them, so an issued decision is known by its value.
\<close>

subsection \<open>Snapshots\<close>

datatype strategy_code =
    STRATEGY_INPUT_INVALID
  | STRATEGY_PAIR_MISMATCH
  | STRATEGY_TIMEFRAME_MISMATCH
  | STRATEGY_INPUT_FUTURE_DATA
  | STRATEGY_EVALUATION_ORDER_VIOLATION
  | STRATEGY_NUMERIC_FAILURE
  | STRATEGY_TERMINATED

record candle_snapshot =
  ck_pair :: string
  ck_timeframeMinutes :: int
  ck_openTimeMs :: int
  ck_closeTimeExclusiveMs :: int
  ck_open :: string
  ck_high :: string
  ck_low :: string
  ck_close :: string
  ck_volume :: string
  ck_quoteVolume :: "string option"

text \<open>The value of an indicator point: null, an object whose \<^verbatim>\<open>value\<close> is a text, or anything else.\<close>

datatype point_value = NULL_VALUE | SCALAR string | NOT_SCALAR

record indicator_point =
  ip_pair :: string
  ip_timeframeMinutes :: int
  ip_openTimeMs :: int
  ip_closeTimeExclusiveMs :: int
  ip_value :: point_value

record evaluation_snapshot =
  ev_pair :: string
  ev_evaluationTimeMs :: int
  ev_triggerClosedCandle :: candle_snapshot
  ev_latestClosedCandleByTimeframe :: "(int \<times> candle_snapshot) list"
  ev_candlesClosedAtThisTimestamp :: "candle_snapshot list"
  ev_latestIndicatorPointByAlias :: "string \<rightharpoonup> indicator_point"

definition validSafeTimestamp :: "int \<Rightarrow> bool" where
  "validSafeTimestamp v \<longleftrightarrow> isSafeInteger v \<and> 0 \<le> v \<and> v mod 60000 = 0"

definition validateCandle :: "candle_snapshot \<Rightarrow> string \<Rightarrow> int \<Rightarrow> (strategy_code, unit) res" where
  "validateCandle candle expectedPair evaluationTimeMs =
     (let duration = ck_timeframeMinutes candle * 60000
      in if ck_pair candle \<noteq> expectedPair then Inl STRATEGY_PAIR_MISMATCH
         else if \<not> isSafeInteger (ck_timeframeMinutes candle) \<or> ck_timeframeMinutes candle < 1 then Inl STRATEGY_INPUT_INVALID
         else if \<not> validSafeTimestamp (ck_openTimeMs candle) \<or> \<not> validSafeTimestamp (ck_closeTimeExclusiveMs candle)
         then Inl STRATEGY_INPUT_INVALID
         else if \<not> isSafeInteger duration \<or> ck_closeTimeExclusiveMs candle - ck_openTimeMs candle \<noteq> duration
         then Inl STRATEGY_INPUT_INVALID
         else if ck_closeTimeExclusiveMs candle > evaluationTimeMs then Inl STRATEGY_INPUT_FUTURE_DATA
         else if \<not> list_all signed_text [ck_open candle, ck_high candle, ck_low candle, ck_close candle, ck_volume candle]
         then Inl STRATEGY_INPUT_INVALID
         else if \<not> option_all signed_text (ck_quoteVolume candle) then Inl STRATEGY_INPUT_INVALID
         else Inr ())"

definition indicatorDecimalValue :: "indicator_point \<Rightarrow> (strategy_code, string option) res" where
  "indicatorDecimalValue point =
     (case ip_value point of
        NULL_VALUE \<Rightarrow> Inr None
      | SCALAR s \<Rightarrow> if signed_text s then Inr (Some s) else Inl STRATEGY_INPUT_INVALID
      | NOT_SCALAR \<Rightarrow> Inl STRATEGY_INPUT_INVALID)"

subsection \<open>Kernels\<close>

record requirement =
  rm_alias :: string
  rm_timeframeMinutes :: int

record kernel_config =
  kc_pair :: string
  kc_strategyId :: string
  kc_strategyVersion :: string
  kc_normalizedParameters :: json
  kc_indicatorBootstrapIdentity :: "bootstrap_entry list"
  kc_triggerTimeframeMinutes :: int
  kc_indicatorRequirements :: "requirement list"

record 's kernel =
  kn_instance :: strategy_instance
  kn_indicatorRequirements :: "requirement list"
  kn_terminated :: bool
  kn_nextDecisionSequence :: int
  kn_lastEvaluationTimeMs :: "int option"
  kn_indicatorReadySeenByAlias :: "string list"
  kn_issuedDecisions :: "strategy_decision list"
  kn_memory :: 's

record 's strategy_outcome =
  oc_status :: decision_status
  oc_targetExposure :: "target_exposure option"
  oc_reasonCodes :: "string list"
  oc_commit :: "(strategy_code, 's) res option"

type_synonym points = "(string \<times> indicator_point) list"

type_synonym 's strategy = "'s \<Rightarrow> evaluation_snapshot \<Rightarrow> points \<Rightarrow> (strategy_code, 's strategy_outcome) res"

text \<open>\<^verbatim>\<open>/^[A-Za-z0-9_.:@/-]{1,256}$/\<close>\<close>

definition alias_char :: "char \<Rightarrow> bool" where
  "alias_char c \<longleftrightarrow> (let n = of_char c :: nat in
     65 \<le> n \<and> n \<le> 90 \<or> 97 \<le> n \<and> n \<le> 122 \<or> is_digit c \<or> c \<in> set ''_.:@/-'')"

definition stable_alias :: "string \<Rightarrow> bool" where
  "stable_alias s \<longleftrightarrow> 1 \<le> length s \<and> length s \<le> 256 \<and> list_all alias_char s"

text \<open>The constructor: identity from the parameters and the normalized bootstrap origins.\<close>

definition newKernel :: "(string \<Rightarrow> string) \<Rightarrow> kernel_config \<Rightarrow> 's \<Rightarrow> (risk_error, 's kernel) res" where
  "newKernel sha config memory =
     rbind (strategySha256CanonicalJson sha (kc_normalizedParameters config)) (\<lambda>parameterHash.
       if \<not> list_all stable_alias (map rm_alias (kc_indicatorRequirements config))
          \<or> \<not> distinct (map rm_alias (kc_indicatorRequirements config))
       then Inl StrategyError
       else
         rbind (normalizeIndicatorBootstrapIdentity (kc_indicatorBootstrapIdentity config)
                  (map rm_timeframeMinutes (kc_indicatorRequirements config))) (\<lambda>bootstrap.
         rbind (computeStrategyInstanceId sha (kc_pair config) (kc_strategyId config) (kc_strategyVersion config)
                  parameterHash bootstrap) (\<lambda>instanceId.
           Inr \<lparr>kn_instance =
                  \<lparr>si_pair = kc_pair config, si_strategyId = kc_strategyId config,
                   si_strategyVersion = kc_strategyVersion config, si_parameterHash = parameterHash,
                   si_strategyInstanceId = instanceId, si_normalizedParameters = kc_normalizedParameters config,
                   si_indicatorBootstrapIdentity = bootstrap,
                   si_triggerTimeframeMinutes = kc_triggerTimeframeMinutes config\<rparr>,
                kn_indicatorRequirements = kc_indicatorRequirements config, kn_terminated = False,
                kn_nextDecisionSequence = 1, kn_lastEvaluationTimeMs = None, kn_indicatorReadySeenByAlias = [],
                kn_issuedDecisions = [], kn_memory = memory\<rparr>)))"

subsection \<open>Validating a snapshot\<close>

text \<open>The candles that closed at the evaluation time, by timeframe.\<close>

fun closedCandles ::
    "string \<Rightarrow> int \<Rightarrow> (int \<times> candle_snapshot) list \<Rightarrow> candle_snapshot list
     \<Rightarrow> (strategy_code, (int \<times> candle_snapshot) list) res" where
  "closedCandles pair t closedBy [] = Inr closedBy"
| "closedCandles pair t closedBy (c # cs) =
     rbind (validateCandle c pair t) (\<lambda>_.
       if ck_closeTimeExclusiveMs c \<noteq> t then Inl STRATEGY_INPUT_INVALID
       else if map_of closedBy (ck_timeframeMinutes c) \<noteq> None then Inl STRATEGY_INPUT_INVALID
       else closedCandles pair t (closedBy @ [(ck_timeframeMinutes c, c)]) cs)"

definition validateLatest :: "string \<Rightarrow> int \<Rightarrow> int \<times> candle_snapshot \<Rightarrow> (strategy_code, unit) res" where
  "validateLatest pair t = (\<lambda>(timeframe, candle).
     if timeframe \<noteq> ck_timeframeMinutes candle then Inl STRATEGY_INPUT_INVALID else validateCandle candle pair t)"

text \<open>A point is that of a candle that closed just now, or of the latest one that closed before.\<close>

definition pointFreshness ::
    "int \<Rightarrow> evaluation_snapshot \<Rightarrow> (int \<times> candle_snapshot) list \<Rightarrow> requirement \<Rightarrow> indicator_point
     \<Rightarrow> (strategy_code, unit) res" where
  "pointFreshness trigger snapshot closedBy r point =
     (case map_of closedBy (rm_timeframeMinutes r) of
        Some candle \<Rightarrow>
          if ip_closeTimeExclusiveMs point \<noteq> ev_evaluationTimeMs snapshot \<or> ip_openTimeMs point \<noteq> ck_openTimeMs candle
          then Inl STRATEGY_INPUT_INVALID else Inr ()
      | None \<Rightarrow>
          if rm_timeframeMinutes r = trigger \<or> ip_closeTimeExclusiveMs point \<ge> ev_evaluationTimeMs snapshot
          then Inl STRATEGY_INPUT_INVALID
          else case map_of (ev_latestClosedCandleByTimeframe snapshot) (rm_timeframeMinutes r) of
              None \<Rightarrow> Inl STRATEGY_INPUT_INVALID
            | Some latest \<Rightarrow>
                if ck_openTimeMs latest \<noteq> ip_openTimeMs point
                   \<or> ck_closeTimeExclusiveMs latest \<noteq> ip_closeTimeExclusiveMs point
                then Inl STRATEGY_INPUT_INVALID else Inr ())"

definition validatePoint ::
    "'s kernel \<Rightarrow> evaluation_snapshot \<Rightarrow> (int \<times> candle_snapshot) list \<Rightarrow> requirement
     \<Rightarrow> (strategy_code, string \<times> indicator_point) res" where
  "validatePoint k snapshot closedBy r =
     (case ev_latestIndicatorPointByAlias snapshot (rm_alias r) of
        None \<Rightarrow> Inl STRATEGY_INPUT_INVALID
      | Some point \<Rightarrow>
          let expectedDuration = rm_timeframeMinutes r * 60000
          in if ip_pair point \<noteq> si_pair (kn_instance k) then Inl STRATEGY_PAIR_MISMATCH
             else if ip_timeframeMinutes point \<noteq> rm_timeframeMinutes r then Inl STRATEGY_TIMEFRAME_MISMATCH
             else if \<not> validSafeTimestamp (ip_openTimeMs point) \<or> \<not> validSafeTimestamp (ip_closeTimeExclusiveMs point)
                  \<or> ip_openTimeMs point \<ge> ip_closeTimeExclusiveMs point
             then Inl STRATEGY_INPUT_INVALID
             else if \<not> isSafeInteger expectedDuration
                  \<or> ip_closeTimeExclusiveMs point - ip_openTimeMs point \<noteq> expectedDuration
             then Inl STRATEGY_INPUT_INVALID
             else if ip_closeTimeExclusiveMs point > ev_evaluationTimeMs snapshot then Inl STRATEGY_INPUT_FUTURE_DATA
             else
               rbind (pointFreshness (si_triggerTimeframeMinutes (kn_instance k)) snapshot closedBy r point) (\<lambda>_.
               rbind (indicatorDecimalValue point) (\<lambda>_.
                 if ip_value point = NULL_VALUE \<and> List.member (kn_indicatorReadySeenByAlias k) (rm_alias r)
                 then Inl STRATEGY_INPUT_INVALID else Inr (rm_alias r, point))))"

definition validateSnapshot :: "'s kernel \<Rightarrow> evaluation_snapshot \<Rightarrow> (strategy_code, points) res" where
  "validateSnapshot k snapshot =
     (let pair = si_pair (kn_instance k); t = ev_evaluationTimeMs snapshot;
          trigger = si_triggerTimeframeMinutes (kn_instance k); candle = ev_triggerClosedCandle snapshot
      in if ev_pair snapshot \<noteq> pair then Inl STRATEGY_PAIR_MISMATCH
         else if \<not> validSafeTimestamp t then Inl STRATEGY_INPUT_INVALID
         else if (case kn_lastEvaluationTimeMs k of None \<Rightarrow> False | Some l \<Rightarrow> t \<le> l)
         then Inl STRATEGY_EVALUATION_ORDER_VIOLATION
         else
           rbind (validateCandle candle pair t) (\<lambda>_.
             if ck_timeframeMinutes candle \<noteq> trigger then Inl STRATEGY_TIMEFRAME_MISMATCH
             else if ck_closeTimeExclusiveMs candle \<noteq> t then Inl STRATEGY_INPUT_INVALID
             else
               rbind (closedCandles pair t [] (ev_candlesClosedAtThisTimestamp snapshot)) (\<lambda>closedBy.
                 if map_option ck_openTimeMs (map_of closedBy trigger) \<noteq> Some (ck_openTimeMs candle)
                 then Inl STRATEGY_INPUT_INVALID
                 else
                   rbind (mapR (validateLatest pair t) (ev_latestClosedCandleByTimeframe snapshot)) (\<lambda>_.
                     mapR (validatePoint k snapshot closedBy) (kn_indicatorRequirements k)))))"

definition validateOutcome :: "'s strategy_outcome \<Rightarrow> (strategy_code, unit) res" where
  "validateOutcome oc =
     (if (if oc_status oc = WARMING then oc_targetExposure oc \<noteq> None else oc_targetExposure oc = None)
      then Inl STRATEGY_INPUT_INVALID
      else if oc_reasonCodes oc = [] \<or> list_ex (\<lambda>c. c = []) (oc_reasonCodes oc) \<or> \<not> distinct (oc_reasonCodes oc)
      then Inl STRATEGY_INPUT_INVALID
      else Inr ())"

subsection \<open>Evaluating\<close>

text \<open>The decision of an outcome, named by the digest of what it says.\<close>

definition kernelDecision ::
    "(string \<Rightarrow> string) \<Rightarrow> 's kernel \<Rightarrow> evaluation_snapshot \<Rightarrow> 's strategy_outcome \<Rightarrow> (strategy_code, strategy_decision) res" where
  "kernelDecision sha k snapshot oc =
     (let i = kn_instance k;
          d = \<lparr>sd_decisionId = [], sd_decisionSequence = kn_nextDecisionSequence k,
               sd_strategyInstanceId = si_strategyInstanceId i, sd_strategyId = si_strategyId i,
               sd_strategyVersion = si_strategyVersion i, sd_parameterHash = si_parameterHash i, sd_pair = si_pair i,
               sd_evaluationTimeMs = ev_evaluationTimeMs snapshot,
               sd_triggerTimeframeMinutes = si_triggerTimeframeMinutes i, sd_status = oc_status oc,
               sd_targetExposure = oc_targetExposure oc, sd_reasonCodes = oc_reasonCodes oc\<rparr>
      in case recomputeStrategyDecisionId sha d of
           Inl _ \<Rightarrow> Inl STRATEGY_NUMERIC_FAILURE
         | Inr decisionId \<Rightarrow> Inr (d\<lparr>sd_decisionId := decisionId\<rparr>))"

definition evaluateDecision ::
    "(string \<Rightarrow> string) \<Rightarrow> 's strategy \<Rightarrow> evaluation_snapshot \<Rightarrow> 's kernel
     \<Rightarrow> (strategy_code, points \<times> 's strategy_outcome \<times> strategy_decision) res" where
  "evaluateDecision sha strategy snapshot k =
     rbind (validateSnapshot k snapshot) (\<lambda>points.
     rbind (strategy (kn_memory k) snapshot points) (\<lambda>oc.
     rbind (validateOutcome oc) (\<lambda>_.
       if \<not> isSafeInteger (kn_nextDecisionSequence k) then Inl STRATEGY_NUMERIC_FAILURE
       else rbind (kernelDecision sha k snapshot oc) (\<lambda>d. Inr (points, oc, d)))))"

text \<open>What is recorded before the strategy commits: the counter, the time and the aliases seen ready.\<close>

definition advanceKernel :: "evaluation_snapshot \<Rightarrow> points \<Rightarrow> 's kernel \<Rightarrow> 's kernel" where
  "advanceKernel snapshot points k =
     k\<lparr>kn_nextDecisionSequence := kn_nextDecisionSequence k + 1,
       kn_lastEvaluationTimeMs := Some (ev_evaluationTimeMs snapshot),
       kn_indicatorReadySeenByAlias := kn_indicatorReadySeenByAlias k
         @ map fst (filter (\<lambda>(_, p). ip_value p \<noteq> NULL_VALUE) points)\<rparr>"

text \<open>Any error terminates the kernel; an error of the commit comes after the counter has moved.\<close>

definition evaluateKernel ::
    "(string \<Rightarrow> string) \<Rightarrow> 's strategy \<Rightarrow> evaluation_snapshot \<Rightarrow> 's kernel
     \<Rightarrow> (strategy_code, strategy_decision) res \<times> 's kernel" where
  "evaluateKernel sha strategy snapshot k =
     (if kn_terminated k then (Inl STRATEGY_TERMINATED, k)
      else case evaluateDecision sha strategy snapshot k of
          Inl e \<Rightarrow> (Inl e, k\<lparr>kn_terminated := True\<rparr>)
        | Inr (points, oc, d) \<Rightarrow>
            let k' = advanceKernel snapshot points k
            in case oc_commit oc of
                 Some (Inl e) \<Rightarrow> (Inl e, k'\<lparr>kn_terminated := True\<rparr>)
               | Some (Inr m) \<Rightarrow> (Inr d, k'\<lparr>kn_memory := m, kn_issuedDecisions := kn_issuedDecisions k @ [d]\<rparr>)
               | None \<Rightarrow> (Inr d, k'\<lparr>kn_issuedDecisions := kn_issuedDecisions k @ [d]\<rparr>))"

subsection \<open>Handing a decision over\<close>

definition issueDecisionOrigin :: "'s kernel \<Rightarrow> strategy_decision \<Rightarrow> decision_origin option" where
  "issueDecisionOrigin k d =
     (if List.member (kn_issuedDecisions k) d then Some \<lparr>or_decision = d, or_instance = kn_instance k\<rparr> else None)"

definition createStrategyRiskHandoff ::
    "'s kernel \<Rightarrow> strategy_decision \<Rightarrow> string \<Rightarrow> (risk_error, (strategy_candidate \<times> decision_origin) option) res" where
  "createStrategyRiskHandoff k d instrumentSpecSnapshotId =
     (case issueDecisionOrigin k d of
        None \<Rightarrow> Inl RISK_SOURCE_INVALID
      | Some origin \<Rightarrow>
          Inr (map_option (\<lambda>candidate. (candidate, origin))
            (createStrategyRiskCandidate d instrumentSpecSnapshotId
               \<lparr>sl_normalizedParameters = si_normalizedParameters (or_instance origin),
                sl_indicatorBootstrapIdentity = si_indicatorBootstrapIdentity (or_instance origin)\<rparr>)))"

subsection \<open>What a kernel has issued\<close>

inductive kernel_reachable :: "(string \<Rightarrow> string) \<Rightarrow> 's strategy \<Rightarrow> 's kernel \<Rightarrow> bool" for sha strategy where
  fresh: "newKernel sha config memory = Inr k \<Longrightarrow> kernel_reachable sha strategy k"
| evaluated: "kernel_reachable sha strategy k \<Longrightarrow> evaluateKernel sha strategy snapshot k = (r, k') \<Longrightarrow>
    kernel_reachable sha strategy k'"

text \<open>A decision says of its kernel what is so, and is named by its own digest.\<close>

definition decision_of :: "(string \<Rightarrow> string) \<Rightarrow> strategy_instance \<Rightarrow> strategy_decision \<Rightarrow> bool" where
  "decision_of sha i d \<longleftrightarrow>
     sd_strategyInstanceId d = si_strategyInstanceId i \<and> sd_strategyId d = si_strategyId i
     \<and> sd_strategyVersion d = si_strategyVersion i \<and> sd_parameterHash d = si_parameterHash i \<and> sd_pair d = si_pair i
     \<and> sd_triggerTimeframeMinutes d = si_triggerTimeframeMinutes i
     \<and> recomputeStrategyDecisionId sha d = Inr (sd_decisionId d)
     \<and> (sd_status d = WARMING \<longleftrightarrow> sd_targetExposure d = None)"

definition later_decision :: "strategy_decision \<Rightarrow> strategy_decision \<Rightarrow> bool" where
  "later_decision a b \<longleftrightarrow> sd_decisionSequence a < sd_decisionSequence b \<and> sd_evaluationTimeMs a < sd_evaluationTimeMs b"

definition kernel_wf :: "(string \<Rightarrow> string) \<Rightarrow> 's kernel \<Rightarrow> bool" where
  "kernel_wf sha k \<longleftrightarrow>
     map sd_decisionSequence (kn_issuedDecisions k) = map int [1..<Suc (length (kn_issuedDecisions k))]
     \<and> sorted_wrt later_decision (kn_issuedDecisions k)
     \<and> (\<forall>d\<in>set (kn_issuedDecisions k). decision_of sha (kn_instance k) d
          \<and> (\<exists>l. kn_lastEvaluationTimeMs k = Some l \<and> sd_evaluationTimeMs d \<le> l))
     \<and> (\<not> kn_terminated k \<longrightarrow> kn_nextDecisionSequence k = int (length (kn_issuedDecisions k)) + 1)"

lemma kernelDecision_Inr:
  assumes "kernelDecision sha k snapshot oc = Inr d" and "validateOutcome oc = Inr ()"
  shows "decision_of sha (kn_instance k) d" and "sd_decisionSequence d = kn_nextDecisionSequence k"
    and "sd_evaluationTimeMs d = ev_evaluationTimeMs snapshot"
  using assms
  by (auto simp: kernelDecision_def decision_of_def recomputeStrategyDecisionId_def validateOutcome_def Let_def
      split: sum.splits if_splits)

lemma validateSnapshot_time:
  assumes "validateSnapshot k snapshot = Inr points" and "kn_lastEvaluationTimeMs k = Some l"
  shows "l < ev_evaluationTimeMs snapshot"
  using assms by (auto simp: validateSnapshot_def Let_def split: if_splits)

lemma evaluateDecision_Inr:
  assumes "evaluateDecision sha strategy snapshot k = Inr (points, oc, d)"
  shows "decision_of sha (kn_instance k) d" and "sd_decisionSequence d = kn_nextDecisionSequence k"
    and "sd_evaluationTimeMs d = ev_evaluationTimeMs snapshot"
    and "kn_lastEvaluationTimeMs k = Some l \<Longrightarrow> l < ev_evaluationTimeMs snapshot"
proof -
  from assms have a: "kernelDecision sha k snapshot oc = Inr d" "validateOutcome oc = Inr ()"
    "\<exists>ps. validateSnapshot k snapshot = Inr ps"
    unfolding evaluateDecision_def by (auto elim!: rbindE split: if_splits)
  show "decision_of sha (kn_instance k) d" "sd_decisionSequence d = kn_nextDecisionSequence k"
    "sd_evaluationTimeMs d = ev_evaluationTimeMs snapshot"
    using kernelDecision_Inr[OF a(1,2)] by simp_all
  show "l < ev_evaluationTimeMs snapshot" if "kn_lastEvaluationTimeMs k = Some l"
    using a(3) validateSnapshot_time that by blast
qed

lemma evaluateKernel_cases:
  assumes "evaluateKernel sha strategy snapshot k = (r, k')"
  obtains (dead) "kn_terminated k" "k' = k" "r = Inl STRATEGY_TERMINATED"
  | (failed) e where "\<not> kn_terminated k" "r = Inl e" "k' = k\<lparr>kn_terminated := True\<rparr>"
  | (late) points oc d e where "\<not> kn_terminated k" "evaluateDecision sha strategy snapshot k = Inr (points, oc, d)"
      "r = Inl e" "k' = (advanceKernel snapshot points k)\<lparr>kn_terminated := True\<rparr>"
  | (issued) points oc d m where "\<not> kn_terminated k" "evaluateDecision sha strategy snapshot k = Inr (points, oc, d)"
      "r = Inr d" "k' = (advanceKernel snapshot points k)\<lparr>kn_memory := m, kn_issuedDecisions := kn_issuedDecisions k @ [d]\<rparr>"
  using assms
proof (cases "kn_terminated k")
  case False
  show ?thesis
  proof (cases "evaluateDecision sha strategy snapshot k")
    case (Inl e)
    with False assms show ?thesis by (intro failed[of e]) (auto simp: evaluateKernel_def)
  next
    case (Inr p)
    obtain points oc d where p: "p = (points, oc, d)" by (cases p)
    note Inr = Inr[unfolded p]
    show ?thesis
    proof (cases "oc_commit oc")
      case None
      have "k' = (advanceKernel snapshot points k)\<lparr>kn_memory := kn_memory k, kn_issuedDecisions := kn_issuedDecisions k @ [d]\<rparr>"
        using False assms Inr None by (cases k) (auto simp: evaluateKernel_def Let_def advanceKernel_def)
      then show ?thesis using False assms Inr None
        by (intro issued[of points oc d "kn_memory k"]) (auto simp: evaluateKernel_def Let_def)
    next
      case (Some c)
      show ?thesis
      proof (cases c)
        case (Inl e)
        then show ?thesis using False assms Inr Some \<open>evaluateDecision sha strategy snapshot k = Inr (points, oc, d)\<close>
          by (intro late[of points oc d e]) (auto simp: evaluateKernel_def Let_def)
      next
        case (Inr m)
        then show ?thesis using False assms Some \<open>evaluateDecision sha strategy snapshot k = Inr (points, oc, d)\<close>
          by (intro issued[of points oc d m]) (auto simp: evaluateKernel_def Let_def)
      qed
    qed
  qed
qed (auto simp: evaluateKernel_def)

lemma advance_fields [simp]:
  "kn_instance (advanceKernel snapshot points k) = kn_instance k"
  "kn_issuedDecisions (advanceKernel snapshot points k) = kn_issuedDecisions k"
  "kn_nextDecisionSequence (advanceKernel snapshot points k) = kn_nextDecisionSequence k + 1"
  "kn_lastEvaluationTimeMs (advanceKernel snapshot points k) = Some (ev_evaluationTimeMs snapshot)"
  "kn_terminated (advanceKernel snapshot points k) = kn_terminated k"
  by (simp_all add: advanceKernel_def)

lemma newKernel_Inr:
  assumes "newKernel sha config memory = Inr k"
  shows "kn_issuedDecisions k = []" and "kn_nextDecisionSequence k = 1" and "\<not> kn_terminated k"
  using assms by (auto simp: newKernel_def elim!: rbindE split: if_splits)

lemma evaluate_wf:
  assumes "kernel_wf sha k" and "evaluateKernel sha strategy snapshot k = (r, k')"
  shows "kernel_wf sha k'"
  using assms(2)
proof (cases rule: evaluateKernel_cases)
  case (late points oc d e)
  then show ?thesis
    using assms(1) evaluateDecision_Inr(4)[OF late(2)] unfolding kernel_wf_def by fastforce
next
  case (issued points oc d m)
  note d = evaluateDecision_Inr[OF issued(2)]
  have n: "kn_nextDecisionSequence k = int (length (kn_issuedDecisions k)) + 1"
    using assms(1) issued(1) by (simp add: kernel_wf_def)
  have bound: "sd_decisionSequence x < kn_nextDecisionSequence k \<and> sd_evaluationTimeMs x < ev_evaluationTimeMs snapshot"
    if x: "x \<in> set (kn_issuedDecisions k)" for x
  proof -
    have "sd_decisionSequence x \<in> set (map int [1..<Suc (length (kn_issuedDecisions k))])"
      using assms(1) x unfolding kernel_wf_def by (metis imageI set_map)
    moreover obtain l where "kn_lastEvaluationTimeMs k = Some l" "sd_evaluationTimeMs x \<le> l"
      using assms(1) x by (auto simp: kernel_wf_def)
    ultimately show ?thesis using n d(4) by fastforce
  qed
  then have "sorted_wrt later_decision (kn_issuedDecisions k @ [d])"
    using assms(1) d(2,3) by (simp add: kernel_wf_def sorted_wrt_append later_decision_def)
  then show ?thesis
    using assms(1) bound d(1-3) n issued(4) unfolding kernel_wf_def by (fastforce simp: less_imp_le)
qed (use assms(1) in \<open>auto simp: kernel_wf_def\<close>)

lemma kernel_reachable_wf: "kernel_reachable sha strategy k \<Longrightarrow> kernel_wf sha k"
proof (induction rule: kernel_reachable.induct)
  case (fresh config memory k)
  then show ?case using newKernel_Inr[OF fresh] by (simp add: kernel_wf_def)
next
  case (evaluated k snapshot r k')
  then show ?case by (rule_tac evaluate_wf)
qed

lemma issued_decision_wf:
  "kernel_reachable sha strategy k \<Longrightarrow> \<forall>d\<in>set (kn_issuedDecisions k). decision_of sha (kn_instance k) d"
  using kernel_reachable_wf by (auto simp: kernel_wf_def)

text \<open>C15. Whatever it is fed, a kernel numbers the decisions it issues 1, 2, 3 and so on without a gap, at strictly increasing
  evaluation times; each carries the identity of the kernel, is named by the digest of what it says, and has a
  target exactly when it is ready. A kernel that has failed once never issues another decision.\<close>

theorem issued_decisions_numbered:
  assumes "kernel_reachable sha strategy k"
  shows "map sd_decisionSequence (kn_issuedDecisions k) = map int [1..<Suc (length (kn_issuedDecisions k))]
    \<and> sorted_wrt later_decision (kn_issuedDecisions k)
    \<and> (\<forall>d\<in>set (kn_issuedDecisions k). decision_of sha (kn_instance k) d)
    \<and> (kn_terminated k \<longrightarrow> (\<forall>snapshot. evaluateKernel sha strategy snapshot k = (Inl STRATEGY_TERMINATED, k)))"
  using kernel_reachable_wf[OF assms] by (auto simp: kernel_wf_def evaluateKernel_def)

subsection \<open>What the risk engine makes of it\<close>

text \<open>The strategy definition rebuilds what the kernel was constructed with.\<close>

definition built_by :: "strategy_definition \<Rightarrow> strategy_instance \<Rightarrow> bool" where
  "built_by f i \<longleftrightarrow> df_strategyId f = si_strategyId i \<and> df_strategyVersion f = si_strategyVersion i
     \<and> (case df_describeConstruction f (si_normalizedParameters i) of
          Inl _ \<Rightarrow> False
        | Inr c \<Rightarrow> co_normalizedParameters c = si_normalizedParameters i
            \<and> co_triggerTimeframeMinutes c = si_triggerTimeframeMinutes i
            \<and> sort (set_of_values (co_requiredTimeframes c)) = map be_timeframeMinutes (si_indicatorBootstrapIdentity i))"

definition entry_ok :: "bootstrap_entry \<Rightarrow> bool" where
  "entry_ok e \<longleftrightarrow> isSafeInteger (be_timeframeMinutes e) \<and> 1 \<le> be_timeframeMinutes e
     \<and> be_timeframeMinutes e \<le> MAX_STRATEGY_TIMEFRAME_MINUTES
     \<and> isSafeInteger (be_bootstrapStartOpenTimeMs e) \<and> 0 \<le> be_bootstrapStartOpenTimeMs e
     \<and> be_bootstrapStartOpenTimeMs e mod 60000 = 0"

lemma bootstrapEntries_ok:
  "bootstrapEntries seen es = Inr () \<longleftrightarrow>
     list_all entry_ok es \<and> distinct (map be_timeframeMinutes es) \<and> set (map be_timeframeMinutes es) \<inter> set seen = {}"
  by (induction es arbitrary: seen) (auto simp: entry_ok_def Let_def not_less)

lemma normalize_again:
  assumes "normalizeIndicatorBootstrapIdentity entries tfs = Inr b"
    and "sort (set_of_values tfs') = map be_timeframeMinutes b"
  shows "normalizeIndicatorBootstrapIdentity b tfs' = Inr b"
proof -
  from assms(1) have b: "b = sort_key be_timeframeMinutes entries" and ok: "bootstrapEntries [] entries = Inr ()"
    by (auto simp: normalizeIndicatorBootstrapIdentity_def Let_def elim!: rbindE split: if_splits)
  have s: "sort_key be_timeframeMinutes b = b" unfolding b by (intro sort_key_id_if_sorted) simp
  have "distinct (map be_timeframeMinutes b)"
    using ok unfolding bootstrapEntries_ok b by (simp add: distinct_map)
  moreover have "list_all entry_ok b" using ok unfolding bootstrapEntries_ok b by (simp add: list_all_iff)
  ultimately have "bootstrapEntries [] b = Inr ()" by (simp add: bootstrapEntries_ok)
  then show ?thesis using s assms(2) by (simp add: normalizeIndicatorBootstrapIdentity_def)
qed

lemma strategySha_Inr:
  "strategySha256CanonicalJson sha v = Inr d \<longleftrightarrow> \<not> has_decimal v \<and> json_supported v \<and> d = sha (raw_text (json_norm v))"
proof -
  have "sha256CanonicalJson sha v = Inr d \<longleftrightarrow> json_supported v \<and> d = sha (raw_text (json_norm v))"
    by (auto simp: sha256CanonicalJson_def canonicalJson_eq_Inr rbind_eq_Inr)
  then show ?thesis by (cases "sha256CanonicalJson sha v") (auto simp: strategySha256CanonicalJson_def)
qed

lemma same_digest_refl: "strategySha256CanonicalJson sha v = Inr d \<Longrightarrow> same_digest sha v v = Inr True"
  by (simp add: same_digest_def)

lemma decision_json_supported:
  assumes "recomputeStrategyDecisionId sha d = Inr i"
  shows "\<exists>h. strategySha256CanonicalJson sha (strategy_decision_json d) = Inr h"
proof -
  have "json_supported (target_json t)" "\<not> has_decimal (target_json t)" for t
    by (auto simp: target_json_def split: option.splits target_exposure.splits)
  moreover have "json_supported (text_array ts)" "\<not> has_decimal (text_array ts)" for ts
    by (auto simp: text_array_def list_all_iff list_ex_iff)
  ultimately show ?thesis
    using assms by (simp add: recomputeStrategyDecisionId_def strategySha_Inr strategy_decision_json_def)
qed

lemma kernel_instance:
  fixes k :: "'s kernel"
  assumes "kernel_reachable sha strategy k"
  shows "\<exists>config memory k0. newKernel sha config memory = Inr (k0 :: 's kernel) \<and> kn_instance k = kn_instance k0"
  using assms
proof induction
  case (evaluated k snapshot r k')
  from evaluated.hyps(2) have "kn_instance k' = kn_instance k" by (cases rule: evaluateKernel_cases) auto
  with evaluated.IH show ?case by simp
qed blast

lemma instance_identity:
  fixes k :: "'s kernel"
  assumes "kernel_reachable sha strategy k"
  shows "strategySha256CanonicalJson sha (si_normalizedParameters (kn_instance k)) = Inr (si_parameterHash (kn_instance k))"
    and "computeStrategyInstanceId sha (si_pair (kn_instance k)) (si_strategyId (kn_instance k)) (si_strategyVersion (kn_instance k))
           (si_parameterHash (kn_instance k)) (si_indicatorBootstrapIdentity (kn_instance k)) = Inr (si_strategyInstanceId (kn_instance k))"
    and "\<exists>entries tfs. normalizeIndicatorBootstrapIdentity entries tfs = Inr (si_indicatorBootstrapIdentity (kn_instance k))"
proof -
  obtain config memory and k0 :: "'s kernel" where new: "newKernel sha config memory = Inr k0" and i: "kn_instance k = kn_instance k0"
    using kernel_instance[OF assms] by blast
  from new show "strategySha256CanonicalJson sha (si_normalizedParameters (kn_instance k)) = Inr (si_parameterHash (kn_instance k))"
    and "computeStrategyInstanceId sha (si_pair (kn_instance k)) (si_strategyId (kn_instance k)) (si_strategyVersion (kn_instance k))
           (si_parameterHash (kn_instance k)) (si_indicatorBootstrapIdentity (kn_instance k)) = Inr (si_strategyInstanceId (kn_instance k))"
    and "\<exists>entries tfs. normalizeIndicatorBootstrapIdentity entries tfs = Inr (si_indicatorBootstrapIdentity (kn_instance k))"
    unfolding i by (auto simp: newKernel_def elim!: rbindE split: if_splits) blast
qed

lemma lineage_rebuilds:
  assumes r: "kernel_reachable sha strategy k" and b: "built_by f (kn_instance k)" and d: "decision_of sha (kn_instance k) d"
  shows "lineageRebuilds sha f \<lparr>cd_strategyDecision = d,
      cd_strategyLineage = \<lparr>sl_normalizedParameters = si_normalizedParameters (kn_instance k),
         sl_indicatorBootstrapIdentity = si_indicatorBootstrapIdentity (kn_instance k)\<rparr>,
      cd_pair = p, cd_instrumentSpecSnapshotId = s\<rparr> = Inr True"
proof -
  note i = instance_identity[OF r]
  obtain c where c: "df_describeConstruction f (si_normalizedParameters (kn_instance k)) = Inr c"
      "co_normalizedParameters c = si_normalizedParameters (kn_instance k)"
      "co_triggerTimeframeMinutes c = si_triggerTimeframeMinutes (kn_instance k)"
      "sort (set_of_values (co_requiredTimeframes c)) = map be_timeframeMinutes (si_indicatorBootstrapIdentity (kn_instance k))"
    using b by (auto simp: built_by_def split: sum.splits)
  obtain entries tfs where "normalizeIndicatorBootstrapIdentity entries tfs = Inr (si_indicatorBootstrapIdentity (kn_instance k))"
    using i(3) by blast
  note n = normalize_again[OF this c(4)]
  show ?thesis
    using d b c n i(1,2) by (simp add: lineageRebuilds_def Let_def decision_of_def built_by_def)
qed

lemma handed_over:
  assumes "kernel_reachable sha strategy k" and "built_by f (kn_instance k)"
    and "find (\<lambda>g. df_strategyId g = df_strategyId f \<and> df_strategyVersion g = df_strategyVersion f) definitions = Some f"
    and True: "d \<in> set (kn_issuedDecisions k)"
  shows "sd_status d = READY \<Longrightarrow> \<exists>candidate origin. createStrategyRiskHandoff k d spec = Inr (Some (candidate, origin))
        \<and> cd_strategyDecision candidate = d \<and> cd_instrumentSpecSnapshotId candidate = spec
        \<and> strategyLineageReasons sha definitions candidate (Some origin) = Inr []"
    and "sd_status d = WARMING \<Longrightarrow> createStrategyRiskHandoff k d spec = Inr None"
proof -
  have d: "decision_of sha (kn_instance k) d" using issued_decision_wf[OF assms(1)] True by blast
  let ?i = "kn_instance k"
  let ?c = "\<lparr>cd_strategyDecision = d,
      cd_strategyLineage = \<lparr>sl_normalizedParameters = si_normalizedParameters ?i,
         sl_indicatorBootstrapIdentity = si_indicatorBootstrapIdentity ?i\<rparr>,
      cd_pair = sd_pair d, cd_instrumentSpecSnapshotId = spec\<rparr>"
  have hand: "createStrategyRiskHandoff k d spec =
      Inr (if sd_status d = WARMING then None else Some (?c, \<lparr>or_decision = d, or_instance = ?i\<rparr>))"
    using True by (simp add: createStrategyRiskHandoff_def issueDecisionOrigin_def createStrategyRiskCandidate_def)
  note i = instance_identity[OF assms(1)]
  obtain h where h: "strategySha256CanonicalJson sha (strategy_decision_json d) = Inr h"
    using d[unfolded decision_of_def] decision_json_supported[of sha d "sd_decisionId d"] by blast
  have "\<exists>g. strategySha256CanonicalJson sha (bootstrap_json (si_indicatorBootstrapIdentity ?i)) = Inr g"
    using i(2) by (auto simp: computeStrategyInstanceId_def strategySha_Inr split: if_splits)
  then obtain g where g: "strategySha256CanonicalJson sha (bootstrap_json (si_indicatorBootstrapIdentity ?i)) = Inr g" by blast
  have f: "find (\<lambda>g. df_strategyId g = sd_strategyId d \<and> df_strategyVersion g = sd_strategyVersion d) definitions = Some f"
    using assms(2,3) d by (simp add: built_by_def decision_of_def)
  have "strategyLineageReasons sha definitions ?c (Some \<lparr>or_decision = d, or_instance = ?i\<rparr>) = Inr []"
    using d f lineage_rebuilds[OF assms(1,2) d] same_digest_refl[OF h] same_digest_refl[OF g] same_digest_refl[OF i(1)]
    by (simp add: strategyLineageReasons_def Let_def decision_of_def)
  with hand show "sd_status d = READY \<Longrightarrow> \<exists>candidate origin. createStrategyRiskHandoff k d spec = Inr (Some (candidate, origin))
        \<and> cd_strategyDecision candidate = d \<and> cd_instrumentSpecSnapshotId candidate = spec
        \<and> strategyLineageReasons sha definitions candidate (Some origin) = Inr []"
    and "sd_status d = WARMING \<Longrightarrow> createStrategyRiskHandoff k d spec = Inr None" by simp_all
qed

text \<open>If the engine knows the definition the kernel was built by, every ready decision the kernel ever issued is handed
  over, as the very decision, and its lineage check has no objection. A warming decision gives no candidate, and
  a decision the kernel did not issue is refused.\<close>

lemma issued_decisions_have_lineage:
  assumes "kernel_reachable sha strategy k" and "built_by f (kn_instance k)"
    and "find (\<lambda>g. df_strategyId g = df_strategyId f \<and> df_strategyVersion g = df_strategyVersion f) definitions = Some f"
  shows "if d \<in> set (kn_issuedDecisions k)
    then (sd_status d = READY \<longrightarrow> (\<exists>candidate origin. createStrategyRiskHandoff k d spec = Inr (Some (candidate, origin))
        \<and> cd_strategyDecision candidate = d \<and> cd_instrumentSpecSnapshotId candidate = spec
        \<and> strategyLineageReasons sha definitions candidate (Some origin) = Inr []))
      \<and> (sd_status d = WARMING \<longrightarrow> createStrategyRiskHandoff k d spec = Inr None)
    else createStrategyRiskHandoff k d spec = Inl RISK_SOURCE_INVALID"
  using handed_over[OF assms, of d spec]
  by (simp add: createStrategyRiskHandoff_def[of k d] issueDecisionOrigin_def)

end
