(* ===== verification/Strategy_Definitions.thy ===== *)
theory Strategy_Definitions
  imports Strategy_Kernel Risk_Validation
begin

section \<open>The four strategies\<close>

text \<open>
  \<^verbatim>\<open>src/strategies/implementations\<close>: how each definition normalizes its parameters and describes a kernel, and what its
  kernel makes of validated points. Parameters arrive as JSON. A definition that keeps no memory between
  evaluations works on any type of it. Decimals are decimal.js at 128 digits: \<open>dnew\<close> reads a text exactly,
  \<open>dround\<close> rounds a result.
\<close>

subsection \<open>Parameters\<close>

text \<open>A plain object with exactly the allowed keys; the members are looked up by key.\<close>

definition requireExactObject :: "json \<Rightarrow> string list \<Rightarrow> (risk_error, string \<Rightarrow> json) res" where
  "requireExactObject v allowedKeys =
     (case v of
        JObject ms \<Rightarrow>
          if list_all (\<lambda>k. List.member allowedKeys k) (map fst ms) \<and> list_all (\<lambda>k. List.member (map fst ms) k) allowedKeys
          then Inr (\<lambda>k. case map_of ms k of None \<Rightarrow> JUnsupported | Some x \<Rightarrow> x)
          else Inl StrategyError
      | _ \<Rightarrow> Inl StrategyError)"

definition positiveSafeInteger :: "int \<Rightarrow> json \<Rightarrow> (risk_error, int) res" where
  "positiveSafeInteger maximum v =
     (case v of
        JNumber n \<Rightarrow> if \<not> isSafeInteger n \<or> n < 1 \<or> n > maximum then Inl StrategyError else Inr n
      | _ \<Rightarrow> Inl StrategyError)"

definition MAX_STRATEGY_PERIOD :: int where
  "MAX_STRATEGY_PERIOD = 100000"

definition strategyPeriod :: "json \<Rightarrow> (risk_error, int) res" where
  "strategyPeriod = positiveSafeInteger MAX_STRATEGY_PERIOD"

definition strategyTimeframe :: "json \<Rightarrow> (risk_error, int) res" where
  "strategyTimeframe = positiveSafeInteger MAX_STRATEGY_TIMEFRAME_MINUTES"

definition PRICE_SOURCES :: "string list" where
  "PRICE_SOURCES = [''CLOSE'', ''OPEN'', ''HIGH'', ''LOW'', ''HL2'', ''HLC3'', ''OHLC4'']"

definition strategyPriceSource :: "json \<Rightarrow> (risk_error, string) res" where
  "strategyPriceSource v =
     (case v of
        JString s \<Rightarrow> if List.member PRICE_SOURCES s then Inr s else Inl StrategyError
      | _ \<Rightarrow> Inl StrategyError)"

definition sortedDistinctTimeframes :: "json \<Rightarrow> (risk_error, int list) res" where
  "sortedDistinctTimeframes v =
     (case v of
        JArray vs \<Rightarrow>
          if length vs < 2 then Inl StrategyError
          else rbind (mapR strategyTimeframe vs) (\<lambda>ts. if \<not> distinct ts then Inl StrategyError else Inr (sort ts))
      | _ \<Rightarrow> Inl StrategyError)"

definition normalizeCanonicalDecimalString :: "json \<Rightarrow> (risk_error, string) res" where
  "normalizeCanonicalDecimalString v =
     (case v of
        JString s \<Rightarrow> (case canonicalDecimalString s of Inl _ \<Rightarrow> Inl StrategyError | Inr t \<Rightarrow> Inr t)
      | _ \<Rightarrow> Inl StrategyError)"

definition positiveDecimalParameter :: "decimal_js \<Rightarrow> json \<Rightarrow> (risk_error, string) res" where
  "positiveDecimalParameter D v =
     rbind (normalizeCanonicalDecimalString v) (\<lambda>normalized.
       if \<not> dnew D normalized > 0 then Inl StrategyError else Inr normalized)"

subsection \<open>What a definition describes\<close>

record description =
  ds_normalizedParameters :: json
  ds_triggerTimeframeMinutes :: int
  ds_indicatorRequirements :: "requirement list"

record implementation =
  im_strategyId :: string
  im_strategyVersion :: string
  im_describeConstruction :: "json \<Rightarrow> (risk_error, description) res"

text \<open>EMA trend: two moving averages of one timeframe.\<close>

record ema_parameters =
  em_timeframeMinutes :: int
  em_fastPeriod :: int
  em_slowPeriod :: int
  em_priceSource :: string

definition normalizeEmaTrendParameters :: "json \<Rightarrow> (risk_error, ema_parameters) res" where
  "normalizeEmaTrendParameters raw =
     rbind (requireExactObject raw [''timeframeMinutes'', ''fastPeriod'', ''slowPeriod'', ''priceSource'']) (\<lambda>v.
     rbind (strategyTimeframe (v ''timeframeMinutes'')) (\<lambda>t.
     rbind (strategyPeriod (v ''fastPeriod'')) (\<lambda>f.
     rbind (strategyPeriod (v ''slowPeriod'')) (\<lambda>s.
     rbind (strategyPriceSource (v ''priceSource'')) (\<lambda>p.
       if s < 2 \<or> f \<ge> s then Inl StrategyError
       else Inr \<lparr>em_timeframeMinutes = t, em_fastPeriod = f, em_slowPeriod = s, em_priceSource = p\<rparr>)))))"

definition ema_json :: "ema_parameters \<Rightarrow> json" where
  "ema_json p = JObject [(''timeframeMinutes'', JNumber (em_timeframeMinutes p)), (''fastPeriod'', JNumber (em_fastPeriod p)),
     (''slowPeriod'', JNumber (em_slowPeriod p)), (''priceSource'', JString (em_priceSource p))]"

definition describeEma :: "ema_parameters \<Rightarrow> description" where
  "describeEma p =
     \<lparr>ds_normalizedParameters = ema_json p, ds_triggerTimeframeMinutes = em_timeframeMinutes p,
      ds_indicatorRequirements = [\<lparr>rm_alias = ''ema.fast'', rm_timeframeMinutes = em_timeframeMinutes p\<rparr>,
        \<lparr>rm_alias = ''ema.slow'', rm_timeframeMinutes = em_timeframeMinutes p\<rparr>]\<rparr>"

definition emaTrendV1Definition :: implementation where
  "emaTrendV1Definition = \<lparr>im_strategyId = ''EMA_TREND'', im_strategyVersion = ''1.0.0'',
     im_describeConstruction = (\<lambda>raw. rbind (normalizeEmaTrendParameters raw) (\<lambda>p. Inr (describeEma p)))\<rparr>"

text \<open>ATR breakout: the true range of one timeframe, and a multiplier.\<close>

record atr_parameters =
  at_timeframeMinutes :: int
  at_atrPeriod :: int
  at_breakoutMultiplier :: string

definition normalizeAtrBreakoutParameters :: "decimal_js \<Rightarrow> json \<Rightarrow> (risk_error, atr_parameters) res" where
  "normalizeAtrBreakoutParameters D raw =
     rbind (requireExactObject raw [''timeframeMinutes'', ''atrPeriod'', ''breakoutMultiplier'']) (\<lambda>v.
     rbind (strategyTimeframe (v ''timeframeMinutes'')) (\<lambda>t.
     rbind (strategyPeriod (v ''atrPeriod'')) (\<lambda>n.
     rbind (positiveDecimalParameter D (v ''breakoutMultiplier'')) (\<lambda>m.
       Inr \<lparr>at_timeframeMinutes = t, at_atrPeriod = n, at_breakoutMultiplier = m\<rparr>))))"

definition atr_json :: "atr_parameters \<Rightarrow> json" where
  "atr_json p = JObject [(''timeframeMinutes'', JNumber (at_timeframeMinutes p)), (''atrPeriod'', JNumber (at_atrPeriod p)),
     (''breakoutMultiplier'', JString (at_breakoutMultiplier p))]"

definition describeAtr :: "atr_parameters \<Rightarrow> description" where
  "describeAtr p =
     \<lparr>ds_normalizedParameters = atr_json p, ds_triggerTimeframeMinutes = at_timeframeMinutes p,
      ds_indicatorRequirements = [\<lparr>rm_alias = ''atr'', rm_timeframeMinutes = at_timeframeMinutes p\<rparr>]\<rparr>"

definition atrBreakoutV1Definition :: "decimal_js \<Rightarrow> implementation" where
  "atrBreakoutV1Definition D = \<lparr>im_strategyId = ''ATR_BREAKOUT'', im_strategyVersion = ''1.0.0'',
     im_describeConstruction = (\<lambda>raw. rbind (normalizeAtrBreakoutParameters D raw) (\<lambda>p. Inr (describeAtr p)))\<rparr>"

text \<open>RSI momentum: one oscillator and two thresholds within 0 and 100.\<close>

record rsi_parameters =
  rs_timeframeMinutes :: int
  rs_period :: int
  rs_longThreshold :: string
  rs_shortThreshold :: string
  rs_priceSource :: string

definition normalizeRsiMomentumParameters :: "decimal_js \<Rightarrow> json \<Rightarrow> (risk_error, rsi_parameters) res" where
  "normalizeRsiMomentumParameters D raw =
     rbind (requireExactObject raw [''timeframeMinutes'', ''period'', ''longThreshold'', ''shortThreshold'', ''priceSource'']) (\<lambda>v.
     rbind (positiveDecimalParameter D (v ''shortThreshold'')) (\<lambda>short.
     rbind (positiveDecimalParameter D (v ''longThreshold'')) (\<lambda>long.
       if \<not> dnew D short < dnew D long \<or> \<not> dnew D long < 100 then Inl StrategyError
       else
         rbind (strategyTimeframe (v ''timeframeMinutes'')) (\<lambda>t.
         rbind (strategyPeriod (v ''period'')) (\<lambda>n.
         rbind (strategyPriceSource (v ''priceSource'')) (\<lambda>p.
           Inr \<lparr>rs_timeframeMinutes = t, rs_period = n, rs_longThreshold = long, rs_shortThreshold = short,
                rs_priceSource = p\<rparr>))))))"

definition rsi_json :: "rsi_parameters \<Rightarrow> json" where
  "rsi_json p = JObject [(''timeframeMinutes'', JNumber (rs_timeframeMinutes p)), (''period'', JNumber (rs_period p)),
     (''longThreshold'', JString (rs_longThreshold p)), (''shortThreshold'', JString (rs_shortThreshold p)),
     (''priceSource'', JString (rs_priceSource p))]"

definition describeRsi :: "rsi_parameters \<Rightarrow> description" where
  "describeRsi p =
     \<lparr>ds_normalizedParameters = rsi_json p, ds_triggerTimeframeMinutes = rs_timeframeMinutes p,
      ds_indicatorRequirements = [\<lparr>rm_alias = ''rsi'', rm_timeframeMinutes = rs_timeframeMinutes p\<rparr>]\<rparr>"

definition rsiMomentumV1Definition :: "decimal_js \<Rightarrow> implementation" where
  "rsiMomentumV1Definition D = \<lparr>im_strategyId = ''RSI_MOMENTUM'', im_strategyVersion = ''1.0.0'',
     im_describeConstruction = (\<lambda>raw. rbind (normalizeRsiMomentumParameters D raw) (\<lambda>p. Inr (describeRsi p)))\<rparr>"

text \<open>Multi-timeframe trend: two moving averages on every one of several timeframes.\<close>

record mtf_parameters =
  mt_timeframes :: "int list"
  mt_fastPeriod :: int
  mt_slowPeriod :: int
  mt_priceSource :: string

definition normalizeMultiTimeframeTrendParameters :: "json \<Rightarrow> (risk_error, mtf_parameters) res" where
  "normalizeMultiTimeframeTrendParameters raw =
     rbind (requireExactObject raw [''timeframes'', ''fastPeriod'', ''slowPeriod'', ''priceSource'']) (\<lambda>v.
     rbind (sortedDistinctTimeframes (v ''timeframes'')) (\<lambda>ts.
     rbind (strategyPeriod (v ''fastPeriod'')) (\<lambda>f.
     rbind (strategyPeriod (v ''slowPeriod'')) (\<lambda>s.
     rbind (strategyPriceSource (v ''priceSource'')) (\<lambda>p.
       if s < 2 \<or> f \<ge> s then Inl StrategyError
       else Inr \<lparr>mt_timeframes = ts, mt_fastPeriod = f, mt_slowPeriod = s, mt_priceSource = p\<rparr>)))))"

definition mtf_json :: "mtf_parameters \<Rightarrow> json" where
  "mtf_json p = JObject [(''timeframes'', JArray (map JNumber (mt_timeframes p))), (''fastPeriod'', JNumber (mt_fastPeriod p)),
     (''slowPeriod'', JNumber (mt_slowPeriod p)), (''priceSource'', JString (mt_priceSource p))]"

definition fast_alias :: "int \<Rightarrow> string" where
  "fast_alias t = ''tf.'' @ json_integer t @ ''.ema.fast''"

definition slow_alias :: "int \<Rightarrow> string" where
  "slow_alias t = ''tf.'' @ json_integer t @ ''.ema.slow''"

definition mtfRequirements :: "mtf_parameters \<Rightarrow> requirement list" where
  "mtfRequirements p = concat (map (\<lambda>t. [\<lparr>rm_alias = fast_alias t, rm_timeframeMinutes = t\<rparr>,
     \<lparr>rm_alias = slow_alias t, rm_timeframeMinutes = t\<rparr>]) (mt_timeframes p))"

definition describeMtf :: "mtf_parameters \<Rightarrow> (risk_error, description) res" where
  "describeMtf p =
     (case mt_timeframes p of
        [] \<Rightarrow> Inl StrategyError
      | t # _ \<Rightarrow> Inr \<lparr>ds_normalizedParameters = mtf_json p, ds_triggerTimeframeMinutes = t,
                     ds_indicatorRequirements = mtfRequirements p\<rparr>)"

definition multiTimeframeTrendV1Definition :: implementation where
  "multiTimeframeTrendV1Definition = \<lparr>im_strategyId = ''MULTI_TIMEFRAME_TREND'', im_strategyVersion = ''1.0.0'',
     im_describeConstruction = (\<lambda>raw. rbind (normalizeMultiTimeframeTrendParameters raw) describeMtf)\<rparr>"

definition PHASE10_STRATEGY_DEFINITIONS :: "decimal_js \<Rightarrow> implementation list" where
  "PHASE10_STRATEGY_DEFINITIONS D =
     [emaTrendV1Definition, atrBreakoutV1Definition D, rsiMomentumV1Definition D, multiTimeframeTrendV1Definition]"

text \<open>What the risk engine reads of a definition.\<close>

definition definition_view :: "implementation \<Rightarrow> strategy_definition" where
  "definition_view im =
     \<lparr>df_strategyId = im_strategyId im, df_strategyVersion = im_strategyVersion im,
      df_describeConstruction = (\<lambda>raw. rbind (im_describeConstruction im raw) (\<lambda>d.
        Inr \<lparr>co_normalizedParameters = ds_normalizedParameters d, co_triggerTimeframeMinutes = ds_triggerTimeframeMinutes d,
             co_requiredTimeframes = map rm_timeframeMinutes (ds_indicatorRequirements d)\<rparr>))\<rparr>"

definition createKernel ::
    "(string \<Rightarrow> string) \<Rightarrow> implementation \<Rightarrow> string \<Rightarrow> json \<Rightarrow> bootstrap_entry list \<Rightarrow> 's \<Rightarrow> (risk_error, 's kernel) res" where
  "createKernel sha im pair parameters bootstrap memory =
     rbind (im_describeConstruction im parameters) (\<lambda>d.
       newKernel sha \<lparr>kc_pair = pair, kc_strategyId = im_strategyId im, kc_strategyVersion = im_strategyVersion im,
         kc_normalizedParameters = ds_normalizedParameters d, kc_indicatorBootstrapIdentity = bootstrap,
         kc_triggerTimeframeMinutes = ds_triggerTimeframeMinutes d,
         kc_indicatorRequirements = ds_indicatorRequirements d\<rparr> memory)"

subsection \<open>What a kernel makes of the points\<close>

definition indicatorValue :: "points \<Rightarrow> string \<Rightarrow> (strategy_code, string option) res" where
  "indicatorValue ps a =
     (case map_of ps a of None \<Rightarrow> Inl STRATEGY_INPUT_INVALID | Some point \<Rightarrow> indicatorDecimalValue point)"

definition toStrategyCalc :: "decimal_js \<Rightarrow> string \<Rightarrow> (strategy_code, rat) res" where
  "toStrategyCalc D s = (if signed_text s then Inr (dnew D s) else Inl STRATEGY_NUMERIC_FAILURE)"

definition warming :: "string \<Rightarrow> 's strategy_outcome" where
  "warming reason = \<lparr>oc_status = WARMING, oc_targetExposure = None, oc_reasonCodes = [reason], oc_commit = None\<rparr>"

definition ready :: "target_exposure \<Rightarrow> string \<Rightarrow> 's strategy_outcome" where
  "ready target reason = \<lparr>oc_status = READY, oc_targetExposure = Some target, oc_reasonCodes = [reason], oc_commit = None\<rparr>"

definition emaTrend :: "decimal_js \<Rightarrow> 's strategy" where
  "emaTrend D memory snapshot ps =
     rbind (indicatorValue ps ''ema.fast'') (\<lambda>fast.
     rbind (indicatorValue ps ''ema.slow'') (\<lambda>slow.
       case (fast, slow) of
         (Some f, Some s) \<Rightarrow>
           rbind (toStrategyCalc D f) (\<lambda>f.
           rbind (toStrategyCalc D s) (\<lambda>s.
             Inr (if f > s then ready TARGET_LONG ''EMA_FAST_ABOVE_SLOW''
                  else if f < s then ready TARGET_SHORT ''EMA_FAST_BELOW_SLOW''
                  else ready TARGET_FLAT ''EMA_FAST_EQUALS_SLOW'')))
       | _ \<Rightarrow> Inr (warming ''EMA_WARMING'')))"

text \<open>The close and the range of the last ready evaluation are kept; a text with a minus sign is negative, also
  that of a negative zero.\<close>

record atr_memory =
  am_previousReadyClose :: "rat option"
  am_previousReadyAtr :: "rat option"

definition atrBreakout :: "decimal_js \<Rightarrow> atr_parameters \<Rightarrow> atr_memory strategy" where
  "atrBreakout D p memory snapshot ps =
     rbind (indicatorValue ps ''atr'') (\<lambda>atr.
       case atr of
         None \<Rightarrow> Inr (warming ''ATR_INDICATOR_WARMING'')
       | Some a \<Rightarrow>
           rbind (toStrategyCalc D (ck_close (ev_triggerClosedCandle snapshot))) (\<lambda>currentClose.
           rbind (toStrategyCalc D a) (\<lambda>currentAtr.
             if negative_text a then Inl STRATEGY_NUMERIC_FAILURE
             else
               let kept = Some (Inr \<lparr>am_previousReadyClose = Some currentClose, am_previousReadyAtr = Some currentAtr\<rparr>)
               in Inr ((case (am_previousReadyClose memory, am_previousReadyAtr memory) of
                     (Some previousClose, Some previousAtr) \<Rightarrow>
                       let move = dround D (previousAtr * dnew D (at_breakoutMultiplier p));
                           upper = dround D (previousClose + move); lower = dround D (previousClose - move)
                       in if currentClose > upper then ready TARGET_LONG ''ATR_BREAKOUT_UP''
                          else if currentClose < lower then ready TARGET_SHORT ''ATR_BREAKOUT_DOWN''
                          else ready TARGET_FLAT ''ATR_NO_BREAKOUT''
                   | _ \<Rightarrow> warming ''ATR_REFERENCE_WARMING'')\<lparr>oc_commit := kept\<rparr>))))"

definition rsiMomentum :: "decimal_js \<Rightarrow> rsi_parameters \<Rightarrow> 's strategy" where
  "rsiMomentum D p memory snapshot ps =
     rbind (indicatorValue ps ''rsi'') (\<lambda>v.
       case v of
         None \<Rightarrow> Inr (warming ''RSI_WARMING'')
       | Some s \<Rightarrow>
           rbind (toStrategyCalc D s) (\<lambda>rsi.
             if rsi < 0 \<or> rsi > 100 then Inl STRATEGY_NUMERIC_FAILURE
             else Inr (if rsi \<ge> dnew D (rs_longThreshold p) then ready TARGET_LONG ''RSI_LONG_THRESHOLD''
                       else if rsi \<le> dnew D (rs_shortThreshold p) then ready TARGET_SHORT ''RSI_SHORT_THRESHOLD''
                       else ready TARGET_FLAT ''RSI_NEUTRAL'')))"

text \<open>The comparisons in the order of the timeframes; the first one that is not ready ends the loop.\<close>

fun mtfStates :: "decimal_js \<Rightarrow> points \<Rightarrow> int list \<Rightarrow> (strategy_code, target_exposure list option) res" where
  "mtfStates D ps [] = Inr (Some [])"
| "mtfStates D ps (t # ts) =
     rbind (indicatorValue ps (fast_alias t)) (\<lambda>fast.
     rbind (indicatorValue ps (slow_alias t)) (\<lambda>slow.
       case (fast, slow) of
         (Some f, Some s) \<Rightarrow>
           rbind (toStrategyCalc D f) (\<lambda>f.
           rbind (toStrategyCalc D s) (\<lambda>s.
           rbind (mtfStates D ps ts) (\<lambda>rest.
             Inr (map_option (\<lambda>r. (if f > s then TARGET_LONG else if f < s then TARGET_SHORT else TARGET_FLAT) # r) rest))))
       | _ \<Rightarrow> Inr None))"

definition mtfTrend :: "decimal_js \<Rightarrow> mtf_parameters \<Rightarrow> 's strategy" where
  "mtfTrend D p memory snapshot ps =
     rbind (mtfStates D ps (mt_timeframes p)) (\<lambda>states.
       case states of
         None \<Rightarrow> Inr (warming ''MTF_WARMING'')
       | Some xs \<Rightarrow>
           Inr (if list_all (\<lambda>x. x = TARGET_LONG) xs then ready TARGET_LONG ''MTF_ALL_BULLISH''
                else if list_all (\<lambda>x. x = TARGET_SHORT) xs then ready TARGET_SHORT ''MTF_ALL_BEARISH''
                else ready TARGET_FLAT ''MTF_MIXED''))"

subsection \<open>Normal parameters describe themselves\<close>

lemma positiveSafeInteger_Inr: "positiveSafeInteger m v = Inr n \<Longrightarrow> positiveSafeInteger m (JNumber n) = Inr n"
  by (auto simp: positiveSafeInteger_def split: json.splits if_splits)

lemmas integer_again = positiveSafeInteger_Inr[of MAX_STRATEGY_PERIOD, folded strategyPeriod_def]
  positiveSafeInteger_Inr[of MAX_STRATEGY_TIMEFRAME_MINUTES, folded strategyTimeframe_def]

lemma strategyPriceSource_again: "strategyPriceSource v = Inr s \<Longrightarrow> strategyPriceSource (JString s) = Inr s"
  by (auto simp: strategyPriceSource_def split: json.splits if_splits)

lemma positiveDecimal_again: "positiveDecimalParameter D v = Inr s \<Longrightarrow> positiveDecimalParameter D (JString s) = Inr s"
proof -
  assume a: "positiveDecimalParameter D v = Inr s"
  then have "normalizeCanonicalDecimalString v = Inr s" "0 < dnew D s"
    by (auto simp: positiveDecimalParameter_def elim!: rbindE split: if_splits)
  moreover from this obtain t where "canonicalDecimalString t = Inr s"
    by (auto simp: normalizeCanonicalDecimalString_def split: json.splits sum.splits)
  ultimately show ?thesis using dec.idempotent by (simp add: positiveDecimalParameter_def normalizeCanonicalDecimalString_def)
qed

lemma timeframes_again:
  assumes "sortedDistinctTimeframes v = Inr ts"
  shows "sortedDistinctTimeframes (JArray (map JNumber ts)) = Inr ts" and "2 \<le> length ts" and "sorted ts"
proof -
  obtain vs us where v: "v = JArray vs" "2 \<le> length vs" "mapR strategyTimeframe vs = Inr us" "distinct us" "ts = sort us"
    using assms by (auto simp: sortedDistinctTimeframes_def elim!: rbindE split: json.splits if_splits)
  have len: "length us = length vs" using v(3)
    by (induction vs arbitrary: us) (auto elim!: rbindE)
  have "\<forall>u\<in>set us. strategyTimeframe (JNumber u) = Inr u" using v(3)
    by (induction vs arbitrary: us) (auto simp: integer_again elim!: rbindE)
  then have "\<forall>u\<in>set ts. strategyTimeframe (JNumber u) = Inr u" by (simp add: v(5))
  then have m: "mapR strategyTimeframe (map JNumber ts) = Inr ts" by (induction ts) auto
  show "2 \<le> length ts" "sorted ts" using len v by simp_all
  have d: "distinct ts" using v by simp
  have "\<not> length (map JNumber ts) < 2" using len v by simp
  then show "sortedDistinctTimeframes (JArray (map JNumber ts)) = Inr ts"
    using m d \<open>sorted ts\<close> by (simp add: sortedDistinctTimeframes_def sorted_sort_id)
qed

lemma exact_object:
  "list_all (\<lambda>k. List.member ks k) (map fst ms) \<Longrightarrow> list_all (\<lambda>k. List.member (map fst ms) k) ks \<Longrightarrow>
   requireExactObject (JObject ms) ks = Inr (\<lambda>k. case map_of ms k of None \<Rightarrow> JUnsupported | Some x \<Rightarrow> x)"
  by (simp only: requireExactObject_def json.case if_True simp_thms)

lemma parameters_again:
  assumes "im \<in> set (PHASE10_STRATEGY_DEFINITIONS D)" and "im_describeConstruction im raw = Inr d"
  shows "im_describeConstruction im (ds_normalizedParameters d) = Inr d"
proof -
  have ema: ?thesis if im: "im = emaTrendV1Definition"
  proof -
    obtain p where p: "normalizeEmaTrendParameters raw = Inr p" and d: "d = describeEma p"
      using assms(2) im by (auto simp: emaTrendV1Definition_def elim!: rbindE)
    from p have "normalizeEmaTrendParameters (ema_json p) = Inr p"
      unfolding normalizeEmaTrendParameters_def
      by (auto simp: ema_json_def exact_object integer_again strategyPriceSource_again elim!: rbindE split: if_splits)
    then show ?thesis by (simp add: im d emaTrendV1Definition_def describeEma_def)
  qed
  have atr: ?thesis if im: "im = atrBreakoutV1Definition D"
  proof -
    obtain p where p: "normalizeAtrBreakoutParameters D raw = Inr p" and d: "d = describeAtr p"
      using assms(2) im by (auto simp: atrBreakoutV1Definition_def elim!: rbindE)
    from p have "normalizeAtrBreakoutParameters D (atr_json p) = Inr p"
      unfolding normalizeAtrBreakoutParameters_def
      by (auto simp: atr_json_def exact_object integer_again positiveDecimal_again elim!: rbindE split: if_splits)
    then show ?thesis by (simp add: im d atrBreakoutV1Definition_def describeAtr_def)
  qed
  have rsi: ?thesis if im: "im = rsiMomentumV1Definition D"
  proof -
    obtain p where p: "normalizeRsiMomentumParameters D raw = Inr p" and d: "d = describeRsi p"
      using assms(2) im by (auto simp: rsiMomentumV1Definition_def elim!: rbindE)
    from p have "normalizeRsiMomentumParameters D (rsi_json p) = Inr p"
      unfolding normalizeRsiMomentumParameters_def
      by (auto simp: rsi_json_def exact_object integer_again positiveDecimal_again strategyPriceSource_again
          elim!: rbindE split: if_splits)
    then show ?thesis by (simp add: im d rsiMomentumV1Definition_def describeRsi_def)
  qed
  have mtf: ?thesis if im: "im = multiTimeframeTrendV1Definition"
  proof -
    obtain p where p: "normalizeMultiTimeframeTrendParameters raw = Inr p" and d: "describeMtf p = Inr d"
      using assms(2) im by (auto simp: multiTimeframeTrendV1Definition_def elim!: rbindE)
    from p have "normalizeMultiTimeframeTrendParameters (mtf_json p) = Inr p"
      unfolding normalizeMultiTimeframeTrendParameters_def
      by (auto simp: mtf_json_def exact_object integer_again timeframes_again(1) strategyPriceSource_again
          elim!: rbindE split: if_splits)
    moreover have "ds_normalizedParameters d = mtf_json p" using d by (auto simp: describeMtf_def split: list.splits)
    ultimately show ?thesis using d by (simp add: im multiTimeframeTrendV1Definition_def)
  qed
  from assms(1) ema atr rsi mtf show ?thesis unfolding PHASE10_STRATEGY_DEFINITIONS_def by auto
qed

lemma definition_found:
  assumes "im \<in> set (PHASE10_STRATEGY_DEFINITIONS D)"
  shows "find (\<lambda>g. df_strategyId g = df_strategyId (definition_view im) \<and> df_strategyVersion g = df_strategyVersion (definition_view im))
           (map definition_view (PHASE10_STRATEGY_DEFINITIONS D)) = Some (definition_view im)"
  using assms
  by (auto simp: PHASE10_STRATEGY_DEFINITIONS_def definition_view_def emaTrendV1Definition_def atrBreakoutV1Definition_def
      rsiMomentumV1Definition_def multiTimeframeTrendV1Definition_def)

lemma created_kernel_built_by:
  assumes "im \<in> set (PHASE10_STRATEGY_DEFINITIONS D)" and "createKernel sha im pair raw bootstrap memory = Inr k"
  shows "built_by (definition_view im) (kn_instance k)"
proof -
  obtain d where d: "im_describeConstruction im raw = Inr d"
    and k: "newKernel sha \<lparr>kc_pair = pair, kc_strategyId = im_strategyId im, kc_strategyVersion = im_strategyVersion im,
         kc_normalizedParameters = ds_normalizedParameters d, kc_indicatorBootstrapIdentity = bootstrap,
         kc_triggerTimeframeMinutes = ds_triggerTimeframeMinutes d,
         kc_indicatorRequirements = ds_indicatorRequirements d\<rparr> memory = Inr k"
    using assms(2) by (auto simp: createKernel_def elim!: rbindE)
  have "normalizeIndicatorBootstrapIdentity es tfs = Inr b \<Longrightarrow> map be_timeframeMinutes b = sort (set_of_values tfs)" for es tfs b
    by (auto simp: normalizeIndicatorBootstrapIdentity_def Let_def elim!: rbindE split: if_splits)
  with k parameters_again[OF assms(1) d] show ?thesis
    by (auto simp: newKernel_def built_by_def definition_view_def elim!: rbindE split: if_splits)
qed

text \<open>Describing a strategy normalizes its parameters once and for all: whichever of the four definitions it is, if raw
  parameters are described, then the normalized ones are described, by the same description.\<close>

theorem normal_parameters_describe_themselves:
  assumes "im \<in> set (PHASE10_STRATEGY_DEFINITIONS D)" and "im_describeConstruction im raw = Inr d"
  shows "im_describeConstruction im (ds_normalizedParameters d) = Inr d"
  by (rule parameters_again[OF assms])

text \<open>C16. A kernel created by one of the four definitions only issues decisions the risk engine, given the same definitions,
  accepts the lineage of, whatever candles it was fed; those that are not ready are not handed over.\<close>

theorem strategy_decisions_reach_the_engine:
  assumes "im \<in> set (PHASE10_STRATEGY_DEFINITIONS D)" and "createKernel sha im pair raw bootstrap memory = Inr k0"
    and "kernel_reachable sha strategy k" and "kn_instance k = kn_instance k0" and "d \<in> set (kn_issuedDecisions k)"
  shows "case createStrategyRiskHandoff k d spec of
           Inl _ \<Rightarrow> False
         | Inr None \<Rightarrow> sd_status d = WARMING
         | Inr (Some (candidate, origin)) \<Rightarrow> sd_status d = READY \<and> cd_strategyDecision candidate = d
             \<and> strategyLineageReasons sha (map definition_view (PHASE10_STRATEGY_DEFINITIONS D)) candidate (Some origin) = Inr []"
proof -
  have "built_by (definition_view im) (kn_instance k)"
    using created_kernel_built_by[OF assms(1,2)] assms(4) by simp
  note h = handed_over[OF assms(3) this definition_found[OF assms(1)] assms(5), of spec]
  show ?thesis
  proof (cases "sd_status d")
    case WARMING
    then show ?thesis using h(2) by simp
  next
    case READY
    then show ?thesis using h(1) by auto
  qed
qed

subsection \<open>A sample\<close>

text \<open>An RSI kernel on five minutes with thresholds 30 and 70 that sees 71.5 at its first close.\<close>

definition sample_hex :: "string \<Rightarrow> string" where
  "sample_hex t = replicate 64 (CHR ''0'')"

definition sample_rsi :: rsi_parameters where
  "sample_rsi = \<lparr>rs_timeframeMinutes = 5, rs_period = 14, rs_longThreshold = ''70'', rs_shortThreshold = ''30'',
     rs_priceSource = ''CLOSE''\<rparr>"

definition sample_candle :: candle_snapshot where
  "sample_candle = \<lparr>ck_pair = ''B-BTC_USDT'', ck_timeframeMinutes = 5, ck_openTimeMs = 0, ck_closeTimeExclusiveMs = 300000,
     ck_open = ''10'', ck_high = ''12'', ck_low = ''9.5'', ck_close = ''11'', ck_volume = ''3'', ck_quoteVolume = None\<rparr>"

definition sample_evaluation :: evaluation_snapshot where
  "sample_evaluation = \<lparr>ev_pair = ''B-BTC_USDT'', ev_evaluationTimeMs = 300000, ev_triggerClosedCandle = sample_candle,
     ev_latestClosedCandleByTimeframe = [(5, sample_candle)], ev_candlesClosedAtThisTimestamp = [sample_candle],
     ev_latestIndicatorPointByAlias = [''rsi'' \<mapsto> \<lparr>ip_pair = ''B-BTC_USDT'', ip_timeframeMinutes = 5, ip_openTimeMs = 0,
        ip_closeTimeExclusiveMs = 300000, ip_value = SCALAR ''71.5''\<rparr>]\<rparr>"

definition sample_kernel :: "unit kernel" where
  "sample_kernel = \<lparr>kn_instance = \<lparr>si_pair = ''B-BTC_USDT'', si_strategyId = ''RSI_MOMENTUM'', si_strategyVersion = ''1.0.0'',
       si_parameterHash = sample_hex [], si_strategyInstanceId = sample_hex [], si_normalizedParameters = rsi_json sample_rsi,
       si_indicatorBootstrapIdentity = [\<lparr>be_timeframeMinutes = 5, be_bootstrapStartOpenTimeMs = 0\<rparr>],
       si_triggerTimeframeMinutes = 5\<rparr>,
     kn_indicatorRequirements = [\<lparr>rm_alias = ''rsi'', rm_timeframeMinutes = 5\<rparr>], kn_terminated = False,
     kn_nextDecisionSequence = 1, kn_lastEvaluationTimeMs = None, kn_indicatorReadySeenByAlias = [],
     kn_issuedDecisions = [], kn_memory = ()\<rparr>"

definition sample_decision_of_kernel :: strategy_decision where
  "sample_decision_of_kernel = \<lparr>sd_decisionId = sample_hex [], sd_decisionSequence = 1, sd_strategyInstanceId = sample_hex [],
     sd_strategyId = ''RSI_MOMENTUM'', sd_strategyVersion = ''1.0.0'', sd_parameterHash = sample_hex [], sd_pair = ''B-BTC_USDT'',
     sd_evaluationTimeMs = 300000, sd_triggerTimeframeMinutes = 5, sd_status = READY,
     sd_targetExposure = Some TARGET_LONG, sd_reasonCodes = [''RSI_LONG_THRESHOLD'']\<rparr>"

lemma sample_described:
  "im_describeConstruction (rsiMomentumV1Definition (half_up 128)) (rsi_json sample_rsi) = Inr (describeRsi sample_rsi)"
  by code_simp

lemma sample_hex_any: "strategySha256CanonicalJson sample_hex v = Inr (sample_hex [])"
  if "\<not> has_decimal v" "json_supported v" for v
  using that by (simp add: strategySha_Inr sample_hex_def)

lemma sample_kernel_created:
  "createKernel sample_hex (rsiMomentumV1Definition (half_up 128)) ''B-BTC_USDT'' (rsi_json sample_rsi)
     [\<lparr>be_timeframeMinutes = 5, be_bootstrapStartOpenTimeMs = 0\<rparr>] () = Inr sample_kernel"
proof -
  have p: "strategySha256CanonicalJson sample_hex (rsi_json sample_rsi) = Inr (sample_hex [])"
    by (rule sample_hex_any) code_simp+
  have b: "normalizeIndicatorBootstrapIdentity [\<lparr>be_timeframeMinutes = 5, be_bootstrapStartOpenTimeMs = 0\<rparr>] [5] =
      Inr [\<lparr>be_timeframeMinutes = 5, be_bootstrapStartOpenTimeMs = 0\<rparr>]"
    by code_simp
  have i: "computeStrategyInstanceId sample_hex ''B-BTC_USDT'' ''RSI_MOMENTUM'' ''1.0.0'' (sample_hex [])
      [\<lparr>be_timeframeMinutes = 5, be_bootstrapStartOpenTimeMs = 0\<rparr>] = Inr (sample_hex [])"
  proof -
    have "trim ''B-BTC_USDT'' = ''B-BTC_USDT''" "is_sha256 (sample_hex [])" by code_simp+
    moreover have "strategySha256CanonicalJson sample_hex (JObject
        [(''indicatorBootstrapIdentity'', bootstrap_json [\<lparr>be_timeframeMinutes = 5, be_bootstrapStartOpenTimeMs = 0\<rparr>]), (''pair'', JString ''B-BTC_USDT''),
         (''parameterHash'', JString (sample_hex [])), (''strategyId'', JString ''RSI_MOMENTUM''),
         (''strategyVersion'', JString ''1.0.0'')]) = Inr (sample_hex [])"
      by (rule sample_hex_any) code_simp+
    ultimately show ?thesis by (simp add: computeStrategyInstanceId_def)
  qed
  have a: "stable_alias ''rsi''" by code_simp
  have id: "im_strategyId (rsiMomentumV1Definition (half_up 128)) = ''RSI_MOMENTUM''"
    "im_strategyVersion (rsiMomentumV1Definition (half_up 128)) = ''1.0.0''"
    by (simp_all add: rsiMomentumV1Definition_def)
  have d: "ds_normalizedParameters (describeRsi sample_rsi) = rsi_json sample_rsi" "ds_triggerTimeframeMinutes (describeRsi sample_rsi) = 5"
    "ds_indicatorRequirements (describeRsi sample_rsi) = [\<lparr>rm_alias = ''rsi'', rm_timeframeMinutes = 5\<rparr>]"
    by (simp_all add: describeRsi_def sample_rsi_def)
  show ?thesis
    using p b i a unfolding createKernel_def sample_described id
    by (simp add: newKernel_def d sample_kernel_def)
qed

lemma sample_issues:
  "evaluateKernel sample_hex (rsiMomentum (half_up 128) sample_rsi) sample_evaluation sample_kernel =
     (Inr sample_decision_of_kernel, (advanceKernel sample_evaluation
        [(''rsi'', \<lparr>ip_pair = ''B-BTC_USDT'', ip_timeframeMinutes = 5, ip_openTimeMs = 0, ip_closeTimeExclusiveMs = 300000, ip_value = SCALAR ''71.5''\<rparr>)]
        sample_kernel)\<lparr>kn_issuedDecisions := [sample_decision_of_kernel]\<rparr>)"
proof -
  let ?p = "\<lparr>ip_pair = ''B-BTC_USDT'', ip_timeframeMinutes = 5, ip_openTimeMs = 0, ip_closeTimeExclusiveMs = 300000, ip_value = SCALAR ''71.5''\<rparr>"
  let ?oc = "ready TARGET_LONG ''RSI_LONG_THRESHOLD'' :: unit strategy_outcome"
  have v: "validateSnapshot sample_kernel sample_evaluation = Inr [(''rsi'', ?p)]" by code_simp
  have s: "rsiMomentum (half_up 128) sample_rsi () sample_evaluation [(''rsi'', ?p)] = Inr ?oc" by code_simp
  have o': "validateOutcome ?oc = Inr ()" by code_simp
  have k: "kernelDecision sample_hex sample_kernel sample_evaluation ?oc = Inr sample_decision_of_kernel"
    by (simp add: kernelDecision_def recomputeStrategyDecisionId_def sample_hex_any sample_kernel_def ready_def sample_evaluation_def
        target_json_def text_array_def isSafeInteger_def sample_decision_of_kernel_def)
  have f: "kn_terminated sample_kernel = False" "kn_memory sample_kernel = ()" "kn_nextDecisionSequence sample_kernel = 1"
    "kn_issuedDecisions sample_kernel = []"
    by (simp_all add: sample_kernel_def)
  have c: "oc_commit ?oc = None" by (simp add: ready_def)
  show ?thesis
    unfolding evaluateKernel_def evaluateDecision_def v f using s o' k c f
    by (simp add: isSafeInteger_def Let_def)
qed

definition sample_run :: "unit kernel" where
  "sample_run = snd (evaluateKernel sample_hex (rsiMomentum (half_up 128) sample_rsi) sample_evaluation sample_kernel)"

lemma sample_run_reachable: "kernel_reachable sample_hex (rsiMomentum (half_up 128) sample_rsi) sample_run"
proof -
  have "kernel_reachable sample_hex (rsiMomentum (half_up 128) sample_rsi) sample_kernel"
    using sample_kernel_created by (auto simp: createKernel_def intro: kernel_reachable.fresh elim!: rbindE)
  from kernel_reachable.evaluated[OF this sample_issues] show ?thesis by (simp add: sample_run_def sample_issues)
qed

lemma sample_run_fields: "kn_issuedDecisions sample_run = [sample_decision_of_kernel]" "kn_instance sample_run = kn_instance sample_kernel"
  by (simp_all add: sample_run_def sample_issues)

lemma sample_definition: "rsiMomentumV1Definition (half_up 128) \<in> set (PHASE10_STRATEGY_DEFINITIONS (half_up 128))"
  by (simp add: PHASE10_STRATEGY_DEFINITIONS_def)

theorem issued_decisions_numbered_witness:
  "kernel_reachable sample_hex (rsiMomentum (half_up 128) sample_rsi) sample_run
   \<and> map sd_decisionSequence (kn_issuedDecisions sample_run) = [1]"
  using issued_decisions_numbered[OF sample_run_reachable] sample_run_reachable by (simp add: sample_run_fields)

theorem issued_decisions_have_lineage_witness:
  "\<exists>candidate origin. createStrategyRiskHandoff sample_run sample_decision_of_kernel ''spec'' = Inr (Some (candidate, origin))
     \<and> strategyLineageReasons sample_hex (map definition_view (PHASE10_STRATEGY_DEFINITIONS (half_up 128))) candidate (Some origin) = Inr []"
proof -
  have "built_by (definition_view (rsiMomentumV1Definition (half_up 128))) (kn_instance sample_run)"
    unfolding sample_run_fields by (rule created_kernel_built_by[OF sample_definition sample_kernel_created])
  from issued_decisions_have_lineage[OF sample_run_reachable this definition_found[OF sample_definition], of sample_decision_of_kernel "''spec''"]
  show ?thesis by (auto simp: sample_run_fields sample_decision_of_kernel_def)
qed

theorem normal_parameters_describe_themselves_witness:
  "im_describeConstruction (rsiMomentumV1Definition (half_up 128)) (ds_normalizedParameters (describeRsi sample_rsi)) = Inr (describeRsi sample_rsi)"
  by (rule normal_parameters_describe_themselves[OF sample_definition sample_described])

theorem strategy_decisions_reach_the_engine_witness:
  "\<exists>candidate origin. createStrategyRiskHandoff sample_run sample_decision_of_kernel ''spec'' = Inr (Some (candidate, origin))
     \<and> cd_strategyDecision candidate = sample_decision_of_kernel"
proof -
  have "sample_decision_of_kernel \<in> set (kn_issuedDecisions sample_run)" by (simp add: sample_run_fields)
  from strategy_decisions_reach_the_engine[OF sample_definition sample_kernel_created sample_run_reachable sample_run_fields(2) this, of "''spec''"]
  show ?thesis by (auto simp: sample_decision_of_kernel_def split: sum.splits option.splits)
qed

end
