(* ===== verification/Live_Authority.thy ===== *)
theory Live_Authority
  imports Live_Intent Live_Gate Admission Risk_Policy Strategy_Definitions
begin

section \<open>The authority behind a live order\<close>

text \<open>
  \<^verbatim>\<open>src/execution/live/authority.ts\<close>, \<^verbatim>\<open>src/dispatch/strategy-dispatch.ts\<close> and
  \<^verbatim>\<open>src/research/research-validation/approval-authority.ts\<close>: the two compositions through which alone a strategy
  decision becomes a live intent. A value whose genuineness the code checks by a private field is an option: None
  stands for a forged or foreign object. The coordinator is a state; a grant it made stays when a later step throws.
  The lemmas show what a minted opening rests on and keeps within, and that a minted closing only reduces.
\<close>

subsection \<open>The engine of a live admission\<close>

text \<open>\<^verbatim>\<open>createRiskEngine(request.policy).evaluateRisk(context)\<close> of the coordinator.\<close>

definition live_engine ::
    "(string \<Rightarrow> string) \<Rightarrow> strategy_definition list \<Rightarrow> calc_js \<Rightarrow> risk_policy \<Rightarrow> risk_context \<Rightarrow> (admission_error, risk_decision) res" where
  "live_engine sha definitions C policy c =
     riskR (rbind (newRiskEngine sha (cj_D C) policy) (\<lambda>p. evaluateRisk sha definitions C p c))"

lemma live_engine_accepts:
  "live_engine sha definitions C policy c = Inr d \<longleftrightarrow>
     (\<exists>p. newRiskEngine sha (cj_D C) policy = Inr p \<and> evaluateRisk sha definitions C p c = Inr d)"
  by (auto simp: live_engine_def riskR_def rbind_eq_Inr split: sum.splits)

lemma newRiskEngine_made:
  assumes "newRiskEngine sha D policy = Inr p"
  shows "createRiskPolicy sha D (policyDraftFromPolicy policy) = Inr p"
  using assms by (auto simp: newRiskEngine_def elim!: rbindE split: if_splits)

subsection \<open>Research approval\<close>

datatype verdict = PASSED | FAILED | INSUFFICIENT_EVIDENCE

record validation_record =
  vr_validationSubjectId :: string
  vr_verdict :: verdict
  vr_validationSubjectResultSha256 :: string

record plan_result =
  vq_validationPlanId :: string
  vq_subjectResults :: "validation_record list"

record research_approval =
  ra_pair :: string
  ra_strategyId :: string
  ra_strategyVersion :: string
  ra_parameterHash :: string
  ra_validationSubjectId :: string
  ra_validationPlanId :: string
  ra_validationSubjectResultSha256 :: string

text \<open>The subject is the instance of the kernel that wants to trade.\<close>

definition validation_subject :: "strategy_instance \<Rightarrow> json" where
  "validation_subject i = JObject
     [(''pair'', JString (si_pair i)), (''strategyId'', JString (si_strategyId i)),
      (''strategyVersion'', JString (si_strategyVersion i)), (''parameterHash'', JString (si_parameterHash i))]"

definition issueResearchApprovalOrigin ::
    "(string \<Rightarrow> string) \<Rightarrow> plan_result option \<Rightarrow> strategy_instance \<Rightarrow> (json_error, research_approval option) res" where
  "issueResearchApprovalOrigin sha planResult i =
     (case planResult of
        None \<Rightarrow> Inr None
      | Some plan \<Rightarrow>
          rbind (sha256CanonicalJson sha (validation_subject i)) (\<lambda>validationSubjectId.
            case find (\<lambda>e. vr_validationSubjectId e = validationSubjectId) (vq_subjectResults plan) of
              None \<Rightarrow> Inr None
            | Some e \<Rightarrow>
                if vr_verdict e \<noteq> PASSED then Inr None
                else Inr (Some \<lparr>ra_pair = si_pair i, ra_strategyId = si_strategyId i, ra_strategyVersion = si_strategyVersion i,
                       ra_parameterHash = si_parameterHash i, ra_validationSubjectId = validationSubjectId,
                       ra_validationPlanId = vq_validationPlanId plan,
                       ra_validationSubjectResultSha256 = vr_validationSubjectResultSha256 e\<rparr>)))"

definition authorizeStrategyDispatch ::
    "'s kernel \<Rightarrow> strategy_decision \<Rightarrow> string \<Rightarrow> research_approval option
     \<Rightarrow> (risk_error, (strategy_candidate \<times> decision_origin) option) res" where
  "authorizeStrategyDispatch k d instrumentSpecSnapshotId researchApproval =
     (case researchApproval of
        None \<Rightarrow> Inr None
      | Some approval \<Rightarrow>
          let i = kn_instance k in
          if ra_pair approval \<noteq> si_pair i \<or> ra_strategyId approval \<noteq> si_strategyId i
             \<or> ra_strategyVersion approval \<noteq> si_strategyVersion i \<or> ra_parameterHash approval \<noteq> si_parameterHash i
          then Inr None
          else createStrategyRiskHandoff k d instrumentSpecSnapshotId)"

subsection \<open>Authorities\<close>

datatype accepted_decision = OPENING accepted_open_decision | CLOSING "decision_base \<times> approved_close"

definition accepted_base :: "accepted_decision \<Rightarrow> decision_base" where
  "accepted_base d = (case d of OPENING (b, _) \<Rightarrow> b | CLOSING (b, _) \<Rightarrow> b)"

record live_authority =
  la_action :: live_action
  la_accountId :: string
  la_pair :: string
  la_intentId :: string
  la_clientOrderId :: string
  la_intent :: intent_record
  la_decision :: accepted_decision
  la_researchApproval :: "research_approval option"
  la_strategyOrigin :: decision_origin
  la_admission :: "admission_record option"

definition readLiveAuthorityForIntent ::
    "live_authority option \<Rightarrow> intent_record option \<Rightarrow> (live_code, live_authority) res" where
  "readLiveAuthorityForIntent authority intent =
     (case authority of
        None \<Rightarrow> Inl LIVE_AUTHORITY_INVALID
      | Some a \<Rightarrow>
          (case intent of
             None \<Rightarrow> Inl LIVE_INTENT_INVALID
           | Some r \<Rightarrow>
               if la_intentId a \<noteq> ir_intentId r \<or> la_clientOrderId a \<noteq> ir_clientOrderId r
                  \<or> la_accountId a \<noteq> ic_accountId (ir_content r) \<or> la_pair a \<noteq> ic_pair (ir_content r)
                  \<or> la_action a \<noteq> ic_action (ir_content r)
                  \<or> db_riskDecisionId (accepted_base (la_decision a)) \<noteq> ic_riskDecisionId (ir_content r)
               then Inl LIVE_AUTHORITY_INVALID
               else Inr a))"

subsection \<open>What a mint is given\<close>

text \<open>The evidence is a context whose candidate and origin are still to be filled in.\<close>

record 's mint_input =
  mi_enablement :: "enablement option"
  mi_accountId :: string
  mi_kernel :: "'s kernel"
  mi_decision :: strategy_decision
  mi_instrumentSpecSnapshotId :: string
  mi_riskPolicy :: risk_policy
  mi_evidence :: risk_context
  mi_livePolicy :: policy_snapshot
  mi_constraints :: instrument_constraints
  mi_shape :: shape_request

datatype mint_error =
    MintLive live_code
  | MintThrown thrown
  | MintStrategy risk_error
  | MintAdmission admission_error
  | MintDigest json_error

definition liftL :: "('e \<Rightarrow> 'f) \<Rightarrow> ('e, 'a) res \<Rightarrow> ('f, 'a) res" where
  "liftL f m = (case m of Inl e \<Rightarrow> Inl (f e) | Inr x \<Rightarrow> Inr x)"

lemma liftL_Inr [simp]: "liftL f m = Inr x \<longleftrightarrow> m = Inr x"
  by (cases m) (simp_all add: liftL_def)

lemma liftL_made [simp]: "liftL f (Inr x) = Inr x" "liftL f (Inl e) = Inl (f e)"
  by (simp_all add: liftL_def)

definition sameEconomics :: "decimal_js \<Rightarrow> string option \<times> string option \<Rightarrow> (live_code, unit) res" where
  "sameEconomics D v =
     (case v of
        (Some executionValue, Some riskValue) \<Rightarrow>
          rbind (liveDecimal D executionValue) (\<lambda>x.
          rbind (liveDecimal D riskValue) (\<lambda>y.
            if x = y then Inr () else Inl LIVE_AUTHORITY_INVALID))
      | (executionValue, riskValue) \<Rightarrow>
          if executionValue \<noteq> riskValue then Inl LIVE_AUTHORITY_INVALID else Inr ())"

definition economics_pairs :: "instrument_constraints \<Rightarrow> pair_snapshot \<Rightarrow> (string option \<times> string option) list" where
  "economics_pairs c p =
     [(Some (icn_priceIncrement c), Some (ps_priceIncrement p)),
      (Some (icn_quantityIncrement c), Some (ps_quantityIncrement p)),
      (Some (icn_contractMultiplier c), Some (ps_contractMultiplier p)),
      (Some (icn_minQuantity c), Some (ps_minQuantity p)), (Some (icn_maxQuantity c), Some (ps_maxQuantity p)),
      (Some (icn_minPrice c), Some (ps_minPrice p)), (Some (icn_maxPrice c), Some (ps_maxPrice p)),
      (Some (icn_minNotional c), Some (ps_minNotional p)), (icn_maxNotional c, ps_maxNotional p)]"

definition assertInstrumentChain :: "decimal_js \<Rightarrow> 's mint_input \<Rightarrow> (live_code, unit) res" where
  "assertInstrumentChain D input =
     (let x = mi_evidence input; ps = rc_pairSnapshot x; c = mi_constraints input;
          pair = si_pair (kn_instance (mi_kernel input)) in
      if pc_pair (rp_pairConfig (mi_riskPolicy input)) \<noteq> pair \<or> ps_pair ps \<noteq> pair \<or> icn_pair c \<noteq> pair
      then Inl LIVE_AUTHORITY_INVALID
      else if mi_instrumentSpecSnapshotId input \<noteq> ps_instrumentSpecSnapshotId ps
              \<or> mi_instrumentSpecSnapshotId input \<noteq> icn_instrumentSpecSnapshotId c
      then Inl LIVE_AUTHORITY_INVALID
      else if map_option ac_accountId (rc_accountSnapshot x) \<noteq> Some (mi_accountId input)
              \<or> map_option ex_accountId (rc_exposureSnapshot x) \<noteq> Some (mi_accountId input)
              \<or> reconciledAccount (ps_ownership ps) \<noteq> Some (mi_accountId input)
      then Inl LIVE_AUTHORITY_INVALID
      else
        rbind (foldl_res (\<lambda>_. sameEconomics D) () (economics_pairs c ps)) (\<lambda>_.
          case rc_settlementRateSnapshot x of
            None \<Rightarrow> Inl LIVE_AUTHORITY_INVALID
          | Some s \<Rightarrow>
              if st_sourceCurrency s \<noteq> icn_quoteCurrency c \<or> st_targetCurrency s \<noteq> ''INR''
              then Inl LIVE_AUTHORITY_INVALID else Inr ()))"

definition openSideFor :: "position_side \<Rightarrow> order_side" where
  "openSideFor direction = (if direction = LONG then BUY else SELL)"

definition closeSideFor :: "position_side \<Rightarrow> order_side" where
  "closeSideFor positionSide = (if positionSide = LONG then SELL else BUY)"

subsection \<open>Minting\<close>

text \<open>The definitions the risk engine checks a lineage against, and the evaluation context of a mint.\<close>

definition live_definitions :: "decimal_js \<Rightarrow> strategy_definition list" where
  "live_definitions SD = map definition_view (PHASE10_STRATEGY_DEFINITIONS SD)"

definition mint_context :: "'s mint_input \<Rightarrow> strategy_candidate \<Rightarrow> decision_origin \<Rightarrow> risk_context" where
  "mint_context input candidate origin =
     (mi_evidence input)\<lparr>rc_strategyOrigin := Some origin, rc_candidate := candidate\<rparr>"

definition admitMint ::
    "(string \<Rightarrow> string) \<Rightarrow> decimal_js \<Rightarrow> calc_js \<Rightarrow> 's mint_input \<Rightarrow> risk_context \<Rightarrow> coordinator
     \<Rightarrow> (admission_error, admission_outcome) res \<times> coordinator" where
  "admitMint sha SD C input context co =
     admitForLiveExecution sha (cj_D C) (live_engine sha (live_definitions SD) C (mi_riskPolicy input))
       \<lparr>rq_accountId = mi_accountId input, rq_context = context\<rparr> co"

definition openEconomics ::
    "'s mint_input \<Rightarrow> risk_context \<Rightarrow> accepted_open_decision \<Rightarrow> admission_record \<Rightarrow> intent_economics" where
  "openEconomics input context o' r =
     \<lparr>ie_accountId = mi_accountId input, ie_pair = ad_pair r, ie_side = openSideFor (ad_direction r), ie_action = OPEN,
      ie_quantity = ap_approvedQuantity (snd o'), ie_leverage = Some (ap_approvedLeverage (snd o')),
      ie_riskDecisionId = ao_riskDecisionId o', ie_admissionId = Some (ad_admissionId r),
      ie_strategyInstanceId = ad_strategyInstanceId r, ie_strategyId = ad_strategyId r,
      ie_strategyVersion = ad_strategyVersion r, ie_parameterHash = ad_parameterHash r,
      ie_authorizedNotionalInr = ao_approvedNotionalInr o',
      ie_settlementRateInrPerQuote = map_option st_rateInrPerUsdt (rc_settlementRateSnapshot context),
      ie_positionInstanceId = None, ie_positionRevision = None, ie_reduceOnlyQuantity = None\<rparr>"

definition issue_authority ::
    "'s mint_input \<Rightarrow> accepted_decision \<Rightarrow> research_approval option \<Rightarrow> decision_origin \<Rightarrow> admission_record option
     \<Rightarrow> intent_record \<Rightarrow> live_authority" where
  "issue_authority input d approval origin admission intent =
     \<lparr>la_action = (case d of OPENING _ \<Rightarrow> OPEN | CLOSING _ \<Rightarrow> CLOSE), la_accountId = mi_accountId input,
      la_pair = ic_pair (ir_content intent), la_intentId = ir_intentId intent, la_clientOrderId = ir_clientOrderId intent,
      la_intent = intent, la_decision = d, la_researchApproval = approval, la_strategyOrigin = origin,
      la_admission = admission\<rparr>"

text \<open>The last step of an opening: the intent of the admitted decision, and the authority bound to it.\<close>

definition openIntent ::
    "(string \<Rightarrow> string) \<Rightarrow> decimal_js \<Rightarrow> 's mint_input \<Rightarrow> risk_context \<Rightarrow> research_approval \<Rightarrow> decision_origin
     \<Rightarrow> accepted_open_decision \<Rightarrow> admission_record \<Rightarrow> (mint_error, (live_authority \<times> intent_record) option) res" where
  "openIntent sha D input context approval origin o' r =
     rbind (liftL MintThrown (createLiveExecutionIntent sha D (mi_livePolicy input) (mi_constraints input)
              (openEconomics input context o' r) (mi_shape input)
              \<lparr>ll_researchApproval = Some \<lparr>rl_validationSubjectId = ra_validationSubjectId approval,
                 rl_validationPlanId = ra_validationPlanId approval,
                 rl_validationSubjectResultSha256 = ra_validationSubjectResultSha256 approval\<rparr>,
               ll_sourceStrategyDecisionId = sd_decisionId (or_decision origin)\<rparr>)) (\<lambda>intent.
       Inr (Some (issue_authority input (OPENING o') (Some approval) origin (Some r) intent, intent)))"

definition mintLiveOpenExecutionAuthority ::
    "(string \<Rightarrow> string) \<Rightarrow> decimal_js \<Rightarrow> calc_js \<Rightarrow> decimal_js \<Rightarrow> 's mint_input \<Rightarrow> plan_result option \<Rightarrow> coordinator
     \<Rightarrow> (mint_error, (live_authority \<times> intent_record) option) res \<times> coordinator" where
  "mintLiveOpenExecutionAuthority sha SD C D input planResult co =
     (let i = kn_instance (mi_kernel input) in
      case rbind (liftL MintLive (assertGenuineEnablement (mi_enablement input) (mi_accountId input) (si_pair i))) (\<lambda>_.
           rbind (liftL MintLive (assertInstrumentChain D input)) (\<lambda>_.
           rbind (liftL MintDigest (issueResearchApprovalOrigin sha planResult i)) (\<lambda>researchApproval.
             case researchApproval of
               None \<Rightarrow> Inr None
             | Some approval \<Rightarrow>
                 rbind (liftL MintStrategy (authorizeStrategyDispatch (mi_kernel input) (mi_decision input)
                          (mi_instrumentSpecSnapshotId input) (Some approval))) (\<lambda>authorized.
                   Inr (map_option (\<lambda>(candidate, origin). (approval, candidate, origin)) authorized))))) of
        Inl e \<Rightarrow> (Inl e, co)
      | Inr None \<Rightarrow> (Inr None, co)
      | Inr (Some (approval, candidate, origin)) \<Rightarrow>
          (let context = mint_context input candidate origin in
           case admitMint sha SD C input context co of
             (Inl e, co') \<Rightarrow> (Inl (MintAdmission e), co')
           | (Inr (OUT_ADMITTED o' r), co') \<Rightarrow> (openIntent sha D input context approval origin o' r, co')
           | (Inr _, co') \<Rightarrow> (Inr None, co')))"

subsection \<open>Closing\<close>

record close_position =
  lp_positionInstanceId :: string
  lp_positionRevision :: int
  lp_side :: position_side
  lp_ownedQuantity :: string
  lp_ownerStrategyInstanceId :: string
  lp_ownerStrategyId :: string
  lp_ownerStrategyVersion :: string
  lp_ownerParameterHash :: string

definition position_bound :: "'s mint_input \<Rightarrow> close_position \<Rightarrow> bool" where
  "position_bound input position \<longleftrightarrow>
     (case ps_position (rc_pairSnapshot (mi_evidence input)) of
        POSITION_FLAT \<Rightarrow> False
      | POSITION_OPEN p \<Rightarrow>
          op_positionId p = lp_positionInstanceId position \<and> op_positionDirection p = lp_side position
          \<and> op_quantityMagnitude p = lp_ownedQuantity position)
     \<and> lp_ownerStrategyInstanceId position = sd_strategyInstanceId (mi_decision input)
     \<and> lp_ownerStrategyId position = sd_strategyId (mi_decision input)
     \<and> lp_ownerStrategyVersion position = sd_strategyVersion (mi_decision input)
     \<and> lp_ownerParameterHash position = sd_parameterHash (mi_decision input)"

definition closeEconomics ::
    "'s mint_input \<Rightarrow> close_position \<Rightarrow> decision_base \<times> approved_close \<Rightarrow> intent_economics" where
  "closeEconomics input position d =
     (let (b, a) = d in
     \<lparr>ie_accountId = mi_accountId input, ie_pair = db_pair b, ie_side = closeSideFor (lp_side position), ie_action = CLOSE,
      ie_quantity = al_approvedQuantity a, ie_leverage = None, ie_riskDecisionId = db_riskDecisionId b, ie_admissionId = None,
      ie_strategyInstanceId = db_strategyInstanceId b, ie_strategyId = db_strategyId b,
      ie_strategyVersion = db_strategyVersion b, ie_parameterHash = db_parameterHash b,
      ie_authorizedNotionalInr = al_approvedNotionalInr a, ie_settlementRateInrPerQuote = None,
      ie_positionInstanceId = Some (lp_positionInstanceId position),
      ie_positionRevision = Some (lp_positionRevision position), ie_reduceOnlyQuantity = Some (al_approvedQuantity a)\<rparr>)"

definition closeIntent ::
    "(string \<Rightarrow> string) \<Rightarrow> decimal_js \<Rightarrow> 's mint_input \<Rightarrow> close_position \<Rightarrow> decision_origin
     \<Rightarrow> decision_base \<times> approved_close \<Rightarrow> (mint_error, (live_authority \<times> intent_record) option) res" where
  "closeIntent sha D input position origin d =
     rbind (liftL MintThrown (createLiveExecutionIntent sha D (mi_livePolicy input) (mi_constraints input)
              (closeEconomics input position d) (mi_shape input)
              \<lparr>ll_researchApproval = None, ll_sourceStrategyDecisionId = sd_decisionId (or_decision origin)\<rparr>)) (\<lambda>intent.
       Inr (Some (issue_authority input (CLOSING d) None origin None intent, intent)))"

definition mintLiveCloseExecutionAuthority ::
    "(string \<Rightarrow> string) \<Rightarrow> decimal_js \<Rightarrow> calc_js \<Rightarrow> decimal_js \<Rightarrow> 's mint_input \<Rightarrow> close_position \<Rightarrow> coordinator
     \<Rightarrow> (mint_error, (live_authority \<times> intent_record) option) res \<times> coordinator" where
  "mintLiveCloseExecutionAuthority sha SD C D input position co =
     (let i = kn_instance (mi_kernel input) in
      case rbind (liftL MintLive (assertGenuineEnablement (mi_enablement input) (mi_accountId input) (si_pair i))) (\<lambda>_.
           rbind (liftL MintLive (assertInstrumentChain D input)) (\<lambda>_.
           rbind (liftL MintStrategy (createStrategyRiskHandoff (mi_kernel input) (mi_decision input)
                    (mi_instrumentSpecSnapshotId input))) (\<lambda>authorized.
             if position_bound input position then Inr authorized else Inr None))) of
        Inl e \<Rightarrow> (Inl e, co)
      | Inr None \<Rightarrow> (Inr None, co)
      | Inr (Some (candidate, origin)) \<Rightarrow>
          (case admitMint sha SD C input (mint_context input candidate origin) co of
             (Inl e, co') \<Rightarrow> (Inl (MintAdmission e), co')
           | (Inr (ACCEPTED_NO_CAPACITY_OWNERSHIP (ACCEPTED_CLOSE d)), co') \<Rightarrow> (closeIntent sha D input position origin d, co')
           | (Inr _, co') \<Rightarrow> (Inr None, co')))"

subsection \<open>The decisions a coordinator holds\<close>

text \<open>A decision is backed by engines for a strategy decision if one of them accepted it from a context with that
  decision. Every decision kept in an entry is backed for the decision the entry was granted to.\<close>

definition backed ::
    "(risk_context \<Rightarrow> (admission_error, risk_decision) res) set \<Rightarrow> string \<Rightarrow> accepted_open_decision \<Rightarrow> bool" where
  "backed engines d o' \<longleftrightarrow>
     (\<exists>ev\<in>engines. \<exists>ctx. ev ctx = Inr (ACCEPTED_OPEN o') \<and> sd_decisionId (rc_strategyDecision ctx) = d)"

definition entry_backed :: "(risk_context \<Rightarrow> (admission_error, risk_decision) res) set \<Rightarrow> entry \<Rightarrow> bool" where
  "entry_backed engines e \<longleftrightarrow>
     (\<forall>o'. et_decision e = Some o' \<longrightarrow> backed engines (ad_sourceStrategyDecisionId (et_record e)) o')"

definition coordinator_backed :: "(risk_context \<Rightarrow> (admission_error, risk_decision) res) set \<Rightarrow> coordinator \<Rightarrow> bool" where
  "coordinator_backed engines co \<longleftrightarrow>
     (\<forall>a d e. (d, e) \<in> set (entries_of co a) \<longrightarrow> ad_sourceStrategyDecisionId (et_record e) = d \<and> entry_backed engines e)
     \<and> (\<forall>k e. (k, e) \<in> set (co_byAdmissionId co) \<longrightarrow> entry_backed engines e)"

lemma coordinator_backedD:
  assumes "coordinator_backed engines co"
  shows "(d, e) \<in> set (entries_of co a) \<Longrightarrow> ad_sourceStrategyDecisionId (et_record e) = d \<and> entry_backed engines e"
    and "(k, e) \<in> set (co_byAdmissionId co) \<Longrightarrow> entry_backed engines e"
  using assms unfolding coordinator_backed_def by blast+

lemma set_update_subset: "set (AList.update k v xs) \<subseteq> insert (k, v) (set xs)"
  by (induction xs) auto

lemma set_fold_update: "set (fold (\<lambda>(k, v). AList.update k v) ys xs) \<subseteq> set ys \<union> set xs"
proof (induction ys arbitrary: xs)
  case (Cons y ys)
  obtain k v where y: "y = (k, v)" by (cases y)
  show ?case using Cons[of "AList.update k v xs"] set_update_subset[of k v xs] by (auto simp: y)
qed simp

lemma set_fold_delete: "set (fold (\<lambda>(_, e). AList.delete (f e)) ys xs) \<subseteq> set xs"
proof (induction ys arbitrary: xs)
  case (Cons y ys)
  have "set (AList.delete k xs) \<subseteq> set xs" for k by (auto simp: AList.delete_eq)
  with Cons show ?case by (fastforce split: prod.splits)
qed simp

lemma entries_after_replace:
  "set (entries_of (replace_entry a d k e co) b) \<subseteq> insert (d, e) (set (entries_of co b))"
  "set (co_byAdmissionId (replace_entry a d k e co)) \<subseteq> insert (k, e) (set (co_byAdmissionId co))"
proof -
  show "set (co_byAdmissionId (replace_entry a d k e co)) \<subseteq> insert (k, e) (set (co_byAdmissionId co))"
    using set_update_subset by (simp add: replace_entry_def)
  show "set (entries_of (replace_entry a d k e co) b) \<subseteq> insert (d, e) (set (entries_of co b))"
  proof (cases "co_byAccountAndDecision co a")
    case None
    then show ?thesis by (auto simp: replace_entry_def entries_of_def)
  next
    case (Some m)
    then show ?thesis using set_update_subset[of d e m] by (cases "b = a") (simp_all add: replace_entry_def entries_of_def subset_insertI)
  qed
qed

lemma backed_replace:
  assumes "coordinator_backed engines co" and "entry_backed engines e" and "ad_sourceStrategyDecisionId (et_record e) = d"
  shows "coordinator_backed engines (replace_entry a d k e co)"
  unfolding coordinator_backed_def
proof (rule conjI; intro allI impI)
  show "ad_sourceStrategyDecisionId (et_record e') = d' \<and> entry_backed engines e'"
    if "(d', e') \<in> set (entries_of (replace_entry a d k e co) b)" for b d' e'
    using that entries_after_replace(1)[of a d k e co b] coordinator_backedD(1)[OF assms(1)] assms(2,3) by auto
  show "entry_backed engines e'" if "(k', e') \<in> set (co_byAdmissionId (replace_entry a d k e co))" for k' e'
    using that entries_after_replace(2)[of a d k e co] coordinator_backedD(2)[OF assms(1)] assms(2) by auto
qed

lemma backed_record:
  assumes "coordinator_backed engines co" and "backed engines (ad_sourceStrategyDecisionId r) o'"
  shows "coordinator_backed engines (record_admission r o' co)"
proof -
  let ?e = "\<lparr>et_record = r, et_decision = Some o', et_consumedByIntentId = None\<rparr>"
  have e: "entry_backed engines ?e" using assms(2) by (simp add: entry_backed_def)
  have m: "co_byAdmissionId (record_admission r o' co) = AList.update (ad_admissionId r) ?e (co_byAdmissionId co)"
    "entries_of (record_admission r o' co) b = (if b = ad_accountId r
       then AList.update (ad_sourceStrategyDecisionId r) ?e (entries_of co b) else entries_of co b)" for b
    by (simp_all add: record_admission_def Let_def entries_of_def)
  show ?thesis
    unfolding coordinator_backed_def
  proof (rule conjI; intro allI impI)
    show "ad_sourceStrategyDecisionId (et_record e') = d' \<and> entry_backed engines e'"
      if "(d', e') \<in> set (entries_of (record_admission r o' co) b)" for b d' e'
      using that set_update_subset[of "ad_sourceStrategyDecisionId r" ?e "entries_of co b"] coordinator_backedD(1)[OF assms(1)] e
      by (auto simp: m split: if_splits)
    show "entry_backed engines e'" if "(k', e') \<in> set (co_byAdmissionId (record_admission r o' co))" for k' e'
      using that set_update_subset[of "ad_admissionId r" ?e "co_byAdmissionId co"] coordinator_backedD(2)[OF assms(1)] e
      by (auto simp: m)
  qed
qed

text \<open>Where an admitted decision comes from: it was kept, or the engine has just accepted it.\<close>

lemma admitted_source:
  assumes "admitLocked sha D ev rq co = Inr (OUT_ADMITTED o' r, co')"
  obtains (held) e where "map_of (entries_of co (rq_accountId rq)) (sd_decisionId (rc_strategyDecision (rq_context rq))) = Some e"
      "ad_status (et_record e) = ADMITTED" "et_decision e = Some o'" "r = et_record e" "co' = co"
  | (evaluated) x ctx' where "overlayPending sha D co (rq_accountId rq) (rq_context rq) x = Inr ctx'"
      "ev ctx' = Inr (ACCEPTED_OPEN o')" "ad_status r = ADMITTED"
proof -
  let ?d = "sd_decisionId (rc_strategyDecision (rq_context rq))"
  let ?e = "map_of (entries_of co (rq_accountId rq)) ?d"
  have live: "rq_accountId rq \<notin> co_faultedAccounts co"
    using assms by (auto simp: admitLocked_def Let_def)
  show thesis
  proof (cases "\<exists>e. ?e = Some e \<and> ad_status (et_record e) = ADMITTED")
    case False
    then have "admitFresh sha D ev (rq_accountId rq) (rq_context rq) co = Inr (OUT_ADMITTED o' r, co')"
      using assms live by (auto simp: admitLocked_def Let_def split: option.splits if_splits)
    then show thesis
    proof (cases rule: admitFresh_Inr)
      case kept
      then show thesis by blast
    next
      case (fresh o'' dir k r' ctx')
      from evaluated[OF fresh(5)] fresh(1,3,6) show thesis by (simp add: admission_draft_def)
    qed
  next
    case True
    then obtain e where e: "?e = Some e" "ad_status (et_record e) = ADMITTED" by blast
    show thesis
    proof (cases "et_decision e")
      case (Some o'')
      then show thesis using assms live e by (intro held[of e]) (simp_all add: admitLocked_def Let_def)
    next
      case None
      then obtain ctx' dc where c: "overlayPending sha D co (rq_accountId rq) (rq_context rq) (Some ?d) = Inr ctx'" "ev ctx' = Inr dc"
          "(case dc of ACCEPTED_OPEN o' \<Rightarrow>
              if ao_riskDecisionId o' \<noteq> ad_riskDecisionId (et_record e) then Inl RestoredDisagrees
              else Inr (OUT_ADMITTED o' (et_record e),
                     replace_entry (rq_accountId rq) ?d (ad_admissionId (et_record e)) (e\<lparr>et_decision := Some o'\<rparr>) co)
            | _ \<Rightarrow> Inl RestoredDisagrees) = Inr (OUT_ADMITTED o' r, co')"
        using assms live e unfolding admitLocked_def Let_def by (auto elim!: rbindE)
      then show thesis using e(2) evaluated[OF c(1)] by (cases dc) (auto split: if_splits)
    qed
  qed
qed

text \<open>Every operation keeps it, so it holds in every reachable state.\<close>

lemma admitted_backed:
  assumes inv: "coordinator_backed engines co" and ev: "ev \<in> engines"
    and run: "admitLocked sha D ev rq co = Inr (OUT_ADMITTED o' r, co')"
  shows "backed engines (sd_decisionId (rc_strategyDecision (rq_context rq))) o'" and "ad_status r = ADMITTED"
proof -
  have "backed engines (sd_decisionId (rc_strategyDecision (rq_context rq))) o' \<and> ad_status r = ADMITTED"
    using run
  proof (cases rule: admitted_source)
    case (held e)
    from coordinator_backedD(1)[OF inv map_of_SomeD[OF held(1)]] held(2-4) show ?thesis by (auto simp: entry_backed_def)
  next
    case (evaluated x ctx')
    then show ?thesis using ev overlay_decision[OF evaluated(1)] unfolding backed_def by (auto intro!: bexI[of _ ev] exI[of _ ctx'])
  qed
  then show "backed engines (sd_decisionId (rc_strategyDecision (rq_context rq))) o'" and "ad_status r = ADMITTED" by simp_all
qed

lemma backed_admit:
  assumes inv: "coordinator_backed engines co" and ev: "ev \<in> engines" and run: "admitLocked sha D ev rq co = Inr (out, co')"
  shows "coordinator_backed engines co'"
  using run
proof (cases rule: admitLocked_Inr)
  case kept
  with inv show ?thesis by simp
next
  case (healed e o'')
  note h = coordinator_backedD(1)[OF inv map_of_SomeD[OF healed(1)]]
  have "backed engines (sd_decisionId (rc_strategyDecision (rq_context rq))) o''"
    using admitted_backed(1)[OF inv ev] run healed(3) by blast
  then have "entry_backed engines (e\<lparr>et_decision := Some o''\<rparr>)" using h by (simp add: entry_backed_def)
  then show ?thesis unfolding healed(4) by (rule backed_replace[OF inv]) (use h in simp)
next
  case fresh
  from fresh(1) show ?thesis
  proof (cases rule: admitFresh_Inr)
    case kept
    with inv show ?thesis by simp
  next
    case (fresh o'' dir k r' ctx')
    have "backed engines (sd_decisionId (rc_strategyDecision (rq_context rq))) o''"
      using admitted_backed(1)[OF inv ev] run fresh(3) by blast
    then show ?thesis unfolding fresh(4) by (intro backed_record[OF inv]) (simp add: fresh(1) admission_draft_def)
  qed
qed

lemma backed_commit_batch:
  assumes "coordinator_backed engines co"
    and "validateRestoreBatch a rs sq gn = Inr (b, m)"
    and "set (co_byAdmissionId co') \<subseteq> set (co_byAdmissionId co)" and "co_byAccountAndDecision co' = co_byAccountAndDecision co"
  shows "coordinator_backed engines (commit_batch a b m co')"
proof -
  let ?ok = "\<lambda>b. (\<forall>(d, e)\<in>set (rb_byDecision b). ad_sourceStrategyDecisionId (et_record e) = d \<and> entry_backed engines e)
    \<and> (\<forall>(k, e)\<in>set (rb_byAdmissionIdEntries b). entry_backed engines e)"
  obtain b0 where run: "foldl_res (restoreRecord a) \<lparr>rb_byDecision = [], rb_byAdmissionIdEntries = [], rb_byGeneration = Map.empty\<rparr> rs = Inr b0"
      and b: "rb_byDecision b = rb_byDecision b0" "rb_byAdmissionIdEntries b = rb_byAdmissionIdEntries b0"
    using assms(2) by (auto simp: validateRestoreBatch_def elim!: rbindE)
  have "?ok b0"
  proof (rule foldl_res_invariant[OF run])
    show "?ok s'" if "?ok s" "restoreRecord a s r = Inr s'" for s r s'
    proof -
      have "entry_backed engines (restored_entry r)" by (simp add: entry_backed_def restored_entry_def)
      moreover have "et_record (restored_entry r) = r" by (simp add: restored_entry_def)
      moreover have "rb_byDecision s' = AList.update (ad_sourceStrategyDecisionId r) (restored_entry r) (rb_byDecision s)"
        "rb_byAdmissionIdEntries s' = rb_byAdmissionIdEntries s @ [(ad_admissionId r, restored_entry r)]"
        using that(2) by (auto simp: restoreRecord_def Let_def split: if_splits)
      ultimately show ?thesis
        using that(1) set_update_subset[of "ad_sourceStrategyDecisionId r" "restored_entry r" "rb_byDecision s"] by auto
    qed
  qed simp
  then have ok: "?ok b" by (simp add: b)
  have "entries_of (commit_batch a b m co') x = (if x = a then rb_byDecision b else entries_of co x)" for x
    using assms(4) by (simp add: commit_batch_def entries_of_def)
  moreover have "set (co_byAdmissionId (commit_batch a b m co')) \<subseteq> set (rb_byAdmissionIdEntries b) \<union> set (co_byAdmissionId co)"
    using set_fold_update[of "rb_byAdmissionIdEntries b" "co_byAdmissionId co'"] assms(3) by (auto simp: commit_batch_def)
  ultimately show ?thesis
    using ok assms(1) unfolding coordinator_backed_def by (fastforce split: if_splits)
qed

lemma backed_runtime:
  assumes "runtime_step sha D engines co co'" and inv: "coordinator_backed engines co"
  shows "coordinator_backed engines co'"
  using assms(1)
proof cases
  case (admit ev rq out)
  then show ?thesis using backed_admit[OF inv] by blast
next
  case (release a k out2)
  then obtain e where "co' = co \<or> (k, e) \<in> set (co_byAdmissionId co)
      \<and> co' = replace_entry a (ad_sourceStrategyDecisionId (et_record e)) k (e\<lparr>et_record := (et_record e)\<lparr>ad_status := RELEASED\<rparr>\<rparr>)
           co"
    by (auto simp: releaseLocked_def Let_def split: if_splits option.splits dest: map_of_SomeD)
  then show ?thesis using inv coordinator_backedD(2)[OF inv] by (auto intro!: backed_replace simp: entry_backed_def)
next
  case (consume a k i out3)
  then obtain e where "co' = co \<or> (k, e) \<in> set (co_byAdmissionId co)
      \<and> co' = replace_entry a (ad_sourceStrategyDecisionId (et_record e)) k (e\<lparr>et_consumedByIntentId := Some i\<rparr>) co"
    by (auto simp: consumeForLiveLocked_def split: if_splits option.splits dest: map_of_SomeD)
  then show ?thesis using inv coordinator_backedD(2)[OF inv] by (auto intro!: backed_replace simp: entry_backed_def)
next
  case (fault a)
  then show ?thesis using inv by (simp add: coordinator_backed_def markAccountFaulted_def entries_of_def)
qed

lemma reachable_backed:
  assumes "admission_reachable sha D source_of engines co"
  shows "coordinator_backed engines co"
  using assms
proof (induction rule: admission_reachable.induct)
  case start
  show ?case by (simp add: coordinator_backed_def new_coordinator_def entries_of_def)
next
  case (step co co')
  from step.hyps(2) show ?case
  proof (cases rule: admission_step.cases)
    case runtime
    then show ?thesis using backed_runtime step.IH by blast
  next
    case (restore rs a sq gn)
    then show ?thesis using backed_commit_batch[OF step.IH] by (auto simp: restoreLocked_def elim!: rbindE split: if_splits)
  next
    case (recover rs a sq gn)
    then obtain b m where b: "validateRestoreBatch a rs sq gn = Inr (b, m)" and co': "co' = (commit_batch a b m
          (co\<lparr>co_byAdmissionId := fold (\<lambda>(_, e). AList.delete (ad_admissionId (et_record e))) (entries_of co a) (co_byAdmissionId co)\<rparr>))
        \<lparr>co_faultedAccounts := co_faultedAccounts co - {a}\<rparr>"
      by (auto simp: restoreAuthoritativeLocked_def Let_def elim!: rbindE)
    have "coordinator_backed engines (commit_batch a b m
          (co\<lparr>co_byAdmissionId := fold (\<lambda>(_, e). AList.delete (ad_admissionId (et_record e))) (entries_of co a) (co_byAdmissionId co)\<rparr>))"
      by (rule backed_commit_batch[OF step.IH b]) (simp_all add: set_fold_delete)
    then show ?thesis by (simp add: co' coordinator_backed_def entries_of_def)
  qed
qed

subsection \<open>What a mint went through\<close>

lemma mint_open_Inr:
  assumes "mintLiveOpenExecutionAuthority sha SD C D input planResult co = (Inr (Some (auth, intent)), co')"
  obtains approval candidate origin o' r where
    "assertGenuineEnablement (mi_enablement input) (mi_accountId input) (si_pair (kn_instance (mi_kernel input))) = Inr ()"
    "assertInstrumentChain D input = Inr ()"
    "issueResearchApprovalOrigin sha planResult (kn_instance (mi_kernel input)) = Inr (Some approval)"
    "authorizeStrategyDispatch (mi_kernel input) (mi_decision input) (mi_instrumentSpecSnapshotId input) (Some approval)
       = Inr (Some (candidate, origin))"
    "admitMint sha SD C input (mint_context input candidate origin) co = (Inr (OUT_ADMITTED o' r), co')"
    "openIntent sha D input (mint_context input candidate origin) approval origin o' r = Inr (Some (auth, intent))"
  using assms unfolding mintLiveOpenExecutionAuthority_def Let_def
  by (auto simp: rbind_eq_Inr split: sum.splits option.splits prod.splits admission_outcome.splits)

lemma mint_close_Inr:
  assumes "mintLiveCloseExecutionAuthority sha SD C D input position co = (Inr (Some (auth, intent)), co')"
  obtains candidate origin d where
    "assertGenuineEnablement (mi_enablement input) (mi_accountId input) (si_pair (kn_instance (mi_kernel input))) = Inr ()"
    "assertInstrumentChain D input = Inr ()"
    "createStrategyRiskHandoff (mi_kernel input) (mi_decision input) (mi_instrumentSpecSnapshotId input)
       = Inr (Some (candidate, origin))"
    "position_bound input position"
    "admitMint sha SD C input (mint_context input candidate origin) co = (Inr (ACCEPTED_NO_CAPACITY_OWNERSHIP (ACCEPTED_CLOSE d)), co')"
    "closeIntent sha D input position origin d = Inr (Some (auth, intent))"
  using assms unfolding mintLiveCloseExecutionAuthority_def Let_def
  by (auto simp: rbind_eq_Inr split: sum.splits option.splits prod.splits admission_outcome.splits risk_decision.splits if_splits)

lemma handoff_Inr:
  assumes "createStrategyRiskHandoff k d spec = Inr (Some (candidate, origin))"
  shows "d \<in> set (kn_issuedDecisions k)" and "sd_status d = READY" and "cd_strategyDecision candidate = d"
    and "or_decision origin = d"
  using assms
  by (auto simp: createStrategyRiskHandoff_def issueDecisionOrigin_def createStrategyRiskCandidate_def
      split: option.splits if_splits intro: decision_status.exhaust)

lemma created_intent_fields:
  assumes "createLiveExecutionIntent sha D snapshot constraints economics shape lineage = Inr r"
  shows "assertLiveExecutionIntentIdentity sha r = Inr ()" and "ir_lineage r = lineage"
    and "ic_accountId (ir_content r) = ie_accountId economics" and "ic_pair (ir_content r) = ie_pair economics"
    and "ic_side (ir_content r) = ie_side economics" and "ic_action (ir_content r) = ie_action economics"
    and "ic_riskDecisionId (ir_content r) = ie_riskDecisionId economics"
    and "ic_admissionId (ir_content r) = ie_admissionId economics"
    and "ic_positionInstanceId (ir_content r) = ie_positionInstanceId economics"
    and "ic_positionRevision (ir_content r) = ie_positionRevision economics"
proof -
  obtain policy quantized where c: "intentContent policy constraints economics shape quantized = Inr (ir_content r)"
      and i: "computeLiveExecutionIntentId sha (ir_content r) = Inr (ir_intentId r)"
      "deriveLiveClientOrderId sha (ir_content r) = Inr (ir_clientOrderId r)" "ir_lineage r = lineage"
    using assms by (auto simp: createLiveExecutionIntent_def elim!: rbindE)
  obtain content where rc: "ir_content r = content" by blast
  show "ir_lineage r = lineage" by (rule i(3))
  show "assertLiveExecutionIntentIdentity sha r = Inr ()" using i by (simp add: assertLiveExecutionIntentIdentity_def)
  show "ic_accountId (ir_content r) = ie_accountId economics" "ic_pair (ir_content r) = ie_pair economics"
    "ic_side (ir_content r) = ie_side economics" "ic_action (ir_content r) = ie_action economics"
    "ic_riskDecisionId (ir_content r) = ie_riskDecisionId economics"
    "ic_admissionId (ir_content r) = ie_admissionId economics"
    "ic_positionInstanceId (ir_content r) = ie_positionInstanceId economics"
    "ic_positionRevision (ir_content r) = ie_positionRevision economics"
    using c unfolding rc by (auto simp: intentContent_def elim!: rbindE)
qed

lemma admitMint_admitted:
  assumes "admitMint sha SD C input context co = (Inr (OUT_ADMITTED o' r), co')"
  shows "admitLocked sha (cj_D C) (live_engine sha (live_definitions SD) C (mi_riskPolicy input))
       \<lparr>rq_accountId = mi_accountId input, rq_context = context\<rparr> co = Inr (OUT_ADMITTED o' r, co')"
    and "ad_accountId r = mi_accountId input" and "ad_pair r = ps_pair (rc_pairSnapshot context)"
    and "ad_riskDecisionId r = ao_riskDecisionId o'"
  using assms unfolding admitMint_def admitForLiveExecution_def Let_def
  by (auto split: sum.splits prod.splits admission_outcome.splits if_splits)

text \<open>The pair of a mint is the one of its kernel, its policy, its evidence and its constraints.\<close>

lemma instrument_chain_pair:
  assumes "assertInstrumentChain D input = Inr ()"
  shows "ps_pair (rc_pairSnapshot (mi_evidence input)) = si_pair (kn_instance (mi_kernel input))"
    and "icn_pair (mi_constraints input) = si_pair (kn_instance (mi_kernel input))"
  using assms by (auto simp: assertInstrumentChain_def Let_def split: if_splits)

lemma approval_Inr:
  assumes "issueResearchApprovalOrigin sha planResult i = Inr (Some approval)"
  obtains plan e where "planResult = Some plan" and "e \<in> set (vq_subjectResults plan)" and "vr_verdict e = PASSED"
    and "sha256CanonicalJson sha (validation_subject i) = Inr (vr_validationSubjectId e)"
    and "ra_validationSubjectId approval = vr_validationSubjectId e"
proof -
  obtain plan k e where p: "planResult = Some plan" "sha256CanonicalJson sha (validation_subject i) = Inr k"
      "find (\<lambda>e. vr_validationSubjectId e = k) (vq_subjectResults plan) = Some e" "vr_verdict e = PASSED"
      "ra_validationSubjectId approval = k"
    using assms by (auto simp: issueResearchApprovalOrigin_def elim!: rbindE split: option.splits if_splits)
  from p(3) have "e \<in> set (vq_subjectResults plan)" "vr_validationSubjectId e = k"
    unfolding find_Some_iff by auto
  with p that show thesis by simp
qed

text \<open>The engines a live coordinator runs.\<close>

definition live_engines :: "(string \<Rightarrow> string) \<Rightarrow> decimal_js \<Rightarrow> calc_js \<Rightarrow> (risk_context \<Rightarrow> (admission_error, risk_decision) res) set" where
  "live_engines sha SD C = {live_engine sha (live_definitions SD) C policy | policy. True}"

text \<open>C7. The first half of a minted opening: a live order can only be minted for an account and a pair that are
  switched on, from a decision the very kernel issued and that is ready, for a strategy whose validation record in a
  genuine plan result passed, and with a grant the coordinator admits at that moment; the intent trades the pair, the
  side and the grant of that decision, and the authority is good for this intent.\<close>

theorem minted_opening_authorised:
  assumes "mintLiveOpenExecutionAuthority sha SD C D input planResult co = (Inr (Some (auth, intent)), co')"
  shows "\<exists>e r plan v. mi_enablement input = Some e \<and> mi_accountId input \<in> set (en_accountAllowlist e)
      \<and> en_credentialAccountId e = mi_accountId input
      \<and> si_pair (kn_instance (mi_kernel input)) \<in> set (en_pairAllowlist e)
    \<and> mi_decision input \<in> set (kn_issuedDecisions (mi_kernel input)) \<and> sd_status (mi_decision input) = READY
    \<and> planResult = Some plan \<and> v \<in> set (vq_subjectResults plan) \<and> vr_verdict v = PASSED
      \<and> sha256CanonicalJson sha (validation_subject (kn_instance (mi_kernel input))) = Inr (vr_validationSubjectId v)
    \<and> la_admission auth = Some r \<and> ad_accountId r = mi_accountId input
    \<and> ic_action (ir_content intent) = OPEN \<and> ic_accountId (ir_content intent) = mi_accountId input
      \<and> ic_pair (ir_content intent) = si_pair (kn_instance (mi_kernel input))
      \<and> ic_side (ir_content intent) = openSideFor (ad_direction r)
      \<and> ic_admissionId (ir_content intent) = Some (ad_admissionId r)
      \<and> ic_riskDecisionId (ir_content intent) = ad_riskDecisionId r
      \<and> ll_sourceStrategyDecisionId (ir_lineage intent) = sd_decisionId (mi_decision input)
    \<and> readLiveAuthorityForIntent (Some auth) (Some intent) = Inr auth
    \<and> assertLiveExecutionIntentIdentity sha intent = Inr ()"
  using assms
proof (cases rule: mint_open_Inr)
  case (1 approval candidate origin o' r)
  obtain plan v where v: "planResult = Some plan" "v \<in> set (vq_subjectResults plan)" "vr_verdict v = PASSED"
      "sha256CanonicalJson sha (validation_subject (kn_instance (mi_kernel input))) = Inr (vr_validationSubjectId v)"
    by (rule approval_Inr[OF 1(3)])
  have "createStrategyRiskHandoff (mi_kernel input) (mi_decision input) (mi_instrumentSpecSnapshotId input) = Inr (Some (candidate, origin))"
    using 1(4) by (auto simp: authorizeStrategyDispatch_def Let_def split: if_splits)
  note h = handoff_Inr[OF this]
  obtain lineage where c: "createLiveExecutionIntent sha D (mi_livePolicy input) (mi_constraints input)
        (openEconomics input (mint_context input candidate origin) o' r) (mi_shape input) lineage = Inr intent"
      and l: "ll_sourceStrategyDecisionId lineage = sd_decisionId (or_decision origin)"
      and a: "auth = issue_authority input (OPENING o') (Some approval) origin (Some r) intent"
    using 1(6) by (auto simp: openIntent_def elim!: rbindE)
  note f = created_intent_fields[OF c, unfolded openEconomics_def, simplified]
  note m = admitMint_admitted[OF 1(5)]
  have p: "ad_pair r = si_pair (kn_instance (mi_kernel input))"
    using m(3) instrument_chain_pair(1)[OF 1(2)] by (simp add: mint_context_def)
  have read: "readLiveAuthorityForIntent (Some auth) (Some intent) = Inr auth"
    using f by (simp add: readLiveAuthorityForIntent_def a issue_authority_def accepted_base_def ao_riskDecisionId_def split: prod.splits)
  obtain e where e: "mi_enablement input = Some e" "mi_accountId input \<in> set (en_accountAllowlist e)"
      "en_credentialAccountId e = mi_accountId input" "si_pair (kn_instance (mi_kernel input)) \<in> set (en_pairAllowlist e)"
    using 1(1) by (auto simp: assertGenuineEnablement_def split: option.splits if_splits)
  have "la_admission auth = Some r" by (simp add: a issue_authority_def)
  then show ?thesis
    using e h(1,2) v m(2,4) f p read l h(4) by (intro exI[of _ e] exI[of _ r] exI[of _ plan] exI[of _ v]) simp
qed

text \<open>C2. The second half: whatever the coordinator went through before, the evaluation behind a minted opening was a sound
  one, of this very strategy decision, by an engine made from a well-formed policy; and the order asks for no more
  than the sizing of that evaluation gave: its quantity is at most the approved one, and its exact notional at most
  the approved notional and the ceiling of the live policy.\<close>

theorem minted_opening_sound:
  assumes "risk_arith C" and "decimal_lib D 128"
    and "admission_reachable sha (cj_D C) source_of (live_engines sha SD C) co"
    and "mintLiveOpenExecutionAuthority sha SD C D input planResult co = (Inr (Some (auth, intent)), co')"
  shows "\<exists>draft policy n v. createRiskPolicy sha (cj_D C) draft = Inr policy
    \<and> opening_sound sha (live_definitions SD) C policy n v
    \<and> sd_decisionId (cd_strategyDecision (rc_candidate n)) = sd_decisionId (mi_decision input)
    \<and> text_value (ic_quantity (ir_content intent)) \<le> text_value (sv_finalQuantity v)
    \<and> (\<exists>p rate. ic_price (ir_content intent) = Some p
         \<and> map_option st_rateInrPerUsdt (rc_settlementRateSnapshot (mi_evidence input)) = Some rate
         \<and> text_value (ic_quantity (ir_content intent)) * text_value p
             * text_value (icn_contractMultiplier (mi_constraints input)) * text_value rate
           \<le> min (text_value (pc_maxOrderNotionalInr (ps_content (mi_livePolicy input)))) (text_value (sv_finalNotionalInr v)))"
  using assms(4)
proof (cases rule: mint_open_Inr)
  case (1 approval candidate origin o' r)
  have "createStrategyRiskHandoff (mi_kernel input) (mi_decision input) (mi_instrumentSpecSnapshotId input) = Inr (Some (candidate, origin))"
    using 1(4) by (auto simp: authorizeStrategyDispatch_def Let_def split: if_splits)
  note h = handoff_Inr(3)[OF this]
  obtain lineage where c: "createLiveExecutionIntent sha D (mi_livePolicy input) (mi_constraints input)
        (openEconomics input (mint_context input candidate origin) o' r) (mi_shape input) lineage = Inr intent"
    using 1(6) by (auto simp: openIntent_def elim!: rbindE)
  have "live_engine sha (live_definitions SD) C (mi_riskPolicy input) \<in> live_engines sha SD C"
    unfolding live_engines_def by blast
  note b = admitted_backed(1)[OF reachable_backed[OF assms(3)] this admitMint_admitted(1)[OF 1(5)]]
  then obtain policy ctx where run: "live_engine sha (live_definitions SD) C policy ctx = Inr (ACCEPTED_OPEN o')"
      and d: "sd_decisionId (rc_strategyDecision ctx) = sd_decisionId (mi_decision input)"
    by (auto simp: backed_def live_engines_def mint_context_def h)
  obtain base ap where o': "o' = (base, ap)" by (cases o')
  obtain p where p: "newRiskEngine sha (cj_D C) policy = Inr p"
      "evaluateRisk sha (live_definitions SD) C p ctx = Inr (ACCEPTED_OPEN (base, ap))"
    using run by (auto simp: live_engine_accepts o')
  note made = newRiskEngine_made[OF p(1)]
  obtain n v where n: "engine_normalize (cj_D C) p ctx = Inr n" "ap = approved_of_sizing v"
      "opening_sound sha (live_definitions SD) C p n v"
    by (rule accepted_opening[OF assms(1) made p(2)])
  have "sd_decisionId (cd_strategyDecision (rc_candidate n)) = sd_decisionId (mi_decision input)"
    using engine_decision_source(1)[OF n(1)] d by simp
  moreover have "ie_quantity (openEconomics input (mint_context input candidate origin) o' r) = sv_finalQuantity v"
    "ie_authorizedNotionalInr (openEconomics input (mint_context input candidate origin) o' r) = sv_finalNotionalInr v"
    "ie_action (openEconomics input (mint_context input candidate origin) o' r) = OPEN"
    "ie_settlementRateInrPerQuote (openEconomics input (mint_context input candidate origin) o' r)
       = map_option st_rateInrPerUsdt (rc_settlementRateSnapshot (mi_evidence input))"
    by (simp_all add: openEconomics_def o' n(2) approved_of_sizing_def ao_approvedNotionalInr_def mint_context_def)
  ultimately show ?thesis
    using created_intent_bounds[OF assms(2) c] made n(3)
    by (intro exI[of _ "policyDraftFromPolicy policy"] exI[of _ p] exI[of _ n] exI[of _ v]) auto
qed

text \<open>A minted closing can only reduce: it trades against the held direction of the position the evidence shows, for
  the strategy instance that owns it, asks for no more than the accepted closing decision approved, takes no grant
  and leaves the coordinator as it was, and names the exact position and revision the dispatch claim will check.\<close>

lemma minted_closing_reduces:
  assumes "decimal_lib D 128"
    and "mintLiveCloseExecutionAuthority sha SD C D input position co = (Inr (Some (auth, intent)), co')"
  shows "\<exists>p b a. ps_position (rc_pairSnapshot (mi_evidence input)) = POSITION_OPEN p
    \<and> op_positionId p = lp_positionInstanceId position \<and> op_quantityMagnitude p = lp_ownedQuantity position
    \<and> lp_ownerStrategyInstanceId position = sd_strategyInstanceId (mi_decision input)
    \<and> mi_decision input \<in> set (kn_issuedDecisions (mi_kernel input)) \<and> sd_status (mi_decision input) = READY
    \<and> la_decision auth = CLOSING (b, a) \<and> la_admission auth = None \<and> co' = co
    \<and> ic_action (ir_content intent) = CLOSE \<and> ic_admissionId (ir_content intent) = None
    \<and> ic_side (ir_content intent) = closeSideFor (op_positionDirection p)
    \<and> ic_positionInstanceId (ir_content intent) = Some (lp_positionInstanceId position)
    \<and> ic_positionRevision (ir_content intent) = Some (lp_positionRevision position)
    \<and> text_value (ic_quantity (ir_content intent)) \<le> text_value (al_approvedQuantity a)
    \<and> assertLiveExecutionIntentIdentity sha intent = Inr ()
    \<and> readLiveAuthorityForIntent (Some auth) (Some intent) = Inr auth"
  using assms(2)
proof (cases rule: mint_close_Inr)
  case (1 candidate origin d)
  note h = handoff_Inr[OF 1(3)]
  obtain b a where d: "d = (b, a)" by (cases d)
  obtain lineage where c: "createLiveExecutionIntent sha D (mi_livePolicy input) (mi_constraints input)
        (closeEconomics input position d) (mi_shape input) lineage = Inr intent"
      and au: "auth = issue_authority input (CLOSING d) None origin None intent"
    using 1(6) by (auto simp: closeIntent_def elim!: rbindE)
  note f = created_intent_fields[OF c, unfolded closeEconomics_def d, simplified]
  have q: "text_value (ic_quantity (ir_content intent)) \<le> text_value (al_approvedQuantity a)"
    using created_intent_bounds[OF assms(1) c] by (auto simp: closeEconomics_def d)
  have co': "co' = co"
    using 1(5) unfolding admitMint_def admitForLiveExecution_def Let_def
  proof (simp split: sum.splits prod.splits admission_outcome.splits if_splits)
    assume "admitLocked sha (cj_D C) (live_engine sha (live_definitions SD) C (mi_riskPolicy input))
        \<lparr>rq_accountId = mi_accountId input, rq_context = mint_context input candidate origin\<rparr> co
      = Inr (ACCEPTED_NO_CAPACITY_OWNERSHIP (ACCEPTED_CLOSE d), co')"
    then show "co' = co"
    proof (cases rule: admitLocked_Inr)
      case fresh
      from fresh(1) show ?thesis by (cases rule: admitFresh_Inr) auto
    qed auto
  qed
  show ?thesis
    using 1(4) h(1,2) f q co'
    by (auto simp: position_bound_def au d issue_authority_def readLiveAuthorityForIntent_def accepted_base_def split: pair_position.splits)
qed

end
