(* ===== verification/Live_Service.thy ===== *)
theory Live_Service
  imports Live_Store Live_Authority
begin

section \<open>The live execution service\<close>

text \<open>
  \<^verbatim>\<open>src/execution/live/service.ts\<close>: the one root through which an authorised intent becomes an order at
  the venue. The venue is the port of \<^verbatim>\<open>src/execution/live/gateway.ts\<close>, an argument here. The operations
  are given twice. First each method as one function, its calls in the order of the code, on the durable
  database and the coordinator; the n-th database write of a call happens at the time \<open>clock n\<close>. Then a
  dispatch as the sequence of steps between its \<^verbatim>\<open>await\<close>s, so that dispatches, other writers and crashes
  interleave in every order; a dispatch that runs alone is the function.

  A database change is kept on an error that is thrown after it, so the database and the coordinator are
  returned on both sides of a result.
\<close>

subsection \<open>The port to the venue\<close>

record place_request =
  pl_clientOrderId :: string
  pl_pair :: string
  pl_side :: order_side
  pl_wireOrderType :: string
  pl_quantity :: string
  pl_price :: "string option"
  pl_leverage :: "string option"
  pl_settlementRateInrPerQuote :: "string option"
  pl_timeInForce :: time_in_force
  pl_timeoutMs :: int

datatype place_result =
    PLACE_ACCEPTED observation
  | PLACE_REJECTED string "observation option"
  | PLACE_AMBIGUOUS string
  | PLACE_PRE_DISPATCH_FAILURE string

record cancel_request =
  cl_clientOrderId :: string
  cl_exchangeOrderId :: string
  cl_pair :: string
  cl_timeoutMs :: int

datatype cancel_result =
    CANCEL_ACCEPTED "observation option"
  | CANCEL_REFUSED string
  | CANCEL_UNKNOWN string
  | CANCEL_PRE_DISPATCH_FAILURE string

record fetch_request =
  fo_clientOrderId :: string
  fo_exchangeOrderId :: string
  fo_pair :: string
  fo_side :: order_side
  fo_wireOrderType :: string
  fo_quantity :: string
  fo_price :: "string option"
  fo_settlementRateInrPerQuote :: "string option"
  fo_marginCurrencyShortName :: string
  fo_timeoutMs :: int

datatype fetch_result = FETCH_FOUND observation | FETCH_NOT_FOUND | FETCH_AMBIGUOUS string

record gateway =
  gt_placeOrder :: "place_request \<Rightarrow> place_result"
  gt_cancelOrder :: "cancel_request \<Rightarrow> cancel_result"
  gt_fetchOrder :: "fetch_request \<Rightarrow> fetch_result"

datatype dispatch_kind = DK_SUBMITTED | DK_ALREADY_DISPATCHED | DK_REJECTED | DK_AMBIGUOUS

record dispatch_outcome =
  dq_kind :: dispatch_kind
  dq_order :: live_order
  dq_faultCode :: "fault option"

datatype cancel_kind =
    CK_CANCELLED
  | CK_CANCEL_REQUESTED
  | CK_FILLED_BEFORE_CANCEL
  | CK_NOT_CANCELLABLE
  | CK_AMBIGUOUS

record cancel_outcome =
  wd_kind :: cancel_kind
  wd_order :: live_order
  wd_faultCode :: "fault option"

subsection \<open>Before anything is written\<close>

definition requireIntent :: "intent_record option \<Rightarrow> (live_code, intent_record) res" where
  "requireIntent intent = (case intent of None \<Rightarrow> Inl LIVE_INTENT_INVALID | Some r \<Rightarrow> Inr r)"

definition authorisedIntent ::
    "live_env \<Rightarrow> live_authority option \<Rightarrow> intent_record option \<Rightarrow> (thrown, intent_record \<times> live_authority) res" where
  "authorisedIntent env authority intent =
     rbind (liveR (requireIntent intent)) (\<lambda>intentRecord.
     rbind (liveR (readLiveAuthorityForIntent authority intent)) (\<lambda>authorityRecord.
     rbind (assertLiveExecutionIntentIdentity (env_sha env) intentRecord) (\<lambda>_.
       Inr (intentRecord, authorityRecord))))"

text \<open>The outcome \<^verbatim>\<open>ALREADY_DISPATCHED\<close> for the order as it is stored.\<close>

definition alreadyDispatched :: "live_order \<Rightarrow> dispatch_outcome" where
  "alreadyDispatched ord = \<lparr>dq_kind = DK_ALREADY_DISPATCHED, dq_order = ord, dq_faultCode = lo_faultCode ord\<rparr>"

text \<open>What the recorded order says about dispatching: go on, or the outcome of this call.\<close>

definition checkRecorded :: "live_order \<Rightarrow> (thrown, dispatch_outcome option) res" where
  "checkRecorded persisted =
     (if lo_state persisted = ST_SUBMISSION_AMBIGUOUS then Inl (Live LIVE_SUBMISSION_AMBIGUOUS)
      else if lo_state persisted \<noteq> CREATED then Inr (Some (alreadyDispatched persisted))
      else Inr None)"

text \<open>The callback of the claim: the process-local half of consuming the admission.\<close>

definition consumeLiveAdmission ::
    "live_authority \<Rightarrow> string \<Rightarrow> (coordinator \<Rightarrow> bool \<times> coordinator) option" where
  "consumeLiveAdmission authority intentId =
     map_option (\<lambda>admission co.
         case consumeForLiveLocked (la_accountId authority) (ad_admissionId admission) intentId co of
           (status, co') \<Rightarrow> (status = CONSUMED \<or> status = ALREADY_CONSUMED_SAME_INTENT, co'))
       (la_admission authority)"

definition place_request_of :: "policy_content \<Rightarrow> intent_record \<Rightarrow> place_request" where
  "place_request_of policy r =
     (let c = ir_content r in
      \<lparr>pl_clientOrderId = ir_clientOrderId r, pl_pair = ic_pair c, pl_side = ic_side c,
       pl_wireOrderType = ir_wireOrderType r, pl_quantity = ic_quantity c, pl_price = ic_price c,
       pl_leverage = ic_leverage c, pl_settlementRateInrPerQuote = ic_settlementRateInrPerQuote c,
       pl_timeInForce = ic_timeInForce c, pl_timeoutMs = pc_requestTimeoutMs policy\<rparr>)"

subsection \<open>After the venue has answered\<close>

text \<open>\<^verbatim>\<open>#ingest\<close> folds an observation, \<^verbatim>\<open>#commitRejection\<close> records a refusal.\<close>

definition ingest :: "live_env \<Rightarrow> int \<Rightarrow> live_order \<Rightarrow> observation \<Rightarrow> live_db \<Rightarrow> (thrown, live_order \<times> live_db) res" where
  "ingest env now current ob db = applyObservationAtomically env now (lo_intentId current) ob db"

definition commitRejection :: "live_env \<Rightarrow> int \<Rightarrow> live_order \<Rightarrow> string \<Rightarrow> live_db \<Rightarrow> (thrown, live_order \<times> live_db) res" where
  "commitRejection env now reserved reasonCode db =
     rbind (liveR (markRejected (env_decimal env) reserved (Reason reasonCode))) (\<lambda>nxt.
       commitState env now nxt (lo_revision reserved) db)"

text \<open>A change that fails leaves the database as it is.\<close>

definition settle ::
    "live_db \<Rightarrow> (thrown, live_order \<times> live_db) res \<Rightarrow> (live_order \<Rightarrow> (thrown, 'o) res) \<Rightarrow> (thrown, 'o) res \<times> live_db" where
  "settle db write report = (case write of Inl e \<Rightarrow> (Inl e, db) | Inr (ord, db') \<Rightarrow> (report ord, db'))"

definition settleDispatch ::
    "live_env \<Rightarrow> int \<Rightarrow> live_order \<Rightarrow> place_result \<Rightarrow> live_db \<Rightarrow> (thrown, dispatch_outcome) res \<times> live_db" where
  "settleDispatch env now reserved result db =
     (case result of
        PLACE_ACCEPTED ob \<Rightarrow>
          settle db (ingest env now reserved ob db)
            (\<lambda>ord. Inr \<lparr>dq_kind = DK_SUBMITTED, dq_order = ord, dq_faultCode = None\<rparr>)
      | PLACE_REJECTED reasonCode ob \<Rightarrow>
          settle db (case ob of None \<Rightarrow> commitRejection env now reserved reasonCode db
                              | Some o' \<Rightarrow> ingest env now reserved o' db)
            (\<lambda>ord. Inr \<lparr>dq_kind = DK_REJECTED, dq_order = ord, dq_faultCode = Some (Reason reasonCode)\<rparr>)
      | PLACE_PRE_DISPATCH_FAILURE reasonCode \<Rightarrow>
          settle db (rbind (liveR (releaseDispatchClaim reserved (Reason reasonCode)))
                       (\<lambda>released. commitState env now released (lo_revision reserved) db))
            (\<lambda>ord. Inl (Live LIVE_PROVIDER_ERROR))
      | PLACE_AMBIGUOUS reasonCode \<Rightarrow>
          settle db (rbind (liveR (markSubmissionAmbiguous reserved (Code LIVE_SUBMISSION_AMBIGUOUS)))
                       (\<lambda>ambiguous. commitState env now ambiguous (lo_revision reserved) db))
            (\<lambda>ord. Inr \<lparr>dq_kind = DK_AMBIGUOUS, dq_order = ord,
                        dq_faultCode = Some (Code LIVE_SUBMISSION_AMBIGUOUS)\<rparr>))"

subsection \<open>Dispatching\<close>

definition dispatch ::
    "live_env \<Rightarrow> policy_content \<Rightarrow> (nat \<Rightarrow> int) \<Rightarrow> gateway \<Rightarrow> live_authority option \<Rightarrow> intent_record option
     \<Rightarrow> live_db \<Rightarrow> coordinator \<Rightarrow> (thrown, dispatch_outcome) res \<times> live_db \<times> coordinator" where
  "dispatch env policy clock g authority intent db co =
     (case authorisedIntent env authority intent of
        Inl e \<Rightarrow> (Inl e, db, co)
      | Inr (intentRecord, authorityRecord) \<Rightarrow>
          (case ensureIntent env (clock 0) intentRecord db of
             Inl e \<Rightarrow> (Inl e, db, co)
           | Inr (persisted, db1) \<Rightarrow>
               (case checkRecorded persisted of
                  Inl e \<Rightarrow> (Inl e, db1, co)
                | Inr (Some done) \<Rightarrow> (Inr done, db1, co)
                | Inr None \<Rightarrow>
                    (case claimDispatch env (clock 1) (ir_intentId intentRecord)
                            (consumeLiveAdmission authorityRecord (ir_intentId intentRecord)) db1 co of
                       (Inl e, db2, co') \<Rightarrow> (Inl e, db2, co')
                     | (Inr (DISPATCH_ALREADY_CLAIMED ord), db2, co') \<Rightarrow> (Inr (alreadyDispatched ord), db2, co')
                     | (Inr (DISPATCH_CLAIMED reserved), db2, co') \<Rightarrow>
                         (case settleDispatch env (clock 2) reserved
                                 (gt_placeOrder g (place_request_of policy intentRecord)) db2 of
                            (outcome, db3) \<Rightarrow> (outcome, db3, co'))))))"

subsection \<open>Reading and folding what the venue reports\<close>

definition fetchAuthoritativeObservation ::
    "live_env \<Rightarrow> policy_content \<Rightarrow> gateway \<Rightarrow> live_order \<Rightarrow> string option \<Rightarrow> live_db \<Rightarrow> (thrown, observation option) res" where
  "fetchAuthoritativeObservation env policy g order exchangeOrderId db =
     (case exchangeOrderId of
        None \<Rightarrow> Inr None
      | Some x \<Rightarrow>
          rbind (loadObservationIdentity env (lo_intentId order) db) (\<lambda>identity.
            case identity of
              None \<Rightarrow> Inl (Live LIVE_PERSISTENCE_FAULT)
            | Some i \<Rightarrow>
                Inr (case gt_fetchOrder g \<lparr>fo_clientOrderId = lo_clientOrderId order, fo_exchangeOrderId = x,
                            fo_pair = lo_pair order, fo_side = oi_side i, fo_wireOrderType = oi_wireOrderType i,
                            fo_quantity = oi_quantity i, fo_price = oi_price i,
                            fo_settlementRateInrPerQuote = oi_settlementRateInrPerQuote i,
                            fo_marginCurrencyShortName = oi_marginCurrencyShortName i,
                            fo_timeoutMs = pc_requestTimeoutMs policy\<rparr> of
                       FETCH_FOUND ob \<Rightarrow> Some ob
                     | FETCH_NOT_FOUND \<Rightarrow> None
                     | FETCH_AMBIGUOUS _ \<Rightarrow> None)))"

definition requireLoaded :: "live_env \<Rightarrow> string \<Rightarrow> live_db \<Rightarrow> (thrown, live_order) res" where
  "requireLoaded env intentId db =
     rbind (load env intentId db) (\<lambda>current.
       case current of None \<Rightarrow> Inl (Live LIVE_INTENT_INVALID) | Some ord \<Rightarrow> Inr ord)"

definition applyObservation ::
    "live_env \<Rightarrow> int \<Rightarrow> string \<Rightarrow> observation \<Rightarrow> live_db \<Rightarrow> (thrown, live_order \<times> live_db) res" where
  "applyObservation env now intentId ob db =
     rbind (requireLoaded env intentId db) (\<lambda>current. ingest env now current ob db)"

definition syncOrderState ::
    "live_env \<Rightarrow> policy_content \<Rightarrow> int \<Rightarrow> gateway \<Rightarrow> string \<Rightarrow> live_db \<Rightarrow> (thrown, live_order \<times> live_db) res" where
  "syncOrderState env policy now g intentId db =
     rbind (requireLoaded env intentId db) (\<lambda>current.
       if lo_state current = ST_SUBMISSION_AMBIGUOUS then Inl (Live LIVE_SUBMISSION_AMBIGUOUS)
       else if lo_state current = CREATED \<or> lo_state current = DISPATCH_RESERVED then Inr (current, db)
       else
         rbind (fetchAuthoritativeObservation env policy g current (lo_exchangeOrderId current) db) (\<lambda>ob.
           case ob of None \<Rightarrow> Inr (current, db) | Some o' \<Rightarrow> ingest env now current o' db))"


subsection \<open>Cancelling\<close>

definition reportCancel :: "cancel_kind \<Rightarrow> fault option \<Rightarrow> live_order \<Rightarrow> (thrown, cancel_outcome) res" where
  "reportCancel kind faultCode ord = Inr \<lparr>wd_kind = kind, wd_order = ord, wd_faultCode = faultCode\<rparr>"

definition cancel_request_of :: "policy_content \<Rightarrow> live_order \<Rightarrow> string \<Rightarrow> cancel_request" where
  "cancel_request_of policy requested exchangeOrderId =
     \<lparr>cl_clientOrderId = lo_clientOrderId requested, cl_exchangeOrderId = exchangeOrderId,
      cl_pair = lo_pair requested, cl_timeoutMs = pc_requestTimeoutMs policy\<rparr>"

text \<open>The outcome of a claim another caller already holds.\<close>

definition claimedBefore :: "live_order \<Rightarrow> (thrown, cancel_outcome) res" where
  "claimedBefore ord =
     (if lo_cancelState ord = CANCEL_AMBIGUOUS then reportCancel CK_AMBIGUOUS (lo_cancelFaultCode ord) ord
      else if lo_cancelState ord = CANCEL_REJECTED then reportCancel CK_NOT_CANCELLABLE (lo_cancelFaultCode ord) ord
      else reportCancel CK_CANCEL_REQUESTED (lo_cancelFaultCode ord) ord)"

definition cancelledReport :: "live_order \<Rightarrow> (thrown, cancel_outcome) res" where
  "cancelledReport ord =
     (if lo_state ord = FILLED then reportCancel CK_FILLED_BEFORE_CANCEL None ord
      else if lo_state ord = CANCELLED then reportCancel CK_CANCELLED None ord
      else reportCancel CK_CANCEL_REQUESTED (lo_faultCode ord) ord)"

text \<open>The venue accepted the cancellation: fold what it, or a read after it, says of the order.\<close>

definition settleAccepted ::
    "live_env \<Rightarrow> policy_content \<Rightarrow> (nat \<Rightarrow> int) \<Rightarrow> gateway \<Rightarrow> string \<Rightarrow> int \<Rightarrow> live_order \<Rightarrow> string \<Rightarrow> observation option
     \<Rightarrow> live_db \<Rightarrow> (thrown, cancel_outcome) res \<times> live_db" where
  "settleAccepted env policy clock g intentId generation requested exchangeOrderId reported db =
     (case (case reported of
              Some ob \<Rightarrow> Inr (Some ob)
            | None \<Rightarrow> fetchAuthoritativeObservation env policy g requested (Some exchangeOrderId) db) of
        Inl e \<Rightarrow> (Inl e, db)
      | Inr None \<Rightarrow>
          settle db (completeCancelAttempt env (clock 2) intentId generation CC_AMBIGUOUS (Some (Code LIVE_CANCEL_AMBIGUOUS)) db)
            (reportCancel CK_AMBIGUOUS (Some (Code LIVE_CANCEL_AMBIGUOUS)))
      | Inr (Some ob) \<Rightarrow>
          (case completeCancelAttempt env (clock 2) intentId generation CC_ACKNOWLEDGED None db of
             Inl e \<Rightarrow> (Inl e, db)
           | Inr (acknowledged, db') \<Rightarrow> settle db' (ingest env (clock 3) acknowledged ob db') cancelledReport))"

definition settleCancel ::
    "live_env \<Rightarrow> policy_content \<Rightarrow> (nat \<Rightarrow> int) \<Rightarrow> gateway \<Rightarrow> string \<Rightarrow> int \<Rightarrow> live_order \<Rightarrow> string \<Rightarrow> cancel_result
     \<Rightarrow> live_db \<Rightarrow> (thrown, cancel_outcome) res \<times> live_db" where
  "settleCancel env policy clock g intentId generation requested exchangeOrderId result db =
     (case result of
        CANCEL_UNKNOWN _ \<Rightarrow>
          settle db (completeCancelAttempt env (clock 2) intentId generation CC_AMBIGUOUS (Some (Code LIVE_CANCEL_AMBIGUOUS)) db)
            (reportCancel CK_AMBIGUOUS (Some (Code LIVE_CANCEL_AMBIGUOUS)))
      | CANCEL_PRE_DISPATCH_FAILURE reasonCode \<Rightarrow>
          settle db (completeCancelAttempt env (clock 2) intentId generation CC_REJECTED (Some (Reason reasonCode)) db)
            (reportCancel CK_NOT_CANCELLABLE (Some (Reason reasonCode)))
      | CANCEL_REFUSED reasonCode \<Rightarrow>
          settle db (completeCancelAttempt env (clock 2) intentId generation CC_REJECTED (Some (Reason reasonCode)) db)
            (reportCancel CK_NOT_CANCELLABLE (Some (Reason reasonCode)))
      | CANCEL_ACCEPTED reported \<Rightarrow>
          settleAccepted env policy clock g intentId generation requested exchangeOrderId reported db)"

text \<open>The claim of the cancellation and what follows it, for an order past its dispatch.\<close>

definition cancelClaimed ::
    "live_env \<Rightarrow> policy_content \<Rightarrow> (nat \<Rightarrow> int) \<Rightarrow> gateway \<Rightarrow> string \<Rightarrow> string \<Rightarrow> live_db
     \<Rightarrow> (thrown, cancel_outcome) res \<times> live_db" where
  "cancelClaimed env policy clock g intentId trustedAccountId db =
     (case claimCancel env (clock 1) intentId trustedAccountId db of
        Inl e \<Rightarrow> (Inl e, db)
      | Inr (CANCEL_NOT_CANCELLABLE ord _, db') \<Rightarrow> (reportCancel CK_NOT_CANCELLABLE (lo_faultCode ord) ord, db')
      | Inr (CANCEL_ALREADY_CLAIMED ord _, db') \<Rightarrow> (claimedBefore ord, db')
      | Inr (CANCEL_CLAIMED requested generation, db') \<Rightarrow>
          (case lo_exchangeOrderId requested of
             None \<Rightarrow> (Inl (Live LIVE_PERSISTENCE_FAULT), db')
           | Some exchangeOrderId \<Rightarrow>
               settleCancel env policy clock g intentId generation requested exchangeOrderId
                 (gt_cancelOrder g (cancel_request_of policy requested exchangeOrderId)) db'))"

definition cancelDurable ::
    "live_env \<Rightarrow> policy_content \<Rightarrow> int \<Rightarrow> (nat \<Rightarrow> int) \<Rightarrow> gateway \<Rightarrow> string \<Rightarrow> string \<Rightarrow> live_db
     \<Rightarrow> (thrown, cancel_outcome) res \<times> live_db" where
  "cancelDurable env policy dateNow clock g intentId trustedAccountId db =
     (case markExpiredDispatchUnresolved env (clock 0) intentId trustedAccountId
             (dateNow - pc_dispatchClaimTimeoutMs policy) db of
        Inl e \<Rightarrow> (Inl e, db)
      | Inr (current, db') \<Rightarrow>
          if lo_state current = ST_SUBMISSION_AMBIGUOUS then (Inl (Live LIVE_CANCEL_AMBIGUOUS), db')
          else if isLiveTerminalState (lo_state current) \<or> lo_state current = CREATED
                  \<or> lo_state current = DISPATCH_RESERVED
          then (reportCancel CK_NOT_CANCELLABLE (lo_faultCode current) current, db')
          else cancelClaimed env policy clock g intentId trustedAccountId db')"

definition cancel ::
    "live_env \<Rightarrow> policy_content \<Rightarrow> int \<Rightarrow> (nat \<Rightarrow> int) \<Rightarrow> gateway \<Rightarrow> live_authority option \<Rightarrow> intent_record option
     \<Rightarrow> live_db \<Rightarrow> (thrown, cancel_outcome) res \<times> live_db" where
  "cancel env policy dateNow clock g authority intent db =
     (case rbind (requireIntent intent) (\<lambda>intentRecord.
           rbind (readLiveAuthorityForIntent authority intent) (\<lambda>authorityRecord.
             Inr (intentRecord, authorityRecord))) of
        Inl e \<Rightarrow> (Inl (Live e), db)
      | Inr (intentRecord, authorityRecord) \<Rightarrow>
          cancelDurable env policy dateNow clock g (ir_intentId intentRecord) (la_accountId authorityRecord) db)"

subsection \<open>A dispatch in steps\<close>

text \<open>
  Where a dispatch stands between two \<^verbatim>\<open>await\<close>s. \<open>TAKEN n\<close>: the claim transaction has committed and
  updated \<open>n\<close> orders; \<open>CONTENDED\<close>: it lost on a unique index; \<open>HOLDING\<close>: it owns the
  reserved order; \<open>PLACED\<close>: the request is with the venue; \<open>ANSWERED\<close>: the answer is back, not yet recorded.
\<close>

datatype phase =
    STARTED
  | ENSURED
  | TAKEN nat
  | CONTENDED
  | HOLDING live_order
  | PLACED live_order
  | ANSWERED live_order place_result
  | FINISHED "(thrown, dispatch_outcome) res"

record call =
  ca_intent :: intent_record
  ca_authority :: live_authority
  ca_phase :: phase

definition ensureStep :: "live_env \<Rightarrow> int \<Rightarrow> intent_record \<Rightarrow> live_db \<Rightarrow> phase \<times> live_db" where
  "ensureStep env now intent db =
     (case ensureIntent env now intent db of
        Inl e \<Rightarrow> (FINISHED (Inl e), db)
      | Inr (persisted, db') \<Rightarrow>
          (case checkRecorded persisted of
             Inl e \<Rightarrow> FINISHED (Inl e)
           | Inr (Some done) \<Rightarrow> FINISHED (Inr done)
           | Inr None \<Rightarrow> ENSURED, db'))"

definition claimStep ::
    "live_env \<Rightarrow> int \<Rightarrow> intent_record \<Rightarrow> live_authority \<Rightarrow> live_db \<Rightarrow> coordinator \<Rightarrow> phase \<times> live_db \<times> coordinator" where
  "claimStep env now intent authority db co =
     (case claimDispatchTx env now (ir_intentId intent) (consumeLiveAdmission authority (ir_intentId intent)) db co of
        (Inr (updated, db'), co') \<Rightarrow> (TAKEN updated, db', co')
      | (Inl UniqueViolation, co') \<Rightarrow> (CONTENDED, db, co')
      | (Inl e, co') \<Rightarrow> (FINISHED (Inl e), db, co'))"

primrec afterClaim :: "claim_dispatch \<Rightarrow> phase" where
  "afterClaim (DISPATCH_CLAIMED reserved) = HOLDING reserved"
| "afterClaim (DISPATCH_ALREADY_CLAIMED ord) = FINISHED (Inr (alreadyDispatched ord))"

definition readStep :: "(thrown, claim_dispatch) res \<Rightarrow> phase" where
  "readStep claim = (case claim of Inl e \<Rightarrow> FINISHED (Inl e) | Inr c \<Rightarrow> afterClaim c)"

text \<open>One step of a dispatch, given the time of its write and the venue's answer if this is where it comes.\<close>

definition advance ::
    "live_env \<Rightarrow> int \<Rightarrow> place_result \<Rightarrow> call \<Rightarrow> live_db \<Rightarrow> coordinator \<Rightarrow> phase \<times> live_db \<times> coordinator" where
  "advance env now answer c db co =
     (let intentId = ir_intentId (ca_intent c)
      in case ca_phase c of
           STARTED \<Rightarrow> (case ensureStep env now (ca_intent c) db of (p, db') \<Rightarrow> (p, db', co))
         | ENSURED \<Rightarrow> claimStep env now (ca_intent c) (ca_authority c) db co
         | TAKEN n \<Rightarrow> (readStep (claimOutcome env intentId n db), db, co)
         | CONTENDED \<Rightarrow> (readStep (resolveLostClaim env intentId db), db, co)
         | HOLDING reserved \<Rightarrow> (PLACED reserved, db, co)
         | PLACED reserved \<Rightarrow> (ANSWERED reserved answer, db, co)
         | ANSWERED reserved r \<Rightarrow>
             (case settleDispatch env now reserved r db of (outcome, db') \<Rightarrow> (FINISHED outcome, db', co))
         | FINISHED outcome \<Rightarrow> (FINISHED outcome, db, co))"


text \<open>A dispatch that is never interleaved, with one answer of the venue; its writes are timed as those of \<open>dispatch\<close>.\<close>

definition write_time :: "(nat \<Rightarrow> int) \<Rightarrow> phase \<Rightarrow> int" where
  "write_time clock p = (case p of STARTED \<Rightarrow> clock 0 | ENSURED \<Rightarrow> clock 1 | _ \<Rightarrow> clock 2)"

primrec run_alone ::
    "live_env \<Rightarrow> (nat \<Rightarrow> int) \<Rightarrow> place_result \<Rightarrow> nat \<Rightarrow> call \<Rightarrow> live_db \<Rightarrow> coordinator \<Rightarrow> phase \<times> live_db \<times> coordinator" where
  "run_alone env clock answer 0 c db co = (ca_phase c, db, co)"
| "run_alone env clock answer (Suc k) c db co =
     (case advance env (write_time clock (ca_phase c)) answer c db co of
        (p, db', co') \<Rightarrow> run_alone env clock answer k (c\<lparr>ca_phase := p\<rparr>) db' co')"

subsection \<open>Everything that runs\<close>

text \<open>
  \<open>wo_sent\<close> lists the requests handed to the venue, newest first, each with its call; \<open>wo_refused\<close> are
  the calls whose request the venue's port answered with \<open>PLACE_PRE_DISPATCH_FAILURE\<close>, its
  statement that nothing left the process. Both are only read by the theorems.
\<close>

record world =
  wo_db :: live_db
  wo_co :: coordinator
  wo_calls :: "nat \<rightharpoonup> call"
  wo_sent :: "(nat \<times> string) list"
  wo_refused :: "nat set"

text \<open>The other writers of the tables: cancellations, recovery after a restart, and observations.\<close>

inductive other_write :: "live_env \<Rightarrow> live_db \<Rightarrow> live_db \<Rightarrow> bool" for env where
  ow_claimCancel: "claimCancel env now i account db = Inr (outcome, db') \<Longrightarrow> other_write env db db'"
| ow_completeCancel: "completeCancelAttempt env now i g kind fc db = Inr (ord, db') \<Longrightarrow> other_write env db db'"
| ow_expire: "markExpiredDispatchUnresolved env now i account cutoff db = Inr (ord, db') \<Longrightarrow> other_write env db db'"
| ow_observe: "applyObservationAtomically env now i ob db = Inr (ord, db') \<Longrightarrow> other_write env db db'"

definition is_pre_dispatch :: "place_result \<Rightarrow> bool" where
  "is_pre_dispatch r = (case r of PLACE_PRE_DISPATCH_FAILURE _ \<Rightarrow> True | _ \<Rightarrow> False)"

definition moved ::
    "nat \<Rightarrow> call \<Rightarrow> place_result \<Rightarrow> phase \<times> live_db \<times> coordinator \<Rightarrow> world \<Rightarrow> world" where
  "moved n c answer result w =
     (case result of (p, db', co') \<Rightarrow>
        \<lparr>wo_db = db', wo_co = co', wo_calls = (wo_calls w)(n \<mapsto> c\<lparr>ca_phase := p\<rparr>),
         wo_sent = (case ca_phase c of HOLDING _ \<Rightarrow> (n, ir_intentId (ca_intent c)) # wo_sent w | _ \<Rightarrow> wo_sent w),
         wo_refused = (case ca_phase c of
             PLACED _ \<Rightarrow> if is_pre_dispatch answer then insert n (wo_refused w) else wo_refused w
           | _ \<Rightarrow> wo_refused w)\<rparr>)"

text \<open>
  Calls are numbered and a number is not used again. A step is a new call that has passed the checks before
  its first \<^verbatim>\<open>await\<close>, one step of a call, the end of a call at any point (its process is gone), a write of
  another operation, or anything at all happening to the coordinator.
\<close>

inductive service_step :: "live_env \<Rightarrow> world \<Rightarrow> world \<Rightarrow> bool" for env where
  begin_call: "wo_calls w n = None \<Longrightarrow> n \<notin> fst ` set (wo_sent w) \<Longrightarrow>
     authorisedIntent env authority intent = Inr (r, a) \<Longrightarrow>
     service_step env w
       (w\<lparr>wo_calls := (wo_calls w)(n \<mapsto> \<lparr>ca_intent = r, ca_authority = a, ca_phase = STARTED\<rparr>)\<rparr>)"
| run_call: "wo_calls w n = Some c \<Longrightarrow>
     service_step env w (moved n c answer (advance env now answer c (wo_db w) (wo_co w)) w)"
| crash: "wo_calls w n = Some c \<Longrightarrow> service_step env w (w\<lparr>wo_calls := (wo_calls w)(n := None)\<rparr>)"
| other: "other_write env (wo_db w) db' \<Longrightarrow> service_step env w (w\<lparr>wo_db := db'\<rparr>)"
| coordinate: "service_step env w (w\<lparr>wo_co := co'\<rparr>)"

text \<open>Every row is stored under the intent it names.\<close>

definition db_keyed :: "live_db \<Rightarrow> bool" where
  "db_keyed db \<longleftrightarrow> (\<forall>i a. order_of db i = Some a \<longrightarrow> lo_intentId a = i)"

inductive service_reachable :: "live_env \<Rightarrow> world \<Rightarrow> bool" for env where
  start: "db_keyed db \<Longrightarrow>
     service_reachable env \<lparr>wo_db = db, wo_co = co, wo_calls = Map.empty, wo_sent = [], wo_refused = {}\<rparr>"
| step: "service_reachable env w \<Longrightarrow> service_step env w w' \<Longrightarrow> service_reachable env w'"

inductive_cases service_stepE: "service_step env w w'"

subsection \<open>Writes that keep what a dispatch relies on\<close>

definition dispatched :: "live_db \<Rightarrow> string \<Rightarrow> bool" where
  "dispatched db i \<longleftrightarrow> (\<exists>a. order_of db i = Some a \<and> lo_state a \<noteq> CREATED)"

definition tame :: "live_db \<Rightarrow> live_db \<Rightarrow> bool" where
  "tame db db' \<longleftrightarrow> db_advances db db' \<and> (\<forall>i. dispatched db i \<longrightarrow> dispatched db' i) \<and> (db_keyed db \<longrightarrow> db_keyed db')"

lemma tame_refl [simp]: "tame db db"
  by (simp add: tame_def)

lemma tame_trans: "tame x y \<Longrightarrow> tame y z \<Longrightarrow> tame x z"
  unfolding tame_def by (blast intro: db_advances_trans)

lemma tame_write:
  assumes "order_of db i = Some a" and "db_advances db db'"
    and "\<And>j. order_of db' j = (if j = i then Some b else order_of db j)"
    and "lo_intentId b = lo_intentId a" and "lo_state b = CREATED \<longrightarrow> lo_state a = CREATED"
  shows "tame db db'"
  using assms by (auto simp: tame_def dispatched_def db_keyed_def)

lemma tame_same:
  assumes "db_advances db db'" and "order_of db' = order_of db"
  shows "tame db db'"
  using assms by (simp add: tame_def dispatched_def db_keyed_def)

lemma ensureIntent_tame:
  assumes "ensureIntent env now intent db = Inr (ord, db')"
  shows "tame db db'"
  using ensureIntent_cases[OF assms]
proof
  assume "db_intents db (ir_intentId intent) = None
      \<and> initialLiveOrderState (ir_intentId intent) (ir_clientOrderId intent)
          (ic_accountId (ir_content intent)) (ic_pair (ir_content intent)) (ic_quantity (ir_content intent)) = Inr ord
      \<and> insertIntent env now intent ord db = Inr db'"
  then have i: "lo_intentId ord = ir_intentId intent" and ins: "insertIntent env now intent ord db = Inr db'"
    by (auto simp: initialLiveOrderState_def elim!: rbindE split: if_splits)
  note f = insertIntent_Inr[OF ins]
  have "order_of db (ir_intentId intent) = None" using f(2) by (simp add: order_of_def)
  then show ?thesis
    using f(4) i ensureIntent_advances[OF assms]
    by (auto simp: tame_def dispatched_def db_keyed_def store_order_def)
qed simp

lemma claimDispatchTx_tame:
  assumes "claimDispatchTx env now i consume db k = (Inr (u, db'), k')"
  shows "tame db db'"
  using assms
proof (cases rule: claimDispatchTx_Inr)
  case (reserved a v db1)
  show ?thesis
    by (rule tame_write[OF reserved(2) claimDispatchTx_advances[OF assms], of "reserved_row a"])
      (use reserved in \<open>simp_all add: reserved_row_def\<close>)
qed simp

lemma applyObservation_tame:
  assumes "applyObservationAtomically env now i ob db = Inr (ord, db')"
  shows "tame db db'"
  using assms
proof (cases rule: applyObservationAtomically_Inr)
  case (unchanged a)
  then show ?thesis by (simp add: tame_same)
next
  case (folded a dg)
  show ?thesis
    by (rule tame_write[OF folded(1) observation_advances[OF assms], of "observation_columns env ord a"])
      (use folded applied_row[OF folded(2)] in \<open>simp_all add: observation_columns_def\<close>)
qed

lemma commitState_tame:
  assumes "commitState env now nxt r0 db = Inr (ord, db')" and "r0 < lo_revision nxt" and "lo_state nxt \<noteq> CREATED"
  shows "tame db db'"
proof -
  obtain a where a: "order_of db (lo_intentId nxt) = Some a"
      "db' = put_order now (lo_intentId nxt) (commit_columns env nxt a) db"
    using commitState_Inr[OF assms(1)] by blast
  show ?thesis
    by (rule tame_write[OF a(1) commitState_advances[OF assms(1,2)], of "commit_columns env nxt a"])
      (use a(2) assms(3) in \<open>simp_all add: commit_columns_def\<close>)
qed

lemma other_write_tame:
  assumes "other_write env db db'"
  shows "tame db db'"
  using assms
proof cases
  case (ow_claimCancel now i account outcome)
  note w = ow_claimCancel
  from w show ?thesis
  proof (cases rule: claimCancel_Inr)
    case (claimed a)
    show ?thesis
      by (rule tame_write[OF claimed(1) claimCancel_advances[OF w], of "cancel_claimed_row a"])
        (use claimed in \<open>simp_all add: cancel_claimed_row_def\<close>)
  qed simp
next
  case (ow_completeCancel now i g kind fc ord)
  note w = ow_completeCancel
  from completeCancel_Inr[OF w] obtain a where a: "order_of db i = Some a"
      "db' = db \<or> db' = put_order now i (completed_row kind fc a) db" by blast
  then show ?thesis
  proof (elim disjE)
    assume "db' = put_order now i (completed_row kind fc a) db"
    then show ?thesis
      by (intro tame_write[OF a(1) completeCancel_advances[OF w], of "completed_row kind fc a"])
        (simp_all add: completed_row_def)
  qed simp
next
  case (ow_expire now i account cutoff ord)
  note w = ow_expire
  from markExpired_Inr[OF w] obtain a where a: "order_of db i = Some a"
      "db' = db \<or> db' = put_order now i (expired_row a) db" by blast
  then show ?thesis
  proof (elim disjE)
    assume "db' = put_order now i (expired_row a) db"
    then show ?thesis
      by (intro tame_write[OF a(1) markExpired_advances[OF w], of "expired_row a"]) (simp_all add: expired_row_def)
  qed simp
next
  case (ow_observe now i ob ord)
  then show ?thesis by (rule applyObservation_tame)
qed


subsection \<open>What each step of a dispatch does\<close>

lemma settle_cases:
  assumes "settle db wr report = (out, db')"
  shows "db' = db \<or> (\<exists>ord. wr = Inr (ord, db'))"
  using assms by (auto simp: settle_def split: sum.splits)

lemma settleDispatch_tame:
  assumes "settleDispatch env now reserved r db = (out, db')" and "\<not> is_pre_dispatch r"
  shows "tame db db'"
proof (cases r)
  case (PLACE_ACCEPTED ob)
  then show ?thesis using assms(1) applyObservation_tame
    by (auto simp: settleDispatch_def ingest_def dest!: settle_cases)
next
  case (PLACE_REJECTED reason ob)
  then show ?thesis
  proof (cases ob)
    case None
    have "tame db x" if "commitRejection env now reserved reason db = Inr (ord, x)" for ord x
      using that unfolding commitRejection_def markRejected_def
      by (auto simp: liveR_Inr elim!: rbindE split: if_splits intro!: commitState_tame)
    then show ?thesis using assms(1) PLACE_REJECTED None
      by (auto simp: settleDispatch_def dest!: settle_cases)
  next
    case (Some o')
    then show ?thesis using assms(1) PLACE_REJECTED applyObservation_tame
      by (auto simp: settleDispatch_def ingest_def dest!: settle_cases)
  qed
next
  case (PLACE_AMBIGUOUS reason)
  have "tame db x" if "rbind (liveR (markSubmissionAmbiguous reserved (Code LIVE_SUBMISSION_AMBIGUOUS)))
      (\<lambda>ambiguous. commitState env now ambiguous (lo_revision reserved) db) = Inr (ord, x)" for ord x
    using that unfolding markSubmissionAmbiguous_def
    by (auto simp: liveR_Inr elim!: rbindE intro!: commitState_tame)
  then show ?thesis using assms(1) PLACE_AMBIGUOUS
    by (auto simp: settleDispatch_def dest!: settle_cases)
next
  case (PLACE_PRE_DISPATCH_FAILURE reason)
  then show ?thesis using assms(2) by (simp add: is_pre_dispatch_def)
qed

text \<open>A claim given back touches only the row of its own order.\<close>

lemma settleDispatch_released:
  assumes "settleDispatch env now reserved r db = (out, db')" and "is_pre_dispatch r"
  shows "db_advances db db' \<and> (db_keyed db \<longrightarrow> db_keyed db')
    \<and> (\<forall>j. j \<noteq> lo_intentId reserved \<longrightarrow> order_of db' j = order_of db j)"
proof -
  have "db_advances db x \<and> (db_keyed db \<longrightarrow> db_keyed x) \<and> (\<forall>j. j \<noteq> lo_intentId reserved \<longrightarrow> order_of x j = order_of db j)"
    if w: "rbind (liveR (releaseDispatchClaim reserved fc)) (\<lambda>released. commitState env now released (lo_revision reserved) db) = Inr (ord, x)"
    for fc ord x
  proof -
    obtain nxt where n: "releaseDispatchClaim reserved fc = Inr nxt" "commitState env now nxt (lo_revision reserved) db = Inr (ord, x)"
      using w by (cases "releaseDispatchClaim reserved fc") auto
    have f: "lo_intentId nxt = lo_intentId reserved" "lo_revision reserved < lo_revision nxt"
      using n(1) by (auto simp: releaseDispatchClaim_def elim!: rbindE split: if_splits)
    obtain a where a: "order_of db (lo_intentId nxt) = Some a" "x = put_order now (lo_intentId nxt) (commit_columns env nxt a) db"
      using commitState_Inr[OF n(2)] by blast
    have "lo_intentId (commit_columns env nxt a) = lo_intentId a" by (simp add: commit_columns_def)
    with a f commitState_advances[OF n(2) f(2)] show ?thesis by (auto simp: db_keyed_def)
  qed
  then show ?thesis using assms
    by (cases r) (auto simp: settleDispatch_def is_pre_dispatch_def dest!: settle_cases)
qed

lemma claimOutcome_held:
  assumes "claimOutcome env i n db = Inr (DISPATCH_CLAIMED ord)"
  shows "n = 1" and "order_of db i = Some ord"
  using assms by (auto simp: claimOutcome_def dest: load_Inr elim!: rbindE split: option.splits if_splits)

lemma resolveLostClaim_held: "resolveLostClaim env i db \<noteq> Inr (DISPATCH_CLAIMED ord)"
  by (auto simp: resolveLostClaim_def Let_def elim!: rbindE split: option.splits if_splits)

lemma readStep_held:
  "readStep c = HOLDING ord \<longleftrightarrow> c = Inr (DISPATCH_CLAIMED ord)"
proof (cases c)
  case (Inr x)
  then show ?thesis by (cases x) (simp_all add: readStep_def)
qed (simp add: readStep_def)

lemma readStep_phase:
  "(\<exists>ord. readStep c = HOLDING ord) \<or> (\<exists>out. readStep c = FINISHED out)"
proof (cases c)
  case (Inr x)
  then show ?thesis by (cases x) (simp_all add: readStep_def)
qed (simp add: readStep_def)

subsection \<open>The invariant\<close>

text \<open>The calls that may still reach the venue with an order for the intent, or have.\<close>

definition owns :: "phase \<Rightarrow> bool" where
  "owns p = (case p of TAKEN n \<Rightarrow> n = 1 | HOLDING _ \<Rightarrow> True | PLACED _ \<Rightarrow> True | ANSWERED _ _ \<Rightarrow> True | _ \<Rightarrow> False)"

definition holders :: "world \<Rightarrow> string \<Rightarrow> nat set" where
  "holders w i = {n. (\<exists>c. wo_calls w n = Some c \<and> ir_intentId (ca_intent c) = i \<and> owns (ca_phase c))
                    \<or> (n, i) \<in> set (wo_sent w) \<and> n \<notin> wo_refused w}"

text \<open>The admission of a stored opening belongs to it.\<close>

definition admission_kept :: "live_env \<Rightarrow> live_db \<Rightarrow> string \<Rightarrow> bool" where
  "admission_kept env db i \<longleftrightarrow>
     (\<exists>row v. db_intents db i = Some row \<and> verifyStoredIntentIntegrity (env_sha env) row = Inr v
        \<and> (ic_action (ir_content (vi_intent v)) = OPEN \<longrightarrow>
             (\<exists>a x. ic_admissionId (ir_content (vi_intent v)) = Some a \<and> db_consumptions db a = Some x
                  \<and> cw_intentId x = i)))"

lemma admission_kept_advances:
  assumes "admission_kept env db i" and "db_advances db db'"
  shows "admission_kept env db' i"
proof -
  obtain row v where r: "db_intents db i = Some row" "verifyStoredIntentIntegrity (env_sha env) row = Inr v"
      "ic_action (ir_content (vi_intent v)) = OPEN \<longrightarrow>
         (\<exists>a x. ic_admissionId (ir_content (vi_intent v)) = Some a \<and> db_consumptions db a = Some x \<and> cw_intentId x = i)"
    using assms(1) unfolding admission_kept_def by blast
  have m: "db_intents db \<subseteq>\<^sub>m db_intents db'" "db_consumptions db \<subseteq>\<^sub>m db_consumptions db'"
    using assms(2) by (simp_all add: db_advances_def)
  have "db_intents db' i = Some row" using m(1) r(1) by (metis map_le_def domI)
  moreover have "db_consumptions db' a = Some x" if "db_consumptions db a = Some x" for a x
    using m(2) that by (metis map_le_def domI)
  ultimately show ?thesis using r(2,3) unfolding admission_kept_def by blast
qed

definition call_ok :: "world \<Rightarrow> nat \<Rightarrow> call \<Rightarrow> bool" where
  "call_ok w n c \<longleftrightarrow>
     (let i = ir_intentId (ca_intent c) in
      case ca_phase c of
        HOLDING ord \<Rightarrow> n \<notin> fst ` set (wo_sent w) \<and> lo_intentId ord = i
      | PLACED ord \<Rightarrow> (n, i) \<in> set (wo_sent w) \<and> lo_intentId ord = i
      | ANSWERED ord r \<Rightarrow> (n, i) \<in> set (wo_sent w) \<and> lo_intentId ord = i \<and> (is_pre_dispatch r \<longrightarrow> n \<in> wo_refused w)
      | FINISHED _ \<Rightarrow> True
      | _ \<Rightarrow> n \<notin> fst ` set (wo_sent w))"

definition world_wf :: "live_env \<Rightarrow> world \<Rightarrow> bool" where
  "world_wf env w \<longleftrightarrow>
     db_keyed (wo_db w) \<and> distinct (map fst (wo_sent w))
     \<and> (\<forall>n c. wo_calls w n = Some c \<longrightarrow> call_ok w n c)
     \<and> (\<forall>i n m. n \<in> holders w i \<longrightarrow> m \<in> holders w i \<longrightarrow> n = m)
     \<and> (\<forall>i n. n \<in> holders w i \<longrightarrow> dispatched (wo_db w) i \<and> admission_kept env (wo_db w) i)"

lemma world_wfI:
  assumes "world_wf env w" and "tame (wo_db w) (wo_db w')" and "distinct (map fst (wo_sent w'))"
    and "\<And>n c. wo_calls w' n = Some c \<Longrightarrow> call_ok w' n c" and "\<And>i. holders w' i \<subseteq> holders w i"
  shows "world_wf env w'"
proof -
  have t: "db_advances (wo_db w) (wo_db w')" "\<And>i. dispatched (wo_db w) i \<Longrightarrow> dispatched (wo_db w') i"
      "db_keyed (wo_db w')"
    using assms(1,2) by (simp_all add: tame_def world_wf_def)
  have h: "n \<in> holders w i" if "n \<in> holders w' i" for n i using assms(5) that by blast
  show ?thesis
    unfolding world_wf_def
    using assms(1,3,4) t h admission_kept_advances[OF _ t(1)] unfolding world_wf_def by blast
qed


lemma call_ok_cong:
  assumes "call_ok w n c" and "wo_sent w' = wo_sent w" and "wo_refused w' = wo_refused w"
  shows "call_ok w' n c"
  using assms by (simp add: call_ok_def Let_def split: phase.splits)

lemma wf_call: "world_wf env w \<Longrightarrow> wo_calls w n = Some c \<Longrightarrow> call_ok w n c"
  by (simp add: world_wf_def)

lemma holdersI_call: "wo_calls w n = Some c \<Longrightarrow> owns (ca_phase c) \<Longrightarrow> n \<in> holders w (ir_intentId (ca_intent c))"
  by (auto simp: holders_def)

text \<open>The steps of one call, by where it stands: it sends nothing, hands over the request, or hears the answer.\<close>

lemma moved_quiet:
  assumes wf: "world_wf env w" and c: "wo_calls w n = Some c" and t: "tame (wo_db w) db'"
    and q: "\<forall>ord. ca_phase c \<noteq> HOLDING ord \<and> ca_phase c \<noteq> PLACED ord"
    and ok: "call_ok w n (c\<lparr>ca_phase := p\<rparr>)" and o': "owns p \<longrightarrow> owns (ca_phase c)"
  shows "world_wf env (moved n c answer (p, db', co') w)"
proof (rule world_wfI[OF wf])
  let ?w = "moved n c answer (p, db', co') w"
  have s: "wo_sent ?w = wo_sent w" "wo_refused ?w = wo_refused w" "wo_db ?w = db'"
      "wo_calls ?w = (wo_calls w)(n \<mapsto> c\<lparr>ca_phase := p\<rparr>)"
    using q by (simp_all add: moved_def split: phase.splits)
  show "tame (wo_db w) (wo_db ?w)" using t s by simp
  show "distinct (map fst (wo_sent ?w))" using wf s by (simp add: world_wf_def)
  show "call_ok ?w m d" if "wo_calls ?w m = Some d" for m d
    using that s ok wf call_ok_cong[OF _ s(1,2)] by (auto simp: world_wf_def split: if_splits)
  show "holders ?w i \<subseteq> holders w i" for i
    using s o' c by (auto simp: holders_def split: if_splits)
qed

lemma moved_place:
  assumes wf: "world_wf env w" and c: "wo_calls w n = Some c" and p: "ca_phase c = HOLDING ord"
  shows "world_wf env (moved n c answer (PLACED ord, wo_db w, co') w)"
proof (rule world_wfI[OF wf])
  let ?i = "ir_intentId (ca_intent c)"
  let ?w = "moved n c answer (PLACED ord, wo_db w, co') w"
  have s: "wo_sent ?w = (n, ?i) # wo_sent w" "wo_refused ?w = wo_refused w" "wo_db ?w = wo_db w"
      "wo_calls ?w = (wo_calls w)(n \<mapsto> c\<lparr>ca_phase := PLACED ord\<rparr>)"
    using p by (simp_all add: moved_def)
  have ok: "n \<notin> fst ` set (wo_sent w)" "lo_intentId ord = ?i"
    using wf_call[OF wf c] p by (auto simp: call_ok_def Let_def)
  show "tame (wo_db w) (wo_db ?w)" using s by simp
  show "distinct (map fst (wo_sent ?w))" using wf s ok by (simp add: world_wf_def)
  show "call_ok ?w m d" if "wo_calls ?w m = Some d" for m d
  proof (cases "m = n")
    case True
    then show ?thesis using that s ok by (auto simp: call_ok_def)
  next
    case False
    then have "wo_calls w m = Some d" using that s by simp
    then have "call_ok w m d" using wf by (simp add: world_wf_def)
    then show ?thesis using False s by (auto simp: call_ok_def Let_def split: phase.splits)
  qed
  have "n \<in> holders w ?i" using c p by (auto simp: holders_def owns_def)
  then show "holders ?w i \<subseteq> holders w i" for i
    using s p c by (auto simp: holders_def split: if_splits)
qed

lemma moved_answer:
  assumes wf: "world_wf env w" and c: "wo_calls w n = Some c" and p: "ca_phase c = PLACED ord"
  shows "world_wf env (moved n c answer (ANSWERED ord answer, wo_db w, co') w)"
proof (rule world_wfI[OF wf])
  let ?w = "moved n c answer (ANSWERED ord answer, wo_db w, co') w"
  have s: "wo_sent ?w = wo_sent w" "wo_refused ?w = (if is_pre_dispatch answer then insert n (wo_refused w) else wo_refused w)"
      "wo_db ?w = wo_db w" "wo_calls ?w = (wo_calls w)(n \<mapsto> c\<lparr>ca_phase := ANSWERED ord answer\<rparr>)"
    using p by (simp_all add: moved_def)
  have ok: "(n, ir_intentId (ca_intent c)) \<in> set (wo_sent w)" "lo_intentId ord = ir_intentId (ca_intent c)"
    using wf_call[OF wf c] p by (auto simp: call_ok_def Let_def)
  show "tame (wo_db w) (wo_db ?w)" using s by simp
  show "distinct (map fst (wo_sent ?w))" using wf s by (simp add: world_wf_def)
  show "call_ok ?w m d" if "wo_calls ?w m = Some d" for m d
  proof (cases "m = n")
    case True
    then show ?thesis using that s ok by (auto simp: call_ok_def)
  next
    case False
    then have "wo_calls w m = Some d" using that s by simp
    then have "call_ok w m d" using wf by (simp add: world_wf_def)
    then show ?thesis using s by (auto simp: call_ok_def Let_def split: phase.splits)
  qed
  show "holders ?w i \<subseteq> holders w i" for i
    using s p c by (auto simp: holders_def owns_def split: if_splits)
qed

text \<open>The claim: a call that reserves the order becomes its only holder.\<close>

lemma moved_claim:
  assumes wf: "world_wf env w" and c: "wo_calls w n = Some c" and p: "ca_phase c = ENSURED"
    and tx: "claimDispatchTx env now (ir_intentId (ca_intent c)) consume (wo_db w) (wo_co w) = (Inr (u, db'), co')"
  shows "world_wf env (moved n c answer (TAKEN u, db', co') w)"
proof -
  let ?i = "ir_intentId (ca_intent c)"
  let ?w = "moved n c answer (TAKEN u, db', co') w"
  have fresh: "n \<notin> fst ` set (wo_sent w)" using wf_call[OF wf c] p by (simp add: call_ok_def)
  note t = claimDispatchTx_tame[OF tx]
  from tx show ?thesis
  proof (cases rule: claimDispatchTx_Inr)
    case (lost a)
    then show ?thesis using moved_quiet[OF wf c t, of "TAKEN u"] p fresh
      by (simp add: call_ok_def owns_def)
  next
    case (reserved a v db1)
    have empty: "holders w ?i = {}"
      using wf reserved(2,3) by (auto simp: world_wf_def dispatched_def)
    have s: "wo_sent ?w = wo_sent w" "wo_refused ?w = wo_refused w" "wo_db ?w = db'"
        "wo_calls ?w = (wo_calls w)(n \<mapsto> c\<lparr>ca_phase := TAKEN u\<rparr>)"
      using p by (simp_all add: moved_def)
    have h: "holders ?w ?i \<subseteq> {n}" and h': "\<And>j. j \<noteq> ?i \<Longrightarrow> holders ?w j \<subseteq> holders w j"
      using empty s by (auto simp: holders_def split: if_splits)
    have d: "dispatched db' ?i" using reserved(8) by (simp add: dispatched_def reserved_row_def)
    obtain row where row: "db_intents (wo_db w) ?i = Some row" "verifyStoredIntentIntegrity (env_sha env) row = Inr v"
      using require_Inr(2)[OF reserved(4)] by blast
    have "admission_kept env db' ?i"
    proof (cases "ic_action (ir_content (vi_intent v)) = OPEN")
      case True
      from consumeAdmission_Inr(4)[OF reserved(9)[OF True]] obtain x y
        where "ic_admissionId (ir_content (vi_intent v)) = Some x" "db_consumptions db1 x = Some y" "cw_intentId y = ?i"
        by blast
      then show ?thesis using row reserved(7,8) unfolding admission_kept_def by (auto simp: put_order_def)
    next
      case False
      then show ?thesis using row reserved(7,8) unfolding admission_kept_def by (auto simp: put_order_def)
    qed
    note a = this
    have calls: "call_ok ?w m e" if "wo_calls ?w m = Some e" for m e
    proof (cases "m = n")
      case True
      then show ?thesis using that s fresh by (auto simp: call_ok_def)
    next
      case False
      then have "wo_calls w m = Some e" using that s by simp
      then have "call_ok w m e" using wf by (simp add: world_wf_def)
      then show ?thesis by (rule call_ok_cong[OF _ s(1,2)])
    qed
    have keep: "dispatched db' j \<and> admission_kept env db' j" if "m \<in> holders w j" for m j
      using that wf t admission_kept_advances[of env "wo_db w" j db'] unfolding world_wf_def tame_def by blast
    show ?thesis
      unfolding world_wf_def
    proof (intro conjI allI impI)
      show "db_keyed (wo_db ?w)" using wf t s by (simp add: world_wf_def tame_def)
      show "distinct (map fst (wo_sent ?w))" using wf s by (simp add: world_wf_def)
      show "call_ok ?w m e" if "wo_calls ?w m = Some e" for m e by (rule calls[OF that])
      show "m = k" if "m \<in> holders ?w j" "k \<in> holders ?w j" for j m k
      proof (cases "j = ?i")
        case True
        then show ?thesis using that h by blast
      next
        case False
        then have "m \<in> holders w j" "k \<in> holders w j" using that h' by blast+
        then show ?thesis using wf unfolding world_wf_def by blast
      qed
      show "dispatched (wo_db ?w) j" if "m \<in> holders ?w j" for j m
        using that h'[of j] keep[of m j] d s by (cases "j = ?i") auto
      show "admission_kept env (wo_db ?w) j" if "m \<in> holders ?w j" for j m
        using that h'[of j] keep[of m j] a s by (cases "j = ?i") auto
    qed
  qed
qed


text \<open>The answer recorded: only the release of the one holder can make the order dispatchable again.\<close>

lemma moved_settle:
  assumes wf: "world_wf env w" and c: "wo_calls w n = Some c" and p: "ca_phase c = ANSWERED ord r"
    and st: "settleDispatch env now ord r (wo_db w) = (out, db')"
  shows "world_wf env (moved n c answer (FINISHED out, db', co') w)"
proof (cases "is_pre_dispatch r")
  case False
  show ?thesis
    by (rule moved_quiet[OF wf c settleDispatch_tame[OF st False]]) (use p in \<open>simp_all add: call_ok_def owns_def\<close>)
next
  case True
  let ?i = "ir_intentId (ca_intent c)"
  let ?w = "moved n c answer (FINISHED out, db', co') w"
  have ok: "(n, ?i) \<in> set (wo_sent w)" "lo_intentId ord = ?i" "n \<in> wo_refused w"
    using wf_call[OF wf c] p True by (simp_all add: call_ok_def Let_def)
  have s: "wo_sent ?w = wo_sent w" "wo_refused ?w = wo_refused w" "wo_db ?w = db'"
      "wo_calls ?w = (wo_calls w)(n \<mapsto> c\<lparr>ca_phase := FINISHED out\<rparr>)"
    using p by (simp_all add: moved_def)
  have "n \<in> holders w ?i" using c p by (auto simp: holders_def owns_def)
  then have only: "m = n" if "m \<in> holders w ?i" for m using wf that unfolding world_wf_def by blast
  have sub: "holders ?w j \<subseteq> holders w j" for j
    using s c by (auto simp: holders_def owns_def split: if_splits)
  have gone: "n \<notin> holders ?w ?i" using s ok(3) by (auto simp: holders_def owns_def)
  have empty: "holders ?w ?i = {}" using sub[of ?i] only gone by blast
  note rel = settleDispatch_released[OF st True, unfolded ok(2)]
  have keep: "dispatched db' j \<and> admission_kept env db' j" if "m \<in> holders w j" "j \<noteq> ?i" for m j
  proof -
    have "dispatched (wo_db w) j" "admission_kept env (wo_db w) j" using wf that unfolding world_wf_def by blast+
    then show ?thesis using rel that(2) admission_kept_advances[of env "wo_db w" j db'] by (simp add: dispatched_def)
  qed
  show ?thesis
    unfolding world_wf_def
  proof (intro conjI allI impI)
    show "db_keyed (wo_db ?w)" using wf rel s by (simp add: world_wf_def)
    show "distinct (map fst (wo_sent ?w))" using wf s by (simp add: world_wf_def)
    show "call_ok ?w m e" if "wo_calls ?w m = Some e" for m e
      using that s wf call_ok_cong[OF _ s(1,2)] by (auto simp: world_wf_def call_ok_def split: if_splits)
    show "m = k" if "m \<in> holders ?w j" "k \<in> holders ?w j" for j m k
      using that sub[of j] wf unfolding world_wf_def by blast
    show "dispatched (wo_db ?w) j" if "m \<in> holders ?w j" for j m
      using that sub[of j] keep[of m j] empty s by (cases "j = ?i") auto
    show "admission_kept env (wo_db ?w) j" if "m \<in> holders ?w j" for j m
      using that sub[of j] keep[of m j] empty s by (cases "j = ?i") auto
  qed
qed

lemma ensureStep_phase:
  assumes "ensureStep env now r db = (p, db')"
  shows "tame db db' \<and> (p = ENSURED \<or> (\<exists>out. p = FINISHED out))"
  using assms ensureIntent_tame
  by (auto simp: ensureStep_def split: sum.splits option.splits prod.splits)

lemma moved_wf:
  assumes wf: "world_wf env w" and c: "wo_calls w n = Some c"
  shows "world_wf env (moved n c answer (advance env now answer c (wo_db w) (wo_co w)) w)"
proof -
  let ?i = "ir_intentId (ca_intent c)"
  note ok = wf_call[OF wf c]
  have read: "world_wf env (moved n c answer (readStep x, wo_db w, wo_co w) w)"
    if "\<forall>ord. ca_phase c \<noteq> HOLDING ord \<and> ca_phase c \<noteq> PLACED ord"
      and "\<And>ord. x = Inr (DISPATCH_CLAIMED ord) \<Longrightarrow> owns (ca_phase c) \<and> lo_intentId ord = ?i \<and> n \<notin> fst ` set (wo_sent w)"
    for x
    using readStep_phase[of x]
  proof (elim disjE exE)
    fix ord assume h: "readStep x = HOLDING ord"
    then have "x = Inr (DISPATCH_CLAIMED ord)" by (simp add: readStep_held)
    from that(2)[OF this] h show ?thesis
      by (intro moved_quiet[OF wf c tame_refl that(1)]) (simp_all add: call_ok_def Let_def owns_def)
  next
    fix out assume "readStep x = FINISHED out"
    then show ?thesis
      by (intro moved_quiet[OF wf c tame_refl that(1)]) (simp_all add: call_ok_def Let_def owns_def)
  qed
  show ?thesis
  proof (cases "ca_phase c")
    case STARTED
    obtain p db' where e: "ensureStep env now (ca_intent c) (wo_db w) = (p, db')" by force
    have "n \<notin> fst ` set (wo_sent w)" using ok STARTED by (simp add: call_ok_def Let_def)
    then have "call_ok w n (c\<lparr>ca_phase := p\<rparr>)" "owns p \<longrightarrow> owns (ca_phase c)"
      using ensureStep_phase[OF e] by (auto simp: call_ok_def Let_def owns_def)
    then show ?thesis
      using moved_quiet[OF wf c conjunct1[OF ensureStep_phase[OF e]], of p answer "wo_co w"] STARTED e by (simp add: advance_def)
  next
    case ENSURED
    let ?consume = "consumeLiveAdmission (ca_authority c) ?i"
    have fresh: "n \<notin> fst ` set (wo_sent w)" using ok ENSURED by (simp add: call_ok_def Let_def)
    obtain res co' where tx: "claimDispatchTx env now ?i ?consume (wo_db w) (wo_co w) = (res, co')" by force
    show ?thesis
    proof (cases res)
      case (Inl e)
      have "claimStep env now (ca_intent c) (ca_authority c) (wo_db w) (wo_co w)
          = ((if e = UniqueViolation then CONTENDED else FINISHED (Inl e)), wo_db w, co')"
        using tx Inl by (cases e) (simp_all add: claimStep_def)
      then show ?thesis
        using moved_quiet[OF wf c tame_refl, of "if e = UniqueViolation then CONTENDED else FINISHED (Inl e)" answer co']
          ENSURED fresh by (simp add: advance_def call_ok_def Let_def owns_def)
    next
      case (Inr v)
      obtain u db' where v: "v = (u, db')" by force
      then have "claimStep env now (ca_intent c) (ca_authority c) (wo_db w) (wo_co w) = (TAKEN u, db', co')"
        using tx Inr by (simp add: claimStep_def)
      then show ?thesis using moved_claim[OF wf c ENSURED tx[unfolded Inr v]] ENSURED by (simp add: advance_def)
    qed
  next
    case (TAKEN u)
    have k: "db_keyed (wo_db w)" using wf by (simp add: world_wf_def)
    have "world_wf env (moved n c answer (readStep (claimOutcome env ?i u (wo_db w)), wo_db w, wo_co w) w)"
    proof (rule read)
      fix ord assume "claimOutcome env ?i u (wo_db w) = Inr (DISPATCH_CLAIMED ord)"
      from claimOutcome_held[OF this] show "owns (ca_phase c) \<and> lo_intentId ord = ?i \<and> n \<notin> fst ` set (wo_sent w)"
        using TAKEN ok k by (auto simp: owns_def call_ok_def Let_def db_keyed_def)
    qed (simp add: TAKEN)
    then show ?thesis using TAKEN by (simp add: advance_def)
  next
    case CONTENDED
    have "world_wf env (moved n c answer (readStep (resolveLostClaim env ?i (wo_db w)), wo_db w, wo_co w) w)"
      by (rule read) (simp_all add: CONTENDED resolveLostClaim_held)
    then show ?thesis using CONTENDED by (simp add: advance_def)
  next
    case (HOLDING ord)
    then show ?thesis using moved_place[OF wf c HOLDING] by (simp add: advance_def)
  next
    case (PLACED ord)
    then show ?thesis using moved_answer[OF wf c PLACED] by (simp add: advance_def)
  next
    case (ANSWERED ord r)
    obtain out db' where "settleDispatch env now ord r (wo_db w) = (out, db')" by force
    then show ?thesis using moved_settle[OF wf c ANSWERED] ANSWERED by (simp add: advance_def)
  next
    case (FINISHED out)
    then show ?thesis
      using moved_quiet[OF wf c tame_refl, of "FINISHED out" answer "wo_co w"]
      by (simp add: advance_def call_ok_def Let_def owns_def)
  qed
qed

text \<open>A step that sends nothing and hears nothing, and lets no call come to own an order.\<close>

lemma world_wf_still:
  assumes wf: "world_wf env w" and t: "tame (wo_db w) (wo_db w')"
    and s: "wo_sent w' = wo_sent w" "wo_refused w' = wo_refused w"
    and c: "\<And>n c. wo_calls w' n = Some c \<Longrightarrow> call_ok w n c \<and> (owns (ca_phase c) \<longrightarrow> wo_calls w n = Some c)"
  shows "world_wf env w'"
proof (rule world_wfI[OF wf t])
  show "distinct (map fst (wo_sent w'))" using wf s by (simp add: world_wf_def)
  show "call_ok w' n d" if "wo_calls w' n = Some d" for n d
    using c[OF that] call_ok_cong[OF _ s] by blast
  show "holders w' i \<subseteq> holders w i" for i
    using s c by (auto simp: holders_def)
qed

lemma service_step_wf:
  assumes wf: "world_wf env w" and "service_step env w w'"
  shows "world_wf env w'"
  using assms(2)
proof cases
  case (begin_call n authority intent r a)
  show ?thesis
    by (rule world_wf_still[OF wf])
      (use begin_call wf_call[OF wf] in \<open>auto simp: call_ok_def owns_def split: if_splits\<close>)
next
  case (run_call n c answer now)
  then show ?thesis using moved_wf[OF wf] by simp
next
  case (crash n c)
  show ?thesis
    by (rule world_wf_still[OF wf]) (use crash wf_call[OF wf] in \<open>simp_all split: if_splits\<close>)
next
  case (other db')
  show ?thesis
    by (rule world_wf_still[OF wf]) (use other other_write_tame wf_call[OF wf] in simp_all)
next
  case (coordinate co')
  show ?thesis
    by (rule world_wf_still[OF wf]) (use coordinate wf_call[OF wf] in simp_all)
qed

lemma service_wf: "service_reachable env w \<Longrightarrow> world_wf env w"
proof (induction rule: service_reachable.induct)
  case (start db co)
  then show ?case by (simp add: world_wf_def holders_def)
next
  case (step w w')
  then show ?case by (blast intro: service_step_wf)
qed


subsection \<open>At most one order\<close>

text \<open>C1. One intent becomes at most one order at the venue, whatever interleaves: in every reachable world, among
  all requests ever handed to the venue at most one is for this intent and was not refused before anything left the
  process; and once there is one, the stored order is past CREATED, also after a crash at any point.\<close>

theorem order_sent_once:
  assumes "service_reachable env w"
  shows "length (filter (\<lambda>(n, j). j = i \<and> n \<notin> wo_refused w) (wo_sent w)) \<le> 1
     \<and> (\<forall>n. (n, i) \<in> set (wo_sent w) \<longrightarrow> n \<in> wo_refused w \<or> dispatched (wo_db w) i)"
proof -
  note wf = service_wf[OF assms]
  let ?xs = "filter (\<lambda>(n, j). j = i \<and> n \<notin> wo_refused w) (wo_sent w)"
  have h: "n \<in> holders w i" if "(n, i) \<in> set (wo_sent w)" "n \<notin> wo_refused w" for n
    using that by (simp add: holders_def)
  have "distinct (map fst ?xs)"
    using wf by (simp add: world_wf_def distinct_map_filter)
  moreover have "x = y" if xy: "x \<in> set ?xs" "y \<in> set ?xs" for x y
  proof -
    obtain n m where "x = (n, i)" "y = (m, i)" "(n, i) \<in> set (wo_sent w)" "n \<notin> wo_refused w"
        "(m, i) \<in> set (wo_sent w)" "m \<notin> wo_refused w"
      using xy by auto
    with h[of n] h[of m] wf show ?thesis unfolding world_wf_def by blast
  qed
  ultimately have "length ?xs \<le> 1"
    by (cases ?xs rule: remdups_adj.cases) (auto simp: distinct_map)
  moreover have "dispatched (wo_db w) i" if "(n, i) \<in> set (wo_sent w)" "n \<notin> wo_refused w" for n
    using h[OF that] wf unfolding world_wf_def by blast
  ultimately show ?thesis by blast
qed

text \<open>C6. One grant becomes at most one order: if two requests that may have left are for stored openings of the same
  admission, they are for the same intent.\<close>

theorem admission_sent_once:
  assumes "service_reachable env w"
    and "(n, i) \<in> set (wo_sent w)" and "n \<notin> wo_refused w" and "(m, j) \<in> set (wo_sent w)" and "m \<notin> wo_refused w"
    and "db_intents (wo_db w) i = Some row" and "verifyStoredIntentIntegrity (env_sha env) row = Inr v"
    and "db_intents (wo_db w) j = Some row'" and "verifyStoredIntentIntegrity (env_sha env) row' = Inr v'"
    and "ic_action (ir_content (vi_intent v)) = OPEN" and "ic_action (ir_content (vi_intent v')) = OPEN"
    and "ic_admissionId (ir_content (vi_intent v)) = ic_admissionId (ir_content (vi_intent v'))"
  shows "i = j \<and> n = m"
proof -
  note wf = service_wf[OF assms(1)]
  have "n \<in> holders w i" "m \<in> holders w j" using assms(2-5) by (simp_all add: holders_def)
  then have k: "admission_kept env (wo_db w) i" "admission_kept env (wo_db w) j" using wf unfolding world_wf_def by blast+
  obtain a x where "ic_admissionId (ir_content (vi_intent v)) = Some a" "db_consumptions (wo_db w) a = Some x" "cw_intentId x = i"
    using k(1) assms(6,7,10) unfolding admission_kept_def by force
  moreover obtain b y where "ic_admissionId (ir_content (vi_intent v')) = Some b" "db_consumptions (wo_db w) b = Some y" "cw_intentId y = j"
    using k(2) assms(8,9,11) unfolding admission_kept_def by force
  ultimately have "i = j" using assms(12) by auto
  then show ?thesis using \<open>n \<in> holders w i\<close> \<open>m \<in> holders w j\<close> wf unfolding world_wf_def by blast
qed

subsection \<open>The steps are the method, and end\<close>

lemma readStep_simps [simp]:
  "readStep (Inl e) = FINISHED (Inl e)"
  "readStep (Inr (DISPATCH_CLAIMED ord)) = HOLDING ord"
  "readStep (Inr (DISPATCH_ALREADY_CLAIMED ord)) = FINISHED (Inr (alreadyDispatched ord))"
  by (simp_all add: readStep_def)

lemma run_alone_finished [simp]:
  "ca_phase c = FINISHED out \<Longrightarrow> run_alone env clock answer k c db co = (FINISHED out, db, co)"
  by (induction k arbitrary: c) (simp_all add: advance_def)

text \<open>The steps are the method cut at its awaits: when nothing comes between, six of them end with the result,
  the database and the coordinator that the method computes.\<close>

lemma steps_implement_dispatch:
  assumes "authorisedIntent env authority intent = Inr (r, a)"
  shows "run_alone env clock (gt_placeOrder g (place_request_of policy r)) 6
           \<lparr>ca_intent = r, ca_authority = a, ca_phase = STARTED\<rparr> db co
         = (case dispatch env policy clock g authority intent db co of (out, db', co') \<Rightarrow> (FINISHED out, db', co'))"
proof (cases "ensureIntent env (clock 0) r db")
  case (Inl e)
  then show ?thesis
    using assms by (simp add: dispatch_def advance_def ensureStep_def write_time_def eval_nat_numeral)
next
  case (Inr v)
  obtain persisted db1 where e: "ensureIntent env (clock 0) r db = Inr (persisted, db1)" using Inr by (cases v) simp
  show ?thesis
  proof (cases "checkRecorded persisted")
    case (Inl err)
    then show ?thesis
      using assms e by (simp add: dispatch_def advance_def ensureStep_def write_time_def eval_nat_numeral)
  next
    case (Inr found)
    show ?thesis
    proof (cases found)
      case (Some fin)
      then show ?thesis
        using assms e Inr by (simp add: dispatch_def advance_def ensureStep_def write_time_def eval_nat_numeral)
    next
      case None
      note none = Inr None
      let ?f = "consumeLiveAdmission a (ir_intentId r)"
      obtain res co' where tx: "claimDispatchTx env (clock (Suc 0)) (ir_intentId r) ?f db1 co = (res, co')" by force
      note base = assms e none tx dispatch_def advance_def ensureStep_def claimStep_def write_time_def eval_nat_numeral
        claimDispatch_def
      show ?thesis
      proof (cases res)
        case (Inl err)
        show ?thesis
        proof (cases "err = UniqueViolation")
          case True
          show ?thesis
          proof (cases "resolveLostClaim env (ir_intentId r) db1")
            case (Inl x)
            then show ?thesis using \<open>res = Inl err\<close> True by (simp add: base)
          next
            case (Inr x)
            then show ?thesis using \<open>res = Inl err\<close> True resolveLostClaim_held[of env "ir_intentId r" db1]
              by (cases x) (simp_all add: base)
          qed
        next
          case False
          then show ?thesis using Inl by (cases err) (simp_all add: base)
        qed
      next
        case (Inr v)
        obtain u db2 where v: "v = (u, db2)" by force
        show ?thesis
        proof (cases "claimOutcome env (ir_intentId r) u db2")
          case (Inl x)
          then show ?thesis using \<open>res = Inr v\<close> v by (simp add: base)
        next
          case (Inr x)
          then show ?thesis using \<open>res = Inr v\<close> v
            by (cases x) (simp_all add: base split: prod.split)
        qed
      qed
    qed
  qed
qed

text \<open>What goes on between two steps of a dispatch: any change of the database and of the coordinator.\<close>

record interval =
  iv_database :: "live_db \<Rightarrow> live_db"
  iv_coordinator :: "coordinator \<Rightarrow> coordinator"
  iv_now :: int
  iv_answer :: place_result

primrec run_among ::
    "live_env \<Rightarrow> interval list \<Rightarrow> call \<Rightarrow> live_db \<Rightarrow> coordinator \<Rightarrow> phase \<times> live_db \<times> coordinator" where
  "run_among env [] c db co = (ca_phase c, db, co)"
| "run_among env (x # xs) c db co =
     (case advance env (iv_now x) (iv_answer x) c (iv_database x db) (iv_coordinator x co) of
        (p, db', co') \<Rightarrow> run_among env xs (c\<lparr>ca_phase := p\<rparr>) db' co')"

primrec steps_left :: "phase \<Rightarrow> nat" where
  "steps_left STARTED = 6"
| "steps_left ENSURED = 5"
| "steps_left (TAKEN _) = 4"
| "steps_left CONTENDED = 4"
| "steps_left (HOLDING _) = 3"
| "steps_left (PLACED _) = 2"
| "steps_left (ANSWERED _ _) = 1"
| "steps_left (FINISHED _) = 0"

lemma advance_nearer: "steps_left (fst (advance env now answer c db co)) \<le> steps_left (ca_phase c) - 1"
proof (cases "ca_phase c")
  case STARTED
  then show ?thesis
    using ensureStep_phase[of env now "ca_intent c" db]
    by (cases "ensureStep env now (ca_intent c) db") (auto simp: advance_def)
next
  case ENSURED
  then show ?thesis by (auto simp: advance_def claimStep_def split: prod.split sum.split thrown.split)
next
  case (TAKEN n)
  then show ?thesis using readStep_phase[of "claimOutcome env (ir_intentId (ca_intent c)) n db"] by (auto simp: advance_def)
next
  case CONTENDED
  then show ?thesis using readStep_phase[of "resolveLostClaim env (ir_intentId (ca_intent c)) db"] by (auto simp: advance_def)
qed (auto simp: advance_def split: prod.split)

lemma run_among_left:
  "steps_left (fst (run_among env xs c db co)) \<le> steps_left (ca_phase c) - length xs"
proof (induction xs arbitrary: c db co)
  case (Cons x xs)
  obtain p db' co' where a: "advance env (iv_now x) (iv_answer x) c (iv_database x db) (iv_coordinator x co) = (p, db', co')"
    by (metis prod_cases3)
  have "steps_left p \<le> steps_left (ca_phase c) - 1" using advance_nearer[of env "iv_now x" "iv_answer x" c] a by (metis fst_conv)
  with Cons[of "c\<lparr>ca_phase := p\<rparr>" db' co'] show ?case by (simp add: a)
qed simp

text \<open>C12. Every dispatch ends: whatever other operations do to the database and the coordinator between its steps, and
  whatever the venue answers, a call has returned or thrown after six steps of its own.\<close>

theorem dispatch_ends:
  assumes "6 \<le> length xs"
  shows "\<exists>out db' co'. run_among env xs \<lparr>ca_intent = r, ca_authority = a, ca_phase = STARTED\<rparr> db co = (FINISHED out, db', co')"
proof -
  obtain p db' co' where run: "run_among env xs \<lparr>ca_intent = r, ca_authority = a, ca_phase = STARTED\<rparr> db co = (p, db', co')"
    by (metis prod_cases3)
  have "steps_left p = 0"
    using run_among_left[of env xs "\<lparr>ca_intent = r, ca_authority = a, ca_phase = STARTED\<rparr>" db co] assms
    by (simp add: run)
  then show ?thesis using run by (cases p) simp_all
qed


subsection \<open>Cancelling asks once\<close>

definition cancel_asked :: "live_db \<Rightarrow> string \<Rightarrow> bool" where
  "cancel_asked db i \<longleftrightarrow> (\<exists>a. order_of db i = Some a \<and> lo_cancelState a \<noteq> NONE)"

lemma completion_not_none [simp]: "completion_state k \<noteq> NONE"
  by (cases k) simp_all

lemma cancel_asked_write:
  assumes "other_write env db db'" and "cancel_asked db i"
  shows "cancel_asked db' i"
  using assms(1)
proof cases
  case (ow_claimCancel now j account outcome)
  then show ?thesis
    by (cases rule: claimCancel_Inr) (use assms(2) in \<open>auto simp: cancel_asked_def\<close>)
next
  case (ow_completeCancel now j g kind fc ord)
  from completeCancel_Inr[OF this] show ?thesis using assms(2) by (auto simp: cancel_asked_def completed_row_def)
next
  case (ow_expire now j account cutoff ord)
  from markExpired_Inr[OF this] show ?thesis using assms(2) by (auto simp: cancel_asked_def expired_row_def)
next
  case (ow_observe now j ob ord)
  then show ?thesis
  proof (cases rule: applyObservationAtomically_Inr)
    case (folded a dg)
    then show ?thesis using assms(2) applied_row[OF folded(2)] by (auto simp: cancel_asked_def observation_columns_def)
  qed (use assms(2) in \<open>simp add: cancel_asked_def\<close>)
qed

lemma cancel_asked_writes: "(other_write env)\<^sup>*\<^sup>* db db' \<Longrightarrow> cancel_asked db i \<Longrightarrow> cancel_asked db' i"
  by (induction rule: rtranclp_induct) (auto dest: cancel_asked_write)

lemma claimed_not_asked:
  assumes "claimCancel env now i account db = Inr (CANCEL_CLAIMED ord n, db')"
  shows "\<not> cancel_asked db i \<and> cancel_asked db' i"
  using assms by (cases rule: claimCancel_Inr) (auto simp: cancel_asked_def cancel_claimed_row_def)

lemma asked_cancelClaimed:
  assumes "cancel_asked db i"
  shows "cancelClaimed env policy clock g i account db = cancelClaimed env policy clock g' i account db"
  using assms claimed_not_asked[of env "clock 1" i account db]
  by (auto simp: cancelClaimed_def split: sum.split claim_cancel.split prod.split)

lemma asked_cancelDurable:
  assumes "cancel_asked db i"
  shows "cancelDurable env policy d clock g i account db = cancelDurable env policy d clock g' i account db"
proof -
  have "cancel_asked db' i" if "markExpiredDispatchUnresolved env (clock 0) i account c db = Inr (ord, db')" for c ord db'
    using cancel_asked_write[OF ow_expire[OF that] assms] .
  note k = asked_cancelClaimed[OF this]
  show ?thesis
    by (auto simp: cancelDurable_def k split: sum.split)
qed

lemma settleCancel_writes:
  assumes "settleCancel env policy clock g i n requested x result db = (out, db')"
  shows "(other_write env)\<^sup>*\<^sup>* db db'"
proof -
  have cc: "other_write env db x" if "completeCancelAttempt env (clock 2) i n k fc db = Inr (ord, x)" for k fc ord x
    using that by (rule ow_completeCancel)
  have ob: "other_write env y x" if "ingest env (clock 3) a ob y = Inr (ord, x)" for a ob ord x y
    using that unfolding ingest_def by (rule ow_observe)
  show ?thesis
  proof (cases result)
    case (CANCEL_ACCEPTED reported)
    then show ?thesis using assms
      by (auto simp: settleCancel_def settleAccepted_def settle_def split: sum.splits option.splits prod.splits
          dest!: cc ob intro: converse_rtranclp_into_rtranclp)
  qed (use assms in \<open>auto simp: settleCancel_def settle_def split: sum.splits dest!: cc\<close>)
qed

text \<open>C13. A cancellation is asked of the venue at most once: if a cancellation depended on the venue at all, then whatever
  other cancellations, observations and restarts write afterwards, no later cancellation of the order does.\<close>

theorem cancel_asked_once:
  assumes "cancelDurable env policy d clock g i account db = (out, db')"
    and "cancelDurable env policy d clock g' i account db \<noteq> (out, db')"
    and "(other_write env)\<^sup>*\<^sup>* db' db''"
  shows "cancelDurable env policy2 d2 clock2 g1 i account2 db'' = cancelDurable env policy2 d2 clock2 g2 i account2 db''"
proof -
  obtain current db1 where m: "markExpiredDispatchUnresolved env (clock 0) i account (d - pc_dispatchClaimTimeoutMs policy) db
      = Inr (current, db1)"
    using assms(1,2) by (auto simp: cancelDurable_def split: sum.splits)
  then have c: "cancelClaimed env policy clock g i account db1 = (out, db')"
      "cancelClaimed env policy clock g' i account db1 \<noteq> (out, db')"
    using assms(1,2) by (auto simp: cancelDurable_def split: if_splits)
  then obtain requested n db2 x where cl: "claimCancel env (clock 1) i account db1 = Inr (CANCEL_CLAIMED requested n, db2)"
      and s: "settleCancel env policy clock g i n requested x (gt_cancelOrder g (cancel_request_of policy requested x)) db2 = (out, db')"
    by (auto simp: cancelClaimed_def split: sum.splits claim_cancel.splits prod.splits option.splits)
  have "cancel_asked db2 i" using claimed_not_asked[OF cl] by simp
  from cancel_asked_writes[OF settleCancel_writes[OF s] this] have "cancel_asked db' i" .
  from cancel_asked_writes[OF assms(3) this] show ?thesis by (rule asked_cancelDurable)
qed

lemma folded_state:
  assumes "applyObservationAtomically env now i ob db = Inr (ord, db')"
  shows "\<exists>a. order_of db' i = Some a \<and> lo_state a = lo_state ord"
  using assms by (cases rule: applyObservationAtomically_Inr) (auto simp: observation_columns_def)

text \<open>The one branch that reports an order cancelled or filled.\<close>

definition venue_reports :: "gateway \<Rightarrow> observation \<Rightarrow> bool" where
  "venue_reports g ob \<longleftrightarrow> (\<exists>q. gt_cancelOrder g q = CANCEL_ACCEPTED (Some ob)) \<or> (\<exists>f. gt_fetchOrder g f = FETCH_FOUND ob)"

lemma fetched_reported:
  "fetchAuthoritativeObservation env policy g ord x db = Inr (Some ob) \<Longrightarrow> venue_reports g ob"
  by (auto simp: fetchAuthoritativeObservation_def venue_reports_def elim!: rbindE split: option.splits fetch_result.splits)

lemma settleCancel_final:
  assumes "settleCancel env policy clock g i n requested x (gt_cancelOrder g q) db = (Inr out, db')"
    and "wd_kind out = CK_CANCELLED \<or> wd_kind out = CK_FILLED_BEFORE_CANCEL"
  shows "\<exists>ob ack db1 ord. venue_reports g ob \<and> completeCancelAttempt env (clock 2) i n CC_ACKNOWLEDGED None db = Inr (ack, db1)
    \<and> ingest env (clock 3) ack ob db1 = Inr (ord, db') \<and> cancelledReport ord = Inr out"
proof (cases "gt_cancelOrder g q")
  case (CANCEL_ACCEPTED reported)
  have acc: "settleAccepted env policy clock g i n requested x reported db = (Inr out, db')"
    using assms(1) CANCEL_ACCEPTED by (simp add: settleCancel_def)
  then obtain ob where ob: "(case reported of Some ob \<Rightarrow> Inr (Some ob)
      | None \<Rightarrow> fetchAuthoritativeObservation env policy g requested (Some x) db) = Inr (Some ob)"
    using assms(2)
    by (auto simp: settleAccepted_def settle_def reportCancel_def split: sum.splits option.splits prod.splits)
  then have "venue_reports g ob"
    using CANCEL_ACCEPTED fetched_reported by (auto simp: venue_reports_def split: option.splits)
  with acc ob show ?thesis
    by (auto simp: settleAccepted_def settle_def split: sum.splits prod.splits)
qed (use assms in \<open>auto simp: settleCancel_def settle_def reportCancel_def split: sum.splits\<close>)

text \<open>A cancellation never makes an outcome up: it reports CANCELLED or FILLED only for an order that is now stored as
  such, and only after the venue itself has reported on it.\<close>

theorem cancel_outcome_reported:
  assumes "db_keyed db" and "cancelDurable env policy d clock g i account db = (Inr out, db')"
    and "wd_kind out = CK_CANCELLED \<or> wd_kind out = CK_FILLED_BEFORE_CANCEL"
  shows "(\<exists>a. order_of db' i = Some a \<and> lo_state a = (if wd_kind out = CK_CANCELLED then CANCELLED else FILLED))
    \<and> (\<exists>ob. venue_reports g ob)"
proof -
  obtain current db1 where m: "markExpiredDispatchUnresolved env (clock 0) i account (d - pc_dispatchClaimTimeoutMs policy) db
      = Inr (current, db1)" and c: "cancelClaimed env policy clock g i account db1 = (Inr out, db')"
    using assms(2,3) by (auto simp: cancelDurable_def reportCancel_def split: sum.splits if_splits)
  from c obtain requested n db2 x where cl: "claimCancel env (clock 1) i account db1 = Inr (CANCEL_CLAIMED requested n, db2)"
      and s: "settleCancel env policy clock g i n requested x (gt_cancelOrder g (cancel_request_of policy requested x)) db2
        = (Inr out, db')"
    using assms(3)
    by (auto simp: cancelClaimed_def claimedBefore_def reportCancel_def
        split: sum.splits claim_cancel.splits prod.splits option.splits if_splits)
  obtain ob ack db3 ord where f: "venue_reports g ob" "completeCancelAttempt env (clock 2) i n CC_ACKNOWLEDGED None db2 = Inr (ack, db3)"
      "ingest env (clock 3) ack ob db3 = Inr (ord, db')" "cancelledReport ord = Inr out"
    using settleCancel_final[OF s assms(3)] by blast
  have "db_keyed db2"
    using assms(1) other_write_tame[OF ow_expire[OF m]] other_write_tame[OF ow_claimCancel[OF cl]] by (simp add: tame_def)
  then have "lo_intentId ack = i" using completeCancel_Inr[OF f(2)] by (auto simp: db_keyed_def completed_row_def)
  then have "applyObservationAtomically env (clock 3) i ob db3 = Inr (ord, db')" using f(3) by (simp add: ingest_def)
  then obtain a where a: "order_of db' i = Some a" "lo_state a = lo_state ord" using folded_state by blast
  have "lo_state ord = (if wd_kind out = CK_CANCELLED then CANCELLED else FILLED)"
    using f(4) assms(3) by (auto simp: cancelledReport_def reportCancel_def split: if_splits)
  then have "\<exists>a. order_of db' i = Some a \<and> lo_state a = (if wd_kind out = CK_CANCELLED then CANCELLED else FILLED)"
    using a by (intro exI[of _ a]) simp
  then show ?thesis using f(1) by (intro conjI exI[of _ ob])
qed

subsection \<open>A fresh opening reaches the venue\<close>

lemma ensureIntent_recorded:
  assumes "ensureIntent env now intent db = Inr (ord, db')" and "db_intents db (ir_intentId intent) = None"
  shows "initialLiveOrderState (ir_intentId intent) (ir_clientOrderId intent)
          (ic_accountId (ir_content intent)) (ic_pair (ir_content intent)) (ic_quantity (ir_content intent)) = Inr ord
      \<and> insertIntent env now intent ord db = Inr db'"
  using assms by (auto simp: ensureIntent_def elim!: rbindE split: sum.splits thrown.splits)

text \<open>A verified read of a row that changed outside its mirrors.\<close>

lemma read_changed:
  assumes "readVerifiedOrder sha db i = Inr (Some (a, v))" and "db_intents db' i = db_intents db i"
    and "order_of db' i = Some b" and "same_mirrors a b" and "lo_lastProviderEventTimeMs b = lo_lastProviderEventTimeMs a"
  shows "readVerifiedOrder sha db' i = Inr (Some (b, v))"
proof -
  obtain row where row: "db_orders db' i = Some row" "ow_order row = b" using assms(3) by (auto simp: order_of_def)
  obtain row0 irow where r: "db_orders db i = Some row0" "db_intents db i = Some irow" "verifyStoredIntentIntegrity sha irow = Inr v"
      "toStateRecord row0 = Inr a" "assertOrderProjectionMatchesIntent a v = Inr ()"
    using assms(1) by (auto simp: readVerifiedOrder_def elim!: rbindE split: option.splits)
  have m: "lo_intentId b = lo_intentId a" "lo_clientOrderId b = lo_clientOrderId a" "lo_accountId b = lo_accountId a"
      "lo_pair b = lo_pair a" "lo_orderedQuantity b = lo_orderedQuantity a"
    using assms(4) by (simp_all add: same_mirrors_def)
  have "ow_order row0 = a" using toStateRecord_Inr[OF r(4)] by simp
  then have "toStateRecord row = Inr b"
    using r(4) assms(5) row(2) by (cases a; cases b) (auto simp: toStateRecord_def elim!: rbindE)
  moreover have "assertOrderProjectionMatchesIntent b v = Inr ()"
    using r(5) unfolding assertOrderProjectionMatchesIntent_def m .
  ultimately show ?thesis using row r assms(2) by (simp add: readVerifiedOrder_def)
qed

lemma opening_run:
  assumes "authorisedIntent env authority intent = Inr (r, a)"
    and "column_law (env_stored env)" and "content_durable (ir_content r)"
    and "db_intents db (ir_intentId r) = None" and "ensureIntent env (clock 0) r db = Inr (ord, db1)"
    and "ic_action (ir_content r) = OPEN" and "ic_admissionId (ir_content r) = Some admission"
    and "db_consumptions db admission = None" and "db_consumptionOfIntent db (ir_intentId r) = None"
    and "consumeLiveAdmission a (ir_intentId r) = Some consume" and "consume co = (True, co')"
  shows "\<exists>db2. order_of db2 (ir_intentId r) = Some (reserved_row ord) \<and> lo_state (reserved_row ord) = DISPATCH_RESERVED
    \<and> map_option cw_intentId (db_consumptions db2 admission) = Some (ir_intentId r)
    \<and> (\<exists>row v. db_intents db2 (ir_intentId r) = Some row \<and> verifyStoredIntentIntegrity (env_sha env) row = Inr v
          \<and> ir_content (vi_intent v) = ir_content r)
    \<and> (\<forall>answer. run_alone env clock answer 4 \<lparr>ca_intent = r, ca_authority = a, ca_phase = STARTED\<rparr> db co
                = (PLACED (reserved_row ord), db2, co'))
    \<and> dispatch env policy clock g authority intent db co
      = (case settleDispatch env (clock 2) (reserved_row ord) (gt_placeOrder g (place_request_of policy r)) db2 of
           (out, db3) \<Rightarrow> (out, db3, co'))"
proof -
  let ?i = "ir_intentId r"
  let ?c = "ir_content r"
  obtain ini: "initialLiveOrderState ?i (ir_clientOrderId r) (ic_accountId ?c) (ic_pair ?c) (ic_quantity ?c) = Inr ord"
      and ins: "insertIntent env (clock 0) r ord db = Inr db1"
    using ensureIntent_recorded[OF assms(5,4)] by blast
  note f = insertIntent_Inr[OF ins]
  define v where "v d = \<lparr>vi_intent = r\<lparr>ir_quantityAdjusted := False, ir_priceAdjusted := False\<rparr>, vi_digest = d\<rparr>" for d
  obtain d row where rd: "readVerifiedOrder (env_sha env) db1 ?i = Inr (Some (ord, v d))"
      and row: "db_intents db1 ?i = Some row" "verifyStoredIntentIntegrity (env_sha env) row = Inr (v d)"
    using recorded_reads_back[OF assms(2,3) ini ins] unfolding v_def by metis
  have c: "ir_content (vi_intent (v d)) = ?c" by (simp add: v_def)
  have o: "lo_state ord = CREATED" "order_of db1 ?i = Some ord"
    using ini read_Inr(1)[OF rd] by (auto simp: initialLiveOrderState_def elim!: rbindE)
  have req: "requireVerifiedOrder (env_sha env) LIVE_PERSISTENCE_FAULT db1 ?i = Inr (ord, v d)"
    by (simp add: requireVerifiedOrder_def rd)
  define dbc where "dbc = db1\<lparr>db_consumptions := (db_consumptions db1)(admission \<mapsto>
      \<lparr>cw_admissionId = admission, cw_intentId = ?i, cw_accountId = ic_accountId ?c, cw_pair = ic_pair ?c,
       cw_riskDecisionId = ic_riskDecisionId ?c\<rparr>),
     db_consumptionOfIntent := (db_consumptionOfIntent db1)(?i \<mapsto> admission)\<rparr>"
  have con: "consumeAdmission ?i ?c (consumeLiveAdmission a ?i) db1 co = (Inr dbc, co')"
    using f(5,6) assms(7-11) by (simp add: consumeAdmission_def dbc_def)
  have oc: "order_of dbc = order_of db1" by (simp add: dbc_def fun_eq_iff order_of_def)
  obtain t where t: "canonicalLiveDecimalString (Some (lo_orderedQuantity ord)) = Inr t"
    using read_Inr(3)[OF rd]
    by (cases "canonicalLiveDecimalString (Some (lo_orderedQuantity ord))")
      (auto simp: assertOrderProjectionMatchesIntent_def Let_def split: if_splits)
  have "\<exists>x. reserveOrderRow (clock 1) ?i ord dbc = Inr x"
    unfolding reserveOrderRow_def t liveR_ok rbind_Inr by simp
  then obtain n db2 where rs: "reserveOrderRow (clock 1) ?i ord dbc = Inr (n, db2)" by force
  from reserveOrderRow_Inr[OF rs _ o(1)] have n: "n = 1" "db2 = put_order (clock 1) ?i (reserved_row ord) dbc"
    using o(2) oc by (auto simp: reserved_row_def)
  have rs': "reserveOrderRow (clock (Suc 0)) ?i ord dbc = Inr (Suc 0, db2)" using rs n(1) by simp
  have tx: "claimDispatchTx env (clock (Suc 0)) ?i (consumeLiveAdmission a ?i) db1 co = (Inr (Suc 0, db2), co')"
    using assms(6) o(1) by (simp add: claimDispatchTx_def req c con rs')
  have "readVerifiedOrder (env_sha env) db2 ?i = Inr (Some (reserved_row ord, v d))"
    by (rule read_changed[OF rd]) (simp_all add: n(2) dbc_def reserved_row_def same_mirrors_def put_order_def order_of_def)
  then have out: "claimOutcome env ?i (Suc 0) db2 = Inr (DISPATCH_CLAIMED (reserved_row ord))"
    by (simp add: claimOutcome_def load_def)
  have chk: "checkRecorded ord = Inr None" using o(1) by (simp add: checkRecorded_def)
  have run: "run_alone env clock answer 4 \<lparr>ca_intent = r, ca_authority = a, ca_phase = STARTED\<rparr> db co
      = (PLACED (reserved_row ord), db2, co')" for answer
    using assms(5) tx out chk
    by (simp add: eval_nat_numeral advance_def ensureStep_def claimStep_def write_time_def)
  have "dispatch env policy clock g authority intent db co
      = (case settleDispatch env (clock 2) (reserved_row ord) (gt_placeOrder g (place_request_of policy r)) db2 of
           (out, db3) \<Rightarrow> (out, db3, co'))"
    by (simp add: dispatch_def assms(1,5) chk claimDispatch_def tx out)
  moreover have "\<exists>row v. db_intents db2 ?i = Some row \<and> verifyStoredIntentIntegrity (env_sha env) row = Inr v
      \<and> ir_content (vi_intent v) = ?c"
    using row c by (intro exI[of _ row] exI[of _ "v d"]) (simp add: n(2) dbc_def put_order_def)
  ultimately show ?thesis
    using run n(2) by (intro exI[of _ db2]) (simp add: reserved_row_def dbc_def put_order_def order_of_def)
qed

subsection \<open>Runs are reachable\<close>

lemma run_alone_left: "steps_left (fst (run_alone env clock answer k c db co)) \<le> steps_left (ca_phase c) - k"
proof (induction k arbitrary: c db co)
  case (Suc k)
  obtain p db' co' where a: "advance env (write_time clock (ca_phase c)) answer c db co = (p, db', co')"
    by (metis prod_cases3)
  have "steps_left p \<le> steps_left (ca_phase c) - 1"
    using advance_nearer[of env "write_time clock (ca_phase c)" answer c db co] by (simp add: a)
  with Suc[of "c\<lparr>ca_phase := p\<rparr>" db' co'] show ?case by (simp add: a)
qed simp

text \<open>A call that runs alone up to handing over its request does so in some reachable world.\<close>

lemma run_alone_reachable:
  assumes "service_reachable env w" and "wo_calls w n = Some c"
    and "run_alone env clock answer k c (wo_db w) (wo_co w) = (p, db', co')" and "2 \<le> steps_left p"
  shows "\<exists>w'. service_reachable env w' \<and> wo_db w' = db' \<and> wo_calls w' n = Some (c\<lparr>ca_phase := p\<rparr>)
    \<and> wo_refused w' = wo_refused w"
  using assms
proof (induction k arbitrary: c w)
  case 0
  then show ?case by (intro exI[of _ w]) auto
next
  case (Suc k)
  obtain q db1 co1 where a: "advance env (write_time clock (ca_phase c)) answer c (wo_db w) (wo_co w) = (q, db1, co1)"
    by (metis prod_cases3)
  let ?w = "moved n c answer (q, db1, co1) w"
  have r: "service_reachable env ?w"
    using service_reachable.step[OF Suc.prems(1) run_call[OF Suc.prems(2), of env answer "write_time clock (ca_phase c)"]] a by simp
  have "3 \<le> steps_left (ca_phase c)"
    using run_alone_left[of env clock answer "Suc k" c "wo_db w" "wo_co w"] Suc.prems(3,4) by simp
  then have s: "wo_refused ?w = wo_refused w" "wo_db ?w = db1" "wo_co ?w = co1" "wo_calls ?w n = Some (c\<lparr>ca_phase := q\<rparr>)"
    by (auto simp: moved_def split: phase.split)
  have "run_alone env clock answer k (c\<lparr>ca_phase := q\<rparr>) (wo_db ?w) (wo_co ?w) = (p, db', co')"
    using Suc.prems(3) a s by simp
  from Suc.IH[OF r s(4) this Suc.prems(4)] s(1) show ?case by simp
qed

text \<open>C9. An authorised opening that is new reaches the venue: if its intent is recorded for the first time, its admission is
  unused in the database and the coordinator lets the intent have it, then the dispatch asks the venue for exactly this
  intent, with the order reserved and the admission consumed, and its result is what the answer settles to.\<close>

theorem fresh_opening_placed:
  assumes "authorisedIntent env authority intent = Inr (r, a)"
    and "column_law (env_stored env)" and "content_durable (ir_content r)"
    and "db_intents db (ir_intentId r) = None" and "ensureIntent env (clock 0) r db = Inr (ord, db1)"
    and "ic_action (ir_content r) = OPEN" and "ic_admissionId (ir_content r) = Some admission"
    and "db_consumptions db admission = None" and "db_consumptionOfIntent db (ir_intentId r) = None"
    and "consumeLiveAdmission a (ir_intentId r) = Some consume" and "consume co = (True, co')"
  shows "\<exists>db2. order_of db2 (ir_intentId r) = Some (reserved_row ord) \<and> lo_state (reserved_row ord) = DISPATCH_RESERVED
    \<and> map_option cw_intentId (db_consumptions db2 admission) = Some (ir_intentId r)
    \<and> (\<exists>row v. db_intents db2 (ir_intentId r) = Some row \<and> verifyStoredIntentIntegrity (env_sha env) row = Inr v
          \<and> ir_content (vi_intent v) = ir_content r)
    \<and> (\<forall>answer. run_alone env clock answer 4 \<lparr>ca_intent = r, ca_authority = a, ca_phase = STARTED\<rparr> db co
                = (PLACED (reserved_row ord), db2, co'))
    \<and> dispatch env policy clock g authority intent db co
      = (case settleDispatch env (clock 2) (reserved_row ord) (gt_placeOrder g (place_request_of policy r)) db2 of
           (out, db3) \<Rightarrow> (out, db3, co'))"
  by (rule opening_run[where clock = clock and consume = consume and co = co, OF assms])

end
