(* ===== verification/Live_Mint_Sample.thy ===== *)
theory Live_Mint_Sample
  imports Live_Authority
begin

section \<open>A minted opening\<close>

text \<open>
  The RSI kernel of the strategy sample has issued its decision, its strategy has passed validation, and the account,
  pair, policy and evidence of the risk sample are switched on: the mint hands over an intent of two units at 10,
  worth 40 rupees. The witnesses of the minting properties use it.
\<close>

lemma sample_digests: "Live_Intent.sample_sha = same_sha" "sample_hex = same_sha"
  by (simp_all add: fun_eq_iff same_sha_def Risk_Sample.sample_sha_def Live_Intent.sample_sha_def sample_hex_def)

definition sample_enablement :: enablement where
  "sample_enablement = \<lparr>en_accountAllowlist = [''a''], en_pairAllowlist = [''B-BTC_USDT''], en_maxOrderNotionalInr = ''100'',
     en_credentialAccountId = ''a'', en_environment = ''production''\<rparr>"

definition sample_instrument :: instrument_constraints where
  "sample_instrument =
     \<lparr>icn_pair = ''B-BTC_USDT'', icn_instrumentSpecSnapshotId = ''spec'', icn_quoteCurrency = ''USDT'',
      icn_settlementCurrency = ''USDT'', icn_priceIncrement = ''1'', icn_quantityIncrement = ''1'',
      icn_minQuantity = ''1'', icn_maxQuantity = ''50'', icn_minPrice = ''1'', icn_maxPrice = ''100'',
      icn_minNotional = ''6'', icn_maxNotional = None, icn_maxMarketOrderQuantity = None,
      icn_contractMultiplier = ''1'', icn_supportedOrderTypes = [''limit_order''],
      icn_supportedTimeInForce = [], icn_exitOnly = False\<rparr>"

definition sample_plan :: plan_result where
  "sample_plan = \<lparr>vq_validationPlanId = ''p'', vq_subjectResults =
     [\<lparr>vr_validationSubjectId = Risk_Sample.sample_sha, vr_verdict = PASSED, vr_validationSubjectResultSha256 = ''v''\<rparr>]\<rparr>"

definition sample_mint :: "policy_snapshot \<Rightarrow> unit mint_input" where
  "sample_mint s =
     \<lparr>mi_enablement = Some sample_enablement, mi_accountId = ''a'', mi_kernel = sample_run, mi_decision = sample_decision_of_kernel,
      mi_instrumentSpecSnapshotId = ''spec'', mi_riskPolicy = sample_risk_policy, mi_evidence = sample_risk_context,
      mi_livePolicy = s, mi_constraints = sample_instrument,
      mi_shape = \<lparr>sh_orderType = LIMIT, sh_timeInForce = UNSPECIFIED, sh_limitPrice = Some ''10''\<rparr>\<rparr>"

lemma sample_kernel_risk:
  "sample_decision_of_kernel = sample_risk_decision"
  "kn_instance sample_kernel = or_instance (the (rc_strategyOrigin sample_risk_context))"
  by (simp_all add: sample_decision_of_kernel_def sample_risk_decision_def sample_digests same_sha_def sample_kernel_def
      sample_risk_context_def sample_parameters_def rsi_json_def sample_rsi_def)

lemma sample_handoff:
  "createStrategyRiskHandoff sample_run sample_decision_of_kernel ''spec''
     = Inr (Some (sample_risk_candidate, the (rc_strategyOrigin sample_risk_context)))"
  unfolding createStrategyRiskHandoff_def issueDecisionOrigin_def sample_run_fields sample_kernel_risk
  by (simp add: createStrategyRiskCandidate_def sample_risk_context_def sample_risk_candidate_def sample_risk_decision_def)

lemma sample_mint_context:
  "mint_context (sample_mint s) sample_risk_candidate (the (rc_strategyOrigin sample_risk_context)) = sample_risk_context"
  by (simp add: mint_context_def sample_mint_def sample_risk_context_def)

lemma sample_chain: "assertInstrumentChain (half_up 128) (sample_mint s) = Inr ()"
  by (simp add: assertInstrumentChain_def sample_mint_def) code_simp

lemma sample_live_rebuilds: "rebuilds_sample (live_definitions (half_up 128))"
proof -
  have "built_by (definition_view (rsiMomentumV1Definition (half_up 128))) (kn_instance sample_run)"
    unfolding sample_run_fields by (rule created_kernel_built_by[OF sample_definition sample_kernel_created])
  from handed_over(1)[OF sample_run_reachable this definition_found[OF sample_definition], of sample_decision_of_kernel "''spec''"]
  have "strategyLineageReasons sample_hex (live_definitions (half_up 128)) sample_risk_candidate
      (Some (the (rc_strategyOrigin sample_risk_context))) = Inr []"
    by (simp add: sample_run_fields sample_handoff live_definitions_def) (simp add: sample_decision_of_kernel_def)
  then show ?thesis by (simp add: rebuilds_sample_def sample_digests) (simp add: sample_risk_context_def)
qed

subsection \<open>The first grant\<close>

text \<open>The first grant of the sample: the overlay of nothing leaves the context, and the engine accepts two units.\<close>

lemma sample_pending:
  "buildPending (cj_D calc_128) (ex_pending sample_risk_exposure) [] = Inr (ex_pending sample_risk_exposure)"
  by code_simp

lemma sample_exposure_digest:
  "evidenceContentSha256 same_sha (exposure_members sample_risk_exposure) (ex_provenance sample_risk_exposure) = Inr Risk_Sample.sample_sha"
  unfolding evidenceContentSha256_def by (rule same_sha_digest) code_simp

lemma sample_overlay:
  "overlayPending same_sha (cj_D calc_128) new_coordinator ''a'' sample_risk_context None = Inr sample_risk_context"
proof -
  have p: "sample_risk_exposure\<lparr>ex_pending := ex_pending sample_risk_exposure\<rparr> = sample_risk_exposure" by simp
  have q: "sample_risk_exposure\<lparr>ex_provenance := (ex_provenance sample_risk_exposure)\<lparr>pv_contentSha256 := Risk_Sample.sample_sha\<rparr>\<rparr>
      = sample_risk_exposure"
    by (simp add: sample_risk_exposure_def sample_provenance_def)
  have c: "sample_risk_context\<lparr>rc_exposureSnapshot := Some sample_risk_exposure\<rparr> = sample_risk_context"
    by (simp add: sample_risk_context_def)
  have r: "admitted_records new_coordinator ''a'' None = []"
    by (simp add: admitted_records_def entries_of_def new_coordinator_def)
  have e: "rc_exposureSnapshot sample_risk_context = Some sample_risk_exposure" by (rule sample_fields)
  show ?thesis
    unfolding overlayPending_def e option.case r sample_pending rbind_Inr Let_def p sample_exposure_digest riskR_def sum.case q c by (rule refl)
qed

lemma sample_engine_made: "newRiskEngine same_sha (cj_D calc_128) sample_risk_policy = Inr sample_risk_policy"
proof -
  have "identities_ok same_sha sample_risk_policy"
    using decimal_lib.createRiskPolicy_ok[OF _ sample_policy_made] calc_128.risk_arith_axioms by (auto simp: risk_arith_def)
  then show ?thesis by (simp add: newRiskEngine_def assertPolicyIdentity_ok[THEN iffD2] sample_policy_made)
qed

lemma sample_first_grant:
  assumes "rebuilds_sample definitions"
  obtains base v r where "admitLocked same_sha (cj_D calc_128) (live_engine same_sha definitions calc_128 sample_risk_policy)
      \<lparr>rq_accountId = ''a'', rq_context = sample_risk_context\<rparr> new_coordinator =
        Inr (OUT_ADMITTED (base, approved_of_sizing v) r, record_admission r (base, approved_of_sizing v) new_coordinator)"
    and "sv_finalQuantity v = ''2''" and "sv_finalNotionalInr v = ''40''" and "sv_finalLeverage v = ''2''"
    and "db_riskDecisionId base = Risk_Sample.sample_sha" and "ad_admissionId r = Risk_Sample.sample_sha"
    and "ad_riskDecisionId r = Risk_Sample.sample_sha" and "ad_accountId r = ''a''" and "ad_pair r = ''B-BTC_USDT''"
    and "ad_direction r = LONG" and "ad_strategyInstanceId r = Risk_Sample.sample_sha" and "ad_strategyId r = ''RSI_MOMENTUM''"
    and "ad_strategyVersion r = ''1.0.0''" and "ad_parameterHash r = Risk_Sample.sample_sha" and "ad_status r = ADMITTED"
proof -
  obtain base v where run: "evaluateRisk same_sha definitions calc_128 sample_risk_policy sample_risk_context =
      Inr (ACCEPTED_OPEN (base, approved_of_sizing v))" and id: "db_riskDecisionId base = Risk_Sample.sample_sha"
    and v: "sv_finalQuantity v = ''2''" "sv_finalNotionalInr v = ''40''" "sv_finalLeverage v = ''2''"
    by (rule sample_accepted_by[OF assms])
  define draft where "draft = admission_draft new_coordinator ''a'' sample_risk_decision LONG (base, approved_of_sizing v)"
  have "ad_generation draft = 1"
    by (simp add: draft_def admission_draft_def next_generation_def entries_of_def new_coordinator_def watermark_def)
  then have "admission_identity same_sha draft = Inr Risk_Sample.sample_sha"
    by (simp add: admission_identity_def digestR_def sha256CanonicalJson_def canonicalJson_eq_Inr[THEN iffD2] same_sha_def
        isSafeInteger_def)
  moreover have fresh: "entries_of new_coordinator x = []" "co_faultedAccounts new_coordinator = {}"
      "watermark (co_latestAdmittedSequence new_coordinator) x y = 0" "0 \<le> sd_decisionSequence sample_risk_decision" for x y
    by (simp_all add: entries_of_def new_coordinator_def watermark_def sample_risk_decision_def)
  ultimately have grant: "admitLocked same_sha (cj_D calc_128) (live_engine same_sha definitions calc_128 sample_risk_policy)
      \<lparr>rq_accountId = ''a'', rq_context = sample_risk_context\<rparr> new_coordinator =
    Inr (OUT_ADMITTED (base, approved_of_sizing v) (draft\<lparr>ad_admissionId := Risk_Sample.sample_sha\<rparr>),
      record_admission (draft\<lparr>ad_admissionId := Risk_Sample.sample_sha\<rparr>) (base, approved_of_sizing v) new_coordinator)"
    using sample_overlay fresh
    by (simp add: admitLocked_def admitFresh_def live_engine_def sample_engine_made run riskR_def draft_def[symmetric]) (simp add: Let_def)
  show thesis
    by (rule that[OF grant v id]; simp add: draft_def admission_draft_def ao_riskDecisionId_def id)
      (simp_all add: sample_risk_decision_def)
qed

subsection \<open>Its intent\<close>

definition sample_mint_economics :: intent_economics where
  "sample_mint_economics =
     \<lparr>ie_accountId = ''a'', ie_pair = ''B-BTC_USDT'', ie_side = BUY, ie_action = OPEN, ie_quantity = ''2'',
      ie_leverage = Some ''2'', ie_riskDecisionId = Risk_Sample.sample_sha, ie_admissionId = Some Risk_Sample.sample_sha,
      ie_strategyInstanceId = Risk_Sample.sample_sha, ie_strategyId = ''RSI_MOMENTUM'', ie_strategyVersion = ''1.0.0'',
      ie_parameterHash = Risk_Sample.sample_sha, ie_authorizedNotionalInr = ''40'',
      ie_settlementRateInrPerQuote = Some ''2'', ie_positionInstanceId = None,
      ie_positionRevision = None, ie_reduceOnlyQuantity = None\<rparr>"

definition sample_mint_content :: intent_content where
  "sample_mint_content =
     \<lparr>ic_accountId = ''a'', ic_pair = ''B-BTC_USDT'', ic_side = BUY, ic_action = OPEN, ic_quantity = ''2'',
      ic_orderType = LIMIT, ic_price = Some ''10'', ic_timeInForce = UNSPECIFIED, ic_leverage = Some ''2'',
      ic_riskDecisionId = Risk_Sample.sample_sha, ic_admissionId = Some Risk_Sample.sample_sha,
      ic_strategyInstanceId = Risk_Sample.sample_sha, ic_strategyId = ''RSI_MOMENTUM'', ic_strategyVersion = ''1.0.0'',
      ic_parameterHash = Risk_Sample.sample_sha, ic_liveExecutionPolicyId = Risk_Sample.sample_sha,
      ic_instrumentSpecSnapshotId = ''spec'', ic_authorizedNotionalInr = ''40'', ic_settlementRateInrPerQuote = Some ''2'',
      ic_positionInstanceId = None, ic_positionRevision = None, ic_reduceOnlyQuantity = None\<rparr>"

lemma persisted_small:
  assumes "\<bar>c\<bar> < 10 ^ 18"
  shows "persisted_value (of_int c)"
  unfolding persisted_value_def
  by (rule exI[of _ "c * 10 ^ 18"]) (use assms in \<open>simp add: abs_mult\<close>)

lemma sample_amounts [simp]:
  "normal_text ''6''" "normal_text ''10''" "normal_text ''20''" "normal_text ''40''" "normal_text ''50''"
  "text_value ''6'' = 6" "text_value ''10'' = 10" "text_value ''20'' = 20" "text_value ''40'' = 40" "text_value ''50'' = 50"
  by code_simp+

lemma sample_persisted [simp]:
  "persisted_value 6" "persisted_value 10" "persisted_value 20" "persisted_value 40" "persisted_value 50"
  using persisted_small[of 6] persisted_small[of 10] persisted_small[of 20] persisted_small[of 40] persisted_small[of 50] by simp_all

lemma sample_live_numbers:
  "liveDecimal (half_up 128) ''1'' = Inr 1" "liveDecimal (half_up 128) ''2'' = Inr 2" "liveDecimal (half_up 128) ''6'' = Inr 6"
  "liveDecimal (half_up 128) ''10'' = Inr 10" "liveDecimal (half_up 128) ''20'' = Inr 20" "liveDecimal (half_up 128) ''50'' = Inr 50"
  "liveDecimal (half_up 128) ''100'' = Inr 100"
  "positiveDecimal (half_up 128) ''1'' = Inr 1" "positiveDecimal (half_up 128) ''2'' = Inr 2"
  "positiveDecimal (half_up 128) ''10'' = Inr 10" "positiveDecimal (half_up 128) ''40'' = Inr 40"
  by (simp_all add: half_up_128.liveDecimal_normal half_up_128.positiveDecimal_Inr normal_signed_text)

lemma sample_products:
  "dround (half_up 128) 20 = 20" "dround (half_up 128) 40 = 40" "dfixed (half_up 128) 20 = ''20''"
  "dfixed (half_up 128) 2 = ''2''" "dfixed (half_up 128) 10 = ''10''"
  using half_up_128.product_exact[of 2 10] half_up_128.product_exact[of 20 2] half_up_128.dfixed_eqI[of "''20''"]
    half_up_128.dfixed_eqI[of "''2''"] half_up_128.dfixed_eqI[of "''10''"]
  by simp_all

lemma sample_steps:
  "Live_Decimal.floorToIncrement (half_up 128) 2 1 = Inr 2" "Live_Decimal.floorToIncrement (half_up 128) 10 1 = Inr 10"
  "isAlignedToIncrement (half_up 128) 2 1 = Inr True" "isAlignedToIncrement (half_up 128) 10 1 = Inr True"
proof -
  have df: "decimal_fraction 1" "decimal_fraction 2" "decimal_fraction 10"
    using persisted_decimal[of 1] persisted_decimal[of 2] persisted_decimal[of 10] by simp_all
  show "Live_Decimal.floorToIncrement (half_up 128) 2 1 = Inr 2" "Live_Decimal.floorToIncrement (half_up 128) 10 1 = Inr 10"
    using half_up_128.floorToIncrement_value[OF df(2,1)] half_up_128.floorToIncrement_value[OF df(3,1)] by simp_all
  show "isAlignedToIncrement (half_up 128) 2 1 = Inr True" "isAlignedToIncrement (half_up 128) 10 1 = Inr True"
    using half_up_128.isAligned_value[OF df(2,1)] half_up_128.isAligned_value[OF df(3,1)] by simp_all
qed

lemma sample_positive: "canonicalPositiveLiveDecimal (Some ''2'') = Inr ''2''" "canonicalPositiveLiveDecimal (Some ''10'') = Inr ''10''"
    "canonicalPositiveLiveDecimal (Some ''40'') = Inr ''40''"
  by code_simp+

lemma sample_mint_quantized:
  "quantizeOrderEconomics (half_up 128) sample_instrument BUY LIMIT ''2'' (Some ''10'') =
     Inr \<lparr>qe_quantity = ''2'', qe_price = Some ''10'', qe_notional = Some ''20'',
          qe_quantityAdjusted = False, qe_priceAdjusted = False\<rparr>"
  using sample_live_numbers sample_products sample_steps sample_positive unfolding positiveDecimal_def
  by (simp add: quantizeOrderEconomics_def quantizePrice_def positiveDecimal_def sample_instrument_def)

lemma sample_mint_within:
  "assertOrderWithinInstrumentConstraints (half_up 128) sample_instrument OPEN LIMIT
     \<lparr>qe_quantity = ''2'', qe_price = Some ''10'', qe_notional = Some ''20'', qe_quantityAdjusted = False, qe_priceAdjusted = False\<rparr> = Inr ()"
  by (simp add: assertOrderWithinInstrumentConstraints_def sample_instrument_def sample_live_numbers sample_steps assertAligned_def
        assertAtLeast_def assertAtMost_def whenSome_def)

lemma sample_mint_identity:
  "computeLiveExecutionIntentId same_sha sample_mint_content = Inr Risk_Sample.sample_sha"
  "\<exists>k. deriveLiveClientOrderId same_sha sample_mint_content = Inr k"
proof -
  have canon: "canonicalContent sample_mint_content = Inr sample_mint_content" by code_simp
  have "mapR assertExactId [ic_accountId sample_mint_content, ic_pair sample_mint_content, ic_riskDecisionId sample_mint_content,
      ic_strategyInstanceId sample_mint_content, ic_strategyId sample_mint_content, ic_strategyVersion sample_mint_content,
      ic_parameterHash sample_mint_content, ic_liveExecutionPolicyId sample_mint_content,
      ic_instrumentSpecSnapshotId sample_mint_content, ic_authorizedNotionalInr sample_mint_content] = Inr (replicate 10 ())"
    by code_simp
  moreover have "assertNullableExactId (ic_admissionId sample_mint_content) = Inr ()"
    "assertNullableExactId (ic_positionInstanceId sample_mint_content) = Inr ()"
    "ic_positionRevision sample_mint_content = None"
    by code_simp+
  ultimately have p: "liveExecutionIntentIdentityPreimage sample_mint_content = Inr (identity_members sample_mint_content)"
    by (simp add: liveExecutionIntentIdentityPreimage_def canon identity_members_def)
  have j: "json_supported (identity_members sample_mint_content)"
    by (simp add: identity_members_def content_members_supported) (simp add: sample_mint_content_def)
  show "computeLiveExecutionIntentId same_sha sample_mint_content = Inr Risk_Sample.sample_sha"
    by (simp add: computeLiveExecutionIntentId_def p liveR_def digestOf_norm[OF j] same_sha_def)
  have "json_supported (JObject [(''identityPolicyId'', JString ''P17_LIVE_CLIENT_ORDER_ID_V1''),
      (''intent'', identity_members sample_mint_content)])"
    using j by simp
  note d = digestOf_norm[OF this]
  have "LIVE_CLIENT_ORDER_ID_PATTERN (LIVE_CLIENT_ORDER_ID_PREFIX @ take LIVE_CLIENT_ORDER_ID_DIGEST_CHARS Risk_Sample.sample_sha)"
    by code_simp
  then show "\<exists>k. deriveLiveClientOrderId same_sha sample_mint_content = Inr k"
    by (simp add: deriveLiveClientOrderId_def p liveR_def d same_sha_def)
qed

lemma sample_mint_created:
  obtains s k where "pc_maxOrderNotionalInr (ps_content s) = ''100''"
    and "deriveLiveClientOrderId same_sha sample_mint_content = Inr k"
    and "\<forall>lineage. createLiveExecutionIntent same_sha (half_up 128) s sample_instrument sample_mint_economics
       \<lparr>sh_orderType = LIMIT, sh_timeInForce = UNSPECIFIED, sh_limitPrice = Some ''10''\<rparr> lineage =
      Inr \<lparr>ir_intentId = Risk_Sample.sample_sha, ir_clientOrderId = k, ir_content = sample_mint_content, ir_lineage = lineage,
        ir_wireOrderType = ''limit_order'', ir_quantityAdjusted = False, ir_priceAdjusted = False\<rparr>"
proof -
  obtain s where s: "validateLiveExecutionPolicySnapshot same_sha s = Inr s"
    "ps_liveExecutionPolicyId s = Risk_Sample.sample_sha" "set (pc_allowedOrderTypes (ps_content s)) = {LIMIT, MARKET}"
    "set (pc_allowedTimeInForce (ps_content s)) = {UNSPECIFIED}" "pc_maxOrderNotionalInr (ps_content s) = ''100''"
    using sample_policy unfolding sample_digests by (auto simp: same_sha_def)
  let ?e = "\<lparr>qe_quantity = ''2'', qe_price = Some ''10'', qe_notional = Some ''20'',
          qe_quantityAdjusted = False, qe_priceAdjusted = False\<rparr>"
  let ?sh = "\<lparr>sh_orderType = LIMIT, sh_timeInForce = UNSPECIFIED, sh_limitPrice = Some ''10''\<rparr>"
  have shape: "assertIntentShape (ps_content s) sample_instrument sample_mint_economics ?sh = Inr ()"
    using s(3,4) by (simp add: assertIntentShape_def sample_instrument_def sample_mint_economics_def)
  have wire: "resolveWireOrderType sample_instrument LIMIT = Inr ''limit_order''" by code_simp
  have caps: "assertNotionalCaps (half_up 128) (ps_content s) sample_mint_economics ?e = Inr ()"
    by (simp add: assertNotionalCaps_def sample_mint_economics_def whenSome_def sample_live_numbers sample_products sample_positive s(5) Let_def)
  have content: "intentContent s sample_instrument sample_mint_economics ?sh ?e = Inr sample_mint_content"
    by (simp add: intentContent_def sample_mint_economics_def optionalPositive_def s(2) sample_positive
        sample_mint_content_def sample_instrument_def)
  obtain k where k: "deriveLiveClientOrderId same_sha sample_mint_content = Inr k" using sample_mint_identity(2) by blast
  have f: "ie_side sample_mint_economics = BUY" "ie_quantity sample_mint_economics = ''2''" "ie_action sample_mint_economics = OPEN"
    by (simp_all add: sample_mint_economics_def)
  show thesis
    by (rule that[OF s(5) k])
      (simp add: createLiveExecutionIntent_def s(1) shape f wire sample_mint_quantized sample_mint_within caps content
        sample_mint_identity(1) k liveR_def)
qed

subsection \<open>The mint\<close>

lemma sample_approval:
  "\<exists>approval. issueResearchApprovalOrigin same_sha (Some sample_plan) (kn_instance sample_run) = Inr (Some approval)
     \<and> ra_pair approval = si_pair (kn_instance sample_run) \<and> ra_strategyId approval = si_strategyId (kn_instance sample_run)
     \<and> ra_strategyVersion approval = si_strategyVersion (kn_instance sample_run)
     \<and> ra_parameterHash approval = si_parameterHash (kn_instance sample_run)"
proof -
  have "sha256CanonicalJson same_sha (validation_subject (kn_instance sample_run)) = Inr Risk_Sample.sample_sha"
    by (simp add: sha256CanonicalJson_def canonicalJson_eq_Inr[THEN iffD2] validation_subject_def same_sha_def)
  then show ?thesis by (simp add: issueResearchApprovalOrigin_def sample_plan_def)
qed

definition sample_mint_intent :: "string \<Rightarrow> live_lineage \<Rightarrow> intent_record" where
  "sample_mint_intent k lineage =
     \<lparr>ir_intentId = Risk_Sample.sample_sha, ir_clientOrderId = k, ir_content = sample_mint_content, ir_lineage = lineage,
      ir_wireOrderType = ''limit_order'', ir_quantityAdjusted = False, ir_priceAdjusted = False\<rparr>"

lemma sample_mint_intent_fields [simp]:
  "ir_intentId (sample_mint_intent k lineage) = Risk_Sample.sample_sha"
  "ir_clientOrderId (sample_mint_intent k lineage) = k"
  "ir_content (sample_mint_intent k lineage) = sample_mint_content"
  "ir_lineage (sample_mint_intent k lineage) = lineage"
  unfolding sample_mint_intent_def by simp_all

lemma sample_minted_full:
  obtains s auth k lineage co' r where
    "mintLiveOpenExecutionAuthority same_sha (half_up 128) calc_128 (half_up 128) (sample_mint s) (Some sample_plan) new_coordinator
       = (Inr (Some (auth, sample_mint_intent k lineage)), co')"
    and "pc_maxOrderNotionalInr (ps_content s) = ''100''"
    and "la_admission auth = Some r" and "ad_admissionId r = Risk_Sample.sample_sha" and "la_accountId auth = ''a''"
    and "readLiveAuthorityForIntent (Some auth) (Some (sample_mint_intent k lineage)) = Inr auth"
    and "deriveLiveClientOrderId same_sha sample_mint_content = Inr k"
    and "fst (consumeForLiveLocked ''a'' Risk_Sample.sample_sha i co') = CONSUMED"
proof -
  obtain approval where ap: "issueResearchApprovalOrigin same_sha (Some sample_plan) (kn_instance sample_run) = Inr (Some approval)"
      "authorizeStrategyDispatch sample_run sample_decision_of_kernel ''spec'' (Some approval)
         = Inr (Some (sample_risk_candidate, the (rc_strategyOrigin sample_risk_context)))"
    using sample_approval by (auto simp: authorizeStrategyDispatch_def Let_def sample_handoff)
  obtain s k where s: "pc_maxOrderNotionalInr (ps_content s) = ''100''"
    and dk: "deriveLiveClientOrderId same_sha sample_mint_content = Inr k"
    and made: "\<forall>lineage. createLiveExecutionIntent same_sha (half_up 128) s sample_instrument sample_mint_economics
       \<lparr>sh_orderType = LIMIT, sh_timeInForce = UNSPECIFIED, sh_limitPrice = Some ''10''\<rparr> lineage =
      Inr \<lparr>ir_intentId = Risk_Sample.sample_sha, ir_clientOrderId = k, ir_content = sample_mint_content, ir_lineage = lineage,
        ir_wireOrderType = ''limit_order'', ir_quantityAdjusted = False, ir_priceAdjusted = False\<rparr>"
    by (rule sample_mint_created)
  have input: "mi_enablement (sample_mint s) = Some sample_enablement" "mi_accountId (sample_mint s) = ''a''"
    "mi_kernel (sample_mint s) = sample_run" "mi_decision (sample_mint s) = sample_decision_of_kernel"
    "mi_instrumentSpecSnapshotId (sample_mint s) = ''spec''" "mi_riskPolicy (sample_mint s) = sample_risk_policy"
    "mi_livePolicy (sample_mint s) = s" "mi_constraints (sample_mint s) = sample_instrument"
    "mi_shape (sample_mint s) = \<lparr>sh_orderType = LIMIT, sh_timeInForce = UNSPECIFIED, sh_limitPrice = Some ''10''\<rparr>"
    by (simp_all add: sample_mint_def)
  have pair: "si_pair (kn_instance sample_run) = ''B-BTC_USDT''" by (simp add: sample_run_fields sample_kernel_def)
  have on: "assertGenuineEnablement (Some sample_enablement) ''a'' ''B-BTC_USDT'' = Inr ()"
    by (simp add: assertGenuineEnablement_def sample_enablement_def)
  obtain base v r where grant: "admitLocked same_sha (cj_D calc_128) (live_engine same_sha (live_definitions (half_up 128)) calc_128 sample_risk_policy)
      \<lparr>rq_accountId = ''a'', rq_context = sample_risk_context\<rparr> new_coordinator =
        Inr (OUT_ADMITTED (base, approved_of_sizing v) r, record_admission r (base, approved_of_sizing v) new_coordinator)"
    and v: "sv_finalQuantity v = ''2''" "sv_finalNotionalInr v = ''40''" "sv_finalLeverage v = ''2''"
      "db_riskDecisionId base = Risk_Sample.sample_sha"
    and r: "ad_admissionId r = Risk_Sample.sample_sha"
      "ad_riskDecisionId r = Risk_Sample.sample_sha" "ad_accountId r = ''a''" "ad_pair r = ''B-BTC_USDT''"
      "ad_direction r = LONG" "ad_strategyInstanceId r = Risk_Sample.sample_sha" "ad_strategyId r = ''RSI_MOMENTUM''"
      "ad_strategyVersion r = ''1.0.0''" "ad_parameterHash r = Risk_Sample.sample_sha" "ad_status r = ADMITTED"
    by (rule sample_first_grant[OF sample_live_rebuilds])
  define co' where "co' = record_admission r (base, approved_of_sizing v) new_coordinator"
  have rec: "reconciledAccount (ps_ownership sample_pair) = Some ''a''" by (simp add: reconciledAccount_def)
  have ex: "ex_accountId sample_risk_exposure = ''a''" by (simp add: sample_risk_exposure_def)
  have admit: "admitMint same_sha (half_up 128) calc_128 (sample_mint s) sample_risk_context new_coordinator =
      (Inr (OUT_ADMITTED (base, approved_of_sizing v) r), co')"
    unfolding admitMint_def admitForLiveExecution_def Let_def
    by (simp add: grant co'_def input rec[unfolded sample_fields] ex r v(4) reconciledAccount_def ao_riskDecisionId_def)
  have eco: "openEconomics (sample_mint s) sample_risk_context (base, approved_of_sizing v) r = sample_mint_economics"
    by (simp add: openEconomics_def input r v ao_riskDecisionId_def ao_approvedNotionalInr_def approved_of_sizing_def
        openSideFor_def sample_mint_economics_def) (simp add: sample_settlement_def)
  obtain auth lineage where fin: "openIntent same_sha (half_up 128) (sample_mint s) sample_risk_context approval
        (the (rc_strategyOrigin sample_risk_context)) (base, approved_of_sizing v) r = Inr (Some (auth, sample_mint_intent k lineage))"
      and auth: "auth = issue_authority (sample_mint s) (OPENING (base, approved_of_sizing v)) (Some approval)
        (the (rc_strategyOrigin sample_risk_context)) (Some r) (sample_mint_intent k lineage)"
    unfolding openIntent_def eco input using made by (simp add: sample_mint_intent_def)
  have m: "mintLiveOpenExecutionAuthority same_sha (half_up 128) calc_128 (half_up 128) (sample_mint s) (Some sample_plan) new_coordinator
       = (Inr (Some (auth, sample_mint_intent k lineage)), co')"
    unfolding mintLiveOpenExecutionAuthority_def Let_def input pair on sample_chain
    by (simp add: ap sample_mint_context admit fin)
  have c: "ic_accountId sample_mint_content = ''a''" "ic_action sample_mint_content = OPEN"
      "ic_riskDecisionId sample_mint_content = Risk_Sample.sample_sha"
    by (simp_all add: sample_mint_content_def)
  have read: "readLiveAuthorityForIntent (Some auth) (Some (sample_mint_intent k lineage)) = Inr auth"
    by (simp add: readLiveAuthorityForIntent_def auth issue_authority_def accepted_base_def v(4) sample_mint_intent_def c input)
  have con: "fst (consumeForLiveLocked ''a'' Risk_Sample.sample_sha i co') = CONSUMED"
    by (simp add: consumeForLiveLocked_def co'_def record_admission_def Let_def r new_coordinator_def)
  show thesis
    by (rule that[OF m s _ r(1) _ read dk con]) (simp_all add: auth issue_authority_def input)
qed

lemma sample_minted:
  obtains s auth intent co' where
    "mintLiveOpenExecutionAuthority same_sha (half_up 128) calc_128 (half_up 128) (sample_mint s) (Some sample_plan) new_coordinator
       = (Inr (Some (auth, intent)), co')"
    and "ir_content intent = sample_mint_content" and "ir_intentId intent = Risk_Sample.sample_sha"
    and "pc_maxOrderNotionalInr (ps_content s) = ''100''"
proof (rule sample_minted_full)
  fix s auth k lineage co'
  assume "mintLiveOpenExecutionAuthority same_sha (half_up 128) calc_128 (half_up 128) (sample_mint s) (Some sample_plan) new_coordinator
       = (Inr (Some (auth, sample_mint_intent k lineage)), co')" and "pc_maxOrderNotionalInr (ps_content s) = ''100''"
  from that[OF this(1) _ _ this(2)] show thesis by simp
qed

theorem minted_opening_authorised_witness:
  "\<exists>s auth intent co' r. mintLiveOpenExecutionAuthority same_sha (half_up 128) calc_128 (half_up 128) (sample_mint s) (Some sample_plan)
       new_coordinator = (Inr (Some (auth, intent)), co')
     \<and> la_admission auth = Some r \<and> ic_admissionId (ir_content intent) = Some (ad_admissionId r)
     \<and> readLiveAuthorityForIntent (Some auth) (Some intent) = Inr auth"
proof -
  obtain s auth intent co' where m: "mintLiveOpenExecutionAuthority same_sha (half_up 128) calc_128 (half_up 128) (sample_mint s)
      (Some sample_plan) new_coordinator = (Inr (Some (auth, intent)), co')"
    by (rule sample_minted)
  with minted_opening_authorised[OF m] show ?thesis by blast
qed

theorem minted_opening_sound_witness:
  "\<exists>s auth intent co' policy n v. mintLiveOpenExecutionAuthority same_sha (half_up 128) calc_128 (half_up 128) (sample_mint s)
       (Some sample_plan) new_coordinator = (Inr (Some (auth, intent)), co')
     \<and> opening_sound same_sha (live_definitions (half_up 128)) calc_128 policy n v
     \<and> 2 \<le> text_value (sv_finalQuantity v) \<and> 40 \<le> text_value (sv_finalNotionalInr v)"
proof -
  obtain s auth intent co' where m: "mintLiveOpenExecutionAuthority same_sha (half_up 128) calc_128 (half_up 128) (sample_mint s)
      (Some sample_plan) new_coordinator = (Inr (Some (auth, intent)), co')" and c: "ir_content intent = sample_mint_content"
    by (rule sample_minted)
  have "admission_reachable same_sha (cj_D calc_128) (\<lambda>k. k) (live_engines same_sha (half_up 128) calc_128) new_coordinator"
    by (rule admission_reachable.start)
  note w = minted_opening_sound[OF calc_128.risk_arith_axioms half_up_128.decimal_lib_axioms this m]
  have f: "ic_quantity sample_mint_content = ''2''" "ic_price sample_mint_content = Some ''10''"
    "mi_constraints (sample_mint s) = sample_instrument" "icn_contractMultiplier sample_instrument = ''1''"
    "mi_evidence (sample_mint s) = sample_risk_context" "st_rateInrPerUsdt sample_settlement = ''2''"
    by (simp_all add: sample_mint_content_def sample_mint_def sample_instrument_def sample_settlement_def)
  have t: "text_value ''1'' = 1" "text_value ''2'' = 2" by code_simp+
  from w obtain policy n v where "opening_sound same_sha (live_definitions (half_up 128)) calc_128 policy n v"
      "2 \<le> text_value (sv_finalQuantity v)" "40 \<le> text_value (sv_finalNotionalInr v)"
    unfolding c f by (auto simp: t f)
  with m show ?thesis by blast
qed

end
