(* ===== verification/Live_Service_Sample.thy ===== *)
theory Live_Service_Sample
  imports Live_Service Live_Mint_Sample
begin

section \<open>A dispatched opening\<close>

text \<open>
  The opening the mint sample hands over is dispatched on an empty database, with the coordinator that granted it: the
  request reaches the venue. The witnesses of the service properties use it, and an acknowledged order for the
  cancellations.
\<close>

definition live_sample_env :: live_env where
  "live_sample_env = \<lparr>env_sha = same_sha, env_decimal = half_up 128, env_stored = (\<lambda>s. s)\<rparr>"

lemma live_sample_env_law: "column_law (env_stored live_sample_env)"
  by (simp add: column_law_def live_sample_env_def)

lemma live_sample_durable: "content_durable sample_mint_content"
  using persisted_small[of 2] by (simp add: content_durable_def sample_mint_content_def durable_text_def)

lemma live_sample_sha: "\<exists>d. liveExecutionIntentContentSha256 same_sha (sample_mint_intent k lineage) = Inr d"
proof -
  have "canonicalContent sample_mint_content = Inr sample_mint_content" by code_simp
  moreover have "json_supported (sealed_json (sample_mint_intent k lineage) sample_mint_content)"
    by (simp add: sealed_json_def lineage_json_def content_members_supported split: option.splits)
      (simp add: sample_mint_content_def)
  ultimately show ?thesis by (simp add: contentSha_Inr)
qed

lemma live_sample_recorded:
  "\<exists>ord db1. ensureIntent live_sample_env now (sample_mint_intent k lineage) empty_db = Inr (ord, db1)"
proof -
  let ?r = "sample_mint_intent k lineage"
  obtain d where d: "liveExecutionIntentContentSha256 same_sha ?r = Inr d" using live_sample_sha by blast
  have q: "ic_quantity sample_mint_content = ''2''" by (simp add: sample_mint_content_def)
  obtain ini where ini: "initialLiveOrderState (ir_intentId ?r) k (ic_accountId sample_mint_content) (ic_pair sample_mint_content) ''2'' = Inr ini"
    by (simp add: initialLiveOrderState_def sample_positive)
  have "\<exists>db1. insertIntent live_sample_env now ?r ini empty_db = Inr db1"
    by (simp add: insertIntent_def intentCreateData_def live_sample_env_def d) (simp add: empty_db_def)
  then show ?thesis using ini q by (auto simp: ensureIntent_def) (simp add: empty_db_def)
qed

lemma live_sample_opening:
  obtains r a co f co' ord db1 where "authorisedIntent live_sample_env (Some a) (Some r) = Inr (r, a)"
    and "ir_intentId r = Risk_Sample.sample_sha" and "ir_content r = sample_mint_content"
    and "ensureIntent live_sample_env 0 r empty_db = Inr (ord, db1)"
    and "consumeLiveAdmission a (ir_intentId r) = Some f" and "f co = (True, co')"
proof -
  obtain s auth k lineage co r where m: "la_admission auth = Some r" "ad_admissionId r = Risk_Sample.sample_sha"
      "la_accountId auth = ''a''" "readLiveAuthorityForIntent (Some auth) (Some (sample_mint_intent k lineage)) = Inr auth"
      "deriveLiveClientOrderId same_sha sample_mint_content = Inr k"
      "fst (consumeForLiveLocked ''a'' Risk_Sample.sample_sha Risk_Sample.sample_sha co) = CONSUMED"
    by (rule sample_minted_full)
  let ?r = "sample_mint_intent k lineage"
  have auth: "authorisedIntent live_sample_env (Some auth) (Some ?r) = Inr (?r, auth)"
    by (simp add: authorisedIntent_def requireIntent_def m(4) assertLiveExecutionIntentIdentity_def live_sample_env_def
        sample_mint_identity(1) m(5))
  obtain f co' where f: "consumeLiveAdmission auth (ir_intentId ?r) = Some f" "f co = (True, co')"
    using m(1,2,3,6) by (cases "consumeForLiveLocked ''a'' Risk_Sample.sample_sha Risk_Sample.sample_sha co")
      (simp add: consumeLiveAdmission_def)
  obtain ord db1 where e: "ensureIntent live_sample_env 0 ?r empty_db = Inr (ord, db1)" using live_sample_recorded by blast
  show thesis by (rule that[OF auth _ _ e f]) simp_all
qed

lemma live_sample_content: "ic_action sample_mint_content = OPEN" "ic_admissionId sample_mint_content = Some Risk_Sample.sample_sha"
  by (simp_all add: sample_mint_content_def)

lemma empty_db_simps [simp]:
  "db_intents empty_db i = None" "db_consumptions empty_db i = None" "db_consumptionOfIntent empty_db i = None"
  "order_of empty_db i = None"
  by (simp_all add: empty_db_def order_of_def)

text \<open>A reachable world in which the request has been handed over.\<close>

definition sent_world :: "world \<Rightarrow> bool" where
  "sent_world w \<longleftrightarrow> service_reachable live_sample_env w \<and> (0, Risk_Sample.sample_sha) \<in> set (wo_sent w) \<and> 0 \<notin> wo_refused w
     \<and> (\<exists>row v. db_intents (wo_db w) Risk_Sample.sample_sha = Some row \<and> verifyStoredIntentIntegrity same_sha row = Inr v
          \<and> ic_action (ir_content (vi_intent v)) = OPEN)"

lemma live_sample_sent: "\<exists>w. sent_world w"
proof -
  obtain r a co f co' ord db1 where o: "authorisedIntent live_sample_env (Some a) (Some r) = Inr (r, a)"
      "ir_intentId r = Risk_Sample.sample_sha" "ir_content r = sample_mint_content"
      "ensureIntent live_sample_env 0 r empty_db = Inr (ord, db1)"
      "consumeLiveAdmission a (ir_intentId r) = Some f" "f co = (True, co')"
    by (rule live_sample_opening)
  let ?c = "\<lparr>ca_intent = r, ca_authority = a, ca_phase = STARTED\<rparr>"
  have pre: "content_durable (ir_content r)" "db_intents empty_db (ir_intentId r) = None"
      "ic_action (ir_content r) = OPEN" "ic_admissionId (ir_content r) = Some Risk_Sample.sample_sha"
      "db_consumptions empty_db Risk_Sample.sample_sha = None" "db_consumptionOfIntent empty_db (ir_intentId r) = None"
    using o(3) live_sample_durable live_sample_content by simp_all
  note placed = opening_run[where clock = "\<lambda>_. 0" and consume = f and co = co,
      OF o(1) live_sample_env_law pre(1,2) o(4) pre(3-6) o(5,6)]
  obtain db2 row v where run: "run_alone live_sample_env (\<lambda>_. 0) (PLACE_AMBIGUOUS []) 4 ?c empty_db co = (PLACED (reserved_row ord), db2, co')"
      and v: "db_intents db2 (ir_intentId r) = Some row" "verifyStoredIntentIntegrity (env_sha live_sample_env) row = Inr v"
        "ir_content (vi_intent v) = ir_content r"
    using placed by blast
  let ?w = "\<lparr>wo_db = empty_db, wo_co = co, wo_calls = Map.empty, wo_sent = [], wo_refused = {}\<rparr>"
  have "service_reachable live_sample_env ?w" by (rule service_reachable.start) (simp add: db_keyed_def)
  from service_reachable.step[OF this begin_call[of _ 0, OF _ _ o(1)]]
  have w1: "service_reachable live_sample_env (?w\<lparr>wo_calls := [0 \<mapsto> ?c]\<rparr>)" by simp
  from run_alone_reachable[OF w1, of 0 ?c "\<lambda>_. 0" "PLACE_AMBIGUOUS []" 4] run
  obtain w where w: "service_reachable live_sample_env w" "wo_calls w 0 = Some (?c\<lparr>ca_phase := PLACED (reserved_row ord)\<rparr>)"
      "wo_refused w = {}" "wo_db w = db2"
    by auto
  have "call_ok w 0 (?c\<lparr>ca_phase := PLACED (reserved_row ord)\<rparr>)" by (rule wf_call[OF service_wf[OF w(1)] w(2)])
  then have s: "(0, Risk_Sample.sample_sha) \<in> set (wo_sent w)" using o(2) by (simp add: call_ok_def)
  have e: "env_sha live_sample_env = same_sha" by (simp add: live_sample_env_def)
  show ?thesis
    unfolding sent_world_def using w s v[unfolded o(2,3) e] live_sample_content(1) by (intro exI[of _ w] conjI) auto
qed

theorem order_sent_once_witness:
  "\<exists>w. sent_world w \<and> length (filter (\<lambda>(n, j). j = Risk_Sample.sample_sha \<and> n \<notin> wo_refused w) (wo_sent w)) \<le> 1
     \<and> dispatched (wo_db w) Risk_Sample.sample_sha"
proof -
  obtain w where w: "sent_world w" using live_sample_sent by blast
  then have "service_reachable live_sample_env w" by (simp add: sent_world_def)
  from order_sent_once[OF this, of Risk_Sample.sample_sha] w show ?thesis
    by (intro exI[of _ w]) (auto simp: sent_world_def)
qed

theorem admission_sent_once_witness:
  "\<exists>w. sent_world w \<and> (\<forall>m. (m, Risk_Sample.sample_sha) \<in> set (wo_sent w) \<and> m \<notin> wo_refused w \<longrightarrow> m = 0)"
proof -
  obtain w where w: "sent_world w" using live_sample_sent by blast
  then obtain row v where r: "service_reachable live_sample_env w" "(0, Risk_Sample.sample_sha) \<in> set (wo_sent w)"
      "0 \<notin> wo_refused w" "db_intents (wo_db w) Risk_Sample.sample_sha = Some row"
      "verifyStoredIntentIntegrity (env_sha live_sample_env) row = Inr v" "ic_action (ir_content (vi_intent v)) = OPEN"
    unfolding sent_world_def by (auto simp: live_sample_env_def)
  have "0 = m" if "(m, Risk_Sample.sample_sha) \<in> set (wo_sent w)" "m \<notin> wo_refused w" for m
    using admission_sent_once[OF r(1,2,3) that r(4,5,4,5,6,6) refl] by blast
  with w show ?thesis by blast
qed

theorem steps_implement_dispatch_witness:
  "\<exists>r a out db' co'. authorisedIntent live_sample_env (Some a) (Some r) = Inr (r, a)
     \<and> run_alone live_sample_env (\<lambda>_. 0) (PLACE_AMBIGUOUS ''t'') 6 \<lparr>ca_intent = r, ca_authority = a, ca_phase = STARTED\<rparr>
         empty_db new_coordinator = (FINISHED out, db', co')"
proof -
  obtain r a where o: "authorisedIntent live_sample_env (Some a) (Some r) = Inr (r, a)" by (rule live_sample_opening)
  let ?g = "\<lparr>gt_placeOrder = (\<lambda>_. PLACE_AMBIGUOUS ''t''), gt_cancelOrder = (\<lambda>_. CANCEL_UNKNOWN ''t''),
      gt_fetchOrder = (\<lambda>_. FETCH_NOT_FOUND)\<rparr>"
  obtain out db' co' where "dispatch live_sample_env undefined (\<lambda>_. 0) ?g (Some a) (Some r) empty_db new_coordinator = (out, db', co')"
    by (metis prod_cases3)
  with steps_implement_dispatch[OF o, of "\<lambda>_. 0" ?g undefined empty_db new_coordinator]
  have "run_alone live_sample_env (\<lambda>_. 0) (PLACE_AMBIGUOUS ''t'') 6 \<lparr>ca_intent = r, ca_authority = a, ca_phase = STARTED\<rparr>
      empty_db new_coordinator = (FINISHED out, db', co')" by simp
  with o show ?thesis by blast
qed

theorem dispatch_ends_witness:
  "\<forall>a. \<exists>out db' co'. run_among sample_env
       (replicate 6 \<lparr>iv_database = (\<lambda>_. empty_db), iv_coordinator = (\<lambda>_. new_coordinator), iv_now = 5, iv_answer = PLACE_AMBIGUOUS ''t''\<rparr>)
       \<lparr>ca_intent = sample_intent BUY, ca_authority = a, ca_phase = STARTED\<rparr> (sample_db BUY) new_coordinator
     = (FINISHED out, db', co')"
  by (intro allI dispatch_ends) simp

theorem fresh_opening_placed_witness:
  "\<exists>r a db2 co co' ord. authorisedIntent live_sample_env (Some a) (Some r) = Inr (r, a)
     \<and> lo_state ord = DISPATCH_RESERVED \<and> order_of db2 Risk_Sample.sample_sha = Some ord
     \<and> run_alone live_sample_env (\<lambda>_. 0) (PLACE_AMBIGUOUS ''t'') 4 \<lparr>ca_intent = r, ca_authority = a, ca_phase = STARTED\<rparr>
         empty_db co = (PLACED ord, db2, co')"
proof -
  obtain r a co f co' ord db1 where o: "authorisedIntent live_sample_env (Some a) (Some r) = Inr (r, a)"
      "ir_intentId r = Risk_Sample.sample_sha" "ir_content r = sample_mint_content"
      "ensureIntent live_sample_env 0 r empty_db = Inr (ord, db1)"
      "consumeLiveAdmission a (ir_intentId r) = Some f" "f co = (True, co')"
    by (rule live_sample_opening)
  have pre: "content_durable (ir_content r)" "db_intents empty_db (ir_intentId r) = None"
      "ic_action (ir_content r) = OPEN" "ic_admissionId (ir_content r) = Some Risk_Sample.sample_sha"
      "db_consumptions empty_db Risk_Sample.sample_sha = None" "db_consumptionOfIntent empty_db (ir_intentId r) = None"
    using o(3) live_sample_durable live_sample_content by simp_all
  note placed = fresh_opening_placed[where clock = "\<lambda>_. 0" and consume = f and co = co,
      OF o(1) live_sample_env_law pre(1,2) o(4) pre(3-6) o(5,6)]
  show ?thesis using placed o(1) unfolding o(2) by blast
qed

subsection \<open>A cancelled order\<close>

text \<open>The order of the repository sample once the venue has acknowledged it.\<close>

definition sample_open_order :: live_order where
  "sample_open_order = sample_initial\<lparr>lo_state := ACKNOWLEDGED, lo_exchangeOrderId := Some ''x1''\<rparr>"

definition open_db :: live_db where
  "open_db = put_order 0 ''i1'' sample_open_order (sample_db BUY)"

definition sample_answers :: "cancel_result \<Rightarrow> gateway" where
  "sample_answers r = \<lparr>gt_placeOrder = (\<lambda>_. PLACE_AMBIGUOUS ''t''), gt_cancelOrder = (\<lambda>_. r), gt_fetchOrder = (\<lambda>_. FETCH_NOT_FOUND)\<rparr>"

definition sample_vi :: verified_intent where
  "sample_vi = \<lparr>vi_intent = sample_intent BUY, vi_digest = iw_contentSha256 (sample_row BUY)\<rparr>"

lemma open_read:
  assumes "ord = sample_open_order \<or> ord = cancel_claimed_row sample_open_order
     \<or> ord = completed_row k fc (cancel_claimed_row sample_open_order)"
    and "order_of db ''i1'' = Some ord" and "db_intents db ''i1'' = Some (sample_row BUY)"
  shows "requireVerifiedOrder (\<lambda>t. t) e db ''i1'' = Inr (ord, sample_vi)"
  unfolding sample_vi_def
  by (rule sample_read[OF assms(2,3)])
    (use assms(1) in \<open>auto simp: sample_open_order_def cancel_claimed_row_def completed_row_def sample_initial_def\<close>)

lemma open_db_row:
  "order_of open_db ''i1'' = Some sample_open_order" "db_intents (put_order n i r open_db) ''i1'' = Some (sample_row BUY)"
  "db_intents open_db ''i1'' = Some (sample_row BUY)" "db_orders open_db ''i1'' = Some \<lparr>ow_order = sample_open_order, ow_updatedAt = 0\<rparr>"
  by (simp_all add: open_db_def sample_db_def) (simp_all add: put_order_def)

lemma open_projection:
  assumes "requireVerifiedOrder (\<lambda>t. t) e db ''i1'' = Inr (ord, sample_vi)"
  shows "assertOrderProjectionMatchesIntent ord sample_vi = Inr ()"
  using require_Inr(3)[OF assms] .

lemma open_claimed:
  "claimCancel sample_env 0 ''i1'' ''a1'' open_db =
     Inr (CANCEL_CLAIMED (cancel_claimed_row sample_open_order) 1, put_order 0 ''i1'' (cancel_claimed_row sample_open_order) open_db)"
proof -
  have e: "env_sha sample_env = (\<lambda>t. t)" by (simp add: sample_env_def)
  have r: "requireVerifiedOrder (\<lambda>t. t) LIVE_INTENT_INVALID open_db ''i1'' = Inr (sample_open_order, sample_vi)"
    by (rule open_read) (simp_all add: open_db_row)
  have p: "assertOrderProjectionMatchesIntent (cancel_claimed_row sample_open_order) sample_vi = Inr ()"
    by (rule open_projection[OF open_read[of _ _ _ "put_order 0 ''i1'' (cancel_claimed_row sample_open_order) open_db"]])
      (simp_all add: open_db_row)
  have f: "lo_accountId sample_open_order = ''a1''" "lo_state sample_open_order = ACKNOWLEDGED"
      "lo_exchangeOrderId sample_open_order = Some ''x1''" "lo_cancelState sample_open_order = NONE"
      "lo_cancelGeneration sample_open_order = 0"
    by (simp_all add: sample_open_order_def sample_initial_def)
  have c: "sample_open_order\<lparr>lo_state := CANCEL_REQUESTED, lo_cancelState := CANCEL_RESERVED, lo_cancelGeneration := 1,
      lo_cancelExchangeOrderId := Some ''x1'', lo_cancelFaultCode := None, lo_revision := lo_revision sample_open_order + 1\<rparr>
      = cancel_claimed_row sample_open_order"
    by (simp add: cancel_claimed_row_def f)
  have t: "toStateRecord \<lparr>ow_order = cancel_claimed_row sample_open_order, ow_updatedAt = 0\<rparr> = Inr (cancel_claimed_row sample_open_order)"
    by (simp add: toStateRecord_def bigIntToNumber_def cancel_claimed_row_def sample_open_order_def sample_initial_def)
  show ?thesis
    unfolding claimCancel_def e r by (simp add: f open_db_row c p t NOT_CANCELLABLE_STATES_def Let_def)
qed

lemma open_completed:
  assumes "k \<noteq> CC_ACKNOWLEDGED"
  shows "completeCancelAttempt sample_env 0 ''i1'' 1 k fc (put_order 0 ''i1'' (cancel_claimed_row sample_open_order) open_db) =
    Inr (completed_row k fc (cancel_claimed_row sample_open_order),
      put_order 0 ''i1'' (completed_row k fc (cancel_claimed_row sample_open_order))
        (put_order 0 ''i1'' (cancel_claimed_row sample_open_order) open_db))"
proof -
  let ?a = "cancel_claimed_row sample_open_order"
  let ?db = "put_order 0 ''i1'' ?a open_db"
  have e: "env_sha sample_env = (\<lambda>t. t)" by (simp add: sample_env_def)
  have r: "requireVerifiedOrder (\<lambda>t. t) x ?db ''i1'' = Inr (?a, sample_vi)" for x
    by (rule open_read) (simp_all add: open_db_row)
  have r': "requireVerifiedOrder (\<lambda>t. t) x (put_order 0 ''i1'' (completed_row k fc ?a) ?db) ''i1'' = Inr (completed_row k fc ?a, sample_vi)" for x
    by (rule open_read[of _ k fc]) (simp_all add: open_db_row put_order_def[of _ _ "completed_row k fc ?a"] order_of_def)
  have f: "lo_cancelState ?a = CANCEL_RESERVED" "lo_cancelGeneration ?a = 1" "lo_orderedQuantity ?a = ''2''"
    by (simp_all add: cancel_claimed_row_def sample_open_order_def sample_initial_def)
  have q: "canonicalLiveDecimalString (Some ''2'') = Inr ''2''"
    using sample_canonical(2)[THEN canonical_of_positive] by simp
  have n: "completion_state k \<noteq> CANCEL_RESERVED" by (cases k) simp_all
  have u: "updateManyOrder 0 ''i1'' (\<lambda>row. pinned ?a ''2'' row \<and> lo_cancelGeneration row = 1 \<and> lo_cancelState row = CANCEL_RESERVED)
      (completed_row k fc) ?db = (1, put_order 0 ''i1'' (completed_row k fc ?a) ?db)"
    by (simp add: updateManyOrder_def put_order_def pinned_def f)
  show ?thesis
    unfolding completeCancelAttempt_def e r
    using n u r' by (simp add: f q completed_row_def[abs_def] Let_def)
qed

lemma open_cancel:
  "fst (cancelDurable sample_env policy 0 (\<lambda>_. 0) (sample_answers (CANCEL_REFUSED ''r'')) ''i1'' ''a1'' open_db)
     \<noteq> fst (cancelDurable sample_env policy 0 (\<lambda>_. 0) (sample_answers (CANCEL_UNKNOWN ''r'')) ''i1'' ''a1'' open_db)"
proof -
  have e: "env_sha sample_env = (\<lambda>t. t)" by (simp add: sample_env_def)
  have r: "requireVerifiedOrder (\<lambda>t. t) LIVE_INTENT_INVALID open_db ''i1'' = Inr (sample_open_order, sample_vi)"
    by (rule open_read) (simp_all add: open_db_row)
  have f: "lo_accountId sample_open_order = ''a1''" "lo_state sample_open_order = ACKNOWLEDGED"
      "lo_exchangeOrderId (cancel_claimed_row sample_open_order) = Some ''x1''"
    by (simp_all add: sample_open_order_def sample_initial_def cancel_claimed_row_def)
  have m: "markExpiredDispatchUnresolved sample_env 0 ''i1'' ''a1'' c open_db = Inr (sample_open_order, open_db)" for c
    unfolding markExpiredDispatchUnresolved_def e r by (simp add: f open_db_row)
  have t: "\<not> isLiveTerminalState ACKNOWLEDGED" by code_simp
  show ?thesis
    by (simp add: cancelDurable_def m f t cancelClaimed_def open_claimed settleCancel_def sample_answers_def settle_def
        open_completed reportCancel_def)
qed

theorem cancel_asked_once_witness:
  "\<forall>policy g1 g2. \<exists>out db'. cancelDurable sample_env policy 0 (\<lambda>_. 0) (sample_answers (CANCEL_REFUSED ''r'')) ''i1'' ''a1'' open_db = (out, db')
     \<and> cancelDurable sample_env policy 9 (\<lambda>_. 9) g1 ''i1'' ''a1'' db' = cancelDurable sample_env policy 9 (\<lambda>_. 9) g2 ''i1'' ''a1'' db'"
proof (intro allI)
  fix policy g1 g2
  obtain out db' where c: "cancelDurable sample_env policy 0 (\<lambda>_. 0) (sample_answers (CANCEL_REFUSED ''r'')) ''i1'' ''a1'' open_db = (out, db')"
    by fastforce
  have "cancelDurable sample_env policy 0 (\<lambda>_. 0) (sample_answers (CANCEL_UNKNOWN ''r'')) ''i1'' ''a1'' open_db \<noteq> (out, db')"
    using open_cancel[of policy] c by auto
  from cancel_asked_once[OF c this rtranclp.rtrancl_refl] c
  show "\<exists>out db'. cancelDurable sample_env policy 0 (\<lambda>_. 0) (sample_answers (CANCEL_REFUSED ''r'')) ''i1'' ''a1'' open_db = (out, db')
     \<and> cancelDurable sample_env policy 9 (\<lambda>_. 9) g1 ''i1'' ''a1'' db' = cancelDurable sample_env policy 9 (\<lambda>_. 9) g2 ''i1'' ''a1'' db'"
    by blast
qed

end
