(* ===== verification/Spec2Isabelle.thy ===== *)
theory Spec2Isabelle
  imports Live_Service_Sample
begin

text \<open>
  A verification of the order path of an INR-margined futures trading bot: from a closed candle to at most one
  order at the venue.

  \<^bold>\<open>The program.\<close> A strategy kernel (\<^verbatim>\<open>src/strategies\<close>) turns closed candles and indicator points into
  numbered decisions. A decision is evaluated by the risk engine (\<^verbatim>\<open>src/risk\<close>) against the evidence on the
  account, the pair and the tiers of the venue, and sized. The admission coordinator (\<^verbatim>\<open>src/dispatch\<close>) runs
  that evaluation with the capacity already granted added to what is pending, and grants an accepted opening. With
  the research approval of the strategy (\<^verbatim>\<open>src/research\<close>) and an enabled account and pair, the authority
  of live execution (\<^verbatim>\<open>src/execution/live\<close>) mints an intent from the grant. The service stores the intent,
  reserves its dispatch, consumes the grant, sends the request through the gateway port, and folds what the venue
  reports into the stored order.

  \<^bold>\<open>Theories and files.\<close>
  \<^item> \<open>Prelude\<close>: results as sums with the error on the left, \<open>rbind\<close>, collections of rules. No code.
  \<^item> \<open>Decimal_Text\<close>, \<open>Decimal_Context\<close>, \<open>Decimal_Code\<close>: decimal text and the numbers
    it denotes; decimal.js as the locale \<open>decimal_lib\<close>, a rounding function with laws, interpreted on
    rounding half up at 128 digits.
  \<^item> \<open>Canonical_Json\<close>: \<^verbatim>\<open>backtest/canonical-json.ts\<close>. The text determines the value, so digests of it
    identify contents.
  \<^item> \<open>Risk_Types\<close>, \<open>Risk_Decimal\<close>, \<open>Risk_Calc\<close>, \<open>Risk_Rules\<close>,
    \<open>Risk_Evidence\<close>, \<open>Risk_Sizing\<close>, \<open>Risk_Policy\<close>, \<open>Risk_Validation\<close>,
    \<open>Risk_Engine\<close>: the files of \<^verbatim>\<open>risk\<close>, with the vocabulary of \<^verbatim>\<open>strategies/core\<close> a
    decision is made of; \<open>Risk_Sample\<close> is a run on concrete evidence.
  \<^item> \<open>Strategy_Kernel\<close>, \<open>Strategy_Definitions\<close>: \<^verbatim>\<open>strategies/core/kernel.ts\<close> and the four
    strategies of \<^verbatim>\<open>strategies/implementations\<close>.
  \<^item> \<open>Admission\<close>: \<^verbatim>\<open>dispatch/admission.ts\<close>, with the evaluator as an argument.
  \<^item> \<open>Live_Types\<close>, \<open>Live_Decimal\<close>, \<open>Live_Constraints\<close>, \<open>Live_Policy\<close>,
    \<open>Live_Gate\<close>, \<open>Live_Intent\<close>, \<open>Live_Order\<close>, \<open>Live_Repository\<close>,
    \<open>Live_Authority\<close>, \<open>Live_Service\<close>: the files of \<^verbatim>\<open>execution/live\<close> of the same names
    (\<open>Live_Order\<close> is \<^verbatim>\<open>state-machine.ts\<close>, \<open>Live_Intent\<close> holds \<^verbatim>\<open>intent.ts\<close> and
    \<^verbatim>\<open>identity.ts\<close>). \<open>Live_Store\<close> states what the repository promises its callers;
    \<open>Live_Mint_Sample\<close> and \<open>Live_Service_Sample\<close> are concrete runs.
  \<^item> This theory joins the admission coordinator and the risk engine.

  \<^bold>\<open>How the code is represented.\<close> Definitions have the names of the functions they model; a locked or
  transactional operation is one function from the state to a result, and a throw is the left of a sum and leaves
  the state as it was unless the code had already committed a part, in which case the state is returned with it. An
  object is a record, \<^verbatim>\<open>null\<close> is \<open>None\<close>, a union is a datatype. A \<^verbatim>\<open>Map\<close> whose order matters is an
  association list, a table of the database a map from its key. An amount is the text the code carries, and its
  arithmetic is that of the rationals the texts denote, rounded where decimal.js rounds. Counters and timestamps
  are integers, with the range checks of the code. What JavaScript has to check of the shape of a value at run time
  is its type here. Where several callers interleave, the behaviours are step relations: orders
  (\<open>order_step\<close>), kernels (\<open>kernel_reachable\<close>), the coordinator (\<open>admission_step\<close>), and
  dispatches with a database and crashes between any two awaits (\<open>service_step\<close>).

  \<^bold>\<open>What is shown.\<close>
  \<^item> Orders: at most one request per intent may have left for the venue, in every interleaving, with crashes; two
    requests for one grant are one intent; a dispatch ends within six of its own steps and is the method when
    nothing comes between; an authorised new opening reaches the venue; a cancellation that depended on the venue is
    not asked again.
  \<^item> Capacity: the two maps of the coordinator agree, the overlay is the exact sum of the grants, a newly
    admitted decision keeps the account within the global cap, and a grant is consumed by one intent.
  \<^item> Risk: whatever the sizing returns respects every limit exactly, because quotients are floored on exact
    products; an accepted opening had fresh authentic evidence and no objection; a decision is a rejection exactly
    when a step has reasons; identities determine what was evaluated.
  \<^item> Policies and input: a policy exists exactly when its limits are canonical and none widens the wider one;
    inputs have a normal form, shown once in the locale \<open>normalizer\<close> and interpreted on every validator.
  \<^item> Minting: the intent is of an issued decision, an approved strategy, a sound evaluation of that very
    decision, and never larger than it.
  \<^item> Storage: a row that verifies is the intent its digest was sealed for; commits are compare-and-set; recording
    twice records once; a reservation has one winner.
  \<^item> Data: canonical decimal text and canonical JSON are complete invariants of what they denote; quantizing never
    raises a quantity or worsens a limit price.

  \<^bold>\<open>Bounds.\<close> Every loop of the code is a recursion over its data, so no fuel is needed. A dispatch is at
  most six steps, which is proved to be enough. Decimal contexts have 128 digits, as in the code.

  \<^bold>\<open>Parameters.\<close> Code that is not in the repository is an argument: the digest (SHA-256, with the hypothesis
  that it does not collide where it has to identify its content), decimal.js (\<open>decimal_js\<close>, \<open>calc_js\<close>,
  under the laws of the two locales), the gateway to the venue, the clock, and what a DECIMAL(36,18) column gives
  back for a text (\<open>env_stored\<close>). Strategy definitions are a list the engine is given, and \<open>Strategy_Definitions\<close>
  provides the registered one.

  \<^bold>\<open>Not modelled.\<close> The HTTP and websocket clients of the venue, market data and indicators, the paper
  execution, the backtest and the research that produces approvals, process wiring, logging and configuration: they
  feed the order path or observe it, and their effect on it is an argument or an arbitrary step here. Messages and
  detail objects of errors, freezing of objects, and the weak sets and symbols by which the code recognises its own
  objects are not represented; what they protect is the type of the value.
\<close>

section \<open>Admission with the risk engine\<close>

text \<open>
  The coordinator of \<^verbatim>\<open>src/dispatch/admission.ts\<close> is proved under an evaluator. Here it is the risk engine itself, made
  anew from the policy of the request as the code does, on the context that carries the overlay of what is already
  admitted.
\<close>

text \<open>Normalizing an exposure keeps the amounts that are summed.\<close>

lemma exposureSnapshotV_same:
  assumes "exposureSnapshotV x = Inr y" and "ex_pending x = KNOWN k"
  obtains k' where "ex_pending y = KNOWN k'" and "text_value (kp_globalPendingNotionalInr k') = text_value (kp_globalPendingNotionalInr k)"
    and "text_value (ex_globalOpenNotionalInr y) = text_value (ex_globalOpenNotionalInr x)"
proof -
  from assms(1) obtain g p where g: "canonicalDecimalString (ex_globalOpenNotionalInr x) = Inr g" and p: "pendingV (ex_pending x) = Inr p"
    and y: "ex_globalOpenNotionalInr y = g" "ex_pending y = p"
    unfolding exposureSnapshotV_def by (elim rbindE) auto
  from p assms(2) obtain k' t where k': "p = KNOWN k'" "canonicalDecimalString (kp_globalPendingNotionalInr k) = Inr t"
      "kp_globalPendingNotionalInr k' = t"
    by (auto simp: pendingV_def elim!: rbindE)
  from that[of k'] canonicalDecimalString_value[OF g] canonicalDecimalString_value[OF k'(2)] y k' show thesis
    by simp
qed

lemma overlayPending_Inr:
  assumes "overlayPending sha D co a ctx None = Inr ctx'" and "rc_exposureSnapshot ctx = Some x"
  obtains p x' where "buildPending D (ex_pending x) (admitted_records co a None) = Inr p"
    and "rc_exposureSnapshot ctx' = Some x'" and "ex_pending x' = p" and "ex_globalOpenNotionalInr x' = ex_globalOpenNotionalInr x"
  using assms by (auto simp: overlayPending_def Let_def elim!: rbindE)

text \<open>C3. Capacity is bounded over all admissions: when a decision is admitted that was not admitted before, what is open,
  what was reported pending, every grant still admitted and the new grant together keep within the caps of the
  policy on open and on concurrent exposure. The sum is exact.\<close>

theorem admission_respects_global_cap:
  assumes "risk_arith C" and "newRiskEngine sha (cj_D C) policy = Inr p"
    and "admitLocked sha (cj_D C) (live_engine sha definitions C policy) \<lparr>rq_accountId = a, rq_context = ctx\<rparr> co =
           Inr (OUT_ADMITTED o' r, co')"
    and "\<forall>e. map_of (entries_of co a) (sd_decisionId (rc_strategyDecision ctx)) = Some e \<longrightarrow> ad_status (et_record e) = RELEASED"
    and "rc_exposureSnapshot ctx = Some x" and "pending_texts (ex_pending x)"
    and "\<forall>g\<in>set (admitted_records co a None). signed_text (ad_approvedNotionalInr g)"
  shows "text_value (ex_globalOpenNotionalInr x) + known_value (\<lambda>k. text_value (kp_globalPendingNotionalInr k)) (ex_pending x)
      + granted (admitted_records co a None) + text_value (ad_approvedNotionalInr r)
    \<le> min (text_value (gc_globalMaxOpenNotionalInr (rp_globalConfig p)))
          (text_value (mc_maxConcurrentExposureInr (rp_modeConfig p)))"
proof -
  have lib: "decimal_lib (cj_D C) 128" using assms(1) by (simp add: risk_arith_def)
  have fresh: "admitFresh sha (cj_D C) (live_engine sha definitions C policy) a ctx co = Inr (OUT_ADMITTED o' r, co')"
    using assms(3)
  proof (cases rule: admitLocked_Inr)
    case kept
    then obtain e where "map_of (entries_of co a) (sd_decisionId (rc_strategyDecision ctx)) = Some e" "ad_status (et_record e) = ADMITTED"
      by fastforce
    with assms(4) show ?thesis by fastforce
  next
    case (healed e o'')
    with assms(4) show ?thesis by fastforce
  next
    case fresh
    then show ?thesis by simp
  qed
  obtain dir k ctx' where r: "r = (admission_draft co a (rc_strategyDecision ctx) dir o')\<lparr>ad_admissionId := k\<rparr>"
    and over: "overlayPending sha (cj_D C) co a ctx None = Inr ctx'"
    and run: "live_engine sha definitions C policy ctx' = Inr (ACCEPTED_OPEN o')"
    using fresh
  proof (cases rule: admitFresh_Inr)
    case kept
    then show thesis by (metis (no_types))
  next
    case fresh
    then show thesis using that by auto
  qed
  obtain pend x' where pend: "buildPending (cj_D C) (ex_pending x) (admitted_records co a None) = Inr pend"
    and x': "rc_exposureSnapshot ctx' = Some x'" "ex_pending x' = pend" "ex_globalOpenNotionalInr x' = ex_globalOpenNotionalInr x"
    by (rule overlayPending_Inr[OF over assms(5)])
  obtain kp where kp: "pend = KNOWN kp" and sum: "text_value (kp_globalPendingNotionalInr kp) =
      known_value (\<lambda>k. text_value (kp_globalPendingNotionalInr k)) (ex_pending x) + granted (admitted_records co a None)"
    using decimal_lib.buildPending_Inr[OF lib assms(6,7)] pend by auto
  obtain b ap where o': "o' = (b, ap)" by (cases o')
  have decided: "evaluateRisk sha definitions C p ctx' = Inr (ACCEPTED_OPEN (b, ap))"
    using run assms(2) by (auto simp: live_engine_accepts o')
  obtain n v where n: "engine_normalize (cj_D C) p ctx' = Inr n" and ap: "ap = approved_of_sizing v"
    and sound: "opening_sound sha definitions C p n v"
    by (rule accepted_opening[OF assms(1) newRiskEngine_made[OF assms(2)] decided])
  obtain m where m: "normalizeRiskEvaluationContext ctx' = Inr m" and nm: "n = m\<lparr>rc_override := rc_override n\<rparr>"
    by (rule engine_normalize_ok[OF n])
  have "rc_exposureSnapshot n = rc_exposureSnapshot m" by (subst nm) simp
  moreover obtain y where "nullableR exposureSnapshotV (rc_exposureSnapshot ctx') = Inr (rc_exposureSnapshot m)"
    using m unfolding normalizeRiskEvaluationContext_def by (elim rbindE) auto
  ultimately obtain y where y: "exposureSnapshotV x' = Inr y" "rc_exposureSnapshot n = Some y"
    using x'(1) by (auto simp: nullableR_def rbind_eq_Inr)
  have x'k: "ex_pending x' = KNOWN kp" using x'(2) kp by simp
  obtain k' where k': "ex_pending y = KNOWN k'" "text_value (kp_globalPendingNotionalInr k') = text_value (kp_globalPendingNotionalInr kp)"
    "text_value (ex_globalOpenNotionalInr y) = text_value (ex_globalOpenNotionalInr x')"
    by (rule exposureSnapshotV_same[OF y(1) x'k])
  have "exposure_within (sizing_request_of n OPEN_ACTION) p y k' v"
    using sound y(2) k'(1) unfolding opening_sound_def within_all_limits_def Let_def
    by (auto simp: sizing_request_of_def)
  then have "text_value (ex_globalOpenNotionalInr y) + text_value (kp_globalPendingNotionalInr k') + text_value (sv_finalNotionalInr v)
      \<le> min (text_value (gc_globalMaxOpenNotionalInr (rp_globalConfig p)))
          (text_value (mc_maxConcurrentExposureInr (rp_modeConfig p)))"
    unfolding exposure_within_def Let_def by blast
  moreover have "ad_approvedNotionalInr r = sv_finalNotionalInr v"
    by (simp add: r admission_draft_def o' ap approved_of_sizing_def ao_approvedNotionalInr_def)
  ultimately show ?thesis using k'(2,3) x'(3) sum by (simp add: add.assoc)
qed

theorem admission_respects_global_cap_witness:
  "\<exists>o' r co. admitLocked same_sha (cj_D calc_128) (live_engine same_sha sample_definitions calc_128 sample_risk_policy)
      \<lparr>rq_accountId = ''a'', rq_context = sample_risk_context\<rparr> new_coordinator = Inr (OUT_ADMITTED o' r, co)
    \<and> 10 + text_value (ad_approvedNotionalInr r) \<le> 510"
proof -
  obtain o' r co where run: "admitLocked same_sha (cj_D calc_128) (live_engine same_sha sample_definitions calc_128 sample_risk_policy)
      \<lparr>rq_accountId = ''a'', rq_context = sample_risk_context\<rparr> new_coordinator = Inr (OUT_ADMITTED o' r, co)"
    by (rule sample_first_grant[OF sample_definitions_rebuild])
  have none: "entries_of new_coordinator ''a'' = []" "admitted_records new_coordinator ''a'' None = []"
    by (simp_all add: admitted_records_def entries_of_def new_coordinator_def)
  have pending: "pending_texts (ex_pending sample_risk_exposure)" by code_simp
  have amounts: "text_value (ex_globalOpenNotionalInr sample_risk_exposure) = 10"
    "known_value (\<lambda>k. text_value (kp_globalPendingNotionalInr k)) (ex_pending sample_risk_exposure) = 0"
    "text_value (gc_globalMaxOpenNotionalInr (rp_globalConfig sample_risk_policy)) = 600"
    "text_value (mc_maxConcurrentExposureInr (rp_modeConfig sample_risk_policy)) = 510"
    by code_simp+
  have "text_value (ex_globalOpenNotionalInr sample_risk_exposure)
      + known_value (\<lambda>k. text_value (kp_globalPendingNotionalInr k)) (ex_pending sample_risk_exposure)
      + granted (admitted_records new_coordinator ''a'' None) + text_value (ad_approvedNotionalInr r)
    \<le> min (text_value (gc_globalMaxOpenNotionalInr (rp_globalConfig sample_risk_policy)))
          (text_value (mc_maxConcurrentExposureInr (rp_modeConfig sample_risk_policy)))"
    by (rule admission_respects_global_cap[OF calc_128.risk_arith_axioms sample_engine_made run _ _ pending])
      (simp_all add: none)
  then have "10 + text_value (ad_approvedNotionalInr r) \<le> 510"
    by (simp add: amounts none granted_def)
  with run show ?thesis by blast
qed

end
